(* ===== verification/Prelude.thy ===== *)
theory Prelude
  imports Main "HOL-Library.Sublist"
begin

text \<open>
  The generic part of the library: the fact collections the component theories fill, and
  the lemmas on lists, options and sums they share. Nothing here mentions the program.
  The collection \<open>str_simps\<close> holds the executable definitions on byte strings,
  \<open>res_simps\<close> the definitions on results, and \<open>res_splits\<close> is the bundle of split
  rules used wherever a proof follows the branches of a fallible operation.
\<close>

named_theorems str_simps
named_theorems res_simps

lemmas res_splits = if_splits option.splits sum.splits prod.splits list.splits

section \<open>Results\<close>

text \<open>
  A fallible operation of the source returns \<open>Result<T, E>\<close>; here \<open>'e + 'a\<close> with the
  error on the left. \<open>res_bind\<close> is the \<open>?\<close> operator.
\<close>

definition res_bind :: "'e + 'a \<Rightarrow> ('a \<Rightarrow> 'e + 'b) \<Rightarrow> 'e + 'b" where
  "res_bind r f = (case r of Inl e \<Rightarrow> Inl e | Inr x \<Rightarrow> f x)"

definition map_err :: "('e \<Rightarrow> 'f) \<Rightarrow> 'e + 'a \<Rightarrow> 'f + 'a" where
  "map_err g r = (case r of Inl e \<Rightarrow> Inl (g e) | Inr x \<Rightarrow> Inr x)"

lemma res_bind_simps [simp]:
  "res_bind (Inl e) f = Inl e"
  "res_bind (Inr x) f = f x"
  by (simp_all add: res_bind_def)

lemma map_err_simps [simp]:
  "map_err g (Inl e) = Inl (g e)"
  "map_err g (Inr x) = Inr x"
  by (simp_all add: map_err_def)

lemma res_bind_Inr_iff: "res_bind r f = Inr y \<longleftrightarrow> (\<exists>x. r = Inr x \<and> f x = Inr y)"
  by (cases r) auto

lemma map_err_Inr_iff [simp]: "map_err g r = Inr x \<longleftrightarrow> r = Inr x"
  by (cases r) auto

section \<open>Lists\<close>

text \<open>\<open>Iterator::position\<close>: the 0-based index of the first match.\<close>

fun position :: "('a \<Rightarrow> bool) \<Rightarrow> 'a list \<Rightarrow> nat option" where
  "position p [] = None"
| "position p (x # xs) = (if p x then Some 0 else map_option Suc (position p xs))"

lemma position_Some_iff:
  "position p xs = Some i \<longleftrightarrow>
     i < length xs \<and> p (xs ! i) \<and> (\<forall>j<i. \<not> p (xs ! j))"
proof (induction xs arbitrary: i)
  case Nil
  then show ?case by simp
next
  case (Cons x xs)
  show ?case
    by (cases i) (auto simp: Cons.IH nth_Cons split: nat.splits)
qed

lemma position_None_iff: "position p xs = None \<longleftrightarrow> (\<forall>x\<in>set xs. \<not> p x)"
  by (induction xs) auto

lemma find_None_iff_all: "find p xs = None \<longleftrightarrow> (\<forall>x\<in>set xs. \<not> p x)"
  by (induction xs) auto

lemma find_SomeD: "find p xs = Some x \<Longrightarrow> x \<in> set xs \<and> p x"
  by (induction xs) (auto split: if_splits)

text \<open>\<open>iter().enumerate().find(|(_, x)| p(x))\<close>, counting from \<open>n\<close>.\<close>

fun enum_find :: "('a \<Rightarrow> bool) \<Rightarrow> nat \<Rightarrow> 'a list \<Rightarrow> (nat \<times> 'a) option" where
  "enum_find p n [] = None"
| "enum_find p n (x # xs) = (if p x then Some (n, x) else enum_find p (Suc n) xs)"

lemma enum_find_position:
  "enum_find p n xs = map_option (\<lambda>i. (n + i, xs ! i)) (position p xs)"
  by (induction xs arbitrary: n) (auto simp: option.map_comp comp_def)

lemma enum_find_Some_iff:
  "enum_find p n xs = Some (i, x) \<longleftrightarrow>
     n \<le> i \<and> i < n + length xs \<and> x = xs ! (i - n) \<and> p x \<and> (\<forall>j<i - n. \<not> p (xs ! j))"
  by (auto simp: enum_find_position position_Some_iff) (metis le_add_diff_inverse less_diff_conv2 add.commute)

lemma enum_find_None_iff: "enum_find p n xs = None \<longleftrightarrow> (\<forall>x\<in>set xs. \<not> p x)"
  by (simp add: enum_find_position position_None_iff)

text \<open>Taking a prefix of the right length recognises it.\<close>

lemma take_drop_prefix: "take (length p) s = p \<longleftrightarrow> prefix p s"
  by (metis append_eq_conv_conj append_take_drop_id prefix_def)

end
