(* ===== verification/Rust_Str.thy ===== *)
theory Rust_Str
  imports Prelude
begin

text \<open>
  Rust's \<open>str\<close> as the list of its UTF-8 bytes (an Isabelle \<open>char\<close> is one byte), and the
  methods of the standard library the program calls on it. Lengths and offsets are byte
  counts, as in Rust; \<open>char_count\<close> counts scalar values by skipping continuation bytes,
  and the whitespace functions know every character of Unicode's \<open>White_Space\<close> by its
  encoding, so they agree with \<open>char::is_whitespace\<close> on well-formed text.
\<close>

section \<open>Characters of a UTF-8 string\<close>

text \<open>A continuation byte: the top bits are 10.\<close>

definition is_cont :: "char \<Rightarrow> bool" where
  "is_cont c \<longleftrightarrow> digit7 c \<and> \<not> digit6 c"

text \<open>\<open>s.chars().count()\<close>\<close>

definition char_count :: "string \<Rightarrow> nat" where
  "char_count s = length (filter (\<lambda>c. \<not> is_cont c) s)"

text \<open>\<open>s.is_char_boundary(i)\<close>\<close>

definition is_char_boundary :: "string \<Rightarrow> nat \<Rightarrow> bool" where
  "is_char_boundary s i \<longleftrightarrow>
     (i = 0 \<or> i = length s \<or> (i < length s \<and> \<not> is_cont (s ! i)))"

text \<open>\<open>s.chars().take(n).collect()\<close>: everything before the byte that starts character
  number \<open>n\<close>.\<close>

fun take_chars :: "nat \<Rightarrow> string \<Rightarrow> string" where
  "take_chars n [] = []"
| "take_chars n (c # s) =
     (if is_cont c then c # take_chars n s
      else if n = 0 then [] else c # take_chars (n - 1) s)"

lemma char_count_Nil [simp]: "char_count [] = 0"
  by (simp add: char_count_def)

lemma char_count_Cons [simp]:
  "char_count (c # s) = (if is_cont c then char_count s else Suc (char_count s))"
  by (simp add: char_count_def)

lemma char_count_append [simp]: "char_count (s @ t) = char_count s + char_count t"
  by (simp add: char_count_def)

lemma char_count_le_length: "char_count s \<le> length s"
  by (simp add: char_count_def)

lemma take_chars_prefix: "prefix (take_chars n s) s"
  by (induction n s rule: take_chars.induct) auto

lemma char_count_take_chars: "char_count (take_chars n s) = min n (char_count s)"
  by (induction n s rule: take_chars.induct) (auto simp: min_def)

section \<open>Whitespace\<close>

text \<open>
  The byte length of the whitespace character \<open>s\<close> starts with, 0 when it starts with
  none: U+0009-U+000D and U+0020 in one byte, U+0085 and U+00A0 in two, U+1680,
  U+2000-U+200A, U+2028, U+2029, U+202F, U+205F and U+3000 in three.
\<close>

definition ascii_ws :: "char \<Rightarrow> bool" where
  "ascii_ws c \<longleftrightarrow> c \<in> {CHR 0x09, CHR 0x0A, CHR 0x0B, CHR 0x0C, CHR 0x0D, CHR 0x20}"

definition ws2 :: "char \<Rightarrow> char \<Rightarrow> bool" where
  "ws2 a b \<longleftrightarrow> a = CHR 0xC2 \<and> (b = CHR 0x85 \<or> b = CHR 0xA0)"

definition ws3 :: "char \<Rightarrow> char \<Rightarrow> char \<Rightarrow> bool" where
  "ws3 a b c \<longleftrightarrow>
     (a = CHR 0xE1 \<and> b = CHR 0x9A \<and> c = CHR 0x80)
   \<or> (a = CHR 0xE2 \<and> b = CHR 0x80 \<and>
        c \<in> {CHR 0x80, CHR 0x81, CHR 0x82, CHR 0x83, CHR 0x84, CHR 0x85, CHR 0x86,
             CHR 0x87, CHR 0x88, CHR 0x89, CHR 0x8A, CHR 0xA8, CHR 0xA9, CHR 0xAF})
   \<or> (a = CHR 0xE2 \<and> b = CHR 0x81 \<and> c = CHR 0x9F)
   \<or> (a = CHR 0xE3 \<and> b = CHR 0x80 \<and> c = CHR 0x80)"

fun ws_len :: "string \<Rightarrow> nat" where
  "ws_len [] = 0"
| "ws_len [a] = (if ascii_ws a then 1 else 0)"
| "ws_len [a, b] = (if ascii_ws a then 1 else if ws2 a b then 2 else 0)"
| "ws_len (a # b # c # s) =
     (if ascii_ws a then 1 else if ws2 a b then 2 else if ws3 a b c then 3 else 0)"

text \<open>The same at the end of a string, given reversed.\<close>

fun ws_len_rev :: "string \<Rightarrow> nat" where
  "ws_len_rev [] = 0"
| "ws_len_rev [a] = (if ascii_ws a then 1 else 0)"
| "ws_len_rev [a, b] = (if ascii_ws a then 1 else if ws2 b a then 2 else 0)"
| "ws_len_rev (a # b # c # s) =
     (if ascii_ws a then 1 else if ws2 b a then 2 else if ws3 c b a then 3 else 0)"

lemma ws_len_le: "ws_len s \<le> length s"
  by (cases s rule: ws_len.cases) auto

lemma ws_len_rev_le: "ws_len_rev s \<le> length s"
  by (cases s rule: ws_len_rev.cases) auto

text \<open>\<open>s.starts_with(char::is_whitespace)\<close>\<close>

definition starts_with_ws :: "string \<Rightarrow> bool" where
  "starts_with_ws s \<longleftrightarrow> 0 < ws_len s"

function trim_start :: "string \<Rightarrow> string" where
  "trim_start s = (if ws_len s = 0 then s else trim_start (drop (ws_len s) s))"
  by pat_completeness auto
termination
proof (relation "measure length", goal_cases)
  case 1
  then show ?case by simp
next
  case (2 s)
  then show ?case using ws_len_le [of s] by simp
qed

function trim_start_rev :: "string \<Rightarrow> string" where
  "trim_start_rev s = (if ws_len_rev s = 0 then s else trim_start_rev (drop (ws_len_rev s) s))"
  by pat_completeness auto
termination
proof (relation "measure length", goal_cases)
  case 1
  then show ?case by simp
next
  case (2 s)
  then show ?case using ws_len_rev_le [of s] by simp
qed

declare trim_start.simps [simp del] trim_start_rev.simps [simp del]

definition trim_end :: "string \<Rightarrow> string" where
  "trim_end s = rev (trim_start_rev (rev s))"

text \<open>\<open>s.trim()\<close>\<close>

definition trim :: "string \<Rightarrow> string" where
  "trim s = trim_end (trim_start s)"

lemma trim_start_suffix: "suffix (trim_start s) s"
proof (induction s rule: trim_start.induct)
  case (1 s)
  show ?case
  proof (cases "ws_len s = 0")
    case True
    then show ?thesis by (simp add: trim_start.simps)
  next
    case False
    with 1 have "suffix (trim_start (drop (ws_len s) s)) (drop (ws_len s) s)" by blast
    moreover have "suffix (drop (ws_len s) s) s" by (rule suffix_drop)
    ultimately have "suffix (trim_start (drop (ws_len s) s)) s"
      by (blast intro: suffix_order.trans)
    with False show ?thesis by (simp add: trim_start.simps [of s])
  qed
qed

lemma trim_start_stop: "ws_len (trim_start s) = 0"
proof (induction s rule: trim_start.induct)
  case (1 s)
  then show ?case by (cases "ws_len s = 0") (simp_all add: trim_start.simps [of s])
qed

lemma trim_start_id: "ws_len s = 0 \<Longrightarrow> trim_start s = s"
  by (simp add: trim_start.simps)

lemma trim_start_rev_id: "ws_len_rev s = 0 \<Longrightarrow> trim_start_rev s = s"
  by (simp add: trim_start_rev.simps)

lemma trim_start_rev_suffix: "suffix (trim_start_rev s) s"
proof (induction s rule: trim_start_rev.induct)
  case (1 s)
  show ?case
  proof (cases "ws_len_rev s = 0")
    case True
    then show ?thesis by (simp add: trim_start_rev.simps)
  next
    case False
    with 1 have "suffix (trim_start_rev (drop (ws_len_rev s) s)) (drop (ws_len_rev s) s)" by blast
    moreover have "suffix (drop (ws_len_rev s) s) s" by (rule suffix_drop)
    ultimately have "suffix (trim_start_rev (drop (ws_len_rev s) s)) s"
      by (blast intro: suffix_order.trans)
    with False show ?thesis by (simp add: trim_start_rev.simps [of s])
  qed
qed

lemma trim_start_rev_stop: "ws_len_rev (trim_start_rev s) = 0"
proof (induction s rule: trim_start_rev.induct)
  case (1 s)
  then show ?case by (cases "ws_len_rev s = 0") (simp_all add: trim_start_rev.simps [of s])
qed

lemma trim_end_prefix: "prefix (trim_end s) s"
  using trim_start_rev_suffix [of "rev s"]
  by (simp add: trim_end_def suffix_to_prefix)

lemma trim_end_stop: "ws_len_rev (rev (trim_end s)) = 0"
  by (simp add: trim_end_def trim_start_rev_stop)

lemma trim_end_idem [simp]: "trim_end (trim_end s) = trim_end s"
  by (simp add: trim_end_def trim_start_rev_id trim_start_rev_stop)

lemma length_trim_le: "length (trim s) \<le> length s"
  using trim_end_prefix [of "trim_start s"] trim_start_suffix [of s]
  by (fastforce simp: trim_def dest: prefix_length_le suffix_length_le)

text \<open>Cutting bytes off the end can hide the whitespace character a string starts with but
  never make one, so trimming twice is trimming once.\<close>

lemma ws_len_prefix: "prefix p s \<Longrightarrow> ws_len s = 0 \<Longrightarrow> ws_len p = 0"
  by (cases p rule: ws_len.cases; cases s rule: ws_len.cases)
     (auto split: if_splits)

lemma trim_idem [simp]: "trim (trim s) = trim s"
proof -
  have "ws_len (trim s) = 0"
    unfolding trim_def by (rule ws_len_prefix [OF trim_end_prefix trim_start_stop])
  then show ?thesis
    by (simp add: trim_def trim_start_id)
qed

section \<open>Searching, splitting and joining\<close>

text \<open>\<open>s.strip_prefix(p)\<close>, \<open>s.starts_with(p)\<close>, \<open>s.ends_with(p)\<close>\<close>

definition strip_prefix :: "string \<Rightarrow> string \<Rightarrow> string option" where
  "strip_prefix s p = (if take (length p) s = p then Some (drop (length p) s) else None)"

definition strip_suffix :: "string \<Rightarrow> string \<Rightarrow> string option" where
  "strip_suffix s p =
     (if length p \<le> length s \<and> drop (length s - length p) s = p
      then Some (take (length s - length p) s) else None)"

lemma strip_prefix_Some_iff: "strip_prefix s p = Some r \<longleftrightarrow> s = p @ r"
  by (auto simp: strip_prefix_def) (metis append_take_drop_id)

lemma strip_suffix_Some_iff: "strip_suffix s p = Some r \<longleftrightarrow> s = r @ p"
  by (auto simp: strip_suffix_def) (metis append_take_drop_id)

text \<open>\<open>s.contains(sub)\<close> for a string\<close>

fun contains_str :: "string \<Rightarrow> string \<Rightarrow> bool" where
  "contains_str [] sub = (sub = [])"
| "contains_str (c # s) sub = (take (length sub) (c # s) = sub \<or> contains_str s sub)"

lemma contains_str_iff: "contains_str s sub \<longleftrightarrow> (\<exists>a b. s = a @ sub @ b)"
proof (induction s)
  case Nil
  then show ?case by simp
next
  case (Cons c s)
  have "take (length sub) (c # s) = sub \<longleftrightarrow> (\<exists>b. c # s = sub @ b)"
    by (simp add: take_drop_prefix prefix_def)
  moreover have "(\<exists>a b. c # s = a @ sub @ b) \<longleftrightarrow>
      (\<exists>b. c # s = sub @ b) \<or> (\<exists>a b. s = a @ sub @ b)"
    by (metis append_Cons append_Nil list.exhaust list.inject)
  ultimately show ?case using Cons.IH by simp
qed

text \<open>\<open>s.split(c)\<close>: the segments between the separators, empty ones included.\<close>

fun split_on :: "char \<Rightarrow> string \<Rightarrow> string list" where
  "split_on c [] = [[]]"
| "split_on c (x # s) =
     (if x = c then [] # split_on c s
      else (case split_on c s of [] \<Rightarrow> [[x]] | y # ys \<Rightarrow> (x # y) # ys))"

text \<open>\<open>parts.join(sep)\<close>\<close>

fun join_with :: "string \<Rightarrow> string list \<Rightarrow> string" where
  "join_with sep [] = []"
| "join_with sep [x] = x"
| "join_with sep (x # y # ys) = x @ sep @ join_with sep (y # ys)"

lemma split_on_nonempty [simp]: "split_on c s \<noteq> []"
  by (cases s) (auto split: list.splits)

lemma split_on_no_sep: "c \<notin> set s \<Longrightarrow> split_on c s = [s]"
  by (induction s) auto

lemma split_on_append_sep:
  "c \<notin> set s \<Longrightarrow> split_on c (s @ c # t) = s # split_on c t"
  by (induction s) auto

lemma split_on_join:
  "xs \<noteq> [] \<Longrightarrow> \<forall>x\<in>set xs. c \<notin> set x \<Longrightarrow> split_on c (join_with [c] xs) = xs"
  by (induction "[c]" xs rule: join_with.induct)
     (auto simp: split_on_no_sep split_on_append_sep)

lemma split_on_segments: "x \<in> set (split_on c s) \<Longrightarrow> c \<notin> set x"
  by (induction s arbitrary: x) (auto split: if_splits list.splits)

text \<open>\<open>s.replace('a', "b")\<close> for single bytes\<close>

definition replace_char :: "char \<Rightarrow> char \<Rightarrow> string \<Rightarrow> string" where
  "replace_char a b s = map (\<lambda>c. if c = a then b else c) s"

text \<open>\<open>s.rsplit_once(c)\<close>: what is before and after the last \<open>c\<close>.\<close>

definition rsplit_once :: "char \<Rightarrow> string \<Rightarrow> (string \<times> string) option" where
  "rsplit_once c s =
     (if c \<in> set s
      then Some (rev (tl (dropWhile (\<lambda>x. x \<noteq> c) (rev s))), rev (takeWhile (\<lambda>x. x \<noteq> c) (rev s)))
      else None)"

lemma rsplit_once_Some:
  assumes h: "rsplit_once c s = Some (a, b)"
  shows "s = a @ c # b \<and> c \<notin> set b"
proof -
  have c: "c \<in> set s"
    and a: "a = rev (tl (dropWhile (\<lambda>x. x \<noteq> c) (rev s)))"
    and b: "b = rev (takeWhile (\<lambda>x. x \<noteq> c) (rev s))"
    using h by (auto simp: rsplit_once_def split: if_splits)
  have ne: "dropWhile (\<lambda>x. x \<noteq> c) (rev s) \<noteq> []"
    using c by (simp add: dropWhile_eq_Nil_conv)
  have "dropWhile (\<lambda>x. x \<noteq> c) (rev s) = c # rev a"
    using hd_dropWhile [OF ne] ne a by (cases "dropWhile (\<lambda>x. x \<noteq> c) (rev s)") auto
  then have "rev s = rev b @ c # rev a"
    using takeWhile_dropWhile_id [of "\<lambda>x. x \<noteq> c" "rev s"] b by simp
  then have "rev s = rev (a @ c # b)" by simp
  then have "s = a @ c # b" by (simp only: rev_is_rev_conv)
  moreover have "c \<notin> set b"
    using b by (auto dest: set_takeWhileD)
  ultimately show ?thesis by simp
qed

text \<open>\<open>s.split_whitespace()\<close>: maximal runs of characters that are not whitespace.\<close>

function split_ws_go :: "string \<Rightarrow> string \<Rightarrow> string list" where
  "split_ws_go cur s =
     (case s of
        [] \<Rightarrow> (if cur = [] then [] else [rev cur])
      | c # s' \<Rightarrow>
          (if 0 < ws_len s
           then (if cur = [] then [] else [rev cur]) @ split_ws_go [] (drop (ws_len s) s)
           else split_ws_go (c # cur) s'))"
  by pat_completeness auto
termination
proof (relation "measure (length \<circ> snd)", goal_cases)
  case 1
  then show ?case by simp
next
  case (2 cur s c s')
  then show ?case using ws_len_le [of s] by simp
next
  case (3 cur s c s')
  then show ?case by simp
qed

declare split_ws_go.simps [simp del]

definition split_whitespace :: "string \<Rightarrow> string list" where
  "split_whitespace s = split_ws_go [] s"

lemma split_ws_go_nonempty: "[] \<notin> set (split_ws_go cur s)"
proof (induction cur s rule: split_ws_go.induct)
  case (1 cur s)
  show ?case
  proof (cases s)
    case Nil
    then show ?thesis by (simp add: split_ws_go.simps [of cur "[]"])
  next
    case (Cons c s')
    with 1 show ?thesis
      by (cases "0 < ws_len s") (auto simp: split_ws_go.simps [of cur "c # s'"])
  qed
qed

text \<open>\<open>s.lines()\<close>: split at newlines, a final empty line dropped, a carriage return before the
  newline dropped with it.\<close>

definition strip_cr :: "string \<Rightarrow> string" where
  "strip_cr l = (if l \<noteq> [] \<and> last l = CHR 0x0D then butlast l else l)"

fun str_lines :: "string list \<Rightarrow> string list" where
  "str_lines [] = []"
| "str_lines [l] = (if l = [] then [] else [l])"
| "str_lines (l # m # ls) = strip_cr l # str_lines (m # ls)"

definition lines_of :: "string \<Rightarrow> string list" where
  "lines_of s = str_lines (split_on CHR 0x0A s)"

text \<open>Decimal rendering of numbers, as \<open>format!("{n}")\<close> prints them.\<close>

definition digit_char :: "nat \<Rightarrow> char" where
  "digit_char d = char_of (48 + d)"

fun show_nat :: "nat \<Rightarrow> string" where
  "show_nat n = (if n < 10 then [digit_char n] else show_nat (n div 10) @ [digit_char (n mod 10)])"

declare show_nat.simps [simp del]

lemma show_nat_nonempty [simp]: "show_nat n \<noteq> []"
  by (subst show_nat.simps) simp

lemma digit_char_is_digit: "d < 10 \<Longrightarrow> 48 \<le> (of_char (digit_char d) :: nat) \<and> (of_char (digit_char d) :: nat) < 58"
  by (simp add: digit_char_def of_char_of take_bit_eq_mod)

text \<open>The three bytes of the ellipsis character.\<close>

definition ellipsis :: string where
  "ellipsis = [CHR 0xE2, CHR 0x80, CHR 0xA6]"

end
