(* ===== verification/Json_Value.thy ===== *)
theory Json_Value
  imports Rust_Str
begin

text \<open>
  \<open>serde_json::Value\<close>: the values the program reads from and writes to the wire and the trace.
  An object is the list of its entries in key order (\<open>serde_json\<close>'s default map is a
  \<open>BTreeMap\<close>, so keys are distinct and sorted); a number is an integer or a float kept as its
  text, since the program never computes with a float it read from JSON here.
\<close>

datatype json =
    JNull
  | JBool bool
  | JInt int
  | JFloat string
  | JStr string
  | JArr "json list"
  | JObj "(string \<times> json) list"

text \<open>\<open>value.get(key)\<close>: \<open>None\<close> on anything but an object.\<close>

definition jget :: "string \<Rightarrow> json \<Rightarrow> json option" where
  "jget k v = (case v of JObj fs \<Rightarrow> map_of fs k | _ \<Rightarrow> None)"

text \<open>\<open>value[key]\<close> on a shared reference: \<open>Null\<close> when missing.\<close>

definition jindex :: "string \<Rightarrow> json \<Rightarrow> json" where
  "jindex k v = (case jget k v of None \<Rightarrow> JNull | Some x \<Rightarrow> x)"

definition as_str :: "json \<Rightarrow> string option" where
  "as_str v = (case v of JStr s \<Rightarrow> Some s | _ \<Rightarrow> None)"

definition as_bool :: "json \<Rightarrow> bool option" where
  "as_bool v = (case v of JBool b \<Rightarrow> Some b | _ \<Rightarrow> None)"

definition as_u64 :: "json \<Rightarrow> nat option" where
  "as_u64 v = (case v of JInt i \<Rightarrow> (if 0 \<le> i \<and> i < 2 ^ 64 then Some (nat i) else None) | _ \<Rightarrow> None)"

text \<open>\<open>value[key] = x\<close> on an object: replaces the entry or adds it in key order.\<close>

definition str_less :: "string \<Rightarrow> string \<Rightarrow> bool" where
  "str_less a b = ord.lexordp (\<lambda>x y. (of_char x :: nat) < of_char y) a b"

text \<open>Strings compare by bytes; \<open>str_less\<close> is a strict linear order.\<close>

interpretation byte_order: linorder "\<lambda>x y :: char. (of_char x :: nat) \<le> of_char y" "\<lambda>x y. of_char x < (of_char y :: nat)"
  by unfold_locales auto

lemma str_less_irrefl: "\<not> str_less a a"
  using byte_order.lexordp_irreflexive' by (simp add: str_less_def)

lemma str_less_trans: "str_less a b \<Longrightarrow> str_less b c \<Longrightarrow> str_less a c"
  unfolding str_less_def using byte_order.lexordp_trans by blast

lemma str_less_linear: "str_less a b \<or> a = b \<or> str_less b a"
  unfolding str_less_def using byte_order.lexordp_linear by blast

lemma str_less_asym: "str_less a b \<Longrightarrow> \<not> str_less b a"
  using str_less_trans str_less_irrefl by blast

lemma str_less_simps:
  "str_less [] b \<longleftrightarrow> b \<noteq> []"
  "str_less a [] \<longleftrightarrow> False"
  "str_less (x # a) (y # b) \<longleftrightarrow>
     (of_char x :: nat) < of_char y \<or> x = y \<and> str_less a b"
proof -
  have "(of_char x :: nat) = of_char y \<longleftrightarrow> x = y" by (rule of_char_eq_iff)
  then show "str_less (x # a) (y # b) \<longleftrightarrow> (of_char x :: nat) < of_char y \<or> x = y \<and> str_less a b"
    by (auto simp: str_less_def)
qed (simp_all add: str_less_def)

fun obj_set :: "string \<Rightarrow> json \<Rightarrow> (string \<times> json) list \<Rightarrow> (string \<times> json) list" where
  "obj_set k v [] = [(k, v)]"
| "obj_set k v ((k', v') # fs) =
     (if k = k' then (k, v) # fs
      else if str_less k k' then (k, v) # (k', v') # fs
      else (k', v') # obj_set k v fs)"

definition jset :: "string \<Rightarrow> json \<Rightarrow> json \<Rightarrow> json" where
  "jset k v j = (case j of JObj fs \<Rightarrow> JObj (obj_set k v fs) | _ \<Rightarrow> j)"

lemma map_of_obj_set: "map_of (obj_set k v fs) = (map_of fs)(k \<mapsto> v)"
  by (induction k v fs rule: obj_set.induct) auto

lemma jget_jset: "jget k (jset k' v (JObj fs)) = (if k = k' then Some v else jget k (JObj fs))"
  by (simp add: jget_def jset_def map_of_obj_set)

text \<open>Building an object from entries, as \<open>json!({...})\<close> does.\<close>

definition jobj :: "(string \<times> json) list \<Rightarrow> json" where
  "jobj fs = JObj (foldl (\<lambda>acc (k, v). obj_set k v acc) [] fs)"

lemma map_of_jobj_fold:
  "map_of (foldl (\<lambda>acc (k, v). obj_set k v acc) acc fs) = map_of acc ++ map_of (rev fs)"
  by (induction fs arbitrary: acc) (auto simp: map_of_obj_set fun_eq_iff map_add_def split: option.splits)

lemma jget_jobj: "jget k (jobj fs) = map_of (rev fs) k"
  by (simp add: jget_def jobj_def map_of_jobj_fold)

lemma jget_jobj_append: "k \<notin> fst ` set ys \<Longrightarrow> jget k (jobj (xs @ ys)) = jget k (jobj xs)"
  by (simp add: jget_jobj map_add_def map_of_eq_None_iff [THEN iffD2] split: option.splits)

end
