(* ===== verification/Workspace_Paths.thy ===== *)
theory Workspace_Paths
  imports Rust_Str
begin

text \<open>
  The path sandbox, \<open>crates/core/src/workspace/paths.rs\<close>, on a Unix host (the
  \<open>cfg(not(windows))\<close> half of the file: there are no path prefixes there, so
  \<open>strip_verbatim\<close> returns its argument and \<open>same_component\<close> is equality).

  A path is the list of components \<open>Path::components\<close> yields. The file system is a map
  from the absolute location of a name (the list of names from the root) to what is there:
  a directory (searchable or not), a file, or a symbolic link with its target text.
  \<open>real_walk\<close> is \<open>realpath(3)\<close>, which \<open>std::fs::canonicalize\<close> calls.
\<close>

section \<open>Paths\<close>

datatype comp = RootDir | CurDir | ParentDir | Normal string

type_synonym path = "comp list"

text \<open>One segment between slashes; empty segments and dots vanish.\<close>

definition seg_comp :: "string \<Rightarrow> path" where
  "seg_comp s = (if s = [] \<or> s = ''.'' then [] else if s = ''..'' then [ParentDir] else [Normal s])"

text \<open>\<open>Path::new(s).components()\<close>: a leading dot of a relative path is kept.\<close>

definition components :: "string \<Rightarrow> path" where
  "components s =
     (case split_on CHR ''/'' s of
        [] \<Rightarrow> []
      | x # xs \<Rightarrow>
          (if s = [] then []
           else (if x = [] then [RootDir] else if x = ''.'' then [CurDir] else seg_comp x)
                @ concat (map seg_comp xs)))"

text \<open>\<open>p.join(q)\<close>: an absolute \<open>q\<close> replaces \<open>p\<close>.\<close>

definition path_join :: "path \<Rightarrow> path \<Rightarrow> path" where
  "path_join p q =
     (case q of
        RootDir # _ \<Rightarrow> q
      | _ \<Rightarrow> (if p = [] then q else p @ filter (\<lambda>c. c \<noteq> CurDir) q))"

definition is_absolute :: "path \<Rightarrow> bool" where
  "is_absolute p = (case p of RootDir # _ \<Rightarrow> True | _ \<Rightarrow> False)"

definition file_name :: "path \<Rightarrow> string option" where
  "file_name p = (case rev p of Normal n # _ \<Rightarrow> Some n | _ \<Rightarrow> None)"

definition parent :: "path \<Rightarrow> path option" where
  "parent p = (case rev p of [] \<Rightarrow> None | RootDir # _ \<Rightarrow> None | _ \<Rightarrow> Some (butlast p))"

text \<open>The absolute path of a location, and the text a path prints as.\<close>

definition abs_path :: "string list \<Rightarrow> path" where
  "abs_path ns = RootDir # map Normal ns"

definition comp_str :: "comp \<Rightarrow> string" where
  "comp_str c = (case c of RootDir \<Rightarrow> ''/'' | CurDir \<Rightarrow> ''.'' | ParentDir \<Rightarrow> ''..'' | Normal n \<Rightarrow> n)"

definition path_str :: "path \<Rightarrow> string" where
  "path_str p =
     (case p of
        RootDir # q \<Rightarrow> CHR ''/'' # join_with ''/'' (map comp_str q)
      | _ \<Rightarrow> join_with ''/'' (map comp_str p))"

section \<open>The file system\<close>

datatype node = Dir bool | File | Link string

type_synonym fs = "string list \<Rightarrow> node option"

datatype io_error = NotFound | NotADirectory | PermissionDenied | FilesystemLoop | OtherIo string

text \<open>
  \<open>realpath\<close>: follow the components from the location reached so far; a link is replaced by
  its target, at most \<open>k\<close> of them (\<open>ELOOP\<close> after that, 40 on Linux).
\<close>

definition max_links :: nat where
  "max_links = 40"

definition search_err :: "fs \<Rightarrow> string list \<Rightarrow> io_error option" where
  "search_err fs acc =
     (case fs acc of
        None \<Rightarrow> Some NotFound
      | Some (Dir searchable) \<Rightarrow> (if searchable then None else Some PermissionDenied)
      | Some _ \<Rightarrow> Some NotADirectory)"

definition link_target :: "node \<Rightarrow> string option" where
  "link_target nd = (case nd of Link t \<Rightarrow> Some t | _ \<Rightarrow> None)"

function real_walk :: "fs \<Rightarrow> nat \<Rightarrow> string list \<Rightarrow> path \<Rightarrow> io_error + string list" where
  "real_walk fs k acc [] = Inr acc"
| "real_walk fs k acc (RootDir # cs) = real_walk fs k [] cs"
| "real_walk fs k acc (CurDir # cs) =
     (case search_err fs acc of
        Some e \<Rightarrow> Inl e
      | None \<Rightarrow> real_walk fs k acc cs)"
| "real_walk fs k acc (ParentDir # cs) =
     (case search_err fs acc of
        Some e \<Rightarrow> Inl e
      | None \<Rightarrow> real_walk fs k (butlast acc) cs)"
| "real_walk fs k acc (Normal n # cs) =
     (case search_err fs acc of
        Some e \<Rightarrow> Inl e
      | None \<Rightarrow>
          (case fs (acc @ [n]) of
             None \<Rightarrow> Inl NotFound
           | Some nd \<Rightarrow>
               (case link_target nd of
                  None \<Rightarrow> real_walk fs k (acc @ [n]) cs
                | Some t \<Rightarrow>
                    (if k = 0 then Inl FilesystemLoop
                     else real_walk fs (k - 1) acc (components t @ cs)))))"
  by pat_completeness auto
termination
  by (relation "measures [\<lambda>(fs, k, acc, cs). k, \<lambda>(fs, k, acc, cs). length cs]") auto

text \<open>\<open>std::fs::canonicalize\<close> in a process whose working directory is \<open>cwd\<close>.\<close>

definition canonicalize :: "fs \<Rightarrow> string list \<Rightarrow> path \<Rightarrow> io_error + path" where
  "canonicalize fs cwd p =
     (if p = [] then Inl NotFound
      else case real_walk fs max_links cwd p of
             Inl e \<Rightarrow> Inl e
           | Inr ns \<Rightarrow> Inr (abs_path ns))"

text \<open>\<open>Path::is_dir\<close> on a path without links.\<close>

definition is_dir :: "fs \<Rightarrow> path \<Rightarrow> bool" where
  "is_dir fs p =
     (case real_walk fs max_links [] p of
        Inl _ \<Rightarrow> False
      | Inr ns \<Rightarrow> (case fs ns of Some (Dir _) \<Rightarrow> True | _ \<Rightarrow> False))"

section \<open>The operations of paths.rs\<close>

datatype path_error =
    Outside string
  | Invalid string string
  | PathIo string io_error

definition path_error_kind :: "path_error \<Rightarrow> string" where
  "path_error_kind e =
     (case e of
        Outside _ \<Rightarrow> ''outside_workspace''
      | Invalid _ _ \<Rightarrow> ''invalid_path''
      | PathIo _ _ \<Rightarrow> ''io'')"

definition canonical_dir :: "fs \<Rightarrow> string list \<Rightarrow> path \<Rightarrow> io_error + path" where
  "canonical_dir fs cwd p =
     (case canonicalize fs cwd p of
        Inl e \<Rightarrow> Inl e
      | Inr q \<Rightarrow> (if is_dir fs q then Inr q else Inl NotADirectory))"

text \<open>The loop of \<open>normalize_lexically\<close>, over the path built so far and the number of
  normal components that may be popped.\<close>

fun normalize_go :: "path \<Rightarrow> nat \<Rightarrow> path \<Rightarrow> path" where
  "normalize_go out depth [] = out"
| "normalize_go out depth (RootDir # cs) = normalize_go [RootDir] depth cs"
| "normalize_go out depth (CurDir # cs) = normalize_go out depth cs"
| "normalize_go out depth (ParentDir # cs) =
     (if 0 < depth then normalize_go (butlast out) (depth - 1) cs
      else normalize_go out depth cs)"
| "normalize_go out depth (Normal n # cs) = normalize_go (out @ [Normal n]) (Suc depth) cs"

definition normalize_lexically :: "path \<Rightarrow> path" where
  "normalize_lexically p = normalize_go [] 0 p"

text \<open>
  The loop of \<open>canonicalize_existing_prefix\<close>: \<open>rest\<close> holds the names cut off so far, the
  last one cut first (the source pushes them and walks the vector backwards).
\<close>

function canonicalize_existing ::
  "fs \<Rightarrow> string list \<Rightarrow> path \<Rightarrow> string list \<Rightarrow> io_error + path option" where
  "canonicalize_existing fs cwd cursor rest =
     (case canonicalize fs cwd cursor of
        Inr canonical \<Rightarrow> Inr (Some (canonical @ map Normal rest))
      | Inl e \<Rightarrow>
          (if e = NotFound \<or> e = NotADirectory
           then (case file_name cursor of
                   None \<Rightarrow> Inr None
                 | Some name \<Rightarrow>
                     (case parent cursor of
                        None \<Rightarrow> Inr None
                      | Some up \<Rightarrow> canonicalize_existing fs cwd up (name # rest)))
           else Inl e))"
  by pat_completeness auto
termination
proof (relation "measure (\<lambda>(fs, cwd, cursor, rest). length cursor)", goal_cases)
  case 1
  then show ?case by simp
next
  case (2 fs cwd cursor rest e name up)
  then show ?case
    by (cases cursor rule: rev_cases) (auto simp: parent_def split: comp.splits)
qed

declare canonicalize_existing.simps [simp del]

definition canonicalize_existing_prefix ::
  "fs \<Rightarrow> string list \<Rightarrow> path \<Rightarrow> io_error + path option" where
  "canonicalize_existing_prefix fs cwd p = canonicalize_existing fs cwd p []"

text \<open>Component-wise prefix test.\<close>

fun path_starts_with :: "path \<Rightarrow> path \<Rightarrow> bool" where
  "path_starts_with p [] = True"
| "path_starts_with [] (r # rs) = False"
| "path_starts_with (c # p) (r # rs) = (c = r \<and> path_starts_with p rs)"

definition resolve :: "fs \<Rightarrow> string list \<Rightarrow> path \<Rightarrow> string \<Rightarrow> path_error + path" where
  "resolve fs cwd root user_path =
     (if CHR 0x00 \<in> set user_path
      then Inl (Invalid user_path ''contains a NUL byte'')
      else
        let given = trim user_path;
            joined = (if given = [] then root else path_join root (components given));
            lexical = normalize_lexically joined
        in case canonicalize_existing_prefix fs cwd lexical of
             Inl e \<Rightarrow> Inl (PathIo user_path e)
           | Inr None \<Rightarrow> Inl (Outside user_path)
           | Inr (Some resolved) \<Rightarrow>
               (if path_starts_with resolved root then Inr resolved
                else Inl (Outside user_path)))"

definition contains_path :: "fs \<Rightarrow> string list \<Rightarrow> path \<Rightarrow> path \<Rightarrow> bool" where
  "contains_path fs cwd root p =
     (if \<not> is_absolute p then False
      else case canonicalize_existing_prefix fs cwd (normalize_lexically p) of
             Inr (Some resolved) \<Rightarrow> path_starts_with resolved root
           | _ \<Rightarrow> False)"

definition display_path :: "path \<Rightarrow> path \<Rightarrow> string" where
  "display_path root p =
     (if \<not> path_starts_with p root
      then replace_char CHR 0x5C CHR ''/'' (path_str p)
      else
        let rel = map comp_str (drop (length root) p)
        in if rel = [] then ''.'' else join_with ''/'' rel)"

section \<open>What realpath returns\<close>

lemma search_err_None_iff: "search_err fs acc = None \<longleftrightarrow> fs acc = Some (Dir True)"
  by (auto simp: search_err_def split: option.splits node.splits)

lemma link_target_iff:
  "link_target nd = Some t \<longleftrightarrow> nd = Link t"
  "link_target nd = None \<longleftrightarrow> (\<forall>t. nd \<noteq> Link t)"
  by (auto simp: link_target_def split: node.splits)

text \<open>
  A location is canonical when every proper prefix is a searchable directory and the thing
  itself is no link: what \<open>realpath\<close> returns, and what it returns for itself.
\<close>

definition located :: "fs \<Rightarrow> string list \<Rightarrow> bool" where
  "located fs ns \<longleftrightarrow>
     (\<forall>i<length ns. fs (take i ns) = Some (Dir True)) \<and>
     (\<exists>nd. fs ns = Some nd \<and> link_target nd = None)"

lemma located_Nil: "fs [] = Some (Dir b) \<Longrightarrow> located fs []"
  by (simp add: located_def link_target_def)

lemma located_butlast: "located fs acc \<Longrightarrow> located fs (butlast acc)"
  by (cases acc rule: rev_cases) (auto simp: located_def less_Suc_eq link_target_def)

lemma located_snoc:
  "located fs acc \<Longrightarrow> search_err fs acc = None \<Longrightarrow> fs (acc @ [n]) = Some nd \<Longrightarrow>
   link_target nd = None \<Longrightarrow> located fs (acc @ [n])"
  by (auto simp: located_def search_err_None_iff less_Suc_eq)

lemma located_prefix_dir:
  assumes "located fs (acc @ n # ns)" and "i \<le> length acc"
  shows "fs (take i acc) = Some (Dir True)"
proof -
  have "i < length (acc @ n # ns)" using assms(2) by simp
  then have "fs (take i (acc @ n # ns)) = Some (Dir True)"
    using assms(1) by (simp only: located_def)
  then show ?thesis using assms(2) by simp
qed

lemma located_append: "located fs (acc @ ns) \<Longrightarrow> located fs acc"
proof (cases ns)
  case (Cons n ns')
  assume "located fs (acc @ ns)"
  with Cons have d: "i \<le> length acc \<Longrightarrow> fs (take i acc) = Some (Dir True)" for i
    using located_prefix_dir by blast
  show ?thesis
    using d [of "length acc"] d by (simp add: located_def link_target_def)
qed simp

lemma real_walk_located:
  "real_walk fs k acc cs = Inr ns \<Longrightarrow> fs [] = Some (Dir b) \<Longrightarrow> located fs acc \<Longrightarrow> located fs ns"
  by (induction fs k acc cs rule: real_walk.induct)
     (auto simp: located_Nil located_butlast located_snoc split: option.splits if_splits)

lemma real_walk_names:
  "located fs (acc @ ns) \<Longrightarrow> real_walk fs k acc (map Normal ns) = Inr (acc @ ns)"
proof (induction ns arbitrary: acc)
  case Nil
  then show ?case by simp
next
  case (Cons n ns)
  have dir: "search_err fs acc = None"
    using located_prefix_dir [OF Cons.prems, of "length acc"] by (simp add: search_err_None_iff)
  have "located fs (acc @ [n])"
    using Cons.prems located_append [of fs "acc @ [n]" ns] by simp
  then obtain nd where nd: "fs (acc @ [n]) = Some nd" "link_target nd = None"
    by (auto simp: located_def)
  have "real_walk fs k (acc @ [n]) (map Normal ns) = Inr (acc @ n # ns)"
    using Cons.IH [of "acc @ [n]"] Cons.prems by simp
  with dir nd show ?case by (simp split: option.split)
qed

lemma canonicalize_located [simp]:
  "located fs ns \<Longrightarrow> canonicalize fs cwd (abs_path ns) = Inr (abs_path ns)"
  using real_walk_names [of fs "[]" ns max_links]
  by (simp add: canonicalize_def abs_path_def)

text \<open>A walk over an append is a walk over the first part, then, with the links that are
  left, over the second.\<close>

lemma real_walk_append:
  "real_walk fs k acc cs = Inr ns \<Longrightarrow>
   \<exists>k'\<le>k. \<forall>ds. real_walk fs k acc (cs @ ds) = real_walk fs k' ns ds"
proof (induction fs k acc cs rule: real_walk.induct)
  case (5 fs k acc n cs)
  then obtain nd where s: "search_err fs acc = None" and nd: "fs (acc @ [n]) = Some nd"
    by (auto split: option.splits)
  show ?case
  proof (cases "link_target nd")
    case None
    with 5 s nd show ?thesis by simp
  next
    case (Some t)
    with 5 s nd have k: "k \<noteq> 0" by (auto split: if_splits)
    have "real_walk fs (k - 1) acc (components t @ cs) = Inr ns"
      using "5.prems" s nd Some k by simp
    from "5.IH"(2) [OF s nd Some k this] obtain k' where "k' \<le> k - 1"
      and "\<forall>ds. real_walk fs (k - 1) acc ((components t @ cs) @ ds) = real_walk fs k' ns ds"
      by blast
    then show ?thesis using s nd Some k by (intro exI [of _ k']) simp
  qed
qed (auto split: option.splits)

lemma real_walk_append_err:
  "real_walk fs k acc cs = Inl e \<Longrightarrow> real_walk fs k acc (cs @ ds) = Inl e"
  by (induction fs k acc cs rule: real_walk.induct) (auto split: option.splits if_splits)

text \<open>With more links allowed, only the verdict "too many links" can change.\<close>

lemma real_walk_mono_err:
  "real_walk fs k acc cs = Inl e \<Longrightarrow> e \<noteq> FilesystemLoop \<Longrightarrow> k \<le> k' \<Longrightarrow>
   real_walk fs k' acc cs = Inl e"
proof (induction fs k acc cs arbitrary: k' rule: real_walk.induct)
  case (5 fs k acc n cs)
  show ?case
  proof (cases "fs (acc @ [n])")
    case None
    with 5 show ?thesis by (auto split: option.splits)
  next
    case nd: (Some nd)
    show ?thesis
    proof (cases "search_err fs acc = None \<and> link_target nd \<noteq> None")
      case False
      with 5 nd show ?thesis by (auto split: option.splits)
    next
      case True
      then obtain t where s: "search_err fs acc = None" and t: "link_target nd = Some t" by blast
      with nd "5.prems" have k: "k \<noteq> 0" "real_walk fs (k - 1) acc (components t @ cs) = Inl e"
        by (auto split: if_splits)
      then have "real_walk fs (k' - 1) acc (components t @ cs) = Inl e"
        using "5.IH"(2) [OF s nd t] "5.prems" by simp
      with s t nd k "5.prems" show ?thesis by simp
    qed
  qed
qed (auto split: option.splits)

lemma real_walk_mono_ok:
  "real_walk fs k acc cs = Inr q \<Longrightarrow> k \<le> k' \<Longrightarrow> real_walk fs k' acc cs = Inr q"
proof (induction fs k acc cs arbitrary: k' rule: real_walk.induct)
  case (5 fs k acc n cs)
  then obtain nd where s: "search_err fs acc = None" and nd: "fs (acc @ [n]) = Some nd"
    by (auto split: option.splits)
  show ?case
  proof (cases "link_target nd")
    case None
    with 5 s nd show ?thesis by simp
  next
    case (Some t)
    with "5.prems" s nd have k: "k \<noteq> 0" "real_walk fs (k - 1) acc (components t @ cs) = Inr q"
      by (auto split: if_splits)
    then have "real_walk fs (k' - 1) acc (components t @ cs) = Inr q"
      using "5.IH"(2) [OF s nd Some] "5.prems" by simp
    with s Some nd k "5.prems" show ?thesis by simp
  qed
qed (auto split: option.splits)

section \<open>The sandbox\<close>

lemma path_starts_with_iff: "path_starts_with p r \<longleftrightarrow> prefix r p"
  by (induction p r rule: path_starts_with.induct) auto

lemma prefix_abs_path_iff [simp]: "prefix (abs_path rs) (abs_path ns) \<longleftrightarrow> prefix rs ns"
  by (auto simp: abs_path_def prefix_map_rightE map_mono_prefix)
     (metis inj_map_eq_map injI comp.inject map_eq_append_conv prefix_def)

lemma abs_path_append: "abs_path (ns @ rest) = abs_path ns @ map Normal rest"
  by (simp add: abs_path_def)

lemma map_Normal_inject [simp]: "map Normal a = map Normal b \<longleftrightarrow> a = b"
  by (rule inj_map_eq_map) (simp add: inj_def)

lemma abs_path_inject [simp]: "abs_path a = abs_path b \<longleftrightarrow> a = b"
  by (simp add: abs_path_def)

text \<open>Folding dots out of an absolute path leaves the root and names.\<close>

lemma normalize_go_names:
  "RootDir \<notin> set cs \<Longrightarrow> d \<le> length ns \<Longrightarrow> \<exists>ms. normalize_go (abs_path ns) d cs = abs_path ms"
proof (induction cs arbitrary: ns d)
  case Nil
  then show ?case by auto
next
  case (Cons c cs)
  show ?case
  proof (cases c)
    case RootDir
    with Cons.prems show ?thesis by simp
  next
    case CurDir
    with Cons show ?thesis by simp
  next
    case ParentDir
    have "d > 0 \<Longrightarrow> butlast (abs_path ns) = abs_path (butlast ns)"
      using Cons.prems by (cases ns rule: rev_cases) (simp_all add: abs_path_def)
    with ParentDir Cons.IH [of "d - 1" "butlast ns"] Cons.IH [of d ns] Cons.prems
    show ?thesis by (cases "d > 0") auto
  next
    case (Normal n)
    have "abs_path ns @ [Normal n] = abs_path (ns @ [n])" by (simp add: abs_path_def)
    with Normal Cons.IH [of "Suc d" "ns @ [n]"] Cons.prems show ?thesis by simp
  qed
qed

lemma seg_comp_no_root: "RootDir \<notin> set (seg_comp s)"
  by (simp add: seg_comp_def)

lemma components_shape:
  "\<exists>cs. RootDir \<notin> set cs \<and> (components s = cs \<or> components s = RootDir # cs)"
proof (cases "split_on CHR ''/'' s")
  case Nil
  then show ?thesis by simp
next
  case (Cons x xs)
  let ?tl = "concat (map seg_comp xs)"
  have "RootDir \<notin> set ?tl" using seg_comp_no_root by auto
  then show ?thesis
    using Cons seg_comp_no_root [of x]
    by (cases "s = []"; cases "x = []"; cases "x = ''.''")
       (auto simp: components_def intro: exI [of _ "?tl"] exI [of _ "CurDir # ?tl"]
          exI [of _ "seg_comp x @ ?tl"] exI [of _ "[]"])
qed

lemma path_join_shape:
  "\<exists>cs. RootDir \<notin> set cs \<and> path_join (abs_path rs) (components s) = RootDir # cs"
proof -
  obtain cs where cs: "RootDir \<notin> set cs" "components s = cs \<or> components s = RootDir # cs"
    using components_shape by blast
  show ?thesis
  proof (cases "components s = RootDir # cs")
    case True
    with cs show ?thesis by (simp add: path_join_def)
  next
    case False
    with cs have "components s = cs" by simp
    moreover have "path_join (abs_path rs) cs = abs_path rs @ filter (\<lambda>c. c \<noteq> CurDir) cs"
      using cs(1) by (cases cs) (auto simp: path_join_def abs_path_def split: comp.splits)
    ultimately show ?thesis
      using cs(1) by (intro exI [of _ "map Normal rs @ filter (\<lambda>c. c \<noteq> CurDir) cs"])
                     (auto simp: abs_path_def)
  qed
qed

lemma normalize_abs: "RootDir \<notin> set cs \<Longrightarrow> \<exists>ms. normalize_lexically (RootDir # cs) = abs_path ms"
  using normalize_go_names [of cs 0 "[]"] by (simp add: normalize_lexically_def abs_path_def)

lemma lexical_abs:
  "\<exists>ms. normalize_lexically (if g = [] then abs_path rs else path_join (abs_path rs) (components g))
        = abs_path ms"
proof (cases "g = []")
  case True
  have "RootDir \<notin> set (map Normal rs)" by auto
  from normalize_abs [OF this] True show ?thesis by (simp add: abs_path_def)
next
  case False
  then show ?thesis using normalize_abs path_join_shape [of rs g] by auto
qed

text \<open>
  What the loop over the existing prefix returns: the canonical location of some prefix of
  the names, and the names below it, the first of which the walk did not reach.
\<close>

lemma file_name_abs_path:
  "file_name (abs_path []) = None" "file_name (abs_path (ns @ [n])) = Some n"
  by (simp_all add: file_name_def abs_path_def)

lemma parent_abs_path: "parent (abs_path (ns @ [n])) = Some (abs_path ns)"
  by (simp add: parent_def abs_path_def butlast_append)

definition unreached :: "fs \<Rightarrow> string list \<Rightarrow> string list \<Rightarrow> bool" where
  "unreached fs ms rest \<longleftrightarrow>
     (case rest of
        [] \<Rightarrow> True
      | r # _ \<Rightarrow> real_walk fs max_links [] (map Normal (ms @ [r])) \<in> {Inl NotFound, Inl NotADirectory})"

lemma canonicalize_abs_path:
  "canonicalize fs cwd (abs_path ns) =
     (case real_walk fs max_links [] (map Normal ns) of Inl e \<Rightarrow> Inl e | Inr ms \<Rightarrow> Inr (abs_path ms))"
  by (simp add: canonicalize_def abs_path_def)

lemma canonicalize_existing_Some:
  "canonicalize_existing fs cwd (abs_path ns) rest = Inr (Some p) \<Longrightarrow> unreached fs ns rest \<Longrightarrow>
   \<exists>ms more loc. ns = ms @ more \<and> real_walk fs max_links [] (map Normal ms) = Inr loc \<and>
      p = abs_path (loc @ more @ rest) \<and> unreached fs ms (more @ rest)"
proof (induction ns arbitrary: rest rule: rev_induct)
  case Nil
  then show ?case
    by (subst (asm) canonicalize_existing.simps)
       (auto simp: canonicalize_abs_path file_name_abs_path abs_path_append split: res_splits)
next
  case (snoc n ns)
  show ?case
  proof (cases "real_walk fs max_links [] (map Normal (ns @ [n]))")
    case (Inr loc)
    with snoc.prems have "p = abs_path (loc @ rest)"
      by (subst (asm) canonicalize_existing.simps)
         (simp add: canonicalize_abs_path abs_path_append [symmetric] del: map_append)
    with Inr snoc.prems show ?thesis
      by (intro exI [of _ "ns @ [n]"] exI [of _ "[]"] exI [of _ loc]) simp
  next
    case (Inl e)
    with snoc.prems have e: "e = NotFound \<or> e = NotADirectory"
      and rec: "canonicalize_existing fs cwd (abs_path ns) (n # rest) = Inr (Some p)"
      by (subst (asm) canonicalize_existing.simps,
          auto simp: canonicalize_abs_path file_name_abs_path parent_abs_path split: if_splits)+
    have "unreached fs ns (n # rest)" using Inl e by (auto simp: unreached_def)
    from snoc.IH [OF rec this] obtain ms more loc where
      "ns = ms @ more" "real_walk fs max_links [] (map Normal ms) = Inr loc"
      "p = abs_path (loc @ more @ n # rest)" "unreached fs ms (more @ n # rest)" by blast
    then show ?thesis
      by (intro exI [of _ ms] exI [of _ "more @ [n]"] exI [of _ loc]) simp
  qed
qed

text \<open>
  A path the sandbox returned, if anything exists at it, leads nowhere else: its real path is
  the path itself. This is where a link out of the root would show.
\<close>

lemma unreached_not_found:
  assumes "real_walk fs max_links [] (map Normal ms) = Inr loc"
    and "unreached fs ms rest" and "located fs loc" and "rest \<noteq> []"
  shows "\<exists>e. real_walk fs max_links [] (map Normal (loc @ rest)) = Inl e"
proof -
  obtain r rs where rest: "rest = r # rs" using assms(4) by (cases rest) auto
  obtain k where k: "k \<le> max_links"
    and walk: "real_walk fs max_links [] (map Normal ms @ ds) = real_walk fs k loc ds" for ds
    using real_walk_append [OF assms(1)] by blast
  obtain e where "real_walk fs max_links [] (map Normal (ms @ [r])) = Inl e" "e \<noteq> FilesystemLoop"
    using assms(2) rest by (auto simp: unreached_def)
  with walk [of "[Normal r]"] have "real_walk fs k loc [Normal r] = Inl e" by simp
  then have "real_walk fs max_links loc [Normal r] = Inl e"
    using \<open>e \<noteq> FilesystemLoop\<close> k by (rule real_walk_mono_err)
  then have *: "real_walk fs max_links loc (map Normal rest) = Inl e"
    using real_walk_append_err [of fs max_links loc "[Normal r]" e "map Normal rs"] rest by simp
  obtain k' where k': "k' \<le> max_links"
    and "real_walk fs max_links [] (map Normal loc @ ds) = real_walk fs k' loc ds" for ds
    using real_walk_append [OF real_walk_names [of fs "[]" loc max_links]] assms(3) by auto
  then have "real_walk fs max_links [] (map Normal (loc @ rest)) =
      real_walk fs k' loc (map Normal rest)" by simp
  moreover have "\<exists>e'. real_walk fs k' loc (map Normal rest) = Inl e'"
  proof (rule ccontr)
    assume "\<nexists>e'. real_walk fs k' loc (map Normal rest) = Inl e'"
    then obtain q where "real_walk fs k' loc (map Normal rest) = Inr q"
      by (cases "real_walk fs k' loc (map Normal rest)") auto
    from real_walk_mono_ok [OF this k'] * show False by simp
  qed
  ultimately show ?thesis by simp
qed

lemma resolve_shape:
  assumes "fs [] = Some (Dir b)" and "resolve fs cwd (abs_path rs) up = Inr p"
  shows "\<exists>loc rest ms. p = abs_path (loc @ rest) \<and> prefix rs (loc @ rest) \<and> located fs loc \<and>
           real_walk fs max_links [] (map Normal ms) = Inr loc \<and> unreached fs ms rest"
proof -
  let ?g = "trim up"
  obtain ns where ns: "normalize_lexically
      (if ?g = [] then abs_path rs else path_join (abs_path rs) (components ?g)) = abs_path ns"
    using lexical_abs by blast
  have ex: "canonicalize_existing fs cwd (abs_path ns) [] = Inr (Some p)"
    and pre: "path_starts_with p (abs_path rs)"
    using assms(2) ns
    by (auto simp: resolve_def canonicalize_existing_prefix_def split: res_splits)
  obtain ms more loc where m: "ns = ms @ more" "real_walk fs max_links [] (map Normal ms) = Inr loc"
      "p = abs_path (loc @ more @ [])" "unreached fs ms (more @ [])"
    using canonicalize_existing_Some [OF ex] by (auto simp: unreached_def)
  have "located fs loc"
    using real_walk_located [OF m(2) assms(1)] located_Nil [of fs b] assms(1) by simp
  with m pre show ?thesis by (auto simp: path_starts_with_iff)
qed

lemma resolve_inside:
  assumes "fs [] = Some (Dir b)" and "resolve fs cwd (abs_path rs) user_path = Inr p"
  shows "(\<exists>ns. p = abs_path (rs @ ns)) \<and> path_starts_with p (abs_path rs) \<and>
         canonicalize fs cwd p \<in> insert (Inr p) (range Inl)"
proof -
  obtain loc rest ms where p: "p = abs_path (loc @ rest)" and pre: "prefix rs (loc @ rest)"
    and loc: "located fs loc"
    and ms: "real_walk fs max_links [] (map Normal ms) = Inr loc" "unreached fs ms rest"
    using resolve_shape [of fs b, OF assms] by blast
  have "canonicalize fs cwd p \<in> insert (Inr p) (range Inl)"
  proof (cases "rest = []")
    case True
    with p loc show ?thesis by simp
  next
    case False
    with unreached_not_found [OF ms loc] p show ?thesis
      by (auto simp: canonicalize_abs_path)
  qed
  with p pre show ?thesis by (auto simp: path_starts_with_iff elim: prefixE)
qed

text \<open>
  C14: The sandbox is closed: whatever path \<open>resolve\<close> returns is absolute, without dots, under
  the workspace root component by component, and if anything exists there, following every
  symbolic link on the way leads to that same path, so no link takes the caller out of the root.
\<close>

theorem resolve_sandboxed:
  assumes "fs [] = Some (Dir b)" and "resolve fs cwd (abs_path rs) user_path = Inr p"
  shows "(\<exists>ns. p = abs_path (rs @ ns)) \<and> path_starts_with p (abs_path rs) \<and>
         canonicalize fs cwd p \<in> insert (Inr p) (range Inl)"
  using resolve_inside [OF assms] .

text \<open>A small disk: a workspace with a source file, a link inside it and two links that leave.\<close>

definition demo_fs :: fs where
  "demo_fs = map_of
     [([], Dir True), ([''w''], Dir True), ([''w'', ''src''], Dir True),
      ([''w'', ''src'', ''a.rs''], File), ([''w'', ''in''], Link ''src/a.rs''),
      ([''w'', ''out''], Link ''/etc''), ([''w'', ''new''], Link ''/etc/none''),
      ([''etc''], Dir True), ([''etc'', ''passwd''], File)]"

lemma resolve_demo:
  "resolve demo_fs [] (abs_path [''w'']) ''src/../in'' = Inr (abs_path [''w'', ''src'', ''a.rs''])"
  "resolve demo_fs [] (abs_path [''w'']) '' ./src/b.rs '' = Inr (abs_path [''w'', ''src'', ''b.rs''])"
  "resolve demo_fs [] (abs_path [''w'']) ''out/passwd'' = Inl (Outside ''out/passwd'')"
  "resolve demo_fs [] (abs_path [''w'']) ''../etc'' = Inl (Outside ''../etc'')"
  "resolve demo_fs [] (abs_path [''w'']) ''/etc/passwd'' = Inl (Outside ''/etc/passwd'')"
  by code_simp+

theorem resolve_sandboxed_witness:
  "canonicalize demo_fs [] (abs_path [''w'', ''src'', ''a.rs'']) \<in>
     insert (Inr (abs_path [''w'', ''src'', ''a.rs''])) (range Inl)"
  using resolve_sandboxed [of demo_fs True "[]" "[''w'']" "''src/../in''"]
    resolve_demo(1) by (simp add: demo_fs_def)

section \<open>What is shown can be given back\<close>

text \<open>A name a directory entry can have and the mentor can write.\<close>

definition plain_name :: "string \<Rightarrow> bool" where
  "plain_name n \<longleftrightarrow> n \<noteq> [] \<and> n \<noteq> ''.'' \<and> n \<noteq> ''..'' \<and> CHR ''/'' \<notin> set n \<and> CHR 0x00 \<notin> set n"

lemma seg_comp_plain: "plain_name n \<Longrightarrow> seg_comp n = [Normal n]"
  by (simp add: plain_name_def seg_comp_def)

lemma concat_seg_comp: "\<forall>n\<in>set ns. plain_name n \<Longrightarrow> concat (map seg_comp ns) = map Normal ns"
  by (induction ns) (auto simp: seg_comp_plain)

lemma join_plain_nonempty: "ns \<noteq> [] \<Longrightarrow> \<forall>n\<in>set ns. plain_name n \<Longrightarrow> join_with ''/'' ns \<noteq> []"
  by (induction "''/''" ns rule: join_with.induct) (auto simp: plain_name_def)

lemma join_no_nul: "\<forall>n\<in>set ns. plain_name n \<Longrightarrow> CHR 0x00 \<notin> set (join_with ''/'' ns)"
  by (induction "''/''" ns rule: join_with.induct) (auto simp: plain_name_def)

lemma components_join:
  assumes "ns \<noteq> []" and "\<forall>n\<in>set ns. plain_name n"
  shows "components (join_with ''/'' ns) = map Normal ns"
proof -
  obtain x xs where ns: "ns = x # xs" using assms(1) by (cases ns) auto
  have "split_on CHR ''/'' (join_with ''/'' ns) = ns"
    using split_on_join [OF assms(1)] assms(2) by (auto simp: plain_name_def)
  moreover have "x \<noteq> []" "x \<noteq> ''.''" using assms(2) ns by (auto simp: plain_name_def)
  ultimately show ?thesis
    using ns assms join_plain_nonempty [OF assms] concat_seg_comp [of xs] seg_comp_plain [of x]
    by (simp add: components_def)
qed

lemma normalize_go_Normal: "normalize_go out d (map Normal ns) = out @ map Normal ns"
  by (induction ns arbitrary: out d) auto

lemma normalize_abs_path [simp]: "normalize_lexically (abs_path ns) = abs_path ns"
  by (simp add: normalize_lexically_def abs_path_def normalize_go_Normal)

lemma canonicalize_existing_located:
  "located fs ns \<Longrightarrow> canonicalize_existing fs cwd (abs_path ns) [] = Inr (Some (abs_path ns))"
  by (subst canonicalize_existing.simps) simp

lemma resolve_located:
  assumes "located fs (rs @ ns)"
    and "CHR 0x00 \<notin> set s"
    and "path_join (abs_path rs) (components (trim s)) = abs_path (rs @ ns)" and "trim s \<noteq> []"
  shows "resolve fs cwd (abs_path rs) s = Inr (abs_path (rs @ ns))"
  using assms canonicalize_existing_located [OF assms(1)]
  by (simp add: resolve_def canonicalize_existing_prefix_def path_starts_with_iff)

lemma path_join_names: "path_join (abs_path rs) (map Normal ns) = abs_path (rs @ ns)"
  by (cases ns) (simp_all add: path_join_def abs_path_def filter_map comp_def)

lemma display_under: "display_path (abs_path rs) (abs_path (rs @ ns)) =
    (if ns = [] then ''.'' else join_with ''/'' ns)"
  by (simp add: display_path_def path_starts_with_iff abs_path_append comp_str_def comp_def)

text \<open>
  The form a path is shown to the mentor in is understood when the mentor sends it back:
  for anything that exists under the root, \<open>resolve\<close> of \<open>display\<close> is that path again, provided
  the shown text neither starts nor ends with whitespace (\<open>resolve\<close> trims what it is given).
\<close>

theorem resolve_display:
  assumes "located fs (rs @ ns)" and "\<forall>n\<in>set ns. plain_name n"
    and "trim (join_with ''/'' ns) = join_with ''/'' ns"
  shows "resolve fs cwd (abs_path rs) (display_path (abs_path rs) (abs_path (rs @ ns)))
         = Inr (abs_path (rs @ ns))"
proof (cases "ns = []")
  case True
  have "components ''.'' = [CurDir]" and "trim ''.'' = ''.''" by code_simp+
  moreover have "path_join (abs_path rs) [CurDir] = abs_path rs"
    by (simp add: path_join_def abs_path_def)
  ultimately show ?thesis
    using resolve_located [of fs rs "[]" "''.''" cwd] assms(1) True display_under [of rs "[]"]
    by simp
next
  case False
  then show ?thesis
    using resolve_located [OF assms(1) join_no_nul [OF assms(2)], of cwd] assms(3)
      components_join [OF False assms(2)] join_plain_nonempty [OF False assms(2)]
    by (simp add: display_under path_join_names)
qed

theorem resolve_display_witness:
  "resolve demo_fs [] (abs_path [''w''])
     (display_path (abs_path [''w'']) (abs_path [''w'', ''src'', ''a.rs'']))
   = Inr (abs_path [''w'', ''src'', ''a.rs''])"
proof -
  have "located demo_fs ([''w''] @ [''src'', ''a.rs''])"
    by (auto simp: located_def demo_fs_def less_Suc_eq numeral_3_eq_3 link_target_def)
  moreover have "\<forall>n\<in>set [''src'', ''a.rs'']. plain_name n" by (simp add: plain_name_def)
  moreover have "trim (join_with ''/'' [''src'', ''a.rs'']) = join_with ''/'' [''src'', ''a.rs'']"
    by code_simp
  ultimately show ?thesis
    using resolve_display [of demo_fs "[''w'']" "[''src'', ''a.rs'']" "[]"] by simp
qed

section \<open>Containment, and what the sandbox does not see\<close>

lemma path_str_abs: "path_str (abs_path ns) = CHR ''/'' # join_with ''/'' ns"
  by (simp add: path_str_def abs_path_def comp_str_def comp_def)

lemma components_path_str:
  assumes "ns \<noteq> []" and "\<forall>n\<in>set ns. plain_name n"
  shows "components (path_str (abs_path ns)) = abs_path ns"
proof -
  have "split_on CHR ''/'' (join_with ''/'' ns) = ns"
    using split_on_join [OF assms(1)] assms(2) by (auto simp: plain_name_def)
  then show ?thesis
    using concat_seg_comp [OF assms(2)]
    by (simp add: path_str_abs components_def) (simp add: abs_path_def)
qed

text \<open>
  \<open>contains\<close> agrees with \<open>resolve\<close>: an absolute path that names something existing without
  links, dots or surrounding whitespace is contained in a root exactly when \<open>resolve\<close> accepts
  its text, which it then returns unchanged; otherwise \<open>resolve\<close> says it is outside.
\<close>

theorem resolve_iff_contains:
  assumes "located fs ns" and "ns \<noteq> []" and "\<forall>n\<in>set ns. plain_name n"
    and "trim (path_str (abs_path ns)) = path_str (abs_path ns)"
  shows "resolve fs cwd (abs_path rs) (path_str (abs_path ns)) =
     (if contains_path fs cwd (abs_path rs) (abs_path ns) then Inr (abs_path ns)
      else Inl (Outside (path_str (abs_path ns))))"
proof -
  have "CHR 0x00 \<notin> set (path_str (abs_path ns))"
    using join_no_nul [OF assms(3)] by (simp add: path_str_abs)
  moreover have "path_join (abs_path rs) (components (path_str (abs_path ns))) = abs_path ns"
    using components_path_str [OF assms(2,3)] by (simp add: path_join_def) (simp add: abs_path_def)
  moreover have "is_absolute (abs_path ns)" by (simp add: is_absolute_def abs_path_def)
  moreover have "path_str (abs_path ns) \<noteq> []" by (simp add: path_str_abs)
  ultimately show ?thesis
    using assms(4) canonicalize_existing_located [OF assms(1), of cwd]
    by (simp add: resolve_def contains_path_def canonicalize_existing_prefix_def)
qed

theorem resolve_iff_contains_witness:
  "resolve demo_fs [] (abs_path [''w'']) ''/etc'' = Inl (Outside ''/etc'')"
proof -
  have l: "located demo_fs [''etc'']"
    by (auto simp: located_def demo_fs_def link_target_def)
  have t: "trim (path_str (abs_path [''etc''])) = path_str (abs_path [''etc''])" by code_simp
  have "\<not> contains_path demo_fs [] (abs_path [''w'']) (abs_path [''etc''])" by code_simp
  moreover have "path_str (abs_path [''etc'']) = ''/etc''" by code_simp
  ultimately show ?thesis
    using resolve_iff_contains [OF l _ _ t, of "[]" "[''w'']"] by (simp add: plain_name_def)
qed

text \<open>
  A link whose target does not exist yet reads as a name that does not exist yet: \<open>resolve\<close>
  accepts it although following it would leave the root. (\<open>demo_fs\<close> has \<open>/w/new\<close> pointing to
  \<open>/etc/none\<close>.) And a name that ends in a space cannot be reached: its shown form is trimmed.
\<close>

lemma resolve_dangling_link:
  "resolve demo_fs [] (abs_path [''w'']) ''new'' = Inr (abs_path [''w'', ''new''])"
  "demo_fs [''w'', ''new''] = Some (Link ''/etc/none'')"
  by code_simp+

lemma resolve_display_trims:
  "display_path (abs_path [''w'']) (abs_path [''w'', ''a '']) = ''a ''"
  "resolve demo_fs [] (abs_path [''w'']) ''a '' = Inr (abs_path [''w'', ''a''])"
  by code_simp+

end
