(* ===== verification/Permission_Rules.thy ===== *)
theory Permission_Rules
  imports Json_Value Workspace_Paths
begin

text \<open>
  Permission rules: \<open>crates/core/src/permissions/rules.rs\<close> and the types of
  \<open>crates/api/src/types.rs\<close> it works on. A rule is matched against a request, the first
  match of a file counts, and \<open>evaluate\<close> ranks the files, the built-in rules and the
  defaults.

  Globs (\<open>globset\<close>) and regular expressions (\<open>regex\<close>) are third-party code: the record
  \<open>matchers\<close> holds what the source calls of them, and every definition that needs them takes
  it as an argument. A compiled matcher is represented by the pattern it was built from.
\<close>

section \<open>Types\<close>

datatype risk = ReadOnly | Write | Execute | Network

datatype rule_effect = Allow | Deny | Ask

datatype rule_source = Workspace | User | Builtin

datatype rule_default = DefaultAsk | DefaultDeny

record rule_match =
  m_path :: "string option"
  m_command_prefix :: "string option"
  m_command_regex :: "string option"
  m_outside_workspace :: "bool option"
  m_risk :: "risk option"

record rule_spec =
  s_tool :: string
  s_effect :: rule_effect
  s_match :: rule_match

definition no_match :: rule_match where
  "no_match = \<lparr>m_path = None, m_command_prefix = None, m_command_regex = None,
     m_outside_workspace = None, m_risk = None\<rparr>"

definition rule_match_is_empty :: "rule_match \<Rightarrow> bool" where
  "rule_match_is_empty m \<longleftrightarrow> m = no_match"

record compiled_rule =
  c_spec :: rule_spec
  c_line :: "nat option"
  c_name :: "string option"
  c_glob :: "string option"
  c_regex :: "string option"

record subject_path =
  p_given :: string
  p_shown :: string
  p_abs :: "path option"
  p_outside :: bool

record permission_request =
  r_tool :: string
  r_risk :: risk
  r_input :: json
  r_workspace :: "path option"
  r_paths :: "subject_path list"
  r_command :: "string option"
  r_description :: string

record matchers =
  glob_error :: "string \<Rightarrow> string option"
  glob_is_match :: "string \<Rightarrow> string \<Rightarrow> bool"
  regex_error :: "string \<Rightarrow> string option"
  regex_is_match :: "string \<Rightarrow> string \<Rightarrow> bool"
  regex_escape :: "string \<Rightarrow> string"

definition has_outside :: "permission_request \<Rightarrow> bool" where
  "has_outside req \<longleftrightarrow> (\<exists>p\<in>set (r_paths req). p_outside p)"

definition risk_name :: "risk \<Rightarrow> string" where
  "risk_name r =
     (case r of ReadOnly \<Rightarrow> ''read_only'' | Write \<Rightarrow> ''write''
      | Execute \<Rightarrow> ''execute'' | Network \<Rightarrow> ''network'')"

definition effect_name :: "rule_effect \<Rightarrow> string" where
  "effect_name e = (case e of Allow \<Rightarrow> ''allow'' | Deny \<Rightarrow> ''deny'' | Ask \<Rightarrow> ''ask'')"

definition source_name :: "rule_source \<Rightarrow> string" where
  "source_name s =
     (case s of Workspace \<Rightarrow> ''workspace'' | User \<Rightarrow> ''user'' | Builtin \<Rightarrow> ''builtin'')"

section \<open>Compiling a rule\<close>

definition compile :: "matchers \<Rightarrow> rule_spec \<Rightarrow> string + compiled_rule" where
  "compile mt spec =
     (if s_tool spec = [] then Inl ''`tool` must be a tool name or `*`''
      else case Option.bind (m_path (s_match spec)) (glob_error mt) of
        Some e \<Rightarrow> Inl (''`match.path`: '' @ e)
      | None \<Rightarrow>
          (case Option.bind (m_command_regex (s_match spec)) (regex_error mt) of
             Some e \<Rightarrow> Inl (''`match.command_regex`: '' @ e)
           | None \<Rightarrow> Inr \<lparr>c_spec = spec, c_line = None, c_name = None,
                       c_glob = m_path (s_match spec),
                       c_regex = m_command_regex (s_match spec)\<rparr>))"

text \<open>A compiled rule: its matchers are those of its own conditions.\<close>

definition compiled_ok :: "matchers \<Rightarrow> compiled_rule \<Rightarrow> bool" where
  "compiled_ok mt r \<longleftrightarrow>
     s_tool (c_spec r) \<noteq> [] \<and>
     c_glob r = m_path (s_match (c_spec r)) \<and>
     c_regex r = m_command_regex (s_match (c_spec r))"

lemma compile_ok: "compile mt spec = Inr r \<Longrightarrow> compiled_ok mt r \<and> c_spec r = spec"
  by (auto simp: compile_def compiled_ok_def split: if_splits option.splits)

section \<open>Matching\<close>

text \<open>More than one command in one string.\<close>

definition is_chain :: "string \<Rightarrow> bool" where
  "is_chain command \<longleftrightarrow>
     (\<exists>c\<in>set command. c \<in> {CHR 0x0A, CHR '';'', CHR ''&'', CHR ''|'', CHR 0x60})
     \<or> contains_str command ''$(''"

definition command_has_prefix :: "string \<Rightarrow> string \<Rightarrow> bool" where
  "command_has_prefix command0 prefix0 =
     (let command = trim command0; pre = trim prefix0
      in if pre = [] \<or> is_chain command then False
         else (case strip_prefix command pre of
                 Some rest \<Rightarrow> rest = [] \<or> starts_with_ws rest
               | None \<Rightarrow> False))"

definition path_matches :: "matchers \<Rightarrow> string \<Rightarrow> string \<Rightarrow> bool" where
  "path_matches mt glob shown =
     (if glob_is_match mt glob shown then True
      else (case strip_suffix glob ''/**'' of
              Some dir \<Rightarrow> shown = dir
            | None \<Rightarrow> glob = ''**'' \<and> shown = ''.''))"

definition matches :: "matchers \<Rightarrow> compiled_rule \<Rightarrow> permission_request \<Rightarrow> bool" where
  "matches mt r req =
     (let m = s_match (c_spec r); tool = s_tool (c_spec r) in
      if tool \<noteq> ''*'' \<and> tool \<noteq> r_tool req then False
      else if (case m_risk m of Some k \<Rightarrow> k \<noteq> r_risk req | None \<Rightarrow> False) then False
      else if (case m_outside_workspace m of Some o1 \<Rightarrow> o1 \<noteq> has_outside req | None \<Rightarrow> False)
      then False
      else if (case c_glob r of
                 Some g \<Rightarrow>
                   r_paths req = [] \<or>
                   \<not> (\<forall>p\<in>set (r_paths req).
                        (\<not> p_outside p \<or> m_outside_workspace m = Some True) \<and>
                        path_matches mt g (p_shown p))
               | None \<Rightarrow> False)
      then False
      else if (case m_command_prefix m of
                 Some pre \<Rightarrow>
                   \<not> (case r_command req of Some c \<Rightarrow> command_has_prefix c pre | None \<Rightarrow> False)
               | None \<Rightarrow> False)
      then False
      else if (case c_regex r of
                 Some re \<Rightarrow>
                   \<not> (case r_command req of Some c \<Rightarrow> regex_is_match mt re c | None \<Rightarrow> False)
               | None \<Rightarrow> False)
      then False
      else True)"

lemma matches_cong:
  "compiled_ok mt r \<Longrightarrow> compiled_ok mt r' \<Longrightarrow> c_spec r = c_spec r' \<Longrightarrow>
     matches mt r req = matches mt r' req"
  by (simp add: matches_def compiled_ok_def)

lemma matches_effect:
  "compiled_ok mt r \<Longrightarrow> compiled_ok mt r' \<Longrightarrow> s_tool (c_spec r) = s_tool (c_spec r') \<Longrightarrow>
     s_match (c_spec r) = s_match (c_spec r') \<Longrightarrow> matches mt r req = matches mt r' req"
  by (simp add: matches_def compiled_ok_def)

text \<open>
  \<open>format!("{p:?}")\<close> of a string: quoted, with the escapes of \<open>char::escape_debug\<close> for the
  ASCII range; other characters are copied.
\<close>

definition hex_digit :: "nat \<Rightarrow> char" where
  "hex_digit d = (if d < 10 then char_of (48 + d) else char_of (87 + d))"

definition debug_char :: "char \<Rightarrow> string" where
  "debug_char c =
     (if c = CHR 0x00 then [CHR 0x5C, CHR ''0'']
      else if c = CHR 0x09 then [CHR 0x5C, CHR ''t'']
      else if c = CHR 0x0A then [CHR 0x5C, CHR ''n'']
      else if c = CHR 0x0D then [CHR 0x5C, CHR ''r'']
      else if c = CHR 0x22 \<or> c = CHR 0x5C then [CHR 0x5C, c]
      else let n = of_char c :: nat in
        if n < 16 then [CHR 0x5C, CHR ''u'', CHR ''{'', hex_digit n, CHR ''}'']
        else if n < 32 \<or> n = 127
        then [CHR 0x5C, CHR ''u'', CHR ''{'', hex_digit (n div 16), hex_digit (n mod 16), CHR ''}'']
        else [c])"

definition debug_str :: "string \<Rightarrow> string" where
  "debug_str s = CHR 0x22 # concat (map debug_char s) @ [CHR 0x22]"

definition describe :: "compiled_rule \<Rightarrow> string" where
  "describe r =
     (let m = s_match (c_spec r);
          parts =
            (case m_risk m of Some k \<Rightarrow> [''risk='' @ risk_name k] | None \<Rightarrow> [])
            @ (case m_path m of Some p \<Rightarrow> [''path='' @ p] | None \<Rightarrow> [])
            @ (case m_command_prefix m of
                 Some p \<Rightarrow> [''command_prefix='' @ debug_str p] | None \<Rightarrow> [])
            @ (case m_command_regex m of
                 Some p \<Rightarrow> [''command_regex='' @ debug_str p] | None \<Rightarrow> [])
            @ (case m_outside_workspace m of
                 Some b \<Rightarrow> [''outside_workspace='' @ (if b then ''true'' else ''false'')]
               | None \<Rightarrow> [])
      in if parts = [] then s_tool (c_spec r)
         else s_tool (c_spec r) @ '' ['' @ join_with '', '' parts @ '']'')"

section \<open>Built-in rules\<close>

text \<open>
  The texts of the patterns in \<open>CATASTROPHIC\<close>, written with \<open>!\<close> for a backslash, \<open>#\<close> for a
  single and \<open>_\<close> for a double quote (none of the three occurs in them).
\<close>

definition unlit :: "string \<Rightarrow> string" where
  "unlit s = map (\<lambda>c. if c = CHR ''!'' then CHR 0x5C else if c = CHR ''#'' then CHR 0x27
                     else if c = CHR ''_'' then CHR 0x22 else c) s"

definition catastrophic :: "(string \<times> string) list" where
  "catastrophic =
     [(''rm_recursive_root'',
        ''(?i)(^|[;&|]!s*|!bsudo!s+)rm!s+(-[a-z-]+!s+)*(-[a-z]*r[a-z]*|--recursive)!s+(-[a-z-]+!s+)*[#_]?(/!*?|~/?!*?|!$HOME/?!*?|%USERPROFILE%|!*|!.{1,2}/?!*?|[a-z]:[!!/]?!*?)[#_]?(!s|;|&|!||$)''),
      (''remove_item_recursive_root'',
        ''(?i)!bRemove-Item!b([^;|]*!s-Recurse!b[^;|]*?(!s|[#_])|[^;|]*?(!s|[#_]))(/|!!|[a-z]:[!!/]?|~|!$HOME|!$env:USERPROFILE|!.!.?|!*)[#_]?(!s[^;|]*-Recurse!b|!s|$)''),
      (''disk_format'',
        ''(?i)(^|[;&|]!s*|!bsudo!s+)(mkfs(!.[a-z0-9]+)?!s|format(!.com)?!s+[a-z]:|diskpart(!s|$)|dd!s+[^;|]*of=/dev/)''),
      (''fork_bomb'',
        '':!(!)!s*!{!s*:!s*!|!s*:!s*&!s*!}!s*;!s*:''),
      (''chmod_recursive_root'',
        ''(?i)(^|[;&|]!s*|!bsudo!s+)(chmod|chown)!s+(-[a-z]*R[a-z]*|--recursive)!s+!S+!s+/(!s|;|&|!||$)'')]"

definition named :: "rule_spec \<Rightarrow> string \<Rightarrow> compiled_rule" where
  "named spec name =
     \<lparr>c_spec = spec, c_line = None, c_name = Some name,
      c_glob = m_path (s_match spec), c_regex = m_command_regex (s_match spec)\<rparr>"

definition read_only_inside :: compiled_rule where
  "read_only_inside =
     named \<lparr>s_tool = ''*'', s_effect = Allow,
            s_match = no_match\<lparr>m_risk := Some ReadOnly, m_outside_workspace := Some False\<rparr>\<rparr>
       ''read_only_inside''"

definition builtin_rules :: "compiled_rule list" where
  "builtin_rules =
     read_only_inside #
     map (\<lambda>(name, regex).
            named \<lparr>s_tool = ''*'', s_effect = Deny,
                   s_match = no_match\<lparr>m_command_regex := Some (unlit regex)\<rparr>\<rparr> name)
       catastrophic"

section \<open>Files as loaded\<close>

datatype rule_file_error =
    ParseErr string nat string
  | IoErr string io_error

definition io_error_str :: "io_error \<Rightarrow> string" where
  "io_error_str e =
     (case e of
        NotFound \<Rightarrow> ''No such file or directory (os error 2)''
      | NotADirectory \<Rightarrow> ''Not a directory (os error 20)''
      | PermissionDenied \<Rightarrow> ''Permission denied (os error 13)''
      | FilesystemLoop \<Rightarrow> ''Too many levels of symbolic links (os error 40)''
      | OtherIo s \<Rightarrow> s)"

definition rule_file_error_str :: "rule_file_error \<Rightarrow> string" where
  "rule_file_error_str e =
     (case e of
        ParseErr path line message \<Rightarrow> path @ '':'' @ show_nat line @ '': '' @ message
      | IoErr path err \<Rightarrow> path @ '': '' @ io_error_str err)"

datatype layer_state =
    Missing
  | Loaded "rule_default option" "compiled_rule list"
  | Broken rule_file_error

record layer =
  l_source :: rule_source
  l_path :: string
  l_state :: layer_state
  l_stamp :: "(nat \<times> nat) option"

definition layer_rules :: "layer \<Rightarrow> compiled_rule list" where
  "layer_rules l = (case l_state l of Loaded d rs \<Rightarrow> rs | Missing \<Rightarrow> [] | Broken e \<Rightarrow> [])"

definition layer_default :: "layer \<Rightarrow> rule_default option" where
  "layer_default l = (case l_state l of Loaded d rs \<Rightarrow> d | Missing \<Rightarrow> None | Broken e \<Rightarrow> None)"

definition layer_error :: "layer \<Rightarrow> rule_file_error option" where
  "layer_error l = (case l_state l of Broken e \<Rightarrow> Some e | Missing \<Rightarrow> None | Loaded d rs \<Rightarrow> None)"

text \<open>The first rule of a file that matches, with its 1-based index.\<close>

definition first_match :: "matchers \<Rightarrow> layer \<Rightarrow> permission_request \<Rightarrow> (nat \<times> compiled_rule) option" where
  "first_match mt l req =
     (case enum_find (\<lambda>r. matches mt r req) 0 (layer_rules l) of
        Some (i, r) \<Rightarrow> Some (i + 1, r)
      | None \<Rightarrow> None)"

record rule_info =
  ri_source :: rule_source
  ri_index :: nat
  ri_line :: "nat option"
  ri_name :: "string option"
  ri_rule :: rule_spec

record rule_file_info =
  fi_source :: rule_source
  fi_path :: string
  fi_exists :: bool
  fi_default :: "rule_default option"
  fi_error :: "string option"

definition layer_info :: "layer \<Rightarrow> rule_file_info" where
  "layer_info l =
     \<lparr>fi_source = l_source l, fi_path = l_path l, fi_exists = (l_state l \<noteq> Missing),
      fi_default = layer_default l, fi_error = map_option rule_file_error_str (layer_error l)\<rparr>"

definition layer_list :: "layer \<Rightarrow> rule_info list" where
  "layer_list l =
     map (\<lambda>(i, r). \<lparr>ri_source = l_source l, ri_index = i + 1, ri_line = c_line r,
                     ri_name = c_name r, ri_rule = c_spec r\<rparr>)
       (enumerate 0 (layer_rules l))"

definition list_builtins :: "rule_info list" where
  "list_builtins =
     map (\<lambda>(i, r). \<lparr>ri_source = Builtin, ri_index = i + 1, ri_line = None,
                     ri_name = c_name r, ri_rule = c_spec r\<rparr>)
       (enumerate 0 builtin_rules)"

section \<open>Ranking the layers\<close>

record evaluation =
  e_effect :: rule_effect
  e_rule_ref :: "string option"
  e_rule :: "string option"
  e_broken :: "string list"

definition decided :: "layer \<Rightarrow> nat \<Rightarrow> compiled_rule \<Rightarrow> evaluation" where
  "decided l i r =
     \<lparr>e_effect = s_effect (c_spec r),
      e_rule_ref = Some (source_name (l_source l) @ '':'' @ show_nat i),
      e_rule = Some (describe r), e_broken = []\<rparr>"

text \<open>The loops of \<open>evaluate\<close> over the layers, each returning at its first hit.\<close>

fun first_deny :: "(layer \<times> (nat \<times> compiled_rule) option) list \<Rightarrow> evaluation option" where
  "first_deny [] = None"
| "first_deny ((l, Some (i, r)) # ms) =
     (if s_effect (c_spec r) = Deny then Some (decided l i r) else first_deny ms)"
| "first_deny ((l, None) # ms) = first_deny ms"

fun first_decided :: "(layer \<times> (nat \<times> compiled_rule) option) list \<Rightarrow> evaluation option" where
  "first_decided [] = None"
| "first_decided ((l, Some (i, r)) # ms) = Some (decided l i r)"
| "first_decided ((l, None) # ms) = first_decided ms"

fun first_default :: "layer list \<Rightarrow> evaluation option" where
  "first_default [] = None"
| "first_default (l # ls) =
     (case layer_default l of
        Some d \<Rightarrow>
          Some \<lparr>e_effect = (case d of DefaultDeny \<Rightarrow> Deny | DefaultAsk \<Rightarrow> Ask),
                e_rule_ref = Some (''default:'' @ source_name (l_source l)),
                e_rule = None, e_broken = []\<rparr>
      | None \<Rightarrow> first_default ls)"

definition evaluate :: "matchers \<Rightarrow> layer list \<Rightarrow> permission_request \<Rightarrow> evaluation" where
  "evaluate mt layers req =
     (let ms = map (\<lambda>l. (l, first_match mt l req)) layers in
      case first_deny ms of
        Some e \<Rightarrow> e
      | None \<Rightarrow>
          (let broken = List.map_filter (\<lambda>l. map_option rule_file_error_str (layer_error l)) layers in
           if broken \<noteq> []
           then \<lparr>e_effect = Ask, e_rule_ref = None, e_rule = None, e_broken = broken\<rparr>
           else case first_decided ms of
             Some e \<Rightarrow> e
           | None \<Rightarrow>
               (case find (\<lambda>r. matches mt r req) builtin_rules of
                  Some r \<Rightarrow>
                    \<lparr>e_effect = s_effect (c_spec r),
                     e_rule_ref = Some (''builtin:'' @ (case c_name r of Some n \<Rightarrow> n | None \<Rightarrow> ''?'')),
                     e_rule = Some (describe r), e_broken = []\<rparr>
                | None \<Rightarrow>
                    (case first_default layers of
                       Some e \<Rightarrow> e
                     | None \<Rightarrow> \<lparr>e_effect = Ask, e_rule_ref = None, e_rule = None, e_broken = []\<rparr>))))"

section \<open>How a rule matches\<close>

lemma command_has_prefix_iff:
  "command_has_prefix c p \<longleftrightarrow>
     trim p \<noteq> [] \<and> \<not> is_chain (trim c) \<and>
     (\<exists>rest. trim c = trim p @ rest \<and> (rest = [] \<or> starts_with_ws rest))"
  by (auto simp: command_has_prefix_def Let_def strip_prefix_Some_iff split: option.splits)
     (auto simp: strip_prefix_def split: if_splits)

lemma is_chain_iff:
  "is_chain c \<longleftrightarrow>
     (\<exists>a x b. c = a @ x @ b \<and> x \<in> {[CHR 0x0A], '';'', ''&'', ''|'', [CHR 0x60], ''$(''})"
proof -
  have *: "(\<exists>a x b. c = a @ x @ b \<and> x \<in> S) \<longleftrightarrow> (\<exists>x\<in>S. contains_str c x)" for S
    by (auto simp: contains_str_iff)
  have "contains_str c [x] \<longleftrightarrow> x \<in> set c" for x
    by (auto simp: contains_str_iff in_set_conv_decomp)
  then show ?thesis unfolding * is_chain_def by auto
qed

lemma matchesD:
  assumes "matches mt r req"
  shows "s_tool (c_spec r) = ''*'' \<or> s_tool (c_spec r) = r_tool req"
    and "m_risk (s_match (c_spec r)) = Some k \<Longrightarrow> k = r_risk req"
    and "m_outside_workspace (s_match (c_spec r)) = Some o1 \<Longrightarrow> o1 = has_outside req"
    and "c_glob r = Some g \<Longrightarrow> r_paths req \<noteq> [] \<and>
           (\<forall>p\<in>set (r_paths req). (\<not> p_outside p \<or> m_outside_workspace (s_match (c_spec r)) = Some True)
              \<and> path_matches mt g (p_shown p))"
    and "m_command_prefix (s_match (c_spec r)) = Some pre \<Longrightarrow>
           \<exists>c. r_command req = Some c \<and> command_has_prefix c pre"
    and "c_regex r = Some re \<Longrightarrow> \<exists>c. r_command req = Some c \<and> regex_is_match mt re c"
  using assms by (auto simp: matches_def Let_def split: if_splits option.splits)

text \<open>
  A rule with a command prefix never matches a command chain: if it matches, the request has
  a command that, trimmed, contains none of newline, semicolon, ampersand, pipe, backtick and
  \<open>$(\<close>, and that is the trimmed prefix or continues it with whitespace, so that the prefix is a
  leading run of its words.
\<close>

theorem prefix_rule_never_matches_chain:
  assumes "matches mt r req" and "m_command_prefix (s_match (c_spec r)) = Some pre"
  shows "\<exists>c rest. r_command req = Some c \<and> trim c = trim pre @ rest \<and> trim pre \<noteq> [] \<and>
           (rest = [] \<or> starts_with_ws rest) \<and>
           (\<nexists>a x b. trim c = a @ x @ b \<and> x \<in> {[CHR 0x0A], '';'', ''&'', ''|'', [CHR 0x60], ''$(''})"
  using matchesD(5) [OF assms] by (auto simp: command_has_prefix_iff is_chain_iff)

definition no_matchers :: matchers where
  "no_matchers = \<lparr>glob_error = (\<lambda>_. None), glob_is_match = (\<lambda>p s. p = s),
     regex_error = (\<lambda>_. None), regex_is_match = (\<lambda>p s. p = s), regex_escape = (\<lambda>s. s)\<rparr>"

definition shell_request :: "string \<Rightarrow> permission_request" where
  "shell_request c = \<lparr>r_tool = ''shell'', r_risk = Execute, r_input = JNull, r_workspace = None,
     r_paths = [], r_command = Some c, r_description = ''shell''\<rparr>"

definition prefix_rule :: "rule_effect \<Rightarrow> string \<Rightarrow> compiled_rule" where
  "prefix_rule e p = \<lparr>c_spec = \<lparr>s_tool = ''shell'', s_effect = e,
      s_match = no_match\<lparr>m_command_prefix := Some p\<rparr>\<rparr>,
     c_line = None, c_name = None, c_glob = None, c_regex = None\<rparr>"

lemma prefix_rule_demo:
  "matches no_matchers (prefix_rule Allow '' cargo test '') (shell_request ''cargo test -q'')"
  "\<not> matches no_matchers (prefix_rule Allow ''cargo test'') (shell_request ''cargo test; rm -rf .'')"
  "\<not> matches no_matchers (prefix_rule Allow ''cargo test'') (shell_request ''cargo tester'')"
  by code_simp+

theorem prefix_rule_never_matches_chain_witness:
  "\<exists>rest. trim ''cargo test -q'' = trim '' cargo test '' @ rest \<and> starts_with_ws rest"
proof -
  have "trim ''cargo test -q'' \<noteq> trim '' cargo test ''" by code_simp
  then show ?thesis
    using prefix_rule_never_matches_chain [OF prefix_rule_demo(1), of "'' cargo test ''"]
    by (auto simp: prefix_rule_def shell_request_def)
qed

text \<open>
  A path rule does not reach past the workspace root: a compiled rule with a \<open>path\<close> glob and
  without \<open>outside_workspace = true\<close> only matches calls that name at least one path and whose
  paths are all inside the workspace, whatever the glob is (\<open>**\<close> included).
\<close>

theorem glob_rule_stays_inside:
  assumes "compile mt spec = Inr r" and "matches mt r req"
    and "m_path (s_match spec) = Some g" and "m_outside_workspace (s_match spec) \<noteq> Some True"
  shows "r_paths req \<noteq> [] \<and> \<not> has_outside req \<and>
         (\<forall>p\<in>set (r_paths req). path_matches mt g (p_shown p))"
proof -
  have "c_spec r = spec" and "c_glob r = Some g"
    using compile_ok [OF assms(1)] assms(3) by (auto simp: compiled_ok_def)
  with matchesD(4) [OF assms(2)] assms(4) show ?thesis by (auto simp: has_outside_def)
qed

definition write_request :: "string \<Rightarrow> bool \<Rightarrow> permission_request" where
  "write_request p out = \<lparr>r_tool = ''write_file'', r_risk = Write, r_input = JNull, r_workspace = None,
     r_paths = [\<lparr>p_given = p, p_shown = p, p_abs = None, p_outside = out\<rparr>], r_command = None,
     r_description = ''write''\<rparr>"

definition glob_spec :: rule_spec where
  "glob_spec = \<lparr>s_tool = ''*'', s_effect = Allow, s_match = no_match\<lparr>m_path := Some ''src/**''\<rparr>\<rparr>"

definition glob_rule :: compiled_rule where
  "glob_rule = \<lparr>c_spec = glob_spec, c_line = None, c_name = None,
     c_glob = Some ''src/**'', c_regex = None\<rparr>"

theorem glob_rule_stays_inside_witness:
  "matches no_matchers glob_rule (write_request ''src'' False) \<and>
   \<not> has_outside (write_request ''src'' False)"
proof -
  have r: "compile no_matchers glob_spec = Inr glob_rule"
    by (simp add: compile_def no_matchers_def glob_spec_def glob_rule_def no_match_def)
  have m: "matches no_matchers glob_rule (write_request ''src'' False)" by code_simp
  have "m_path (s_match glob_spec) = Some ''src/**''"
    and "m_outside_workspace (s_match glob_spec) \<noteq> Some True"
    by (simp_all add: glob_spec_def no_match_def)
  from glob_rule_stays_inside [OF r m this] m show ?thesis by blast
qed

section \<open>How the layers are ranked\<close>

lemma first_match_eq:
  "first_match mt l req =
     map_option (\<lambda>i. (Suc i, layer_rules l ! i)) (position (\<lambda>r. matches mt r req) (layer_rules l))"
  by (simp add: first_match_def enum_find_position split: option.split)

lemma first_match_Some_iff:
  "first_match mt l req = Some (i, r) \<longleftrightarrow>
     0 < i \<and> i \<le> length (layer_rules l) \<and> r = layer_rules l ! (i - 1) \<and> matches mt r req \<and>
     (\<forall>j<i - 1. \<not> matches mt (layer_rules l ! j) req)"
  by (cases i) (auto simp: first_match_eq position_Some_iff Suc_le_eq)

lemma first_match_None_iff:
  "first_match mt l req = None \<longleftrightarrow> (\<forall>r\<in>set (layer_rules l). \<not> matches mt r req)"
  by (simp add: first_match_eq position_None_iff)

text \<open>The effect a file answers with, when one of its rules matches.\<close>

definition layer_effect :: "matchers \<Rightarrow> permission_request \<Rightarrow> layer \<Rightarrow> rule_effect option" where
  "layer_effect mt req l = map_option (\<lambda>(i, r). s_effect (c_spec r)) (first_match mt l req)"

lemma first_deny_None:
  "first_deny (map (\<lambda>l. (l, first_match mt l req)) ls) = None
     \<longleftrightarrow> (\<forall>l\<in>set ls. layer_effect mt req l \<noteq> Some Deny)"
proof (induction ls)
  case (Cons l ls)
  show ?case
  proof (cases "first_match mt l req")
    case None
    with Cons show ?thesis by (simp add: layer_effect_def)
  next
    case (Some p)
    obtain i r where "p = (i, r)" by (cases p)
    with Some Cons show ?thesis
      by (cases "s_effect (c_spec r) = Deny") (simp_all add: layer_effect_def)
  qed
qed simp

lemma first_deny_Some:
  "first_deny (map (\<lambda>l. (l, first_match mt l req)) ls) = Some e \<Longrightarrow>
     e_effect e = Deny \<and> e_broken e = []"
proof (induction ls)
  case (Cons l ls)
  then show ?case
    by (cases "first_match mt l req") (auto simp: decided_def split: if_splits)
qed simp

lemma first_decided_effect:
  "map_option e_effect (first_decided (map (\<lambda>l. (l, first_match mt l req)) ls)) =
     (case find (\<lambda>l. layer_effect mt req l \<noteq> None) ls of
        None \<Rightarrow> None | Some l \<Rightarrow> layer_effect mt req l)"
proof (induction ls)
  case (Cons l ls)
  then show ?case
    by (cases "first_match mt l req") (auto simp: layer_effect_def decided_def)
qed simp

lemma map_filter_error_Nil:
  "List.map_filter (\<lambda>l. map_option rule_file_error_str (layer_error l)) ls = []
     \<longleftrightarrow> (\<forall>l\<in>set ls. layer_error l = None)"
  by (induction ls) (auto simp: List.map_filter_simps split: option.splits)

text \<open>
  The ranking, said declaratively: the first applicable line decides.
\<close>

definition builtin_effect :: "matchers \<Rightarrow> permission_request \<Rightarrow> rule_effect option" where
  "builtin_effect mt req = map_option (\<lambda>r. s_effect (c_spec r)) (find (\<lambda>r. matches mt r req) builtin_rules)"

definition default_effect :: "layer list \<Rightarrow> rule_effect option" where
  "default_effect ls =
     (case find (\<lambda>l. layer_default l \<noteq> None) ls of
        None \<Rightarrow> None
      | Some l \<Rightarrow> (if layer_default l = Some DefaultDeny then Some Deny else Some Ask))"

definition ranked_effect :: "matchers \<Rightarrow> layer list \<Rightarrow> permission_request \<Rightarrow> rule_effect" where
  "ranked_effect mt ls req =
     (if \<exists>l\<in>set ls. layer_effect mt req l = Some Deny then Deny
      else if \<exists>l\<in>set ls. layer_error l \<noteq> None then Ask
      else case List.map_filter (layer_effect mt req) ls @
                List.map_filter id [builtin_effect mt req, default_effect ls] of
             e # _ \<Rightarrow> e | [] \<Rightarrow> Ask)"

lemma first_default_effect: "map_option e_effect (first_default ls) = default_effect ls"
  by (induction ls) (auto simp: default_effect_def split: option.splits rule_default.splits)

lemma map_filter_find:
  "List.map_filter f ls = [] \<longleftrightarrow> find (\<lambda>l. f l \<noteq> None) ls = None"
  "find (\<lambda>l. f l \<noteq> None) ls = Some l \<Longrightarrow> \<exists>es. List.map_filter f ls = the (f l) # es"
  by (induction ls) (auto simp: List.map_filter_simps split: option.splits if_splits)

lemma evaluate_effect_ranked: "e_effect (evaluate mt layers req) = ranked_effect mt layers req"
proof (cases "\<exists>l\<in>set layers. layer_effect mt req l = Some Deny")
  case True
  then obtain e where "first_deny (map (\<lambda>l. (l, first_match mt l req)) layers) = Some e"
    and "e_effect e = Deny"
    using first_deny_None first_deny_Some by (metis not_None_eq)
  with True show ?thesis by (simp add: evaluate_def ranked_effect_def)
next
  case no_deny: False
  then have d: "first_deny (map (\<lambda>l. (l, first_match mt l req)) layers) = None"
    using first_deny_None by blast
  show ?thesis
  proof (cases "\<exists>l\<in>set layers. layer_error l \<noteq> None")
    case True
    with no_deny d show ?thesis
      using map_filter_error_Nil [of layers] by (simp add: evaluate_def ranked_effect_def)
  next
    case False
    note base = d False map_filter_error_Nil [of layers]
    show ?thesis
    proof (cases "find (\<lambda>l. layer_effect mt req l \<noteq> None) layers")
      case (Some l)
      with no_deny base first_decided_effect [of mt req layers]
        map_filter_find(2) [OF Some] find_SomeD [OF Some]
      show ?thesis by (auto simp: evaluate_def ranked_effect_def)
    next
      case None
      with no_deny base first_decided_effect [of mt req layers]
        map_filter_find(1) [of "layer_effect mt req" layers] first_default_effect [of layers]
      show ?thesis
        by (auto simp: evaluate_def ranked_effect_def builtin_effect_def List.map_filter_simps
            split: option.splits)
    qed
  qed
qed

text \<open>
  C24: How the layers are ranked: a deny from any file, then (a file that is not in force) ask,
  then the first match of the files in order, then the first built-in that matches, then the
  first explicit default, else ask. \<open>evaluate\<close>'s loops compute exactly this ranking.
\<close>

theorem evaluate_ranks: "e_effect (evaluate mt layers req) = ranked_effect mt layers req"
  by (rule evaluate_effect_ranked)

lemma evaluate_deny:
  "l \<in> set ls \<Longrightarrow> layer_effect mt req l = Some Deny \<Longrightarrow> e_effect (evaluate mt ls req) = Deny"
  by (auto simp: evaluate_effect_ranked ranked_effect_def)

lemma builtin_allow:
  "builtin_effect mt req = Some Allow \<Longrightarrow> r_risk req = ReadOnly \<and> \<not> has_outside req"
proof -
  assume "builtin_effect mt req = Some Allow"
  then obtain r where "find (\<lambda>r. matches mt r req) builtin_rules = Some r"
    and a: "s_effect (c_spec r) = Allow" by (auto simp: builtin_effect_def)
  then have "r \<in> set builtin_rules" and m: "matches mt r req" by (auto dest: find_SomeD)
  with a have "r = read_only_inside"
    by (auto simp: builtin_rules_def named_def)
  with matchesD(2,3) [OF m] show ?thesis
    by (auto simp: read_only_inside_def named_def no_match_def)
qed

lemma default_never_allows: "default_effect ls \<noteq> Some Allow"
  by (simp add: default_effect_def split: option.split)

lemma map_filter_head:
  "List.map_filter f ls = e # es \<Longrightarrow> \<exists>l\<in>set ls. f l = Some e"
  by (induction ls) (auto simp: List.map_filter_simps split: option.splits)

text \<open>
  Nothing is allowed by accident: when \<open>evaluate\<close> answers allow, every file is in force, no
  file's first match denies, and either the first match of some file is an allow rule the user
  wrote, or the call is read-only and names no path outside the workspace. In particular a file
  that does not parse or cannot be read never leaves a call allowed.
\<close>

theorem evaluate_allow_justified:
  assumes "e_effect (evaluate mt layers req) = Allow"
  shows "(\<forall>l\<in>set layers. layer_error l = None \<and> layer_effect mt req l \<noteq> Some Deny) \<and>
         ((\<exists>l\<in>set layers. layer_effect mt req l = Some Allow) \<or>
          r_risk req = ReadOnly \<and> \<not> has_outside req)"
proof -
  have r: "ranked_effect mt layers req = Allow" using assms by (simp add: evaluate_effect_ranked)
  then have a: "\<forall>l\<in>set layers. layer_error l = None \<and> layer_effect mt req l \<noteq> Some Deny"
    by (auto simp: ranked_effect_def split: if_splits)
  show ?thesis
  proof (cases "List.map_filter (layer_effect mt req) layers")
    case Nil
    with r a have "builtin_effect mt req = Some Allow \<or> default_effect layers = Some Allow"
      by (auto simp: ranked_effect_def List.map_filter_simps split: if_splits option.splits)
    with a builtin_allow default_never_allows show ?thesis by blast
  next
    case (Cons e es)
    with r a have "e = Allow" by (auto simp: ranked_effect_def split: if_splits)
    with map_filter_head [OF Cons] a show ?thesis by blast
  qed
qed

definition demo_layer :: "rule_source \<Rightarrow> compiled_rule list \<Rightarrow> layer" where
  "demo_layer src rs = \<lparr>l_source = src, l_path = ''permissions.toml'', l_state = Loaded None rs,
     l_stamp = None\<rparr>"

theorem evaluate_allow_justified_witness:
  "\<exists>l\<in>set [demo_layer User [prefix_rule Allow ''cargo'']].
     layer_effect no_matchers (shell_request ''cargo test'') l = Some Allow"
proof -
  have "e_effect (evaluate no_matchers [demo_layer User [prefix_rule Allow ''cargo'']]
          (shell_request ''cargo test'')) = Allow" by code_simp
  from evaluate_allow_justified [OF this] show ?thesis by (auto simp: shell_request_def)
qed

lemma layer_list_ref:
  "first_match mt l req = Some (i, r) \<Longrightarrow>
     \<exists>info\<in>set (layer_list l). ri_index info = i \<and> ri_rule info = c_spec r \<and> ri_source info = l_source l"
  by (auto simp: first_match_Some_iff layer_list_def in_set_enumerate_eq image_iff
      intro!: bexI [of _ "(i - 1, r)"])

section \<open>Stores that rules are appended to\<close>

text \<open>
  What the engine relies on when an answer adds a rule, to the session's memory or to a file:
  the rules afterwards are the rules before, then the new one (\<open>norm\<close> is what the store does to
  it first), and first match decides. Whether the addition takes effect for a call is then
  settled by what was there before.
\<close>

definition spec_matches :: "matchers \<Rightarrow> rule_spec \<Rightarrow> permission_request \<Rightarrow> bool" where
  "spec_matches mt spec req =
     matches mt \<lparr>c_spec = spec, c_line = None, c_name = None,
       c_glob = m_path (s_match spec), c_regex = m_command_regex (s_match spec)\<rparr> req"

lemma matches_spec: "compiled_ok mt r \<Longrightarrow> matches mt r req = spec_matches mt (c_spec r) req"
  by (simp add: spec_matches_def matches_def compiled_ok_def)

lemma spec_matches_effect [simp]: "spec_matches mt (r\<lparr>s_effect := e\<rparr>) req = spec_matches mt r req"
  by (simp add: spec_matches_def matches_def)

lemma position_map: "position p (map f xs) = position (p \<circ> f) xs"
  by (induction xs) auto

lemma position_cong: "(\<And>x. x \<in> set xs \<Longrightarrow> p x = q x) \<Longrightarrow> position p xs = position q xs"
  by (induction xs) auto

lemma position_append:
  "position p (xs @ ys) =
     (case position p xs of
        Some i \<Rightarrow> Some i
      | None \<Rightarrow> map_option (\<lambda>i. length xs + i) (position p ys))"
  by (cases "position p ys"; induction xs) (auto split: option.splits)

locale rule_store =
  fixes mt :: matchers
    and ok :: "'st \<Rightarrow> bool"
    and load :: "'st \<Rightarrow> compiled_rule list"
    and append :: "'st \<Rightarrow> rule_spec \<Rightarrow> 'e + 'st"
    and norm :: "rule_spec \<Rightarrow> rule_spec"
  assumes load_compiled: "ok st \<Longrightarrow> c \<in> set (load st) \<Longrightarrow> compiled_ok mt c"
    and append_specs: "ok st \<Longrightarrow> append st r = Inr st' \<Longrightarrow>
          map c_spec (load st') = map c_spec (load st) @ [norm r]"
    and append_ok: "ok st \<Longrightarrow> append st r = Inr st' \<Longrightarrow> ok st'"
    and norm_matches: "spec_matches mt (norm r) req = spec_matches mt r req"
begin

lemma hit_specs:
  "ok st \<Longrightarrow> position (\<lambda>c. matches mt c req) (load st) =
     position (\<lambda>sp. spec_matches mt sp req) (map c_spec (load st))"
  by (auto simp: position_map load_compiled matches_spec intro: position_cong)

lemma hit_after_append:
  assumes "ok st" and "append st r = Inr st'"
  shows "position (\<lambda>c. matches mt c req) (load st') =
     (case position (\<lambda>c. matches mt c req) (load st) of
        Some i \<Rightarrow> Some i
      | None \<Rightarrow> (if spec_matches mt r req then Some (length (load st)) else None))"
  using hit_specs [OF assms(1), of req] hit_specs [OF append_ok [OF assms], of req]
    append_specs [OF assms]
  by (simp add: position_append norm_matches split: option.split)

lemma appended_rule_found:
  "ok st \<Longrightarrow> append st r = Inr st' \<Longrightarrow> spec_matches mt r req \<Longrightarrow>
     position (\<lambda>c. matches mt c req) (load st') \<noteq> None"
  by (simp add: hit_after_append split: option.split)

lemma appended_rule_decides:
  assumes "ok st" and "append st r = Inr st'" and "spec_matches mt r req"
    and "\<forall>c\<in>set (load st). \<not> matches mt c req"
  shows "position (\<lambda>c. matches mt c req) (load st') = Some (length (load st)) \<and>
         c_spec (load st' ! length (load st)) = norm r"
proof -
  have "position (\<lambda>c. matches mt c req) (load st) = None"
    using assms(4) by (simp add: position_None_iff)
  moreover have "length (load st') = Suc (length (load st))"
    using arg_cong [OF append_specs [OF assms(1,2)], of length] by simp
  moreover from this have "c_spec (load st' ! length (load st)) =
      map c_spec (load st') ! length (load st)" by simp
  ultimately show ?thesis
    using hit_after_append [OF assms(1,2), of req] assms(3) append_specs [OF assms(1,2)]
    by (simp add: nth_append)
qed

lemma earlier_rule_stays:
  "ok st \<Longrightarrow> append st r = Inr st' \<Longrightarrow> position (\<lambda>c. matches mt c req) (load st) = Some i \<Longrightarrow>
     position (\<lambda>c. matches mt c req) (load st') = Some i"
  by (simp add: hit_after_append)

end

end
