(* ===== verification/Permission_Files.thy ===== *)
theory Permission_Files
  imports Permission_Rules
begin

text \<open>
  The rule files of \<open>crates/core/src/permissions/rules.rs\<close>: parsing \<open>permissions.toml\<close>,
  appending and removing a rule, and the loaded layer with its change stamp.

  The TOML libraries (\<open>toml\<close>, \<open>toml_edit\<close>) are third-party: the record \<open>toml_lib\<close> holds the
  three things the source asks of them, namely reading a document into the file model (with the
  byte offset of each \<open>[[rule]]\<close> header), pushing a table onto the \<open>rule\<close> array of a document
  and printing it, and removing the table at an index and printing it. Their results are a
  syntax error with an offset, \<open>None\<close> when \<open>rule\<close> is not an array of tables, or the new text.
\<close>

section \<open>The disk\<close>

text \<open>
  What is at a path: nothing, a readable file with its modification time, or something that
  cannot be read (its metadata may still be). \<open>rf_write_err\<close> says where creating the directory
  or writing atomically would fail, \<open>rf_now\<close> is the time a write stamps.
\<close>

datatype rfile = NoFile | RFile string nat | BadFile io_error "(nat \<times> nat) option"

record rules_fs =
  rf_files :: "string \<Rightarrow> rfile"
  rf_write_err :: "string \<Rightarrow> io_error option"
  rf_now :: nat

definition read_to_string :: "rules_fs \<Rightarrow> string \<Rightarrow> io_error + string" where
  "read_to_string fs path =
     (case rf_files fs path of
        NoFile \<Rightarrow> Inl NotFound
      | RFile text _ \<Rightarrow> Inr text
      | BadFile e _ \<Rightarrow> Inl e)"

definition write_file :: "rules_fs \<Rightarrow> string \<Rightarrow> string \<Rightarrow> io_error + rules_fs" where
  "write_file fs path text =
     (case rf_write_err fs path of
        Some e \<Rightarrow> Inl e
      | None \<Rightarrow> Inr (fs\<lparr>rf_files := (rf_files fs)(path := RFile text (rf_now fs))\<rparr>))"

section \<open>Parsing\<close>

datatype toml_val = TStr string | TBool bool | TTable "(string \<times> toml_val) list"

record file_model =
  fm_default :: "(string \<times> nat) option"
  fm_rule :: "(rule_spec \<times> nat) list"

record toml_lib =
  toml_from_str :: "string \<Rightarrow> (nat option \<times> string) + file_model"
  toml_push_rule :: "string \<Rightarrow> string \<Rightarrow> (string \<times> toml_val) list \<Rightarrow>
                       (nat option \<times> string) + string option"
  toml_remove_rule :: "string \<Rightarrow> nat \<Rightarrow> (nat option \<times> string) + string option"

text \<open>1-based line of a byte offset.\<close>

definition line_of :: "string \<Rightarrow> nat \<Rightarrow> nat" where
  "line_of text offset =
     length (filter (\<lambda>b. b = CHR 0x0A) (take (min offset (length text)) text)) + 1"

definition toml_error :: "string \<Rightarrow> string \<Rightarrow> nat option \<times> string \<Rightarrow> rule_file_error" where
  "toml_error path text e =
     ParseErr path (case fst e of None \<Rightarrow> 1 | Some start \<Rightarrow> line_of text start) (snd e)"

text \<open>The loop over the rules of the model, stopping at the first that does not compile.\<close>

fun compile_all ::
  "matchers \<Rightarrow> string \<Rightarrow> string \<Rightarrow> (rule_spec \<times> nat) list \<Rightarrow> rule_file_error + compiled_rule list" where
  "compile_all mt path text [] = Inr []"
| "compile_all mt path text ((spec, start) # rest) =
     (case compile mt spec of
        Inl m \<Rightarrow> Inl (ParseErr path (line_of text start) m)
      | Inr r \<Rightarrow>
          (case compile_all mt path text rest of
             Inl e \<Rightarrow> Inl e
           | Inr rs \<Rightarrow> Inr (r\<lparr>c_line := Some (line_of text start)\<rparr> # rs)))"

definition parse_default ::
  "string \<Rightarrow> string \<Rightarrow> (string \<times> nat) option \<Rightarrow> rule_file_error + rule_default option" where
  "parse_default path text d =
     (case d of
        None \<Rightarrow> Inr None
      | Some (s, start) \<Rightarrow>
          (if s = ''ask'' then Inr (Some DefaultAsk)
           else if s = ''deny'' then Inr (Some DefaultDeny)
           else Inl (ParseErr path (line_of text start)
             (''`default` must be '' @ debug_str ''ask'' @ '' or '' @ debug_str ''deny''
              @ '', not '' @ debug_str s))))"

definition parse_rules ::
  "matchers \<Rightarrow> toml_lib \<Rightarrow> string \<Rightarrow> string \<Rightarrow>
     rule_file_error + (rule_default option \<times> compiled_rule list)" where
  "parse_rules mt tml path text =
     (case toml_from_str tml text of
        Inl e \<Rightarrow> Inl (toml_error path text e)
      | Inr model \<Rightarrow>
          res_bind (parse_default path text (fm_default model)) (\<lambda>d.
          res_bind (compile_all mt path text (fm_rule model)) (\<lambda>rs. Inr (d, rs))))"

section \<open>Writing rules\<close>

text \<open>The table \<open>append_rule\<close> builds, keys in the order they are set.\<close>

definition rule_table :: "rule_spec \<Rightarrow> (string \<times> toml_val) list" where
  "rule_table rule =
     [(''tool'', TStr (s_tool rule)), (''effect'', TStr (effect_name (s_effect rule)))]
     @ (let m = s_match rule in
        if rule_match_is_empty m then []
        else [(''match'', TTable
               ((case m_risk m of Some r \<Rightarrow> [(''risk'', TStr (risk_name r))] | None \<Rightarrow> [])
                @ (case m_path m of Some p \<Rightarrow> [(''path'', TStr p)] | None \<Rightarrow> [])
                @ (case m_command_prefix m of Some p \<Rightarrow> [(''command_prefix'', TStr p)] | None \<Rightarrow> [])
                @ (case m_command_regex m of Some p \<Rightarrow> [(''command_regex'', TStr p)] | None \<Rightarrow> [])
                @ (case m_outside_workspace m of
                     Some b \<Rightarrow> [(''outside_workspace'', TBool b)] | None \<Rightarrow> [])))])"

text \<open>The comment put above the new table.\<close>

definition comment_prefix :: "string \<Rightarrow> string \<Rightarrow> string" where
  "comment_prefix text comment =
     (if comment = [] then []
      else (if trim text \<noteq> [] then [CHR 0x0A] else [])
           @ concat (map (\<lambda>l. ''# '' @ l @ [CHR 0x0A]) (lines_of comment)))"

definition not_an_array :: "string \<Rightarrow> rule_file_error" where
  "not_an_array path = ParseErr path 1 ''`rule` is not an array of tables''"

text \<open>\<open>parsed.last().and_then(|r| r.line).unwrap_or(1)\<close>\<close>

definition last_line :: "compiled_rule list \<Rightarrow> nat" where
  "last_line rs =
     (case rs of [] \<Rightarrow> 1 | _ \<Rightarrow> (case c_line (last rs) of Some l \<Rightarrow> l | None \<Rightarrow> 1))"

text \<open>The text to append to: a missing file reads as empty.\<close>

definition existing_text :: "rules_fs \<Rightarrow> string \<Rightarrow> io_error + string" where
  "existing_text fs path =
     (case read_to_string fs path of
        Inr t \<Rightarrow> Inr t
      | Inl e \<Rightarrow> (if e = NotFound then Inr [] else Inl e))"

definition append_rule ::
  "matchers \<Rightarrow> toml_lib \<Rightarrow> rules_fs \<Rightarrow> string \<Rightarrow> rule_spec \<Rightarrow> string \<Rightarrow>
     rule_file_error + (nat \<times> rules_fs)" where
  "append_rule mt tml fs path rule comment =
     (case compile mt rule of
        Inl m \<Rightarrow> Inl (ParseErr path 0 m)
      | Inr _ \<Rightarrow>
          (case existing_text fs path of
             Inl e \<Rightarrow> Inl (IoErr path e)
           | Inr text \<Rightarrow>
               res_bind (parse_rules mt tml path text) (\<lambda>_.
                 case toml_push_rule tml text (comment_prefix text comment) (rule_table rule) of
                   Inl e \<Rightarrow> Inl (toml_error path text e)
                 | Inr None \<Rightarrow> Inl (not_an_array path)
                 | Inr (Some text') \<Rightarrow>
                     res_bind (parse_rules mt tml path text') (\<lambda>(_, parsed).
                       case write_file fs path text' of
                         Inl e \<Rightarrow> Inl (IoErr path e)
                       | Inr fs' \<Rightarrow> Inr (last_line parsed, fs')))))"

definition remove_rule ::
  "matchers \<Rightarrow> toml_lib \<Rightarrow> rules_fs \<Rightarrow> string \<Rightarrow> nat \<Rightarrow>
     rule_file_error + (rule_spec \<times> rules_fs)" where
  "remove_rule mt tml fs path index =
     (case read_to_string fs path of
        Inl e \<Rightarrow> Inl (IoErr path e)
      | Inr text \<Rightarrow>
          res_bind (parse_rules mt tml path text) (\<lambda>(_, rules).
            if index = 0 \<or> length rules < index
            then Inl (ParseErr path 0 (''no rule '' @ show_nat index @ '': the file has ''
                        @ show_nat (length rules)))
            else
              let rule = c_spec (rules ! (index - 1)) in
              (case toml_remove_rule tml text (index - 1) of
                 Inl e \<Rightarrow> Inl (toml_error path text e)
               | Inr None \<Rightarrow> Inl (not_an_array path)
               | Inr (Some text') \<Rightarrow>
                   res_bind (parse_rules mt tml path text') (\<lambda>_.
                     case write_file fs path text' of
                       Inl e \<Rightarrow> Inl (IoErr path e)
                     | Inr fs' \<Rightarrow> Inr (rule, fs')))))"

section \<open>Layers\<close>

text \<open>\<open>(mtime, len)\<close> of the file now; \<open>None\<close> when it is missing.\<close>

definition stamp_now :: "rules_fs \<Rightarrow> string \<Rightarrow> (nat \<times> nat) option" where
  "stamp_now fs path =
     (case rf_files fs path of
        NoFile \<Rightarrow> None
      | RFile text mtime \<Rightarrow> Some (mtime, length text)
      | BadFile _ st \<Rightarrow> st)"

definition layer_state_now :: "matchers \<Rightarrow> toml_lib \<Rightarrow> rules_fs \<Rightarrow> string \<Rightarrow> layer_state" where
  "layer_state_now mt tml fs path =
     (case read_to_string fs path of
        Inr text \<Rightarrow>
          (case parse_rules mt tml path text of
             Inr (d, rules) \<Rightarrow> Loaded d rules
           | Inl e \<Rightarrow> Broken e)
      | Inl e \<Rightarrow> (if e = NotFound then Missing else Broken (IoErr path e)))"

definition layer_reload :: "matchers \<Rightarrow> toml_lib \<Rightarrow> rules_fs \<Rightarrow> layer \<Rightarrow> layer" where
  "layer_reload mt tml fs l =
     l\<lparr>l_stamp := stamp_now fs (l_path l), l_state := layer_state_now mt tml fs (l_path l)\<rparr>"

definition layer_load :: "matchers \<Rightarrow> toml_lib \<Rightarrow> rules_fs \<Rightarrow> rule_source \<Rightarrow> string \<Rightarrow> layer" where
  "layer_load mt tml fs source path =
     layer_reload mt tml fs \<lparr>l_source = source, l_path = path, l_state = Missing, l_stamp = None\<rparr>"

definition reload_if_changed :: "matchers \<Rightarrow> toml_lib \<Rightarrow> rules_fs \<Rightarrow> layer \<Rightarrow> layer" where
  "reload_if_changed mt tml fs l =
     (if stamp_now fs (l_path l) \<noteq> l_stamp l then layer_reload mt tml fs l else l)"

section \<open>What the file operations keep\<close>

lemma compile_all_specs:
  "compile_all mt path body ms = Inr rs \<Longrightarrow>
     map c_spec rs = map fst ms \<and> (\<forall>r\<in>set rs. c_line r \<noteq> None \<and> compiled_ok mt r)"
proof (induction ms arbitrary: rs)
  case (Cons m ms)
  then show ?case
    by (cases m) (auto simp: compiled_ok_def split: sum.splits dest!: compile_ok)
qed simp

lemma parse_rules_Inr:
  "parse_rules mt tml path body = Inr (d, rs) \<Longrightarrow>
     \<exists>model. toml_from_str tml body = Inr model \<and> map c_spec rs = map fst (fm_rule model) \<and>
             parse_default path body (fm_default model) = Inr d \<and>
             (\<forall>r\<in>set rs. c_line r \<noteq> None \<and> compiled_ok mt r)"
  by (auto simp: parse_rules_def res_bind_Inr_iff dest!: compile_all_specs split: sum.splits)

lemma write_file_Inr:
  "write_file fs path body = Inr fs' \<longleftrightarrow>
     rf_write_err fs path = None \<and> fs' = fs\<lparr>rf_files := (rf_files fs)(path := RFile body (rf_now fs))\<rparr>"
  by (auto simp: write_file_def split: option.splits)

lemma append_rule_Inr:
  assumes "append_rule mt tml fs path rule comment = Inr (line, fs')"
  shows "\<exists>old new d rs d' rs'.
    existing_text fs path = Inr old \<and>
    parse_rules mt tml path old = Inr (d, rs) \<and>
    toml_push_rule tml old (comment_prefix old comment) (rule_table rule) = Inr (Some new) \<and>
    parse_rules mt tml path new = Inr (d', rs') \<and>
    line = last_line rs' \<and>
    fs' = fs\<lparr>rf_files := (rf_files fs)(path := RFile new (rf_now fs))\<rparr>"
  using assms
  by (auto simp: append_rule_def res_bind_Inr_iff write_file_def split: sum.splits option.splits)

text \<open>
  What \<open>toml_edit\<close> documents of pushing a table onto an array of tables, at one document: the
  printed result reads as the old document with the rule at the end; and an empty text is the
  empty document.
\<close>

definition push_faithful :: "toml_lib \<Rightarrow> string \<Rightarrow> string \<Rightarrow> rule_spec \<Rightarrow> bool" where
  "push_faithful tml old pre rule \<longleftrightarrow>
     toml_from_str tml [] = Inr \<lparr>fm_default = None, fm_rule = []\<rparr> \<and>
     (case toml_push_rule tml old pre (rule_table rule) of
        Inr (Some new) \<Rightarrow>
          (case (toml_from_str tml old, toml_from_str tml new) of
             (Inr m, Inr m') \<Rightarrow>
               map fst (fm_rule m') = map fst (fm_rule m) @ [rule] \<and>
               map_option fst (fm_default m') = map_option fst (fm_default m)
           | _ \<Rightarrow> True)
      | _ \<Rightarrow> True)"

lemma parse_default_fst:
  "parse_default path body d = Inr x \<Longrightarrow> parse_default path' body' d' = Inr x' \<Longrightarrow>
   map_option fst d' = map_option fst d \<Longrightarrow> x' = x"
  by (auto simp: parse_default_def split: option.splits if_splits)

lemma layer_load_file:
  "rf_files fs path = RFile body t \<Longrightarrow> parse_rules mt tml path body = Inr (d, rs) \<Longrightarrow>
     layer_rules (layer_load mt tml fs src path) = rs \<and>
     layer_default (layer_load mt tml fs src path) = d \<and>
     layer_error (layer_load mt tml fs src path) = None"
  by (simp add: layer_load_def layer_reload_def layer_state_now_def read_to_string_def
      layer_rules_def layer_default_def layer_error_def)

lemma layer_load_compiled: "r \<in> set (layer_rules (layer_load mt tml fs src path)) \<Longrightarrow> compiled_ok mt r"
  by (auto simp: layer_load_def layer_reload_def layer_state_now_def layer_rules_def
      dest!: parse_rules_Inr split: sum.splits if_splits)

lemma layer_load_missing:
  "read_to_string fs path = Inl NotFound \<Longrightarrow>
     layer_rules (layer_load mt tml fs src path) = [] \<and>
     layer_default (layer_load mt tml fs src path) = None"
  by (simp add: layer_load_def layer_reload_def layer_state_now_def layer_rules_def layer_default_def)

lemma append_rule_specs:
  assumes "append_rule mt tml fs path rule comment = Inr (line, fs')"
    and "\<And>old. push_faithful tml old (comment_prefix old comment) rule"
  shows "layer_error (layer_load mt tml fs' src path) = None \<and>
      map c_spec (layer_rules (layer_load mt tml fs' src path)) =
        map c_spec (layer_rules (layer_load mt tml fs src path)) @ [rule] \<and>
      layer_default (layer_load mt tml fs' src path) = layer_default (layer_load mt tml fs src path) \<and>
      c_line (last (layer_rules (layer_load mt tml fs' src path))) = Some line \<and>
      (\<forall>p. p \<noteq> path \<longrightarrow> rf_files fs' p = rf_files fs p)"
proof -
  obtain old new d rs d' rs' where
    read: "existing_text fs path = Inr old"
    and po: "parse_rules mt tml path old = Inr (d, rs)"
    and push: "toml_push_rule tml old (comment_prefix old comment) (rule_table rule) = Inr (Some new)"
    and pn: "parse_rules mt tml path new = Inr (d', rs')"
    and line: "line = last_line rs'"
    and fs': "fs' = fs\<lparr>rf_files := (rf_files fs)(path := RFile new (rf_now fs))\<rparr>"
    using append_rule_Inr [OF assms(1)] by blast
  note faithful = assms(2) [of old]
  have specs: "map c_spec rs' = map c_spec rs @ [rule]" and def: "d' = d"
    using faithful push parse_rules_Inr [OF po] parse_rules_Inr [OF pn]
    by (auto simp: push_faithful_def dest: parse_default_fst)
  have loaded: "layer_rules (layer_load mt tml fs' src path) = rs' \<and>
      layer_default (layer_load mt tml fs' src path) = d' \<and>
      layer_error (layer_load mt tml fs' src path) = None"
    by (rule layer_load_file [OF _ pn, of _ "rf_now fs"]) (simp add: fs')
  have before: "layer_rules (layer_load mt tml fs src path) = rs \<and>
      layer_default (layer_load mt tml fs src path) = d"
  proof (cases "read_to_string fs path")
    case (Inr b)
    then obtain t where "rf_files fs path = RFile old t"
      using read by (auto simp: existing_text_def read_to_string_def split: rfile.splits)
    from layer_load_file [OF this po] show ?thesis by simp
  next
    case (Inl e)
    with read have "read_to_string fs path = Inl NotFound" "old = []"
      by (auto simp: existing_text_def split: if_splits)
    with layer_load_missing faithful po parse_rules_Inr [OF po] show ?thesis
      by (auto simp: push_faithful_def parse_default_def)
  qed
  have "rs' \<noteq> []" using specs by auto
  moreover from this have "c_line (last rs') \<noteq> None"
    using parse_rules_Inr [OF pn] last_in_set by blast
  ultimately have "c_line (last rs') = Some line"
    using line by (cases rs') (auto simp: last_line_def)
  with loaded before specs def fs' show ?thesis by simp
qed

text \<open>
  Appending a rule never leaves a file out of force: when \<open>append_rule\<close> succeeds, loading the
  layer afterwards yields no error, its rules are the old ones followed by the new one, its
  default is the old one, the line it reports is that of the new rule, and no other file
  changed (when it fails it returns no new disk: nothing was written).
\<close>

theorem append_rule_in_force:
  assumes "append_rule mt tml fs path rule comment = Inr (line, fs')"
    and "\<And>old. push_faithful tml old (comment_prefix old comment) rule"
  shows "layer_error (layer_load mt tml fs' src path) = None \<and>
      map c_spec (layer_rules (layer_load mt tml fs' src path)) =
        map c_spec (layer_rules (layer_load mt tml fs src path)) @ [rule] \<and>
      layer_default (layer_load mt tml fs' src path) = layer_default (layer_load mt tml fs src path) \<and>
      c_line (last (layer_rules (layer_load mt tml fs' src path))) = Some line \<and>
      (\<forall>p. p \<noteq> path \<longrightarrow> rf_files fs' p = rf_files fs p)"
  using append_rule_specs [OF assms] .

text \<open>
  A small TOML library for examples: a document is a line of letters, one per rule, and
  offset \<open>i\<close> is where rule \<open>i\<close> starts. It knows the rule it can push.
\<close>

definition tiny_toml :: "rule_spec \<Rightarrow> toml_lib" where
  "tiny_toml rule =
     \<lparr>toml_from_str = (\<lambda>t. Inr \<lparr>fm_default = None, fm_rule = map (\<lambda>i. (rule, i)) [0..<length t]\<rparr>),
      toml_push_rule = (\<lambda>t pre tbl. Inr (Some (t @ ''r''))),
      toml_remove_rule = (\<lambda>t i. Inr (Some (take i t @ drop (Suc i) t)))\<rparr>"

definition empty_disk :: rules_fs where
  "empty_disk = \<lparr>rf_files = (\<lambda>_. NoFile), rf_write_err = (\<lambda>_. None), rf_now = 7\<rparr>"

lemma tiny_toml_faithful: "push_faithful (tiny_toml rule) old pre rule"
  by (simp add: push_faithful_def tiny_toml_def comp_def)

theorem append_rule_in_force_witness:
  "\<exists>line fs'. append_rule no_matchers (tiny_toml glob_spec) empty_disk ''p'' glob_spec ''c'' = Inr (line, fs')
     \<and> map c_spec (layer_rules (layer_load no_matchers (tiny_toml glob_spec) fs' User ''p'')) = [glob_spec]"
proof -
  let ?app = "append_rule no_matchers (tiny_toml glob_spec) empty_disk ''p'' glob_spec ''c''"
  have "\<not> isl ?app" by code_simp
  then obtain line fs' where app: "?app = Inr (line, fs')" by (cases ?app) auto
  from append_rule_in_force [OF app tiny_toml_faithful, of User]
  have "map c_spec (layer_rules (layer_load no_matchers (tiny_toml glob_spec) fs' User ''p'')) = [glob_spec]"
    by (simp add: layer_load_missing read_to_string_def empty_disk_def)
  with app show ?thesis by (intro exI conjI)
qed

section \<open>Fresh layers\<close>

text \<open>
  A layer is fresh when it says what loading its file now would say. The engine re-reads a layer
  when the stamp changed; the stamp is honest when an unchanged stamp means unchanged content.
\<close>

definition layer_fresh :: "matchers \<Rightarrow> toml_lib \<Rightarrow> rules_fs \<Rightarrow> layer \<Rightarrow> bool" where
  "layer_fresh mt tml fs l \<longleftrightarrow>
     l_stamp l = stamp_now fs (l_path l) \<and> l_state l = layer_state_now mt tml fs (l_path l)"

definition stamp_honest :: "rules_fs \<Rightarrow> rules_fs \<Rightarrow> string \<Rightarrow> bool" where
  "stamp_honest fs fs' path \<longleftrightarrow>
     (stamp_now fs path = stamp_now fs' path \<longrightarrow> rf_files fs path = rf_files fs' path)"

lemma layer_reload_fresh [simp]: "layer_fresh mt tml fs (layer_reload mt tml fs l)"
  by (simp add: layer_fresh_def layer_reload_def)

lemma layer_reload_fields [simp]:
  "l_path (layer_reload mt tml fs l) = l_path l" "l_source (layer_reload mt tml fs l) = l_source l"
  by (simp_all add: layer_reload_def)

lemma reload_if_changed_fields [simp]:
  "l_path (reload_if_changed mt tml fs l) = l_path l"
  "l_source (reload_if_changed mt tml fs l) = l_source l"
  by (simp_all add: reload_if_changed_def)

lemma layer_state_now_cong:
  "rf_files fs path = rf_files fs' path \<Longrightarrow>
     layer_state_now mt tml fs path = layer_state_now mt tml fs' path"
  by (simp add: layer_state_now_def read_to_string_def)

lemma reload_if_changed_fresh:
  assumes "layer_fresh mt tml fs l" and "stamp_honest fs fs' (l_path l)"
  shows "layer_fresh mt tml fs' (reload_if_changed mt tml fs' l)"
proof (cases "stamp_now fs' (l_path l) = l_stamp l")
  case True
  with assms have "rf_files fs (l_path l) = rf_files fs' (l_path l)"
    by (auto simp: layer_fresh_def stamp_honest_def)
  with True assms(1) show ?thesis
    using layer_state_now_cong [of fs "l_path l" fs' mt tml]
    by (simp add: layer_fresh_def reload_if_changed_def)
qed (simp add: reload_if_changed_def)

lemma layer_load_fresh: "layer_fresh mt tml fs (layer_load mt tml fs src path)"
  by (simp add: layer_load_def)

end
