(* ===== verification/Permission_Engine.thy ===== *)
theory Permission_Engine
  imports Permission_Files
begin

text \<open>
  The permission engine, \<open>crates/core/src/permissions/mod.rs\<close> and \<open>gate.rs\<close>: how a tool call
  becomes a request, which rules an answer would write, and how a call is decided.

  \<open>decide\<close> waits for a person in the middle, so it is two definitions: \<open>decide_begin\<close> up to the
  prompt and \<open>decide_finish\<close> from the reply. Between them other calls of the session may run
  (the session's remembered answers are shared) and the files may change: \<open>decide\<close> takes an
  arbitrary function for what happens meanwhile.
\<close>

section \<open>Types\<close>

datatype permission_mode = ModeDefault | Plan | Auto

datatype permission_answer =
    AllowOnce | AllowSession | AllowWorkspace | AllowAlways | DenyOnce | DenyAlways

datatype permission_decision = Allowed | Denied

datatype permission_source = ByRule | ByUser | BySession | ByMode | ByTimeout | ByHeadless

datatype headless = HeadlessDeny | HeadlessAllowReadonly

record permissions_config =
  pc_ask_timeout_s :: nat
  pc_headless :: headless

datatype reply =
    Answered permission_answer "rule_spec option"
  | TimedOut
  | NoClient

record rule_written =
  w_path :: string
  w_line :: nat
  w_rule :: rule_spec

record outcome =
  o_decision :: permission_decision
  o_source :: permission_source
  o_rule_ref :: "string option"
  o_reason :: "string option"
  o_request_id :: "string option"
  o_answer :: "permission_answer option"
  o_waited :: nat
  o_rule_written :: "rule_written option"
  o_notes :: "string list"

definition outcome_allow :: "permission_source \<Rightarrow> string option \<Rightarrow> outcome" where
  "outcome_allow src rule_ref =
     \<lparr>o_decision = Allowed, o_source = src, o_rule_ref = rule_ref, o_reason = None,
      o_request_id = None, o_answer = None, o_waited = 0, o_rule_written = None, o_notes = []\<rparr>"

definition outcome_deny :: "permission_source \<Rightarrow> string option \<Rightarrow> string \<Rightarrow> outcome" where
  "outcome_deny src rule_ref reason =
     (outcome_allow src rule_ref)\<lparr>o_decision := Denied, o_reason := Some reason\<rparr>"

record tool_spec =
  ts_name :: string
  ts_description :: string
  ts_input_schema :: json
  ts_risk :: risk
  ts_tags :: "string list"
  ts_timeout_s :: "nat option"

section \<open>The request of a call\<close>

text \<open>A path the input names, resolved against the workspace root (\<open>None\<close> without one).\<close>

definition resolve_subject :: "fs \<Rightarrow> string list \<Rightarrow> path option \<Rightarrow> string \<Rightarrow> subject_path" where
  "resolve_subject fs cwd ws given =
     (case ws of
        None \<Rightarrow> \<lparr>p_given = given, p_shown = replace_char CHR 0x5C CHR ''/'' given,
                 p_abs = None, p_outside = True\<rparr>
      | Some root \<Rightarrow>
          (case resolve fs cwd root given of
             Inr p \<Rightarrow> \<lparr>p_given = given, p_shown = display_path root p,
                      p_abs = Some p, p_outside = False\<rparr>
           | Inl (Outside shown) \<Rightarrow>
               \<lparr>p_given = given, p_shown = replace_char CHR 0x5C CHR ''/'' shown,
                p_abs = None, p_outside = True\<rparr>
           | Inl _ \<Rightarrow> \<lparr>p_given = given, p_shown = replace_char CHR 0x5C CHR ''/'' given,
                      p_abs = None, p_outside = True\<rparr>))"

text \<open>What the key \<open>path\<close> or \<open>cwd\<close> contributes: its string, or the root when the schema has the
  key and the input does not.\<close>

definition given_by_key :: "json \<Rightarrow> json \<Rightarrow> string \<Rightarrow> string list" where
  "given_by_key schema input key =
     (case jget key input of
        Some (JStr p) \<Rightarrow> [p]
      | Some _ \<Rightarrow> []
      | None \<Rightarrow> (if jget key (jindex ''properties'' schema) \<noteq> None then [''.''] else []))"

definition given_paths :: "json \<Rightarrow> json \<Rightarrow> string list" where
  "given_paths schema input =
     given_by_key schema input ''path'' @ given_by_key schema input ''cwd''
     @ (case jget ''paths'' input of
          Some (JArr items) \<Rightarrow> List.map_filter as_str items
        | _ \<Rightarrow> [])"

definition call_description :: "string \<Rightarrow> json \<Rightarrow> string option \<Rightarrow> subject_path list \<Rightarrow> string" where
  "call_description name input command paths =
     (let fallback =
        (case command of
           Some c \<Rightarrow> name @ '': '' @ c
         | None \<Rightarrow> (if paths \<noteq> [] then name @ '': '' @ join_with '', '' (map p_shown paths) else name))
      in case Option.bind (jget ''description'' input) as_str of
           Some d \<Rightarrow> (if trim d \<noteq> [] then trim d else fallback)
         | None \<Rightarrow> fallback)"

definition for_call :: "fs \<Rightarrow> string list \<Rightarrow> tool_spec \<Rightarrow> json \<Rightarrow> path option \<Rightarrow> permission_request" where
  "for_call fs cwd spec input ws =
     (let paths = map (resolve_subject fs cwd ws) (given_paths (ts_input_schema spec) input);
          command = Option.bind (jget ''command'' input) as_str
      in \<lparr>r_tool = ts_name spec, r_risk = ts_risk spec, r_input = input, r_workspace = ws,
          r_paths = paths, r_command = command,
          r_description = call_description (ts_name spec) input command paths\<rparr>)"

definition input_view_max_chars :: nat where
  "input_view_max_chars = 2048"

definition whole_keys :: "string list" where
  "whole_keys = [''path'', ''cwd'', ''paths'', ''command'', ''pattern'', ''glob'']"

definition view_field :: "string \<times> json \<Rightarrow> string \<times> json" where
  "view_field f =
     (case f of (key, value) \<Rightarrow>
        if key \<in> set whole_keys then (key, value)
        else case value of
          JStr s \<Rightarrow>
            (if input_view_max_chars < char_count s
             then (key, JStr (take_chars input_view_max_chars s @ ellipsis @ '' [''
                         @ show_nat (char_count s - input_view_max_chars) @ '' more chars]''))
             else (key, value))
        | _ \<Rightarrow> (key, value))"

definition input_view :: "permission_request \<Rightarrow> json" where
  "input_view req = (case r_input req of JObj fs \<Rightarrow> JObj (map view_field fs) | v \<Rightarrow> v)"

section \<open>The rules an answer would write\<close>

definition suggest_command :: "matchers \<Rightarrow> permission_request \<Rightarrow> string \<Rightarrow> rule_spec list" where
  "suggest_command mt req command =
     (let rule = (\<lambda>m. \<lparr>s_tool = r_tool req, s_effect = Allow, s_match = m\<rparr>) in
      if is_chain command
      then [rule (no_match\<lparr>m_command_regex := Some (''^'' @ regex_escape mt command @ ''$'')\<rparr>)]
      else
        let words = split_whitespace command;
            two = join_with '' '' (take 2 words)
        in rule (no_match\<lparr>m_command_prefix := Some two\<rparr>) #
           (if 1 < length words \<and> words ! 0 \<noteq> two
            then [rule (no_match\<lparr>m_command_prefix := Some (words ! 0)\<rparr>)] else []))"

definition suggest_path :: "permission_request \<Rightarrow> subject_path \<Rightarrow> rule_spec list" where
  "suggest_path req p =
     (let rule = (\<lambda>m. \<lparr>s_tool = r_tool req, s_effect = Allow, s_match = m\<rparr>);
          dir = (case rsplit_once CHR ''/'' (p_shown p) of
                   Some (d, _) \<Rightarrow> d @ ''/**''
                 | None \<Rightarrow> ''**'');
          out = (if p_outside p then Some True else None)
      in rule (no_match\<lparr>m_path := Some dir, m_outside_workspace := out\<rparr>) #
         (if p_shown p \<noteq> ''.'' \<and> p_shown p \<noteq> dir
          then [rule (no_match\<lparr>m_path := Some (p_shown p), m_outside_workspace := out\<rparr>)]
          else []))"

definition suggest :: "matchers \<Rightarrow> permission_request \<Rightarrow> rule_spec list" where
  "suggest mt req =
     (case map_option trim (r_command req) of
        Some (c # cs) \<Rightarrow> suggest_command mt req (c # cs)
      | _ \<Rightarrow>
          (case r_paths req of
             p # _ \<Rightarrow> suggest_path req p
           | [] \<Rightarrow> [\<lparr>s_tool = r_tool req, s_effect = Allow, s_match = no_match\<rparr>]))"

section \<open>The answers remembered for a session\<close>

type_synonym session_rules = "compiled_rule list"

definition session_add :: "matchers \<Rightarrow> session_rules \<Rightarrow> rule_spec \<Rightarrow> string + (nat \<times> session_rules)" where
  "session_add mt rules rule =
     (case compile mt (rule\<lparr>s_effect := Allow\<rparr>) of
        Inl e \<Rightarrow> Inl e
      | Inr c \<Rightarrow> Inr (length (rules @ [c]), rules @ [c]))"

definition session_first_match ::
  "matchers \<Rightarrow> session_rules \<Rightarrow> permission_request \<Rightarrow> nat option" where
  "session_first_match mt rules req =
     map_option (\<lambda>i. i + 1) (position (\<lambda>r. matches mt r req) rules)"

lemma session_first_match_None:
  "session_first_match mt rules req = None \<longleftrightarrow> (\<forall>r\<in>set rules. \<not> matches mt r req)"
  by (simp add: session_first_match_def position_None_iff)

definition session_list :: "session_rules \<Rightarrow> rule_spec list" where
  "session_list rules = map c_spec rules"

definition session_ok :: "matchers \<Rightarrow> session_rules \<Rightarrow> bool" where
  "session_ok mt rules \<longleftrightarrow> (\<forall>r\<in>set rules. compiled_ok mt r)"

lemma session_add_Inr:
  "session_add mt rules rule = Inr (i, rules') \<longleftrightarrow>
     (\<exists>c. compile mt (rule\<lparr>s_effect := Allow\<rparr>) = Inr c \<and> rules' = rules @ [c] \<and> i = length rules')"
  by (auto simp: session_add_def split: sum.splits)

interpretation session: rule_store mt "session_ok mt" "\<lambda>rules. rules"
    "\<lambda>rules r. map_sum id snd (session_add mt rules r)" "\<lambda>r. r\<lparr>s_effect := Allow\<rparr>" for mt
proof unfold_locales
  fix st st' :: session_rules and r
  assume "session_ok mt st" and "map_sum id snd (session_add mt st r) = Inr st'"
  then obtain i where "session_add mt st r = Inr (i, st')"
    by (cases "session_add mt st r") auto
  then obtain c where c: "compile mt (r\<lparr>s_effect := Allow\<rparr>) = Inr c" and st': "st' = st @ [c]"
    by (auto simp: session_add_Inr)
  from compile_ok [OF c] st' \<open>session_ok mt st\<close>
  show "map c_spec st' = map c_spec st @ [r\<lparr>s_effect := Allow\<rparr>]" and "session_ok mt st'"
    by (auto simp: session_ok_def)
qed (simp_all add: session_ok_def)

section \<open>The engine\<close>

record engine =
  en_config :: permissions_config
  en_user :: layer
  en_workspace :: "layer option"
  en_session :: session_rules

definition with_files ::
  "matchers \<Rightarrow> toml_lib \<Rightarrow> rules_fs \<Rightarrow> string \<Rightarrow> string option \<Rightarrow> permissions_config \<Rightarrow>
     session_rules \<Rightarrow> engine" where
  "with_files mt tml fs user_file workspace_file config session =
     \<lparr>en_config = config,
      en_user = layer_load mt tml fs User user_file,
      en_workspace = map_option (layer_load mt tml fs Workspace) workspace_file,
      en_session = session\<rparr>"

definition ask_timeout :: "engine \<Rightarrow> nat" where
  "ask_timeout eng = max (pc_ask_timeout_s (en_config eng)) 1"

text \<open>\<open>with_layers\<close>: the layers, highest first, re-read when changed.\<close>

definition refresh_layers :: "matchers \<Rightarrow> toml_lib \<Rightarrow> rules_fs \<Rightarrow> engine \<Rightarrow> engine" where
  "refresh_layers mt tml fs eng =
     eng\<lparr>en_user := reload_if_changed mt tml fs (en_user eng),
         en_workspace := map_option (reload_if_changed mt tml fs) (en_workspace eng)\<rparr>"

definition layers_of :: "engine \<Rightarrow> layer list" where
  "layers_of eng =
     (case en_workspace eng of
        Some ws \<Rightarrow> [ws, en_user eng]
      | None \<Rightarrow> [en_user eng])"

definition engine_evaluate ::
  "matchers \<Rightarrow> toml_lib \<Rightarrow> rules_fs \<Rightarrow> engine \<Rightarrow> permission_request \<Rightarrow> evaluation" where
  "engine_evaluate mt tml fs eng req = evaluate mt (layers_of (refresh_layers mt tml fs eng)) req"

definition mutating :: "risk \<Rightarrow> bool" where
  "mutating r \<longleftrightarrow> r = Write \<or> r = Execute"

text \<open>A prompt: what the client is shown, and the notes on files that are not in force.\<close>

record ask =
  a_request_id :: string
  a_suggested :: "rule_spec list"
  a_timeout :: nat
  a_broken :: "string list"

definition rule_denial_reason :: "evaluation \<Rightarrow> string" where
  "rule_denial_reason ev =
     (case (e_rule_ref ev, e_rule ev) of
        (Some r, Some rule) \<Rightarrow> ''denied by rule '' @ r @ '' ('' @ rule @ '')''
      | (Some r, None) \<Rightarrow> ''denied by '' @ r
      | (None, _) \<Rightarrow> ''denied by rule'')"

definition decide_begin ::
  "matchers \<Rightarrow> toml_lib \<Rightarrow> rules_fs \<Rightarrow> engine \<Rightarrow> permission_request \<Rightarrow> permission_mode \<Rightarrow> string \<Rightarrow>
     engine \<times> (outcome + ask)" where
  "decide_begin mt tml fs eng req mode request_id =
     (if mode = Plan \<and> mutating (r_risk req)
      then (eng, Inl (outcome_deny ByMode (Some ''mode:plan'')
              (''denied: plan mode is read-only and '' @ r_tool req @ '' is a ''
               @ risk_name (r_risk req) @ '' tool'')))
      else
        let eng' = refresh_layers mt tml fs eng;
            ev = evaluate mt (layers_of eng') req
        in case e_effect ev of
             Allow \<Rightarrow> (eng', Inl (outcome_allow ByRule (e_rule_ref ev)))
           | Deny \<Rightarrow> (eng', Inl (outcome_deny ByRule (e_rule_ref ev) (rule_denial_reason ev)))
           | Ask \<Rightarrow>
               (case session_first_match mt (en_session eng') req of
                  Some i \<Rightarrow> (eng', Inl (outcome_allow BySession (Some (''session:'' @ show_nat i))))
                | None \<Rightarrow>
                    (if mode = Auto \<and> r_risk req = Write \<and> \<not> has_outside req
                     then (eng', Inl (outcome_allow ByMode (Some ''mode:auto'')))
                     else (eng', Inr \<lparr>a_request_id = request_id, a_suggested = suggest mt req,
                                     a_timeout = ask_timeout eng', a_broken = e_broken ev\<rparr>))))"

text \<open>What \<open>write_rule\<close> adds to the outcome: the rule it wrote, or a note why not.\<close>

definition add_note :: "string \<Rightarrow> outcome \<Rightarrow> outcome" where
  "add_note n oc = oc\<lparr>o_notes := o_notes oc @ [n]\<rparr>"

definition rule_comment :: "rule_spec \<Rightarrow> rule_source \<Rightarrow> permission_request \<Rightarrow> string \<Rightarrow> string" where
  "rule_comment rule target req request_id =
     (if s_effect rule = Deny then ''deny_always''
      else if target = Workspace then ''allow_workspace'' else ''allow_always'')
     @ '' for '' @ r_description req @ '' (request '' @ request_id @ '')''"

definition target_layer :: "engine \<Rightarrow> rule_source \<Rightarrow> layer option" where
  "target_layer eng target = (if target = Workspace then en_workspace eng else Some (en_user eng))"

definition set_target_layer :: "engine \<Rightarrow> rule_source \<Rightarrow> layer \<Rightarrow> engine" where
  "set_target_layer eng target l =
     (if target = Workspace then eng\<lparr>en_workspace := Some l\<rparr> else eng\<lparr>en_user := l\<rparr>)"

definition write_rule ::
  "matchers \<Rightarrow> toml_lib \<Rightarrow> rules_fs \<Rightarrow> engine \<Rightarrow> outcome \<Rightarrow> permission_request \<Rightarrow> rule_source \<Rightarrow>
     rule_spec option \<Rightarrow> string \<Rightarrow> engine \<times> rules_fs \<times> outcome" where
  "write_rule mt tml fs eng oc req target rule0 request_id =
     (case rule0 of
        None \<Rightarrow> (eng, fs, oc)
      | Some rule \<Rightarrow>
          (case target_layer eng target of
             None \<Rightarrow> (eng, fs, add_note ''no workspace to write the rule to; allowed once'' oc)
           | Some l \<Rightarrow>
               (case append_rule mt tml fs (l_path l) rule (rule_comment rule target req request_id) of
                  Inr (line, fs') \<Rightarrow>
                    (set_target_layer eng target (layer_reload mt tml fs' l), fs',
                     oc\<lparr>o_rule_written := Some \<lparr>w_path = l_path l, w_line = line, w_rule = rule\<rparr>\<rparr>)
                | Inl e \<Rightarrow> (eng, fs, add_note (''rule not written: '' @ rule_file_error_str e) oc))))"

text \<open>The rule an answer is about: the client's own, else the first suggested one.\<close>

definition chosen_rule :: "rule_spec option \<Rightarrow> rule_spec list \<Rightarrow> rule_effect \<Rightarrow> rule_spec option" where
  "chosen_rule rule suggested eff =
     map_option (\<lambda>r. r\<lparr>s_effect := eff\<rparr>)
       (case rule of
          Some r \<Rightarrow> Some r
        | None \<Rightarrow> (case suggested of [] \<Rightarrow> None | r # _ \<Rightarrow> Some r))"

definition answered ::
  "matchers \<Rightarrow> toml_lib \<Rightarrow> rules_fs \<Rightarrow> engine \<Rightarrow> permission_request \<Rightarrow> permission_answer \<Rightarrow>
     rule_spec option \<Rightarrow> rule_spec list \<Rightarrow> string \<Rightarrow> engine \<times> rules_fs \<times> outcome" where
  "answered mt tml fs eng req answer rule suggested request_id =
     (case (case answer of
        AllowOnce \<Rightarrow> (eng, fs, outcome_allow ByUser None)
      | AllowSession \<Rightarrow>
          (let oc = outcome_allow ByUser None in
           case chosen_rule rule suggested Allow of
             None \<Rightarrow> (eng, fs, oc)
           | Some r \<Rightarrow>
               (case session_add mt (en_session eng) r of
                  Inr (i, rules) \<Rightarrow>
                    (eng\<lparr>en_session := rules\<rparr>, fs, oc\<lparr>o_rule_ref := Some (''session:'' @ show_nat i)\<rparr>)
                | Inl e \<Rightarrow> (eng, fs, add_note (''session rule not kept: '' @ e) oc)))
      | AllowWorkspace \<Rightarrow>
          write_rule mt tml fs eng (outcome_allow ByUser None) req Workspace
            (chosen_rule rule suggested Allow) request_id
      | AllowAlways \<Rightarrow>
          write_rule mt tml fs eng (outcome_allow ByUser None) req User
            (chosen_rule rule suggested Allow) request_id
      | DenyOnce \<Rightarrow> (eng, fs, outcome_deny ByUser None ''denied by user'')
      | DenyAlways \<Rightarrow>
          write_rule mt tml fs eng (outcome_deny ByUser None ''denied by user'') req User
            (chosen_rule rule suggested Deny) request_id) of
        (eng', fs', oc) \<Rightarrow> (eng', fs', oc\<lparr>o_answer := Some answer\<rparr>))"

definition headless_outcome :: "engine \<Rightarrow> permission_request \<Rightarrow> outcome" where
  "headless_outcome eng req =
     (case pc_headless (en_config eng) of
        HeadlessAllowReadonly \<Rightarrow>
          (if r_risk req = ReadOnly then outcome_allow ByHeadless None
           else outcome_deny ByHeadless None
             (''denied: no client attached to ask and only read-only calls run headless (''
              @ r_tool req @ '' is '' @ risk_name (r_risk req) @ '')''))
      | HeadlessDeny \<Rightarrow>
          outcome_deny ByHeadless None
            (''denied: no client attached to ask (permissions.headless = ''
             @ debug_str ''deny'' @ '')''))"

definition decide_finish ::
  "matchers \<Rightarrow> toml_lib \<Rightarrow> rules_fs \<Rightarrow> engine \<Rightarrow> permission_request \<Rightarrow> ask \<Rightarrow> reply \<Rightarrow> nat \<Rightarrow>
     engine \<times> rules_fs \<times> outcome" where
  "decide_finish mt tml fs eng req a reply waited =
     (case (case reply of
        Answered answer rule \<Rightarrow>
          answered mt tml fs eng req answer rule (a_suggested a) (a_request_id a)
      | TimedOut \<Rightarrow>
          (eng, fs, outcome_deny ByTimeout None
             (''denied: nobody answered the permission request within ''
              @ show_nat (a_timeout a) @ '' s''))
      | NoClient \<Rightarrow> (eng, fs, headless_outcome eng req)) of
        (eng', fs', oc) \<Rightarrow>
          (eng', fs', oc\<lparr>o_request_id := Some (a_request_id a), o_waited := waited,
             o_notes := o_notes oc @ map (\<lambda>e. ''rules file not in force: '' @ e) (a_broken a)\<rparr>))"

text \<open>
  One whole decision. \<open>meanwhile\<close> is what other calls and editors do to the engine and the disk
  while the prompt is open; \<open>prompt\<close> is the reply it comes back with.
\<close>

definition decide ::
  "matchers \<Rightarrow> toml_lib \<Rightarrow> rules_fs \<Rightarrow> engine \<Rightarrow> permission_request \<Rightarrow> permission_mode \<Rightarrow> string \<Rightarrow>
     (engine \<times> rules_fs \<Rightarrow> engine \<times> rules_fs) \<Rightarrow> (ask \<Rightarrow> reply) \<Rightarrow> nat \<Rightarrow>
     engine \<times> rules_fs \<times> outcome" where
  "decide mt tml fs eng req mode request_id meanwhile prompt waited =
     (case decide_begin mt tml fs eng req mode request_id of
        (eng', Inl oc) \<Rightarrow> (eng', fs, oc)
      | (eng', Inr a) \<Rightarrow>
          (let (eng2, fs2) = meanwhile (eng', fs)
           in decide_finish mt tml fs2 eng2 req a (prompt a) waited))"

text \<open>\<open>Engine::listing\<close>: rules and files as \<open>tools.rules\<close> lists them, built-ins last.\<close>

definition engine_listing ::
  "matchers \<Rightarrow> toml_lib \<Rightarrow> rules_fs \<Rightarrow> engine \<Rightarrow> rule_info list \<times> rule_file_info list" where
  "engine_listing mt tml fs eng =
     (let ls = layers_of (refresh_layers mt tml fs eng)
      in (concat (map layer_list ls) @ list_builtins, map layer_info ls))"

section \<open>The gate\<close>

text \<open>The \<open>permission.decision\<close> payload and what the gate answers the executor.\<close>

definition mode_name :: "permission_mode \<Rightarrow> string" where
  "mode_name m = (case m of ModeDefault \<Rightarrow> ''default'' | Plan \<Rightarrow> ''plan'' | Auto \<Rightarrow> ''auto'')"

definition decision_name :: "permission_decision \<Rightarrow> string" where
  "decision_name d = (case d of Allowed \<Rightarrow> ''allow'' | Denied \<Rightarrow> ''deny'')"

definition permission_source_name :: "permission_source \<Rightarrow> string" where
  "permission_source_name s =
     (case s of ByRule \<Rightarrow> ''rule'' | ByUser \<Rightarrow> ''user'' | BySession \<Rightarrow> ''session''
      | ByMode \<Rightarrow> ''mode'' | ByTimeout \<Rightarrow> ''timeout'' | ByHeadless \<Rightarrow> ''headless'')"

definition answer_name :: "permission_answer \<Rightarrow> string" where
  "answer_name a =
     (case a of AllowOnce \<Rightarrow> ''allow_once'' | AllowSession \<Rightarrow> ''allow_session''
      | AllowWorkspace \<Rightarrow> ''allow_workspace'' | AllowAlways \<Rightarrow> ''allow_always''
      | DenyOnce \<Rightarrow> ''deny_once'' | DenyAlways \<Rightarrow> ''deny_always'')"

definition opt_entry :: "string \<Rightarrow> json option \<Rightarrow> (string \<times> json) list" where
  "opt_entry k v = (case v of None \<Rightarrow> [] | Some x \<Rightarrow> [(k, x)])"

definition rule_match_json :: "rule_match \<Rightarrow> json" where
  "rule_match_json m =
     jobj (opt_entry ''path'' (map_option JStr (m_path m))
         @ opt_entry ''command_prefix'' (map_option JStr (m_command_prefix m))
         @ opt_entry ''command_regex'' (map_option JStr (m_command_regex m))
         @ opt_entry ''outside_workspace'' (map_option JBool (m_outside_workspace m))
         @ opt_entry ''risk'' (map_option (JStr \<circ> risk_name) (m_risk m)))"

definition rule_spec_json :: "rule_spec \<Rightarrow> json" where
  "rule_spec_json r =
     jobj ([(''tool'', JStr (s_tool r)), (''effect'', JStr (effect_name (s_effect r)))]
         @ (if rule_match_is_empty (s_match r) then []
            else [(''match'', rule_match_json (s_match r))]))"

definition gate_payload :: "permission_mode \<Rightarrow> string \<Rightarrow> permission_request \<Rightarrow> outcome \<Rightarrow> json" where
  "gate_payload mode call_id req oc =
     jobj ([(''call_id'', JStr call_id), (''tool'', JStr (r_tool req)),
            (''risk'', JStr (risk_name (r_risk req))), (''mode'', JStr (mode_name mode)),
            (''decision'', JStr (decision_name (o_decision oc))),
            (''source'', JStr (permission_source_name (o_source oc))),
            (''asked'', JBool (o_request_id oc \<noteq> None)),
            (''waited_ms'', JInt (int (min (o_waited oc) (2 ^ 64 - 1)))),
            (''paths'', JArr (map (JStr \<circ> p_shown) (r_paths req))),
            (''outside_workspace'', JBool (has_outside req))]
         @ opt_entry ''command'' (map_option JStr (r_command req))
         @ opt_entry ''rule_ref'' (map_option JStr (o_rule_ref oc))
         @ opt_entry ''reason'' (map_option JStr (o_reason oc))
         @ opt_entry ''request_id'' (map_option JStr (o_request_id oc))
         @ opt_entry ''answer'' (map_option (JStr \<circ> answer_name) (o_answer oc))
         @ opt_entry ''rule_written'' (map_option (\<lambda>w.
             jobj [(''path'', JStr (w_path w)), (''line'', JInt (int (w_line w))),
                   (''rule'', rule_spec_json (w_rule w))]) (o_rule_written oc))
         @ (if o_notes oc = [] then [] else [(''notes'', JArr (map JStr (o_notes oc)))]))"

definition gate_answer :: "outcome \<Rightarrow> string + unit" where
  "gate_answer oc =
     (case o_decision oc of
        Allowed \<Rightarrow> Inr ()
      | Denied \<Rightarrow> Inl (case o_reason oc of Some r \<Rightarrow> r | None \<Rightarrow> ''denied''))"

section \<open>How outcomes come about\<close>

lemma outcome_allow_fields [simp]:
  "o_decision (outcome_allow s r) = Allowed" "o_source (outcome_allow s r) = s"
  "o_reason (outcome_allow s r) = None" "o_request_id (outcome_allow s r) = None"
  "o_rule_ref (outcome_allow s r) = r" "o_rule_written (outcome_allow s r) = None"
  by (simp_all add: outcome_allow_def)

lemma outcome_deny_fields [simp]:
  "o_decision (outcome_deny s r t) = Denied" "o_source (outcome_deny s r t) = s"
  "o_reason (outcome_deny s r t) = Some t" "o_request_id (outcome_deny s r t) = None"
  "o_rule_ref (outcome_deny s r t) = r" "o_rule_written (outcome_deny s r t) = None"
  by (simp_all add: outcome_deny_def)

lemma add_note_fields [simp]:
  "o_decision (add_note n oc) = o_decision oc" "o_source (add_note n oc) = o_source oc"
  "o_reason (add_note n oc) = o_reason oc" "o_request_id (add_note n oc) = o_request_id oc"
  "o_rule_written (add_note n oc) = o_rule_written oc"
  by (simp_all add: add_note_def)

lemma write_rule_keeps:
  "write_rule mt tml fs eng oc req target rule rid = (eng', fs', oc') \<Longrightarrow>
     o_decision oc' = o_decision oc \<and> o_source oc' = o_source oc \<and> o_reason oc' = o_reason oc"
  by (auto simp: write_rule_def split: option.splits sum.splits prod.splits)

definition allow_answers :: "permission_answer set" where
  "allow_answers = {AllowOnce, AllowSession, AllowWorkspace, AllowAlways}"

lemma answered_outcome:
  assumes "answered mt tml fs eng req ans rule suggested rid = (eng', fs', oc)"
  shows "o_source oc = ByUser \<and> o_answer oc = Some ans \<and>
         (o_decision oc = Allowed \<longleftrightarrow> ans \<in> allow_answers) \<and>
         (o_decision oc = Denied \<longrightarrow> o_reason oc = Some ''denied by user'')"
  using assms
  by (cases ans)
     (auto simp: answered_def allow_answers_def Let_def dest!: write_rule_keeps
       split: option.splits sum.splits prod.splits)

lemma headless_outcome_cases:
  "o_source (headless_outcome eng req) = ByHeadless \<and>
   (o_decision (headless_outcome eng req) = Allowed \<longleftrightarrow>
      pc_headless (en_config eng) = HeadlessAllowReadonly \<and> r_risk req = ReadOnly) \<and>
   (o_decision (headless_outcome eng req) = Denied \<longrightarrow> o_reason (headless_outcome eng req) \<noteq> None)"
  by (cases "pc_headless (en_config eng)") (auto simp: headless_outcome_def)

lemma decide_finish_outcome:
  assumes "decide_finish mt tml fs eng req a rep waited = (eng', fs', oc)"
  shows "o_request_id oc = Some (a_request_id a) \<and>
    (case rep of
       Answered ans rule \<Rightarrow> o_source oc = ByUser \<and> (o_decision oc = Allowed \<longleftrightarrow> ans \<in> allow_answers)
     | TimedOut \<Rightarrow> o_source oc = ByTimeout \<and> o_decision oc = Denied
     | NoClient \<Rightarrow> o_source oc = ByHeadless \<and> (o_decision oc = Allowed \<longleftrightarrow>
         pc_headless (en_config eng) = HeadlessAllowReadonly \<and> r_risk req = ReadOnly)) \<and>
    (o_decision oc = Denied \<longrightarrow> o_reason oc \<noteq> None)"
proof (cases rep)
  case (Answered ans rule)
  with assms show ?thesis
    by (auto simp: decide_finish_def dest!: answered_outcome split: prod.splits)
next
  case TimedOut
  with assms show ?thesis by (auto simp: decide_finish_def)
next
  case NoClient
  with assms headless_outcome_cases [of eng req] show ?thesis
    by (auto simp: decide_finish_def)
qed

lemma decide_begin_Inl:
  assumes "decide_begin mt tml fs eng req mode rid = (eng', Inl oc)"
  shows "o_request_id oc = None \<and> (o_decision oc = Denied \<longrightarrow> o_reason oc \<noteq> None) \<and>
    (o_decision oc = Allowed \<longrightarrow> \<not> (mode = Plan \<and> mutating (r_risk req)) \<and>
       (case o_source oc of
          ByRule \<Rightarrow> e_effect (engine_evaluate mt tml fs eng req) = Allow
        | BySession \<Rightarrow> e_effect (engine_evaluate mt tml fs eng req) = Ask \<and>
                       (\<exists>r\<in>set (en_session eng). matches mt r req)
        | ByMode \<Rightarrow> e_effect (engine_evaluate mt tml fs eng req) = Ask \<and>
                    mode = Auto \<and> r_risk req = Write \<and> \<not> has_outside req
        | _ \<Rightarrow> False))"
proof -
  have "session_first_match mt (en_session eng) req = Some i \<Longrightarrow>
      \<exists>r\<in>set (en_session eng). matches mt r req" for i
    using session_first_match_None [of mt "en_session eng" req] by auto
  with assms show ?thesis
    by (auto simp: decide_begin_def Let_def engine_evaluate_def refresh_layers_def
        split: if_splits rule_effect.splits option.splits)
qed

lemma decide_begin_Inr:
  assumes "decide_begin mt tml fs eng req mode rid = (eng', Inr a)"
  shows "e_effect (engine_evaluate mt tml fs eng req) = Ask \<and>
    \<not> (mode = Plan \<and> mutating (r_risk req)) \<and> a_request_id a = rid \<and> a_suggested a = suggest mt req \<and>
    eng' = refresh_layers mt tml fs eng \<and> (\<forall>r\<in>set (en_session eng). \<not> matches mt r req)"
  using assms
  by (auto simp: decide_begin_def Let_def engine_evaluate_def refresh_layers_def
      session_first_match_None
      split: if_splits rule_effect.splits option.splits)

lemma decide_allowed:
  assumes "decide mt tml fs eng req mode rid meanwhile prompt waited = (eng', fs', oc)"
    and "o_decision oc = Allowed"
  shows "\<not> (mode = Plan \<and> mutating (r_risk req)) \<and>
    (\<forall>l\<in>set (layers_of (refresh_layers mt tml fs eng)). layer_effect mt req l \<noteq> Some Deny) \<and>
    (case o_source oc of
       ByRule \<Rightarrow> e_effect (engine_evaluate mt tml fs eng req) = Allow
     | BySession \<Rightarrow> \<exists>r\<in>set (en_session eng). matches mt r req
     | ByMode \<Rightarrow> mode = Auto \<and> r_risk req = Write \<and> \<not> has_outside req
     | ByUser \<Rightarrow> \<exists>a ans rule. snd (decide_begin mt tml fs eng req mode rid) = Inr a \<and>
                  prompt a = Answered ans rule \<and> ans \<in> allow_answers
     | ByHeadless \<Rightarrow> r_risk req = ReadOnly
     | ByTimeout \<Rightarrow> False)"
proof -
  have no_deny: "e_effect (engine_evaluate mt tml fs eng req) \<noteq> Deny \<Longrightarrow>
      \<forall>l\<in>set (layers_of (refresh_layers mt tml fs eng)). layer_effect mt req l \<noteq> Some Deny"
    by (auto simp: engine_evaluate_def dest: evaluate_deny)
  show ?thesis
  proof (cases "decide_begin mt tml fs eng req mode rid")
    case (Pair e1 r)
    show ?thesis
    proof (cases r)
      case (Inl oc1)
      with Pair assms have "oc1 = oc" by (simp add: decide_def)
      with decide_begin_Inl [OF Pair [unfolded Inl]] assms(2) no_deny show ?thesis
        by (auto split: permission_source.splits)
    next
      case (Inr a)
      obtain e2 f2 where m: "meanwhile (e1, fs) = (e2, f2)" by (cases "meanwhile (e1, fs)")
      with Pair Inr assms(1)
      have f: "decide_finish mt tml f2 e2 req a (prompt a) waited = (eng', fs', oc)"
        by (simp add: decide_def)
      from decide_begin_Inr [OF Pair [unfolded Inr]] no_deny
        decide_finish_outcome [OF f] assms(2)
        Pair Inr
      show ?thesis by (cases "prompt a") (auto split: permission_source.splits)
    qed
  qed
qed

text \<open>
  C3: Every allowed call has a reason to be: whatever the files, the answers remembered, the
  reply to the prompt and whatever happens while the prompt is open, a decision that allows was
  not a mutating call in plan mode, no file's first match denied it, and its source tells why:
  a rule (\<open>evaluate\<close> said allow), a remembered session answer that matches the call, auto mode for
  a write inside the workspace, an allowing answer of the user to this prompt, or the headless
  setting for a read-only call.
\<close>

theorem decide_allow_justified:
  assumes "decide mt tml fs eng req mode rid meanwhile prompt waited = (eng', fs', oc)"
    and "o_decision oc = Allowed"
  shows "\<not> (mode = Plan \<and> mutating (r_risk req)) \<and>
    (\<forall>l\<in>set (layers_of (refresh_layers mt tml fs eng)). layer_effect mt req l \<noteq> Some Deny) \<and>
    (case o_source oc of
       ByRule \<Rightarrow> e_effect (engine_evaluate mt tml fs eng req) = Allow
     | BySession \<Rightarrow> \<exists>r\<in>set (en_session eng). matches mt r req
     | ByMode \<Rightarrow> mode = Auto \<and> r_risk req = Write \<and> \<not> has_outside req
     | ByUser \<Rightarrow> \<exists>a ans rule. snd (decide_begin mt tml fs eng req mode rid) = Inr a \<and>
                  prompt a = Answered ans rule \<and> ans \<in> allow_answers
     | ByHeadless \<Rightarrow> r_risk req = ReadOnly
     | ByTimeout \<Rightarrow> False)"
  using decide_allowed [OF assms] .

definition demo_engine :: engine where
  "demo_engine = with_files no_matchers (tiny_toml glob_spec) empty_disk ''user.toml'' None
     \<lparr>pc_ask_timeout_s = 600, pc_headless = HeadlessDeny\<rparr> []"

definition demo_decide :: "permission_answer \<Rightarrow> engine \<times> rules_fs \<times> outcome" where
  "demo_decide ans = decide no_matchers (tiny_toml glob_spec) empty_disk demo_engine
     (shell_request ''cargo test'') ModeDefault ''r1'' (\<lambda>x. x) (\<lambda>_. Answered ans None) 5"

theorem decide_allow_justified_witness:
  "o_source (snd (snd (demo_decide AllowOnce))) = ByUser \<and>
   \<not> (\<exists>l\<in>set (layers_of (refresh_layers no_matchers (tiny_toml glob_spec) empty_disk demo_engine)).
      layer_effect no_matchers (shell_request ''cargo test'') l = Some Deny)"
proof -
  obtain e f oc where d: "demo_decide AllowOnce = (e, f, oc)" by (cases "demo_decide AllowOnce")
  have "o_decision (snd (snd (demo_decide AllowOnce))) = Allowed"
    and src: "o_source (snd (snd (demo_decide AllowOnce))) = ByUser"
    by code_simp+
  with d have "o_decision oc = Allowed" by simp
  from decide_allow_justified [OF d [unfolded demo_decide_def] this] src d show ?thesis by simp
qed

text \<open>
  Refusals are final and explained. In plan mode a write or execute call is denied before any
  rule file is looked at; when \<open>evaluate\<close> denies, the call is denied without asking anyone,
  whatever was remembered and whatever the mode; and every denial, however it came about, has a
  reason, which is what the gate hands to the mentor.
\<close>

theorem decide_denials:
  "(mode = Plan \<and> mutating (r_risk req) \<longrightarrow>
      (\<exists>oc. decide mt tml fs eng req mode rid meanwhile prompt waited = (eng, fs, oc) \<and>
            o_decision oc = Denied \<and> o_source oc = ByMode \<and> o_request_id oc = None)) \<and>
   (e_effect (engine_evaluate mt tml fs eng req) = Deny \<longrightarrow>
      (\<exists>eng' oc. decide mt tml fs eng req mode rid meanwhile prompt waited = (eng', fs, oc) \<and>
            o_decision oc = Denied \<and> o_request_id oc = None)) \<and>
   (\<forall>eng' fs' oc. decide mt tml fs eng req mode rid meanwhile prompt waited = (eng', fs', oc) \<longrightarrow>
      o_decision oc = Denied \<longrightarrow> (\<exists>r. o_reason oc = Some r \<and> gate_answer oc = Inl r))"
proof (intro conjI impI allI)
  assume "mode = Plan \<and> mutating (r_risk req)"
  then show "\<exists>oc. decide mt tml fs eng req mode rid meanwhile prompt waited = (eng, fs, oc) \<and>
            o_decision oc = Denied \<and> o_source oc = ByMode \<and> o_request_id oc = None"
    by (simp add: decide_def decide_begin_def)
next
  assume "e_effect (engine_evaluate mt tml fs eng req) = Deny"
  then show "\<exists>eng' oc. decide mt tml fs eng req mode rid meanwhile prompt waited = (eng', fs, oc) \<and>
            o_decision oc = Denied \<and> o_request_id oc = None"
    by (cases "mode = Plan \<and> mutating (r_risk req)")
       (simp_all add: decide_def decide_begin_def engine_evaluate_def Let_def)
next
  fix eng' fs' oc
  assume d: "decide mt tml fs eng req mode rid meanwhile prompt waited = (eng', fs', oc)"
    and den: "o_decision oc = Denied"
  have "o_reason oc \<noteq> None"
  proof (cases "decide_begin mt tml fs eng req mode rid")
    case (Pair e1 r)
    show ?thesis
    proof (cases r)
      case (Inl oc1)
      with Pair d have "oc1 = oc" by (simp add: decide_def)
      with decide_begin_Inl [OF Pair [unfolded Inl]] den show ?thesis by simp
    next
      case (Inr a)
      obtain e2 f2 where "meanwhile (e1, fs) = (e2, f2)" by (cases "meanwhile (e1, fs)")
      with Pair Inr d have "decide_finish mt tml f2 e2 req a (prompt a) waited = (eng', fs', oc)"
        by (simp add: decide_def)
      from decide_finish_outcome [OF this] den show ?thesis by simp
    qed
  qed
  with den show "\<exists>r. o_reason oc = Some r \<and> gate_answer oc = Inl r"
    by (auto simp: gate_answer_def)
qed

theorem decide_denials_witness:
  "\<exists>r. gate_answer (snd (snd (decide no_matchers (tiny_toml glob_spec) empty_disk demo_engine
      (shell_request ''ls'') Plan ''r1'' (\<lambda>x. x) (\<lambda>_. Answered AllowAlways None) 0))) = Inl r"
proof -
  let ?d = "decide no_matchers (tiny_toml glob_spec) empty_disk demo_engine
      (shell_request ''ls'') Plan ''r1'' (\<lambda>x. x) (\<lambda>_. Answered AllowAlways None) 0"
  note den = decide_denials [where mt = no_matchers and tml = "tiny_toml glob_spec" and fs = empty_disk
      and eng = demo_engine and req = "shell_request ''ls''" and mode = Plan and rid = "''r1''"
      and meanwhile = "\<lambda>x. x" and prompt = "\<lambda>_. Answered AllowAlways None" and waited = 0]
  have "Plan = Plan \<and> mutating (r_risk (shell_request ''ls''))"
    by (simp add: mutating_def shell_request_def)
  with den obtain oc where oc: "?d = (demo_engine, empty_disk, oc)" "o_decision oc = Denied" by blast
  with den show ?thesis by fastforce
qed

section \<open>Answers that are remembered\<close>

text \<open>
  An "allow for this session" answer is remembered: after it, any call the chosen rule matches
  (the rule the client sent, else the first suggested one) for which the files still say ask is
  allowed at once, without another prompt, as a session decision.
\<close>

theorem session_answer_remembered:
  assumes "session_ok mt (en_session eng)"
    and "answered mt tml fs eng req AllowSession rule suggested rid = (eng', fs', oc)"
    and "chosen_rule rule suggested Allow = Some r" and "\<exists>c. compile mt r = Inr c"
    and "spec_matches mt r req2"
    and "e_effect (engine_evaluate mt tml fs2 eng' req2) = Ask"
    and "\<not> (mode = Plan \<and> mutating (r_risk req2))"
  shows "\<exists>eng2 oc2. decide_begin mt tml fs2 eng' req2 mode rid2 = (eng2, Inl oc2) \<and>
           o_decision oc2 = Allowed \<and> o_source oc2 = BySession"
proof -
  have "r\<lparr>s_effect := Allow\<rparr> = r" using assms(3) by (auto simp: chosen_rule_def)
  with assms(4) obtain i rules where add: "session_add mt (en_session eng) r = Inr (i, rules)"
    by (auto simp: session_add_def)
  with assms(2,3) have eng': "eng' = eng\<lparr>en_session := rules\<rparr>"
    by (auto simp: answered_def)
  from add have "map_sum id snd (session_add mt (en_session eng) r) = Inr rules" by simp
  from session.appended_rule_found [OF assms(1) this assms(5)] eng'
  have "session_first_match mt (en_session eng') req2 \<noteq> None"
    by (simp add: session_first_match_def)
  with assms(6,7) show ?thesis
    by (auto simp: decide_begin_def Let_def engine_evaluate_def refresh_layers_def)
qed

theorem session_answer_remembered_witness:
  "\<exists>eng' fs' oc. demo_decide AllowSession = (eng', fs', oc) \<and> (\<exists>eng2 oc2.
     decide_begin no_matchers (tiny_toml glob_spec) empty_disk eng' (shell_request ''cargo test -q'')
       ModeDefault ''r2'' = (eng2, Inl oc2) \<and> o_source oc2 = BySession)"
proof -
  let ?r = "\<lparr>s_tool = ''shell'', s_effect = Allow,
     s_match = no_match\<lparr>m_command_prefix := Some ''cargo test''\<rparr>\<rparr>"
  let ?ans = "answered no_matchers (tiny_toml glob_spec) empty_disk demo_engine
     (shell_request ''cargo test'') AllowSession (Some ?r) [] ''r1''"
  obtain eng' fs' oc where a: "?ans = (eng', fs', oc)" by (cases ?ans)
  have ok: "session_ok no_matchers (en_session demo_engine)"
    by (simp add: session_ok_def demo_engine_def with_files_def)
  have ch: "chosen_rule (Some ?r) [] Allow = Some ?r" by (simp add: chosen_rule_def)
  have co: "\<exists>c. compile no_matchers ?r = Inr c"
    by (simp add: compile_def no_matchers_def no_match_def)
  have m: "spec_matches no_matchers ?r (shell_request ''cargo test -q'')" by code_simp
  have "e_effect (engine_evaluate no_matchers (tiny_toml glob_spec) empty_disk (fst ?ans)
     (shell_request ''cargo test -q'')) = Ask" by code_simp
  then have ev: "e_effect (engine_evaluate no_matchers (tiny_toml glob_spec) empty_disk eng'
     (shell_request ''cargo test -q'')) = Ask" using a by simp
  have "fst (demo_decide AllowSession) = fst ?ans" by code_simp
  then obtain f o1 where d: "demo_decide AllowSession = (eng', f, o1)"
    using a by (cases "demo_decide AllowSession") auto
  from session_answer_remembered [OF ok a ch co m ev, of ModeDefault "''r2''"]
  show ?thesis using d by auto
qed

text \<open>A rule file is a rule store as well, as far as the TOML library appends faithfully.\<close>

lemma file_rule_store:
  assumes "\<And>old r. push_faithful tml old (comment_prefix old comment) r"
  shows "rule_store mt (\<lambda>_. True) (\<lambda>fs. layer_rules (layer_load mt tml fs src path))
           (\<lambda>fs r. map_sum id snd (append_rule mt tml fs path r comment)) (\<lambda>r. r)"
proof unfold_locales
  fix fs fs' r
  assume "map_sum id snd (append_rule mt tml fs path r comment) = Inr fs'"
  then obtain line where a: "append_rule mt tml fs path r comment = Inr (line, fs')"
    by (cases "append_rule mt tml fs path r comment") auto
  from append_rule_specs [OF a assms]
  show "map c_spec (layer_rules (layer_load mt tml fs' src path)) =
      map c_spec (layer_rules (layer_load mt tml fs src path)) @ [r]" by simp
qed (auto dest: layer_load_compiled)

lemma write_rule_written:
  assumes "write_rule mt tml fs eng oc req target (Some r) rid = (eng', fs', oc')"
    and "o_rule_written oc = None" and "o_rule_written oc' \<noteq> None"
  obtains l line where "target_layer eng target = Some l"
    and "append_rule mt tml fs (l_path l) r (rule_comment r target req rid) = Inr (line, fs')"
    and "eng' = set_target_layer eng target (layer_reload mt tml fs' l)"
  using assms by (auto simp: write_rule_def split: option.splits sum.splits)

lemma answered_deny_always:
  assumes "answered mt tml fs eng req DenyAlways rule suggested rid = (eng', fs', oc)"
    and "chosen_rule rule suggested Deny = Some r" and "o_rule_written oc \<noteq> None"
  obtains line where
    "append_rule mt tml fs (l_path (en_user eng)) r (rule_comment r User req rid) = Inr (line, fs')"
    and "eng' = eng\<lparr>en_user := layer_reload mt tml fs' (en_user eng)\<rparr>"
proof -
  obtain e f oc1 where w: "write_rule mt tml fs eng (outcome_deny ByUser None ''denied by user'') req User
      (Some r) rid = (e, f, oc1)"
    by (cases "write_rule mt tml fs eng (outcome_deny ByUser None ''denied by user'') req User (Some r) rid")
  with assms have e: "e = eng'" "f = fs'" "o_rule_written oc1 \<noteq> None"
    by (auto simp: answered_def)
  from write_rule_written [OF w _ e(3)] e(1,2) that show ?thesis
    by (auto simp: target_layer_def set_target_layer_def)
qed

lemma layer_rules_reload:
  "layer_rules (layer_reload mt tml fs l) = layer_rules (layer_load mt tml fs src (l_path l))"
  by (simp add: layer_rules_def layer_reload_def layer_load_def)

lemma reload_if_changed_reload [simp]:
  "reload_if_changed mt tml fs (layer_reload mt tml fs l) = layer_reload mt tml fs l"
  by (simp add: reload_if_changed_def layer_reload_def)

text \<open>
  A "deny always" answer sticks: once its rule has been written to the user's file, every
  later call the rule matches is denied without asking, in any mode and whatever the session
  remembers, provided the user's file had no rule matching that call before (its first match would
  still decide) and the TOML library appends faithfully.
\<close>

theorem deny_always_sticks:
  assumes "\<And>old pre r. push_faithful tml old pre r"
    and "answered mt tml fs eng req DenyAlways rule suggested rid = (eng', fs', oc)"
    and "chosen_rule rule suggested Deny = Some r" and "o_rule_written oc \<noteq> None"
    and "\<forall>c\<in>set (layer_rules (layer_load mt tml fs User (l_path (en_user eng)))). \<not> matches mt c req2"
    and "spec_matches mt r req2"
  shows "\<exists>eng2 oc2. decide_begin mt tml fs' eng' req2 mode rid2 = (eng2, Inl oc2) \<and>
           o_decision oc2 = Denied"
proof -
  let ?path = "l_path (en_user eng)"
  obtain line where app: "append_rule mt tml fs ?path r (rule_comment r User req rid) = Inr (line, fs')"
    and eng': "eng' = eng\<lparr>en_user := layer_reload mt tml fs' (en_user eng)\<rparr>"
    using answered_deny_always [OF assms(2-4)] by blast
  let ?user = "layer_reload mt tml fs' (en_user eng)"
  have deny: "s_effect r = Deny" using assms(3) by (auto simp: chosen_rule_def)
  from app have "map_sum id snd (append_rule mt tml fs ?path r (rule_comment r User req rid)) = Inr fs'"
    by simp
  from rule_store.appended_rule_decides [OF file_rule_store [OF assms(1)] TrueI this assms(6,5)]
  obtain i where "position (\<lambda>c. matches mt c req2) (layer_rules ?user) = Some i"
    and "c_spec (layer_rules ?user ! i) = r"
    by (auto simp: layer_rules_reload [of mt tml fs' _ User])
  then have "layer_effect mt req2 ?user = Some Deny"
    using deny by (simp add: layer_effect_def first_match_eq)
  moreover have "?user \<in> set (layers_of (refresh_layers mt tml fs' eng'))"
    by (simp add: layers_of_def refresh_layers_def eng' split: option.split)
  ultimately have "e_effect (evaluate mt (layers_of (refresh_layers mt tml fs' eng')) req2) = Deny"
    by (rule evaluate_deny [rotated])
  then show ?thesis by (simp add: decide_begin_def Let_def)
qed

definition deny_spec :: rule_spec where
  "deny_spec = \<lparr>s_tool = ''shell'', s_effect = Deny,
     s_match = no_match\<lparr>m_command_prefix := Some ''cargo test''\<rparr>\<rparr>"

text \<open>\<open>tiny_toml\<close> can append the rule it knows; here is one that refuses every other.\<close>

definition strict_toml :: "rule_spec \<Rightarrow> toml_lib" where
  "strict_toml rule = (tiny_toml rule)\<lparr>toml_push_rule :=
     (\<lambda>t pre tbl. if tbl = rule_table rule then Inr (Some (t @ ''r'')) else Inr None)\<rparr>"

lemma rule_match_decomp:
  "m = m' \<longleftrightarrow> m_path m = m_path m' \<and> m_command_prefix m = m_command_prefix m' \<and>
     m_command_regex m = m_command_regex m' \<and> m_outside_workspace m = m_outside_workspace m' \<and>
     m_risk m = m_risk m'" for m m' :: rule_match
  by (cases m; cases m') auto

lemma risk_name_inj [simp]: "risk_name a = risk_name b \<longleftrightarrow> a = b"
  by (cases a; cases b) (simp_all add: risk_name_def)

lemma effect_name_inj [simp]: "effect_name a = effect_name b \<longleftrightarrow> a = b"
  by (cases a; cases b) (simp_all add: effect_name_def)

lemma rule_table_inj: "rule_table a = rule_table b \<longleftrightarrow> a = b"
proof
  assume t: "rule_table a = rule_table b"
  have "s_match a = s_match b"
    using t unfolding rule_table_def Let_def rule_match_is_empty_def rule_match_decomp no_match_def
    by (auto split: if_splits option.splits)
  with t show "a = b"
    by (cases a; cases b) (simp add: rule_table_def)
qed simp

lemma strict_toml_faithful: "push_faithful (strict_toml rule) old pre r"
  by (cases "r = rule")
     (simp_all add: push_faithful_def strict_toml_def tiny_toml_def rule_table_inj comp_def)

theorem deny_always_sticks_witness:
  "\<exists>eng' fs' oc eng2 oc2. answered no_matchers (strict_toml deny_spec) empty_disk demo_engine
       (shell_request ''cargo test'') DenyAlways (Some deny_spec) [] ''r1'' = (eng', fs', oc) \<and>
     decide_begin no_matchers (strict_toml deny_spec) fs' eng' (shell_request ''cargo test -q'')
       Auto ''r2'' = (eng2, Inl oc2) \<and> o_decision oc2 = Denied"
proof -
  let ?ans = "answered no_matchers (strict_toml deny_spec) empty_disk demo_engine
       (shell_request ''cargo test'') DenyAlways (Some deny_spec) [] ''r1''"
  obtain eng' fs' oc where a: "?ans = (eng', fs', oc)" by (cases ?ans)
  have ch: "chosen_rule (Some deny_spec) [] Deny = Some deny_spec"
    by (simp add: chosen_rule_def deny_spec_def)
  have "o_rule_written (snd (snd ?ans)) \<noteq> None" by code_simp
  then have w: "o_rule_written oc \<noteq> None" using a by simp
  have e: "\<forall>c\<in>set (layer_rules (layer_load no_matchers (strict_toml deny_spec) empty_disk User
      (l_path (en_user demo_engine)))). \<not> matches no_matchers c (shell_request ''cargo test -q'')"
    by (simp add: layer_load_missing read_to_string_def empty_disk_def)
  have m: "spec_matches no_matchers deny_spec (shell_request ''cargo test -q'')" by code_simp
  from deny_always_sticks [OF strict_toml_faithful a ch w e m, of Auto "''r2''"] a
  show ?thesis by blast
qed

text \<open>
  The proviso matters: behind a rule of the user's file that already matches, say an explicit
  \<open>ask\<close>, the appended rule is never reached, and the same call is asked about again although the
  user answered "deny always".
\<close>

definition ask_first_layer :: layer where
  "ask_first_layer = demo_layer User [prefix_rule Ask ''cargo'', prefix_rule Deny ''cargo test'']"

lemma appended_rule_shadowed:
  "e_effect (evaluate no_matchers [ask_first_layer] (shell_request ''cargo test'')) = Ask"
  by code_simp

section \<open>Suggested rules\<close>

text \<open>A run of text in which no whitespace character starts.\<close>

definition solid :: "string \<Rightarrow> string \<Rightarrow> bool" where
  "solid w rest \<longleftrightarrow> (\<forall>i<length w. ws_len (drop i w @ rest) = 0)"

lemma split_ws_go_solid: "solid w rest \<Longrightarrow> split_ws_go cur (w @ rest) = split_ws_go (rev w @ cur) rest"
proof (induction w arbitrary: cur)
  case (Cons c w)
  have "ws_len ((c # w) @ rest) = 0" and s: "solid w rest"
    using Cons.prems unfolding solid_def by force+
  then have "split_ws_go cur ((c # w) @ rest) = split_ws_go (c # cur) (w @ rest)"
    by (subst split_ws_go.simps) simp
  with Cons.IH [OF s] show ?case by simp
qed simp

lemma split_ws_go_stop:
  "cur \<noteq> [] \<Longrightarrow> rest = [] \<or> starts_with_ws rest \<Longrightarrow>
     split_ws_go cur rest = rev cur # split_ws_go [] (drop (ws_len rest) rest)"
  by (cases rest) (auto simp: split_ws_go.simps [of cur] split_ws_go.simps [of "[]" "[]"] starts_with_ws_def)

lemma split_whitespace_word:
  "w \<noteq> [] \<Longrightarrow> solid w rest \<Longrightarrow> rest = [] \<or> starts_with_ws rest \<Longrightarrow>
     split_whitespace (w @ rest) = w # split_whitespace (drop (ws_len rest) rest)"
  by (simp add: split_whitespace_def split_ws_go_solid split_ws_go_stop)

lemma space_starts_ws [simp]: "starts_with_ws (CHR '' '' # s)" "ws_len (CHR '' '' # s) = 1"
  by (cases s rule: ws_len.cases; simp add: starts_with_ws_def ascii_ws_def)+

text \<open>A command whose first two words are separated by single spaces.\<close>

definition plain_command :: "string \<Rightarrow> bool" where
  "plain_command c \<longleftrightarrow>
     (\<exists>w. w \<noteq> [] \<and> solid w [] \<and> c = w) \<or>
     (\<exists>w1 w2 rest. w1 \<noteq> [] \<and> w2 \<noteq> [] \<and> solid w1 (CHR '' '' # w2 @ rest) \<and> solid w2 rest \<and>
        (rest = [] \<or> starts_with_ws rest) \<and> c = w1 @ CHR '' '' # w2 @ rest)"

lemma plain_command_prefix:
  assumes "plain_command c"
  obtains rest where "c = join_with '' '' (take 2 (split_whitespace c)) @ rest"
    and "rest = [] \<or> starts_with_ws rest" and "join_with '' '' (take 2 (split_whitespace c)) \<noteq> []"
proof -
  have nil: "split_whitespace [] = []" by (simp add: split_whitespace_def split_ws_go.simps)
  from assms consider
      (one) w where "w \<noteq> []" "solid w []" "c = w"
    | (two) w1 w2 rest where "w1 \<noteq> []" "w2 \<noteq> []" "solid w1 (CHR '' '' # w2 @ rest)" "solid w2 rest"
        "rest = [] \<or> starts_with_ws rest" "c = w1 @ CHR '' '' # w2 @ rest"
    unfolding plain_command_def by blast
  then show thesis
  proof cases
    case one
    then have "split_whitespace c = [w]" using split_whitespace_word [of w "[]"] nil by simp
    with one that [of "[]"] show ?thesis by simp
  next
    case two
    have "split_whitespace c = w1 # split_whitespace (w2 @ rest)"
      using two split_whitespace_word [of w1 "CHR '' '' # w2 @ rest"] by simp
    also have "split_whitespace (w2 @ rest) = w2 # split_whitespace (drop (ws_len rest) rest)"
      using two split_whitespace_word by blast
    finally have "join_with '' '' (take 2 (split_whitespace c)) = w1 @ '' '' @ w2"
      by (simp add: numeral_2_eq_2)
    with two that [of rest] show ?thesis by simp
  qed
qed

text \<open>
  What the engine suggests is about the call: for a command of one word, or of two words
  separated by a single space and whatever follows, that is not a chain, the first suggested
  rule is an allow rule, compiles, and matches the very request it was made for.
\<close>

theorem suggested_rule_matches:
  assumes "r_command req = Some c" and "plain_command (trim c)" and "\<not> is_chain (trim c)"
    and "trim (join_with '' '' (take 2 (split_whitespace (trim c))))
         = join_with '' '' (take 2 (split_whitespace (trim c)))"
    and "r_tool req \<noteq> []"
  shows "\<exists>r rest cr. suggest mt req = r # rest \<and> s_effect r = Allow \<and>
           compile mt r = Inr cr \<and> matches mt cr req"
proof -
  let ?two = "join_with '' '' (take 2 (split_whitespace (trim c)))"
  let ?r = "\<lparr>s_tool = r_tool req, s_effect = Allow, s_match = no_match\<lparr>m_command_prefix := Some ?two\<rparr>\<rparr>"
  obtain rest where rest: "trim c = ?two @ rest" "rest = [] \<or> starts_with_ws rest" "?two \<noteq> []"
    using plain_command_prefix [OF assms(2)] by blast
  have sg: "\<exists>rs. suggest mt req = ?r # rs"
    using assms(1,3) rest by (cases "trim c") (auto simp: suggest_def suggest_command_def Let_def)
  have "command_has_prefix c ?two"
    using rest assms(3,4) by (auto simp: command_has_prefix_iff)
  with assms(1,5) have "\<exists>cr. compile mt ?r = Inr cr \<and> matches mt cr req"
    by (simp add: compile_def matches_def no_match_def)
  with sg show ?thesis by fastforce
qed

theorem suggested_rule_matches_witness:
  "\<exists>r rest cr. suggest no_matchers (shell_request '' cargo test -q'') = r # rest \<and>
     matches no_matchers cr (shell_request '' cargo test -q'')"
proof -
  have t: "trim '' cargo test -q'' = ''cargo test -q''" by code_simp
  have "plain_command ''cargo test -q''"
    unfolding plain_command_def solid_def
    by (rule disjI2, rule exI [of _ "''cargo''"], rule exI [of _ "''test''"], rule exI [of _ "'' -q''"])
       (auto simp: less_Suc_eq ascii_ws_def ws2_def ws3_def)
  moreover have "\<not> is_chain ''cargo test -q''" by code_simp
  moreover have "trim (join_with '' '' (take 2 (split_whitespace ''cargo test -q'')))
         = join_with '' '' (take 2 (split_whitespace ''cargo test -q''))" by code_simp
  ultimately show ?thesis
    using suggested_rule_matches [of "shell_request '' cargo test -q''" "'' cargo test -q''" no_matchers] t
    by (auto simp: shell_request_def)
qed

text \<open>
  With two spaces between the words the suggested prefix (the words joined by one space) is not
  a prefix of the command: the rule an "allow always" answer writes does not match the call it
  was given for.
\<close>

lemma suggested_rule_misses:
  "hd (suggest no_matchers (shell_request ''cargo  test'')) =
     \<lparr>s_tool = ''shell'', s_effect = Allow, s_match = no_match\<lparr>m_command_prefix := Some ''cargo test''\<rparr>\<rparr>"
  "\<not> spec_matches no_matchers (hd (suggest no_matchers (shell_request ''cargo  test'')))
       (shell_request ''cargo  test'')"
  by code_simp+

section \<open>Inside means inside\<close>

lemma resolve_subject_inside:
  "\<not> p_outside (resolve_subject fs cwd (Some root) given) \<Longrightarrow>
     \<exists>q. resolve fs cwd root given = Inr q \<and>
         p_abs (resolve_subject fs cwd (Some root) given) = Some q \<and>
         p_shown (resolve_subject fs cwd (Some root) given) = display_path root q"
  by (cases "resolve fs cwd root given")
     (simp_all add: resolve_subject_def split: path_error.splits)

text \<open>
  A path the engine treats as inside the workspace is one the sandbox resolved: in a session
  with a workspace every path of the request that is not marked outside is an absolute path under
  the root, without dots, that no symbolic link leads away from, shown relative to the root.
\<close>

theorem for_call_inside:
  assumes "fs [] = Some (Dir b)" and "p \<in> set (r_paths (for_call fs cwd spec input (Some (abs_path rs))))"
    and "\<not> p_outside p"
  shows "\<exists>ns. p_abs p = Some (abs_path (rs @ ns)) \<and>
           p_shown p = (if ns = [] then ''.'' else join_with ''/'' ns) \<and>
           canonicalize fs cwd (abs_path (rs @ ns)) \<in> insert (Inr (abs_path (rs @ ns))) (range Inl)"
proof -
  have "r_paths (for_call fs cwd spec input (Some (abs_path rs))) =
      map (resolve_subject fs cwd (Some (abs_path rs))) (given_paths (ts_input_schema spec) input)"
    by (simp add: for_call_def Let_def)
  with assms(2) obtain given where p: "p = resolve_subject fs cwd (Some (abs_path rs)) given"
    by (auto simp: image_iff)
  with assms(3) resolve_subject_inside obtain q where
    q: "resolve fs cwd (abs_path rs) given = Inr q" "p_abs p = Some q"
      "p_shown p = display_path (abs_path rs) q" by metis
  obtain ns where ns: "q = abs_path (rs @ ns)"
    and c: "canonicalize fs cwd q \<in> insert (Inr q) (range Inl)"
    using resolve_inside [OF assms(1) q(1)] by blast
  show ?thesis
    using q(2,3) c unfolding ns display_under by (intro exI [of _ ns]) simp
qed

theorem for_call_inside_witness:
  "\<exists>p\<in>set (r_paths (for_call demo_fs [] \<lparr>ts_name = ''read_file'', ts_description = [],
      ts_input_schema = JNull, ts_risk = ReadOnly, ts_tags = [], ts_timeout_s = None\<rparr>
      (JObj [(''path'', JStr ''src/a.rs'')]) (Some (abs_path [''w''])))).
     \<exists>ns. p_abs p = Some (abs_path ([''w''] @ ns))"
proof -
  let ?spec = "\<lparr>ts_name = ''read_file'', ts_description = [],
      ts_input_schema = JNull, ts_risk = ReadOnly, ts_tags = [], ts_timeout_s = None\<rparr>"
  let ?input = "JObj [(''path'', JStr ''src/a.rs'')]"
  let ?p = "resolve_subject demo_fs [] (Some (abs_path [''w''])) ''src/a.rs''"
  have "given_paths JNull ?input = [''src/a.rs'']"
    by (simp add: given_paths_def given_by_key_def jget_def jindex_def)
  then have mem: "?p \<in> set (r_paths (for_call demo_fs [] ?spec ?input (Some (abs_path [''w'']))))"
    by (simp add: for_call_def Let_def)
  have ins: "\<not> p_outside ?p" by code_simp
  have root: "demo_fs [] = Some (Dir True)" by (simp add: demo_fs_def)
  from for_call_inside [OF root mem ins]
  show ?thesis by (intro bexI [OF _ mem]) auto
qed

end
