(* ===== verification/Rpc_Messages.thy ===== *)
theory Rpc_Messages
  imports Json_Value
begin

text \<open>
  \<open>crates/api/src/jsonrpc.rs\<close>: the JSON-RPC 2.0 messages between the daemon and its clients, the
  error model, and how a message is told from its shape. \<open>serde\<close>'s derived reading and writing
  are written out on JSON values: a struct is read from an object or from an array of its fields
  in order, an optional field is absent or null, an untagged enum is the first variant that reads.
\<close>

section \<open>The message types\<close>

datatype rpc_id = IdNumber nat | IdString string

record error_data =
  ed_kind :: string
  ed_details :: "json option"

record rpc_error =
  re_code :: int
  re_message :: string
  re_data :: "error_data option"

record request =
  rq_id :: rpc_id
  rq_method :: string
  rq_params :: "json option"

record notification =
  nt_method :: string
  nt_params :: "json option"

record response =
  rs_id :: "rpc_id option"
  rs_result :: "json option"
  rs_error :: "rpc_error option"

datatype message =
    MRequest request
  | MNotification notification
  | MResponse response

definition response_success :: "rpc_id \<Rightarrow> json \<Rightarrow> response" where
  "response_success i v = \<lparr>rs_id = Some i, rs_result = Some v, rs_error = None\<rparr>"

definition response_failure :: "rpc_id option \<Rightarrow> rpc_error \<Rightarrow> response" where
  "response_failure i e = \<lparr>rs_id = i, rs_result = None, rs_error = Some e\<rparr>"

definition message_request :: "rpc_id \<Rightarrow> string \<Rightarrow> json option \<Rightarrow> message" where
  "message_request i m p = MRequest \<lparr>rq_id = i, rq_method = m, rq_params = p\<rparr>"

definition message_notification :: "string \<Rightarrow> json option \<Rightarrow> message" where
  "message_notification m p = MNotification \<lparr>nt_method = m, nt_params = p\<rparr>"

section \<open>Errors\<close>

definition rpc_error_new :: "int \<Rightarrow> string \<Rightarrow> string \<Rightarrow> rpc_error" where
  "rpc_error_new code kind msg =
     \<lparr>re_code = code, re_message = msg, re_data = Some \<lparr>ed_kind = kind, ed_details = None\<rparr>\<rparr>"

definition with_details :: "rpc_error \<Rightarrow> json \<Rightarrow> rpc_error" where
  "with_details e d =
     e\<lparr>re_data := Some (case re_data e of
         Some ed \<Rightarrow> ed\<lparr>ed_details := Some d\<rparr>
       | None \<Rightarrow> \<lparr>ed_kind = [], ed_details = Some d\<rparr>)\<rparr>"

definition error_kind :: "rpc_error \<Rightarrow> string option" where
  "error_kind e = map_option ed_kind (re_data e)"

definition parse_error :: "string \<Rightarrow> rpc_error" where
  "parse_error = rpc_error_new (-32700) ''parse_error''"

definition invalid_request :: "string \<Rightarrow> rpc_error" where
  "invalid_request = rpc_error_new (-32600) ''invalid_request''"

definition method_not_found :: "string \<Rightarrow> rpc_error" where
  "method_not_found m = rpc_error_new (-32601) ''method_not_found'' (''unknown method '' @ m)"

definition invalid_params :: "string \<Rightarrow> rpc_error" where
  "invalid_params = rpc_error_new (-32602) ''invalid_params''"

definition internal_error :: "string \<Rightarrow> rpc_error" where
  "internal_error = rpc_error_new (-32603) ''internal''"

definition unauthorized :: "string \<Rightarrow> rpc_error" where
  "unauthorized = rpc_error_new (-32001) ''unauthorized''"

definition incompatible_api :: "nat \<Rightarrow> nat \<Rightarrow> rpc_error" where
  "incompatible_api client daemon =
     with_details (rpc_error_new (-32002) ''incompatible_api''
       (''client speaks API v'' @ show_nat client @ '', daemon speaks API v'' @ show_nat daemon))
       (jobj [(''client_api'', JInt (int client)), (''daemon_api'', JInt (int daemon))])"

definition not_found_error :: "string \<Rightarrow> rpc_error" where
  "not_found_error = rpc_error_new (-32010) ''not_found''"

definition cancelled_error :: rpc_error where
  "cancelled_error = rpc_error_new (-32030) ''cancelled'' ''operation cancelled''"

section \<open>Writing\<close>

text \<open>A field marked \<open>skip_serializing_if = "Option::is_none"\<close>.\<close>

definition skip_none :: "string \<Rightarrow> json option \<Rightarrow> (string \<times> json) list" where
  "skip_none k v = (case v of None \<Rightarrow> [] | Some x \<Rightarrow> [(k, x)])"

definition id_json :: "rpc_id \<Rightarrow> json" where
  "id_json i = (case i of IdNumber n \<Rightarrow> JInt (int n) | IdString s \<Rightarrow> JStr s)"

definition error_data_json :: "error_data \<Rightarrow> json" where
  "error_data_json d = jobj ((''kind'', JStr (ed_kind d)) # skip_none ''details'' (ed_details d))"

definition rpc_error_json :: "rpc_error \<Rightarrow> json" where
  "rpc_error_json e =
     jobj ([(''code'', JInt (re_code e)), (''message'', JStr (re_message e))]
         @ skip_none ''data'' (map_option error_data_json (re_data e)))"

definition message_json :: "message \<Rightarrow> json" where
  "message_json m =
     (case m of
        MRequest r \<Rightarrow>
          jobj ([(''jsonrpc'', JStr ''2.0''), (''id'', id_json (rq_id r)),
                 (''method'', JStr (rq_method r))] @ skip_none ''params'' (rq_params r))
      | MNotification n \<Rightarrow>
          jobj ([(''jsonrpc'', JStr ''2.0''), (''method'', JStr (nt_method n))]
              @ skip_none ''params'' (nt_params n))
      | MResponse r \<Rightarrow>
          jobj ([(''jsonrpc'', JStr ''2.0''),
                 (''id'', case rs_id r of None \<Rightarrow> JNull | Some i \<Rightarrow> id_json i)]
              @ skip_none ''result'' (rs_result r)
              @ skip_none ''error'' (map_option rpc_error_json (rs_error r))))"

section \<open>Reading\<close>

text \<open>
  The fields of a struct: the entries of an object, or the elements of an array in field order
  (never more of them than fields, and at least \<open>need\<close>).
\<close>

definition struct_fields :: "string list \<Rightarrow> nat \<Rightarrow> json \<Rightarrow> (string \<times> json) list option" where
  "struct_fields names need v =
     (case v of
        JObj fs \<Rightarrow> Some fs
      | JArr vs \<Rightarrow> (if need \<le> length vs \<and> length vs \<le> length names then Some (zip names vs) else None)
      | _ \<Rightarrow> None)"

text \<open>An optional field: absent and null are \<open>None\<close>, anything else has to read.\<close>

definition opt_field :: "(json \<Rightarrow> 'a option) \<Rightarrow> json option \<Rightarrow> 'a option option" where
  "opt_field rd v =
     (case v of None \<Rightarrow> Some None | Some JNull \<Rightarrow> Some None | Some x \<Rightarrow> map_option Some (rd x))"

definition id_of_json :: "json \<Rightarrow> rpc_id option" where
  "id_of_json v =
     (case v of JStr s \<Rightarrow> Some (IdString s) | _ \<Rightarrow> map_option IdNumber (as_u64 v))"

definition as_i32 :: "json \<Rightarrow> int option" where
  "as_i32 v = (case v of JInt i \<Rightarrow> (if -(2 ^ 31) \<le> i \<and> i < 2 ^ 31 then Some i else None) | _ \<Rightarrow> None)"

definition version_ok :: "json option \<Rightarrow> bool" where
  "version_ok v \<longleftrightarrow> Option.bind v as_str = Some ''2.0''"

definition error_data_of_json :: "json \<Rightarrow> error_data option" where
  "error_data_of_json v =
     Option.bind (struct_fields [''kind'', ''details''] 1 v) (\<lambda>fs.
     Option.bind (Option.bind (map_of fs ''kind'') as_str) (\<lambda>k.
     Option.bind (opt_field Some (map_of fs ''details'')) (\<lambda>d.
       Some \<lparr>ed_kind = k, ed_details = d\<rparr>)))"

definition rpc_error_of_json :: "json \<Rightarrow> rpc_error option" where
  "rpc_error_of_json v =
     Option.bind (struct_fields [''code'', ''message'', ''data''] 2 v) (\<lambda>fs.
     Option.bind (Option.bind (map_of fs ''code'') as_i32) (\<lambda>c.
     Option.bind (Option.bind (map_of fs ''message'') as_str) (\<lambda>m.
     Option.bind (opt_field error_data_of_json (map_of fs ''data'')) (\<lambda>d.
       Some \<lparr>re_code = c, re_message = m, re_data = d\<rparr>))))"

definition request_of_json :: "json \<Rightarrow> request option" where
  "request_of_json v =
     Option.bind (struct_fields [''jsonrpc'', ''id'', ''method'', ''params''] 3 v) (\<lambda>fs.
       if \<not> version_ok (map_of fs ''jsonrpc'') then None else
     Option.bind (Option.bind (map_of fs ''id'') id_of_json) (\<lambda>i.
     Option.bind (Option.bind (map_of fs ''method'') as_str) (\<lambda>m.
     Option.bind (opt_field Some (map_of fs ''params'')) (\<lambda>p.
       Some \<lparr>rq_id = i, rq_method = m, rq_params = p\<rparr>))))"

definition notification_of_json :: "json \<Rightarrow> notification option" where
  "notification_of_json v =
     Option.bind (struct_fields [''jsonrpc'', ''method'', ''params''] 2 v) (\<lambda>fs.
       if \<not> version_ok (map_of fs ''jsonrpc'') then None else
     Option.bind (Option.bind (map_of fs ''method'') as_str) (\<lambda>m.
     Option.bind (opt_field Some (map_of fs ''params'')) (\<lambda>p.
       Some \<lparr>nt_method = m, nt_params = p\<rparr>)))"

definition response_of_json :: "json \<Rightarrow> response option" where
  "response_of_json v =
     Option.bind (struct_fields [''jsonrpc'', ''id'', ''result'', ''error''] 2 v) (\<lambda>fs.
       if \<not> version_ok (map_of fs ''jsonrpc'') then None else
     Option.bind (opt_field id_of_json (map_of fs ''id'')) (\<lambda>i.
     Option.bind (opt_field Some (map_of fs ''result'')) (\<lambda>r.
     Option.bind (opt_field rpc_error_of_json (map_of fs ''error'')) (\<lambda>e.
       Some \<lparr>rs_id = i, rs_result = r, rs_error = e\<rparr>))))"

text \<open>\<open>Message\<close> is untagged: the first variant that reads.\<close>

definition message_of_json :: "json \<Rightarrow> message option" where
  "message_of_json v =
     (case request_of_json v of
        Some r \<Rightarrow> Some (MRequest r)
      | None \<Rightarrow>
          (case notification_of_json v of
             Some n \<Rightarrow> Some (MNotification n)
           | None \<Rightarrow> map_option MResponse (response_of_json v)))"

text \<open>What a caller of the client library gets from a response to its request.\<close>

definition client_outcome :: "response \<Rightarrow> rpc_error + json" where
  "client_outcome r =
     (case rs_error r of
        Some e \<Rightarrow> Inl e
      | None \<Rightarrow> (case rs_result r of Some v \<Rightarrow> Inr v | None \<Rightarrow> Inr JNull))"

section \<open>Reading what was written\<close>

text \<open>The fields of an object built from distinct keys are the ones put in.\<close>

lemma struct_fields_jobj:
  "\<exists>fs'. struct_fields names need (jobj fs) = Some fs' \<and> map_of fs' = map_of (rev fs)"
  by (simp add: struct_fields_def jobj_def map_of_jobj_fold)

lemma as_str_JStr [simp]: "as_str (JStr s) = Some s"
  by (simp add: as_str_def)

definition wf_id :: "rpc_id \<Rightarrow> bool" where
  "wf_id i = (case i of IdNumber n \<Rightarrow> n < 2 ^ 64 | IdString _ \<Rightarrow> True)"

lemma id_of_json_json [simp]: "wf_id i \<Longrightarrow> id_of_json (id_json i) = Some i"
  by (cases i) (auto simp: id_of_json_def id_json_def wf_id_def as_u64_def)

lemma id_json_not_null [simp]: "id_json i \<noteq> JNull"
  by (cases i) (auto simp: id_json_def)

lemma opt_field_simps [simp]:
  "opt_field rd None = Some None"
  "opt_field rd (Some JNull) = Some None"
  "v \<noteq> JNull \<Longrightarrow> opt_field rd (Some v) = map_option Some (rd v)"
  by (auto simp: opt_field_def split: json.splits)

lemma jobj_not_null [simp]: "jobj fs \<noteq> JNull"
  by (simp add: jobj_def)

lemma skip_none_simps [simp]: "skip_none k None = []" "skip_none k (Some v) = [(k, v)]"
  by (simp_all add: skip_none_def)

definition wf_error :: "rpc_error \<Rightarrow> bool" where
  "wf_error e \<longleftrightarrow> -(2 ^ 31) \<le> re_code e \<and> re_code e < 2 ^ 31 \<and>
     (case re_data e of Some d \<Rightarrow> ed_details d \<noteq> Some JNull | None \<Rightarrow> True)"

definition wf_message :: "message \<Rightarrow> bool" where
  "wf_message m =
     (case m of
        MRequest r \<Rightarrow> wf_id (rq_id r) \<and> rq_params r \<noteq> Some JNull
      | MNotification n \<Rightarrow> nt_params n \<noteq> Some JNull
      | MResponse r \<Rightarrow> (\<forall>i. rs_id r = Some i \<longrightarrow> wf_id i) \<and> rs_result r \<noteq> Some JNull \<and>
          (\<forall>e. rs_error r = Some e \<longrightarrow> wf_error e))"

lemma error_data_roundtrip:
  "ed_details d \<noteq> Some JNull \<Longrightarrow> error_data_of_json (error_data_json d) = Some d"
proof -
  assume d: "ed_details d \<noteq> Some JNull"
  let ?fs = "(''kind'', JStr (ed_kind d)) # skip_none ''details'' (ed_details d)"
  obtain fs where "struct_fields [''kind'', ''details''] 1 (jobj ?fs) = Some fs" "map_of fs = map_of (rev ?fs)"
    using struct_fields_jobj by blast
  with d show ?thesis
    by (cases "ed_details d") (simp_all add: error_data_of_json_def error_data_json_def)
qed

lemma error_data_json_not_null [simp]: "error_data_json d \<noteq> JNull"
  by (simp add: error_data_json_def)

lemma rpc_error_json_not_null [simp]: "rpc_error_json e \<noteq> JNull"
  by (simp add: rpc_error_json_def)

lemma rpc_error_roundtrip: "wf_error e \<Longrightarrow> rpc_error_of_json (rpc_error_json e) = Some e"
proof -
  assume e: "wf_error e"
  let ?fs = "[(''code'', JInt (re_code e)), (''message'', JStr (re_message e))]
         @ skip_none ''data'' (map_option error_data_json (re_data e))"
  obtain fs where "struct_fields [''code'', ''message'', ''data''] 2 (jobj ?fs) = Some fs"
    "map_of fs = map_of (rev ?fs)"
    using struct_fields_jobj by blast
  with e show ?thesis
    by (cases "re_data e")
       (simp_all add: rpc_error_of_json_def rpc_error_json_def wf_error_def as_i32_def error_data_roundtrip)
qed

text \<open>The constructors' errors are all of this kind.\<close>

lemma wf_error_new [simp]:
  "wf_error (rpc_error_new c k m) \<longleftrightarrow> -(2 ^ 31) \<le> c \<and> c < 2 ^ 31"
  by (simp add: wf_error_def rpc_error_new_def)

lemma version_ok_2 [simp]: "version_ok (Some (JStr ''2.0''))" "\<not> version_ok None"
  by (simp_all add: version_ok_def)

lemma opt_field_params [simp]: "p \<noteq> Some JNull \<Longrightarrow> opt_field Some p = Some p"
  by (cases p) auto

lemma request_roundtrip:
  assumes "wf_id (rq_id r)" and "rq_params r \<noteq> Some JNull"
  shows "request_of_json (message_json (MRequest r)) = Some r"
proof -
  let ?fs = "[(''jsonrpc'', JStr ''2.0''), (''id'', id_json (rq_id r)),
                 (''method'', JStr (rq_method r))] @ skip_none ''params'' (rq_params r)"
  obtain fs where "struct_fields [''jsonrpc'', ''id'', ''method'', ''params''] 3 (jobj ?fs) = Some fs"
    "map_of fs = map_of (rev ?fs)"
    using struct_fields_jobj by blast
  with assms show ?thesis
    by (cases "rq_params r") (simp_all add: request_of_json_def message_json_def)
qed

lemma notification_roundtrip:
  assumes "nt_params n \<noteq> Some JNull"
  shows "request_of_json (message_json (MNotification n)) = None"
    and "notification_of_json (message_json (MNotification n)) = Some n"
proof -
  let ?fs = "[(''jsonrpc'', JStr ''2.0''), (''method'', JStr (nt_method n))]
              @ skip_none ''params'' (nt_params n)"
  obtain fs where "struct_fields [''jsonrpc'', ''id'', ''method'', ''params''] 3 (jobj ?fs) = Some fs"
    "map_of fs = map_of (rev ?fs)"
    using struct_fields_jobj by blast
  then show "request_of_json (message_json (MNotification n)) = None"
    by (cases "nt_params n") (simp_all add: request_of_json_def message_json_def)
  obtain fs where "struct_fields [''jsonrpc'', ''method'', ''params''] 2 (jobj ?fs) = Some fs"
    "map_of fs = map_of (rev ?fs)"
    using struct_fields_jobj by blast
  with assms show "notification_of_json (message_json (MNotification n)) = Some n"
    by (cases "nt_params n") (simp_all add: notification_of_json_def message_json_def)
qed

lemma response_roundtrip:
  assumes "\<forall>i. rs_id r = Some i \<longrightarrow> wf_id i" and "\<forall>e. rs_error r = Some e \<longrightarrow> wf_error e"
  shows "request_of_json (message_json (MResponse r)) = None"
    and "notification_of_json (message_json (MResponse r)) = None"
    and "response_of_json (message_json (MResponse r)) =
      Some (r\<lparr>rs_result := (if rs_result r = Some JNull then None else rs_result r)\<rparr>)"
proof -
  let ?i = "case rs_id r of None \<Rightarrow> JNull | Some i \<Rightarrow> id_json i"
  let ?fs = "[(''jsonrpc'', JStr ''2.0''), (''id'', ?i)] @ skip_none ''result'' (rs_result r)
              @ skip_none ''error'' (map_option rpc_error_json (rs_error r))"
  obtain fs where "struct_fields [''jsonrpc'', ''id'', ''method'', ''params''] 3 (jobj ?fs) = Some fs"
    "map_of fs = map_of (rev ?fs)"
    using struct_fields_jobj by blast
  then show "request_of_json (message_json (MResponse r)) = None"
    by (cases "rs_result r"; cases "rs_error r") (simp_all add: request_of_json_def message_json_def bind_eq_None_conv)
  obtain fs where "struct_fields [''jsonrpc'', ''method'', ''params''] 2 (jobj ?fs) = Some fs"
    "map_of fs = map_of (rev ?fs)"
    using struct_fields_jobj by blast
  then show "notification_of_json (message_json (MResponse r)) = None"
    by (cases "rs_result r"; cases "rs_error r") (simp_all add: notification_of_json_def message_json_def)
  obtain fs where fs: "struct_fields [''jsonrpc'', ''id'', ''result'', ''error''] 2 (jobj ?fs) = Some fs"
    "map_of fs = map_of (rev ?fs)"
    using struct_fields_jobj by blast
  have i: "opt_field id_of_json (Some ?i) = Some (rs_id r)"
    using assms(1) by (cases "rs_id r") auto
  have e: "opt_field rpc_error_of_json (map_of (rev ?fs) ''error'') = Some (rs_error r)"
    using assms(2) by (cases "rs_result r"; cases "rs_error r") (simp_all add: rpc_error_roundtrip)
  have p: "opt_field Some (map_of (rev ?fs) ''result'') =
      Some (if rs_result r = Some JNull then None else rs_result r)"
    by (cases "rs_result r"; cases "rs_error r") auto
  have "map_of (rev ?fs) ''jsonrpc'' = Some (JStr ''2.0'')" "map_of (rev ?fs) ''id'' = Some ?i"
    by (cases "rs_result r"; cases "rs_error r"; simp)+
  with fs i e p show "response_of_json (message_json (MResponse r)) =
      Some (r\<lparr>rs_result := (if rs_result r = Some JNull then None else rs_result r)\<rparr>)"
    by (simp add: response_of_json_def message_json_def)
qed

text \<open>
  C25: What one side writes the other reads: a message with an id that fits 64 bits, an error code
  that fits 32 bits and no explicit null in an optional field is read back as the very same
  message, so a request is never mistaken for a notification nor a notification for a response.
\<close>

theorem message_roundtrip:
  assumes "wf_message m"
  shows "message_of_json (message_json m) = Some m"
proof (cases m)
  case (MRequest r)
  with assms request_roundtrip [of r] show ?thesis
    by (simp add: message_of_json_def wf_message_def)
next
  case (MNotification n)
  with assms notification_roundtrip [of n] show ?thesis
    by (simp add: message_of_json_def wf_message_def)
next
  case (MResponse r)
  with assms response_roundtrip [of r] show ?thesis
    by (simp add: message_of_json_def wf_message_def)
qed

theorem message_roundtrip_witness:
  "message_of_json (message_json (MResponse (response_failure (Some (IdNumber 7)) (incompatible_api 1 2)))) =
     Some (MResponse (response_failure (Some (IdNumber 7)) (incompatible_api 1 2)))"
  by (rule message_roundtrip)
     (simp add: wf_message_def response_failure_def wf_id_def wf_error_def incompatible_api_def
        with_details_def rpc_error_new_def jobj_def)

text \<open>
  A call returns what its handler returned: the response the server writes for a result, null
  included (it is read back without a result), and for an error reaches the caller of the client
  library as that result and that error, under the id of the request.
\<close>

theorem reply_roundtrip:
  assumes "wf_id i" and "wf_error e"
  shows "(\<exists>r. message_of_json (message_json (MResponse (response_success i v))) = Some (MResponse r) \<and>
             rs_id r = Some i \<and> client_outcome r = Inr v) \<and>
         (\<exists>r. message_of_json (message_json (MResponse (response_failure (Some i) e))) = Some (MResponse r) \<and>
             rs_id r = Some i \<and> client_outcome r = Inl e)"
  using assms response_roundtrip [of "response_success i v"]
    response_roundtrip [of "response_failure (Some i) e"]
  by (auto simp: message_of_json_def response_success_def response_failure_def client_outcome_def)

theorem reply_roundtrip_witness:
  "\<exists>r. message_of_json (message_json (MResponse (response_success (IdNumber 1) JNull))) = Some (MResponse r) \<and>
       client_outcome r = Inr JNull"
  using reply_roundtrip [of "IdNumber 1" cancelled_error JNull]
  by (auto simp: wf_id_def cancelled_error_def)

end
