(* ===== verification/Permission_Broker.thy ===== *)
theory Permission_Broker
  imports Permission_Engine Rpc_Messages
begin

text \<open>
  \<open>crates/core/src/permissions/broker.rs\<close>: the table of prompts waiting for an answer. Several
  agents ask at once while clients answer, time runs out and runs are cancelled, so the broker is
  a step relation over its state. An ask goes through the stages of \<open>AgentPrompter::ask\<close>: its entry
  is registered, then the event is emitted, then it waits on its channel; once its reply is decided
  the guard \<open>Forget\<close> still has to remove the entry, and an answer may come in between.
\<close>

section \<open>State\<close>

datatype ask_stage =
    Emitting
  | Waiting
  | Leaving reply

record broker =
  bk_pending :: "string \<Rightarrow> string option"
  bk_channel :: "string \<Rightarrow> (permission_answer \<times> rule_spec option) option"
  bk_stage :: "string \<Rightarrow> ask_stage option"
  bk_asked :: "string set"
  bk_accepted :: "(string \<times> permission_answer \<times> rule_spec option) list"
  bk_replies :: "(string \<times> reply) list"
  bk_sessions :: "string \<Rightarrow> session_rules option"

definition broker_new :: broker where
  "broker_new = \<lparr>bk_pending = Map.empty, bk_channel = Map.empty, bk_stage = Map.empty, bk_asked = {},
     bk_accepted = [], bk_replies = [], bk_sessions = Map.empty\<rparr>"

section \<open>Operations\<close>

definition broker_register :: "string \<Rightarrow> string \<Rightarrow> broker \<Rightarrow> broker" where
  "broker_register rid agent b =
     b\<lparr>bk_pending := (bk_pending b)(rid \<mapsto> agent), bk_stage := (bk_stage b)(rid \<mapsto> Emitting),
       bk_asked := insert rid (bk_asked b)\<rparr>"

definition broker_forget :: "string \<Rightarrow> broker \<Rightarrow> broker" where
  "broker_forget rid b = b\<lparr>bk_pending := (bk_pending b)(rid := None)\<rparr>"

text \<open>
  \<open>respond\<close>: the entry is taken out of the table and its sender used; when nobody receives any
  more the answer goes nowhere.
\<close>

definition broker_respond ::
  "string \<Rightarrow> permission_answer \<Rightarrow> rule_spec option \<Rightarrow> broker \<Rightarrow> (rpc_error + unit) \<times> broker" where
  "broker_respond rid answer rule b =
     (case bk_pending b rid of
        None \<Rightarrow>
          (Inl (not_found_error (''no permission request '' @ rid @ '' is waiting for an answer'')), b)
      | Some _ \<Rightarrow>
          (Inr (), (broker_forget rid b)\<lparr>bk_channel := (bk_channel b)(rid \<mapsto> (answer, rule)),
                     bk_accepted := bk_accepted b @ [(rid, answer, rule)]\<rparr>))"

text \<open>The remembered answers of a session, created on first use.\<close>

definition broker_session_rules :: "string \<Rightarrow> broker \<Rightarrow> session_rules \<times> broker" where
  "broker_session_rules sid b =
     (case bk_sessions b sid of
        Some rs \<Rightarrow> (rs, b)
      | None \<Rightarrow> ([], b\<lparr>bk_sessions := (bk_sessions b)(sid \<mapsto> [])\<rparr>))"

definition broker_forget_session :: "string \<Rightarrow> broker \<Rightarrow> broker" where
  "broker_forget_session sid b = b\<lparr>bk_sessions := (bk_sessions b)(sid := None)\<rparr>"

text \<open>The stages of an ask: what the sink says, what the channel holds, the guard's drop.\<close>

definition ask_emitted :: "string \<Rightarrow> bool \<Rightarrow> broker \<Rightarrow> broker" where
  "ask_emitted rid listening b =
     b\<lparr>bk_stage := (bk_stage b)(rid \<mapsto> (if listening then Waiting else Leaving NoClient))\<rparr>"

definition ask_settle :: "string \<Rightarrow> broker \<Rightarrow> broker" where
  "ask_settle rid b =
     b\<lparr>bk_stage := (bk_stage b)(rid \<mapsto> Leaving (case bk_channel b rid of
         Some (answer, rule) \<Rightarrow> Answered answer rule
       | None \<Rightarrow> TimedOut))\<rparr>"

definition ask_finish :: "string \<Rightarrow> reply \<Rightarrow> broker \<Rightarrow> broker" where
  "ask_finish rid rep b =
     (broker_forget rid b)\<lparr>bk_stage := (bk_stage b)(rid := None), bk_replies := bk_replies b @ [(rid, rep)]\<rparr>"

definition ask_cancel :: "string \<Rightarrow> broker \<Rightarrow> broker" where
  "ask_cancel rid b = (broker_forget rid b)\<lparr>bk_stage := (bk_stage b)(rid := None)\<rparr>"

section \<open>Steps\<close>

text \<open>
  Request ids are generated and never used twice. A waiting ask settles when its channel holds an
  answer, or when its time is up (\<open>timeout\<close> polls the channel first).
\<close>

inductive broker_step :: "broker \<Rightarrow> broker \<Rightarrow> bool" where
  Register: "rid \<notin> bk_asked b \<Longrightarrow> broker_step b (broker_register rid agent b)"
| Emit: "bk_stage b rid = Some Emitting \<Longrightarrow> broker_step b (ask_emitted rid listening b)"
| Respond: "broker_step b (snd (broker_respond rid answer rule b))"
| Settle: "bk_stage b rid = Some Waiting \<Longrightarrow> broker_step b (ask_settle rid b)"
| Finish: "bk_stage b rid = Some (Leaving rep) \<Longrightarrow> broker_step b (ask_finish rid rep b)"
| Cancel: "bk_stage b rid = Some st \<Longrightarrow> broker_step b (ask_cancel rid b)"
| Session: "broker_step b (snd (broker_session_rules sid b))"
| ForgetSession: "broker_step b (broker_forget_session sid b)"

inductive_cases broker_stepE: "broker_step b b'"

inductive broker_reach :: "broker \<Rightarrow> broker \<Rightarrow> bool" where
  Here: "broker_reach b b"
| Then: "broker_reach b b' \<Longrightarrow> broker_step b' b'' \<Longrightarrow> broker_reach b b''"

section \<open>The invariant\<close>

definition broker_inv :: "broker \<Rightarrow> bool" where
  "broker_inv b \<longleftrightarrow>
     dom (bk_pending b) \<subseteq> dom (bk_stage b) \<and>
     dom (bk_stage b) \<subseteq> bk_asked b \<and>
     fst ` set (bk_replies b) \<subseteq> bk_asked b - dom (bk_stage b) \<and>
     distinct (map fst (bk_replies b)) \<and>
     fst ` set (bk_accepted b) \<subseteq> bk_asked b - dom (bk_pending b) \<and>
     distinct (map fst (bk_accepted b)) \<and>
     (\<forall>rid p. bk_channel b rid = Some p \<longrightarrow> (rid, p) \<in> set (bk_accepted b)) \<and>
     (\<forall>rid a r. bk_stage b rid = Some (Leaving (Answered a r)) \<longrightarrow> (rid, a, r) \<in> set (bk_accepted b)) \<and>
     (\<forall>rid a r. (rid, Answered a r) \<in> set (bk_replies b) \<longrightarrow> (rid, a, r) \<in> set (bk_accepted b))"

lemma broker_inv_new: "broker_inv broker_new"
  by (simp add: broker_inv_def broker_new_def)

lemma broker_inv_respond: "broker_inv b \<Longrightarrow> broker_inv (snd (broker_respond rid answer rule b))"
  by (cases "bk_pending b rid")
     (auto simp: broker_inv_def broker_respond_def broker_forget_def image_iff dom_def)

lemma broker_inv_finish:
  "broker_inv b \<Longrightarrow> bk_stage b rid = Some (Leaving rep) \<Longrightarrow> broker_inv (ask_finish rid rep b)"
  by (auto simp: broker_inv_def ask_finish_def broker_forget_def image_iff dom_def)

lemma broker_inv_settle:
  "broker_inv b \<Longrightarrow> bk_stage b rid = Some Waiting \<Longrightarrow> broker_inv (ask_settle rid b)"
  by (auto simp: broker_inv_def ask_settle_def split: option.splits)

lemma broker_inv_step: "broker_step b b' \<Longrightarrow> broker_inv b \<Longrightarrow> broker_inv b'"
proof (induction rule: broker_step.induct)
  case (Register rid b agent)
  then show ?case by (auto simp: broker_inv_def broker_register_def)
next
  case (Emit b rid listening)
  then show ?case by (auto simp: broker_inv_def ask_emitted_def)
next
  case (Cancel b rid st)
  then show ?case by (auto simp: broker_inv_def ask_cancel_def broker_forget_def)
next
  case (Session b sid)
  then show ?case by (auto simp: broker_inv_def broker_session_rules_def split: option.splits)
next
  case (ForgetSession b sid)
  then show ?case by (simp add: broker_inv_def broker_forget_session_def)
qed (simp_all add: broker_inv_respond broker_inv_finish broker_inv_settle)

lemma broker_inv_reach: "broker_reach b b' \<Longrightarrow> broker_inv b \<Longrightarrow> broker_inv b'"
  by (induction rule: broker_reach.induct) (auto intro: broker_inv_step)



text \<open>A prompt asked, emitted, answered, and its reply given.\<close>

definition demo_broker :: broker where
  "demo_broker =
     (let b1 = ask_emitted ''r1'' True (broker_register ''r1'' ''agent'' broker_new);
          b2 = snd (broker_respond ''r1'' AllowOnce None b1)
      in ask_finish ''r1'' (Answered AllowOnce None) (ask_settle ''r1'' b2))"

lemma demo_broker_reach: "broker_reach broker_new demo_broker"
proof -
  let ?b0 = "broker_register ''r1'' ''agent'' broker_new"
  let ?b1 = "ask_emitted ''r1'' True ?b0"
  let ?b2 = "snd (broker_respond ''r1'' AllowOnce None ?b1)"
  have "broker_reach broker_new ?b0"
    by (rule Then [OF Here Register]) (simp add: broker_new_def)
  then have "broker_reach broker_new ?b1"
    by (rule Then) (rule Emit, simp add: broker_register_def)
  then have "broker_reach broker_new ?b2" by (rule Then) (rule Respond)
  moreover have s2: "bk_stage ?b2 ''r1'' = Some Waiting" "bk_channel ?b2 ''r1'' = Some (AllowOnce, None)"
    by (simp_all add: broker_respond_def ask_emitted_def broker_register_def broker_forget_def)
  ultimately have "broker_reach broker_new (ask_settle ''r1'' ?b2)"
    by (blast intro: Then Settle)
  then have "broker_reach broker_new (ask_finish ''r1'' (Answered AllowOnce None) (ask_settle ''r1'' ?b2))"
    by (rule Then) (rule Finish, simp add: ask_settle_def s2)
  then show ?thesis by (simp add: demo_broker_def Let_def)
qed


text \<open>An accepted answer that a waiting ask has not read yet stays the one it will read.\<close>

definition answer_due :: "string \<Rightarrow> permission_answer \<Rightarrow> rule_spec option \<Rightarrow> broker \<Rightarrow> bool" where
  "answer_due rid a r b \<longleftrightarrow>
     rid \<in> bk_asked b \<and> bk_pending b rid = None \<and> bk_channel b rid = Some (a, r) \<and>
     bk_stage b rid \<in> {Some Waiting, Some (Leaving (Answered a r)), None} \<and>
     (\<forall>rep. (rid, rep) \<in> set (bk_replies b) \<longrightarrow> rep = Answered a r)"

lemma answer_due_step: "broker_step b b' \<Longrightarrow> answer_due rid a r b \<Longrightarrow> answer_due rid a r b'"
proof (induction rule: broker_step.induct)
  case (Respond b rid' answer rule)
  then show ?case
    by (cases "bk_pending b rid'") (auto simp: answer_due_def broker_respond_def broker_forget_def)
next
  case (Session b sid)
  then show ?case by (auto simp: answer_due_def broker_session_rules_def split: option.splits)
qed (auto simp: answer_due_def broker_register_def ask_emitted_def ask_settle_def ask_finish_def
      ask_cancel_def broker_forget_def broker_forget_session_def)

lemma answer_due_reach: "broker_reach b b' \<Longrightarrow> answer_due rid a r b \<Longrightarrow> answer_due rid a r b'"
  by (induction rule: broker_reach.induct) (auto intro: answer_due_step)

text \<open>
  The first answer wins: once \<open>respond\<close> has accepted an answer to a prompt whose ask is still
  waiting, the only reply that ask can ever give is that answer, however late it is scheduled and
  whatever is sent afterwards (unless it is cancelled and replies nothing).
\<close>

theorem accepted_answer_delivered:
  assumes "broker_reach broker_new b" and "bk_stage b rid = Some Waiting"
    and "broker_respond rid a r b = (Inr (), b1)" and "broker_reach b1 b2"
    and "(rid, rep) \<in> set (bk_replies b2)"
  shows "rep = Answered a r"
proof -
  have inv: "broker_inv b" using broker_inv_reach [OF assms(1) broker_inv_new] .
  have "rid \<notin> fst ` set (bk_replies b)" "rid \<in> bk_asked b"
    using inv assms(2) unfolding broker_inv_def by blast+
  moreover from assms(3) have "b1 = (broker_forget rid b)\<lparr>bk_channel := (bk_channel b)(rid \<mapsto> (a, r)),
                     bk_accepted := bk_accepted b @ [(rid, a, r)]\<rparr>"
    by (auto simp: broker_respond_def split: option.splits)
  ultimately have "answer_due rid a r b1"
    using assms(2) by (force simp: answer_due_def broker_forget_def)
  from answer_due_reach [OF assms(4) this] assms(5) show ?thesis by (simp add: answer_due_def)
qed

theorem accepted_answer_delivered_witness:
  "\<exists>b b1 b2. broker_reach broker_new b \<and> broker_respond ''r1'' AllowOnce None b = (Inr (), b1) \<and>
     broker_reach b1 b2 \<and> bk_replies b2 = [(''r1'', Answered AllowOnce None)]"
proof -
  let ?b0 = "broker_register ''r1'' ''agent'' broker_new"
  let ?b1 = "ask_emitted ''r1'' True ?b0"
  let ?b2 = "snd (broker_respond ''r1'' AllowOnce None ?b1)"
  let ?b3 = "ask_settle ''r1'' ?b2"
  have reach: "broker_reach broker_new ?b1"
    by (rule Then [OF Then [OF Here Register] Emit]) (simp_all add: broker_new_def broker_register_def)
  have w: "bk_stage ?b1 ''r1'' = Some Waiting" "bk_stage ?b2 ''r1'' = Some Waiting"
    and acc: "broker_respond ''r1'' AllowOnce None ?b1 = (Inr (), ?b2)"
    by (simp_all add: broker_respond_def ask_emitted_def broker_register_def broker_forget_def)
  obtain rep where rep: "bk_stage ?b3 ''r1'' = Some (Leaving rep)" by (simp add: ask_settle_def)
  have r3: "broker_reach ?b2 (ask_finish ''r1'' rep ?b3)"
    by (rule Then [OF Then [OF Here Settle [OF w(2)]] Finish [OF rep]])
  have reps: "bk_replies (ask_finish ''r1'' rep ?b3) = [(''r1'', rep)]"
    by (simp add: ask_finish_def ask_settle_def broker_respond_def ask_emitted_def broker_register_def
        broker_forget_def broker_new_def)
  from accepted_answer_delivered [OF reach w(1) acc r3] reps have "rep = Answered AllowOnce None" by simp
  with reach acc r3 reps show ?thesis by blast
qed

text \<open>
  An answer accepted between the moment the time ran out and the removal of the entry is lost: the
  client is told it was taken, the call is denied for lack of one.
\<close>

lemma late_answer_lost:
  "\<exists>b. broker_reach broker_new b \<and> (''r1'', AllowOnce, None) \<in> set (bk_accepted b) \<and>
       bk_replies b = [(''r1'', TimedOut)]"
proof -
  let ?b0 = "broker_register ''r1'' ''agent'' broker_new"
  let ?b1 = "ask_settle ''r1'' (ask_emitted ''r1'' True ?b0)"
  let ?b2 = "snd (broker_respond ''r1'' AllowOnce None ?b1)"
  let ?b3 = "ask_finish ''r1'' TimedOut ?b2"
  have "broker_reach broker_new ?b1"
    by (rule Then [OF Then [OF Then [OF Here Register] Emit] Settle])
       (simp_all add: broker_new_def broker_register_def ask_emitted_def)
  then have "broker_reach broker_new ?b2" by (rule Then) (rule Respond)
  then have "broker_reach broker_new ?b3"
    by (rule Then)
       (rule Finish, simp add: broker_respond_def ask_settle_def ask_emitted_def broker_register_def
          broker_forget_def broker_new_def)
  moreover have "(''r1'', AllowOnce, None) \<in> set (bk_accepted ?b3)" "bk_replies ?b3 = [(''r1'', TimedOut)]"
    by (simp_all add: ask_finish_def broker_respond_def ask_settle_def ask_emitted_def broker_register_def
        broker_forget_def broker_new_def)
  ultimately show ?thesis by blast
qed

text \<open>A reply is given only by an ask that leaves, one at a time, and never taken back.\<close>

lemma replies_step:
  assumes "broker_step b b'"
  shows "bk_replies b' = bk_replies b \<or>
    (\<exists>rid rep. bk_stage b rid = Some (Leaving rep) \<and> bk_replies b' = bk_replies b @ [(rid, rep)])"
  using assms
  by (cases rule: broker_stepE)
     (auto simp: broker_register_def ask_emitted_def broker_respond_def ask_settle_def ask_finish_def
       ask_cancel_def broker_forget_def broker_session_rules_def broker_forget_session_def split: option.splits)

text \<open>An ask can always come to its end, whatever the others are doing.\<close>

lemma ask_can_finish:
  assumes "bk_stage b rid = Some st"
  shows "\<exists>b' rep. broker_reach b b' \<and> (rid, rep) \<in> set (bk_replies b') \<and> bk_pending b' rid = None"
proof -
  have fin: "\<exists>b' rep. broker_reach b b' \<and> (rid, rep) \<in> set (bk_replies b') \<and> bk_pending b' rid = None"
    if "broker_reach b c" "bk_stage c rid = Some (Leaving rep)" for c rep
    using Then [OF that(1) Finish [OF that(2)]]
    by (intro exI [of _ "ask_finish rid rep c"] exI [of _ rep]) (simp add: ask_finish_def broker_forget_def)
  show ?thesis
  proof (cases st)
    case Emitting
    with assms show ?thesis
      by (intro fin [OF Then [OF Here Emit [of b rid False]], of NoClient]) (simp_all add: ask_emitted_def)
  next
    case Waiting
    with assms show ?thesis
      by (intro fin [OF Then [OF Here Settle [of b rid]]]) (auto simp: ask_settle_def)
  next
    case (Leaving rep)
    with assms fin [OF Here] show ?thesis by blast
  qed
qed

end
