(* ===== verification/Rpc_Codec.thy ===== *)
theory Rpc_Codec
  imports Rpc_Messages
begin

text \<open>
  \<open>crates/api/src/codec.rs\<close>: newline-delimited framing with a limit on the line length, read from
  a stream that delivers its bytes in chunks (what \<open>fill_buf\<close> returns, one after the other), and
  the read side of the connection loops of \<open>crates/api/src/server.rs\<close> and
  \<open>crates/client/src/lib.rs\<close>. The limit is a parameter; \<open>max_line_bytes\<close> is the one in the code.
\<close>

datatype frame =
    Line string
  | TooLong nat
  | Eof

definition max_line_bytes :: nat where
  "max_line_bytes = 64 * 1024 * 1024"

abbreviation newline :: char where
  "newline \<equiv> CHR 0x0A"

section \<open>Reading one frame\<close>

text \<open>The local variables of \<open>read_frame\<close>, which live as long as its future.\<close>

record read_state =
  rd_buf :: string
  rd_discarding :: bool
  rd_discarded :: nat

definition read_start :: read_state where
  "read_start = \<lparr>rd_buf = [], rd_discarding = False, rd_discarded = 0\<rparr>"

text \<open>What is returned at the end of the stream.\<close>

definition eof_frame :: "read_state \<Rightarrow> frame" where
  "eof_frame st =
     (if rd_discarding st then TooLong (rd_discarded st)
      else if rd_buf st = [] then Eof
      else Line (rd_buf st))"

text \<open>
  One turn of the loop on a non-empty buffer: the frame if the line ended, the variables, and the
  bytes not consumed.
\<close>

definition read_chunk :: "nat \<Rightarrow> read_state \<Rightarrow> string \<Rightarrow> frame option \<times> read_state \<times> string" where
  "read_chunk limit st available =
     (let chunk = takeWhile (\<lambda>b. b \<noteq> newline) available;
          fin = (length chunk < length available);
          st' = (if rd_discarding st then st\<lparr>rd_discarded := rd_discarded st + length chunk\<rparr>
                 else if limit < length (rd_buf st) + length chunk
                 then \<lparr>rd_buf = [], rd_discarding = True, rd_discarded = length (rd_buf st) + length chunk\<rparr>
                 else st\<lparr>rd_buf := rd_buf st @ chunk\<rparr>);
          rest = drop (length chunk + (if fin then 1 else 0)) available
      in (if fin then Some (if rd_discarding st' then TooLong (rd_discarded st')
                            else Line (strip_cr (rd_buf st')))
          else None, st', rest))"

text \<open>What is left in the reader once the head buffer has been consumed up to \<open>rest\<close>.\<close>

definition unread :: "string \<Rightarrow> string list \<Rightarrow> string list" where
  "unread rest cs = (if rest = [] then cs else rest # cs)"

fun read_frame :: "nat \<Rightarrow> read_state \<Rightarrow> string list \<Rightarrow> frame \<times> string list" where
  "read_frame limit st [] = (eof_frame st, [])"
| "read_frame limit st (c # cs) =
     (if c = [] then (eof_frame st, cs)
      else case read_chunk limit st c of
        (Some f, _, rest) \<Rightarrow> (f, unread rest cs)
      | (None, st', _) \<Rightarrow> read_frame limit st' cs)"

text \<open>\<open>write_message\<close>: the text of the message and a newline; \<open>print\<close> is \<open>serde_json::to_vec\<close>.\<close>

definition write_message :: "(json \<Rightarrow> string) \<Rightarrow> message \<Rightarrow> string" where
  "write_message print m = print (message_json m) @ [newline]"

section \<open>Reading a connection\<close>

lemma size_unread: "sum_list (map length (unread rest cs)) = length rest + sum_list (map length cs)"
  by (simp add: unread_def)

lemma read_chunk_rest:
  assumes "read_chunk limit st c = (f, st', rest)"
  shows "rest = (if f = None then [] else tl (dropWhile (\<lambda>b. b \<noteq> newline) c))"
proof -
  let ?w = "takeWhile (\<lambda>b. b \<noteq> newline) c"
  have d: "drop (length ?w) c = dropWhile (\<lambda>b. b \<noteq> newline) c"
    by (metis append_eq_conv_conj takeWhile_dropWhile_id)
  have "length ?w \<le> length c" by (rule length_takeWhile_le)
  moreover have "drop (Suc (length ?w)) c = tl (dropWhile (\<lambda>b. b \<noteq> newline) c)"
    by (metis d drop_Suc tl_drop)
  ultimately show ?thesis
    using assms by (auto simp: read_chunk_def Let_def split: if_splits)
qed

lemma read_frame_shrinks:
  "read_frame limit st cs = (f, cs') \<Longrightarrow>
     sum_list (map length cs') \<le> sum_list (map length cs) \<and>
     (f \<noteq> Eof \<longrightarrow> st = read_start \<longrightarrow> sum_list (map length cs') < sum_list (map length cs))"
proof (induction limit st cs rule: read_frame.induct)
  case (1 limit st)
  then show ?case by (auto simp: eof_frame_def read_start_def)
next
  case (2 limit st c cs)
  show ?case
  proof (cases "c = []")
    case True
    with 2 show ?thesis by (auto simp: eof_frame_def read_start_def)
  next
    case False
    obtain g st' rest where r: "read_chunk limit st c = (g, st', rest)" by (cases "read_chunk limit st c")
    have "length rest < length c"
    proof -
      let ?d = "dropWhile (\<lambda>b. b \<noteq> newline) c"
      have "length rest \<le> length (tl ?d)" using read_chunk_rest [OF r] by (cases g) simp_all
      moreover have "length ?d \<le> length c" by (rule length_dropWhile_le)
      moreover have "0 < length c" using False by simp
      ultimately show ?thesis unfolding length_tl by linarith
    qed
    show ?thesis
    proof (cases g)
      case None
      with 2(2) False r have "read_frame limit st' cs = (f, cs')" by simp
      with 2(1) [OF False r [symmetric] None refl] have
        "sum_list (map length cs') \<le> sum_list (map length cs)" by blast
      moreover have "0 < length c" using False by simp
      ultimately show ?thesis unfolding list.map sum_list.Cons by linarith
    next
      case (Some x)
      with 2 False r \<open>length rest < length c\<close> show ?thesis
        by (auto simp: size_unread)
    qed
  qed
qed

lemma read_frame_consumes:
  "(f, cs') = read_frame limit read_start cs \<Longrightarrow> f \<noteq> Eof \<Longrightarrow>
     sum_list (map length cs') < sum_list (map length cs)"
  by (metis read_frame_shrinks)

text \<open>
  The frames of a connection read to its end, one \<open>read_frame\<close> after the other: the reader task of
  the client.
\<close>

function read_all :: "nat \<Rightarrow> string list \<Rightarrow> frame list" where
  "read_all limit cs =
     (case read_frame limit read_start cs of
        (Eof, _) \<Rightarrow> []
      | (f, cs') \<Rightarrow> f # read_all limit cs')"
  by pat_completeness auto
termination
  by (relation "measure (\<lambda>(limit, cs). sum_list (map length cs))")
     (auto intro: read_frame_consumes)
declare read_all.simps [simp del]

section \<open>What the frames of a byte stream are\<close>

definition line_frame :: "nat \<Rightarrow> string \<Rightarrow> frame" where
  "line_frame limit l = (if limit < length l then TooLong (length l) else Line (strip_cr l))"

definition last_frame :: "nat \<Rightarrow> string \<Rightarrow> frame list" where
  "last_frame limit l =
     (if l = [] then [] else if limit < length l then [TooLong (length l)] else [Line l])"

text \<open>The stream is cut at the newlines; \<open>p\<close> is the part of the line already seen.\<close>

fun frames_of :: "nat \<Rightarrow> string \<Rightarrow> string \<Rightarrow> frame list" where
  "frames_of limit p [] = last_frame limit p"
| "frames_of limit p (b # s) =
     (if b = newline then line_frame limit p # frames_of limit [] s
      else frames_of limit (p @ [b]) s)"

text \<open>The variables of \<open>read_frame\<close> after the bytes \<open>p\<close> of a line.\<close>

definition read_of :: "nat \<Rightarrow> string \<Rightarrow> read_state" where
  "read_of limit p =
     (if limit < length p then \<lparr>rd_buf = [], rd_discarding = True, rd_discarded = length p\<rparr>
      else \<lparr>rd_buf = p, rd_discarding = False, rd_discarded = 0\<rparr>)"

lemma read_of_Nil [simp]: "read_of limit [] = read_start"
  by (simp add: read_of_def read_start_def)

lemma read_chunk_open:
  assumes "newline \<notin> set c"
  shows "read_chunk limit (read_of limit p) c = (None, read_of limit (p @ c), [])"
proof -
  have tw: "takeWhile (\<lambda>b. b \<noteq> newline) c = c" using assms by auto
  show ?thesis by (simp add: read_chunk_def read_of_def Let_def tw)
qed

lemma read_chunk_line:
  assumes "newline \<notin> set a"
  shows "\<exists>st. read_chunk limit (read_of limit p) (a @ newline # s) = (Some (line_frame limit (p @ a)), st, s)"
proof -
  have "takeWhile (\<lambda>b. b \<noteq> newline) (a @ newline # s) = a"
    using assms by (subst takeWhile_append2) auto
  then show ?thesis by (auto simp: read_chunk_def read_of_def line_frame_def Let_def)
qed

lemma eof_frame_read_of:
  "eof_frame (read_of limit p) = Eof \<longleftrightarrow> p = []"
  "p \<noteq> [] \<Longrightarrow> last_frame limit p = [eof_frame (read_of limit p)]"
  by (auto simp: eof_frame_def read_of_def last_frame_def)

lemma frames_of_open: "newline \<notin> set a \<Longrightarrow> frames_of limit p (a @ s) = frames_of limit (p @ a) s"
  by (induction a arbitrary: p) auto


lemma no_newline_takeWhile: "newline \<notin> set (takeWhile (\<lambda>b. b \<noteq> newline) c)"
  by (metis set_takeWhileD)

text \<open>A buffer either continues the line or ends it and starts what follows.\<close>

lemma chunk_cases:
  obtains (more) "newline \<notin> set c"
  | (ends) a s where "newline \<notin> set a" "c = a @ newline # s"
  by (metis split_list_first)

lemma read_frame_line:
  assumes "[] \<notin> set cs"
  shows "(newline \<notin> set (concat cs) \<longrightarrow>
            read_frame limit (read_of limit p) cs = (eof_frame (read_of limit (p @ concat cs)), [])) \<and>
         (\<forall>a s. newline \<notin> set a \<longrightarrow> concat cs = a @ newline # s \<longrightarrow>
            (\<exists>cs'. read_frame limit (read_of limit p) cs = (line_frame limit (p @ a), cs') \<and>
                   concat cs' = s \<and> [] \<notin> set cs'))"
  using assms
proof (induction cs arbitrary: p)
  case Nil
  then show ?case by simp
next
  case (Cons c cs)
  then have c: "c \<noteq> []" and cs: "[] \<notin> set cs" by auto
  show ?case
  proof (cases c rule: chunk_cases)
    case more
    then have rc: "read_frame limit (read_of limit p) (c # cs) = read_frame limit (read_of limit (p @ c)) cs"
      using c by (simp add: read_chunk_open)
    show ?thesis
    proof (intro conjI allI impI)
      assume "newline \<notin> set (concat (c # cs))"
      with Cons.IH [OF cs, of "p @ c"] rc
      show "read_frame limit (read_of limit p) (c # cs) =
          (eof_frame (read_of limit (p @ concat (c # cs))), [])" by simp
    next
      fix a s assume a: "newline \<notin> set a" "concat (c # cs) = a @ newline # s"
      with more obtain a' where a': "a = c @ a'" "concat cs = a' @ newline # s"
        by (auto simp: append_eq_append_conv2 append_eq_Cons_conv)
      with a Cons.IH [OF cs, of "p @ c"] rc
      show "\<exists>cs'. read_frame limit (read_of limit p) (c # cs) = (line_frame limit (p @ a), cs') \<and>
              concat cs' = s \<and> [] \<notin> set cs'" by auto
    qed
  next
    case (ends a s)
    then obtain st where "read_chunk limit (read_of limit p) c = (Some (line_frame limit (p @ a)), st, s)"
      using read_chunk_line by blast
    then have rc: "read_frame limit (read_of limit p) (c # cs) = (line_frame limit (p @ a), unread s cs)"
      using c by simp
    have un: "concat (unread s cs) = s @ concat cs" "[] \<notin> set (unread s cs)"
      using cs by (auto simp: unread_def)
    show ?thesis
    proof (intro conjI allI impI)
      assume "newline \<notin> set (concat (c # cs))"
      with ends show "read_frame limit (read_of limit p) (c # cs) =
          (eof_frame (read_of limit (p @ concat (c # cs))), [])" by simp
    next
      fix a2 s2 assume a2: "newline \<notin> set a2" "concat (c # cs) = a2 @ newline # s2"
      with ends have "a2 = a \<and> s2 = s @ concat cs"
        by (auto simp: append_eq_append_conv2 append_eq_Cons_conv Cons_eq_append_conv)
      with rc un show "\<exists>cs'. read_frame limit (read_of limit p) (c # cs) = (line_frame limit (p @ a2), cs') \<and>
              concat cs' = s2 \<and> [] \<notin> set cs'" by auto
    qed
  qed
qed


lemma line_frame_not_Eof [simp]: "line_frame limit l \<noteq> Eof"
  by (simp add: line_frame_def)

lemma frames_of_line: "newline \<notin> set a \<Longrightarrow>
     frames_of limit p (a @ newline # s) = line_frame limit (p @ a) # frames_of limit [] s"
  by (simp add: frames_of_open)

lemma frames_of_end: "newline \<notin> set a \<Longrightarrow> frames_of limit p a = last_frame limit (p @ a)"
  using frames_of_open [of a limit p "[]"] by simp

lemma read_all_frames: "[] \<notin> set cs \<Longrightarrow> read_all limit cs = frames_of limit [] (concat cs)"
proof (induction "length (concat cs)" arbitrary: cs rule: less_induct)
  case less
  show ?case
  proof (cases "concat cs" rule: chunk_cases)
    case more
    with read_frame_line [OF less.prems, where limit = limit and p = "[]"]
    have rf: "read_frame limit read_start cs = (eof_frame (read_of limit (concat cs)), [])" by simp
    show ?thesis
    proof (cases "concat cs = []")
      case True
      with rf show ?thesis
        by (simp add: read_all.simps [of limit cs] eof_frame_def read_start_def last_frame_def del: concat_eq_Nil_conv)
    next
      case False
      have "read_all limit [] = []" by (simp add: read_all.simps eof_frame_def read_start_def)
      with rf False more eof_frame_read_of [where limit = limit and p = "concat cs"] show ?thesis
        by (simp add: read_all.simps [of limit cs] frames_of_end del: concat_eq_Nil_conv split: frame.splits)
    qed
  next
    case (ends a s)
    with read_frame_line [OF less.prems, where limit = limit and p = "[]"] obtain cs' where
      cs': "read_frame limit read_start cs = (line_frame limit a, cs')" "concat cs' = s" "[] \<notin> set cs'"
      by auto
    with ends less.hyps [of cs'] have "read_all limit cs' = frames_of limit [] s" by simp
    with cs'(1) ends show ?thesis
      by (simp add: read_all.simps [of limit cs] frames_of_line split: frame.splits)
  qed
qed

text \<open>
  C26: Framing does not depend on how the bytes arrive: whatever the buffers a connection is read
  in, the frames are those of the byte stream cut at its newlines, each line whole and without
  its carriage return when it fits the limit, otherwise reported once with its true length, after
  which reading is in step again.
\<close>

theorem read_all_chunking:
  assumes "[] \<notin> set cs" and "[] \<notin> set ds" and "concat cs = concat ds"
  shows "read_all limit cs = frames_of limit [] (concat cs) \<and> read_all limit cs = read_all limit ds"
  using assms by (simp add: read_all_frames)

theorem read_all_chunking_witness:
  "read_all 4 [''on'', ''e'' @ [CHR 0x0D, newline] @ ''lon'', ''gline'', newline # ''end''] =
     [Line ''one'', TooLong 8, Line ''end'']"
proof -
  let ?cs = "[''on'', ''e'' @ [CHR 0x0D, newline] @ ''lon'', ''gline'', newline # ''end'']"
  have "read_all 4 ?cs = frames_of 4 [] (concat ?cs)"
    using read_all_chunking [of ?cs "[concat ?cs]" 4] by simp
  also have "\<dots> = [Line ''one'', TooLong 8, Line ''end'']" by code_simp
  finally show ?thesis .
qed

text \<open>A text the framing carries unchanged.\<close>

definition plain_line :: "nat \<Rightarrow> string \<Rightarrow> bool" where
  "plain_line limit l \<longleftrightarrow> newline \<notin> set l \<and> length l \<le> limit \<and> strip_cr l = l"

lemma frames_of_written:
  "\<forall>m\<in>set ms. plain_line limit (print (message_json m)) \<Longrightarrow>
     frames_of limit [] (concat (map (write_message print) ms)) = map (\<lambda>m. Line (print (message_json m))) ms"
  by (induction ms)
     (auto simp: write_message_def plain_line_def frames_of_line line_frame_def last_frame_def)

text \<open>
  What is written is read: messages written one after the other, whose texts hold no newline,
  do not end in a carriage return and fit the limit, come out of the reader at the other end as
  exactly these lines in this order, however the transport cuts the bytes.
\<close>

theorem written_messages_read:
  assumes "\<forall>m\<in>set ms. plain_line limit (print (message_json m))"
    and "[] \<notin> set cs" and "concat cs = concat (map (write_message print) ms)"
  shows "read_all limit cs = map (\<lambda>m. Line (print (message_json m))) ms"
  using assms by (simp add: read_all_frames frames_of_written)

theorem written_messages_read_witness:
  "read_all max_line_bytes [''{'', ''}'' @ [newline]] = [Line ''{}'']"
  using written_messages_read [of "[message_notification ''event'' None]" max_line_bytes "\<lambda>_. ''{}''"
      "[''{'', ''}'' @ [newline]]"]
  by (simp add: plain_line_def max_line_bytes_def strip_cr_def write_message_def)

section \<open>The connection loop of the server\<close>

text \<open>
  \<open>serve_with_shutdown\<close> reads frames inside \<open>tokio::select!\<close>, next to the completion of a running
  handler: when a handler finishes first, the \<open>read_frame\<close> future is dropped and the next turn
  starts another one with fresh variables, while the reader keeps what was not consumed. Here is
  the loop over what happens on the connection, in order.
\<close>

datatype read_event =
    Arrived string
  | HandlerDone

fun read_event_size :: "read_event \<Rightarrow> nat" where
  "read_event_size (Arrived c) = Suc (length c)"
| "read_event_size HandlerDone = 1"

lemma read_chunk_smaller:
  assumes "(Some f, st', rest) = read_chunk limit st c"
  shows "length rest < length c"
proof -
  have "rest = tl (dropWhile (\<lambda>b. b \<noteq> newline) c)"
    using read_chunk_rest [OF assms [symmetric]] by simp
  moreover have "newline \<in> set c"
  proof (rule ccontr)
    assume "newline \<notin> set c"
    then have tw: "takeWhile (\<lambda>b. b \<noteq> newline) c = c" by auto
    from assms show False by (simp add: read_chunk_def Let_def tw)
  qed
  moreover have "length (dropWhile (\<lambda>b. b \<noteq> newline) c) \<le> length c" by (rule length_dropWhile_le)
  ultimately show ?thesis by (cases c) auto
qed

function serve_frames :: "nat \<Rightarrow> read_state \<Rightarrow> read_event list \<Rightarrow> frame list" where
  "serve_frames limit st [] = (case eof_frame st of Eof \<Rightarrow> [] | f \<Rightarrow> [f])"
| "serve_frames limit st (HandlerDone # es) = serve_frames limit read_start es"
| "serve_frames limit st (Arrived c # es) =
     (if c = [] then serve_frames limit st []
      else case read_chunk limit st c of
        (Some f, _, rest) \<Rightarrow>
          f # serve_frames limit read_start (if rest = [] then es else Arrived rest # es)
      | (None, st', _) \<Rightarrow> serve_frames limit st' es)"
  by pat_completeness auto
termination
  by (relation "measure (\<lambda>(_, _, es). sum_list (map read_event_size es))")
     (auto dest: read_chunk_smaller)

fun arrived :: "read_event list \<Rightarrow> string" where
  "arrived [] = []"
| "arrived (Arrived c # es) = c @ arrived es"
| "arrived (HandlerDone # es) = arrived es"


text \<open>No handler finishes while a line has been read in part (\<open>inside\<close>).\<close>

fun undisturbed :: "bool \<Rightarrow> read_event list \<Rightarrow> bool" where
  "undisturbed inside [] \<longleftrightarrow> True"
| "undisturbed inside (HandlerDone # es) \<longleftrightarrow> \<not> inside \<and> undisturbed inside es"
| "undisturbed inside (Arrived c # es) \<longleftrightarrow> c \<noteq> [] \<and> undisturbed (last c \<noteq> newline) es"

lemma serve_frames_undisturbed:
  "undisturbed (p \<noteq> []) es \<Longrightarrow> newline \<notin> set p \<Longrightarrow>
     serve_frames limit (read_of limit p) es = frames_of limit p (arrived es)"
proof (induction "sum_list (map read_event_size es)" arbitrary: p es rule: less_induct)
  case less
  show ?case
  proof (cases es)
    case Nil
    then show ?thesis
      by (cases "p = []")
         (auto simp: eof_frame_read_of last_frame_def eof_frame_def read_start_def read_of_def split: frame.splits)
  next
    case (Cons e es')
    show ?thesis
    proof (cases e)
      case HandlerDone
      with Cons less.prems(1) have "p = []" and "undisturbed False es'" by auto
      with Cons HandlerDone less.hyps [of es' "[]"] show ?thesis by simp
    next
      case (Arrived c)
      with Cons less.prems have c: "c \<noteq> []" "undisturbed (last c \<noteq> newline) es'" by auto
      show ?thesis
      proof (cases c rule: chunk_cases)
        case more
        with c have "last c \<noteq> newline" by (metis last_in_set)
        with c have u: "undisturbed (p @ c \<noteq> []) es'" by simp
        have "serve_frames limit (read_of limit (p @ c)) es' = frames_of limit (p @ c) (arrived es')"
          using less.hyps [of es', OF _ u] less.prems(2) more Cons Arrived by simp
        with Cons Arrived c more show ?thesis
          by (simp add: read_chunk_open frames_of_open)
      next
        case (ends a r)
        then obtain st where rc: "read_chunk limit (read_of limit p) c = (Some (line_frame limit (p @ a)), st, r)"
          using read_chunk_line by blast
        let ?es = "if r = [] then es' else Arrived r # es'"
        have size: "sum_list (map read_event_size ?es) < sum_list (map read_event_size es)"
          using Cons Arrived ends by auto
        have u: "undisturbed ([] \<noteq> ([] :: string)) ?es"
          using c ends by (cases "r = []") auto
        have "serve_frames limit (read_of limit []) ?es = frames_of limit [] (arrived ?es)"
          using less.hyps [OF size u] by simp
        moreover have "arrived ?es = r @ arrived es'" by simp
        ultimately show ?thesis
          using Cons Arrived c ends rc by (simp add: frames_of_line)
      qed
    qed
  qed
qed

text \<open>
  The server reads its requests whole as long as no handler finishes in the middle of one:
  then the frames of a connection are those of the bytes received, wherever the buffers are cut
  and whenever handlers finish between lines.
\<close>

theorem serve_frames_lossless:
  assumes "undisturbed False es"
  shows "serve_frames limit read_start es = frames_of limit [] (arrived es)"
  using serve_frames_undisturbed [of "[]" es limit] assms by simp

theorem serve_frames_lossless_witness:
  "serve_frames max_line_bytes read_start
     [Arrived ''on'', Arrived (''e'' @ [newline]), HandlerDone, Arrived (''two'' @ [newline])] =
   [Line ''one'', Line ''two'']"
  using serve_frames_lossless [of
    "[Arrived ''on'', Arrived (''e'' @ [newline]), HandlerDone, Arrived (''two'' @ [newline])]" max_line_bytes]
  by (simp add: line_frame_def last_frame_def max_line_bytes_def strip_cr_def)

text \<open>
  A handler that finishes in the middle of a line makes the loop forget what it had read of it:
  the request is lost and its tail is taken for a line of its own.
\<close>

lemma handler_done_loses_bytes:
  assumes "a \<noteq> []" and "newline \<notin> set a" and "newline \<notin> set b"
  shows "serve_frames limit read_start [Arrived a, HandlerDone, Arrived (b @ [newline])] = [line_frame limit b]"
proof -
  obtain st where rb: "read_chunk limit read_start (b @ [newline]) = (Some (line_frame limit b), st, [])"
    using read_chunk_line [OF assms(3), of limit "[]" "[]"] by auto
  have "read_chunk limit read_start a = (None, read_of limit a, [])"
    using read_chunk_open [OF assms(2), of limit "[]"] by simp
  then have "serve_frames limit read_start [Arrived a, HandlerDone, Arrived (b @ [newline])] =
      serve_frames limit read_start [Arrived (b @ [newline])]"
    using assms(1) by simp
  also have "\<dots> = [line_frame limit b]"
    by (simp add: rb) (simp add: eof_frame_def read_start_def)
  finally show ?thesis .
qed

end
