(* ===== verification/Rpc_Server.thy ===== *)
theory Rpc_Server
  imports Rpc_Codec "HOL-Library.Multiset"
begin

text \<open>
  \<open>crates/api/src/server.rs\<close>: one connection of the daemon. \<open>connection\<close> is the state a connection
  keeps (with the queue of messages sent to the peer and the handlers still running), \<open>conn_step\<close>
  what one event does to it: a frame read, a handler finishing, an event of an agent to forward,
  the shutdown signal. Handlers are other components: a running handler is a \<open>task\<close>, its outcome
  an input. \<open>wire_lib\<close> is \<open>serde_json\<close>'s parser and the text of its errors.
\<close>

section \<open>State\<close>

record router =
  rt_daemon_version :: string
  rt_pid :: nat
  rt_token :: "string option"
  rt_api_version :: nat
  rt_handlers :: "string list"

record wire_lib =
  wl_parse :: "string \<Rightarrow> string + json"
  wl_decode_error :: "string \<Rightarrow> json \<Rightarrow> string"

record task =
  tk_id :: rpc_id
  tk_method :: string
  tk_params :: json

record event_notification =
  en_subscription :: string
  en_seq :: nat
  en_event :: json

datatype conn_status = Serving | Draining | Closed

record connection =
  cn_status :: conn_status
  cn_authenticated :: bool
  cn_client :: "string option"
  cn_seqs :: "string \<Rightarrow> nat option"
  cn_unsent :: "event_notification list"
  cn_out :: "message list"
  cn_tasks :: "task list"
  cn_last_method :: "string option"

definition conn_new :: connection where
  "conn_new = \<lparr>cn_status = Serving, cn_authenticated = False, cn_client = None, cn_seqs = Map.empty,
     cn_unsent = [], cn_out = [], cn_tasks = [], cn_last_method = None\<rparr>"

section \<open>Registering\<close>

text \<open>Registering a method twice replaces its handler: the names stay distinct.\<close>

definition router_add :: "string \<Rightarrow> router \<Rightarrow> router" where
  "router_add name rt = rt\<lparr>rt_handlers := List.insert name (rt_handlers rt)\<rparr>"

definition router_has :: "string \<Rightarrow> router \<Rightarrow> bool" where
  "router_has name rt \<longleftrightarrow> name \<in> set (rt_handlers rt)"

section \<open>Sending\<close>

definition respond :: "response \<Rightarrow> connection \<Rightarrow> connection" where
  "respond r conn = conn\<lparr>cn_out := cn_out conn @ [MResponse r]\<rparr>"

text \<open>
  \<open>notify\<close> numbers the event under the lock of \<open>seqs\<close> and sends it afterwards: two steps, between
  which another task may number and send its own.
\<close>

definition event_params :: "string \<Rightarrow> json \<Rightarrow> connection \<Rightarrow> event_notification \<times> connection" where
  "event_params sub ev conn =
     (let seq = (case cn_seqs conn sub of None \<Rightarrow> 0 | Some n \<Rightarrow> n) + 1
      in (\<lparr>en_subscription = sub, en_seq = seq, en_event = ev\<rparr>,
          conn\<lparr>cn_seqs := (cn_seqs conn)(sub \<mapsto> seq)\<rparr>))"

definition event_message :: "event_notification \<Rightarrow> message" where
  "event_message n =
     message_notification ''event''
       (Some (jobj [(''subscription'', JStr (en_subscription n)), (''seq'', JInt (int (en_seq n))),
                    (''event'', en_event n)]))"

definition notify_begin :: "string \<Rightarrow> json \<Rightarrow> connection \<Rightarrow> connection" where
  "notify_begin sub ev conn =
     (case event_params sub ev conn of (n, conn') \<Rightarrow> conn'\<lparr>cn_unsent := cn_unsent conn' @ [n]\<rparr>)"

definition remove_at :: "nat \<Rightarrow> 'a list \<Rightarrow> 'a list" where
  "remove_at i xs = take i xs @ drop (Suc i) xs"

definition notify_send :: "nat \<Rightarrow> connection \<Rightarrow> connection" where
  "notify_send i conn =
     (if i < length (cn_unsent conn)
      then conn\<lparr>cn_out := cn_out conn @ [event_message (cn_unsent conn ! i)],
                cn_unsent := remove_at i (cn_unsent conn)\<rparr>
      else conn)"

section \<open>The handshake\<close>

record hello_params =
  hp_client :: string
  hp_client_version :: string
  hp_api_version :: nat
  hp_token :: "string option"

definition as_u32 :: "json \<Rightarrow> nat option" where
  "as_u32 v = (case v of JInt i \<Rightarrow> (if 0 \<le> i \<and> i < 2 ^ 32 then Some (nat i) else None) | _ \<Rightarrow> None)"

definition hello_of_json :: "json \<Rightarrow> hello_params option" where
  "hello_of_json v =
     Option.bind (struct_fields [''client'', ''client_version'', ''api_version'', ''token''] 3 v) (\<lambda>fs.
     Option.bind (Option.bind (map_of fs ''client'') as_str) (\<lambda>c.
     Option.bind (Option.bind (map_of fs ''client_version'') as_str) (\<lambda>cv.
     Option.bind (Option.bind (map_of fs ''api_version'') as_u32) (\<lambda>a.
     Option.bind (opt_field as_str (map_of fs ''token'')) (\<lambda>t.
       Some \<lparr>hp_client = c, hp_client_version = cv, hp_api_version = a, hp_token = t\<rparr>)))))"

record shutdown_params =
  sp_graceful :: bool
  sp_token :: "string option"

definition shutdown_of_json :: "json \<Rightarrow> shutdown_params option" where
  "shutdown_of_json v =
     Option.bind (struct_fields [''graceful'', ''token''] 0 v) (\<lambda>fs.
     Option.bind (case map_of fs ''graceful'' of None \<Rightarrow> Some True | Some g \<Rightarrow> as_bool g) (\<lambda>g.
     Option.bind (opt_field as_str (map_of fs ''token'')) (\<lambda>t.
       Some \<lparr>sp_graceful = g, sp_token = t\<rparr>)))"

definition hello_result :: "router \<Rightarrow> json" where
  "hello_result rt =
     jobj [(''daemon_version'', JStr (rt_daemon_version rt)),
           (''api_version'', JInt (int (rt_api_version rt))), (''pid'', JInt (int (rt_pid rt)))]"

definition hello :: "router \<Rightarrow> wire_lib \<Rightarrow> json \<Rightarrow> connection \<Rightarrow> (rpc_error + json) \<times> connection" where
  "hello rt lib params conn =
     (case hello_of_json params of
        None \<Rightarrow> (Inl (invalid_params (''daemon.hello: '' @ wl_decode_error lib ''HelloParams'' params)), conn)
      | Some p \<Rightarrow>
          if hp_api_version p \<noteq> rt_api_version rt
          then (Inl (incompatible_api (hp_api_version p) (rt_api_version rt)), conn)
          else if rt_token rt \<noteq> None \<and> hp_token p \<noteq> rt_token rt
          then (Inl (unauthorized ''invalid daemon token''), conn)
          else (Inr (hello_result rt),
                conn\<lparr>cn_client := Some (hp_client p @ '' '' @ hp_client_version p),
                     cn_authenticated := True\<rparr>))"

definition shutdown_token_ok :: "router \<Rightarrow> string \<Rightarrow> json \<Rightarrow> bool" where
  "shutdown_token_ok rt method params \<longleftrightarrow>
     method = ''daemon.shutdown'' \<and>
     (case rt_token rt of
        None \<Rightarrow> False
      | Some expected \<Rightarrow>
          (case shutdown_of_json params of
             None \<Rightarrow> False
           | Some p \<Rightarrow> sp_token p = Some expected))"

section \<open>Dispatching\<close>

definition normal_params :: "json option \<Rightarrow> json" where
  "normal_params p = (case p of None \<Rightarrow> JObj [] | Some JNull \<Rightarrow> JObj [] | Some v \<Rightarrow> v)"

definition response_for :: "rpc_id \<Rightarrow> rpc_error + json \<Rightarrow> response" where
  "response_for i r = (case r of Inr v \<Rightarrow> response_success i v | Inl e \<Rightarrow> response_failure (Some i) e)"

definition dispatch :: "router \<Rightarrow> wire_lib \<Rightarrow> request \<Rightarrow> connection \<Rightarrow> connection" where
  "dispatch rt lib req conn =
     (let i = rq_id req; method = rq_method req; params = normal_params (rq_params req) in
      if method = ''daemon.hello'' then
        (case hello rt lib params conn of (r, conn') \<Rightarrow> respond (response_for i r) conn')
      else if \<not> cn_authenticated conn \<and> \<not> shutdown_token_ok rt method params then
        respond (response_failure (Some i) (unauthorized ''send daemon.hello before any other method'')) conn
      else if \<not> router_has method rt then
        respond (response_failure (Some i) (method_not_found method)) conn
      else conn\<lparr>cn_last_method := Some method,
                cn_tasks := cn_tasks conn @ [\<lparr>tk_id = i, tk_method = method, tk_params = params\<rparr>]\<rparr>)"

text \<open>How a handler can end, and what is answered then.\<close>

datatype handler_outcome =
    Returned json
  | Failed rpc_error
  | Panicked
  | Aborted

definition task_response :: "task \<Rightarrow> handler_outcome \<Rightarrow> response" where
  "task_response t out =
     (case out of
        Returned v \<Rightarrow> response_success (tk_id t) v
      | Failed e \<Rightarrow> response_failure (Some (tk_id t)) e
      | Panicked \<Rightarrow> response_failure (Some (tk_id t))
          (internal_error (''handler for '' @ tk_method t @ '' panicked''))
      | Aborted \<Rightarrow> response_failure (Some (tk_id t)) cancelled_error)"

definition task_done :: "nat \<Rightarrow> handler_outcome \<Rightarrow> connection \<Rightarrow> connection" where
  "task_done i out conn =
     (if i < length (cn_tasks conn)
      then respond (task_response (cn_tasks conn ! i) out)
             (conn\<lparr>cn_tasks := remove_at i (cn_tasks conn)\<rparr>)
      else conn)"

section \<open>Lines\<close>

definition ascii_whitespace :: "char \<Rightarrow> bool" where
  "ascii_whitespace c \<longleftrightarrow> c \<in> {CHR '' '', CHR 0x09, CHR 0x0A, CHR 0x0C, CHR 0x0D}"

definition no_variant :: string where
  "no_variant = ''data did not match any variant of untagged enum Message''"

definition handle_line :: "router \<Rightarrow> wire_lib \<Rightarrow> string \<Rightarrow> connection \<Rightarrow> connection" where
  "handle_line rt lib l conn =
     (case dropWhile ascii_whitespace l of
        [] \<Rightarrow> conn
      | c # _ \<Rightarrow>
          if c = CHR ''['' then
            respond (response_failure None (invalid_request ''batch requests are not supported'')) conn
          else (case wl_parse lib l of
            Inl e \<Rightarrow> respond (response_failure None (parse_error e)) conn
          | Inr v \<Rightarrow>
              (case message_of_json v of
                 None \<Rightarrow> respond (response_failure None (parse_error no_variant)) conn
               | Some (MRequest r) \<Rightarrow> dispatch rt lib r conn
               | Some (MNotification _) \<Rightarrow> conn
               | Some (MResponse _) \<Rightarrow> conn)))"

definition too_long :: "nat \<Rightarrow> connection \<Rightarrow> connection" where
  "too_long n = respond (response_failure None
     (invalid_request (''line of '' @ show_nat n @ '' bytes exceeds the '' @ show_nat max_line_bytes
        @ '' byte limit'')))"

section \<open>The connection loop\<close>

datatype conn_input =
    InFrame frame
  | InDone nat handler_outcome
  | InEvent string json
  | InSend nat
  | InShutdown

text \<open>
  The end of the stream aborts the tasks that wait for their handlers; the shutdown signal stops
  the reading and lets them answer. Events are forwarded as long as somebody holds the connection.
\<close>

definition conn_step :: "router \<Rightarrow> wire_lib \<Rightarrow> conn_input \<Rightarrow> connection \<Rightarrow> connection" where
  "conn_step rt lib inp conn =
     (case inp of
        InFrame f \<Rightarrow>
          if cn_status conn \<noteq> Serving then conn
          else (case f of
            Line l \<Rightarrow> handle_line rt lib l conn
          | TooLong n \<Rightarrow> too_long n conn
          | Eof \<Rightarrow> conn\<lparr>cn_status := Closed, cn_tasks := []\<rparr>)
      | InDone i out \<Rightarrow> if cn_status conn = Closed then conn else task_done i out conn
      | InEvent sub ev \<Rightarrow> notify_begin sub ev conn
      | InSend i \<Rightarrow> notify_send i conn
      | InShutdown \<Rightarrow> if cn_status conn = Serving then conn\<lparr>cn_status := Draining\<rparr> else conn)"

definition conn_run :: "router \<Rightarrow> wire_lib \<Rightarrow> conn_input list \<Rightarrow> connection" where
  "conn_run rt lib ins = foldl (\<lambda>c i. conn_step rt lib i c) conn_new ins"


lemma conn_run_snoc: "conn_run rt lib (ins @ [i]) = conn_step rt lib i (conn_run rt lib ins)"
  by (simp add: conn_run_def)

lemma conn_run_Nil [simp]: "conn_run rt lib [] = conn_new"
  by (simp add: conn_run_def)

lemma respond_fields [simp]:
  "cn_tasks (respond r c) = cn_tasks c" "cn_authenticated (respond r c) = cn_authenticated c"
  "cn_status (respond r c) = cn_status c" "cn_seqs (respond r c) = cn_seqs c"
  "cn_unsent (respond r c) = cn_unsent c" "cn_out (respond r c) = cn_out c @ [MResponse r]"
  by (simp_all add: respond_def)

lemma notify_fields [simp]:
  "cn_tasks (notify_begin sub ev c) = cn_tasks c" "cn_tasks (notify_send i c) = cn_tasks c"
  "cn_authenticated (notify_begin sub ev c) = cn_authenticated c"
  "cn_authenticated (notify_send i c) = cn_authenticated c"
  "cn_status (notify_begin sub ev c) = cn_status c" "cn_status (notify_send i c) = cn_status c"
  "cn_out (notify_begin sub ev c) = cn_out c"
  by (simp_all add: notify_begin_def notify_send_def event_params_def Let_def)

lemma mset_remove_at:
  "i < length xs \<Longrightarrow> add_mset (xs ! i) (mset (remove_at i xs)) = mset xs"
  by (simp add: remove_at_def)
     (metis add_mset_add_single append_take_drop_id Cons_nth_drop_Suc mset.simps(2) mset_append union_mset_add_mset_right)

lemma set_remove_at: "set (remove_at i xs) \<subseteq> set xs"
  by (auto simp: remove_at_def dest: in_set_takeD in_set_dropD)

section \<open>Nothing before the handshake\<close>

text \<open>The request a line carries, if the connection loop reads one from it.\<close>

definition line_request :: "wire_lib \<Rightarrow> string \<Rightarrow> request option" where
  "line_request lib l =
     (case dropWhile ascii_whitespace l of
        [] \<Rightarrow> None
      | c # _ \<Rightarrow>
          if c = CHR ''['' then None
          else (case wl_parse lib l of
            Inl _ \<Rightarrow> None
          | Inr v \<Rightarrow> (case message_of_json v of Some (MRequest r) \<Rightarrow> Some r | _ \<Rightarrow> None)))"

definition task_of :: "request \<Rightarrow> task" where
  "task_of r = \<lparr>tk_id = rq_id r, tk_method = rq_method r, tk_params = normal_params (rq_params r)\<rparr>"

text \<open>A line that completes the handshake.\<close>

definition hello_line :: "router \<Rightarrow> wire_lib \<Rightarrow> string \<Rightarrow> bool" where
  "hello_line rt lib l \<longleftrightarrow>
     (\<exists>r p. line_request lib l = Some r \<and> rq_method r = ''daemon.hello'' \<and>
        hello_of_json (normal_params (rq_params r)) = Some p \<and> hp_api_version p = rt_api_version rt \<and>
        (rt_token rt = None \<or> hp_token p = rt_token rt))"

text \<open>What a line can change: it completes the handshake, starts one task, or only answers.\<close>

lemma handle_line_disj:
  "(\<exists>r. line_request lib l = Some r \<and> handle_line rt lib l c = dispatch rt lib r c) \<or>
   line_request lib l = None \<and> handle_line rt lib l c = c \<or>
   line_request lib l = None \<and> (\<exists>e. handle_line rt lib l c = respond (response_failure None e) c)"
proof (cases "dropWhile ascii_whitespace l")
  case Nil
  show ?thesis unfolding line_request_def handle_line_def Nil by simp
next
  case (Cons ch rest)
  note eqs = Cons line_request_def handle_line_def
  show ?thesis
  proof (cases "ch = CHR ''[''")
    case True
    then show ?thesis unfolding eqs by auto
  next
    case False
    show ?thesis
    proof (cases "wl_parse lib l")
      case (Inl e)
      with False show ?thesis unfolding eqs by auto
    next
      case (Inr v)
      note eqs = eqs Inr
      show ?thesis
      proof (cases "message_of_json v")
        case None
        with False show ?thesis unfolding eqs by auto
      next
        case (Some m)
        with False show ?thesis unfolding eqs by (cases m) simp_all
      qed
    qed
  qed
qed

lemma handle_line_cases:
  obtains (request) r where "line_request lib l = Some r" "handle_line rt lib l c = dispatch rt lib r c"
  | (other) rs where "line_request lib l = None"
      "handle_line rt lib l c = c\<lparr>cn_out := cn_out c @ map MResponse rs\<rparr>" "\<forall>r\<in>set rs. rs_id r = None"
proof -
  from handle_line_disj [of lib l rt c] consider
      (r) r where "line_request lib l = Some r" "handle_line rt lib l c = dispatch rt lib r c"
    | (n) "line_request lib l = None" "handle_line rt lib l c = c"
    | (f) e where "line_request lib l = None" "handle_line rt lib l c = respond (response_failure None e) c"
    by (elim disjE exE conjE)
  then show thesis
  proof cases
    case r
    then show thesis by (rule request)
  next
    case n
    then show thesis by (intro other [of "[]"]) simp_all
  next
    case (f e)
    then show thesis
      by (intro other [of "[response_failure None e]"]) (auto simp: respond_def response_failure_def)
  qed
qed

lemma hello_fields:
  "hello rt lib p c = (r, c') \<Longrightarrow>
     cn_tasks c' = cn_tasks c \<and> cn_status c' = cn_status c \<and> cn_out c' = cn_out c \<and>
     cn_seqs c' = cn_seqs c \<and> cn_unsent c' = cn_unsent c \<and>
     (cn_authenticated c' \<longrightarrow> cn_authenticated c \<or>
        (\<exists>hp. hello_of_json p = Some hp \<and> hp_api_version hp = rt_api_version rt \<and>
           (rt_token rt = None \<or> hp_token hp = rt_token rt)))"
  by (auto simp: hello_def split: option.splits if_splits)

lemma dispatch_cases:
  obtains (greet) r c' where "rq_method req = ''daemon.hello''"
      "hello rt lib (normal_params (rq_params req)) c = (r, c')"
      "dispatch rt lib req c = respond (response_for (rq_id req) r) c'"
  | (refused) e where "rq_method req \<noteq> ''daemon.hello''"
      "dispatch rt lib req c = respond (response_failure (Some (rq_id req)) e) c"
  | (spawned) "rq_method req \<noteq> ''daemon.hello''" "router_has (rq_method req) rt"
      "cn_authenticated c \<or> shutdown_token_ok rt (rq_method req) (normal_params (rq_params req))"
      "dispatch rt lib req c = c\<lparr>cn_last_method := Some (rq_method req), cn_tasks := cn_tasks c @ [task_of req]\<rparr>"
proof (cases "rq_method req = ''daemon.hello''")
  case True
  then show thesis
    by (cases "hello rt lib (normal_params (rq_params req)) c") (auto simp: dispatch_def intro: greet)
next
  case False
  then show thesis
    by (cases "\<not> cn_authenticated c \<and> \<not> shutdown_token_ok rt (rq_method req) (normal_params (rq_params req))";
        cases "router_has (rq_method req) rt")
       (auto simp: dispatch_def Let_def task_of_def intro: refused spawned)
qed


text \<open>What a step can do to the tasks and to the handshake.\<close>

lemma conn_step_tasks:
  assumes "t \<in> set (cn_tasks (conn_step rt lib i c))" and "t \<notin> set (cn_tasks c)"
  obtains l r where "i = InFrame (Line l)" "line_request lib l = Some r" "t = task_of r"
    "rq_method r \<noteq> ''daemon.hello''" "router_has (rq_method r) rt"
    "cn_authenticated c \<or> shutdown_token_ok rt (rq_method r) (normal_params (rq_params r))"
proof (cases "\<exists>l. i = InFrame (Line l) \<and> cn_status c = Serving")
  case True
  then obtain l where l: "i = InFrame (Line l)" "cn_status c = Serving" by blast
  then have t: "t \<in> set (cn_tasks (handle_line rt lib l c))" using assms(1) by (simp add: conn_step_def)
  show thesis
  proof (cases rule: handle_line_cases [of lib l rt c])
    case (request r)
    with t have t': "t \<in> set (cn_tasks (dispatch rt lib r c))" by simp
    show thesis
    proof (cases rule: dispatch_cases [of r rt lib c])
      case (greet rr c')
      with t' assms(2) hello_fields [OF greet(2)] show thesis by simp
    next
      case (refused e)
      with t' assms(2) show thesis by simp
    next
      case spawned
      with t' assms(2) have "t = task_of r" by simp
      with l request spawned that show thesis by blast
    qed
  next
    case (other rs)
    with t assms(2) show thesis by simp
  qed
next
  case False
  with assms have False
    using set_remove_at [of _ "cn_tasks c"]
    by (auto simp: conn_step_def task_done_def too_long_def split: conn_input.splits frame.splits if_splits)
  then show thesis ..
qed

lemma conn_step_authenticated:
  assumes "cn_authenticated (conn_step rt lib i c)" and "\<not> cn_authenticated c"
  shows "\<exists>l. i = InFrame (Line l) \<and> hello_line rt lib l"
proof (cases "\<exists>l. i = InFrame (Line l) \<and> cn_status c = Serving")
  case True
  then obtain l where l: "i = InFrame (Line l)" "cn_status c = Serving" by blast
  then have a: "cn_authenticated (handle_line rt lib l c)" using assms(1) by (simp add: conn_step_def)
  show ?thesis
  proof (cases rule: handle_line_cases [of lib l rt c])
    case (request r)
    with a have a': "cn_authenticated (dispatch rt lib r c)" by simp
    show ?thesis
    proof (cases rule: dispatch_cases [of r rt lib c])
      case (greet rr c')
      with a' assms(2) hello_fields [OF greet(2)] l request show ?thesis
        by (auto simp: hello_line_def)
    next
      case (refused e)
      with a' assms(2) show ?thesis by simp
    next
      case spawned
      with a' assms(2) show ?thesis by simp
    qed
  next
    case (other rs)
    with a assms(2) show ?thesis by simp
  qed
next
  case False
  with assms show ?thesis
    by (auto simp: conn_step_def task_done_def too_long_def split: conn_input.splits frame.splits if_splits)
qed

lemma authenticated_by_hello:
  "cn_authenticated (conn_run rt lib ins) \<Longrightarrow> \<exists>l. InFrame (Line l) \<in> set ins \<and> hello_line rt lib l"
proof (induction ins rule: rev_induct)
  case Nil
  then show ?case by (simp add: conn_new_def)
next
  case (snoc i ins)
  show ?case
  proof (cases "cn_authenticated (conn_run rt lib ins)")
    case True
    with snoc.IH show ?thesis by auto
  next
    case False
    with snoc.prems conn_step_authenticated show ?thesis by (fastforce simp: conn_run_snoc)
  qed
qed

text \<open>
  C27: No handler runs for a peer that has not proved itself: every running handler was started by
  a request read before, for a registered method, and either an earlier line of the same
  connection completed the handshake (right API version, and the daemon's token when one is
  configured), or the request is \<open>daemon.shutdown\<close> carrying that token.
\<close>

theorem no_handler_before_hello:
  assumes "t \<in> set (cn_tasks (conn_run rt lib ins))"
  shows "\<exists>pre l post r. ins = pre @ InFrame (Line l) # post \<and> line_request lib l = Some r \<and> t = task_of r \<and>
           router_has (rq_method r) rt \<and>
           ((\<exists>l'. InFrame (Line l') \<in> set pre \<and> hello_line rt lib l') \<or>
            shutdown_token_ok rt (rq_method r) (normal_params (rq_params r)))"
  using assms
proof (induction ins rule: rev_induct)
  case Nil
  then show ?case by (simp add: conn_new_def)
next
  case (snoc i ins)
  show ?case
  proof (cases "t \<in> set (cn_tasks (conn_run rt lib ins))")
    case True
    with snoc.IH show ?thesis by fastforce
  next
    case False
    with snoc.prems have "t \<in> set (cn_tasks (conn_step rt lib i (conn_run rt lib ins)))"
      by (simp add: conn_run_snoc)
    from this False obtain l r where "i = InFrame (Line l)" "line_request lib l = Some r" "t = task_of r"
        "router_has (rq_method r) rt"
        "cn_authenticated (conn_run rt lib ins) \<or> shutdown_token_ok rt (rq_method r) (normal_params (rq_params r))"
      by (rule conn_step_tasks)
    with authenticated_by_hello [of rt lib ins] show ?thesis
      by (intro exI [of _ ins] exI [of _ l] exI [of _ "[]"] exI [of _ r]) auto
  qed
qed


text \<open>A daemon with a token, and a parser that knows two lines.\<close>

definition demo_router :: router where
  "demo_router = \<lparr>rt_daemon_version = ''1'', rt_pid = 7, rt_token = Some ''s'', rt_api_version = 1,
     rt_handlers = [''daemon.status'', ''daemon.shutdown'']\<rparr>"

definition demo_hello :: json where
  "demo_hello = message_json (message_request (IdNumber 1) ''daemon.hello'' (Some (JObj
     [(''client'', JStr ''cli''), (''client_version'', JStr ''1''), (''api_version'', JInt 1),
      (''token'', JStr ''s'')])))"

definition demo_lib :: wire_lib where
  "demo_lib = \<lparr>wl_parse = (\<lambda>l. if l = ''h'' then Inr demo_hello
       else Inr (message_json (message_request (IdNumber 2) ''daemon.status'' None))),
     wl_decode_error = (\<lambda>_ _. ''bad params'')\<rparr>"

theorem no_handler_before_hello_witness:
  "\<exists>pre l post. [InFrame (Line ''x''), InFrame (Line ''h''), InFrame (Line ''x'')] = pre @ InFrame (Line l) # post \<and>
     (\<exists>l'. InFrame (Line l') \<in> set pre \<and> hello_line demo_router demo_lib l')"
proof -
  let ?ins = "[InFrame (Line ''x''), InFrame (Line ''h''), InFrame (Line ''x'')]"
  have "map tk_method (cn_tasks (conn_run demo_router demo_lib ?ins)) = [''daemon.status'']"
    by code_simp
  then obtain t where t: "t \<in> set (cn_tasks (conn_run demo_router demo_lib ?ins))" "tk_method t = ''daemon.status''"
    by (cases "cn_tasks (conn_run demo_router demo_lib ?ins)") auto
  have "\<not> shutdown_token_ok demo_router ''daemon.status'' p" for p
    by (simp add: shutdown_token_ok_def)
  moreover obtain pre l post r where r: "?ins = pre @ InFrame (Line l) # post" "t = task_of r"
      "(\<exists>l'. InFrame (Line l') \<in> set pre \<and> hello_line demo_router demo_lib l') \<or>
       shutdown_token_ok demo_router (rq_method r) (normal_params (rq_params r))"
    using no_handler_before_hello [OF t(1)] by blast
  moreover have "rq_method r = ''daemon.status''" using r(2) t(2) by (simp add: task_of_def)
  ultimately have "\<exists>l'. InFrame (Line l') \<in> set pre \<and> hello_line demo_router demo_lib l'" by auto
  with r(1) show ?thesis by blast
qed

section \<open>One answer per request\<close>

definition answered_ids :: "message list \<Rightarrow> rpc_id list" where
  "answered_ids out = concat (map (\<lambda>m. case m of
     MResponse r \<Rightarrow> (case rs_id r of Some i \<Rightarrow> [i] | None \<Rightarrow> []) | _ \<Rightarrow> []) out)"

definition request_ids :: "wire_lib \<Rightarrow> conn_input list \<Rightarrow> rpc_id list" where
  "request_ids lib ins = concat (map (\<lambda>i. case i of
     InFrame (Line l) \<Rightarrow> (case line_request lib l of Some r \<Rightarrow> [rq_id r] | None \<Rightarrow> []) | _ \<Rightarrow> []) ins)"

lemma answered_ids_simps [simp]:
  "answered_ids [] = []"
  "answered_ids (xs @ ys) = answered_ids xs @ answered_ids ys"
  "answered_ids [MResponse r] = (case rs_id r of Some i \<Rightarrow> [i] | None \<Rightarrow> [])"
  "answered_ids [event_message n] = []"
  by (simp_all add: answered_ids_def event_message_def message_notification_def)

lemma request_ids_simps [simp]:
  "request_ids lib [] = []"
  "request_ids lib (xs @ ys) = request_ids lib xs @ request_ids lib ys"
  by (simp_all add: request_ids_def)

lemma answered_ids_no_id: "\<forall>r\<in>set rs. rs_id r = None \<Longrightarrow> answered_ids (map MResponse rs) = []"
  by (simp add: answered_ids_def)

definition account :: "connection \<Rightarrow> rpc_id multiset" where
  "account c = mset (answered_ids (cn_out c)) + mset (map tk_id (cn_tasks c))"

lemma rs_id_simps [simp]:
  "rs_id (response_success i v) = Some i" "rs_id (response_failure j e) = j"
  "rs_id (response_for i r) = Some i" "rs_id (task_response t out) = Some (tk_id t)"
  by (simp_all add: response_success_def response_failure_def response_for_def task_response_def
      split: sum.splits handler_outcome.splits)

lemma account_dispatch: "account (dispatch rt lib r c) = add_mset (rq_id r) (account c)"
proof (cases rule: dispatch_cases [of r rt lib c])
  case (greet rr c')
  with hello_fields [OF greet(2)] show ?thesis by (simp add: account_def)
next
  case (refused e)
  then show ?thesis by (simp add: account_def)
next
  case spawned
  then show ?thesis by (simp add: account_def task_of_def)
qed

lemma account_line:
  "account (handle_line rt lib l c) = account c + mset (request_ids lib [InFrame (Line l)])"
proof (cases rule: handle_line_cases [of lib l rt c])
  case (request r)
  then show ?thesis by (simp add: account_dispatch request_ids_def)
next
  case (other rs)
  then show ?thesis by (simp add: account_def request_ids_def answered_ids_no_id)
qed

lemma account_task_done: "account (task_done i out c) = account c"
proof (cases "i < length (cn_tasks c)")
  case True
  have "image_mset tk_id (add_mset (cn_tasks c ! i) (mset (remove_at i (cn_tasks c)))) =
      image_mset tk_id (mset (cn_tasks c))"
    using mset_remove_at [OF True] by simp
  with True show ?thesis by (simp add: task_done_def account_def)
qed (simp add: task_done_def)

lemma account_notify [simp]:
  "account (notify_begin sub ev c) = account c" "account (notify_send i c) = account c"
  "account (too_long n c) = account c" "account (c\<lparr>cn_status := s\<rparr>) = account c"
  by (simp_all add: account_def notify_send_def too_long_def)

lemma status_step:
  "i \<noteq> InFrame Eof \<Longrightarrow> cn_status c \<noteq> Closed \<Longrightarrow>
     cn_status (conn_step rt lib i c) = (if i = InShutdown then Draining else cn_status c)"
proof -
  have d: "cn_status (dispatch rt lib r c) = cn_status c" for r
    by (cases rule: dispatch_cases [of r rt lib c]) (auto dest: hello_fields)
  have "cn_status (handle_line rt lib l c) = cn_status c" for l
    by (cases rule: handle_line_cases [of lib l rt c]) (auto simp: d)
  moreover assume "i \<noteq> InFrame Eof" "cn_status c \<noteq> Closed"
  ultimately show ?thesis
    by (cases "cn_status c") (auto simp: conn_step_def task_done_def too_long_def split: conn_input.splits frame.splits)
qed

lemma status_run:
  "InFrame Eof \<notin> set ins \<Longrightarrow>
     cn_status (conn_run rt lib ins) = (if InShutdown \<in> set ins then Draining else Serving)"
  by (induction ins rule: rev_induct) (auto simp: conn_run_snoc conn_new_def status_step)

text \<open>
  C18: Every request is answered exactly once: as long as the peer has not closed the connection,
  the ids answered together with those whose handler is still running are, with multiplicity, the
  ids of the requests read (all those that arrived before the shutdown signal), whatever the
  handlers do, in whatever order they finish and whatever other lines arrive.
\<close>

theorem one_answer_per_request:
  assumes "InFrame Eof \<notin> set ins"
  shows "mset (answered_ids (cn_out (conn_run rt lib ins))) + mset (map tk_id (cn_tasks (conn_run rt lib ins))) =
         mset (request_ids lib (takeWhile (\<lambda>i. i \<noteq> InShutdown) ins))"
proof -
  have "account (conn_run rt lib ins) = mset (request_ids lib (takeWhile (\<lambda>i. i \<noteq> InShutdown) ins))"
    using assms
  proof (induction ins rule: rev_induct)
    case Nil
    then show ?case by (simp add: account_def conn_new_def)
  next
    case (snoc i ins)
    let ?c = "conn_run rt lib ins"
    from snoc.prems have st: "cn_status ?c = (if InShutdown \<in> set ins then Draining else Serving)"
      by (simp add: status_run)
    show ?case
    proof (cases "InShutdown \<in> set ins")
      case True
      then have "takeWhile (\<lambda>i. i \<noteq> InShutdown) (ins @ [i]) = takeWhile (\<lambda>i. i \<noteq> InShutdown) ins"
        by (intro takeWhile_append1 [of InShutdown]) auto
      moreover from True st have "account (conn_step rt lib i ?c) = account ?c"
        by (auto simp: conn_step_def account_task_done split: conn_input.splits)
      ultimately show ?thesis using snoc by (simp add: conn_run_snoc)
    next
      case False
      then have tw: "takeWhile (\<lambda>i. i \<noteq> InShutdown) (ins @ [i]) =
          ins @ takeWhile (\<lambda>i. i \<noteq> InShutdown) [i]" by (intro takeWhile_append2) auto
      have tw0: "takeWhile (\<lambda>i. i \<noteq> InShutdown) ins = ins"
        using False by (auto simp: takeWhile_eq_all_conv)
      have "account (conn_step rt lib i ?c) = account ?c + mset (request_ids lib (takeWhile (\<lambda>i. i \<noteq> InShutdown) [i]))"
      proof (cases i)
        case (InFrame f)
        with False st snoc.prems show ?thesis
          by (cases f) (auto simp: conn_step_def account_line request_ids_def)
      qed (use False st in \<open>auto simp: conn_step_def account_task_done request_ids_def\<close>)
      with snoc tw tw0 show ?thesis by (simp add: conn_run_snoc)
    qed
  qed
  then show ?thesis by (simp add: account_def)
qed

theorem one_answer_per_request_witness:
  "mset (answered_ids (cn_out (conn_run demo_router demo_lib
     [InFrame (Line ''x''), InFrame (Line ''h''), InFrame (Line ''x''), InDone 0 Panicked]))) =
   {# IdNumber 2, IdNumber 1, IdNumber 2 #}"
proof -
  let ?ins = "[InFrame (Line ''x''), InFrame (Line ''h''), InFrame (Line ''x''), InDone 0 Panicked]"
  have "map tk_id (cn_tasks (conn_run demo_router demo_lib ?ins)) = []" by code_simp
  moreover have "request_ids demo_lib ?ins = [IdNumber 2, IdNumber 1, IdNumber 2]" by code_simp
  ultimately show ?thesis
    using one_answer_per_request [of ?ins demo_router demo_lib] by simp
qed


section \<open>Event numbers\<close>

text \<open>The numbers of the events of a subscription, as the peer reads them.\<close>

definition seq_of :: "string \<Rightarrow> message \<Rightarrow> nat list" where
  "seq_of sub m =
     (case m of
        MNotification n \<Rightarrow>
          (case nt_params n of
             Some p \<Rightarrow>
               (case (jget ''subscription'' p, jget ''seq'' p) of
                  (Some (JStr s), Some (JInt i)) \<Rightarrow> (if s = sub then [nat i] else [])
                | _ \<Rightarrow> [])
           | None \<Rightarrow> [])
      | _ \<Rightarrow> [])"

definition seqs_sent :: "string \<Rightarrow> connection \<Rightarrow> nat list" where
  "seqs_sent sub c = concat (map (seq_of sub) (cn_out c))"

definition seqs_unsent :: "string \<Rightarrow> connection \<Rightarrow> nat list" where
  "seqs_unsent sub c = map en_seq (filter (\<lambda>n. en_subscription n = sub) (cn_unsent c))"

definition seq_count :: "string \<Rightarrow> connection \<Rightarrow> nat" where
  "seq_count sub c = (case cn_seqs c sub of None \<Rightarrow> 0 | Some n \<Rightarrow> n)"

lemma seq_of_event: "seq_of sub (event_message n) = (if en_subscription n = sub then [en_seq n] else [])"
  by (simp add: seq_of_def event_message_def message_notification_def jget_jobj)

lemma seq_of_response [simp]: "seq_of sub (MResponse r) = []"
  by (simp add: seq_of_def)

definition seq_view :: "string \<Rightarrow> connection \<Rightarrow> nat list \<times> nat list \<times> nat" where
  "seq_view sub c = (seqs_sent sub c, seqs_unsent sub c, seq_count sub c)"

lemma seq_view_simps [simp]:
  "seq_view sub (respond r c) = seq_view sub c"
  "seq_view sub (c\<lparr>cn_tasks := ts\<rparr>) = seq_view sub c"
  "seq_view sub (c\<lparr>cn_status := st\<rparr>) = seq_view sub c"
  "seq_view sub (c\<lparr>cn_status := st, cn_tasks := ts\<rparr>) = seq_view sub c"
  by (simp_all add: seq_view_def seqs_sent_def seqs_unsent_def seq_count_def)

lemma seq_view_line: "seq_view sub (handle_line rt lib l c) = seq_view sub c"
proof (cases rule: handle_line_cases [of lib l rt c])
  case (request r)
  show ?thesis
  proof (cases rule: dispatch_cases [of r rt lib c])
    case (greet rr c')
    with request hello_fields [OF greet(2)] show ?thesis
      by (simp add: seq_view_def seqs_sent_def seqs_unsent_def seq_count_def)
  next
    case (refused e)
    with request show ?thesis by simp
  next
    case spawned
    with request show ?thesis by (simp add: seq_view_def seqs_sent_def seqs_unsent_def seq_count_def)
  qed
next
  case (other rs)
  then show ?thesis
    by (simp add: seq_view_def seqs_sent_def seqs_unsent_def seq_count_def comp_def)
qed

lemma seq_view_step:
  "(\<forall>s ev. i \<noteq> InEvent s ev) \<Longrightarrow> (\<forall>k. i \<noteq> InSend k) \<Longrightarrow>
     seq_view sub (conn_step rt lib i c) = seq_view sub c"
  by (cases i)
     (auto simp: conn_step_def seq_view_line too_long_def task_done_def split: frame.splits)

lemma filter_remove_at:
  "i < length xs \<Longrightarrow>
     mset (filter P xs) = mset (filter P (remove_at i xs)) + (if P (xs ! i) then {# xs ! i #} else {#})"
  using mset_remove_at [of i xs] by (simp flip: mset_filter) (metis filter_mset_add_mset mset_filter)

text \<open>
  Events are numbered without gaps or repeats: on every connection and for every subscription
  the numbers of the events sent and of those numbered but still to be sent are 1, 2, ... up to
  the count of events, each exactly once.
\<close>

theorem event_numbers:
  "mset (seqs_sent sub (conn_run rt lib ins)) + mset (seqs_unsent sub (conn_run rt lib ins)) =
     mset [1..<Suc (seq_count sub (conn_run rt lib ins))]"
proof (induction ins rule: rev_induct)
  case Nil
  then show ?case by (simp add: conn_new_def seqs_sent_def seqs_unsent_def seq_count_def)
next
  case (snoc i ins)
  let ?c = "conn_run rt lib ins"
  consider (e) s ev where "i = InEvent s ev" | (k) k where "i = InSend k"
    | (o) "seq_view sub (conn_step rt lib i ?c) = seq_view sub ?c"
    using seq_view_step by metis
  then show ?case
  proof cases
    case (e s ev)
    let ?d = "conn_run rt lib (ins @ [i])" and ?n = "seq_count sub ?c"
    from e have d: "seqs_sent sub ?d = seqs_sent sub ?c"
      "seqs_unsent sub ?d = seqs_unsent sub ?c @ (if s = sub then [Suc ?n] else [])"
      "seq_count sub ?d = (if s = sub then Suc ?n else ?n)"
      by (simp_all add: conn_run_snoc conn_step_def notify_begin_def event_params_def seqs_sent_def
          seqs_unsent_def seq_count_def)
    have "[1..<Suc (Suc ?n)] = [1..<Suc ?n] @ [Suc ?n]" by simp
    with snoc d show ?thesis by (cases "s = sub") (simp_all del: mset_upt upt_Suc)
  next
    case (k k)
    show ?thesis
    proof (cases "k < length (cn_unsent ?c)")
      case True
      have "mset (seqs_unsent sub ?c) = mset (seqs_unsent sub (notify_send k ?c)) +
          mset (seq_of sub (event_message (cn_unsent ?c ! k)))"
        using True filter_remove_at [OF True, of "\<lambda>n. en_subscription n = sub"]
        by (simp add: seqs_unsent_def notify_send_def seq_of_event)
      moreover have "seqs_sent sub (notify_send k ?c) =
          seqs_sent sub ?c @ seq_of sub (event_message (cn_unsent ?c ! k))"
        "seq_count sub (notify_send k ?c) = seq_count sub ?c"
        using True by (simp_all add: notify_send_def seqs_sent_def seq_count_def)
      moreover have "conn_run rt lib (ins @ [i]) = notify_send k ?c"
        using k by (simp add: conn_run_snoc conn_step_def)
      ultimately show ?thesis using snoc by (simp add: ac_simps del: mset_upt upt_Suc)
    qed (use k snoc in \<open>simp add: conn_run_snoc conn_step_def notify_send_def\<close>)
  next
    case o
    with snoc show ?thesis by (simp add: conn_run_snoc seq_view_def)
  qed
qed

text \<open>
  The numbers are not always sent in order: the lock is released between numbering an event and
  queueing it, so two tasks forwarding the same subscription to one connection can overtake each
  other.
\<close>

lemma event_numbers_overtake:
  "seqs_sent ''a'' (conn_run rt lib [InEvent ''a'' JNull, InEvent ''a'' JNull, InSend 1, InSend 0]) = [2, 1]"
  by (simp add: conn_run_def conn_step_def notify_begin_def notify_send_def event_params_def
      seqs_sent_def seq_of_event conn_new_def remove_at_def)

end
