(* ===== verification/Rust_Utf8.thy ===== *)
theory Rust_Utf8
  imports Rust_Str
begin

text \<open>
  Well-formed UTF-8, as \<open>std::str::from_utf8\<close> accepts it, and what cutting at character
  boundaries does to it. \<open>char_len\<close> is the length of the encoded scalar value a byte string starts
  with, 0 when it starts with none.
\<close>

definition conts :: "nat \<Rightarrow> string \<Rightarrow> bool" where
  "conts k t \<longleftrightarrow> k \<le> length t \<and> list_all is_cont (take k t)"

definition byte :: "char \<Rightarrow> nat" where
  "byte c = of_char c"

text \<open>What the first byte says: the length of the character, and the range of the second byte.\<close>

definition lead_len :: "char \<Rightarrow> nat" where
  "lead_len a =
     (let n = byte a in
      if n < 0x80 then 1
      else if 0xC2 \<le> n \<and> n \<le> 0xDF then 2
      else if 0xE0 \<le> n \<and> n \<le> 0xEF then 3
      else if 0xF0 \<le> n \<and> n \<le> 0xF4 then 4
      else 0)"

definition second_ok :: "char \<Rightarrow> string \<Rightarrow> bool" where
  "second_ok a t =
     (case t of
        [] \<Rightarrow> True
      | b # _ \<Rightarrow> (byte a = 0xE0 \<longrightarrow> 0xA0 \<le> byte b) \<and> (byte a = 0xED \<longrightarrow> byte b < 0xA0) \<and>
                 (byte a = 0xF0 \<longrightarrow> 0x90 \<le> byte b) \<and> (byte a = 0xF4 \<longrightarrow> byte b < 0x90))"

definition char_len :: "string \<Rightarrow> nat" where
  "char_len s =
     (case s of
        [] \<Rightarrow> 0
      | a # t \<Rightarrow> (if conts (lead_len a - 1) t \<and> second_ok a t then lead_len a else 0))"

lemma char_len_le: "char_len s \<le> length s"
  by (cases s) (auto simp: char_len_def conts_def)

lemma char_len_max: "char_len s \<le> 4"
  by (cases s) (auto simp: char_len_def lead_len_def Let_def)

lemma char_len_pos:
  assumes "0 < char_len s"
  obtains a t where "s = a # t" "conts (lead_len a - 1) t" "second_ok a t" "char_len s = lead_len a"
  using assms by (cases s) (auto simp: char_len_def split: if_splits)

lemma second_ok_single: "lead_len a \<le> 1 \<Longrightarrow> second_ok a t"
  by (cases t) (auto simp: second_ok_def lead_len_def Let_def split: if_splits)

text \<open>Only the bytes of the character matter.\<close>

lemma char_len_cong:
  assumes "0 < char_len s" and "take (char_len s) t = take (char_len s) s"
  shows "char_len t = char_len s"
proof -
  from assms(1) obtain a s' where s: "s = a # s'" "conts (lead_len a - 1) s'" "second_ok a s'"
    "char_len s = lead_len a" by (rule char_len_pos)
  define k where "k = lead_len a - 1"
  have k: "lead_len a = Suc k" using assms(1) s(4) by (simp add: k_def)
  from assms(2) s k obtain t' where t: "t = a # t'" "take k t' = take k s'"
    by (cases t) auto
  have "conts k s'" using s(2) by (simp add: k_def)
  moreover from this have "k \<le> length t'"
    using t(2) by (metis conts_def length_take min.absorb_iff2 min.cobounded1 min_def)
  ultimately have ct: "conts k t'" using t(2) by (simp add: conts_def)
  have "second_ok a t'"
  proof (cases k)
    case 0
    with k show ?thesis by (simp add: second_ok_single)
  next
    case (Suc j)
    with t(2) \<open>k \<le> length t'\<close> \<open>conts k s'\<close> s(3) show ?thesis
      by (cases t'; cases s') (auto simp: second_ok_def conts_def)
  qed
  with ct k show ?thesis unfolding s(4) by (simp add: t(1) char_len_def)
qed

lemma char_len_append: "0 < char_len s \<Longrightarrow> char_len (s @ t) = char_len s"
  by (rule char_len_cong) (simp_all add: char_len_le)

lemma char_len_take: "0 < char_len s \<Longrightarrow> char_len s \<le> i \<Longrightarrow> char_len (take i s) = char_len s"
  by (rule char_len_cong) (simp_all add: min_def)

function utf8_valid :: "string \<Rightarrow> bool" where
  "utf8_valid s =
     (if s = [] then True
      else if char_len s = 0 then False
      else utf8_valid (drop (char_len s) s))"
  by pat_completeness auto
termination by (relation "measure length") auto

declare utf8_valid.simps [simp del]

lemma is_cont_byte: "is_cont c \<longleftrightarrow> 0x80 \<le> byte c \<and> byte c < 0xC0"
proof (cases c)
  case (Char b0 b1 b2 b3 b4 b5 b6 b7)
  have le: "of_bool b \<le> (1 :: nat)" for b by simp
  have "byte c = of_bool b0 + 2 * of_bool b1 + 4 * of_bool b2 + 8 * of_bool b3 + 16 * of_bool b4
      + 32 * of_bool b5 + 64 * of_bool b6 + 128 * of_bool b7"
    by (simp add: Char byte_def)
  with le [of b0] le [of b1] le [of b2] le [of b3] le [of b4] le [of b5] show ?thesis
    by (cases b6; cases b7) (simp_all add: Char is_cont_def)
qed

lemma utf8_valid_Nil [simp]: "utf8_valid []"
  by (simp add: utf8_valid.simps)

lemma utf8_valid_step: "utf8_valid s \<Longrightarrow> s \<noteq> [] \<Longrightarrow> 0 < char_len s \<and> utf8_valid (drop (char_len s) s)"
  by (simp add: utf8_valid.simps [of s] split: if_splits)

text \<open>The first byte of a character starts it, the others continue it.\<close>

lemma char_len_bytes:
  assumes "0 < char_len s"
  shows "\<not> is_cont (s ! 0)" and "0 < j \<Longrightarrow> j < char_len s \<Longrightarrow> is_cont (s ! j)"
proof -
  from assms obtain a t where s: "s = a # t" "conts (lead_len a - 1) t" "char_len s = lead_len a"
    by (rule char_len_pos)
  show "\<not> is_cont (s ! 0)"
    using assms s(3) by (auto simp: s(1) lead_len_def is_cont_byte Let_def split: if_splits)
  show "is_cont (s ! j)" if j: "0 < j" "j < char_len s"
  proof -
    from j obtain i where i: "j = Suc i" by (cases j) auto
    with j s(3) have "i < lead_len a - 1" by simp
    with s(2) have "take (lead_len a - 1) t ! i \<in> set (take (lead_len a - 1) t)"
      by (intro nth_mem) (simp add: conts_def)
    with s(2) \<open>i < lead_len a - 1\<close> show ?thesis by (simp add: s(1) i conts_def list_all_iff)
  qed
qed

lemma utf8_valid_append: "utf8_valid s \<Longrightarrow> utf8_valid t \<Longrightarrow> utf8_valid (s @ t)"
proof (induction s rule: utf8_valid.induct)
  case (1 s)
  show ?case
  proof (cases "s = []")
    case False
    with 1 have s: "0 < char_len s" "utf8_valid (drop (char_len s) s)" using utf8_valid_step by blast+
    with 1 False have "utf8_valid (drop (char_len s) s @ t)" by blast
    with s False char_len_le [of s] show ?thesis
      by (subst utf8_valid.simps) (simp add: char_len_append)
  qed (use 1 in simp)
qed

text \<open>Cutting at a character boundary leaves two well-formed halves.\<close>

lemma utf8_valid_cut:
  "utf8_valid s \<Longrightarrow> is_char_boundary s i \<Longrightarrow> i \<le> length s \<Longrightarrow> utf8_valid (take i s) \<and> utf8_valid (drop i s)"
proof (induction s arbitrary: i rule: utf8_valid.induct)
  case (1 s)
  show ?case
  proof (cases "s = [] \<or> i = 0 \<or> i = length s")
    case True
    with 1 show ?thesis by auto
  next
    case False
    let ?n = "char_len s"
    from 1(2) False have s: "0 < ?n" "utf8_valid (drop ?n s)" using utf8_valid_step by blast+
    from 1(3,4) False have b: "i < length s" "\<not> is_cont (s ! i)" by (auto simp: is_char_boundary_def)
    with char_len_bytes(2) [OF s(1), of i] False have ge: "?n \<le> i" by (meson not_le neq0_conv)
    have "is_char_boundary (drop ?n s) (i - ?n)"
      using b ge by (auto simp: is_char_boundary_def)
      moreover have "i - ?n \<le> length (drop ?n s)" using b by simp
    ultimately have
      ih: "utf8_valid (take (i - ?n) (drop ?n s))" "utf8_valid (drop (i - ?n) (drop ?n s))"
      using 1(1) [of "i - ?n"] False s by auto
    have "utf8_valid (take i s)"
      using False s(1) ge ih(1)
      by (subst utf8_valid.simps) (simp add: char_len_take [OF s(1) ge] drop_take)
    moreover have "drop (i - ?n) (drop ?n s) = drop i s" using ge by simp
    ultimately show ?thesis using ih(2) by simp
  qed
qed

text \<open>A run of continuation bytes is at most three long.\<close>

lemma utf8_valid_start: "utf8_valid s \<Longrightarrow> s \<noteq> [] \<Longrightarrow> \<not> is_cont (s ! 0)"
  using char_len_bytes(1) utf8_valid_step by blast

lemma utf8_boundary_near:
  "utf8_valid s \<Longrightarrow> i < length s \<Longrightarrow> \<exists>j\<le>i. i < j + 4 \<and> \<not> is_cont (s ! j)"
proof (induction s arbitrary: i rule: utf8_valid.induct)
  case (1 s)
  let ?n = "char_len s"
  from 1(3) have "s \<noteq> []" by auto
  with 1(2) have s: "0 < ?n" "utf8_valid (drop ?n s)" "s \<noteq> []" using utf8_valid_step by blast+
  show ?case
  proof (cases "i < ?n")
    case True
    with char_len_bytes(1) [OF s(1)] char_len_max [of s] show ?thesis by (intro exI [of _ 0]) simp
  next
    case False
    then have "i - ?n < length (drop ?n s)" using 1(3) by simp
    with 1(1) [of "i - ?n"] s obtain j where
      "j \<le> i - ?n" "i - ?n < j + 4" "\<not> is_cont (drop ?n s ! j)" by auto
    moreover from this have "drop ?n s ! j = s ! (?n + j)"
      using False char_len_le [of s] 1(3) by (intro nth_drop) linarith
    ultimately show ?thesis using False by (intro exI [of _ "?n + j"] conjI) (linarith | simp)+
  qed
qed

end
