(* ===== verification/Mentor_Sse.thy ===== *)
theory Mentor_Sse
  imports Rust_Utf8
begin

text \<open>
  \<open>crates/core/src/mentor/sse.rs\<close>: the incremental parser of Server-Sent Events. The parser keeps the
  bytes of an unfinished line, the event being built and whether it has data; a chunk is consumed
  line by line. \<open>String::from_utf8_lossy\<close> is written out on bytes.
\<close>

section \<open>Lossy decoding\<close>

text \<open>The bytes of U+FFFD, and how many bytes one replacement stands for: the longest prefix of a
  character that was cut short, at least one byte.\<close>

definition replacement :: string where
  "replacement = [CHR 0xEF, CHR 0xBF, CHR 0xBD]"

definition bad_len :: "string \<Rightarrow> nat" where
  "bad_len s =
     (case s of
        [] \<Rightarrow> 0
      | a # t \<Rightarrow>
          (if lead_len a \<le> 1 \<or> \<not> conts 1 t \<or> \<not> second_ok a t then 1
           else if lead_len a = 2 \<or> \<not> conts 2 t then 2
           else 3))"

lemma bad_len_pos: "s \<noteq> [] \<Longrightarrow> 0 < bad_len s"
  by (cases s) (auto simp: bad_len_def)

function utf8_lossy :: "string \<Rightarrow> string" where
  "utf8_lossy s =
     (if s = [] then []
      else if 0 < char_len s then take (char_len s) s @ utf8_lossy (drop (char_len s) s)
      else replacement @ utf8_lossy (drop (bad_len s) s))"
  by pat_completeness auto
termination by (relation "measure length") (auto simp: bad_len_pos)

declare utf8_lossy.simps [simp del]

lemma utf8_lossy_Nil [simp]: "utf8_lossy [] = []"
  by (simp add: utf8_lossy.simps)

lemma utf8_lossy_valid: "utf8_valid s \<Longrightarrow> utf8_lossy s = s"
proof (induction s rule: utf8_lossy.induct)
  case (1 s)
  show ?case
  proof (cases "s = []")
    case False
    with "1.prems" have "0 < char_len s" "utf8_valid (drop (char_len s) s)"
      by (simp_all add: utf8_valid_step)
    with "1.IH"(1) False show ?thesis by (simp add: utf8_lossy.simps [of s])
  qed simp
qed

section \<open>The parser\<close>

record sse_event =
  se_event :: "string option"
  se_data :: string

record sse_parser =
  sp_buf :: string
  sp_current :: sse_event
  sp_has_data :: bool

definition sse_new :: sse_parser where
  "sse_new = \<lparr>sp_buf = [], sp_current = \<lparr>se_event = None, se_data = []\<rparr>, sp_has_data = False\<rparr>"

text \<open>\<open>dispatch\<close>: nothing when neither a name nor data has arrived.\<close>

definition sse_dispatch :: "sse_parser \<Rightarrow> sse_event option \<times> sse_parser" where
  "sse_dispatch p =
     (if \<not> sp_has_data p \<and> se_event (sp_current p) = None then (None, p)
      else (Some (sp_current p), p\<lparr>sp_has_data := False, sp_current := \<lparr>se_event = None, se_data = []\<rparr>\<rparr>))"

text \<open>\<open>line.split_once(':')\<close>, one space after the colon dropped.\<close>

definition sse_field :: "string \<Rightarrow> string \<times> string" where
  "sse_field l =
     (case position (\<lambda>c. c = CHR '':'') l of
        Some i \<Rightarrow>
          (take i l, case strip_prefix (drop (Suc i) l) '' '' of Some v \<Rightarrow> v | None \<Rightarrow> drop (Suc i) l)
      | None \<Rightarrow> (l, []))"

definition sse_line :: "string \<Rightarrow> sse_parser \<Rightarrow> sse_event option \<times> sse_parser" where
  "sse_line l p =
     (if l = [] then sse_dispatch p
      else if hd l = CHR '':'' then (None, p)
      else case sse_field l of (field, value) \<Rightarrow>
        if field = ''event'' then
          (None, p\<lparr>sp_current := (sp_current p)\<lparr>se_event := Some value\<rparr>\<rparr>)
        else if field = ''data'' then
          (None, p\<lparr>sp_current := (sp_current p)\<lparr>se_data := se_data (sp_current p)
                      @ (if sp_has_data p then [CHR 0x0A] else []) @ value\<rparr>,
                   sp_has_data := True\<rparr>)
        else (None, p))"

text \<open>\<open>trim_end_matches(['\n', '\r'])\<close> of the decoded line.\<close>

definition sse_text :: "string \<Rightarrow> string" where
  "sse_text bytes = rev (dropWhile (\<lambda>c. c = CHR 0x0A \<or> c = CHR 0x0D) (rev (utf8_lossy bytes)))"

text \<open>The loop of \<open>push\<close> over the buffer: every complete line is taken off and parsed (\<open>line\<close> leaves the
  rest of the buffer alone; writing it once more shows that the buffer shrinks).\<close>

function sse_lines :: "sse_parser \<Rightarrow> sse_event list \<times> sse_parser" where
  "sse_lines p =
     (case position (\<lambda>b. b = CHR 0x0A) (sp_buf p) of
        None \<Rightarrow> ([], p)
      | Some nl \<Rightarrow>
          (case sse_line (sse_text (take (Suc nl) (sp_buf p))) (p\<lparr>sp_buf := drop (Suc nl) (sp_buf p)\<rparr>) of
             (ev, p') \<Rightarrow>
               (case sse_lines (p'\<lparr>sp_buf := drop (Suc nl) (sp_buf p)\<rparr>) of
                  (evs, q) \<Rightarrow> ((case ev of None \<Rightarrow> evs | Some e \<Rightarrow> e # evs), q))))"
  by pat_completeness auto
termination
  by (relation "measure (\<lambda>p. length (sp_buf p))") (auto simp: position_Some_iff)

declare sse_lines.simps [simp del]

definition sse_push :: "string \<Rightarrow> sse_parser \<Rightarrow> sse_event list \<times> sse_parser" where
  "sse_push chunk p = sse_lines (p\<lparr>sp_buf := sp_buf p @ chunk\<rparr>)"

definition sse_finish :: "sse_parser \<Rightarrow> sse_event option \<times> sse_parser" where
  "sse_finish p =
     (if sp_buf p \<noteq> [] then
        (case sse_line (sse_text (sp_buf p)) (p\<lparr>sp_buf := []\<rparr>) of
           (Some ev, q) \<Rightarrow> (Some ev, q)
         | (None, q) \<Rightarrow> sse_dispatch q)
      else sse_dispatch p)"

text \<open>Feeding chunk after chunk.\<close>

fun sse_push_all :: "string list \<Rightarrow> sse_parser \<Rightarrow> sse_event list \<times> sse_parser" where
  "sse_push_all [] p = ([], p)"
| "sse_push_all (c # cs) p =
     (case sse_push c p of (evs, p') \<Rightarrow>
       (case sse_push_all cs p' of (evs', q) \<Rightarrow> (evs @ evs', q)))"

section \<open>Where the chunks are cut does not matter\<close>

text \<open>
  The reference: the stream cut at its newlines, every line but the last parsed, the last one kept.
\<close>

fun sse_fold :: "string list \<Rightarrow> sse_parser \<Rightarrow> sse_event list \<times> sse_parser" where
  "sse_fold [] p = ([], p)"
| "sse_fold (l # ls) p =
     (case sse_line (sse_text l) p of
        (ev, p') \<Rightarrow> (case sse_fold ls p' of (evs, q) \<Rightarrow> ((case ev of None \<Rightarrow> evs | Some e \<Rightarrow> e # evs), q)))"

definition sse_reference :: "string \<Rightarrow> sse_event list \<times> sse_parser" where
  "sse_reference stream =
     (let ls = split_on CHR 0x0A stream in
      case sse_fold (butlast ls) sse_new of (evs, p) \<Rightarrow> (evs, p\<lparr>sp_buf := last ls\<rparr>))"

text \<open>The line break is no part of a character, so it may be decoded with the line or not.\<close>

lemma conts_append_newline: "conts k (t @ [CHR 0x0A]) = conts k t"
proof (cases "k \<le> length t")
  case False
  then have "k \<le> Suc (length t) \<Longrightarrow> take k (t @ [CHR 0x0A]) = t @ [CHR 0x0A]" by simp
  with False show ?thesis by (auto simp: conts_def is_cont_def)
qed (simp add: conts_def)

lemma second_ok_append_newline: "t \<noteq> [] \<Longrightarrow> second_ok a (t @ [c]) = second_ok a t"
  by (cases t) (simp_all add: second_ok_def)

lemma char_len_append_newline: "s \<noteq> [] \<Longrightarrow> char_len (s @ [CHR 0x0A]) = char_len s"
proof (cases s)
  case (Cons a t)
  show ?thesis
  proof (cases t)
    case Nil
    then show ?thesis
      using conts_append_newline [of "lead_len a - 1" "[]"]
      by (cases "lead_len a \<le> 1") (auto simp: Cons char_len_def conts_def second_ok_single)
  next
    case (Cons b u)
    with \<open>s = a # t\<close> show ?thesis
      using conts_append_newline [of "lead_len a - 1" t] second_ok_append_newline [of t a]
      by (simp add: char_len_def)
  qed
qed simp

lemma bad_len_append_newline: "s \<noteq> [] \<Longrightarrow> bad_len (s @ [CHR 0x0A]) = bad_len s"
proof (cases s)
  case (Cons a t)
  show ?thesis
  proof (cases t)
    case Nil
    with Cons show ?thesis by (simp add: bad_len_def conts_def is_cont_def)
  next
    case (Cons b u)
    with \<open>s = a # t\<close> show ?thesis
      using conts_append_newline [of 1 t] conts_append_newline [of 2 t] second_ok_append_newline [of t a]
      by (simp add: bad_len_def)
  qed
qed simp

lemma char_len_le' [simp]: "char_len s \<le> length s"
  by (rule char_len_le)

lemma bad_len_le [simp]: "bad_len s \<le> length s"
  by (cases s) (auto simp: bad_len_def conts_def)

lemma utf8_lossy_newline: "utf8_lossy (s @ [CHR 0x0A]) = utf8_lossy s @ [CHR 0x0A]"
proof (induction s rule: utf8_lossy.induct)
  case (1 s)
  show ?case
  proof (cases "s = []")
    case True
    then show ?thesis by (simp add: utf8_lossy.simps [of "[CHR 0x0A]"] char_len_def lead_len_def conts_def byte_def second_ok_def)
  next
    case False
    with "1.IH" show ?thesis
      using utf8_lossy.simps [of "s @ [CHR 0x0A]"] utf8_lossy.simps [of s]
      by (simp add: char_len_append_newline bad_len_append_newline)
  qed
qed

lemma sse_text_newline: "sse_text (l @ [CHR 0x0A]) = sse_text l"
  by (simp add: sse_text_def utf8_lossy_newline)

lemma sse_line_buf: "sse_line l (p\<lparr>sp_buf := b\<rparr>) = (case sse_line l p of (ev, q) \<Rightarrow> (ev, q\<lparr>sp_buf := b\<rparr>))"
  by (simp add: sse_line_def sse_dispatch_def split: prod.split)

lemma sse_fold_buf: "sse_fold ls (p\<lparr>sp_buf := b\<rparr>) = (case sse_fold ls p of (evs, q) \<Rightarrow> (evs, q\<lparr>sp_buf := b\<rparr>))"
  by (induction ls arbitrary: p) (auto simp: sse_line_buf split: prod.split)

lemma newline_split:
  assumes "position (\<lambda>b. b = CHR 0x0A) s = Some i"
  shows "s = take i s @ CHR 0x0A # drop (Suc i) s" "CHR 0x0A \<notin> set (take i s)"
  using assms by (auto simp: position_Some_iff id_take_nth_drop [symmetric] in_set_conv_nth dest: id_take_nth_drop)

lemma sse_lines_fold:
  "sse_lines p =
     (let ls = split_on CHR 0x0A (sp_buf p) in
      case sse_fold (butlast ls) p of (evs, q) \<Rightarrow> (evs, q\<lparr>sp_buf := last ls\<rparr>))"
proof (induction p rule: sse_lines.induct)
  case (1 p)
  show ?case
  proof (cases "position (\<lambda>b. b = CHR 0x0A) (sp_buf p)")
    case None
    then have "CHR 0x0A \<notin> set (sp_buf p)" by (auto simp: position_None_iff)
    with None show ?thesis by (simp add: sse_lines.simps [of p] split_on_no_sep)
  next
    case (Some i)
    define l r where "l = take i (sp_buf p)" and "r = drop (Suc i) (sp_buf p)"
    have s: "sp_buf p = l @ CHR 0x0A # r" "CHR 0x0A \<notin> set l"
      using newline_split [OF Some] by (simp_all add: l_def r_def)
    have tk: "take (Suc i) (sp_buf p) = l @ [CHR 0x0A]"
      using Some by (simp add: l_def position_Some_iff take_Suc_conv_app_nth)
    have sp: "split_on CHR 0x0A (sp_buf p) = l # split_on CHR 0x0A r"
      using s by (simp add: split_on_append_sep split_on_no_sep)
    obtain ev q where q: "sse_line (sse_text l) p = (ev, q)" by fastforce
    then have q': "sse_line (sse_text (take (Suc i) (sp_buf p))) (p\<lparr>sp_buf := drop (Suc i) (sp_buf p)\<rparr>) = (ev, q\<lparr>sp_buf := r\<rparr>)"
      by (simp add: tk sse_text_newline sse_line_buf r_def)
    show ?thesis
      using "1.IH" [OF Some q' [symmetric]] q'
      by (simp add: sse_lines.simps [of p] Some sp q sse_fold_buf Let_def r_def [symmetric] split: prod.split)
  qed
qed

lemma sse_fold_append:
  "sse_fold (ls @ ls') p = (case sse_fold ls p of (evs, q) \<Rightarrow> (case sse_fold ls' q of (evs', r) \<Rightarrow> (evs @ evs', r)))"
  by (induction ls arbitrary: p) (auto split: prod.split option.split)

lemma split_on_append:
  "split_on c (a @ b) = butlast (split_on c a) @ split_on c (last (split_on c a) @ b)"
proof (induction a rule: length_induct)
  case (1 a)
  show ?case
  proof (cases "c \<in> set a")
    case False
    then show ?thesis by (simp add: split_on_no_sep)
  next
    case True
    then obtain l r where a: "a = l @ c # r" "c \<notin> set l" using split_list_first by metis
    with "1" have "split_on c (r @ b) = butlast (split_on c r) @ split_on c (last (split_on c r) @ b)"
      by simp
    with a show ?thesis by (simp add: split_on_append_sep)
  qed
qed

lemma sse_push_all_fold:
  assumes "CHR 0x0A \<notin> set (sp_buf p)"
  shows "sse_push_all cs p =
     (let ls = split_on CHR 0x0A (sp_buf p @ concat cs) in
      case sse_fold (butlast ls) p of (evs, q) \<Rightarrow> (evs, q\<lparr>sp_buf := last ls\<rparr>))"
  using assms
proof (induction cs arbitrary: p)
  case Nil
  then show ?case by (simp add: split_on_no_sep)
next
  case (Cons c cs)
  define ls where "ls = split_on CHR 0x0A (sp_buf p @ c)"
  define b where "b = last ls"
  obtain evs q where f: "sse_fold (butlast ls) p = (evs, q)" by fastforce
  have push: "sse_push c p = (evs, q\<lparr>sp_buf := b\<rparr>)"
    using f by (simp add: sse_push_def sse_lines_fold Let_def sse_fold_buf ls_def [symmetric] b_def)
  have "b \<in> set ls" by (simp add: b_def ls_def)
  then have "CHR 0x0A \<notin> set (sp_buf (q\<lparr>sp_buf := b\<rparr>))"
    by (simp add: ls_def split_on_segments)
  from Cons.IH [OF this]
  have rest: "sse_push_all cs (q\<lparr>sp_buf := b\<rparr>) =
     (let ls' = split_on CHR 0x0A (b @ concat cs) in
      case sse_fold (butlast ls') q of (evs, q) \<Rightarrow> (evs, q\<lparr>sp_buf := last ls'\<rparr>))"
    by (simp add: sse_fold_buf Let_def split: prod.split)
  have "split_on CHR 0x0A (sp_buf p @ concat (c # cs)) = butlast ls @ split_on CHR 0x0A (b @ concat cs)"
    using split_on_append [of "CHR 0x0A" "sp_buf p @ c" "concat cs"] by (simp add: ls_def b_def)
  with push rest f show ?case
    by (simp add: Let_def butlast_append sse_fold_append split: prod.split)
qed

text \<open>
  C29: The events of a stream do not depend on where the network cut it: whatever the chunks, inside a
  line, inside a character or between the two bytes of a line end, feeding them one after the other
  gives the events and leaves the parser as the reference does that cuts the whole stream at its
  newlines and parses line after line, the unfinished last line kept.
\<close>

theorem sse_chunking: "sse_push_all chunks sse_new = sse_reference (concat chunks)"
  using sse_push_all_fold [of sse_new chunks] by (simp add: sse_reference_def sse_new_def)

section \<open>An event that ends with the stream\<close>

text \<open>\<open>finish\<close> gives the unfinished event, once: after it the parser holds nothing.\<close>

lemma sse_finish_flushes:
  assumes "sse_finish p = (ev, q)"
  shows "sse_finish q = (None, q)"
proof -
  have line: "sp_buf r = b" if "sse_line l (p\<lparr>sp_buf := b\<rparr>) = (x, r)" for l b x r
    using that by (auto simp: sse_line_def sse_dispatch_def split: if_splits prod.splits)
  have disp: "sse_dispatch r = (x, r') \<Longrightarrow> sp_buf r' = sp_buf r \<and> \<not> sp_has_data r' \<and> se_event (sp_current r') = None" for r x r'
    by (auto simp: sse_dispatch_def split: if_splits)
  have some: "sse_line l r = (Some e, r') \<Longrightarrow> \<not> sp_has_data r' \<and> se_event (sp_current r') = None" for l r e r'
    by (auto simp: sse_line_def sse_dispatch_def split: if_splits prod.splits)
  have "sp_buf q = [] \<and> \<not> sp_has_data q \<and> se_event (sp_current q) = None"
    using assms
    by (auto simp: sse_finish_def split: if_splits prod.splits option.splits dest: disp some line)
       (metis disp line)+
  then show ?thesis by (simp add: sse_finish_def sse_dispatch_def)
qed

text \<open>The stream of the source's own test, in two pieces, gives the same two events.\<close>

lemma sse_demo:
  "sse_push_all [''data:x'' @ [CHR 0x0A], [CHR 0x0A] @ ''data'' @ [CHR 0x0D, CHR 0x0A, CHR 0x0A]] sse_new =
     ([\<lparr>se_event = None, se_data = ''x''\<rparr>, \<lparr>se_event = None, se_data = []\<rparr>], sse_new)"
  by code_simp

end
