(* ===== verification/Tool_Registry.thy ===== *)
theory Tool_Registry
  imports Permission_Engine
begin

text \<open>
  \<open>crates/core/src/tools/registry.rs\<close> and \<open>schema.rs\<close>: the tools by name, in name order (a
  \<open>BTreeMap\<close>), each with the validator compiled from its input schema. The JSON Schema engine is
  third-party: \<open>schema_lib\<close> is what is asked of it, whether a schema builds and which errors an
  input has, each with the path of the value it is about. What a tool does is not part of the
  registry's contract; \<open>'t\<close> stands for the tool itself.
\<close>

record schema_lib =
  sl_build :: "json \<Rightarrow> string option"
  sl_errors :: "json \<Rightarrow> json \<Rightarrow> (string \<times> string) list"

section \<open>Names and validators\<close>

definition ascii_lower :: "char \<Rightarrow> bool" where
  "ascii_lower c \<longleftrightarrow> 97 \<le> (of_char c :: nat) \<and> (of_char c :: nat) \<le> 122"

definition ascii_digit :: "char \<Rightarrow> bool" where
  "ascii_digit c \<longleftrightarrow> 48 \<le> (of_char c :: nat) \<and> (of_char c :: nat) \<le> 57"

definition is_valid_name :: "string \<Rightarrow> bool" where
  "is_valid_name name =
     (case name of
        [] \<Rightarrow> False
      | c # rest \<Rightarrow>
          ascii_lower c \<and> length name \<le> 64 \<and>
          list_all (\<lambda>x. ascii_lower x \<or> ascii_digit x \<or> x = CHR ''_'') rest \<and>
          last name \<noteq> CHR ''_'' \<and> \<not> contains_str name ''__'')"

definition max_reported :: nat where
  "max_reported = 5"

text \<open>A compiled schema is the schema it was compiled from.\<close>

definition validator_compile :: "schema_lib \<Rightarrow> json \<Rightarrow> string + json" where
  "validator_compile lib schema =
     (if Option.bind (jget ''type'' schema) as_str \<noteq> Some ''object''
      then Inl (''input_schema must have '' @ debug_str ''type'' @ '': '' @ debug_str ''object'')
      else case sl_build lib schema of
        Some e \<Rightarrow> Inl e
      | None \<Rightarrow> Inr schema)"

definition schema_error_part :: "string \<times> string \<Rightarrow> string" where
  "schema_error_part e = (if fst e = [] then snd e else fst e @ '': '' @ snd e)"

definition validate :: "schema_lib \<Rightarrow> json \<Rightarrow> json \<Rightarrow> string option" where
  "validate lib schema input =
     (let errors = sl_errors lib schema input;
          parts = map schema_error_part (take max_reported errors);
          more = length errors - max_reported
      in if errors = [] then None
         else Some (join_with ''; ''
                (parts @ (if 0 < more then [''... and '' @ show_nat more @ '' more''] else []))))"

section \<open>The registry\<close>

record 't tool_entry =
  te_spec :: tool_spec
  te_tool :: 't
  te_validator :: json

type_synonym 't registry = "(string \<times> 't tool_entry) list"

datatype registry_error =
    InvalidName string
  | Duplicate string
  | InvalidSchema string string

text \<open>Inserting in key order, as the \<open>BTreeMap\<close> keeps its entries.\<close>

fun insert_entry :: "string \<Rightarrow> 't tool_entry \<Rightarrow> 't registry \<Rightarrow> 't registry" where
  "insert_entry k e [] = [(k, e)]"
| "insert_entry k e ((k', e') # rest) =
     (if k = k' then (k, e) # rest
      else if str_less k k' then (k, e) # (k', e') # rest
      else (k', e') # insert_entry k e rest)"

definition registry_register ::
  "schema_lib \<Rightarrow> tool_spec \<times> 't \<Rightarrow> 't registry \<Rightarrow> registry_error + 't registry" where
  "registry_register lib tool reg =
     (case tool of (spec, t) \<Rightarrow>
        if \<not> is_valid_name (ts_name spec) then Inl (InvalidName (ts_name spec))
        else case validator_compile lib (ts_input_schema spec) of
          Inl reason \<Rightarrow> Inl (InvalidSchema (ts_name spec) reason)
        | Inr v \<Rightarrow>
            if map_of reg (ts_name spec) \<noteq> None then Inl (Duplicate (ts_name spec))
            else Inr (insert_entry (ts_name spec) \<lparr>te_spec = spec, te_tool = t, te_validator = v\<rparr> reg))"

text \<open>\<open>register_all\<close> stops at the first error; what was registered before stays.\<close>

fun registry_register_all ::
  "schema_lib \<Rightarrow> (tool_spec \<times> 't) list \<Rightarrow> 't registry \<Rightarrow> (registry_error option) \<times> 't registry" where
  "registry_register_all lib [] reg = (None, reg)"
| "registry_register_all lib (t # ts) reg =
     (case registry_register lib t reg of
        Inl e \<Rightarrow> (Some e, reg)
      | Inr reg' \<Rightarrow> registry_register_all lib ts reg')"

definition registry_get :: "'t registry \<Rightarrow> string \<Rightarrow> 't tool_entry option" where
  "registry_get reg name = map_of reg name"

definition registry_names :: "'t registry \<Rightarrow> string list" where
  "registry_names reg = map fst reg"

definition registry_specs :: "'t registry \<Rightarrow> tool_spec list" where
  "registry_specs reg = map (te_spec \<circ> snd) reg"

record tool_info =
  ti_name :: string
  ti_description :: string
  ti_input_schema :: json
  ti_risk :: risk
  ti_tags :: "string list"
  ti_timeout_s :: "nat option"
  ti_enabled :: bool

definition registry_list :: "string list \<Rightarrow> 't registry \<Rightarrow> tool_info list" where
  "registry_list disabled reg =
     map (\<lambda>s. \<lparr>ti_name = ts_name s, ti_description = ts_description s,
               ti_input_schema = ts_input_schema s, ti_risk = ts_risk s, ti_tags = ts_tags s,
               ti_timeout_s = ts_timeout_s s, ti_enabled = (ts_name s \<notin> set disabled)\<rparr>)
         (registry_specs reg)"

record tool_def =
  td_name :: string
  td_description :: string
  td_input_schema :: json
  td_cache :: bool

definition registry_defs :: "string list \<Rightarrow> 't registry \<Rightarrow> tool_def list" where
  "registry_defs disabled reg =
     map (\<lambda>t. \<lparr>td_name = ti_name t, td_description = ti_description t,
               td_input_schema = ti_input_schema t, td_cache = False\<rparr>)
         (filter ti_enabled (registry_list disabled reg))"

section \<open>The order of the names\<close>

declare str_less_simps [simp] str_less_irrefl [simp]

section \<open>The registry is sorted and sound\<close>

text \<open>
  The invariant: names strictly increasing, every entry under its own valid name, with the
  validator of its own object schema.
\<close>

definition registry_ok :: "schema_lib \<Rightarrow> 't registry \<Rightarrow> bool" where
  "registry_ok lib reg \<longleftrightarrow>
     sorted_wrt str_less (map fst reg) \<and>
     (\<forall>(k, e)\<in>set reg. k = ts_name (te_spec e) \<and> is_valid_name k \<and>
        validator_compile lib (ts_input_schema (te_spec e)) = Inr (te_validator e))"

lemma set_insert_entry: "map_of reg k = None \<Longrightarrow> set (insert_entry k e reg) = insert (k, e) (set reg)"
  by (induction k e reg rule: insert_entry.induct) (auto split: if_splits)

lemma map_of_insert_entry: "map_of (insert_entry k e reg) = (map_of reg)(k \<mapsto> e)"
  by (induction k e reg rule: insert_entry.induct) auto

lemma sorted_insert_entry:
  "sorted_wrt str_less (map fst reg) \<Longrightarrow> map_of reg k = None \<Longrightarrow>
     sorted_wrt str_less (map fst (insert_entry k e reg))"
proof (induction k e reg rule: insert_entry.induct)
  case (2 k e k' e' rest)
  from 2(3) have ne: "k \<noteq> k'" and none: "map_of rest k = None" by (auto split: if_splits)
  show ?case
  proof (cases "str_less k k'")
    case True
    with 2(2) ne str_less_trans show ?thesis by fastforce
  next
    case False
    with ne have "str_less k' k" using str_less_linear by blast
    with 2 ne False none show ?thesis by (auto simp: set_insert_entry)
  qed
qed simp

lemma registry_register_Inr:
  assumes "registry_register lib (spec, t) reg = Inr reg'"
  obtains v where "is_valid_name (ts_name spec)" "validator_compile lib (ts_input_schema spec) = Inr v"
    "map_of reg (ts_name spec) = None"
    "reg' = insert_entry (ts_name spec) \<lparr>te_spec = spec, te_tool = t, te_validator = v\<rparr> reg"
  using assms by (auto simp: registry_register_def split: if_splits sum.splits)

lemma registry_ok_register:
  assumes "registry_ok lib reg" and "registry_register lib (spec, t) reg = Inr reg'"
  shows "registry_ok lib reg'"
proof -
  from assms(2) obtain v where v: "is_valid_name (ts_name spec)"
    "validator_compile lib (ts_input_schema spec) = Inr v" "map_of reg (ts_name spec) = None"
    "reg' = insert_entry (ts_name spec) \<lparr>te_spec = spec, te_tool = t, te_validator = v\<rparr> reg"
    by (rule registry_register_Inr)
  with assms(1) sorted_insert_entry set_insert_entry [OF v(3)] show ?thesis
    by (auto simp: registry_ok_def)
qed

lemma registry_ok_register_all:
  "registry_ok lib reg \<Longrightarrow> registry_register_all lib ts reg = (err, reg') \<Longrightarrow> registry_ok lib reg'"
proof (induction lib ts reg rule: registry_register_all.induct)
  case (2 lib t ts reg)
  then show ?case by (cases t) (auto split: sum.splits intro: registry_ok_register)
qed simp

lemma registry_ok_Nil: "registry_ok lib []"
  by (simp add: registry_ok_def)

text \<open>
  The registry holds what was registered, each tool once, in name order: whatever is
  registered on an empty registry, the names are strictly increasing (so the mentor's tools array
  does not depend on the order of registration), every name is a valid one, every entry is found
  under its own name with the validator of its own schema, and when nothing failed exactly the
  registered specs are there. The tools offered are those of them that are not disabled.
\<close>

theorem registry_sorted:
  assumes "registry_register_all lib ts [] = (err, reg)"
  shows "sorted_wrt str_less (registry_names reg) \<and> list_all is_valid_name (registry_names reg) \<and>
    (\<forall>name e. registry_get reg name = Some e \<longrightarrow> ts_name (te_spec e) = name \<and>
        validator_compile lib (ts_input_schema (te_spec e)) = Inr (te_validator e)) \<and>
    (err = None \<longrightarrow> set (registry_specs reg) = fst ` set ts) \<and>
    map td_name (registry_defs disabled reg) = filter (\<lambda>n. n \<notin> set disabled) (registry_names reg)"
proof -
  have ok: "registry_ok lib reg" using registry_ok_register_all [OF registry_ok_Nil assms] .
  have specs: "registry_register_all lib ts r = (None, reg') \<Longrightarrow>
      set (registry_specs reg') = fst ` set ts \<union> set (registry_specs r)" for r reg'
  proof (induction lib ts r rule: registry_register_all.induct)
    case (2 lib t ts r)
    obtain spec tl where t: "t = (spec, tl)" by (cases t)
    with 2(2) obtain r1 where r1: "registry_register lib t r = Inr r1"
      "registry_register_all lib ts r1 = (None, reg')" by (auto split: sum.splits)
    from r1(1) t obtain v where "map_of r (ts_name spec) = None"
      "r1 = insert_entry (ts_name spec) \<lparr>te_spec = spec, te_tool = tl, te_validator = v\<rparr> r"
      using registry_register_Inr by metis
    then have "set (registry_specs r1) = insert spec (set (registry_specs r))"
      by (simp add: registry_specs_def set_insert_entry)
    with 2(1) [OF r1] t show ?case by auto
  qed simp
  have names: "map (\<lambda>s. ts_name s) (registry_specs reg) = registry_names reg"
    using ok by (auto simp: registry_ok_def registry_specs_def registry_names_def)
  have "map td_name (registry_defs disabled reg) =
      filter (\<lambda>n. n \<notin> set disabled) (map (\<lambda>s. ts_name s) (registry_specs reg))"
    by (simp add: registry_defs_def registry_list_def filter_map comp_def)
  then have "map td_name (registry_defs disabled reg) = filter (\<lambda>n. n \<notin> set disabled) (registry_names reg)"
    unfolding names .
  with ok specs [of "[]" reg] assms show ?thesis
    by (auto simp: registry_ok_def registry_names_def registry_get_def registry_specs_def list_all_iff
        dest: map_of_SomeD)
qed

definition demo_spec :: "string \<Rightarrow> risk \<Rightarrow> tool_spec" where
  "demo_spec name rk = \<lparr>ts_name = name, ts_description = [],
     ts_input_schema = JObj [(''type'', JStr ''object'')], ts_risk = rk, ts_tags = [], ts_timeout_s = None\<rparr>"

definition demo_schema :: schema_lib where
  "demo_schema = \<lparr>sl_build = (\<lambda>_. None), sl_errors = (\<lambda>_ _. [])\<rparr>"

definition demo_registry :: "unit registry" where
  "demo_registry = snd (registry_register_all demo_schema
     [(demo_spec ''shell'' Execute, ()), (demo_spec ''grep'' ReadOnly, ())] [])"

theorem registry_sorted_witness:
  "sorted_wrt str_less (registry_names demo_registry) \<and> registry_names demo_registry = [''grep'', ''shell'']"
proof -
  have n: "registry_names demo_registry = [''grep'', ''shell'']" by code_simp
  obtain err reg where r: "registry_register_all demo_schema
     [(demo_spec ''shell'' Execute, ()), (demo_spec ''grep'' ReadOnly, ())] [] = (err, reg)" by fastforce
  then have "demo_registry = reg" by (simp add: demo_registry_def)
  with registry_sorted [OF r] n show ?thesis by blast
qed

end
