(* ===== verification/Mentor_Types.thy ===== *)
theory Mentor_Types
  imports Rpc_Messages Tool_Registry "HOL-Library.Word"
begin

text \<open>
  \<open>crates/core/src/mentor/types.rs\<close> and \<open>mentor/error.rs\<close>: the messages exchanged with the mentor, how
  a content block is written to and read from JSON, the stream events, and the mentor's errors with
  their mapping to RPC errors. Token counts are \<open>u64\<close> words (\<open>+\<close> wraps, as in a release build) and
  costs \<open>i64\<close> words of micro-dollars.
\<close>

type_synonym u64 = "64 word"

section \<open>Content\<close>

record usage =
  us_input :: u64
  us_output :: u64
  us_cache_read :: u64
  us_cache_creation :: u64

definition usage_zero :: usage where
  "usage_zero = \<lparr>us_input = 0, us_output = 0, us_cache_read = 0, us_cache_creation = 0\<rparr>"

datatype role = RoleUser | RoleAssistant | RoleSystem

datatype result_content =
    RText string
  | RImage json
  | RUnknown json

text \<open>The last flag of a block is its cache breakpoint.\<close>

datatype content_block =
    BText string bool
  | BToolUse string string json bool
  | BToolResult string "result_content list" bool bool
  | BThinking string string
  | BRedactedThinking string
  | BImage json
  | BDocument json
  | BUnknown json

definition block_text :: "string \<Rightarrow> content_block" where
  "block_text t = BText t False"

definition block_cached :: "content_block \<Rightarrow> content_block" where
  "block_cached b =
     (case b of
        BText t _ \<Rightarrow> BText t True
      | BToolUse i n v _ \<Rightarrow> BToolUse i n v True
      | BToolResult i c e _ \<Rightarrow> BToolResult i c e True
      | _ \<Rightarrow> b)"

definition block_as_text :: "content_block \<Rightarrow> string option" where
  "block_as_text b = (case b of BText t _ \<Rightarrow> Some t | _ \<Rightarrow> None)"

record chat_message =
  cm_role :: role
  cm_content :: "content_block list"

definition chat_user :: "string \<Rightarrow> chat_message" where
  "chat_user t = \<lparr>cm_role = RoleUser, cm_content = [block_text t]\<rparr>"

definition chat_assistant :: "content_block list \<Rightarrow> chat_message" where
  "chat_assistant bs = \<lparr>cm_role = RoleAssistant, cm_content = bs\<rparr>"

record system_block =
  sb_text :: string
  sb_cache :: bool

datatype effort = EffortLow | EffortMedium | EffortHigh | EffortXHigh | EffortMax

datatype thinking_display = Summarized | Omitted

datatype thinking = Adaptive thinking_display | ThinkingDisabled

definition thinking_default :: thinking where
  "thinking_default = Adaptive Summarized"

record mentor_request =
  mq_model :: string
  mq_max_tokens :: nat
  mq_system :: "system_block list"
  mq_messages :: "chat_message list"
  mq_tools :: "tool_def list"
  mq_thinking :: thinking
  mq_effort :: effort
  mq_metadata :: "string option option"

datatype stop_reason =
    EndTurn | StopToolUse | MaxTokens | StopSequence | Refusal | PauseTurn
  | ModelContextWindowExceeded | OtherStop string

record stop_details =
  sd_category :: "string option"
  sd_explanation :: "string option"
  sd_extra :: "(string \<times> json) list"

record timing =
  tm_first_byte_ms :: nat
  tm_total_ms :: nat
  tm_attempts :: nat

record mentor_response =
  mr_id :: string
  mr_model :: string
  mr_content :: "content_block list"
  mr_stop_reason :: stop_reason
  mr_stop_details :: "stop_details option"
  mr_usage :: usage
  mr_timing :: timing
  mr_request_bytes :: nat
  mr_raw_sse :: "string option"

definition response_text :: "mentor_response \<Rightarrow> string" where
  "response_text r = concat (List.map_filter block_as_text (mr_content r))"

definition block_tool_use :: "content_block \<Rightarrow> (string \<times> string \<times> json) option" where
  "block_tool_use b = (case b of BToolUse i n v _ \<Rightarrow> Some (i, n, v) | _ \<Rightarrow> None)"

definition response_tool_uses :: "mentor_response \<Rightarrow> (string \<times> string \<times> json) list" where
  "response_tool_uses r = List.map_filter block_tool_use (mr_content r)"

datatype stream_event =
    TextDelta string
  | ThinkingDelta string
  | ToolUseStart nat string string
  | ToolInputDelta nat string
  | BlockStop nat
  | UsageSoFar usage
  | StreamDone

section \<open>Content as JSON\<close>

text \<open>
  An internally tagged enum is an object with a \<open>type\<close> entry, or an array whose first element is the
  tag; the tag is a variant's name or its number. What no variant reads is kept as it is: the last,
  untagged variant takes any value.
\<close>

definition variant_tag :: "string list \<Rightarrow> json \<Rightarrow> string option" where
  "variant_tag names v =
     (case v of
        JStr s \<Rightarrow> (if s \<in> set names then Some s else None)
      | JInt i \<Rightarrow> (if 0 \<le> i \<and> nat i < length names then Some (names ! nat i) else None)
      | _ \<Rightarrow> None)"

definition tag_split :: "string list \<Rightarrow> json \<Rightarrow> (string \<times> json) option" where
  "tag_split names v =
     (case v of
        JObj fs \<Rightarrow> map_option (\<lambda>t. (t, v)) (Option.bind (map_of fs ''type'') (variant_tag names))
      | JArr (t # vs) \<Rightarrow> map_option (\<lambda>t. (t, JArr vs)) (variant_tag names t)
      | _ \<Rightarrow> None)"

text \<open>\<open>CacheFlag\<close>, flattened into a block: present when \<open>cache_control\<close> is set.\<close>

definition cache_json :: "bool \<Rightarrow> (string \<times> json) list" where
  "cache_json c = (if c then [(''cache_control'', jobj [(''type'', JStr ''ephemeral'')])] else [])"

definition cache_of :: "(string \<times> json) list \<Rightarrow> bool" where
  "cache_of fs = (case map_of fs ''cache_control'' of None \<Rightarrow> False | Some v \<Rightarrow> v \<noteq> JNull)"

definition result_tags :: "string list" where
  "result_tags = [''text'', ''image'']"

definition tagged_result :: "json \<Rightarrow> result_content option" where
  "tagged_result v =
     Option.bind (tag_split result_tags v) (\<lambda>(t, rest).
       if t = ''text'' then
         Option.bind (struct_fields [''text''] 1 rest) (\<lambda>fs.
           map_option RText (Option.bind (map_of fs ''text'') as_str))
       else
         Option.bind (struct_fields [''source''] 1 rest) (\<lambda>fs. map_option RImage (map_of fs ''source'')))"

definition result_of_json :: "json \<Rightarrow> result_content" where
  "result_of_json v = (case tagged_result v of Some r \<Rightarrow> r | None \<Rightarrow> RUnknown v)"

definition result_json :: "result_content \<Rightarrow> json" where
  "result_json r =
     (case r of
        RText t \<Rightarrow> jobj [(''type'', JStr ''text''), (''text'', JStr t)]
      | RImage s \<Rightarrow> jobj [(''type'', JStr ''image''), (''source'', s)]
      | RUnknown v \<Rightarrow> v)"

text \<open>\<open>string_or_result_blocks\<close>: a string stands for one text block; a missing content is none.\<close>

definition results_of_json :: "json option \<Rightarrow> result_content list option" where
  "results_of_json v =
     (case v of
        None \<Rightarrow> Some []
      | Some (JStr t) \<Rightarrow> Some [RText t]
      | Some (JArr vs) \<Rightarrow> Some (map result_of_json vs)
      | Some _ \<Rightarrow> None)"

definition block_tags :: "string list" where
  "block_tags = [''text'', ''tool_use'', ''tool_result'', ''thinking'', ''redacted_thinking'', ''image'', ''document'']"

definition obj_fields :: "json \<Rightarrow> (string \<times> json) list option" where
  "obj_fields v = (case v of JObj fs \<Rightarrow> Some fs | _ \<Rightarrow> None)"

definition str_of :: "(string \<times> json) list \<Rightarrow> string \<Rightarrow> string option" where
  "str_of fs k = Option.bind (map_of fs k) as_str"

definition tool_result_of :: "(string \<times> json) list \<Rightarrow> content_block option" where
  "tool_result_of fs =
     Option.bind (str_of fs ''tool_use_id'') (\<lambda>i.
     Option.bind (results_of_json (map_of fs ''content'')) (\<lambda>c.
     Option.bind (case map_of fs ''is_error'' of None \<Rightarrow> Some False | Some v \<Rightarrow> as_bool v) (\<lambda>e.
       Some (BToolResult i c e (cache_of fs)))))"

text \<open>The tagged variants; those with a flattened flag are read from an object only.\<close>

definition tagged_block :: "json \<Rightarrow> content_block option" where
  "tagged_block v =
     Option.bind (tag_split block_tags v) (\<lambda>(t, rest).
       if t = ''text'' then
         Option.bind (obj_fields rest) (\<lambda>fs. map_option (\<lambda>x. BText x (cache_of fs)) (str_of fs ''text''))
       else if t = ''tool_use'' then
         Option.bind (obj_fields rest) (\<lambda>fs.
         Option.bind (str_of fs ''id'') (\<lambda>i.
         Option.bind (str_of fs ''name'') (\<lambda>n.
         map_option (\<lambda>x. BToolUse i n x (cache_of fs)) (map_of fs ''input''))))
       else if t = ''tool_result'' then
         Option.bind (obj_fields rest) tool_result_of
       else if t = ''thinking'' then
         Option.bind (struct_fields [''thinking'', ''signature''] 2 rest) (\<lambda>fs.
         Option.bind (str_of fs ''thinking'') (\<lambda>x. map_option (BThinking x) (str_of fs ''signature'')))
       else if t = ''redacted_thinking'' then
         Option.bind (struct_fields [''data''] 1 rest) (\<lambda>fs. map_option BRedactedThinking (str_of fs ''data''))
       else if t = ''image'' then
         Option.bind (struct_fields [''source''] 1 rest) (\<lambda>fs. map_option BImage (map_of fs ''source''))
       else
         Option.bind (struct_fields [''source''] 1 rest) (\<lambda>fs. map_option BDocument (map_of fs ''source'')))"

definition block_of_json :: "json \<Rightarrow> content_block" where
  "block_of_json v = (case tagged_block v of Some b \<Rightarrow> b | None \<Rightarrow> BUnknown v)"

definition block_json :: "content_block \<Rightarrow> json" where
  "block_json b =
     (case b of
        BText t c \<Rightarrow> jobj ([(''type'', JStr ''text''), (''text'', JStr t)] @ cache_json c)
      | BToolUse i n v c \<Rightarrow>
          jobj ([(''type'', JStr ''tool_use''), (''id'', JStr i), (''name'', JStr n), (''input'', v)] @ cache_json c)
      | BToolResult i rs e c \<Rightarrow>
          jobj ([(''type'', JStr ''tool_result''), (''tool_use_id'', JStr i), (''content'', JArr (map result_json rs))]
                @ (if e then [(''is_error'', JBool True)] else []) @ cache_json c)
      | BThinking t s \<Rightarrow> jobj [(''type'', JStr ''thinking''), (''thinking'', JStr t), (''signature'', JStr s)]
      | BRedactedThinking d \<Rightarrow> jobj [(''type'', JStr ''redacted_thinking''), (''data'', JStr d)]
      | BImage s \<Rightarrow> jobj [(''type'', JStr ''image''), (''source'', s)]
      | BDocument s \<Rightarrow> jobj [(''type'', JStr ''document''), (''source'', s)]
      | BUnknown v \<Rightarrow> v)"

text \<open>\<open>Message.content\<close>: a string stands for one text block.\<close>

definition content_of_json :: "json \<Rightarrow> content_block list option" where
  "content_of_json v =
     (case v of
        JStr t \<Rightarrow> Some [block_text t]
      | JArr vs \<Rightarrow> Some (map block_of_json vs)
      | _ \<Rightarrow> None)"

definition content_json :: "content_block list \<Rightarrow> json" where
  "content_json bs = JArr (map block_json bs)"

definition stop_reason_of_json :: "json \<Rightarrow> stop_reason option" where
  "stop_reason_of_json v =
     map_option (\<lambda>s.
        if s = ''end_turn'' then EndTurn else if s = ''tool_use'' then StopToolUse
        else if s = ''max_tokens'' then MaxTokens else if s = ''stop_sequence'' then StopSequence
        else if s = ''refusal'' then Refusal else if s = ''pause_turn'' then PauseTurn
        else if s = ''model_context_window_exceeded'' then ModelContextWindowExceeded
        else OtherStop s) (as_str v)"

definition stop_reason_str :: "stop_reason \<Rightarrow> string" where
  "stop_reason_str r =
     (case r of EndTurn \<Rightarrow> ''end_turn'' | StopToolUse \<Rightarrow> ''tool_use'' | MaxTokens \<Rightarrow> ''max_tokens''
      | StopSequence \<Rightarrow> ''stop_sequence'' | Refusal \<Rightarrow> ''refusal'' | PauseTurn \<Rightarrow> ''pause_turn''
      | ModelContextWindowExceeded \<Rightarrow> ''model_context_window_exceeded'' | OtherStop s \<Rightarrow> s)"

text \<open>\<open>StopDetails\<close>: what is neither category nor explanation is kept in \<open>extra\<close>.\<close>

definition stop_details_of_json :: "json \<Rightarrow> stop_details option" where
  "stop_details_of_json v =
     Option.bind (obj_fields v) (\<lambda>fs.
     Option.bind (opt_field as_str (map_of fs ''category'')) (\<lambda>c.
     Option.bind (opt_field as_str (map_of fs ''explanation'')) (\<lambda>x.
       Some \<lparr>sd_category = c, sd_explanation = x,
             sd_extra = filter (\<lambda>(k, _). k \<noteq> ''category'' \<and> k \<noteq> ''explanation'') fs\<rparr>)))"

definition u64_field :: "(string \<times> json) list \<Rightarrow> string \<Rightarrow> u64 option" where
  "u64_field fs k = (case map_of fs k of None \<Rightarrow> Some 0 | Some v \<Rightarrow> map_option word_of_nat (as_u64 v))"

text \<open>\<open>Usage\<close>: missing fields are 0, so no element of the array form is required.\<close>

definition usage_of_json :: "json \<Rightarrow> usage option" where
  "usage_of_json v =
     Option.bind (struct_fields [''input_tokens'', ''output_tokens'', ''cache_read_input_tokens'',
                                 ''cache_creation_input_tokens''] 0 v) (\<lambda>fs.
     Option.bind (u64_field fs ''input_tokens'') (\<lambda>i.
     Option.bind (u64_field fs ''output_tokens'') (\<lambda>out.
     Option.bind (u64_field fs ''cache_read_input_tokens'') (\<lambda>cr.
     Option.bind (u64_field fs ''cache_creation_input_tokens'') (\<lambda>cc.
       Some \<lparr>us_input = i, us_output = out, us_cache_read = cr, us_cache_creation = cc\<rparr>)))))"

section \<open>Errors\<close>

text \<open>A \<open>reqwest::Error\<close>: its text and what the program asks of it.\<close>

record net_error =
  ne_text :: string
  ne_timeout :: bool
  ne_builder :: bool
  ne_redirect :: bool
  ne_decode :: bool

text \<open>Durations are whole seconds: the adapter makes them from a header of seconds.\<close>

datatype mentor_error =
    AuthError
  | RateLimited "nat option"
  | Overloaded
  | BadRequest string
  | RequestTooLarge
  | ApiError nat string string
  | StreamError string string
  | NetworkError net_error
  | Disconnected
  | ProtocolError string
  | StreamInterrupted "content_block list"
  | MentorCancelled
  | MentorTimeout

definition mentor_error_str :: "mentor_error \<Rightarrow> string" where
  "mentor_error_str e =
     (case e of
        AuthError \<Rightarrow> ''authentication failed (check the API key)''
      | RateLimited r \<Rightarrow>
          ''rate limited'' @ (case r of None \<Rightarrow> [] | Some s \<Rightarrow> '' (retry after '' @ show_nat s @ ''s)'')
      | Overloaded \<Rightarrow> ''API overloaded''
      | BadRequest m \<Rightarrow> ''invalid request: '' @ m
      | RequestTooLarge \<Rightarrow> ''request too large''
      | ApiError s k m \<Rightarrow> ''API error '' @ show_nat s @ '' '' @ k @ '': '' @ m
      | StreamError k m \<Rightarrow> ''stream error '' @ k @ '': '' @ m
      | NetworkError n \<Rightarrow> ''network error: '' @ ne_text n
      | Disconnected \<Rightarrow> ''connection closed before the response started''
      | ProtocolError m \<Rightarrow> ''protocol error: '' @ m
      | StreamInterrupted bs \<Rightarrow> ''stream interrupted after '' @ show_nat (length bs) @ '' content block(s)''
      | MentorCancelled \<Rightarrow> ''cancelled''
      | MentorTimeout \<Rightarrow> ''timed out'')"

definition is_retryable :: "mentor_error \<Rightarrow> bool" where
  "is_retryable e =
     (case e of
        RateLimited _ \<Rightarrow> True | Overloaded \<Rightarrow> True | MentorTimeout \<Rightarrow> True | Disconnected \<Rightarrow> True
      | ApiError s _ _ \<Rightarrow> 500 \<le> s
      | StreamError k _ \<Rightarrow> k = ''overloaded_error'' \<or> k = ''api_error''
      | NetworkError n \<Rightarrow> \<not> ne_builder n \<and> \<not> ne_redirect n \<and> \<not> ne_decode n
      | _ \<Rightarrow> False)"

definition mentor_error_kind :: "mentor_error \<Rightarrow> string" where
  "mentor_error_kind e =
     (case e of
        AuthError \<Rightarrow> ''auth'' | RateLimited _ \<Rightarrow> ''rate_limited'' | Overloaded \<Rightarrow> ''overloaded''
      | BadRequest _ \<Rightarrow> ''invalid_request'' | RequestTooLarge \<Rightarrow> ''request_too_large''
      | ApiError _ _ _ \<Rightarrow> ''api'' | StreamError _ _ \<Rightarrow> ''stream'' | NetworkError _ \<Rightarrow> ''network''
      | Disconnected \<Rightarrow> ''disconnected'' | ProtocolError _ \<Rightarrow> ''protocol''
      | StreamInterrupted _ \<Rightarrow> ''stream_interrupted'' | MentorCancelled \<Rightarrow> ''cancelled''
      | MentorTimeout \<Rightarrow> ''timeout'')"

definition mentor_error_http :: "mentor_error \<Rightarrow> nat option \<times> string option" where
  "mentor_error_http e =
     (case e of
        AuthError \<Rightarrow> (Some 401, Some ''authentication_error'')
      | RateLimited _ \<Rightarrow> (Some 429, Some ''rate_limit_error'')
      | Overloaded \<Rightarrow> (Some 529, Some ''overloaded_error'')
      | BadRequest _ \<Rightarrow> (Some 400, Some ''invalid_request_error'')
      | RequestTooLarge \<Rightarrow> (Some 413, Some ''request_too_large'')
      | ApiError s k _ \<Rightarrow> (Some s, Some k)
      | StreamError k _ \<Rightarrow> (None, Some k)
      | _ \<Rightarrow> (None, None))"

definition json_opt :: "('a \<Rightarrow> json) \<Rightarrow> 'a option \<Rightarrow> json" where
  "json_opt f v = (case v of None \<Rightarrow> JNull | Some x \<Rightarrow> f x)"

text \<open>Milliseconds of a wait, as \<open>u64\<close> (saturating).\<close>

definition wait_millis :: "nat \<Rightarrow> nat" where
  "wait_millis s = min (1000 * s) (2 ^ 64 - 1)"

definition rpc_of_mentor_error :: "mentor_error \<Rightarrow> rpc_error" where
  "rpc_of_mentor_error e =
     (case e of
        MentorCancelled \<Rightarrow> cancelled_error
      | RateLimited r \<Rightarrow>
          with_details (rpc_error_new (-32021) ''mentor_rate_limited'' (mentor_error_str e))
            (jobj [(''retry_after_ms'', json_opt (\<lambda>s. JInt (int (wait_millis s))) r)])
      | _ \<Rightarrow>
          with_details (rpc_error_new (-32020) ''mentor_error'' (mentor_error_str e))
            (jobj [(''reason'', JStr (mentor_error_kind e)),
                   (''http_status'', json_opt (JInt \<circ> int) (fst (mentor_error_http e))),
                   (''api_error_type'', json_opt JStr (snd (mentor_error_http e)))]))"

section \<open>Content survives being written and read\<close>

text \<open>
  A block is well formed when a value kept as unknown is one that no variant reads; that is what
  reading makes of any value, and what the API's own blocks are.
\<close>

definition wf_result :: "result_content \<Rightarrow> bool" where
  "wf_result r = (case r of RUnknown v \<Rightarrow> tagged_result v = None | _ \<Rightarrow> True)"

definition wf_block :: "content_block \<Rightarrow> bool" where
  "wf_block b =
     (case b of
        BUnknown v \<Rightarrow> tagged_block v = None
      | BToolResult _ rs _ _ \<Rightarrow> list_all wf_result rs
      | _ \<Rightarrow> True)"

lemma tag_split_jobj:
  assumes "map_of (rev fs) ''type'' = Some (JStr t)" and "t \<in> set names"
  obtains fs' where "jobj fs = JObj fs'" "map_of fs' = map_of (rev fs)" "tag_split names (jobj fs) = Some (t, JObj fs')"
proof -
  obtain fs' where j: "jobj fs = JObj fs'" "map_of fs' = map_of (rev fs)"
    by (simp add: jobj_def map_of_jobj_fold)
  with assms have "tag_split names (jobj fs) = Some (t, JObj fs')"
    by (simp add: tag_split_def variant_tag_def)
  with j that show thesis by blast
qed

lemma result_roundtrip: "wf_result r \<Longrightarrow> result_of_json (result_json r) = r"
proof (cases r)
  case (RText t)
  obtain fs' where "map_of fs' = map_of (rev [(''type'', JStr ''text''), (''text'', JStr t)])"
    "tag_split result_tags (jobj [(''type'', JStr ''text''), (''text'', JStr t)]) = Some (''text'', JObj fs')"
    by (rule tag_split_jobj [of "[(''type'', JStr ''text''), (''text'', JStr t)]" "''text''" result_tags])
       (simp_all add: result_tags_def)
  then show ?thesis
    by (simp add: RText result_of_json_def result_json_def tagged_result_def struct_fields_def)
next
  case (RImage s)
  obtain fs' where "map_of fs' = map_of (rev [(''type'', JStr ''image''), (''source'', s)])"
    "tag_split result_tags (jobj [(''type'', JStr ''image''), (''source'', s)]) = Some (''image'', JObj fs')"
    by (rule tag_split_jobj [of "[(''type'', JStr ''image''), (''source'', s)]" "''image''" result_tags])
       (simp_all add: result_tags_def)
  then show ?thesis
    by (simp add: RImage result_of_json_def result_json_def tagged_result_def struct_fields_def)
next
  case (RUnknown v)
  then show "wf_result r \<Longrightarrow> ?thesis" by (simp add: wf_result_def result_of_json_def result_json_def)
qed

lemma cache_of_flag: "map_of fs ''cache_control'' = map_of (cache_json c) ''cache_control'' \<Longrightarrow> cache_of fs = c"
  by (simp add: cache_of_def cache_json_def jobj_def split: if_splits)

lemma block_roundtrip:
  assumes "wf_block b"
  shows "block_of_json (block_json b) = b"
proof (cases b)
  case (BText t c)
  obtain fs' where m: "map_of fs' = map_of (rev ([(''type'', JStr ''text''), (''text'', JStr t)] @ cache_json c))"
    "tag_split block_tags (block_json b) = Some (''text'', JObj fs')"
    unfolding BText block_json_def content_block.case
    by (rule tag_split_jobj [of "[(''type'', JStr ''text''), (''text'', JStr t)] @ cache_json c" "''text''" block_tags])
       (simp_all add: block_tags_def cache_json_def)
  have "cache_of fs' = c" "str_of fs' ''text'' = Some t"
    by (rule cache_of_flag, simp add: m(1) cache_json_def, simp add: str_of_def m(1) cache_json_def)
  then have "tagged_block (block_json b) = Some (BText t c)"
    by (simp add: m(2) tagged_block_def obj_fields_def)
  then show ?thesis by (simp add: block_of_json_def BText)
next
  case (BToolUse i n v c)
  obtain fs' where m: "map_of fs' = map_of (rev ([(''type'', JStr ''tool_use''), (''id'', JStr i), (''name'', JStr n), (''input'', v)] @ cache_json c))"
    "tag_split block_tags (block_json b) = Some (''tool_use'', JObj fs')"
    unfolding BToolUse block_json_def content_block.case
    by (rule tag_split_jobj [of "[(''type'', JStr ''tool_use''), (''id'', JStr i), (''name'', JStr n), (''input'', v)] @ cache_json c" "''tool_use''" block_tags])
       (simp_all add: block_tags_def cache_json_def)
  have "cache_of fs' = c" "str_of fs' ''id'' = Some i" "str_of fs' ''name'' = Some n" "map_of fs' ''input'' = Some v"
    by (rule cache_of_flag, simp_all add: str_of_def m(1) cache_json_def)
  then have "tagged_block (block_json b) = Some (BToolUse i n v c)"
    by (simp add: m(2) tagged_block_def obj_fields_def)
  then show ?thesis by (simp add: block_of_json_def BToolUse)
next
  case (BToolResult i rs e c)
  let ?fs = "[(''type'', JStr ''tool_result''), (''tool_use_id'', JStr i), (''content'', JArr (map result_json rs))]
                @ (if e then [(''is_error'', JBool True)] else []) @ cache_json c"
  obtain fs' where m: "map_of fs' = map_of (rev ?fs)"
    "tag_split block_tags (block_json b) = Some (''tool_result'', JObj fs')"
    unfolding BToolResult block_json_def content_block.case
    by (rule tag_split_jobj [of ?fs "''tool_result''" block_tags])
       (simp_all add: block_tags_def cache_json_def)
  have "list_all wf_result rs" using assms by (simp add: BToolResult wf_block_def)
  then have "map result_of_json (map result_json rs) = rs"
    by (induction rs) (simp_all add: result_roundtrip)
  moreover have "cache_of fs' = c" "str_of fs' ''tool_use_id'' = Some i"
    "map_of fs' ''content'' = Some (JArr (map result_json rs))"
    "(case map_of fs' ''is_error'' of None \<Rightarrow> Some False | Some v \<Rightarrow> as_bool v) = Some e"
    by (rule cache_of_flag, simp_all add: str_of_def m(1) cache_json_def as_bool_def)
  ultimately have "tagged_block (block_json b) = Some (BToolResult i rs e c)"
    by (simp add: m(2) tagged_block_def obj_fields_def tool_result_of_def results_of_json_def)
  then show ?thesis by (simp add: block_of_json_def BToolResult)
next
  case (BThinking t s)
  obtain fs' where m: "map_of fs' = map_of (rev [(''type'', JStr ''thinking''), (''thinking'', JStr t), (''signature'', JStr s)])"
    "tag_split block_tags (block_json b) = Some (''thinking'', JObj fs')"
    unfolding BThinking block_json_def content_block.case
    by (rule tag_split_jobj [of "[(''type'', JStr ''thinking''), (''thinking'', JStr t), (''signature'', JStr s)]" "''thinking''" block_tags])
       (simp_all add: block_tags_def)
  then have "tagged_block (block_json b) = Some (BThinking t s)"
    by (simp add: tagged_block_def struct_fields_def str_of_def)
  then show ?thesis by (simp add: block_of_json_def BThinking)
next
  case (BRedactedThinking d)
  obtain fs' where m: "map_of fs' = map_of (rev [(''type'', JStr ''redacted_thinking''), (''data'', JStr d)])"
    "tag_split block_tags (block_json b) = Some (''redacted_thinking'', JObj fs')"
    unfolding BRedactedThinking block_json_def content_block.case
    by (rule tag_split_jobj [of "[(''type'', JStr ''redacted_thinking''), (''data'', JStr d)]" "''redacted_thinking''" block_tags])
       (simp_all add: block_tags_def)
  then have "tagged_block (block_json b) = Some (BRedactedThinking d)"
    by (simp add: tagged_block_def struct_fields_def str_of_def)
  then show ?thesis by (simp add: block_of_json_def BRedactedThinking)
next
  case (BImage s)
  obtain fs' where m: "map_of fs' = map_of (rev [(''type'', JStr ''image''), (''source'', s)])"
    "tag_split block_tags (block_json b) = Some (''image'', JObj fs')"
    unfolding BImage block_json_def content_block.case
    by (rule tag_split_jobj [of "[(''type'', JStr ''image''), (''source'', s)]" "''image''" block_tags])
       (simp_all add: block_tags_def)
  then have "tagged_block (block_json b) = Some (BImage s)"
    by (simp add: tagged_block_def struct_fields_def)
  then show ?thesis by (simp add: block_of_json_def BImage)
next
  case (BDocument s)
  obtain fs' where m: "map_of fs' = map_of (rev [(''type'', JStr ''document''), (''source'', s)])"
    "tag_split block_tags (block_json b) = Some (''document'', JObj fs')"
    unfolding BDocument block_json_def content_block.case
    by (rule tag_split_jobj [of "[(''type'', JStr ''document''), (''source'', s)]" "''document''" block_tags])
       (simp_all add: block_tags_def)
  then have "tagged_block (block_json b) = Some (BDocument s)"
    by (simp add: tagged_block_def struct_fields_def)
  then show ?thesis by (simp add: block_of_json_def BDocument)
next
  case (BUnknown v)
  with assms show ?thesis by (simp add: wf_block_def block_of_json_def block_json_def)
qed

text \<open>What is read from JSON is well formed, so it is what it was once more written and read.\<close>

lemma wf_result_of_json: "wf_result (result_of_json w)"
proof (cases "tagged_result w")
  case None
  then show ?thesis by (simp add: result_of_json_def wf_result_def)
next
  case (Some r)
  then have "\<nexists>v. r = RUnknown v" by (auto simp: tagged_result_def bind_eq_Some_conv split: if_splits)
  with Some show ?thesis by (cases r) (simp_all add: result_of_json_def wf_result_def)
qed

lemma wf_results_of_json: "results_of_json v = Some rs \<Longrightarrow> list_all wf_result rs"
  unfolding results_of_json_def
  by (cases v; cases "the v") (auto simp: list_all_iff wf_result_of_json, simp add: wf_result_def)

lemma tagged_block_unknown: "tagged_block v \<noteq> Some (BUnknown w)"
  unfolding tagged_block_def tool_result_of_def by (auto simp: bind_eq_Some_conv split: if_splits)

lemma tagged_block_results:
  assumes "tagged_block v = Some (BToolResult i rs e c)"
  shows "list_all wf_result rs"
proof -
  from assms obtain fs where "tool_result_of fs = Some (BToolResult i rs e c)"
    unfolding tagged_block_def by (auto simp: bind_eq_Some_conv split: if_splits)
  then obtain j where "results_of_json j = Some rs"
    unfolding tool_result_of_def by (auto simp: bind_eq_Some_conv)
  then show ?thesis by (rule wf_results_of_json)
qed

lemma wf_block_of_json: "wf_block (block_of_json v)"
proof (cases "tagged_block v")
  case None
  then show ?thesis by (simp add: block_of_json_def wf_block_def)
next
  case (Some b)
  with tagged_block_unknown tagged_block_results show ?thesis
    by (cases b) (auto simp: block_of_json_def wf_block_def)
qed

end
