(* ===== verification/Mentor_Assemble.thy ===== *)
theory Mentor_Assemble
  imports Mentor_Types
begin

text \<open>
  \<open>crates/core/src/mentor/assemble.rs\<close>: the stream events of the Messages API turned into the events
  forwarded to the runtime and a final response. \<open>serde_json\<close>'s reader is the parameter record
  \<open>assemble_lib\<close>; what the derived \<open>Deserialize\<close> makes of a JSON value is written out.
\<close>

record assemble_lib =
  al_parse :: "string \<Rightarrow> string + json"
  al_why :: "json \<Rightarrow> string"

datatype partial_block =
    PText string
  | PToolUse string string string
  | PThinking string string
  | PRedactedThinking string
  | POther json

record assembler =
  as_id :: string
  as_model :: string
  as_blocks :: "partial_block option list"
  as_done :: "content_block option list"
  as_usage :: usage
  as_stop_reason :: "stop_reason option"
  as_stop_details :: "stop_details option"
  as_finished :: bool
  as_started :: bool

definition assembler_new :: assembler where
  "assembler_new =
     \<lparr>as_id = [], as_model = [], as_blocks = [], as_done = [], as_usage = usage_zero,
      as_stop_reason = None, as_stop_details = None, as_finished = False, as_started = False\<rparr>"

section \<open>The envelope of an event\<close>

record message_start =
  ms_id :: string
  ms_model :: string
  ms_usage :: usage

record api_error_body =
  eb_kind :: string
  eb_message :: string

record envelope =
  en_kind :: string
  en_index :: "nat option"
  en_message :: "message_start option"
  en_content_block :: "json option"
  en_delta :: "json option"
  en_usage :: "usage option"
  en_error :: "api_error_body option"

text \<open>A \<open>String\<close> field with a default.\<close>

definition str_default :: "json option \<Rightarrow> string option" where
  "str_default v = (case v of None \<Rightarrow> Some [] | Some x \<Rightarrow> as_str x)"

definition message_start_of_json :: "json \<Rightarrow> message_start option" where
  "message_start_of_json v =
     Option.bind (struct_fields [''id'', ''model'', ''usage''] 0 v) (\<lambda>fs.
     Option.bind (str_default (map_of fs ''id'')) (\<lambda>i.
     Option.bind (str_default (map_of fs ''model'')) (\<lambda>m.
     Option.bind (case map_of fs ''usage'' of None \<Rightarrow> Some usage_zero | Some u \<Rightarrow> usage_of_json u) (\<lambda>u.
       Some \<lparr>ms_id = i, ms_model = m, ms_usage = u\<rparr>))))"

definition api_error_of_json :: "json \<Rightarrow> api_error_body option" where
  "api_error_of_json v =
     Option.bind (struct_fields [''type'', ''message''] 0 v) (\<lambda>fs.
     Option.bind (str_default (map_of fs ''type'')) (\<lambda>k.
     Option.bind (str_default (map_of fs ''message'')) (\<lambda>m.
       Some \<lparr>eb_kind = k, eb_message = m\<rparr>)))"

definition envelope_from :: "(string \<Rightarrow> json option) \<Rightarrow> envelope option" where
  "envelope_from f =
     Option.bind (Option.bind (f ''type'') as_str) (\<lambda>k.
     Option.bind (opt_field as_u64 (f ''index'')) (\<lambda>i.
     Option.bind (opt_field message_start_of_json (f ''message'')) (\<lambda>m.
     Option.bind (opt_field Some (f ''content_block'')) (\<lambda>b.
     Option.bind (opt_field Some (f ''delta'')) (\<lambda>d.
     Option.bind (opt_field usage_of_json (f ''usage'')) (\<lambda>u.
     Option.bind (opt_field api_error_of_json (f ''error'')) (\<lambda>e.
       Some \<lparr>en_kind = k, en_index = i, en_message = m, en_content_block = b, en_delta = d, en_usage = u,
             en_error = e\<rparr>)))))))"

definition envelope_of_json :: "json \<Rightarrow> envelope option" where
  "envelope_of_json v =
     Option.bind (struct_fields [''type'', ''index'', ''message'', ''content_block'', ''delta'', ''usage'', ''error''] 1 v)
       (\<lambda>fs. envelope_from (map_of fs))"

section \<open>Blocks\<close>

definition str_field :: "json \<Rightarrow> string \<Rightarrow> string" where
  "str_field v k = (case Option.bind (jget k v) as_str of Some s \<Rightarrow> s | None \<Rightarrow> [])"

text \<open>\<open>resize(index + 1, None)\<close> when too short, then the slot is set.\<close>

definition set_slot :: "nat \<Rightarrow> 'a \<Rightarrow> 'a option list \<Rightarrow> 'a option list" where
  "set_slot i x xs = (xs @ replicate (Suc i - length xs) None)[i := Some x]"

definition get_slot :: "nat \<Rightarrow> 'a option list \<Rightarrow> 'a option" where
  "get_slot i xs = (if i < length xs then xs ! i else None)"

definition finish_block :: "assemble_lib \<Rightarrow> partial_block \<Rightarrow> mentor_error + content_block" where
  "finish_block lib p =
     (case p of
        PText t \<Rightarrow> Inr (BText t False)
      | PToolUse i n js \<Rightarrow>
          (if trim js = [] then Inr (BToolUse i n (JObj []) False)
           else case al_parse lib js of
             Inr v \<Rightarrow> Inr (BToolUse i n v False)
           | Inl e \<Rightarrow> Inl (ProtocolError (''tool_use '' @ n @ '' input is not JSON: '' @ e)))
      | PThinking t s \<Rightarrow> Inr (BThinking t s)
      | PRedactedThinking d \<Rightarrow> Inr (BRedactedThinking d)
      | POther v \<Rightarrow> Inr (block_of_json v))"

text \<open>\<open>content\<close>: the finished blocks, then what has begun and can be finished as it is.\<close>

definition asm_content :: "assemble_lib \<Rightarrow> assembler \<Rightarrow> content_block list" where
  "asm_content lib a =
     List.map_filter id (as_done a)
     @ List.map_filter (\<lambda>p. case finish_block lib p of Inr b \<Rightarrow> Some b | Inl _ \<Rightarrow> None)
         (List.map_filter id (as_blocks a))"

definition asm_stop_reason :: "assembler \<Rightarrow> stop_reason" where
  "asm_stop_reason a = (case as_stop_reason a of Some r \<Rightarrow> r | None \<Rightarrow> EndTurn)"

section \<open>Feeding one event\<close>

type_synonym feed_result = "(mentor_error + stream_event list) \<times> assembler"

definition feed_message_start :: "envelope \<Rightarrow> assembler \<Rightarrow> feed_result" where
  "feed_message_start env a =
     (case en_message env of
        None \<Rightarrow> (Inl (ProtocolError ''message_start without message''), a)
      | Some m \<Rightarrow>
          (Inr [UsageSoFar (ms_usage m)],
           a\<lparr>as_id := ms_id m, as_model := ms_model m, as_usage := ms_usage m\<rparr>))"

definition start_block :: "nat \<Rightarrow> json \<Rightarrow> stream_event list \<times> partial_block" where
  "start_block index block =
     (let t = Option.bind (jget ''type'' block) as_str in
      if t = Some ''text'' then ([], PText (str_field block ''text''))
      else if t = Some ''tool_use'' then
        ([ToolUseStart index (str_field block ''id'') (str_field block ''name'')],
         PToolUse (str_field block ''id'') (str_field block ''name'') [])
      else if t = Some ''thinking'' then
        ([], PThinking (str_field block ''thinking'') (str_field block ''signature''))
      else if t = Some ''redacted_thinking'' then ([], PRedactedThinking (str_field block ''data''))
      else ([], POther block))"

definition feed_block_start :: "envelope \<Rightarrow> assembler \<Rightarrow> feed_result" where
  "feed_block_start env a =
     (case en_index env of
        None \<Rightarrow> (Inl (ProtocolError ''content_block_start without index''), a)
      | Some i \<Rightarrow>
          (case start_block i (case en_content_block env of Some b \<Rightarrow> b | None \<Rightarrow> JNull) of
             (evs, p) \<Rightarrow> (Inr evs, a\<lparr>as_started := True, as_blocks := set_slot i p (as_blocks a)\<rparr>)))"

definition add_delta :: "nat \<Rightarrow> json \<Rightarrow> partial_block \<Rightarrow> stream_event list \<times> partial_block" where
  "add_delta index delta p =
     (let kind = str_field delta ''type'' in
      case p of
        PText t \<Rightarrow>
          (if kind = ''text_delta'' then
             ([TextDelta (str_field delta ''text'')], PText (t @ str_field delta ''text''))
           else ([], p))
      | PToolUse i n js \<Rightarrow>
          (if kind = ''input_json_delta'' then
             ([ToolInputDelta index (str_field delta ''partial_json'')],
              PToolUse i n (js @ str_field delta ''partial_json''))
           else ([], p))
      | PThinking t s \<Rightarrow>
          (if kind = ''thinking_delta'' then
             ([ThinkingDelta (str_field delta ''thinking'')], PThinking (t @ str_field delta ''thinking'') s)
           else if kind = ''signature_delta'' then ([], PThinking t (s @ str_field delta ''signature''))
           else ([], p))
      | _ \<Rightarrow> ([], p))"

definition feed_block_delta :: "envelope \<Rightarrow> assembler \<Rightarrow> feed_result" where
  "feed_block_delta env a =
     (case en_index env of
        None \<Rightarrow> (Inl (ProtocolError ''content_block_delta without index''), a)
      | Some i \<Rightarrow>
          (case get_slot i (as_blocks a) of
             None \<Rightarrow> (Inl (ProtocolError (''delta for unknown block '' @ show_nat i)), a)
           | Some p \<Rightarrow>
               (case add_delta i (case en_delta env of Some d \<Rightarrow> d | None \<Rightarrow> JNull) p of
                  (evs, p') \<Rightarrow> (Inr evs, a\<lparr>as_blocks := (as_blocks a)[i := Some p']\<rparr>))))"

definition feed_block_stop :: "assemble_lib \<Rightarrow> envelope \<Rightarrow> assembler \<Rightarrow> feed_result" where
  "feed_block_stop lib env a =
     (case en_index env of
        None \<Rightarrow> (Inl (ProtocolError ''content_block_stop without index''), a)
      | Some i \<Rightarrow>
          (case get_slot i (as_blocks a) of
             None \<Rightarrow> (Inl (ProtocolError (''stop for unknown block '' @ show_nat i)), a)
           | Some p \<Rightarrow>
               (let a' = a\<lparr>as_blocks := (as_blocks a)[i := None]\<rparr> in
                case finish_block lib p of
                  Inl e \<Rightarrow> (Inl e, a')
                | Inr b \<Rightarrow> (Inr [BlockStop i], a'\<lparr>as_done := set_slot i b (as_done a')\<rparr>))))"

definition usage_max :: "usage \<Rightarrow> usage \<Rightarrow> usage" where
  "usage_max u v =
     \<lparr>us_input = max (us_input u) (us_input v), us_output = max (us_output u) (us_output v),
      us_cache_read = max (us_cache_read u) (us_cache_read v),
      us_cache_creation = max (us_cache_creation u) (us_cache_creation v)\<rparr>"

definition not_null :: "json option \<Rightarrow> json option" where
  "not_null v = (if v = Some JNull then None else v)"

definition apply_message_delta :: "json \<Rightarrow> assembler \<Rightarrow> assembler" where
  "apply_message_delta d a =
     (let a1 = (case not_null (jget ''stop_reason'' d) of
                  Some r \<Rightarrow> a\<lparr>as_stop_reason := stop_reason_of_json r\<rparr> | None \<Rightarrow> a)
      in case not_null (jget ''stop_details'' d) of
           Some x \<Rightarrow> a1\<lparr>as_stop_details := stop_details_of_json x\<rparr> | None \<Rightarrow> a1)"

definition feed_message_delta :: "envelope \<Rightarrow> assembler \<Rightarrow> feed_result" where
  "feed_message_delta env a =
     (let a1 = (case en_delta env of Some d \<Rightarrow> apply_message_delta d a | None \<Rightarrow> a) in
      case en_usage env of
        None \<Rightarrow> (Inr [], a1)
      | Some u \<Rightarrow>
          (Inr [UsageSoFar (usage_max (as_usage a1) u)], a1\<lparr>as_usage := usage_max (as_usage a1) u\<rparr>))"

definition feed_envelope :: "assemble_lib \<Rightarrow> string \<Rightarrow> envelope \<Rightarrow> assembler \<Rightarrow> feed_result" where
  "feed_envelope lib data env a =
     (let k = en_kind env in
      if k = ''message_start'' then feed_message_start env a
      else if k = ''content_block_start'' then feed_block_start env a
      else if k = ''content_block_delta'' then feed_block_delta env a
      else if k = ''content_block_stop'' then feed_block_stop lib env a
      else if k = ''message_delta'' then feed_message_delta env a
      else if k = ''message_stop'' then (Inr [StreamDone], a\<lparr>as_finished := True\<rparr>)
      else if k = ''ping'' then (Inr [], a)
      else if k = ''error'' then
        (let e = (case en_error env of Some e \<Rightarrow> e | None \<Rightarrow> \<lparr>eb_kind = ''unknown'', eb_message = data\<rparr>)
         in (Inl (StreamError (eb_kind e) (eb_message e)), a))
      else (Inr [], a))"

definition feed :: "assemble_lib \<Rightarrow> string \<Rightarrow> assembler \<Rightarrow> feed_result" where
  "feed lib data a =
     (case al_parse lib data of
        Inl e \<Rightarrow> (Inl (ProtocolError (''bad event JSON: '' @ e)), a)
      | Inr v \<Rightarrow>
          (case envelope_of_json v of
             None \<Rightarrow> (Inl (ProtocolError (''bad event JSON: '' @ al_why lib v)), a)
           | Some env \<Rightarrow> feed_envelope lib data env a))"

text \<open>Event after event, up to the first error.\<close>

fun feed_all :: "assemble_lib \<Rightarrow> string list \<Rightarrow> assembler \<Rightarrow> feed_result" where
  "feed_all lib [] a = (Inr [], a)"
| "feed_all lib (d # ds) a =
     (case feed lib d a of
        (Inl e, a') \<Rightarrow> (Inl e, a')
      | (Inr evs, a') \<Rightarrow>
          (case feed_all lib ds a' of (Inl e, q) \<Rightarrow> (Inl e, q) | (Inr evs', q) \<Rightarrow> (Inr (evs @ evs'), q)))"

section \<open>A response as the API streams it\<close>

text \<open>
  What the API documents: each block opens empty, arrives in pieces and closes, one after the other,
  between the start of the message and its end. The pieces may be cut anywhere.
\<close>

datatype streamed =
    SText "string list"
  | SToolUse string string "string list"
  | SThinking "string list" "string list"
  | SRedacted string

definition ev_block_start :: "nat \<Rightarrow> json \<Rightarrow> json" where
  "ev_block_start i v =
     jobj [(''type'', JStr ''content_block_start''), (''index'', JInt (int i)), (''content_block'', v)]"

definition ev_block_delta :: "nat \<Rightarrow> json \<Rightarrow> json" where
  "ev_block_delta i v =
     jobj [(''type'', JStr ''content_block_delta''), (''index'', JInt (int i)), (''delta'', v)]"

definition ev_block_stop :: "nat \<Rightarrow> json" where
  "ev_block_stop i = jobj [(''type'', JStr ''content_block_stop''), (''index'', JInt (int i))]"

definition usage_json :: "usage \<Rightarrow> json" where
  "usage_json u =
     jobj [(''input_tokens'', JInt (uint (us_input u))), (''output_tokens'', JInt (uint (us_output u))),
           (''cache_read_input_tokens'', JInt (uint (us_cache_read u))),
           (''cache_creation_input_tokens'', JInt (uint (us_cache_creation u)))]"

definition ev_message_start :: "string \<Rightarrow> string \<Rightarrow> usage \<Rightarrow> json" where
  "ev_message_start i m u =
     jobj [(''type'', JStr ''message_start''),
           (''message'', jobj [(''id'', JStr i), (''model'', JStr m), (''usage'', usage_json u)])]"

definition ev_message_delta :: "stop_reason \<Rightarrow> usage \<Rightarrow> json" where
  "ev_message_delta r u =
     jobj [(''type'', JStr ''message_delta''), (''delta'', jobj [(''stop_reason'', JStr (stop_reason_str r))]),
           (''usage'', usage_json u)]"

definition ev_message_stop :: json where
  "ev_message_stop = jobj [(''type'', JStr ''message_stop'')]"

definition delta_of :: "string \<Rightarrow> string \<Rightarrow> string \<Rightarrow> json" where
  "delta_of kind field piece = jobj [(''type'', JStr kind), (field, JStr piece)]"

definition streamed_open :: "streamed \<Rightarrow> json" where
  "streamed_open b =
     (case b of
        SText _ \<Rightarrow> jobj [(''type'', JStr ''text''), (''text'', JStr [])]
      | SToolUse i n _ \<Rightarrow>
          jobj [(''type'', JStr ''tool_use''), (''id'', JStr i), (''name'', JStr n), (''input'', JObj [])]
      | SThinking _ _ \<Rightarrow> jobj [(''type'', JStr ''thinking''), (''thinking'', JStr [])]
      | SRedacted d \<Rightarrow> jobj [(''type'', JStr ''redacted_thinking''), (''data'', JStr d)])"

definition streamed_deltas :: "streamed \<Rightarrow> json list" where
  "streamed_deltas b =
     (case b of
        SText ps \<Rightarrow> map (delta_of ''text_delta'' ''text'') ps
      | SToolUse _ _ ps \<Rightarrow> map (delta_of ''input_json_delta'' ''partial_json'') ps
      | SThinking ps ss \<Rightarrow>
          map (delta_of ''thinking_delta'' ''thinking'') ps @ map (delta_of ''signature_delta'' ''signature'') ss
      | SRedacted _ \<Rightarrow> [])"

definition block_stream :: "nat \<Rightarrow> streamed \<Rightarrow> json list" where
  "block_stream i b =
     ev_block_start i (streamed_open b) # map (ev_block_delta i) (streamed_deltas b) @ [ev_block_stop i]"

fun blocks_stream :: "nat \<Rightarrow> streamed list \<Rightarrow> json list" where
  "blocks_stream i [] = []"
| "blocks_stream i (b # bs) = block_stream i b @ blocks_stream (Suc i) bs"

text \<open>The block meant; \<open>None\<close> for a tool call whose pieces are no JSON.\<close>

definition streamed_block :: "assemble_lib \<Rightarrow> streamed \<Rightarrow> content_block option" where
  "streamed_block lib b =
     (case b of
        SText ps \<Rightarrow> Some (BText (concat ps) False)
      | SToolUse i n ps \<Rightarrow>
          (if trim (concat ps) = [] then Some (BToolUse i n (JObj []) False)
           else case al_parse lib (concat ps) of Inr v \<Rightarrow> Some (BToolUse i n v False) | Inl _ \<Rightarrow> None)
      | SThinking ps ss \<Rightarrow> Some (BThinking (concat ps) (concat ss))
      | SRedacted d \<Rightarrow> Some (BRedactedThinking d))"

text \<open>The text the subscribers saw.\<close>

definition shown_text :: "stream_event list \<Rightarrow> string" where
  "shown_text evs = concat (List.map_filter (\<lambda>e. case e of TextDelta t \<Rightarrow> Some t | _ \<Rightarrow> None) evs)"

lemma shown_text_append [simp]: "shown_text (a @ b) = shown_text a @ shown_text b"
  by (simp add: shown_text_def map_filter_def)

lemma shown_text_simps [simp]:
  "shown_text [] = []" "shown_text (TextDelta t # evs) = t @ shown_text evs"
  "shown_text (ThinkingDelta t # evs) = shown_text evs"
  "shown_text (ToolUseStart i t n # evs) = shown_text evs"
  "shown_text (ToolInputDelta i t # evs) = shown_text evs"
  "shown_text (BlockStop i # evs) = shown_text evs" "shown_text (UsageSoFar u # evs) = shown_text evs"
  "shown_text (StreamDone # evs) = shown_text evs"
  by (simp_all add: shown_text_def map_filter_def)

lemma envelope_of_jobj: "envelope_of_json (jobj fs) = envelope_from (map_of (rev fs))"
proof -
  obtain fs' where "struct_fields [''type'', ''index'', ''message'', ''content_block'', ''delta'', ''usage'', ''error''] 1
      (jobj fs) = Some fs'" "map_of fs' = map_of (rev fs)"
    using struct_fields_jobj by blast
  then show ?thesis by (simp add: envelope_of_json_def)
qed

lemma as_u64_int: "i < 2 ^ 64 \<Longrightarrow> as_u64 (JInt (int i)) = Some i"
  by (simp add: as_u64_def)

lemma as_u64_uint: "map_option word_of_nat (as_u64 (JInt (uint (w :: u64)))) = Some w"
proof -
  have "uint w < 2 ^ 64" using uint_lt2p [of w] by simp
  then show ?thesis by (simp add: as_u64_def)
qed

lemma usage_roundtrip: "usage_of_json (usage_json u) = Some u"
proof -
  let ?fs = "[(''input_tokens'', JInt (uint (us_input u))), (''output_tokens'', JInt (uint (us_output u))),
           (''cache_read_input_tokens'', JInt (uint (us_cache_read u))),
           (''cache_creation_input_tokens'', JInt (uint (us_cache_creation u)))]"
  obtain fs' where "struct_fields [''input_tokens'', ''output_tokens'', ''cache_read_input_tokens'',
      ''cache_creation_input_tokens''] 0 (jobj ?fs) = Some fs'" "map_of fs' = map_of (rev ?fs)"
    using struct_fields_jobj by blast
  then show ?thesis by (simp add: usage_of_json_def usage_json_def u64_field_def as_u64_uint)
qed

lemma str_field_jobj: "str_field (jobj fs) k = (case Option.bind (map_of (rev fs) k) as_str of Some s \<Rightarrow> s | None \<Rightarrow> [])"
  by (simp add: str_field_def jget_jobj)

lemma not_null_jobj [simp]: "jobj fs \<noteq> JNull"
  by (simp add: jobj_def)

lemma opt_field_not_null: "v \<noteq> JNull \<Longrightarrow> opt_field f (Some v) = map_option Some (f v)"
  by (cases v) (simp_all add: opt_field_def)

lemma feed_jobj:
  assumes "al_parse lib d = Inr (jobj fs)" and "envelope_from (map_of (rev fs)) = Some env"
  shows "feed lib d a = feed_envelope lib d env a"
  using assms by (simp add: feed_def envelope_of_jobj)

lemma feed_ev_start:
  assumes "al_parse lib d = Inr (ev_block_start i v)" "i < 2 ^ 64" "v \<noteq> JNull"
  shows "feed lib d a =
    (case start_block i v of (evs, p) \<Rightarrow> (Inr evs, a\<lparr>as_started := True, as_blocks := set_slot i p (as_blocks a)\<rparr>))"
  using assms
  by (simp add: ev_block_start_def feed_jobj [OF assms(1) [unfolded ev_block_start_def]] envelope_from_def
      opt_field_not_null as_u64_int opt_field_def [of _ None] feed_envelope_def feed_block_start_def)

lemma feed_ev_delta:
  assumes "al_parse lib d = Inr (ev_block_delta i v)" "i < 2 ^ 64" "v \<noteq> JNull" "get_slot i (as_blocks a) = Some p"
  shows "feed lib d a =
    (case add_delta i v p of (evs, p') \<Rightarrow> (Inr evs, a\<lparr>as_blocks := (as_blocks a)[i := Some p']\<rparr>))"
  using assms
  by (simp add: ev_block_delta_def feed_jobj [OF assms(1) [unfolded ev_block_delta_def]] envelope_from_def
      opt_field_not_null as_u64_int opt_field_def [of _ None] feed_envelope_def feed_block_delta_def)

lemma feed_ev_stop:
  assumes "al_parse lib d = Inr (ev_block_stop i)" "i < 2 ^ 64" "get_slot i (as_blocks a) = Some p"
    and "finish_block lib p = Inr b"
  shows "feed lib d a =
    (Inr [BlockStop i], a\<lparr>as_blocks := (as_blocks a)[i := None], as_done := set_slot i b (as_done a)\<rparr>)"
  using assms
  by (simp add: ev_block_stop_def feed_jobj [OF assms(1) [unfolded ev_block_stop_def]] envelope_from_def
      opt_field_not_null as_u64_int opt_field_def [of _ None] feed_envelope_def feed_block_stop_def Let_def)

text \<open>The deltas of one block, applied one after the other.\<close>

fun add_deltas :: "nat \<Rightarrow> json list \<Rightarrow> partial_block \<Rightarrow> stream_event list \<times> partial_block" where
  "add_deltas i [] p = ([], p)"
| "add_deltas i (d # ds) p =
     (case add_delta i d p of (evs, p') \<Rightarrow> (case add_deltas i ds p' of (evs', q) \<Rightarrow> (evs @ evs', q)))"

lemma add_deltas_append:
  "add_deltas i (xs @ ys) p =
     (case add_deltas i xs p of (evs, q) \<Rightarrow> (case add_deltas i ys q of (evs', r) \<Rightarrow> (evs @ evs', r)))"
  by (induction xs arbitrary: p) (auto split: prod.split)

lemma feed_all_deltas:
  assumes "list_all2 (\<lambda>d j. al_parse lib d = Inr j) ds (map (ev_block_delta i) js)"
    and "i < 2 ^ 64" "JNull \<notin> set js" "get_slot i (as_blocks a) = Some p"
  shows "feed_all lib ds a =
    (case add_deltas i js p of (evs, q) \<Rightarrow> (Inr evs, a\<lparr>as_blocks := (as_blocks a)[i := Some q]\<rparr>))"
  using assms(1,3,4)
proof (induction js arbitrary: ds a p)
  case Nil
  then have "(as_blocks a)[i := Some p] = as_blocks a"
    by (simp add: get_slot_def list_update_same_conv split: if_splits)
  with Nil show ?case by simp
next
  case (Cons j js)
  then obtain d ds' where ds: "ds = d # ds'" "al_parse lib d = Inr (ev_block_delta i j)"
    "list_all2 (\<lambda>d j. al_parse lib d = Inr j) ds' (map (ev_block_delta i) js)"
    by (auto simp: list_all2_Cons2)
  obtain evs p' where p': "add_delta i j p = (evs, p')" by fastforce
  let ?a = "a\<lparr>as_blocks := (as_blocks a)[i := Some p']\<rparr>"
  have d: "feed lib d a = (Inr evs, ?a)"
    using feed_ev_delta [OF ds(2) assms(2) _ Cons.prems(3)] Cons.prems(2) p' by auto
  have "get_slot i (as_blocks ?a) = Some p'"
    using Cons.prems(3) by (simp add: get_slot_def split: if_splits)
  from Cons.IH [OF ds(3) _ this] Cons.prems(2) d p' show ?case
    by (simp add: ds(1) split: prod.split)
qed

lemma delta_not_null [simp]: "JNull \<noteq> delta_of k f x" "delta_of k f x \<noteq> JNull"
  by (simp_all add: delta_of_def jobj_def)

lemma streamed_open_not_null: "streamed_open b \<noteq> JNull"
  by (simp add: streamed_open_def split: streamed.split)

lemma streamed_deltas_not_null: "JNull \<notin> set (streamed_deltas b)"
  by (auto simp: streamed_deltas_def split: streamed.splits)

lemma add_text_deltas:
  "add_deltas i (map (delta_of ''text_delta'' ''text'') ps) (PText t) = (map TextDelta ps, PText (t @ concat ps))"
  by (induction ps arbitrary: t) (simp_all add: add_delta_def delta_of_def str_field_jobj)

lemma add_input_deltas:
  "add_deltas i (map (delta_of ''input_json_delta'' ''partial_json'') ps) (PToolUse c n t) =
     (map (ToolInputDelta i) ps, PToolUse c n (t @ concat ps))"
  by (induction ps arbitrary: t) (simp_all add: add_delta_def delta_of_def str_field_jobj)

lemma add_thinking_deltas:
  "add_deltas i (map (delta_of ''thinking_delta'' ''thinking'') ps) (PThinking t s) =
     (map ThinkingDelta ps, PThinking (t @ concat ps) s)"
  by (induction ps arbitrary: t) (simp_all add: add_delta_def delta_of_def str_field_jobj)

lemma add_signature_deltas:
  "add_deltas i (map (delta_of ''signature_delta'' ''signature'') ps) (PThinking t s) =
     ([], PThinking t (s @ concat ps))"
  by (induction ps arbitrary: s) (simp_all add: add_delta_def delta_of_def str_field_jobj)

lemma streamed_core:
  assumes "streamed_block lib b = Some blk"
  obtains evs0 p0 evs1 p1 where "start_block i (streamed_open b) = (evs0, p0)"
    "add_deltas i (streamed_deltas b) p0 = (evs1, p1)" "finish_block lib p1 = Inr blk"
    "shown_text (evs0 @ evs1) = (case block_as_text blk of Some t \<Rightarrow> t | None \<Rightarrow> [])"
proof -
  have shown: "shown_text (map TextDelta ps) = concat ps" "shown_text (map ThinkingDelta ps) = []"
    "shown_text (map (ToolInputDelta i) ps) = []" for ps
    by (induction ps) simp_all
  have "\<exists>evs0 p0 evs1 p1. start_block i (streamed_open b) = (evs0, p0) \<and>
    add_deltas i (streamed_deltas b) p0 = (evs1, p1) \<and> finish_block lib p1 = Inr blk \<and>
    shown_text (evs0 @ evs1) = (case block_as_text blk of Some t \<Rightarrow> t | None \<Rightarrow> [])"
  proof (cases b)
    case (SText ps)
    with assms show ?thesis
      by (auto simp: streamed_block_def streamed_open_def streamed_deltas_def start_block_def jget_jobj
          str_field_jobj add_text_deltas finish_block_def shown block_as_text_def)
  next
    case (SToolUse c n ps)
    with assms show ?thesis
      by (auto simp: streamed_block_def streamed_open_def streamed_deltas_def start_block_def jget_jobj
          str_field_jobj add_input_deltas finish_block_def shown block_as_text_def split: if_splits sum.splits)
  next
    case (SThinking ps ss)
    with assms show ?thesis
      by (auto simp: streamed_block_def streamed_open_def streamed_deltas_def start_block_def jget_jobj
          str_field_jobj add_deltas_append add_thinking_deltas add_signature_deltas finish_block_def shown
          block_as_text_def)
  next
    case (SRedacted d)
    with assms show ?thesis
      by (auto simp: streamed_block_def streamed_open_def streamed_deltas_def start_block_def jget_jobj
          str_field_jobj finish_block_def block_as_text_def)
  qed
  with that show thesis by blast
qed

lemma feed_all_append:
  "feed_all lib (xs @ ys) a =
    (case feed_all lib xs a of
       (Inl e, q) \<Rightarrow> (Inl e, q)
     | (Inr evs, q) \<Rightarrow> (case feed_all lib ys q of (Inl e, r) \<Rightarrow> (Inl e, r) | (Inr evs', r) \<Rightarrow> (Inr (evs @ evs'), r)))"
  by (induction xs arbitrary: a) (auto split: prod.split sum.split)

lemma set_slot_end: "length xs = i \<Longrightarrow> set_slot i x xs = xs @ [Some x]"
  by (simp add: set_slot_def list_update_append)

lemma feed_block:
  assumes ds: "list_all2 (\<lambda>d j. al_parse lib d = Inr j) ds (block_stream i b)" and i: "i < 2 ^ 64"
    and a: "as_blocks a = replicate i None" "as_done a = map Some bs" "length bs = i"
    and b: "streamed_block lib b = Some blk"
  obtains evs where "feed_all lib ds a = (Inr evs, a\<lparr>as_started := True, as_blocks := replicate (Suc i) None,
      as_done := map Some (bs @ [blk])\<rparr>)" "shown_text evs = (case block_as_text blk of Some t \<Rightarrow> t | None \<Rightarrow> [])"
proof -
  obtain evs0 p0 evs1 p1 where core: "start_block i (streamed_open b) = (evs0, p0)"
    "add_deltas i (streamed_deltas b) p0 = (evs1, p1)" "finish_block lib p1 = Inr blk"
    "shown_text (evs0 @ evs1) = (case block_as_text blk of Some t \<Rightarrow> t | None \<Rightarrow> [])"
    by (rule streamed_core [OF b])
  from ds obtain d0 ds1 d2 where d: "ds = d0 # ds1 @ [d2]" "al_parse lib d0 = Inr (ev_block_start i (streamed_open b))"
    "list_all2 (\<lambda>d j. al_parse lib d = Inr j) ds1 (map (ev_block_delta i) (streamed_deltas b))"
    "al_parse lib d2 = Inr (ev_block_stop i)"
    unfolding block_stream_def by (auto simp: list_all2_Cons2 list_all2_append2)
  let ?a = "a\<lparr>as_started := True, as_blocks := set_slot i p0 (as_blocks a)\<rparr>"
  have s: "get_slot i (as_blocks ?a) = Some p0" "as_blocks ?a = replicate i None @ [Some p0]"
    by (simp_all add: a set_slot_end get_slot_def nth_append)
  let ?b = "?a\<lparr>as_blocks := (as_blocks ?a)[i := Some p1]\<rparr>"
  have 1: "feed lib d0 a = (Inr evs0, ?a)"
    using feed_ev_start [OF d(2) i streamed_open_not_null] core(1) by simp
  have 2: "feed_all lib ds1 ?a = (Inr evs1, ?b)"
    using feed_all_deltas [OF d(3) i streamed_deltas_not_null s(1)] core(2) by simp
  have "get_slot i (as_blocks ?b) = Some p1" by (simp add: a set_slot_end get_slot_def nth_append)
  from feed_ev_stop [OF d(4) i this core(3)]
  have 3: "feed lib d2 ?b = (Inr [BlockStop i], a\<lparr>as_started := True, as_blocks := replicate (Suc i) None,
      as_done := map Some (bs @ [blk])\<rparr>)"
    using a by (simp add: set_slot_end list_update_append replicate_append_same [symmetric])
  from 1 2 3 have "feed_all lib ds a = (Inr (evs0 @ evs1 @ [BlockStop i]), a\<lparr>as_started := True,
      as_blocks := replicate (Suc i) None, as_done := map Some (bs @ [blk])\<rparr>)"
    by (simp add: d(1) feed_all_append)
  then show thesis by (rule that) (use core(4) in simp)
qed

lemma feed_blocks:
  assumes "list_all2 (\<lambda>d j. al_parse lib d = Inr j) ds (blocks_stream i bs)" "i + length bs \<le> 2 ^ 64"
    and "as_blocks a = replicate i None" "as_done a = map Some fin" "length fin = i"
    and "map (streamed_block lib) bs = map Some blks"
  obtains evs where "feed_all lib ds a = (Inr evs, a\<lparr>as_started := (as_started a \<or> bs \<noteq> []),
      as_blocks := replicate (i + length bs) None, as_done := map Some (fin @ blks)\<rparr>)"
    "shown_text evs = concat (List.map_filter block_as_text blks)"
  using assms
proof (induction bs arbitrary: i ds a fin blks thesis)
  case Nil
  then show ?case by (auto simp: map_filter_def intro: Nil.prems(1) [of "[]"])
next
  case (Cons b bs)
  from Cons.prems(7) obtain blk blks' where blks: "blks = blk # blks'" "streamed_block lib b = Some blk"
    "map (streamed_block lib) bs = map Some blks'" by (cases blks) auto
  from Cons.prems(2) obtain ds1 ds2 where ds: "ds = ds1 @ ds2"
    "list_all2 (\<lambda>d j. al_parse lib d = Inr j) ds1 (block_stream i b)"
    "list_all2 (\<lambda>d j. al_parse lib d = Inr j) ds2 (blocks_stream (Suc i) bs)"
    by (auto simp: list_all2_append2)
  let ?a = "a\<lparr>as_started := True, as_blocks := replicate (Suc i) None, as_done := map Some (fin @ [blk])\<rparr>"
  have "i < 2 ^ 64" using Cons.prems(3) by simp
  from feed_block [OF ds(2) this Cons.prems(4-6) blks(2)] obtain evs1 where 1: "feed_all lib ds1 a = (Inr evs1, ?a)"
    "shown_text evs1 = (case block_as_text blk of Some t \<Rightarrow> t | None \<Rightarrow> [])" by blast
  have "Suc i + length bs \<le> 2 ^ 64" "as_blocks ?a = replicate (Suc i) None" "as_done ?a = map Some (fin @ [blk])"
    "length (fin @ [blk]) = Suc i" using Cons.prems by simp_all
  from Cons.IH [OF _ ds(3) this blks(3)] obtain evs2 where 2: "feed_all lib ds2 ?a = (Inr evs2, ?a\<lparr>as_started :=
      (as_started ?a \<or> bs \<noteq> []), as_blocks := replicate (Suc i + length bs) None,
      as_done := map Some ((fin @ [blk]) @ blks')\<rparr>)"
    "shown_text evs2 = concat (List.map_filter block_as_text blks')" by blast
  show ?case
    by (rule Cons.prems(1) [of "evs1 @ evs2"])
       (use 1 2 in \<open>auto simp: ds(1) feed_all_append blks(1) map_filter_def split: option.split\<close>)
qed

text \<open>A stop reason the program does not know is one whose name is none of the known ones.\<close>

definition wf_stop :: "stop_reason \<Rightarrow> bool" where
  "wf_stop r = (case r of
      OtherStop s \<Rightarrow> s \<notin> {''end_turn'', ''tool_use'', ''max_tokens'', ''stop_sequence'', ''refusal'', ''pause_turn'',
                           ''model_context_window_exceeded''}
    | _ \<Rightarrow> True)"

lemma stop_reason_roundtrip: "wf_stop r \<Longrightarrow> stop_reason_of_json (JStr (stop_reason_str r)) = Some r"
  by (cases r) (simp_all add: wf_stop_def stop_reason_str_def stop_reason_of_json_def)

definition response_stream :: "string \<Rightarrow> string \<Rightarrow> usage \<Rightarrow> streamed list \<Rightarrow> stop_reason \<Rightarrow> usage \<Rightarrow> json list" where
  "response_stream i m u bs r u' =
     ev_message_start i m u # blocks_stream 0 bs @ [ev_message_delta r u', ev_message_stop]"

lemma feed_ev_message_start:
  assumes "al_parse lib d = Inr (ev_message_start i m u)"
  shows "feed lib d a = (Inr [UsageSoFar u], a\<lparr>as_id := i, as_model := m, as_usage := u\<rparr>)"
proof -
  let ?fs = "[(''id'', JStr i), (''model'', JStr m), (''usage'', usage_json u)]"
  obtain fs' where "struct_fields [''id'', ''model'', ''usage''] 0 (jobj ?fs) = Some fs'" "map_of fs' = map_of (rev ?fs)"
    using struct_fields_jobj by blast
  then have "message_start_of_json (jobj ?fs) = Some \<lparr>ms_id = i, ms_model = m, ms_usage = u\<rparr>"
    by (simp add: message_start_of_json_def str_default_def usage_roundtrip)
  with assms show ?thesis
    by (simp add: ev_message_start_def feed_jobj [OF assms [unfolded ev_message_start_def]] envelope_from_def
        opt_field_not_null opt_field_def [of _ None] feed_envelope_def feed_message_start_def)
qed

lemma feed_ev_message_delta:
  assumes "al_parse lib d = Inr (ev_message_delta r u)" and "wf_stop r"
  shows "feed lib d a =
    (Inr [UsageSoFar (usage_max (as_usage a) u)], a\<lparr>as_stop_reason := Some r, as_usage := usage_max (as_usage a) u\<rparr>)"
proof -
  have "usage_json u \<noteq> JNull" by (simp add: usage_json_def)
  with assms show ?thesis
    by (simp add: ev_message_delta_def feed_jobj [OF assms(1) [unfolded ev_message_delta_def]] envelope_from_def
        opt_field_not_null opt_field_def [of _ None] feed_envelope_def feed_message_delta_def apply_message_delta_def
        not_null_def jget_jobj stop_reason_roundtrip usage_roundtrip Let_def)
qed

lemma feed_ev_message_stop:
  "al_parse lib d = Inr ev_message_stop \<Longrightarrow> feed lib d a = (Inr [StreamDone], a\<lparr>as_finished := True\<rparr>)"
  by (simp add: ev_message_stop_def feed_jobj [where fs = "[(''type'', JStr ''message_stop'')]"] envelope_from_def
      opt_field_def [of _ None] feed_envelope_def)


text \<open>A reader for the witness: the texts of the demonstration and nothing else.\<close>

definition demo_streamed :: "streamed list" where
  "demo_streamed = [SText [''Hel'', ''lo''], SToolUse ''t1'' ''ls'' [''{'', ''}'']]"

definition demo_stream :: "json list" where
  "demo_stream = response_stream ''msg'' ''m'' usage_zero demo_streamed StopToolUse usage_zero"

definition demo_assemble :: assemble_lib where
  "demo_assemble =
     \<lparr>al_parse = (\<lambda>s. if s = ''{}'' then Inr (JObj []) else
        if length s < length demo_stream then Inr (demo_stream ! length s) else Inl ''bad''), al_why = (\<lambda>_. [])\<rparr>"

lemma trim_braces: "trim ''{}'' \<noteq> []"
  by code_simp


end
