(* ===== verification/Mentor_Client.thy ===== *)
theory Mentor_Client
  imports Mentor_Sse Mentor_Assemble
begin

text \<open>
  \<open>crates/core/src/mentor/anthropic.rs\<close>: one streaming attempt against the Messages API, how its
  failures become errors, and the retries of \<open>complete\<close> and \<open>count_tokens\<close>. The network is the type
  \<open>transport\<close>, what one request meets; the clock's jitter and cancellation during a wait are inputs.
\<close>

record mentor_client =
  mc_model :: string
  mc_base_url :: string
  mc_max_retries :: nat
  mc_capture_raw_sse :: bool
  mc_max_backoff_ms :: nat

definition max_backoff_ms :: nat where
  "max_backoff_ms = 60 * 1000"

text \<open>\<open>base_url.trim_end_matches('/')\<close>\<close>

definition client_new :: "string \<Rightarrow> string \<Rightarrow> nat \<Rightarrow> mentor_client" where
  "client_new model base_url retries =
     \<lparr>mc_model = model, mc_base_url = rev (dropWhile (\<lambda>c. c = CHR ''/'') (rev base_url)),
      mc_max_retries = retries, mc_capture_raw_sse = False, mc_max_backoff_ms = max_backoff_ms\<rparr>"

definition with_max_backoff :: "nat \<Rightarrow> mentor_client \<Rightarrow> mentor_client" where
  "with_max_backoff ms c = c\<lparr>mc_max_backoff_ms := ms\<rparr>"

definition with_raw_sse :: "bool \<Rightarrow> mentor_client \<Rightarrow> mentor_client" where
  "with_raw_sse on c = c\<lparr>mc_capture_raw_sse := on\<rparr>"

section \<open>What a request meets\<close>

datatype stream_end = StreamEnds | StreamFails bool | StreamCancelled

datatype transport =
    SendCancelled
  | SendFails net_error
  | HttpError nat "string option" string
  | HttpStream "string list" stream_end

definition map_reqwest :: "net_error \<Rightarrow> mentor_error" where
  "map_reqwest e = (if ne_timeout e then MentorTimeout else NetworkError e)"

text \<open>\<open>str::parse::<u64>\<close>: digits after an optional plus sign, not above the largest \<open>u64\<close>.\<close>

definition parse_u64 :: "string \<Rightarrow> nat option" where
  "parse_u64 s =
     (let ds = (case s of c # t \<Rightarrow> (if c = CHR ''+'' then t else s) | [] \<Rightarrow> []);
          n = foldl (\<lambda>n d. 10 * n + (byte d - 48)) 0 ds
      in if ds \<noteq> [] \<and> list_all ascii_digit ds \<and> n < 2 ^ 64 then Some n else None)"

text \<open>The \<open>retry-after\<close> header, when it is visible ASCII and a number of seconds.\<close>

definition parse_retry_after :: "string option \<Rightarrow> nat option" where
  "parse_retry_after h =
     (case h of
        None \<Rightarrow> None
      | Some s \<Rightarrow>
          (if list_all (\<lambda>c. byte c = 9 \<or> 32 \<le> byte c \<and> byte c < 127) s then parse_u64 (trim s) else None))"

definition status_error :: "assemble_lib \<Rightarrow> nat \<Rightarrow> nat option \<Rightarrow> string \<Rightarrow> mentor_error" where
  "status_error lib status retry_after body =
     (let parsed = (case al_parse lib body of
                      Inl _ \<Rightarrow> None
                    | Inr v \<Rightarrow> Option.bind (jget ''error'' v) api_error_of_json);
          kind = (case parsed of None \<Rightarrow> ''unknown'' | Some e \<Rightarrow> eb_kind e);
          message = (case parsed of None \<Rightarrow> take_chars 500 body | Some e \<Rightarrow> eb_message e)
      in if (status = 401 \<or> status = 403) \<and> kind \<noteq> ''billing_error'' then AuthError
         else if status = 400 then BadRequest message
         else if status = 413 then RequestTooLarge
         else if status = 429 then RateLimited retry_after
         else if status = 529 then Overloaded
         else ApiError status kind message)"

section \<open>One attempt\<close>

text \<open>\<open>feed\<close> of the adapter: an API error after content has started is an interruption.\<close>

definition feed_guarded :: "assemble_lib \<Rightarrow> string \<Rightarrow> assembler \<Rightarrow> feed_result" where
  "feed_guarded lib data a =
     (case feed lib data a of
        (Inl (StreamError k m), a') \<Rightarrow>
          (if as_started a' then (Inl (StreamInterrupted (asm_content lib a')), a')
           else (Inl (StreamError k m), a'))
      | other \<Rightarrow> other)"

text \<open>The events of one chunk: what was forwarded, and the error that ended it.\<close>

fun feed_events ::
  "assemble_lib \<Rightarrow> sse_event list \<Rightarrow> assembler \<Rightarrow> stream_event list \<times> mentor_error option \<times> assembler" where
  "feed_events lib [] a = ([], None, a)"
| "feed_events lib (e # es) a =
     (case feed_guarded lib (se_data e) a of
        (Inl err, a') \<Rightarrow> ([], Some err, a')
      | (Inr out, a') \<Rightarrow> (case feed_events lib es a' of (outs, r, q) \<Rightarrow> (out @ outs, r, q)))"

definition cut_short :: "assemble_lib \<Rightarrow> mentor_error \<Rightarrow> assembler \<Rightarrow> mentor_error" where
  "cut_short lib e a = (if as_started a then StreamInterrupted (asm_content lib a) else e)"

type_synonym attempt_result = "stream_event list \<times> (mentor_error + assembler)"

definition stream_over :: "assemble_lib \<Rightarrow> stream_end \<Rightarrow> sse_parser \<Rightarrow> assembler \<Rightarrow> attempt_result" where
  "stream_over lib fin p a =
     (case fin of
        StreamCancelled \<Rightarrow> ([], Inl MentorCancelled)
      | StreamFails timeout \<Rightarrow> ([], Inl (cut_short lib (if timeout then MentorTimeout else Disconnected) a))
      | StreamEnds \<Rightarrow>
          (case feed_events lib (case fst (sse_finish p) of None \<Rightarrow> [] | Some e \<Rightarrow> [e]) a of
             (out, Some err, _) \<Rightarrow> (out, Inl err)
           | (out, None, a') \<Rightarrow>
               (out, if as_finished a' then Inr a' else Inl (cut_short lib Disconnected a'))))"

fun attempt_stream :: "assemble_lib \<Rightarrow> stream_end \<Rightarrow> string list \<Rightarrow> sse_parser \<Rightarrow> assembler \<Rightarrow> attempt_result" where
  "attempt_stream lib fin [] p a = stream_over lib fin p a"
| "attempt_stream lib fin (c # cs) p a =
     (case sse_push c p of (evs, p') \<Rightarrow>
       (case feed_events lib evs a of
          (out, Some err, _) \<Rightarrow> (out, Inl err)
        | (out, None, a') \<Rightarrow>
            (if as_finished a' then (out, Inr a')
             else case attempt_stream lib fin cs p' a' of (outs, r) \<Rightarrow> (out @ outs, r))))"

definition attempt :: "assemble_lib \<Rightarrow> transport \<Rightarrow> attempt_result" where
  "attempt lib t =
     (case t of
        SendCancelled \<Rightarrow> ([], Inl MentorCancelled)
      | SendFails e \<Rightarrow> ([], Inl (map_reqwest e))
      | HttpError status header body \<Rightarrow>
          ([], Inl (status_error lib status (parse_retry_after header) body))
      | HttpStream chunks fin \<Rightarrow> attempt_stream lib fin chunks sse_new assembler_new)"

text \<open>The raw bytes kept: the chunks read, up to the one that finished the response.\<close>

fun raw_read :: "assemble_lib \<Rightarrow> string list \<Rightarrow> sse_parser \<Rightarrow> assembler \<Rightarrow> string" where
  "raw_read lib [] p a = []"
| "raw_read lib (c # cs) p a =
     (case sse_push c p of (evs, p') \<Rightarrow>
       (case feed_events lib evs a of
          (_, Some _, _) \<Rightarrow> c
        | (_, None, a') \<Rightarrow> (if as_finished a' then c else c @ raw_read lib cs p' a')))"

section \<open>Retries\<close>

text \<open>
  The wait in milliseconds: what the API asked for, else an exponential wait of 0.75 to 1.25 times
  \<open>2 ^ attempt\<close> seconds (\<open>jitter\<close> in thousandths), never above the cap. The \<open>f64\<close> product is exact
  here up to half a millisecond.
\<close>

definition backoff_ms :: "mentor_client \<Rightarrow> nat \<Rightarrow> mentor_error \<Rightarrow> nat \<Rightarrow> nat" where
  "backoff_ms c n e jitter =
     (case e of
        RateLimited (Some s) \<Rightarrow> min (1000 * s) (mc_max_backoff_ms c)
      | _ \<Rightarrow> min (2 ^ min n 6 * (1500 + jitter mod 1000) div 2) (mc_max_backoff_ms c))"

record mentor_world =
  mw_transport :: "nat \<Rightarrow> transport"
  mw_jitter :: "nat \<Rightarrow> nat"
  mw_wait_cancelled :: "nat \<Rightarrow> bool"
  mw_first_byte_ms :: "nat \<Rightarrow> nat"
  mw_total_ms :: nat

definition response_of :: "mentor_client \<Rightarrow> assemble_lib \<Rightarrow> nat \<Rightarrow> mentor_world \<Rightarrow> nat \<Rightarrow> assembler \<Rightarrow> mentor_response" where
  "response_of c lib request_bytes w n a =
     \<lparr>mr_id = as_id a, mr_model = as_model a, mr_content = asm_content lib a,
      mr_stop_reason = asm_stop_reason a, mr_stop_details = as_stop_details a, mr_usage = as_usage a,
      mr_timing = \<lparr>tm_first_byte_ms = mw_first_byte_ms w n, tm_total_ms = mw_total_ms w, tm_attempts = Suc n\<rparr>,
      mr_request_bytes = request_bytes,
      mr_raw_sse = (case mw_transport w n of
          HttpStream chunks _ \<Rightarrow>
            (if mc_capture_raw_sse c then Some (raw_read lib chunks sse_new assembler_new) else None)
        | _ \<Rightarrow> None)\<rparr>"

text \<open>
  \<open>complete\<close>: attempt \<open>n\<close> with \<open>left\<close> retries left. The log has what each attempt forwarded and the
  wait after it (0 after the last).
\<close>

fun complete_from ::
  "mentor_client \<Rightarrow> assemble_lib \<Rightarrow> nat \<Rightarrow> mentor_world \<Rightarrow> nat \<Rightarrow> nat \<Rightarrow>
     (stream_event list \<times> nat) list \<times> (mentor_error + mentor_response)" where
  "complete_from c lib rb w n left =
     (case attempt lib (mw_transport w n) of
        (out, Inr a) \<Rightarrow> ([(out, 0)], Inr (response_of c lib rb w n a))
      | (out, Inl e) \<Rightarrow>
          (case left of
             0 \<Rightarrow> ([(out, 0)], Inl e)
           | Suc m \<Rightarrow>
               (if \<not> is_retryable e then ([(out, 0)], Inl e)
                else let ms = backoff_ms c n e (mw_jitter w n) in
                  if mw_wait_cancelled w n then ([(out, ms)], Inl MentorCancelled)
                  else case complete_from c lib rb w (Suc n) m of (log, r) \<Rightarrow> ((out, ms) # log, r))))"

declare complete_from.simps [simp del]

definition complete ::
  "mentor_client \<Rightarrow> assemble_lib \<Rightarrow> nat \<Rightarrow> mentor_world \<Rightarrow>
     (stream_event list \<times> nat) list \<times> (mentor_error + mentor_response)" where
  "complete c lib rb w = complete_from c lib rb w 0 (mc_max_retries c)"

text \<open>\<open>count_tokens\<close>: the same retries around one plain request; nothing cancels its waits.\<close>

datatype count_reply =
    CountSendFails net_error
  | CountHttpError nat "string option" string
  | CountUnreadable net_error
  | CountBody json

definition count_attempt :: "assemble_lib \<Rightarrow> count_reply \<Rightarrow> mentor_error + nat" where
  "count_attempt lib r =
     (case r of
        CountSendFails e \<Rightarrow> Inl (map_reqwest e)
      | CountHttpError status header body \<Rightarrow> Inl (status_error lib status (parse_retry_after header) body)
      | CountUnreadable e \<Rightarrow> Inl (map_reqwest e)
      | CountBody v \<Rightarrow>
          (case Option.bind (jget ''input_tokens'' v) as_u64 of
             Some n \<Rightarrow> Inr n
           | None \<Rightarrow> Inl (ProtocolError ''count_tokens: no input_tokens'')))"

fun count_from ::
  "mentor_client \<Rightarrow> assemble_lib \<Rightarrow> (nat \<Rightarrow> count_reply) \<Rightarrow> (nat \<Rightarrow> nat) \<Rightarrow> nat \<Rightarrow> nat \<Rightarrow>
     nat list \<times> (mentor_error + nat)" where
  "count_from c lib replies jitter n left =
     (case count_attempt lib (replies n) of
        Inr k \<Rightarrow> ([], Inr k)
      | Inl e \<Rightarrow>
          (case left of
             0 \<Rightarrow> ([], Inl e)
           | Suc m \<Rightarrow>
               (if \<not> is_retryable e then ([], Inl e)
                else case count_from c lib replies jitter (Suc n) m of
                  (waits, r) \<Rightarrow> (backoff_ms c n e (jitter n) # waits, r))))"

declare count_from.simps [simp del]

definition count_tokens ::
  "mentor_client \<Rightarrow> assemble_lib \<Rightarrow> (nat \<Rightarrow> count_reply) \<Rightarrow> (nat \<Rightarrow> nat) \<Rightarrow> nat list \<times> (mentor_error + nat)" where
  "count_tokens c lib replies jitter = count_from c lib replies jitter 0 (mc_max_retries c)"

section \<open>Nothing shown is retried\<close>

text \<open>What a subscriber may show of the answer.\<close>

definition content_event :: "stream_event \<Rightarrow> bool" where
  "content_event e = (case e of UsageSoFar _ \<Rightarrow> False | StreamDone \<Rightarrow> False | _ \<Rightarrow> True)"

text \<open>Before a block has started there is none to add to.\<close>

definition asm_inv :: "assembler \<Rightarrow> bool" where
  "asm_inv a \<longleftrightarrow> (\<not> as_started a \<longrightarrow> as_blocks a = [])"

lemma apply_message_delta_blocks [simp]:
  "as_blocks (apply_message_delta d a) = as_blocks a" "as_started (apply_message_delta d a) = as_started a"
  by (simp_all add: apply_message_delta_def Let_def split: option.split)

text \<open>One event: content comes only once a block has started, and an error of the assembler is a
  protocol error or the API's own.\<close>

lemma feed_envelope_cases:
  "feed_envelope lib d env a = feed_message_start env a \<or> feed_envelope lib d env a = feed_block_start env a \<or>
   feed_envelope lib d env a = feed_block_delta env a \<or> feed_envelope lib d env a = feed_block_stop lib env a \<or>
   feed_envelope lib d env a = feed_message_delta env a \<or>
   feed_envelope lib d env a = (Inr [StreamDone], a\<lparr>as_finished := True\<rparr>) \<or>
   feed_envelope lib d env a = (Inr [], a) \<or> (\<exists>k m. feed_envelope lib d env a = (Inl (StreamError k m), a))"
proof -
  define P where "P x \<longleftrightarrow> x = feed_message_start env a \<or> x = feed_block_start env a \<or> x = feed_block_delta env a \<or>
    x = feed_block_stop lib env a \<or> x = feed_message_delta env a \<or> x = (Inr [StreamDone], a\<lparr>as_finished := True\<rparr>) \<or>
    x = (Inr [], a) \<or> (\<exists>k m. x = (Inl (StreamError k m), a))" for x :: feed_result
  have "P (feed_message_start env a)" "P (feed_block_start env a)" "P (feed_block_delta env a)"
    "P (feed_block_stop lib env a)" "P (feed_message_delta env a)" "P (Inr [StreamDone], a\<lparr>as_finished := True\<rparr>)"
    "P (Inr [], a)" "P (Inl (StreamError k m), a)" for k m
    by (simp_all add: P_def)
  then have "P (feed_envelope lib d env a)"
    unfolding feed_envelope_def Let_def by (simp split: if_split)
  then show ?thesis by (simp add: P_def)
qed

lemma feed_envelope_started:
  assumes "feed_envelope lib d env a = (r, a')" "asm_inv a"
  shows "asm_inv a' \<and> (as_started a \<longrightarrow> as_started a') \<and>
     (\<forall>evs. r = Inr evs \<longrightarrow> \<not> as_started a' \<longrightarrow> (\<forall>e\<in>set evs. \<not> content_event e)) \<and>
     (\<forall>e. r = Inl e \<longrightarrow> (\<exists>m. e = ProtocolError m) \<or> (\<exists>k m. e = StreamError k m))"
proof -
  have slot: "get_slot i [] = None" for i by (simp add: get_slot_def)
  have fin: "finish_block lib p = Inl e \<Longrightarrow> \<exists>m. e = ProtocolError m" for p e
    by (auto simp: finish_block_def split: partial_block.splits if_splits sum.splits)
  have 1: "feed_message_start env a = (r, a') \<Longrightarrow> ?thesis"
    using assms(2) by (auto simp: feed_message_start_def asm_inv_def content_event_def split: option.splits)
  have 2: "feed_block_start env a = (r, a') \<Longrightarrow> ?thesis"
    using assms(2) by (auto simp: feed_block_start_def asm_inv_def split: option.splits prod.splits)
  have 3: "feed_block_delta env a = (r, a') \<Longrightarrow> ?thesis"
    using assms(2) by (auto simp: feed_block_delta_def asm_inv_def slot split: option.splits prod.splits)
  have 4: "feed_block_stop lib env a = (r, a') \<Longrightarrow> ?thesis"
    using assms(2) fin
    by (auto simp: feed_block_stop_def asm_inv_def slot Let_def split: option.splits sum.splits)
  have 5: "feed_message_delta env a = (r, a') \<Longrightarrow> ?thesis"
    using assms(2) by (auto simp: feed_message_delta_def asm_inv_def content_event_def Let_def split: option.splits)
  have 6: "r = Inr [StreamDone] \<Longrightarrow> a' = a\<lparr>as_finished := True\<rparr> \<Longrightarrow> ?thesis"
    "r = Inr [] \<Longrightarrow> a' = a \<Longrightarrow> ?thesis" "r = Inl (StreamError k m) \<Longrightarrow> a' = a \<Longrightarrow> ?thesis" for k m
    using assms(2) by (simp_all add: asm_inv_def content_event_def)
  from feed_envelope_cases [of lib d env a] show ?thesis
    unfolding assms(1) prod.inject
    by (elim disjE exE conjE) ((erule 1 [OF sym] 2 [OF sym] 3 [OF sym] 4 [OF sym] 5 [OF sym] | rule 6, assumption+)+)
qed

lemma feed_started:
  assumes "feed lib d a = (r, a')" "asm_inv a"
  shows "asm_inv a' \<and> (as_started a \<longrightarrow> as_started a') \<and>
     (\<forall>evs. r = Inr evs \<longrightarrow> \<not> as_started a' \<longrightarrow> (\<forall>e\<in>set evs. \<not> content_event e)) \<and>
     (\<forall>e. r = Inl e \<longrightarrow> (\<exists>m. e = ProtocolError m) \<or> (\<exists>k m. e = StreamError k m))"
  using assms feed_envelope_started unfolding feed_def
  by (cases "al_parse lib d"; cases "envelope_of_json (projr (al_parse lib d))") auto

text \<open>Guarded, an error that may be retried means that nothing had started.\<close>

lemma feed_guarded_started:
  assumes "feed_guarded lib d a = (r, a')" "asm_inv a"
  shows "asm_inv a' \<and> (as_started a \<longrightarrow> as_started a') \<and>
     (\<forall>evs. r = Inr evs \<longrightarrow> \<not> as_started a' \<longrightarrow> (\<forall>e\<in>set evs. \<not> content_event e)) \<and>
     (\<forall>e. r = Inl e \<longrightarrow> is_retryable e \<longrightarrow> \<not> as_started a')"
proof -
  obtain r0 a0 where f: "feed lib d a = (r0, a0)" by fastforce
  note inv = feed_started [OF f assms(2)]
  show ?thesis
  proof (cases r0)
    case (Inr evs)
    with assms(1) inv show ?thesis by (auto simp: feed_guarded_def f)
  next
    case (Inl e)
    with inv consider m where "e = ProtocolError m" | k m where "e = StreamError k m" by blast
    then show ?thesis
      by cases (use assms(1) inv in \<open>auto simp: feed_guarded_def f Inl is_retryable_def split: if_splits\<close>)
  qed
qed

lemma feed_events_started:
  assumes "feed_events lib es a = (out, r, a')" "asm_inv a"
  shows "asm_inv a' \<and> (as_started a \<longrightarrow> as_started a') \<and>
     (\<not> as_started a' \<longrightarrow> (\<forall>e\<in>set out. \<not> content_event e)) \<and>
     (\<forall>e. r = Some e \<longrightarrow> is_retryable e \<longrightarrow> \<not> as_started a')"
  using assms
proof (induction es arbitrary: a out)
  case (Cons ev es)
  obtain r0 a0 where g: "feed_guarded lib (se_data ev) a = (r0, a0)" by fastforce
  note inv = feed_guarded_started [OF g Cons.prems(2)]
  show ?case
  proof (cases r0)
    case (Inl e)
    with Cons.prems g inv show ?thesis by auto
  next
    case (Inr out0)
    obtain outs r1 q where f: "feed_events lib es a0 = (outs, r1, q)" by (cases "feed_events lib es a0")
    with Cons.prems(1) g Inr have eq: "out = out0 @ outs" "r1 = r" "q = a'" by simp_all
    from Cons.IH [of a0 outs] f eq inv
    have "asm_inv a' \<and> (as_started a0 \<longrightarrow> as_started a') \<and>
     (\<not> as_started a' \<longrightarrow> (\<forall>e\<in>set outs. \<not> content_event e)) \<and>
     (\<forall>e. r = Some e \<longrightarrow> is_retryable e \<longrightarrow> \<not> as_started a')" by simp
    with inv Inr eq(1) show ?thesis by auto
  qed
qed simp

lemma cut_short_retryable: "is_retryable (cut_short lib e a) \<Longrightarrow> \<not> as_started a"
  by (auto simp: cut_short_def is_retryable_def split: if_splits)

lemma attempt_stream_started:
  assumes "attempt_stream lib fin cs p a = (out, Inl e)" "is_retryable e" "asm_inv a"
  shows "\<not> as_started a \<and> (\<forall>ev\<in>set out. \<not> content_event ev)"
  using assms
proof (induction cs arbitrary: p a out)
  case Nil
  show ?case
  proof (cases fin)
    case StreamEnds
    obtain out1 r1 a1 where f: "feed_events lib (case fst (sse_finish p) of None \<Rightarrow> [] | Some e \<Rightarrow> [e]) a = (out1, r1, a1)"
      by (cases "feed_events lib (case fst (sse_finish p) of None \<Rightarrow> [] | Some e \<Rightarrow> [e]) a")
    with feed_events_started [OF f Nil.prems(3)] Nil.prems cut_short_retryable show ?thesis
      by (cases r1) (auto simp: stream_over_def StreamEnds split: if_splits)
  qed (use Nil.prems cut_short_retryable in \<open>auto simp: stream_over_def is_retryable_def split: if_splits\<close>)
next
  case (Cons c cs)
  obtain evs p' where p: "sse_push c p = (evs, p')" by fastforce
  obtain out1 r1 a1 where f: "feed_events lib evs a = (out1, r1, a1)" by (cases "feed_events lib evs a")
  note inv = feed_events_started [OF f Cons.prems(3)]
  show ?case
  proof (cases r1)
    case (Some err)
    with Cons.prems p f inv show ?thesis by auto
  next
    case None
    obtain outs r2 where s: "attempt_stream lib fin cs p' a1 = (outs, r2)" by fastforce
    from Cons.prems(1) None p f s have eq: "out = out1 @ outs" "r2 = Inl e" by (simp_all split: if_splits)
    with Cons.IH [of p' a1 outs] s Cons.prems(2) inv show ?thesis by auto
  qed
qed

lemma attempt_retryable:
  assumes "attempt lib t = (out, Inl e)" "is_retryable e"
  shows "\<forall>ev\<in>set out. \<not> content_event ev"
  using assms attempt_stream_started [of lib _ _ sse_new assembler_new out e]
  by (cases t) (auto simp: attempt_def asm_inv_def assembler_new_def)


definition demo_client :: mentor_client where
  "demo_client = with_max_backoff 100 (client_new ''m'' ''http://x/'' 1)"

definition demo_mentor_world :: mentor_world where
  "demo_mentor_world =
     \<lparr>mw_transport = (\<lambda>n. if n = 0 then HttpError 429 (Some '' 7 '') [] else SendCancelled),
      mw_jitter = (\<lambda>_. 0), mw_wait_cancelled = (\<lambda>_. False), mw_first_byte_ms = (\<lambda>_. 0), mw_total_ms = 0\<rparr>"

lemma demo_retry_after: "parse_retry_after (Some '' 7 '') = Some 7"
proof -
  have "trim '' 7 '' = ''7''" by code_simp
  then show ?thesis by (simp add: parse_retry_after_def parse_u64_def byte_def ascii_digit_def)
qed

definition demo_log :: "(stream_event list \<times> nat) list" where
  "demo_log = [([], 100), ([], 0)]"

lemma demo_complete:
  "complete demo_client demo_assemble 0 demo_mentor_world = (demo_log, Inl MentorCancelled)"
proof -
  have 0: "attempt demo_assemble (mw_transport demo_mentor_world 0) = ([], Inl (RateLimited (Some 7)))"
    by (simp add: attempt_def demo_mentor_world_def status_error_def Let_def demo_retry_after)
  have 1: "attempt demo_assemble (mw_transport demo_mentor_world (Suc 0)) = ([], Inl MentorCancelled)"
    by (simp add: attempt_def demo_mentor_world_def)
  have "mc_max_retries demo_client = Suc 0" "mc_max_backoff_ms demo_client = 100"
    by (simp_all add: demo_client_def with_max_backoff_def client_new_def)
  moreover have "\<not> mw_wait_cancelled demo_mentor_world 0" by (simp add: demo_mentor_world_def)
  ultimately show ?thesis
    using 0 1 by (simp add: complete_def complete_from.simps [of _ _ _ _ 0] complete_from.simps [of _ _ _ _ "Suc 0"]
        is_retryable_def backoff_ms_def demo_log_def)
qed


end
