(* ===== verification/Config_Keys.thy ===== *)
theory Config_Keys
  imports Rust_Str
begin

text \<open>
  \<open>crates/core/src/config/keypath.rs\<close>: dotted keys such as \<open>mentor.model\<close> or
  \<open>pricing."my.model".input\<close>, and the keys a workspace may set (\<open>config/schema.rs\<close>). A key is its
  bytes; a white-space character may take up to three of them.
\<close>

section \<open>Parsing\<close>

text \<open>\<open>None\<close> without a closing quote, else the text before it and the rest.\<close>

fun until_quote :: "string \<Rightarrow> (string \<times> string) option" where
  "until_quote [] = None"
| "until_quote (c # cs) =
     (if c = CHR 0x22 then Some ([], cs) else map_option (\<lambda>(b, r). (c # b, r)) (until_quote cs))"

lemma until_quote_length: "until_quote s = Some (b, r) \<Longrightarrow> length r < length s"
  by (induction s arbitrary: b) (auto split: if_splits)

text \<open>The loop of \<open>parse\<close>: the current segment, whether it was quoted, the segments before it.\<close>

function key_go :: "string \<Rightarrow> string \<Rightarrow> bool \<Rightarrow> string list \<Rightarrow> string + string list" where
  "key_go s cur quoted segs =
     (case s of
        [] \<Rightarrow> (if cur = [] \<and> \<not> quoted then Inl ''empty segment'' else Inr (segs @ [cur]))
      | c # cs \<Rightarrow>
          (if c = CHR 0x22 \<and> cur = [] \<and> \<not> quoted then
             (case until_quote cs of
                None \<Rightarrow> Inl ''unterminated quote''
              | Some (body, rest) \<Rightarrow>
                  (if rest = [] \<or> hd rest = CHR ''.'' then key_go rest body True segs
                   else Inl ''text after closing quote''))
           else if c = CHR ''.'' then
             (if cur = [] \<and> \<not> quoted then Inl ''empty segment'' else key_go cs [] False (segs @ [cur]))
           else if c = CHR 0x22 then Inl ''quote inside a bare segment''
           else if 0 < ws_len s then Inl ''whitespace in key''
           else key_go cs (cur @ [c]) quoted segs))"
  by pat_completeness auto
termination
  by (relation "measure (\<lambda>(s, _). length s)") (auto dest: until_quote_length)

declare key_go.simps [simp del]

definition key_parse :: "string \<Rightarrow> string + string list" where
  "key_parse k = (if k = [] then Inl ''empty key'' else key_go k [] False [])"

section \<open>Formatting\<close>

fun has_ws :: "string \<Rightarrow> bool" where
  "has_ws [] = False"
| "has_ws (c # cs) = (0 < ws_len (c # cs) \<or> has_ws cs)"

definition needs_quotes :: "string \<Rightarrow> bool" where
  "needs_quotes s \<longleftrightarrow> s = [] \<or> CHR ''.'' \<in> set s \<or> CHR 0x22 \<in> set s \<or> has_ws s"

definition key_segment :: "string \<Rightarrow> string" where
  "key_segment s = (if needs_quotes s then CHR 0x22 # s @ [CHR 0x22] else s)"

definition key_format :: "string list \<Rightarrow> string" where
  "key_format segs = join_with ''.'' (map key_segment segs)"

section \<open>What a workspace may set\<close>

definition workspace_overridable_keys :: "string list" where
  "workspace_overridable_keys =
     [''mentor.model'', ''mentor.effort'', ''mentor.max_tokens'', ''apprentice.'', ''permissions.'', ''tools.'', ''runtime.'']"

definition workspace_overridable :: "string \<Rightarrow> bool" where
  "workspace_overridable key \<longleftrightarrow>
     list_ex (\<lambda>allowed.
        case strip_suffix allowed ''.'' of
          Some pre \<Rightarrow>
            (case strip_prefix key pre of Some r \<Rightarrow> strip_prefix r ''.'' \<noteq> None | None \<Rightarrow> False)
        | None \<Rightarrow> key = allowed) workspace_overridable_keys"

definition env_overrides :: "(string \<times> string) list" where
  "env_overrides =
     [(''HARNESS_MENTOR_MODEL'', ''mentor.model''), (''HARNESS_MENTOR_EFFORT'', ''mentor.effort''),
      (''HARNESS_MENTOR_BASE_URL'', ''mentor.base_url''), (''HARNESS_LOG_LEVEL'', ''daemon.log_level'')]"

section \<open>What is formatted parses back\<close>

lemma until_quote_append: "CHR 0x22 \<notin> set b \<Longrightarrow> until_quote (b @ CHR 0x22 # r) = Some (b, r)"
  by (induction b) auto

text \<open>A byte that begins no white space here begins none before anything that starts with a dot.\<close>

lemma ws_len_dot:
  assumes "ws_len (c # cs) = 0"
  shows "ws_len ((c # cs) @ CHR ''.'' # r) = 0"
  using assms
  by (cases cs; cases "tl cs"; cases r) (auto simp: ws2_def ws3_def split: if_splits)

lemma key_go_bare:
  assumes "\<not> has_ws t" "CHR ''.'' \<notin> set t" "CHR 0x22 \<notin> set t" "cur @ t \<noteq> []"
    and "rest = [] \<or> (\<exists>r. rest = CHR ''.'' # r)"
  shows "key_go (t @ rest) cur False segs =
    (case rest of [] \<Rightarrow> Inr (segs @ [cur @ t]) | _ # r \<Rightarrow> key_go r [] False (segs @ [cur @ t]))"
  using assms
proof (induction t arbitrary: cur)
  case Nil
  then show ?case by (auto simp: key_go.simps [of "CHR ''.'' # r" for r] key_go.simps [of "[]"])
next
  case (Cons c t)
  have "ws_len ((c # t) @ rest) = 0"
    using Cons.prems(1,5) ws_len_dot [of c t] by auto
  moreover have "c \<noteq> CHR ''.''" "c \<noteq> CHR 0x22" using Cons.prems(2,3) by auto
  ultimately have "key_go ((c # t) @ rest) cur False segs = key_go (t @ rest) (cur @ [c]) False segs"
    by (simp add: key_go.simps [of "c # t @ rest"])
  with Cons.IH [of "cur @ [c]"] Cons.prems show ?case by (simp split: list.split)
qed

lemma key_go_segment:
  assumes "CHR 0x22 \<notin> set s" and "rest = [] \<or> (\<exists>r. rest = CHR ''.'' # r)"
  shows "key_go (key_segment s @ rest) [] False segs =
    (case rest of [] \<Rightarrow> Inr (segs @ [s]) | _ # r \<Rightarrow> key_go r [] False (segs @ [s]))"
proof (cases "needs_quotes s")
  case False
  with assms key_go_bare [of s "[]" rest segs] show ?thesis
    by (simp add: key_segment_def needs_quotes_def split: list.split)
next
  case True
  then have "key_segment s @ rest = CHR 0x22 # s @ CHR 0x22 # rest" by (simp add: key_segment_def)
  then have "key_go (key_segment s @ rest) [] False segs = key_go rest s True segs"
    using assms by (auto simp: key_go.simps [of "CHR 0x22 # t" for t] until_quote_append)
  also have "\<dots> = (case rest of [] \<Rightarrow> Inr (segs @ [s]) | _ # r \<Rightarrow> key_go r [] False (segs @ [s]))"
    using assms(2) by (auto simp: key_go.simps [of "[]"] key_go.simps [of "CHR ''.'' # r" for r])
  finally show ?thesis .
qed

lemma key_go_format:
  assumes "segs \<noteq> []" "\<forall>s\<in>set segs. CHR 0x22 \<notin> set s"
  shows "key_go (key_format segs) [] False before = Inr (before @ segs)"
  using assms
proof (induction segs arbitrary: before)
  case (Cons s segs)
  show ?case
  proof (cases segs)
    case Nil
    with Cons.prems key_go_segment [of s "[]" before] show ?thesis by (simp add: key_format_def)
  next
    case (Cons s' segs')
    have "key_format (s # segs) = key_segment s @ CHR ''.'' # key_format segs"
      by (simp add: key_format_def Cons)
    with Cons.IH [of "before @ [s]"] Cons Cons.prems key_go_segment [of s "CHR ''.'' # key_format segs" before]
    show ?thesis by simp
  qed
qed simp

text \<open>
  A key that was formatted parses back to its segments, whatever dots, white space and other
  characters they contain, as long as none contains a double quote.
\<close>

theorem key_roundtrip:
  assumes "segs \<noteq> []" and "\<forall>s\<in>set segs. CHR 0x22 \<notin> set s"
  shows "key_parse (key_format segs) = Inr segs"
proof -
  have "key_format segs \<noteq> []"
    using assms(1) by (cases segs; cases "tl segs") (auto simp: key_format_def key_segment_def needs_quotes_def)
  then show ?thesis using key_go_format [OF assms, of "[]"] by (simp add: key_parse_def)
qed

theorem key_roundtrip_witness:
  "key_parse (key_format [''pricing'', ''my.model'', [], ''a b'']) = Inr [''pricing'', ''my.model'', [], ''a b'']"
  by (rule key_roundtrip) simp_all

text \<open>The one exception: there is no escape for a quote, and the text written for it does not parse.\<close>

lemma key_quote_lost: "key_parse (key_format [''a'' @ [CHR 0x22] @ ''b'']) = Inl ''text after closing quote''"
  by code_simp

text \<open>A quoted segment is none of the workspace's keys, whatever it spells.\<close>

lemma overridable_demo:
  "workspace_overridable ''tools.disabled'' \<and> \<not> workspace_overridable ''mentor.base_url'' \<and>
   \<not> workspace_overridable ''apprentice'' \<and> \<not> workspace_overridable ''apprenticex.enabled''"
  by code_simp

end
