(* ===== verification/Config_Loader.thy ===== *)
theory Config_Loader
  imports Config_Keys Rpc_Messages
begin

text \<open>
  \<open>crates/core/src/config/\<close>: the built-in defaults (\<open>schema.rs\<close>), the layered loading with the winning
  layer of every leaf (\<open>loader.rs\<close>), and the errors (\<open>error.rs\<close>). Layers are JSON trees; reading TOML
  into one is a parameter, and so is the derived \<open>Deserialize\<close> of the whole configuration, whose type
  is \<open>'c\<close>.
\<close>

section \<open>Errors\<close>

datatype config_error =
    ReadFailed string string
  | WriteFailed string string
  | SyntaxError string string
  | UnknownKey string string
  | KeyNotOverridable string string string
  | WrongType string string string string
  | InvalidConfig string string
  | NotALeaf string
  | BadKey string string
  | NoSuchKey string
  | WorkspaceRequired
  | BadEnv string
  | NoHomeDir string

definition config_error_kind :: "config_error \<Rightarrow> string" where
  "config_error_kind e =
     (case e of
        ReadFailed _ _ \<Rightarrow> ''read'' | WriteFailed _ _ \<Rightarrow> ''write'' | SyntaxError _ _ \<Rightarrow> ''syntax''
      | UnknownKey _ _ \<Rightarrow> ''unknown_key'' | KeyNotOverridable _ _ _ \<Rightarrow> ''key_not_overridable''
      | WrongType _ _ _ _ \<Rightarrow> ''wrong_type'' | InvalidConfig _ _ \<Rightarrow> ''invalid'' | NotALeaf _ \<Rightarrow> ''not_a_leaf''
      | BadKey _ _ \<Rightarrow> ''bad_key'' | NoSuchKey _ \<Rightarrow> ''no_such_key'' | WorkspaceRequired \<Rightarrow> ''workspace_required''
      | BadEnv _ \<Rightarrow> ''bad_env'' | NoHomeDir _ \<Rightarrow> ''no_home_dir'')"

definition config_error_key :: "config_error \<Rightarrow> string option" where
  "config_error_key e =
     (case e of UnknownKey _ k \<Rightarrow> Some k | KeyNotOverridable _ k _ \<Rightarrow> Some k | WrongType _ k _ _ \<Rightarrow> Some k
      | NotALeaf k \<Rightarrow> Some k | BadKey k _ \<Rightarrow> Some k | NoSuchKey k \<Rightarrow> Some k | _ \<Rightarrow> None)"

definition config_error_path :: "config_error \<Rightarrow> string option" where
  "config_error_path e =
     (case e of ReadFailed p _ \<Rightarrow> Some p | WriteFailed p _ \<Rightarrow> Some p | SyntaxError p _ \<Rightarrow> Some p
      | UnknownKey p _ \<Rightarrow> Some p | KeyNotOverridable p _ _ \<Rightarrow> Some p | WrongType p _ _ _ \<Rightarrow> Some p
      | InvalidConfig p _ \<Rightarrow> Some p | _ \<Rightarrow> None)"

definition tick :: "string \<Rightarrow> string" where
  "tick s = CHR 0x60 # s @ [CHR 0x60]"

definition config_error_str :: "config_error \<Rightarrow> string" where
  "config_error_str e =
     (case e of
        ReadFailed p m \<Rightarrow> ''cannot read '' @ p @ '': '' @ m
      | WriteFailed p m \<Rightarrow> ''cannot write '' @ p @ '': '' @ m
      | SyntaxError p m \<Rightarrow> p @ '' is not valid TOML: '' @ m
      | UnknownKey p k \<Rightarrow> p @ '': unknown key '' @ tick k
      | KeyNotOverridable p k al \<Rightarrow>
          p @ '': key '' @ tick k @ '' cannot be set in a workspace config (allowed: '' @ al @ '')''
      | WrongType p k x f \<Rightarrow> p @ '': key '' @ tick k @ '' expects '' @ x @ '', found '' @ f
      | InvalidConfig p m \<Rightarrow> p @ '': '' @ m
      | NotALeaf k \<Rightarrow>
          ''key '' @ tick k @ '' is a table, not a value; set a leaf key such as '' @ tick (k @ ''.<field>'')
      | BadKey k r \<Rightarrow> ''key '' @ tick k @ '' is not a valid dotted key: '' @ r
      | NoSuchKey k \<Rightarrow> ''no such key '' @ tick k
      | WorkspaceRequired \<Rightarrow> ''a workspace path is required to edit the workspace layer''
      | BadEnv v \<Rightarrow> ''environment variable '' @ v @ '' is not valid UTF-8''
      | NoHomeDir m \<Rightarrow> m)"

definition rpc_of_config_error :: "config_error \<Rightarrow> rpc_error" where
  "rpc_of_config_error e =
     (case e of
        NoSuchKey _ \<Rightarrow> not_found_error (config_error_str e)
      | _ \<Rightarrow>
          with_details (rpc_error_new (-32050) ''config_error'' (config_error_str e))
            (jobj ([(''reason'', JStr (config_error_kind e))]
                   @ skip_none ''key'' (map_option JStr (config_error_key e))
                   @ skip_none ''file'' (map_option JStr (config_error_path e)))))"

section \<open>The defaults\<close>

definition mentor_defaults :: json where
  "mentor_defaults = jobj
     [(''provider'', JStr ''anthropic''), (''model'', JStr ''claude-opus-5''),
      (''title_model'', JStr ''claude-haiku-4-5-20251001''), (''effort'', JStr ''high''),
      (''max_tokens'', JInt 64000), (''thinking_display'', JStr ''summarized''),
      (''base_url'', JStr ''https://api.anthropic.com''), (''timeout_s'', JInt 600), (''max_retries'', JInt 4),
      (''context_soft_limit'', JInt 600000), (''context_hard_limit'', JInt 900000)]"

definition runtime_defaults :: json where
  "runtime_defaults = jobj
     [(''max_iterations'', JInt 200), (''max_wait_s'', JInt 300), (''stall_grace_s'', JInt 60)]"

definition sessions_defaults :: json where
  "sessions_defaults = jobj [(''auto_title'', JBool True)]"

text \<open>\<open>Pricing::first_party\<close> on the built-in prices; the cache prices are the products.\<close>

definition price_entry :: "string \<Rightarrow> string \<Rightarrow> string \<Rightarrow> string \<Rightarrow> json" where
  "price_entry input out cache_read cache_write = jobj
     [(''input'', JFloat input), (''output'', JFloat out), (''cache_read'', JFloat cache_read),
      (''cache_write'', JFloat cache_write)]"

definition pricing_defaults :: json where
  "pricing_defaults = jobj
     [(''claude-opus-5'', price_entry ''5.0'' ''25.0'' ''0.5'' ''6.25''),
      (''claude-sonnet-5'', price_entry ''2.0'' ''10.0'' ''0.2'' ''2.5''),
      (''claude-haiku-4-5-20251001'', price_entry ''1.0'' ''5.0'' ''0.1'' ''1.25'')]"

definition trace_defaults :: json where
  "trace_defaults = jobj [(''capture_raw_sse'', JBool False), (''inline_payload_max_bytes'', JInt 4096)]"

definition daemon_defaults :: json where
  "daemon_defaults = jobj
     [(''log_level'', JStr ''info''), (''idle_shutdown_min'', JInt 0), (''secret_store'', JStr ''keychain'')]"

definition apprentice_defaults :: json where
  "apprentice_defaults = jobj [(''enabled'', JBool False)]"

definition permissions_defaults :: json where
  "permissions_defaults = jobj
     [(''default_mode'', JStr ''default''), (''ask_timeout_s'', JInt 600), (''headless'', JStr ''deny'')]"

definition shell_defaults :: json where
  "shell_defaults = jobj
     [(''program'', JStr []), (''args'', JArr []),
      (''scrub_env'', JArr (map JStr
         [''ANTHROPIC_API_KEY'', ''*_API_KEY'', ''*_TOKEN'', ''*_SECRET'', ''*_SECRET_*'', ''*_PASSWORD'', ''AWS_*''])),
      (''env'', JObj []), (''max_timeout_s'', JInt 3600)]"

definition timeout_defaults :: json where
  "timeout_defaults = jobj
     [(''read_only'', JInt 30), (''write'', JInt 30), (''execute'', JInt 600), (''network'', JInt 120)]"

definition tools_defaults :: json where
  "tools_defaults = jobj
     [(''disabled'', JArr []), (''max_capture_bytes'', JInt (8 * 1024 * 1024)),
      (''max_mentor_bytes'', JInt (32 * 1024)), (''timeout_s'', timeout_defaults), (''shell'', shell_defaults)]"

definition config_defaults :: json where
  "config_defaults = jobj
     [(''mentor'', mentor_defaults), (''pricing'', pricing_defaults), (''trace'', trace_defaults),
      (''daemon'', daemon_defaults), (''apprentice'', apprentice_defaults),
      (''permissions'', permissions_defaults), (''tools'', tools_defaults), (''runtime'', runtime_defaults),
      (''sessions'', sessions_defaults)]"

section \<open>Trees\<close>

definition is_object :: "json \<Rightarrow> bool" where
  "is_object v = (case v of JObj _ \<Rightarrow> True | _ \<Rightarrow> False)"

definition obj_entries :: "json \<Rightarrow> (string \<times> json) list" where
  "obj_entries v = (case v of JObj fs \<Rightarrow> fs | _ \<Rightarrow> [])"

fun tree_at :: "string list \<Rightarrow> json \<Rightarrow> json option" where
  "tree_at [] v = Some v"
| "tree_at (s # ss) v = (case jget s v of None \<Rightarrow> None | Some n \<Rightarrow> tree_at ss n)"

text \<open>\<open>leaves\<close>: the paths to everything that is no table, in key order.\<close>

fun leaves_from :: "string list \<Rightarrow> json \<Rightarrow> (string list \<times> json) list" where
  "leaves_from pre (JObj fs) = concat (map (\<lambda>kv. leaves_from (pre @ [fst kv]) (snd kv)) fs)"
| "leaves_from pre v = [(pre, v)]"

definition leaves :: "json \<Rightarrow> (string list \<times> json) list" where
  "leaves v = leaves_from [] v"

text \<open>\<open>set_leaf\<close> on the tree: what is no table on the way becomes one.\<close>

fun tree_set :: "string list \<Rightarrow> json \<Rightarrow> json \<Rightarrow> json" where
  "tree_set [] x v = x"
| "tree_set [s] x v = JObj (obj_set s x (obj_entries v))"
| "tree_set (s # t # ss) x v =
     (let fs = obj_entries v;
          child = (case map_of fs s of Some c \<Rightarrow> c | None \<Rightarrow> JObj [])
      in JObj (obj_set s (tree_set (t # ss) x child) fs))"

definition type_name :: "json \<Rightarrow> string" where
  "type_name v =
     (case v of JNull \<Rightarrow> ''null'' | JBool _ \<Rightarrow> ''boolean'' | JInt _ \<Rightarrow> ''number'' | JFloat _ \<Rightarrow> ''number''
      | JStr _ \<Rightarrow> ''string'' | JArr _ \<Rightarrow> ''array'' | JObj _ \<Rightarrow> ''table'')"

section \<open>Loading\<close>

datatype config_source = SrcDefault | SrcUser | SrcWorkspace | SrcEnv

definition check_type :: "json \<Rightarrow> json \<Rightarrow> string \<Rightarrow> string \<Rightarrow> config_error + unit" where
  "check_type expected found key path =
     (if type_name expected = type_name found then Inr ()
      else Inl (WrongType path key (type_name expected) (type_name found)))"

text \<open>\<open>check_known\<close>: the path has to end at a leaf of the defaults, or in a field of a price.\<close>

fun check_walk ::
  "json \<Rightarrow> string list \<Rightarrow> string \<Rightarrow> json \<Rightarrow> string \<Rightarrow> nat \<Rightarrow> string list \<Rightarrow> json \<Rightarrow> config_error + unit" where
  "check_walk defaults segments key value path i [] node =
     (if is_object node then Inl (WrongType path key ''table'' (type_name value))
      else check_type node value key path)"
| "check_walk defaults segments key value path i (s # ss) node =
     (case jget s node of
        Some n \<Rightarrow> check_walk defaults segments key value path (Suc i) ss n
      | None \<Rightarrow>
          (if length segments = 3 \<and> segments ! 0 = ''pricing'' \<and> i = 1 then
             (case jget (segments ! 2) (jindex ''claude-opus-5'' (jindex ''pricing'' defaults)) of
                Some expected \<Rightarrow> check_type expected value key path
              | None \<Rightarrow> Inl (UnknownKey path key))
           else Inl (UnknownKey path key)))"

definition check_known :: "json \<Rightarrow> string list \<Rightarrow> string \<Rightarrow> json \<Rightarrow> string \<Rightarrow> config_error + unit" where
  "check_known defaults segments key value path =
     check_walk defaults segments key value path 0 segments defaults"

text \<open>The merge state; the typed configuration is what the tree decodes to.\<close>

record 'c merged =
  mg_config :: 'c
  mg_defaults :: json
  mg_tree :: json
  mg_sources :: "string \<Rightarrow> config_source option"

record 'c config_lib =
  cl_toml :: "string \<Rightarrow> string + json"
  cl_decode :: "json \<Rightarrow> string + 'c"
  cl_builtin :: 'c

definition merged_defaults :: "'c config_lib \<Rightarrow> 'c merged" where
  "merged_defaults lib =
     \<lparr>mg_config = cl_builtin lib, mg_defaults = config_defaults, mg_tree = config_defaults,
      mg_sources = (\<lambda>k. if k \<in> set (map (key_format \<circ> fst) (leaves config_defaults)) then Some SrcDefault else None)\<rparr>"

definition set_leaf :: "string list \<Rightarrow> json \<Rightarrow> config_source \<Rightarrow> 'c merged \<Rightarrow> 'c merged" where
  "set_leaf segments v source m =
     m\<lparr>mg_tree := tree_set segments v (mg_tree m), mg_sources := (mg_sources m)(key_format segments \<mapsto> source)\<rparr>"

definition merged_validate :: "'c config_lib \<Rightarrow> string \<Rightarrow> 'c merged \<Rightarrow> config_error + 'c merged" where
  "merged_validate lib path m =
     (case cl_decode lib (mg_tree m) of
        Inl e \<Rightarrow> Inl (InvalidConfig path e)
      | Inr c \<Rightarrow> Inr (m\<lparr>mg_config := c\<rparr>))"

fun apply_leaves ::
  "string \<Rightarrow> config_source \<Rightarrow> (string list \<times> json) list \<Rightarrow> 'c merged \<Rightarrow> config_error + 'c merged" where
  "apply_leaves path source [] m = Inr m"
| "apply_leaves path source ((segments, v) # ls) m =
     (let key = key_format segments in
      case check_known (mg_defaults m) segments key v path of
        Inl e \<Rightarrow> Inl e
      | Inr _ \<Rightarrow>
          (if source = SrcWorkspace \<and> \<not> workspace_overridable key then
             Inl (KeyNotOverridable path key (join_with '', '' workspace_overridable_keys))
           else apply_leaves path source ls (set_leaf segments v source m)))"

definition apply_text ::
  "'c config_lib \<Rightarrow> string \<Rightarrow> string \<Rightarrow> config_source \<Rightarrow> 'c merged \<Rightarrow> config_error + 'c merged" where
  "apply_text lib txt path source m =
     (case cl_toml lib txt of
        Inl e \<Rightarrow> Inl (SyntaxError path e)
      | Inr layer \<Rightarrow> res_bind (apply_leaves path source (leaves layer) m) (merged_validate lib path))"

definition validate_layer_text :: "'c config_lib \<Rightarrow> string \<Rightarrow> string \<Rightarrow> config_source \<Rightarrow> config_error + unit" where
  "validate_layer_text lib txt path source =
     res_bind (apply_text lib txt path source (merged_defaults lib)) (\<lambda>_. Inr ())"

text \<open>A layer file: absent, or its path and what reading it gives.\<close>

type_synonym layer_file = "(string \<times> (string + string)) option"

definition apply_file :: "'c config_lib \<Rightarrow> layer_file \<Rightarrow> config_source \<Rightarrow> 'c merged \<Rightarrow> config_error + 'c merged" where
  "apply_file lib f source m =
     (case f of
        None \<Rightarrow> Inr m
      | Some (path, Inl e) \<Rightarrow> Inl (ReadFailed path e)
      | Some (path, Inr txt) \<Rightarrow> apply_text lib txt path source m)"

fun apply_env ::
  "'c config_lib \<Rightarrow> (string \<Rightarrow> string option) \<Rightarrow> (string \<times> string) list \<Rightarrow> 'c merged \<Rightarrow> config_error + 'c merged" where
  "apply_env lib env [] m = Inr m"
| "apply_env lib env ((var, key) # vs) m =
     (case env var of
        None \<Rightarrow> apply_env lib env vs m
      | Some v \<Rightarrow>
          (case key_parse key of
             Inl r \<Rightarrow> Inl (BadKey key r)
           | Inr segments \<Rightarrow>
               res_bind (merged_validate lib (CHR ''$'' # var) (set_leaf segments (JStr v) SrcEnv m))
                 (apply_env lib env vs)))"

record 'c resolved =
  rv_config :: 'c
  rv_tree :: json
  rv_sources :: "string \<Rightarrow> config_source option"
  rv_user_file :: "string option"
  rv_workspace_file :: "string option"

definition config_load ::
  "'c config_lib \<Rightarrow> layer_file \<Rightarrow> layer_file \<Rightarrow> (string \<Rightarrow> string option) \<Rightarrow> config_error + 'c resolved" where
  "config_load lib user workspace env =
     res_bind (apply_file lib user SrcUser (merged_defaults lib)) (\<lambda>m1.
     res_bind (apply_file lib workspace SrcWorkspace m1) (\<lambda>m2.
     res_bind (apply_env lib env env_overrides m2) (\<lambda>m.
       Inr \<lparr>rv_config = mg_config m, rv_tree = mg_tree m, rv_sources = mg_sources m,
            rv_user_file = map_option fst user, rv_workspace_file = map_option fst workspace\<rparr>)))"

definition resolved_get :: "string \<Rightarrow> 'c resolved \<Rightarrow> config_error + json \<times> config_source option" where
  "resolved_get key r =
     (case key_parse key of
        Inl e \<Rightarrow> Inl (BadKey key e)
      | Inr segments \<Rightarrow>
          (case tree_at segments (rv_tree r) of
             None \<Rightarrow> Inl (NoSuchKey key)
           | Some v \<Rightarrow> Inr (v, if is_object v then None else rv_sources r (key_format segments))))"

section \<open>What a workspace file can change\<close>

lemma jget_set_entry: "jget a (JObj (obj_set s x (obj_entries v))) = (if a = s then Some x else jget a v)"
  by (cases v) (simp_all add: jget_def map_of_obj_set obj_entries_def)

lemma map_of_entries: "map_of (obj_entries v) = (\<lambda>s. jget s v)"
  by (cases v) (simp_all add: jget_def obj_entries_def)

lemma tree_at_set_same: "q \<noteq> [] \<Longrightarrow> tree_at q (tree_set q x v) = Some x"
  by (induction q x v rule: tree_set.induct) (simp_all add: jget_set_entry Let_def)

lemma tree_at_empty: "p \<noteq> [] \<Longrightarrow> tree_at p (JObj []) = None"
  by (cases p) (simp_all add: jget_def)

lemma tree_at_set_other:
  assumes "\<not> prefix p q" "\<not> prefix q p"
  shows "tree_at p (tree_set q x v) = tree_at p v"
  using assms
proof (induction q x v arbitrary: p rule: tree_set.induct)
  case (2 s x v)
  then obtain a p' where "p = a # p'" "a \<noteq> s" by (cases p) auto
  then show ?case by (simp add: jget_set_entry)
next
  case (3 s t ss x v)
  then obtain a p' where p: "p = a # p'" by (cases p) auto
  show ?case
  proof (cases "a = s")
    case True
    with "3.prems" p have np: "\<not> prefix p' (t # ss)" "\<not> prefix (t # ss) p'" "p' \<noteq> []" by auto
    define child where "child = (case map_of (obj_entries v) s of Some c \<Rightarrow> c | None \<Rightarrow> JObj [])"
    have "tree_at p (tree_set (s # t # ss) x v) = tree_at p' (tree_set (t # ss) x child)"
      by (simp add: p True jget_set_entry Let_def child_def)
    also have "\<dots> = tree_at p' child"
      using "3.IH" [OF refl _ np(1,2)] by (simp add: child_def)
    also have "\<dots> = tree_at p v"
      using np(3) by (simp add: p True child_def map_of_entries tree_at_empty split: option.split)
    finally show ?thesis .
  qed (simp add: p jget_set_entry Let_def)
qed simp

text \<open>Two leaves of one tree are the same or lie apart.\<close>

definition is_leaf :: "string list \<Rightarrow> json \<Rightarrow> bool" where
  "is_leaf p v \<longleftrightarrow> (\<exists>x. tree_at p v = Some x \<and> \<not> is_object x)"

lemma is_leaf_prefix:
  assumes "is_leaf p v" "is_leaf q v" "prefix p q"
  shows "p = q"
proof -
  have sub: "tree_at (p @ r) v = Option.bind (tree_at p v) (tree_at r)" for r
    by (induction p arbitrary: v) (auto split: option.split)
  from assms(3) obtain r where r: "q = p @ r" by (auto simp: prefix_def)
  from assms(1) obtain x where x: "tree_at p v = Some x" "\<not> is_object x" by (auto simp: is_leaf_def)
  then have "jget k x = None" for k by (cases x) (simp_all add: jget_def is_object_def)
  then have "tree_at r x \<noteq> None \<Longrightarrow> r = []" by (cases r) auto
  with assms(2) show ?thesis by (auto simp: is_leaf_def r sub x(1))
qed

lemma check_walk_ok:
  assumes "check_walk d segs key x path i ss node = Inr u"
  shows "is_leaf ss node \<or> (length segs = 3 \<and> segs ! 0 = ''pricing'')"
  using assms
  by (induction ss arbitrary: i node) (auto simp: is_leaf_def check_type_def split: if_splits option.splits)

lemma pricing_not_overridable:
  assumes "length segs = 3" "segs ! 0 = ''pricing''"
  shows "\<not> workspace_overridable (key_format segs)"
proof -
  from assms obtain b c where "segs = [''pricing'', b, c]"
    by (auto simp: length_Suc_conv numeral_3_eq_3)
  moreover have "key_segment ''pricing'' = ''pricing''" by code_simp
  ultimately have "key_format segs = ''pricing'' @ ''.'' @ key_segment b @ ''.'' @ key_segment c"
    by (simp add: key_format_def)
  then show ?thesis
    by (simp add: workspace_overridable_def workspace_overridable_keys_def strip_suffix_def strip_prefix_def)
qed

lemma set_leaf_defaults [simp]: "mg_defaults (set_leaf p x src m) = mg_defaults m"
  by (simp add: set_leaf_def)

lemma merged_validate_ok:
  "merged_validate lib path m = Inr m' \<Longrightarrow>
     mg_tree m' = mg_tree m \<and> mg_sources m' = mg_sources m \<and> mg_defaults m' = mg_defaults m"
  by (auto simp: merged_validate_def split: sum.splits)

text \<open>A workspace layer leaves the protected leaves and their sources as they are.\<close>

lemma apply_leaves_workspace:
  assumes "apply_leaves path SrcWorkspace ls m = Inr m'"
    and "is_leaf p (mg_defaults m)" "\<not> workspace_overridable (key_format p)"
  shows "tree_at p (mg_tree m') = tree_at p (mg_tree m) \<and> mg_sources m' (key_format p) = mg_sources m (key_format p) \<and>
     mg_defaults m' = mg_defaults m"
  using assms
proof (induction ls arbitrary: m)
  case (Cons l ls)
  obtain q x where l: "l = (q, x)" by (cases l)
  from Cons.prems(1) obtain u where known: "check_known (mg_defaults m) q (key_format q) x path = Inr u"
    and ov: "workspace_overridable (key_format q)"
    and rest: "apply_leaves path SrcWorkspace ls (set_leaf q x SrcWorkspace m) = Inr m'"
    by (auto simp: l Let_def split: sum.splits if_splits)
  from check_walk_ok [OF known [unfolded check_known_def]] pricing_not_overridable ov
  have q: "is_leaf q (mg_defaults m)" by blast
  from ov Cons.prems(3) have "key_format p \<noteq> key_format q" by auto
  moreover from this q Cons.prems(2) have "\<not> prefix p q" "\<not> prefix q p"
    using is_leaf_prefix by blast+
  ultimately have "tree_at p (mg_tree (set_leaf q x SrcWorkspace m)) = tree_at p (mg_tree m)"
    "mg_sources (set_leaf q x SrcWorkspace m) (key_format p) = mg_sources m (key_format p)"
    by (simp_all add: set_leaf_def tree_at_set_other)
  with Cons.IH [OF rest] Cons.prems(2,3) show ?case by simp
qed simp

lemma apply_file_cases:
  assumes "apply_file lib f src m = Inr m'"
  obtains "m' = m" | path ls m1 where "apply_leaves path src ls m = Inr m1" "mg_tree m' = mg_tree m1"
    "mg_sources m' = mg_sources m1" "mg_defaults m' = mg_defaults m1"
proof (cases f)
  case None
  with assms that(1) show thesis by (simp add: apply_file_def)
next
  case (Some pf)
  with assms obtain path body where "apply_text lib body path src m = Inr m'"
    by (auto simp: apply_file_def split: sum.splits prod.splits)
  then obtain layer m1 where l: "apply_leaves path src (leaves layer) m = Inr m1" "merged_validate lib path m1 = Inr m'"
    by (auto simp: apply_text_def res_bind_Inr_iff split: sum.splits)
  with that(2) [OF l(1)] merged_validate_ok [OF l(2)] show thesis by simp
qed

lemma apply_file_workspace:
  assumes "apply_file lib f SrcWorkspace m = Inr m'"
    and "is_leaf p (mg_defaults m)" "\<not> workspace_overridable (key_format p)"
  shows "tree_at p (mg_tree m') = tree_at p (mg_tree m) \<and> mg_sources m' (key_format p) = mg_sources m (key_format p) \<and>
     mg_defaults m' = mg_defaults m"
  using assms(1)
  by (cases rule: apply_file_cases) (use apply_leaves_workspace [OF _ assms(2,3)] in \<open>auto\<close>)

lemma apply_leaves_defaults: "apply_leaves path src ls m = Inr m' \<Longrightarrow> mg_defaults m' = mg_defaults m"
  by (induction path src ls m rule: apply_leaves.induct) (auto simp: Let_def split: sum.splits if_splits)

lemma apply_file_defaults: "apply_file lib f src m = Inr m' \<Longrightarrow> mg_defaults m' = mg_defaults m"
  by (erule apply_file_cases) (auto dest: apply_leaves_defaults)

text \<open>The environment acts alike on two trees that agree at a leaf.\<close>

lemma apply_env_agree:
  assumes "apply_env lib env vs m = Inr m'" "apply_env lib env vs n = Inr n'"
    and "\<forall>(var, key)\<in>set vs. \<exists>q. key_parse key = Inr q \<and> is_leaf q d" "is_leaf p d"
    and "tree_at p (mg_tree m) = tree_at p (mg_tree n)" "mg_sources m (key_format p) = mg_sources n (key_format p)"
  shows "tree_at p (mg_tree m') = tree_at p (mg_tree n') \<and> mg_sources m' (key_format p) = mg_sources n' (key_format p)"
  using assms
proof (induction vs arbitrary: m n)
  case (Cons vk vs)
  obtain var key where vk: "vk = (var, key)" by (cases vk)
  show ?case
  proof (cases "env var")
    case None
    with Cons show ?thesis by (auto simp: vk)
  next
    case (Some x)
    from Cons.prems(3) obtain q where q: "key_parse key = Inr q" "is_leaf q d" by (auto simp: vk)
    from Cons.prems(1,2) Some q(1) obtain m1 n1 where
      "merged_validate lib (CHR ''$'' # var) (set_leaf q (JStr x) SrcEnv m) = Inr m1" "apply_env lib env vs m1 = Inr m'"
      "merged_validate lib (CHR ''$'' # var) (set_leaf q (JStr x) SrcEnv n) = Inr n1" "apply_env lib env vs n1 = Inr n'"
      by (auto simp: vk res_bind_Inr_iff)
    note r = this merged_validate_ok [OF this(1)] merged_validate_ok [OF this(3)]
    have "tree_at p (tree_set q (JStr x) (mg_tree m)) = tree_at p (tree_set q (JStr x) (mg_tree n))"
    proof (cases "p = q")
      case True
      then show ?thesis using Cons.prems(5) by (cases "q = []") (simp_all add: tree_at_set_same)
    next
      case False
      then have "\<not> prefix p q" "\<not> prefix q p"
        using is_leaf_prefix Cons.prems(4) q(2) by metis+
      then show ?thesis using Cons.prems(5) by (simp add: tree_at_set_other)
    qed
    then show ?thesis
      using Cons.IH [OF r(2,4) _ Cons.prems(4)] Cons.prems(3,6) r(5,6) by (simp add: set_leaf_def)
  qed
qed simp

lemma apply_leaves_sources:
  "apply_leaves path src ls m = Inr m' \<Longrightarrow> \<forall>k. mg_sources m k = Some SrcWorkspace \<longrightarrow> workspace_overridable k \<Longrightarrow>
   \<forall>k. mg_sources m' k = Some SrcWorkspace \<longrightarrow> workspace_overridable k"
proof (induction ls arbitrary: m)
  case (Cons l ls)
  obtain q x where l: "l = (q, x)" by (cases l)
  with Cons.prems(1) have rest: "apply_leaves path src ls (set_leaf q x src m) = Inr m'"
    and ov: "src = SrcWorkspace \<Longrightarrow> workspace_overridable (key_format q)"
    by (auto simp: Let_def split: sum.splits if_splits)
  have "\<forall>k. mg_sources (set_leaf q x src m) k = Some SrcWorkspace \<longrightarrow> workspace_overridable k"
    using Cons.prems(2) ov by (simp add: set_leaf_def)
  from Cons.IH [OF rest this] show ?case .
qed simp

lemma apply_file_sources:
  assumes "apply_file lib f src m = Inr m'" "\<forall>k. mg_sources m k = Some SrcWorkspace \<longrightarrow> workspace_overridable k"
  shows "\<forall>k. mg_sources m' k = Some SrcWorkspace \<longrightarrow> workspace_overridable k"
  using assms(1)
proof (cases rule: apply_file_cases)
  case 1
  with assms(2) show ?thesis by simp
next
  case (2 path ls m1)
  from apply_leaves_sources [OF 2(1) assms(2)] show ?thesis by (simp add: 2(3))
qed

lemma apply_env_sources:
  "apply_env lib env vs m = Inr m' \<Longrightarrow> \<forall>k. mg_sources m k = Some SrcWorkspace \<longrightarrow> workspace_overridable k \<Longrightarrow>
   \<forall>k. mg_sources m' k = Some SrcWorkspace \<longrightarrow> workspace_overridable k"
proof (induction vs arbitrary: m)
  case (Cons vk vs)
  obtain var key where vk: "vk = (var, key)" by (cases vk)
  show ?case
  proof (cases "env var")
    case (Some x)
    with Cons.prems(1) obtain q m1 where
      q: "merged_validate lib (CHR ''$'' # var) (set_leaf q (JStr x) SrcEnv m) = Inr m1" "apply_env lib env vs m1 = Inr m'"
      by (auto simp: vk res_bind_Inr_iff split: sum.splits)
    from merged_validate_ok [OF q(1)] Cons.prems(2)
    have "\<forall>k. mg_sources m1 k = Some SrcWorkspace \<longrightarrow> workspace_overridable k" by (auto simp: set_leaf_def)
    from Cons.IH [OF q(2) this] show ?thesis .
  next
    case None
    with Cons.prems(1) have "apply_env lib env vs m = Inr m'" by (simp add: vk)
    from Cons.IH [OF this Cons.prems(2)] show ?thesis .
  qed
qed simp

lemma default_leaves:
  "is_leaf [''mentor'', ''model''] config_defaults" "is_leaf [''mentor'', ''effort''] config_defaults"
  "is_leaf [''mentor'', ''base_url''] config_defaults" "is_leaf [''daemon'', ''log_level''] config_defaults"
  by (simp_all add: is_leaf_def is_object_def config_defaults_def jget_jobj mentor_defaults_def daemon_defaults_def)

lemma env_keys_leaves: "\<forall>(var, key)\<in>set env_overrides. \<exists>q. key_parse key = Inr q \<and> is_leaf q config_defaults"
proof -
  have "key_parse ''mentor.model'' = Inr [''mentor'', ''model'']" "key_parse ''mentor.effort'' = Inr [''mentor'', ''effort'']"
    "key_parse ''mentor.base_url'' = Inr [''mentor'', ''base_url'']"
    "key_parse ''daemon.log_level'' = Inr [''daemon'', ''log_level'']"
    by code_simp+
  with default_leaves show ?thesis by (simp add: env_overrides_def)
qed

text \<open>
  C31: A repository cannot redirect the program: of the settings of the built-in schema, a workspace
  file changes only those a workspace may set. Every value that came from the workspace has a key on
  the list, and each other leaf of the schema, the API's address, the secrets' store or the prices
  among them, has the value and the source it has when the workspace has no file.
\<close>

theorem workspace_cannot_override:
  assumes "config_load lib user (Some workspace) env = Inr r"
    and "config_load lib user None env = Inr r0"
    and "is_leaf p config_defaults" and "\<not> workspace_overridable (key_format p)"
  shows "tree_at p (rv_tree r) = tree_at p (rv_tree r0) \<and>
     rv_sources r (key_format p) = rv_sources r0 (key_format p) \<and>
     (\<forall>k. rv_sources r k = Some SrcWorkspace \<longrightarrow> workspace_overridable k)"
proof -
  from assms(1) obtain m1 m2 m where m: "apply_file lib user SrcUser (merged_defaults lib) = Inr m1"
    "apply_file lib (Some workspace) SrcWorkspace m1 = Inr m2" "apply_env lib env env_overrides m2 = Inr m"
    "rv_tree r = mg_tree m" "rv_sources r = mg_sources m"
    by (auto simp: config_load_def res_bind_Inr_iff)
  from assms(2) m(1) obtain n where n: "apply_env lib env env_overrides m1 = Inr n"
    "rv_tree r0 = mg_tree n" "rv_sources r0 = mg_sources n"
    by (auto simp: config_load_def res_bind_Inr_iff apply_file_def)
  have d: "mg_defaults m1 = config_defaults"
    using apply_file_defaults [OF m(1)] by (simp add: merged_defaults_def)
  from apply_file_workspace [OF m(2), of p] assms(3,4)
  have "tree_at p (mg_tree m2) = tree_at p (mg_tree m1)" "mg_sources m2 (key_format p) = mg_sources m1 (key_format p)"
    by (simp_all add: d)
  from apply_env_agree [OF m(3) n(1) env_keys_leaves assms(3) this]
  have "tree_at p (mg_tree m) = tree_at p (mg_tree n) \<and> mg_sources m (key_format p) = mg_sources n (key_format p)" .
  moreover have "\<forall>k. mg_sources m k = Some SrcWorkspace \<longrightarrow> workspace_overridable k"
    by (rule apply_env_sources [OF m(3)], rule apply_file_sources [OF m(2)], rule apply_file_sources [OF m(1)])
       (simp add: merged_defaults_def)
  ultimately show ?thesis by (simp add: m(4,5) n(2,3))
qed

definition demo_config_lib :: "unit config_lib" where
  "demo_config_lib =
     \<lparr>cl_toml = (\<lambda>s. Inr (JObj [(''mentor'', JObj [(''model'', JStr s)])])), cl_decode = (\<lambda>_. Inr ()), cl_builtin = ()\<rparr>"

definition demo_loaded :: "layer_file \<Rightarrow> config_error + unit resolved" where
  "demo_loaded w = config_load demo_config_lib None w (\<lambda>_. None)"

lemma demo_loaded_ok: "\<exists>r. demo_loaded (Some (''w'', Inr ''m1'')) = Inr r" "\<exists>r. demo_loaded None = Inr r"
proof -
  have env: "apply_env lib (\<lambda>_. None) vs m = Inr m" for lib :: "unit config_lib" and vs m
    by (induction vs) auto
  have w: "workspace_overridable (key_format [''mentor'', ''model''])" by code_simp
  have d: "jget ''mentor'' config_defaults = Some mentor_defaults" "jget ''model'' mentor_defaults = Some (JStr ''claude-opus-5'')"
    by (simp_all add: config_defaults_def mentor_defaults_def jget_jobj)
  show "\<exists>r. demo_loaded (Some (''w'', Inr ''m1'')) = Inr r" "\<exists>r. demo_loaded None = Inr r"
    by (simp_all add: demo_loaded_def config_load_def apply_file_def apply_text_def demo_config_lib_def env leaves_def
        merged_defaults_def check_known_def d is_object_def check_type_def type_name_def w merged_validate_def)
qed

theorem workspace_cannot_override_witness:
  "tree_at [''mentor'', ''base_url''] (rv_tree (projr (demo_loaded (Some (''w'', Inr ''m1''))))) =
   tree_at [''mentor'', ''base_url''] (rv_tree (projr (demo_loaded None)))"
proof -
  obtain r r0 where r: "demo_loaded (Some (''w'', Inr ''m1'')) = Inr r" "demo_loaded None = Inr r0"
    using demo_loaded_ok by blast
  have "\<not> workspace_overridable (key_format [''mentor'', ''base_url''])" by code_simp
  then show ?thesis
    using workspace_cannot_override [OF r [unfolded demo_loaded_def] default_leaves(3)] by (simp add: r)
qed

text \<open>
  The variables of \<open>tools.shell.env\<close> cannot be set: the defaults hold an empty table there, and the
  check for unknown keys refuses every entry of it in every layer.
\<close>

lemma shell_env_unknown:
  "check_known config_defaults [''tools'', ''shell'', ''env'', var] key v path = Inl (UnknownKey path key)"
proof -
  have "jget ''tools'' config_defaults = Some tools_defaults" "jget ''shell'' tools_defaults = Some shell_defaults"
    "jget ''env'' shell_defaults = Some (JObj [])" "jget var (JObj []) = None"
    by (simp_all add: config_defaults_def tools_defaults_def shell_defaults_def jget_jobj)
       (simp add: jget_def)
  then show ?thesis by (simp add: check_known_def)
qed

end
