(* ===== verification/Tool_Limits.thy ===== *)
theory Tool_Limits
  imports Rust_Utf8
begin

text \<open>
  \<open>crates/core/src/tools/limits.rs\<close>: what the mentor is shown of a long output and what the trace
  keeps of it. Offsets are byte offsets, as in the code; the loops that look for a character
  boundary are recursions towards it.
\<close>

section \<open>Boundaries\<close>

function floor_from :: "string \<Rightarrow> nat \<Rightarrow> nat" where
  "floor_from s i = (if is_char_boundary s i then i else floor_from s (i - 1))"
  by pat_completeness auto
termination
  by (relation "measure snd") (auto simp: is_char_boundary_def)

function ceil_from :: "string \<Rightarrow> nat \<Rightarrow> nat" where
  "ceil_from s i = (if is_char_boundary s i \<or> length s < i then i else ceil_from s (i + 1))"
  by pat_completeness auto
termination
  by (relation "measure (\<lambda>(s, i). Suc (length s) - i)") auto

declare floor_from.simps [simp del] ceil_from.simps [simp del]

definition floor_boundary :: "string \<Rightarrow> nat \<Rightarrow> nat" where
  "floor_boundary s n = floor_from s (min n (length s))"

definition ceil_boundary :: "string \<Rightarrow> nat \<Rightarrow> nat" where
  "ceil_boundary s n = ceil_from s (min n (length s))"

section \<open>Cutting\<close>

record truncated =
  tr_text :: string
  tr_truncated :: bool
  tr_omitted :: nat

text \<open>The share of the budget the head gets: three quarters.\<close>

definition head_budget :: "nat \<Rightarrow> nat" where
  "head_budget max_bytes = max_bytes * 3 div 4"

definition truncate_utf8 :: "string \<Rightarrow> nat \<Rightarrow> (nat \<Rightarrow> string) \<Rightarrow> truncated" where
  "truncate_utf8 s max_bytes marker =
     (if length s \<le> max_bytes then \<lparr>tr_text = s, tr_truncated = False, tr_omitted = 0\<rparr>
      else
        let head_end = floor_boundary s (head_budget max_bytes);
            tail_start = max (ceil_boundary s (length s - (max_bytes - head_budget max_bytes))) head_end;
            omitted = tail_start - head_end;
            head = take head_end s
        in \<lparr>tr_text = head @ (if head \<noteq> [] \<and> last head = CHR 0x0A then [] else [CHR 0x0A])
                      @ marker omitted @ [CHR 0x0A] @ drop tail_start s,
            tr_truncated = True, tr_omitted = omitted\<rparr>)"

definition capture_bytes :: "string \<Rightarrow> nat \<Rightarrow> string option" where
  "capture_bytes raw max_bytes =
     (if length raw \<le> max_bytes then None
      else
        let tail_budget = max_bytes - head_budget max_bytes;
            (head_end, tail_start) =
              (if utf8_valid raw
               then (floor_boundary raw (head_budget max_bytes), ceil_boundary raw (length raw - tail_budget))
               else (head_budget max_bytes, length raw - tail_budget))
        in Some (take head_end raw @ drop (max tail_start head_end) raw))"

section \<open>One line\<close>

text \<open>The first character of a non-empty text and the rest.\<close>

definition next_char :: "string \<Rightarrow> string" where
  "next_char s = (case s of [] \<Rightarrow> [] | c # t \<Rightarrow> c # takeWhile is_cont t)"

function one_line_go :: "string \<Rightarrow> bool \<Rightarrow> string \<Rightarrow> string" where
  "one_line_go out pending s =
     (if s = [] then out
      else if 0 < ws_len s then one_line_go out (out \<noteq> []) (drop (ws_len s) s)
      else one_line_go (out @ (if pending then '' '' else []) @ next_char s) False
             (drop (length (next_char s)) s))"
  by pat_completeness auto
termination
  by (relation "measure (\<lambda>(_, _, s). length s)") (auto simp: next_char_def split: list.splits)

declare one_line_go.simps [simp del]

definition one_line :: "string \<Rightarrow> nat \<Rightarrow> string" where
  "one_line s max_chars =
     (let out = one_line_go [] False s
      in if max_chars < char_count out then take_chars (max_chars - 1) out @ ellipsis else out)"

section \<open>What the boundaries are\<close>

lemma floor_from_le: "floor_from s i \<le> i"
proof (induction s i rule: floor_from.induct)
  case (1 s i)
  show ?case
  proof (cases "is_char_boundary s i")
    case True
    then show ?thesis by (simp add: floor_from.simps)
  next
    case False
    with 1 show ?thesis by (subst floor_from.simps) simp
  qed
qed

lemma floor_from_boundary: "is_char_boundary s (floor_from s i)"
proof (induction s i rule: floor_from.induct)
  case (1 s i)
  then show ?case by (cases "is_char_boundary s i") (simp_all add: floor_from.simps [of s i])
qed

lemma floor_from_greatest: "is_char_boundary s j \<Longrightarrow> j \<le> i \<Longrightarrow> j \<le> floor_from s i"
proof (induction s i rule: floor_from.induct)
  case (1 s i)
  show ?case
  proof (cases "is_char_boundary s i")
    case True
    with 1 show ?thesis by (simp add: floor_from.simps)
  next
    case False
    with 1(2,3) have "j \<le> i - 1" by (metis Suc_pred' diff_is_0_eq le_Suc_eq neq0_conv diff_Suc_1 le_zero_eq)
    with 1 False show ?thesis by (simp add: floor_from.simps [of s i])
  qed
qed

lemma ceil_from_ge: "i \<le> length s \<Longrightarrow>
     i \<le> ceil_from s i \<and> ceil_from s i \<le> length s \<and> is_char_boundary s (ceil_from s i)"
proof (induction s i rule: ceil_from.induct)
  case (1 s i)
  show ?case
  proof (cases "is_char_boundary s i")
    case True
    with 1 show ?thesis by (simp add: ceil_from.simps)
  next
    case False
    with 1(2) have "i + 1 \<le> length s" by (auto simp: is_char_boundary_def)
    with 1 False show ?thesis by (simp add: ceil_from.simps [of s i])
  qed
qed

lemma floor_boundary_props:
  "floor_boundary s n \<le> n" "floor_boundary s n \<le> length s" "is_char_boundary s (floor_boundary s n)"
  using floor_from_le [of s "min n (length s)"] floor_from_boundary [of s "min n (length s)"]
  by (simp_all add: floor_boundary_def)

lemma ceil_boundary_props:
  "min n (length s) \<le> ceil_boundary s n" "ceil_boundary s n \<le> length s" "is_char_boundary s (ceil_boundary s n)"
  using ceil_from_ge [of "min n (length s)" s] by (simp_all add: ceil_boundary_def)

text \<open>In well-formed text the cut is at most three bytes below the budget.\<close>

lemma floor_boundary_near:
  assumes "utf8_valid s" and "n < length s"
  shows "n < floor_boundary s n + 4"
proof -
  obtain j where j: "j \<le> n" "n < j + 4" "\<not> is_cont (s ! j)"
    using utf8_boundary_near [OF assms] by blast
  with assms(2) have "is_char_boundary s j" by (simp add: is_char_boundary_def)
  with floor_from_greatest [of s j n] j assms(2) show ?thesis by (simp add: floor_boundary_def min_def)
qed


lemma ceil_from_least: "is_char_boundary s j \<Longrightarrow> i \<le> j \<Longrightarrow> j \<le> length s \<Longrightarrow> ceil_from s i \<le> j"
proof (induction s i rule: ceil_from.induct)
  case (1 s i)
  show ?case
  proof (cases "is_char_boundary s i \<or> length s < i")
    case True
    with 1 show ?thesis by (simp add: ceil_from.simps)
  next
    case False
    with 1(2,3) have "i + 1 \<le> j" by (metis add.commute le_neq_implies_less plus_1_eq_Suc Suc_leI)
    with 1 False show ?thesis by (simp add: ceil_from.simps [of s i])
  qed
qed

lemma ceil_boundary_near:
  assumes "utf8_valid s" and "n \<le> length s"
  shows "ceil_boundary s n < n + 4"
proof (cases "n + 3 < length s")
  case True
  obtain j where j: "j \<le> n + 3" "n + 3 < j + 4" "\<not> is_cont (s ! j)"
    using utf8_boundary_near [OF assms(1) True] by blast
  with True have "is_char_boundary s j" by (simp add: is_char_boundary_def)
  with ceil_from_least [of s j n] j True assms(2) show ?thesis by (simp add: ceil_boundary_def min_def)
next
  case False
  with ceil_boundary_props(2) [of s n] show ?thesis by linarith
qed

section \<open>The mentor's copy\<close>

lemma head_budget_le: "head_budget n \<le> n"
  by (simp add: head_budget_def)

text \<open>The cut of a text longer than its budget: head, what is left out, tail.\<close>

lemma cut_parts:
  assumes "max_bytes < length s"
  shows "\<exists>head mid tail. s = head @ mid @ tail \<and> mid \<noteq> [] \<and>
    head = take (floor_boundary s (head_budget max_bytes)) s \<and>
    tail = drop (max (ceil_boundary s (length s - (max_bytes - head_budget max_bytes)))
                     (floor_boundary s (head_budget max_bytes))) s \<and>
    length mid = max (ceil_boundary s (length s - (max_bytes - head_budget max_bytes)))
                     (floor_boundary s (head_budget max_bytes)) - floor_boundary s (head_budget max_bytes) \<and>
    length head \<le> head_budget max_bytes \<and> length tail \<le> max_bytes - head_budget max_bytes \<and>
    (utf8_valid s \<longrightarrow> utf8_valid head \<and> utf8_valid tail \<and> max_bytes < length head + length tail + 7)"
proof -
  let ?h = "floor_boundary s (head_budget max_bytes)"
  let ?u = "length s - (max_bytes - head_budget max_bytes)"
  let ?t = "ceil_boundary s ?u"
  have hb: "head_budget max_bytes \<le> max_bytes" by (rule head_budget_le)
  have h: "?h \<le> head_budget max_bytes" "?h \<le> length s" "is_char_boundary s ?h"
    by (rule floor_boundary_props)+
  have t: "?u \<le> ?t" "?t \<le> length s" "is_char_boundary s ?t"
    using ceil_boundary_props [where n = ?u and s = s] by simp_all
  have lt: "?h < ?t" using h t hb assms by linarith
  then have mx: "max ?t ?h = ?t" by simp
  have split: "s = take ?h s @ drop ?h (take ?t s) @ drop ?t s"
    using lt by (metis append.assoc append_take_drop_id le_eq_less_or_eq min.absorb1 take_take)
  have near: "max_bytes < ?h + (length s - ?t) + 7" if "utf8_valid s"
    using floor_boundary_near [OF that, of "head_budget max_bytes"] ceil_boundary_near [OF that, of ?u]
      hb assms t by linarith
  have valid: "utf8_valid (take ?h s) \<and> utf8_valid (drop ?t s)" if "utf8_valid s"
    using utf8_valid_cut [OF that h(3,2)] utf8_valid_cut [OF that t(3,2)] by blast
  have mid: "length (drop ?h (take ?t s)) = ?t - ?h" using t(2) by simp
  then have ne: "drop ?h (take ?t s) \<noteq> []" using lt by (metis list.size(3) neq0_conv zero_less_diff)
  have hl: "length (take ?h s) = ?h" and tl: "length (drop ?t s) = length s - ?t" using h(2) by simp_all
  have tb: "length s - ?t \<le> max_bytes - head_budget max_bytes" using t(1) by linarith
  show ?thesis
    unfolding mx
  proof (intro exI conjI impI)
    show "s = take ?h s @ drop ?h (take ?t s) @ drop ?t s" by (rule split)
  qed (use mid ne hl tl h tb near valid in \<open>simp_all only: not_False_eq_True\<close>)
qed

lemma utf8_valid_single: "byte c < 0x80 \<Longrightarrow> utf8_valid [c]"
  by (simp add: utf8_valid.simps [of "[c]"] char_len_def lead_len_def conts_def second_ok_def)

lemma byte_newline: "byte (CHR 0x0A) = 10"
  by (simp add: byte_def)

text \<open>
  What the mentor is shown of a long output: a text within the budget is shown unchanged;
  otherwise it is a head and a tail of the text around the marker, together within the budget,
  the marker is told exactly how many bytes lie between them, and for well-formed UTF-8 no
  character is split (the result is well-formed again) and at most 6 bytes of the budget are not
  used.
\<close>

theorem truncate_utf8_cut:
  "(length s \<le> n \<longrightarrow> tr_text (truncate_utf8 s n marker) = s \<and> \<not> tr_truncated (truncate_utf8 s n marker)) \<and>
   (n < length s \<longrightarrow> (\<exists>head mid tail sep. s = head @ mid @ tail \<and> mid \<noteq> [] \<and>
      tr_truncated (truncate_utf8 s n marker) \<and> tr_omitted (truncate_utf8 s n marker) = length mid \<and>
      tr_text (truncate_utf8 s n marker) = head @ sep @ marker (length mid) @ [CHR 0x0A] @ tail \<and>
      sep \<in> {[], [CHR 0x0A]} \<and> length head + length tail \<le> n \<and>
      (utf8_valid s \<longrightarrow> n < length head + length tail + 7 \<and>
         (utf8_valid (marker (length mid)) \<longrightarrow> utf8_valid (tr_text (truncate_utf8 s n marker))))))"
proof (cases "length s \<le> n")
  case True
  then show ?thesis by (simp add: truncate_utf8_def)
next
  case False
  then have "n < length s" by simp
  from cut_parts [OF this] obtain head mid tail where c: "s = head @ mid @ tail" "mid \<noteq> []"
    "head = take (floor_boundary s (head_budget n)) s"
    "tail = drop (max (ceil_boundary s (length s - (n - head_budget n))) (floor_boundary s (head_budget n))) s"
    "length mid = max (ceil_boundary s (length s - (n - head_budget n))) (floor_boundary s (head_budget n))
        - floor_boundary s (head_budget n)"
    "length head \<le> head_budget n" "length tail \<le> n - head_budget n"
    "utf8_valid s \<longrightarrow> utf8_valid head \<and> utf8_valid tail \<and> n < length head + length tail + 7"
    by blast
  define sep where "sep = (if head \<noteq> [] \<and> last head = CHR 0x0A then [] else [CHR 0x0A])"
  have tr: "truncate_utf8 s n marker =
      \<lparr>tr_text = head @ sep @ marker (length mid) @ [CHR 0x0A] @ tail, tr_truncated = True,
        tr_omitted = length mid\<rparr>"
    unfolding truncate_utf8_def Let_def sep_def c(3) c(4) c(5) using False by simp
  have "utf8_valid sep" by (simp add: sep_def utf8_valid_single byte_newline)
  then have "utf8_valid s \<Longrightarrow> utf8_valid (marker (length mid)) \<Longrightarrow>
      utf8_valid (head @ sep @ marker (length mid) @ [CHR 0x0A] @ tail)"
    using c(8) by (intro utf8_valid_append) (auto simp: utf8_valid_single byte_newline)
  moreover have "length head + length tail \<le> n" using c(6,7) head_budget_le [of n] by linarith
  moreover have "sep \<in> {[], [CHR 0x0A]}" by (simp add: sep_def)
  ultimately show ?thesis
    using False c(1,2,8) unfolding tr
    by (intro conjI impI, simp, simp) (rule exI [of _ head], rule exI [of _ mid], rule exI [of _ tail], rule exI [of _ sep], simp)
qed

theorem truncate_utf8_cut_witness:
  "\<exists>head mid tail. ''0123456789'' = head @ mid @ tail \<and>
     tr_omitted (truncate_utf8 ''0123456789'' 4 (\<lambda>_. ''...'')) = length mid \<and> length head + length tail \<le> 4"
proof -
  have "(4::nat) < length ''0123456789''" by simp
  with truncate_utf8_cut [of "''0123456789''" 4 "\<lambda>_. ''...''"] show ?thesis by blast
qed

text \<open>
  What the trace keeps of an output over the capture limit: a head and a tail of it, never
  more than the limit, and well-formed UTF-8 when the output was.
\<close>

theorem capture_bytes_cut:
  assumes "capture_bytes raw n = Some stored"
  shows "(\<exists>head mid tail. raw = head @ mid @ tail \<and> mid \<noteq> [] \<and> stored = head @ tail) \<and>
    length stored \<le> n \<and> n < length raw \<and> (utf8_valid raw \<longrightarrow> utf8_valid stored)"
proof (cases "utf8_valid raw")
  case True
  from assms have n: "n < length raw" by (auto simp: capture_bytes_def split: if_splits)
  from cut_parts [OF n] obtain head mid tail where c: "raw = head @ mid @ tail" "mid \<noteq> []"
    "head = take (floor_boundary raw (head_budget n)) raw"
    "tail = drop (max (ceil_boundary raw (length raw - (n - head_budget n))) (floor_boundary raw (head_budget n))) raw"
    "length head \<le> head_budget n" "length tail \<le> n - head_budget n"
    "utf8_valid raw \<longrightarrow> utf8_valid head \<and> utf8_valid tail"
    by blast
  have st: "stored = head @ tail"
    using assms n True unfolding c(3) c(4) by (simp add: capture_bytes_def Let_def)
  with c(5,6) head_budget_le [of n] have "length stored \<le> n" by simp
  with n c(1,2) st show ?thesis using c(7) utf8_valid_append by blast
next
  case False
  let ?h = "head_budget n" and ?t = "length raw - (n - head_budget n)"
  from assms have n: "n < length raw" by (auto simp: capture_bytes_def split: if_splits)
  have lt: "?h < ?t" using head_budget_le [of n] n by linarith
  then have "stored = take ?h raw @ drop ?t raw"
    using assms n False by (simp add: capture_bytes_def Let_def max_def)
  moreover have "raw = take ?h raw @ drop ?h (take ?t raw) @ drop ?t raw"
    using lt by (metis append.assoc append_take_drop_id le_eq_less_or_eq min.absorb1 take_take)
  moreover have "drop ?h (take ?t raw) \<noteq> []" using lt by simp
  moreover have "length (take ?h raw @ drop ?t raw) \<le> n" using head_budget_le [of n] n by simp
  ultimately show ?thesis using n False by metis
qed

theorem capture_bytes_cut_witness:
  "\<exists>head mid tail. ''0123456789'' = head @ mid @ tail \<and> ''0129'' = head @ tail"
proof -
  have "capture_bytes ''0123456789'' 4 = Some ''0129''" by code_simp
  from capture_bytes_cut [OF this] show ?thesis by blast
qed

section \<open>Summaries\<close>

lemma one_line_go_no_newline: "CHR 0x0A \<notin> set out \<Longrightarrow> CHR 0x0A \<notin> set (one_line_go out pending s)"
proof (induction out pending s rule: one_line_go.induct)
  case (1 out pending s)
  have "CHR 0x0A \<notin> set (next_char s)" if "ws_len s = 0"
  proof (cases s)
    case (Cons c t)
    have "c \<noteq> CHR 0x0A" using that by (cases s rule: ws_len.cases) (auto simp: Cons ascii_ws_def)
    then show ?thesis by (auto simp: Cons next_char_def dest: set_takeWhileD simp: is_cont_def)
  qed (simp add: next_char_def)
  with 1 show ?case by (subst one_line_go.simps) auto
qed

lemma take_chars_set: "set (take_chars k s) \<subseteq> set s"
  using take_chars_prefix set_mono_prefix by blast

text \<open>
  A summary is one line: \<open>one_line\<close> never yields a newline, and at most the number of
  characters asked for, the ellipsis included.
\<close>

theorem one_line_bounded:
  assumes "0 < n"
  shows "CHR 0x0A \<notin> set (one_line s n) \<and> char_count (one_line s n) \<le> n"
proof -
  have "CHR 0x0A \<notin> set (one_line_go [] False s)" by (rule one_line_go_no_newline) simp
  moreover have "char_count ellipsis = 1" "CHR 0x0A \<notin> set ellipsis"
    by (simp_all add: ellipsis_def is_cont_def)
  ultimately show ?thesis
    using assms take_chars_set [of "n - 1" "one_line_go [] False s"]
    by (auto simp: one_line_def Let_def char_count_take_chars)
qed

theorem one_line_bounded_witness:
  "one_line (''  a'' @ [CHR 0x0A] @ '' b   c  '') 10 = ''a b c'' \<and> char_count (one_line ''abcdefghijk'' 10) \<le> 10"
  using one_line_bounded [of 10 "''abcdefghijk''"] by (simp del: one_line_def) code_simp

end
