(* ===== verification/Tool_Execute.thy ===== *)
theory Tool_Execute
  imports Tool_Registry Tool_Limits "HOL-Library.Multiset"
begin

text \<open>
  \<open>crates/core/src/tools/execute.rs\<close> and the data of \<open>tools/mod.rs\<close>: the wrapper around one tool
  call and the policy for a batch of them. What happens outside during a call (whether the trace
  takes its events, whether and when the run is cancelled, how the tool's future ends, the ids the
  blob store gives) is the record \<open>call_world\<close>; the gate is a function over a state of its own; what
  the executor does is returned with its result as the list of its effects, in order.
\<close>

section \<open>Limits of a call\<close>

record tools_config =
  tc_disabled :: "string list"
  tc_max_capture_bytes :: nat
  tc_max_mentor_bytes :: nat
  tc_read_only_s :: nat
  tc_write_s :: nat
  tc_execute_s :: nat
  tc_network_s :: nat

record tool_env =
  ev_timeout_s :: nat
  ev_max_capture_bytes :: nat
  ev_max_mentor_bytes :: nat

text \<open>\<open>u64\<close> configuration values are \<open>usize\<close> values on the 64-bit targets.\<close>

definition tool_env_resolve :: "tools_config \<Rightarrow> tool_spec \<Rightarrow> tool_env" where
  "tool_env_resolve cfg spec =
     \<lparr>ev_timeout_s = max 1 (case ts_timeout_s spec of
          Some s \<Rightarrow> s
        | None \<Rightarrow> (case ts_risk spec of
            ReadOnly \<Rightarrow> tc_read_only_s cfg
          | Write \<Rightarrow> tc_write_s cfg
          | Network \<Rightarrow> tc_network_s cfg
          | Execute \<Rightarrow> tc_execute_s cfg)),
      ev_max_capture_bytes = tc_max_capture_bytes cfg,
      ev_max_mentor_bytes = tc_max_mentor_bytes cfg\<rparr>"

definition tools_config_default :: tools_config where
  "tools_config_default =
     \<lparr>tc_disabled = [], tc_max_capture_bytes = 8 * 1024 * 1024, tc_max_mentor_bytes = 32 * 1024,
      tc_read_only_s = 30, tc_write_s = 30, tc_execute_s = 600, tc_network_s = 120\<rparr>"

definition tool_env_default :: tool_env where
  "tool_env_default = tool_env_resolve tools_config_default
     \<lparr>ts_name = [], ts_description = [], ts_input_schema = JNull, ts_risk = ReadOnly, ts_tags = [],
      ts_timeout_s = None\<rparr>"

section \<open>What tools return\<close>

datatype tool_content =
    ToolText string
  | ToolJson json
  | ToolBinary string string

record attachment =
  at_name :: string
  at_media_type :: string
  at_bytes :: string

record tool_output =
  to_content :: tool_content
  to_summary :: string
  to_metadata :: json
  to_is_error :: bool
  to_attachments :: "attachment list"

datatype tool_error =
    InvalidInput string
  | GateDenied string
  | ToolTimeout
  | ToolCancelled
  | ToolIo string
  | ToolFailed string

datatype tool_result_kind =
    KindOk | KindError | KindInvalidInput | KindDenied | KindTimeout | KindCancelled | KindFailed

definition kind_of_error :: "tool_error \<Rightarrow> tool_result_kind" where
  "kind_of_error e =
     (case e of InvalidInput _ \<Rightarrow> KindInvalidInput | GateDenied _ \<Rightarrow> KindDenied | ToolTimeout \<Rightarrow> KindTimeout
      | ToolCancelled \<Rightarrow> KindCancelled | ToolIo _ \<Rightarrow> KindFailed | ToolFailed _ \<Rightarrow> KindFailed)"

definition kind_name :: "tool_result_kind \<Rightarrow> string" where
  "kind_name k =
     (case k of KindOk \<Rightarrow> ''ok'' | KindError \<Rightarrow> ''error'' | KindInvalidInput \<Rightarrow> ''invalid_input''
      | KindDenied \<Rightarrow> ''denied'' | KindTimeout \<Rightarrow> ''timeout'' | KindCancelled \<Rightarrow> ''cancelled''
      | KindFailed \<Rightarrow> ''failed'')"

text \<open>The \<open>Display\<close> text of a tool error.\<close>

definition tool_error_str :: "tool_error \<Rightarrow> string" where
  "tool_error_str e =
     (case e of InvalidInput m \<Rightarrow> ''invalid input: '' @ m | GateDenied r \<Rightarrow> ''denied: '' @ r
      | ToolTimeout \<Rightarrow> ''timed out'' | ToolCancelled \<Rightarrow> ''cancelled'' | ToolIo m \<Rightarrow> m | ToolFailed m \<Rightarrow> m)"

record tool_call =
  tl_id :: string
  tl_name :: string
  tl_input :: json

record tool_result_block =
  tb_tool_use_id :: string
  tb_content :: string
  tb_is_error :: bool

record executed =
  ex_call_id :: string
  ex_name :: string
  ex_block :: tool_result_block
  ex_kind :: tool_result_kind
  ex_ok :: bool
  ex_summary :: string
  ex_blob_id :: "string option"
  ex_output_bytes :: nat
  ex_mentor_bytes :: nat
  ex_truncated :: bool
  ex_duration_ms :: nat
  ex_result_event :: "string option"
  ex_metadata :: json

section \<open>The world of one call\<close>

text \<open>\<open>serde_json\<close>'s texts, the hash, and how a float of seconds is printed with one decimal.\<close>

record exec_lib =
  xl_print :: "json \<Rightarrow> string"
  xl_pretty :: "json \<Rightarrow> string"
  xl_sha256 :: "string \<Rightarrow> string"
  xl_secs :: "nat \<Rightarrow> string"

text \<open>When the run is cancelled: before the gate is asked, or while it is deciding.\<close>

datatype cancel_point = NotCancelled | CancelledFirst | CancelledAsking

text \<open>How the tool's future ends; cancelled before its first poll it never runs.\<close>

datatype run_end =
    RunNotStarted
  | RunCancelled
  | RunTimedOut
  | RunReturned "tool_error + tool_output"

record call_world =
  cw_call_event :: "string + string"
  cw_cancelled :: cancel_point
  cw_run :: run_end
  cw_duration_ms :: nat
  cw_blob :: "string option"
  cw_attachments :: "string option list"
  cw_result_event :: "string option"

datatype effect =
    RecordCall json
  | AskGate tool_spec json
  | RunTool string json
  | PutBlob string string
  | RecordResult json
  | Observe string

section \<open>Texts\<close>

definition max_summary_chars :: nat where
  "max_summary_chars = 120"

definition output_media_type :: string where
  "output_media_type = ''text/plain; charset=utf-8''"

definition content_bytes :: "exec_lib \<Rightarrow> tool_content \<Rightarrow> string \<times> string" where
  "content_bytes xl c =
     (case c of
        ToolText t \<Rightarrow> (t, output_media_type)
      | ToolJson v \<Rightarrow> (xl_print xl v, ''application/json'')
      | ToolBinary mt b \<Rightarrow> (b, mt))"

definition unknown_tool :: "string \<Rightarrow> string list \<Rightarrow> tool_error" where
  "unknown_tool name names =
     (if names = [] then InvalidInput (''unknown tool '' @ debug_str name @ ''; no tools are available'')
      else InvalidInput (''unknown tool '' @ debug_str name @ ''; available: '' @ join_with '', '' names))"

definition omission_marker :: "string option \<Rightarrow> nat \<Rightarrow> string" where
  "omission_marker blob omitted =
     ''[... '' @ show_nat omitted @ '' bytes omitted''
     @ (case blob of Some i \<Rightarrow> '', full result id '' @ i | None \<Rightarrow> []) @ '']''"

definition mentor_text :: "exec_lib \<Rightarrow> tool_content \<Rightarrow> nat \<Rightarrow> string option \<Rightarrow> string \<times> bool" where
  "mentor_text xl content max_bytes blob =
     (case content of
        ToolBinary mt b \<Rightarrow>
          (''[binary result: '' @ mt @ '', '' @ show_nat (length b) @ '' bytes''
            @ (case blob of Some i \<Rightarrow> '', full result id '' @ i | None \<Rightarrow> []) @ '']'', False)
      | _ \<Rightarrow>
          (let t = (case content of ToolText t \<Rightarrow> t | ToolJson v \<Rightarrow> xl_pretty xl v | _ \<Rightarrow> []) in
           if t = [] then (''(no output)'', False)
           else let cut = truncate_utf8 t max_bytes (omission_marker blob)
                in (tr_text cut, tr_truncated cut)))"

definition default_summary :: "exec_lib \<Rightarrow> string \<Rightarrow> tool_result_kind \<Rightarrow> nat \<Rightarrow> nat \<Rightarrow> string" where
  "default_summary xl name kind bytes ms =
     (let time = (if 1000 \<le> ms then '' in '' @ xl_secs xl ms @ '' s'' else [])
      in name @ (if kind = KindError then '': error, '' else '': '') @ show_nat bytes @ '' bytes'' @ time)"

definition default_summary_err :: "string \<Rightarrow> tool_error \<Rightarrow> nat \<Rightarrow> string" where
  "default_summary_err name e timeout_s =
     (case e of
        InvalidInput _ \<Rightarrow> name @ '': invalid input''
      | GateDenied _ \<Rightarrow> name @ '': denied''
      | ToolTimeout \<Rightarrow> name @ '': timed out after '' @ show_nat timeout_s @ '' s''
      | ToolCancelled \<Rightarrow> name @ '': cancelled''
      | ToolIo m \<Rightarrow> name @ '': failed: '' @ m
      | ToolFailed m \<Rightarrow> name @ '': failed: '' @ m)"

text \<open>What the mentor reads for a call that produced no output.\<close>

definition error_text :: "string \<Rightarrow> tool_error \<Rightarrow> nat \<Rightarrow> string" where
  "error_text name e timeout_s =
     (case e of
        InvalidInput m \<Rightarrow> ''invalid input for '' @ name @ '': '' @ m
      | GateDenied reason \<Rightarrow> reason
      | ToolTimeout \<Rightarrow> name @ '' timed out after '' @ show_nat timeout_s @ '' s''
      | ToolCancelled \<Rightarrow> ''cancelled''
      | ToolIo m \<Rightarrow> name @ '' failed: '' @ m
      | ToolFailed m \<Rightarrow> name @ '' failed: '' @ m)"

section \<open>One call\<close>

type_synonym 'g gate = "'g \<Rightarrow> string \<Rightarrow> tool_spec \<Rightarrow> json \<Rightarrow> (string + unit) \<times> 'g"

definition record_call_payload :: "exec_lib \<Rightarrow> tool_call \<Rightarrow> risk option \<Rightarrow> json" where
  "record_call_payload xl call rk =
     (let input = xl_print xl (tl_input call) in
      jobj [(''call_id'', JStr (tl_id call)), (''name'', JStr (tl_name call)),
            (''risk'', case rk of None \<Rightarrow> JNull | Some r \<Rightarrow> JStr (risk_name r)),
            (''input_hash'', JStr (xl_sha256 xl input)), (''input_bytes'', JInt (int (length input)))])"

text \<open>
  \<open>run\<close>: validate, ask the gate unless cancelled first, then the tool under its timeout. A gate
  that is cancelled while deciding has been asked and decides nothing.
\<close>

definition run_call ::
  "schema_lib \<Rightarrow> 'g gate \<Rightarrow> 't tool_entry \<Rightarrow> tool_call \<Rightarrow> call_world \<Rightarrow> 'g \<Rightarrow>
     (tool_error + tool_output) \<times> 'g \<times> effect list" where
  "run_call lib gate entry call w g =
     (case validate lib (te_validator entry) (tl_input call) of
        Some m \<Rightarrow> (Inl (InvalidInput m), g, [])
      | None \<Rightarrow>
          let asked = AskGate (te_spec entry) (tl_input call);
              ran = RunTool (ts_name (te_spec entry)) (tl_input call) in
          (case cw_cancelled w of
             CancelledFirst \<Rightarrow> (Inl ToolCancelled, g, [])
           | CancelledAsking \<Rightarrow> (Inl ToolCancelled, g, [asked])
           | NotCancelled \<Rightarrow>
               (case gate g (tl_id call) (te_spec entry) (tl_input call) of
                  (Inl reason, g') \<Rightarrow> (Inl (GateDenied reason), g', [asked])
                | (Inr _, g') \<Rightarrow>
                    (case cw_run w of
                       RunNotStarted \<Rightarrow> (Inl ToolCancelled, g', [asked])
                     | RunCancelled \<Rightarrow> (Inl ToolCancelled, g', [asked, ran])
                     | RunTimedOut \<Rightarrow> (Inl ToolTimeout, g', [asked, ran])
                     | RunReturned out \<Rightarrow> (out, g', [asked, ran])))))"

definition attachment_json :: "attachment \<Rightarrow> string \<Rightarrow> json" where
  "attachment_json a i =
     jobj [(''name'', JStr (at_name a)), (''blob_id'', JStr i), (''bytes'', JInt (int (length (at_bytes a)))),
           (''media_type'', JStr (at_media_type a))]"

text \<open>The attachments the store took, in order.\<close>

definition attached :: "attachment list \<Rightarrow> string option list \<Rightarrow> json list" where
  "attached as ids = List.map_filter (\<lambda>(a, i). map_option (attachment_json a) i) (zip as ids)"

text \<open>What \<open>finish\<close> makes of the outcome before anything is stored.\<close>

record outcome_parts =
  op_kind :: tool_result_kind
  op_text :: "string option"
  op_summary :: string
  op_raw :: "(string \<times> string \<times> tool_content) option"
  op_metadata :: json
  op_message :: "string option"
  op_attachments :: "attachment list"

definition outcome_parts_of ::
  "exec_lib \<Rightarrow> string \<Rightarrow> nat \<Rightarrow> nat \<Rightarrow> tool_error + tool_output \<Rightarrow> outcome_parts" where
  "outcome_parts_of xl name timeout_s ms out =
     (case out of
        Inr o' \<Rightarrow>
          (let (raw, mt) = content_bytes xl (to_content o');
               kind = (if to_is_error o' then KindError else KindOk)
           in \<lparr>op_kind = kind, op_text = None,
               op_summary = (if trim (to_summary o') = [] then default_summary xl name kind (length raw) ms
                             else to_summary o'),
               op_raw = Some (raw, mt, to_content o'), op_metadata = to_metadata o', op_message = None,
               op_attachments = to_attachments o'\<rparr>)
      | Inl e \<Rightarrow>
          \<lparr>op_kind = kind_of_error e, op_text = Some (error_text name e timeout_s),
           op_summary = default_summary_err name e timeout_s, op_raw = None, op_metadata = JNull,
           op_message = Some (tool_error_str e), op_attachments = []\<rparr>)"

text \<open>What the mentor reads, and whether it was cut.\<close>

definition result_body :: "exec_lib \<Rightarrow> nat \<Rightarrow> string option \<Rightarrow> outcome_parts \<Rightarrow> string \<times> bool" where
  "result_body xl max_mentor blob p =
     (case op_text p of
        Some t \<Rightarrow> (t, False)
      | None \<Rightarrow>
          (case op_raw p of
             Some (_, _, c) \<Rightarrow> mentor_text xl c max_mentor blob
           | None \<Rightarrow> ([], False)))"

text \<open>The blobs stored: the raw output, cut to the capture limit, and the attachments.\<close>

definition stored_output :: "nat \<Rightarrow> outcome_parts \<Rightarrow> string option" where
  "stored_output max_capture p =
     (case op_raw p of None \<Rightarrow> None | Some (raw, _, _) \<Rightarrow> capture_bytes raw max_capture)"

definition result_puts :: "nat \<Rightarrow> outcome_parts \<Rightarrow> effect list" where
  "result_puts max_capture p =
     (case op_raw p of
        None \<Rightarrow> []
      | Some (raw, mt, _) \<Rightarrow>
          [PutBlob (case stored_output max_capture p of Some c \<Rightarrow> c | None \<Rightarrow> raw) mt])
     @ map (\<lambda>a. PutBlob (at_bytes a) (at_media_type a)) (op_attachments p)"

definition result_payload ::
  "outcome_parts \<Rightarrow> executed \<Rightarrow> bool \<Rightarrow> json list \<Rightarrow> risk option \<Rightarrow> json" where
  "result_payload p x captured atts rk = jobj
     ([(''call_id'', JStr (ex_call_id x)), (''name'', JStr (ex_name x)), (''ok'', JBool (ex_ok x)),
       (''kind'', JStr (kind_name (ex_kind x))),
       (''duration_ms'', JInt (int (min (ex_duration_ms x) (2 ^ 64 - 1)))),
       (''output_bytes'', JInt (int (ex_output_bytes x))), (''mentor_bytes'', JInt (int (ex_mentor_bytes x))),
       (''truncated'', JBool (ex_truncated x)), (''summary'', JStr (ex_summary x))]
      @ (if captured then [(''truncated_at_capture'', JBool True)] else [])
      @ opt_entry ''media_type'' (map_option (\<lambda>(_, mt, _). JStr mt) (op_raw p))
      @ opt_entry ''message'' (map_option JStr (op_message p))
      @ (if op_metadata p = JNull then [] else [(''metadata'', op_metadata p)])
      @ (if atts = [] then [] else [(''attachments'', JArr atts)])
      @ opt_entry ''risk'' (map_option (JStr \<circ> risk_name) rk))"

definition finish_call ::
  "exec_lib \<Rightarrow> tool_call \<Rightarrow> tool_env \<Rightarrow> call_world \<Rightarrow> nat \<Rightarrow> risk option \<Rightarrow> tool_error + tool_output \<Rightarrow>
     executed \<times> effect list" where
  "finish_call xl call env w ms rk out =
     (let p = outcome_parts_of xl (tl_name call) (ev_timeout_s env) ms out;
          blob = (case op_raw p of None \<Rightarrow> None | Some _ \<Rightarrow> cw_blob w);
          body = result_body xl (ev_max_mentor_bytes env) blob p;
          is_error = (op_kind p \<noteq> KindOk);
          x = \<lparr>ex_call_id = tl_id call, ex_name = tl_name call,
               ex_block = \<lparr>tb_tool_use_id = tl_id call, tb_content = fst body, tb_is_error = is_error\<rparr>,
               ex_kind = op_kind p, ex_ok = (\<not> is_error),
               ex_summary = one_line (op_summary p) max_summary_chars, ex_blob_id = blob,
               ex_output_bytes = (case op_raw p of None \<Rightarrow> 0 | Some (raw, _, _) \<Rightarrow> length raw),
               ex_mentor_bytes = length (fst body), ex_truncated = snd body,
               ex_duration_ms = ms, ex_result_event = cw_result_event w, ex_metadata = op_metadata p\<rparr>
      in (x, result_puts (ev_max_capture_bytes env) p
             @ [RecordResult (result_payload p x (stored_output (ev_max_capture_bytes env) p \<noteq> None)
                                (attached (op_attachments p) (cw_attachments w)) rk)]))"

definition execute_one ::
  "exec_lib \<Rightarrow> schema_lib \<Rightarrow> tools_config \<Rightarrow> 't registry \<Rightarrow> 'g gate \<Rightarrow> tool_call \<Rightarrow> call_world \<Rightarrow> 'g \<Rightarrow>
     executed \<times> 'g \<times> effect list" where
  "execute_one xl lib cfg reg gate call w g =
     (let entry = registry_get reg (tl_name call);
          env = (case entry of Some e \<Rightarrow> tool_env_resolve cfg (te_spec e) | None \<Rightarrow> tool_env_default);
          rk = map_option (\<lambda>e. ts_risk (te_spec e)) entry;
          rec = RecordCall (record_call_payload xl call rk)
      in case cw_call_event w of
           Inl e \<Rightarrow>
             (case finish_call xl call env w 0 None (Inl (ToolFailed (''trace: '' @ e))) of
                (x, fx) \<Rightarrow> (x, g, rec # fx))
         | Inr _ \<Rightarrow>
             (let (out, g', run_fx) =
                (case entry of
                   None \<Rightarrow> (Inl (unknown_tool (tl_name call) (registry_names reg)), g, [])
                 | Some e \<Rightarrow> run_call lib gate e call w g)
              in case finish_call xl call env w (cw_duration_ms w) rk out of
                   (x, fx) \<Rightarrow> (x, g', rec # run_fx @ fx @ [Observe (tl_id call)])))"

section \<open>A batch\<close>

text \<open>Whether a call may change something: the risk of its registered tool.\<close>

definition call_mutating :: "'t registry \<Rightarrow> tool_call \<Rightarrow> bool" where
  "call_mutating reg call =
     (case registry_get reg (tl_name call) of Some e \<Rightarrow> mutating (ts_risk (te_spec e)) | None \<Rightarrow> False)"

text \<open>Executing the calls at the given indices one after another, each result into its slot.\<close>

fun run_slots ::
  "(tool_call \<Rightarrow> 's \<Rightarrow> 'e \<times> 's) \<Rightarrow> tool_call list \<Rightarrow> nat list \<Rightarrow> 'e option list \<times> 's \<Rightarrow> 'e option list \<times> 's" where
  "run_slots exec calls [] st = st"
| "run_slots exec calls (i # is) (slots, s) =
     (case exec (calls ! i) s of (e, s') \<Rightarrow> run_slots exec calls is (slots[i := Some e], s'))"

text \<open>
  \<open>execute_all\<close>: the calls that change nothing run concurrently; \<open>order\<close> is the order in which
  their effects happen, any permutation of them (\<open>None\<close> otherwise). The others follow one after
  another. The slots are then read in the original order; an empty one would be a panic.
\<close>

definition execute_all ::
  "(tool_call \<Rightarrow> 's \<Rightarrow> 'e \<times> 's) \<Rightarrow> (tool_call \<Rightarrow> bool) \<Rightarrow> nat list \<Rightarrow> tool_call list \<Rightarrow> 's \<Rightarrow>
     ('e list \<times> 's) option" where
  "execute_all exec mut order calls s =
     (let idx = [0..<length calls];
          conc = filter (\<lambda>i. \<not> mut (calls ! i)) idx;
          seq = filter (\<lambda>i. mut (calls ! i)) idx
      in if sort order \<noteq> conc then None
         else case run_slots exec calls (order @ seq) (replicate (length calls) None, s) of
           (slots, s') \<Rightarrow> (if None \<in> set slots then None else Some (map the slots, s')))"

section \<open>What one call does\<close>

lemma run_call_effects:
  assumes "run_call lib gate e call w g = (out, g', fx)"
  shows "(RunTool n i \<in> set fx \<longrightarrow> validate lib (te_validator e) (tl_input call) = None \<and>
            gate g (tl_id call) (te_spec e) (tl_input call) = (Inr (), g') \<and>
            n = ts_name (te_spec e) \<and> i = tl_input call \<and>
            fx = [AskGate (te_spec e) (tl_input call), RunTool n i]) \<and>
         (\<forall>p. RecordCall p \<notin> set fx \<and> RecordResult p \<notin> set fx)"
  using assms
  by (auto simp: run_call_def Let_def split: option.splits cancel_point.splits prod.splits sum.splits run_end.splits)

lemma result_payload_call_id: "jget ''call_id'' (result_payload p x captured atts rk) = Some (JStr (ex_call_id x))"
proof -
  have opts: "''call_id'' \<notin> fst ` set (opt_entry k v)" if "k \<noteq> ''call_id''" for k v
    using that by (cases v) (simp_all add: opt_entry_def)
  show ?thesis
    unfolding result_payload_def
    by (subst jget_jobj_append) (auto simp: image_Un opts simp del: map_option_eq_Some, simp add: jget_jobj)
qed

lemma outcome_parts_kind:
  "op_kind (outcome_parts_of xl name t ms out) =
     (case out of Inl e \<Rightarrow> kind_of_error e | Inr r \<Rightarrow> (if to_is_error r then KindError else KindOk))"
  by (cases out) (simp_all add: outcome_parts_of_def split_beta Let_def)

lemma result_puts_blobs: "f \<in> set (result_puts n p) \<Longrightarrow> \<exists>b mt. f = PutBlob b mt"
  by (auto simp: result_puts_def split: option.splits)

lemma finish_call_effects:
  assumes "finish_call xl call env w ms rk out = (x, fx)"
  shows "(\<exists>puts payload. fx = puts @ [RecordResult payload] \<and>
            (\<forall>f\<in>set puts. \<exists>b mt. f = PutBlob b mt) \<and> jget ''call_id'' payload = Some (JStr (tl_id call))) \<and>
         ex_call_id x = tl_id call \<and> tb_tool_use_id (ex_block x) = tl_id call \<and>
         tb_is_error (ex_block x) = (ex_kind x \<noteq> KindOk) \<and> ex_ok x = (ex_kind x = KindOk) \<and>
         ex_kind x = (case out of Inl e \<Rightarrow> kind_of_error e
          | Inr r \<Rightarrow> (if to_is_error r then KindError else KindOk))"
proof -
  have x: "ex_call_id x = tl_id call" "tb_tool_use_id (ex_block x) = tl_id call"
    "tb_is_error (ex_block x) = (ex_kind x \<noteq> KindOk)" "ex_ok x = (ex_kind x = KindOk)"
    "ex_kind x = op_kind (outcome_parts_of xl (tl_name call) (ev_timeout_s env) ms out)"
    using assms by (auto simp: finish_call_def Let_def)
  obtain p n captured atts where "fx = result_puts n p @ [RecordResult (result_payload p x captured atts rk)]"
    using assms unfolding finish_call_def Let_def by blast
  with x result_puts_blobs show ?thesis
    unfolding outcome_parts_kind by (auto simp: result_payload_call_id)
qed

text \<open>
  C28: Every call leaves its mark and gets its answer: whatever happens, \<open>execute_one\<close> first records
  the call, ends with recording a result that names the call (only blobs are stored in between the
  run and that), gives the mentor exactly one block under the id of its \<open>tool_use\<close>, marked as an
  error precisely when the call did not succeed, and when the trace refuses to record the call
  neither the gate nor the tool is reached and the call has failed.
\<close>

theorem execute_one_recorded:
  assumes "execute_one xl lib cfg reg gate call w g = (x, g', fx)"
  shows "\<exists>p mid puts payload tail. fx = RecordCall p # mid @ puts @ RecordResult payload # tail \<and>
      tail \<in> {[], [Observe (tl_id call)]} \<and> (\<forall>f\<in>set puts. \<exists>b mt. f = PutBlob b mt) \<and>
      (\<forall>f\<in>set mid. (\<exists>s i. f = AskGate s i) \<or> (\<exists>n i. f = RunTool n i)) \<and>
      jget ''call_id'' payload = Some (JStr (tl_id call)) \<and>
      ex_call_id x = tl_id call \<and> tb_tool_use_id (ex_block x) = tl_id call \<and>
      tb_is_error (ex_block x) = (ex_kind x \<noteq> KindOk) \<and>
      ((\<exists>e. cw_call_event w = Inl e) \<longrightarrow> mid = [] \<and> g' = g \<and> ex_kind x = KindFailed)"
proof (cases "cw_call_event w")
  case (Inl e)
  obtain x1 fx1 where f: "finish_call xl call (case registry_get reg (tl_name call) of
        Some e \<Rightarrow> tool_env_resolve cfg (te_spec e) | None \<Rightarrow> tool_env_default) w 0 None
        (Inl (ToolFailed (''trace: '' @ e))) = (x1, fx1)" by fastforce
  with assms Inl have x: "x = x1" "g' = g" "\<exists>p. fx = RecordCall p # fx1"
    by (auto simp: execute_one_def Let_def)
  from finish_call_effects [OF f] obtain puts payload where p: "fx1 = puts @ [RecordResult payload]"
    "\<forall>f\<in>set puts. \<exists>b mt. f = PutBlob b mt" "jget ''call_id'' payload = Some (JStr (tl_id call))" by blast
  with x obtain rp where "fx = RecordCall rp # [] @ puts @ RecordResult payload # []" by auto
  moreover have "ex_call_id x = tl_id call" "tb_tool_use_id (ex_block x) = tl_id call"
      "tb_is_error (ex_block x) = (ex_kind x \<noteq> KindOk)" "ex_kind x = KindFailed"
    using finish_call_effects [OF f] x(1) by (simp_all add: kind_of_error_def)
  ultimately show ?thesis
    using x(2) p(2,3)
    by - (rule exI [of _ rp], rule exI [of _ "[]"], rule exI [of _ puts], rule exI [of _ payload],
        rule exI [of _ "[]"], simp)
next
  case (Inr ev)
  define entry where "entry = registry_get reg (tl_name call)"
  define run where "run = (case entry of
      None \<Rightarrow> (Inl (unknown_tool (tl_name call) (registry_names reg)), g, [])
    | Some e \<Rightarrow> run_call lib gate e call w g)"
  obtain out g1 mid where r: "run = (out, g1, mid)" by (cases run)
  obtain x1 fx1 where f: "finish_call xl call (case entry of
        Some e \<Rightarrow> tool_env_resolve cfg (te_spec e) | None \<Rightarrow> tool_env_default) w (cw_duration_ms w)
        (map_option (\<lambda>e. ts_risk (te_spec e)) entry) out = (x1, fx1)" by fastforce
  have x: "x = x1" "g' = g1" "\<exists>p. fx = RecordCall p # mid @ fx1 @ [Observe (tl_id call)]"
  proof -
    have "execute_one xl lib cfg reg gate call w g =
        (case run of (out, g', run_fx) \<Rightarrow>
          (case finish_call xl call (case entry of Some e \<Rightarrow> tool_env_resolve cfg (te_spec e)
                  | None \<Rightarrow> tool_env_default) w (cw_duration_ms w)
                (map_option (\<lambda>e. ts_risk (te_spec e)) entry) out of
             (x, fx) \<Rightarrow> (x, g', RecordCall (record_call_payload xl call (map_option (\<lambda>e. ts_risk (te_spec e)) entry))
                               # run_fx @ fx @ [Observe (tl_id call)])))"
      unfolding execute_one_def entry_def run_def Let_def Inr by (simp only: sum.case)
    with assms f r show "x = x1" "g' = g1" "\<exists>p. fx = RecordCall p # mid @ fx1 @ [Observe (tl_id call)]"
      by auto
  qed
  have m: "\<forall>f\<in>set mid. (\<exists>s i. f = AskGate s i) \<or> (\<exists>n i. f = RunTool n i)"
    using r by (auto simp: run_def run_call_def Let_def split: option.splits cancel_point.splits
        prod.splits sum.splits run_end.splits)
  from finish_call_effects [OF f] obtain puts payload where p: "fx1 = puts @ [RecordResult payload]"
    "\<forall>f\<in>set puts. \<exists>b mt. f = PutBlob b mt" "jget ''call_id'' payload = Some (JStr (tl_id call))" by blast
  with x obtain rp where "fx = RecordCall rp # mid @ puts @ RecordResult payload # [Observe (tl_id call)]"
    by auto
  moreover have "ex_call_id x = tl_id call" "tb_tool_use_id (ex_block x) = tl_id call"
      "tb_is_error (ex_block x) = (ex_kind x \<noteq> KindOk)"
    using finish_call_effects [OF f] x(1) by simp_all
  ultimately show ?thesis
    using p(2,3) m Inr
    by - (rule exI [of _ rp], rule exI [of _ mid], rule exI [of _ puts], rule exI [of _ payload],
        rule exI [of _ "[Observe (tl_id call)]"], simp)
qed

text \<open>The run of a call whose event was recorded is part of its effects.\<close>

lemma execute_one_run:
  assumes "cw_call_event w = Inr ev" and "registry_get reg (tl_name call) = Some e"
    and "run_call lib gate e call w g = (out, g1, mid)"
  obtains x fx where "execute_one xl lib cfg reg gate call w g = (x, g1, fx)" "set mid \<subseteq> set fx"
proof -
  obtain x fx where f: "finish_call xl call (tool_env_resolve cfg (te_spec e)) w (cw_duration_ms w)
      (Some (ts_risk (te_spec e))) out = (x, fx)" by fastforce
  show thesis
    by (rule that [of x "RecordCall (record_call_payload xl call (Some (ts_risk (te_spec e)))) # mid @ fx @ [Observe (tl_id call)]"])
       (use assms f in \<open>auto simp: execute_one_def Let_def\<close>)
qed

section \<open>The gate's contract\<close>

text \<open>
  What the executor relies on: a gate that lets a call pass has found it permitted. The locale
  fixes the gate and what permitted means to it; the executor's lemma is proved once for all gates.
\<close>

locale gate_policy =
  fixes gate :: "'g gate"
    and permitted :: "'g \<Rightarrow> tool_spec \<Rightarrow> json \<Rightarrow> bool"
  assumes passes: "gate g cid spec input = (Inr u, g') \<Longrightarrow> permitted g spec input"
begin

lemma tool_runs_permitted:
  assumes "execute_one xl lib cfg reg gate call w g = (x, g', fx)" and "RunTool n i \<in> set fx"
  shows "\<exists>e. registry_get reg (tl_name call) = Some e \<and> n = ts_name (te_spec e) \<and> i = tl_input call \<and>
    validate lib (te_validator e) i = None \<and> permitted g (te_spec e) i"
proof -
  have fin: "RunTool n i \<notin> set fx1" if "finish_call xl call env w ms rk out = (x1, fx1)" for env ms rk out x1 fx1
    using finish_call_effects [OF that] by auto
  obtain ev where ev: "cw_call_event w = Inr ev"
    using assms fin by (cases "cw_call_event w") (auto simp: execute_one_def Let_def split: prod.splits)
  show ?thesis
  proof (cases "registry_get reg (tl_name call)")
    case None
    with assms ev fin show ?thesis by (auto simp: execute_one_def Let_def split: prod.splits)
  next
    case (Some e)
    obtain out g1 mid where r: "run_call lib gate e call w g = (out, g1, mid)" by (cases "run_call lib gate e call w g")
    with assms ev fin Some have "RunTool n i \<in> set mid"
      by (auto simp: execute_one_def Let_def split: prod.splits)
    with run_call_effects [OF r, of n i] have n: "validate lib (te_validator e) i = None"
      "gate g (tl_id call) (te_spec e) i = (Inr (), g1)" "n = ts_name (te_spec e)" "i = tl_input call" by auto
    from passes [OF n(2)] n Some show ?thesis by auto
  qed
qed

end

text \<open>\<open>AllowAll\<close>, where nothing needs asking.\<close>

definition allow_all :: "'g gate" where
  "allow_all = (\<lambda>g _ _ _. (Inr (), g))"

interpretation allow_all: gate_policy allow_all "\<lambda>_ _ _. True"
  by unfold_locales simp


text \<open>A call of a registered tool that runs and succeeds.\<close>

definition demo_xl :: exec_lib where
  "demo_xl = \<lparr>xl_print = (\<lambda>_. ''{}''), xl_pretty = (\<lambda>_. ''{}''), xl_sha256 = (\<lambda>_. ''0''), xl_secs = show_nat\<rparr>"

definition demo_output :: tool_output where
  "demo_output = \<lparr>to_content = ToolText ''two lines'', to_summary = [], to_metadata = JNull,
     to_is_error = False, to_attachments = []\<rparr>"

definition demo_world :: call_world where
  "demo_world = \<lparr>cw_call_event = Inr ''e1'', cw_cancelled = NotCancelled, cw_run = RunReturned (Inr demo_output),
     cw_duration_ms = 5, cw_blob = Some ''b1'', cw_attachments = [], cw_result_event = Some ''e2''\<rparr>"

definition demo_call :: "string \<Rightarrow> tool_call" where
  "demo_call name = \<lparr>tl_id = ''t1'', tl_name = name, tl_input = JObj []\<rparr>"

theorem execute_one_recorded_witness:
  "\<exists>p mid puts payload tail x g' fx.
     execute_one demo_xl demo_schema tools_config_default demo_registry allow_all (demo_call ''grep'') demo_world ()
       = (x, g', fx) \<and>
     fx = RecordCall p # mid @ puts @ RecordResult payload # tail \<and> tb_tool_use_id (ex_block x) = ''t1''"
proof -
  obtain x g' fx where e: "execute_one demo_xl demo_schema tools_config_default demo_registry allow_all
      (demo_call ''grep'') demo_world () = (x, g', fx)" by (rule prod_cases3)
  from execute_one_recorded [OF e] obtain p mid puts payload tail where
    "fx = RecordCall p # mid @ puts @ RecordResult payload # tail"
    "tb_tool_use_id (ex_block x) = tl_id (demo_call ''grep'')"
    by (elim exE conjE)
  moreover have "tl_id (demo_call ''grep'') = ''t1''" by (simp add: demo_call_def)
  ultimately show ?thesis using e by metis
qed

section \<open>The batch\<close>

lemma run_slots_append:
  "run_slots exec calls (is @ js) st = run_slots exec calls js (run_slots exec calls is st)"
  by (induction exec calls "is" st rule: run_slots.induct) (auto split: prod.splits)

lemma run_slots_fill:
  assumes "\<And>c s. P c (fst (exec c s))"
  shows "run_slots exec calls is (slots, s) = (slots', s') \<Longrightarrow> length slots = length calls \<Longrightarrow>
     (\<forall>i<length calls. i \<in> set done \<longrightarrow> (\<exists>e. slots ! i = Some e \<and> P (calls ! i) e)) \<Longrightarrow>
     length slots' = length calls \<and>
     (\<forall>i<length calls. i \<in> set done \<union> set is \<longrightarrow> (\<exists>e. slots' ! i = Some e \<and> P (calls ! i) e))"
proof (induction "is" arbitrary: slots s "done")
  case (Cons i "is")
  obtain e s1 where e: "exec (calls ! i) s = (e, s1)" by fastforce
  with Cons.prems(1) have r: "run_slots exec calls is (slots[i := Some e], s1) = (slots', s')" by simp
  have "P (calls ! i) e" using assms [of "calls ! i" s] e by simp
  with Cons.prems(2,3) have "\<forall>j<length calls. j \<in> set (i # done) \<longrightarrow>
      (\<exists>e'. slots[i := Some e] ! j = Some e' \<and> P (calls ! j) e')"
    by (metis nth_list_update_eq nth_list_update_neq set_ConsD)
  with Cons.IH [OF r, of "i # done"] Cons.prems(2) show ?case by auto
qed simp

text \<open>The order in which calls take effect: an executor that also keeps a log.\<close>

definition logged :: "(tool_call \<Rightarrow> 's \<Rightarrow> 'e \<times> 's) \<Rightarrow> tool_call \<Rightarrow> 's \<times> tool_call list \<Rightarrow> 'e \<times> ('s \<times> tool_call list)" where
  "logged exec c st = (case exec c (fst st) of (e, s') \<Rightarrow> (e, (s', snd st @ [c])))"

lemma run_slots_logged:
  "run_slots (logged exec) calls is (slots, (s, log)) = (slots', (s', log')) \<Longrightarrow>
     log' = log @ map ((!) calls) is"
proof (induction "is" arbitrary: slots s log)
  case (Cons i "is")
  obtain e s1 where "exec (calls ! i) s = (e, s1)" by fastforce
  then have "logged exec (calls ! i) (s, log) = (e, (s1, log @ [calls ! i]))" by (simp add: logged_def)
  with Cons.prems have "run_slots (logged exec) calls is (slots[i := Some e], (s1, log @ [calls ! i])) = (slots', (s', log'))"
    by simp
  from Cons.IH [OF this] show ?case by simp
qed simp

text \<open>
  The parallel policy keeps the order that matters: for every order in which the concurrent
  calls take effect a batch completes (no slot is left empty), with one result per call in the
  order the mentor asked, each the result of its own call; every call runs exactly once, those
  that change nothing before those that may, and the latter one after another in the order asked.
\<close>

theorem execute_all_order:
  assumes "sort order = filter (\<lambda>i. \<not> mut (calls ! i)) [0..<length calls]"
    and "\<And>c s. P c (fst (exec c s))"
  shows "\<exists>es s' log. execute_all (logged exec) mut order calls (s, []) = Some (es, (s', log)) \<and>
    length es = length calls \<and> (\<forall>i<length calls. P (calls ! i) (es ! i)) \<and>
    mset log = mset calls \<and> filter mut log = filter mut calls \<and>
    log = filter (\<lambda>c. \<not> mut c) log @ filter mut log"
proof -
  let ?n = "length calls" and ?seq = "filter (\<lambda>i. mut (calls ! i)) [0..<length calls]"
  obtain slots s' log where r: "run_slots (logged exec) calls (order @ ?seq) (replicate ?n None, (s, [])) = (slots, (s', log))"
    by (metis prod.exhaust)
  have "P c (fst (logged exec c st))" for c st
    using assms(2) [of c "fst st"] by (simp add: logged_def split: prod.splits) (metis fst_conv)
  from run_slots_fill [of P "logged exec", OF this r, of "[]"]
  have slots: "length slots = ?n" "\<forall>i<?n. i \<in> set (order @ ?seq) \<longrightarrow> (\<exists>e. slots ! i = Some e \<and> P (calls ! i) e)"
    by auto
  have ms: "mset order = mset (filter (\<lambda>i. \<not> mut (calls ! i)) [0..<?n])"
    by (metis assms(1) mset_sort)
  then have so: "set order = {i. i < ?n \<and> \<not> mut (calls ! i)}"
    using mset_eq_setD [OF ms] by simp
  have all: "\<forall>i<?n. \<exists>e. slots ! i = Some e \<and> P (calls ! i) e"
    using slots(2) so by auto
  then have no_none: "None \<notin> set slots" using slots(1) by (metis in_set_conv_nth option.distinct(1))
  have log: "log = map ((!) calls) order @ map ((!) calls) ?seq"
    using run_slots_logged [OF r] by simp
  have nth: "map ((!) calls) [0..<?n] = calls" by (rule map_nth)
  have fs: "filter mut (map ((!) calls) ?seq) = filter mut calls"
    using arg_cong [OF nth, of "filter mut"] by (simp add: filter_map comp_def)
  have seq: "map ((!) calls) ?seq = filter mut calls"
    using arg_cong [OF nth, of "filter mut"] by (simp add: filter_map comp_def)
  have nm: "filter mut (map ((!) calls) order) = []" "filter (\<lambda>c. \<not> mut c) (map ((!) calls) order) = map ((!) calls) order"
    using so by (auto simp: filter_empty_conv filter_id_conv)
  have "mset (map ((!) calls) order) = mset (filter (\<lambda>c. \<not> mut c) calls)"
  proof -
    have "mset (map ((!) calls) order) = image_mset ((!) calls) (mset (filter (\<lambda>i. \<not> mut (calls ! i)) [0..<?n]))"
      using ms by (metis mset_map)
    also have "\<dots> = mset (map ((!) calls) (filter (\<lambda>i. \<not> mut (calls ! i)) [0..<?n]))" by simp
    also have "map ((!) calls) (filter (\<lambda>i. \<not> mut (calls ! i)) [0..<?n]) = filter (\<lambda>c. \<not> mut c) calls"
      using arg_cong [OF nth, of "filter (\<lambda>c. \<not> mut c)"] by (simp add: filter_map comp_def)
    finally show ?thesis .
  qed
  then have "mset log = mset calls"
    unfolding log seq by (simp only: mset_append) (metis add.commute multiset_partition mset_filter)
  moreover have "filter mut log = filter mut calls" "log = filter (\<lambda>c. \<not> mut c) log @ filter mut log"
    unfolding log seq filter_append nm by simp_all
  moreover have "execute_all (logged exec) mut order calls (s, []) = Some (map the slots, (s', log))"
    using assms(1) r no_none by (simp add: execute_all_def Let_def)
  moreover have "\<forall>i<?n. P (calls ! i) (map the slots ! i)" using all slots(1) by fastforce
  ultimately show ?thesis using slots(1) by (intro exI [of _ "map the slots"] exI [of _ s'] exI [of _ log]) simp
qed

theorem execute_all_order_witness:
  "\<exists>es s' log. execute_all (logged (\<lambda>c s. (tl_name c, s))) (\<lambda>c. tl_name c = ''shell'') [2, 0]
       [demo_call ''grep'', demo_call ''shell'', demo_call ''read''] ((), []) = Some (es, (s', log)) \<and>
     map tl_name log = [''read'', ''grep'', ''shell''] \<and> length es = 3"
proof -
  let ?mut = "\<lambda>c. tl_name c = ''shell''" and ?calls = "[demo_call ''grep'', demo_call ''shell'', demo_call ''read'']"
  have "sort [2, 0] = filter (\<lambda>i. \<not> ?mut (?calls ! i)) [0..<length ?calls]"
    by (simp add: demo_call_def upt_rec)
  from execute_all_order [where P = "\<lambda>c e. e = tl_name c" and exec = "\<lambda>c s. (tl_name c, s)" and s = "()", OF this]
  obtain es s' log where e: "execute_all (logged (\<lambda>c s. (tl_name c, s))) ?mut [2, 0] ?calls ((), []) = Some (es, (s', log))"
    "length es = 3" by auto
  moreover have "map_option (\<lambda>r. map tl_name (snd (snd r)))
      (execute_all (logged (\<lambda>c s. (tl_name c, s))) ?mut [2, 0] ?calls ((), [])) = Some [''read'', ''grep'', ''shell'']"
    by code_simp
  ultimately show ?thesis by auto
qed

end
