(* ===== verification/Conversation.thy ===== *)
theory Conversation
  imports Mentor_Types Tool_Execute Permission_Engine
begin

text \<open>
  \<open>crates/core/src/runtime/conversation.rs\<close>: the conversation of one session as the mentor sees it, its
  running totals, the request built from it, and the check of the rules the API enforces on a
  history. Messages are stored without cache breakpoints; a request places them anew.
\<close>

section \<open>State\<close>

record mentor_config =
  gc_provider :: string
  gc_model :: string
  gc_title_model :: string
  gc_effort :: effort
  gc_max_tokens :: nat
  gc_thinking_display :: thinking_display
  gc_base_url :: string
  gc_timeout_s :: nat
  gc_max_retries :: nat
  gc_context_soft_limit :: u64
  gc_context_hard_limit :: u64

record run_options =
  ro_model :: "string option"
  ro_effort :: "effort option"
  ro_apprentice :: "bool option"
  ro_permission_mode :: "permission_mode option"

record system_prompt =
  py_version :: string
  py_blocks :: "system_block list"

record conversation =
  cv_session :: string
  cv_messages :: "chat_message list"
  cv_system :: "system_block list"
  cv_prompt_version :: "string option"
  cv_tools :: "tool_def list"
  cv_tools_hash :: "string option"
  cv_model :: string
  cv_effort :: effort
  cv_max_tokens :: nat
  cv_thinking :: thinking
  cv_last_usage :: "usage option"
  cv_totals :: usage
  cv_cost_micros :: "u64 option"
  cv_priced :: bool
  cv_calls :: u64

text \<open>The dash of the message is U+2014.\<close>

definition continue_message :: string where
  "continue_message = ''[continue '' @ [CHR 0xE2, CHR 0x80, CHR 0x94] @ '' output was cut off]''"

definition conv_new :: "string \<Rightarrow> conversation" where
  "conv_new sid =
     \<lparr>cv_session = sid, cv_messages = [], cv_system = [], cv_prompt_version = None, cv_tools = [],
      cv_tools_hash = None, cv_model = [], cv_effort = EffortHigh, cv_max_tokens = 4096,
      cv_thinking = thinking_default, cv_last_usage = None, cv_totals = usage_zero,
      cv_cost_micros = Some 0, cv_priced = True, cv_calls = 0\<rparr>"

definition conv_load :: "string \<Rightarrow> chat_message list \<Rightarrow> conversation" where
  "conv_load sid ms = (conv_new sid)\<lparr>cv_messages := ms\<rparr>"

definition with_tools_hash :: "string option \<Rightarrow> conversation \<Rightarrow> conversation" where
  "with_tools_hash h c = c\<lparr>cv_tools_hash := h\<rparr>"

definition conv_configure :: "mentor_config \<Rightarrow> run_options \<Rightarrow> conversation \<Rightarrow> conversation" where
  "conv_configure cfg opts c =
     c\<lparr>cv_model := (case ro_model opts of Some m \<Rightarrow> m | None \<Rightarrow> gc_model cfg),
       cv_effort := (case ro_effort opts of Some e \<Rightarrow> e | None \<Rightarrow> gc_effort cfg),
       cv_max_tokens := gc_max_tokens cfg,
       cv_thinking := Adaptive (gc_thinking_display cfg)\<rparr>"

definition set_system :: "system_prompt \<Rightarrow> conversation \<Rightarrow> conversation" where
  "set_system p c = c\<lparr>cv_system := py_blocks p, cv_prompt_version := Some (py_version p)\<rparr>"

section \<open>The tool set\<close>

text \<open>\<open>sort_by\<close> on the names: stable, so a tool goes before the later ones of its name.\<close>

fun insert_tool :: "tool_def \<Rightarrow> tool_def list \<Rightarrow> tool_def list" where
  "insert_tool t [] = [t]"
| "insert_tool t (u # us) = (if str_less (td_name u) (td_name t) then u # insert_tool t us else t # u # us)"

definition sorted_tools :: "tool_def list \<Rightarrow> tool_def list" where
  "sorted_tools ts = foldr insert_tool ts []"

definition hash_tools :: "exec_lib \<Rightarrow> tool_def list \<Rightarrow> string" where
  "hash_tools xl ts =
     xl_sha256 xl (xl_print xl (JArr (map (\<lambda>t. jobj
       [(''name'', JStr (td_name t)), (''description'', JStr (td_description t)),
        (''input_schema'', td_input_schema t)]) ts)))"

definition set_tools :: "exec_lib \<Rightarrow> tool_def list \<Rightarrow> conversation \<Rightarrow> string option \<times> conversation" where
  "set_tools xl ts c =
     (let sorted = sorted_tools ts;
          hash = hash_tools xl sorted;
          same = (cv_tools_hash c = Some hash)
      in (if same then None else cv_tools_hash c,
          c\<lparr>cv_tools_hash := Some hash, cv_tools := sorted\<rparr>))"

section \<open>Messages\<close>

text \<open>The last message with its row in the store.\<close>

definition last_row :: "conversation \<Rightarrow> (nat \<times> chat_message) option" where
  "last_row c = (if cv_messages c = [] then None else Some (length (cv_messages c), last (cv_messages c)))"

definition push_text :: "string \<Rightarrow> chat_message list \<Rightarrow> chat_message list" where
  "push_text t ms =
     (if ms \<noteq> [] \<and> cm_role (last ms) = RoleUser then
        butlast ms @ [(last ms)\<lparr>cm_content := cm_content (last ms) @ [block_text t]\<rparr>]
      else ms @ [\<lparr>cm_role = RoleUser, cm_content = [block_text t]\<rparr>])"

definition push_user_text :: "string \<Rightarrow> conversation \<Rightarrow> conversation" where
  "push_user_text t c = c\<lparr>cv_messages := push_text t (cv_messages c)\<rparr>"

definition push_assistant :: "content_block list \<Rightarrow> conversation \<Rightarrow> conversation" where
  "push_assistant bs c = c\<lparr>cv_messages := cv_messages c @ [chat_assistant bs]\<rparr>"

definition push_tool_results :: "content_block list \<Rightarrow> conversation \<Rightarrow> conversation" where
  "push_tool_results bs c = c\<lparr>cv_messages := cv_messages c @ [\<lparr>cm_role = RoleUser, cm_content = bs\<rparr>]\<rparr>"

definition calls_of :: "content_block list \<Rightarrow> tool_call list" where
  "calls_of bs = map (\<lambda>(i, n, v). \<lparr>tl_id = i, tl_name = n, tl_input = v\<rparr>) (List.map_filter block_tool_use bs)"

definition pending_tool_uses :: "conversation \<Rightarrow> tool_call list" where
  "pending_tool_uses c =
     (if cv_messages c \<noteq> [] \<and> cm_role (last (cv_messages c)) = RoleAssistant
      then calls_of (cm_content (last (cv_messages c))) else [])"

definition conv_repair :: "conversation \<Rightarrow> chat_message option \<times> conversation" where
  "conv_repair c =
     (if pending_tool_uses c = [] then (None, c)
      else (Some (last (cv_messages c)), c\<lparr>cv_messages := butlast (cv_messages c)\<rparr>))"

section \<open>The rules of the API\<close>

definition use_ids :: "content_block list \<Rightarrow> string list" where
  "use_ids bs = List.map_filter (\<lambda>b. case b of BToolUse i _ _ _ \<Rightarrow> Some i | _ \<Rightarrow> None) bs"

definition result_ids :: "content_block list \<Rightarrow> string list" where
  "result_ids bs = List.map_filter (\<lambda>b. case b of BToolResult i _ _ _ \<Rightarrow> Some i | _ \<Rightarrow> None) bs"

definition role_debug :: "role \<Rightarrow> string" where
  "role_debug r = (case r of RoleUser \<Rightarrow> ''User'' | RoleAssistant \<Rightarrow> ''Assistant'' | RoleSystem \<Rightarrow> ''System'')"

text \<open>One message of \<open>validate\<close>, after the last role and the tool uses still open.\<close>

definition check_message :: "nat \<Rightarrow> role option \<Rightarrow> string list \<Rightarrow> chat_message \<Rightarrow> string + (role option \<times> string list)" where
  "check_message i last_role open m =
     (let results = result_ids (cm_content m);
          at = ''message '' @ show_nat i @ '': ''
      in if cm_role m \<noteq> RoleSystem \<and> last_role = Some (cm_role m) then
           Inl (at @ ''two '' @ role_debug (cm_role m) @ '' turns in a row'')
         else if open \<noteq> [] \<and> cm_role m \<noteq> RoleUser then
           Inl (at @ ''tool_use '' @ join_with '', '' open @ '' unanswered'')
         else case find (\<lambda>o'. o' \<notin> set results) open of
           Some o' \<Rightarrow> Inl (at @ ''no tool_result for '' @ o')
         | None \<Rightarrow>
             (case find (\<lambda>r. r \<notin> set open) results of
                Some r \<Rightarrow> Inl (at @ ''tool_result '' @ r @ '' answers nothing'')
              | None \<Rightarrow>
                  Inr (if cm_role m \<noteq> RoleSystem then Some (cm_role m) else last_role,
                       use_ids (cm_content m))))"

fun check_messages ::
  "nat \<Rightarrow> role option \<Rightarrow> string list \<Rightarrow> chat_message list \<Rightarrow> string + (role option \<times> string list)" where
  "check_messages i last_role open [] = Inr (last_role, open)"
| "check_messages i last_role open (m # ms) =
     (case check_message i last_role open m of
        Inl e \<Rightarrow> Inl e
      | Inr (r, o') \<Rightarrow> check_messages (Suc i) r o' ms)"

definition conv_validate :: "conversation \<Rightarrow> string option" where
  "conv_validate c =
     (case check_messages 0 None [] (cv_messages c) of
        Inl e \<Rightarrow> Some e
      | Inr (_, open) \<Rightarrow>
          (if open = [] then None
           else Some (''tool_use '' @ join_with '', '' open @ '' unanswered at the end'')))"

section \<open>The request\<close>

definition uncached :: "content_block \<Rightarrow> content_block" where
  "uncached b =
     (case b of
        BText t _ \<Rightarrow> block_text t
      | BToolUse i n v _ \<Rightarrow> BToolUse i n v False
      | BToolResult i rs e _ \<Rightarrow> BToolResult i rs e False
      | _ \<Rightarrow> b)"

definition mark_last :: "chat_message list \<Rightarrow> chat_message list" where
  "mark_last ms =
     (if ms \<noteq> [] \<and> cm_role (last ms) = RoleUser \<and> cm_content (last ms) \<noteq> [] then
        butlast ms @ [(last ms)\<lparr>cm_content := butlast (cm_content (last ms)) @ [block_cached (last (cm_content (last ms)))]\<rparr>]
      else ms)"

definition mark_tools :: "tool_def list \<Rightarrow> tool_def list" where
  "mark_tools ts =
     (let plain = map (\<lambda>t. t\<lparr>td_cache := False\<rparr>) ts in
      if plain = [] then [] else butlast plain @ [(last plain)\<lparr>td_cache := True\<rparr>])"

definition conv_request :: "conversation \<Rightarrow> mentor_request" where
  "conv_request c =
     \<lparr>mq_model = cv_model c, mq_max_tokens = cv_max_tokens c,
      mq_system = map (\<lambda>s. s\<lparr>sb_cache := True\<rparr>) (cv_system c),
      mq_messages = mark_last (map (\<lambda>m. m\<lparr>cm_content := map uncached (cm_content m)\<rparr>) (cv_messages c)),
      mq_tools = mark_tools (cv_tools c), mq_thinking = cv_thinking c, mq_effort = cv_effort c,
      mq_metadata = None\<rparr>"

section \<open>Totals\<close>

definition usage_add :: "usage \<Rightarrow> usage \<Rightarrow> usage" where
  "usage_add u v =
     \<lparr>us_input = us_input u + us_input v, us_output = us_output u + us_output v,
      us_cache_read = us_cache_read u + us_cache_read v,
      us_cache_creation = us_cache_creation u + us_cache_creation v\<rparr>"

definition seed_totals :: "usage \<Rightarrow> u64 option \<Rightarrow> u64 \<Rightarrow> conversation \<Rightarrow> conversation" where
  "seed_totals totals cost calls c =
     c\<lparr>cv_totals := totals, cv_priced := (cost \<noteq> None), cv_cost_micros := cost, cv_calls := calls\<rparr>"

definition record_usage :: "usage \<Rightarrow> u64 option \<Rightarrow> conversation \<Rightarrow> conversation" where
  "record_usage u cost c =
     (let c1 = c\<lparr>cv_last_usage := Some u, cv_calls := cv_calls c + 1, cv_totals := usage_add (cv_totals c) u\<rparr>
      in case (cv_priced c, cost) of
           (True, Some k) \<Rightarrow>
             c1\<lparr>cv_cost_micros := Some ((case cv_cost_micros c of Some x \<Rightarrow> x | None \<Rightarrow> 0) + k)\<rparr>
         | _ \<Rightarrow> c1\<lparr>cv_priced := False, cv_cost_micros := None\<rparr>)"

definition context_tokens :: "conversation \<Rightarrow> u64 option" where
  "context_tokens c =
     map_option (\<lambda>u. us_input u + us_cache_read u + us_cache_creation u) (cv_last_usage c)"

definition conv_describe :: "conversation \<Rightarrow> string" where
  "conv_describe c =
     show_nat (length (cv_messages c)) @ '' messages, '' @ show_nat (length (cv_tools c)) @ '' tools''
     @ (case context_tokens c of None \<Rightarrow> [] | Some n \<Rightarrow> '', '' @ show_nat (unat n div 1000) @ ''k context'')"

section \<open>What the operations make of a valid history\<close>

text \<open>The state of the check after a history without system messages.\<close>

definition history :: "chat_message list \<Rightarrow> role option \<Rightarrow> string list \<Rightarrow> bool" where
  "history ms r open \<longleftrightarrow>
     check_messages 0 None [] ms = Inr (r, open) \<and> r = (if ms = [] then None else Some (cm_role (last ms)))"

lemma check_messages_append:
  "check_messages i r open (xs @ ys) =
     (case check_messages i r open xs of Inl e \<Rightarrow> Inl e | Inr (r', o') \<Rightarrow> check_messages (i + length xs) r' o' ys)"
  by (induction xs arbitrary: i r "open") (auto split: sum.split)

lemma history_snoc:
  "history ms r open \<Longrightarrow> check_message (length ms) r open m = Inr (Some (cm_role m), o') \<Longrightarrow>
   history (ms @ [m]) (Some (cm_role m)) o'"
  by (simp add: history_def check_messages_append)

lemma history_valid: "history (cv_messages c) r [] \<Longrightarrow> conv_validate c = None"
  by (simp add: history_def conv_validate_def)

lemma use_ids_append [simp]: "use_ids (a @ b) = use_ids a @ use_ids b"
  by (simp add: use_ids_def map_filter_def)

lemma result_ids_append [simp]: "result_ids (a @ b) = result_ids a @ result_ids b"
  by (simp add: result_ids_def map_filter_def)

lemma block_text_ids [simp]: "use_ids [block_text t] = []" "result_ids [block_text t] = []"
  by (simp_all add: use_ids_def result_ids_def block_text_def map_filter_def)

text \<open>A history can be taken apart at its last message.\<close>

lemma history_snocE:
  assumes "history (ms @ [m]) r open"
  obtains r0 o0 where "check_messages 0 None [] ms = Inr (r0, o0)"
    "check_message (length ms) r0 o0 m = Inr (r, open)" "r = Some (cm_role m)"
  using assms by (auto simp: history_def check_messages_append split: sum.splits)

lemma check_message_text:
  "check_message i r open (m\<lparr>cm_content := cm_content m @ [block_text t]\<rparr>) = check_message i r open m"
  by (simp add: check_message_def Let_def split: option.split)

lemma history_push_text:
  assumes "history ms r []"
  shows "history (push_text t ms) (Some RoleUser) []"
proof (cases "ms \<noteq> [] \<and> cm_role (last ms) = RoleUser")
  case True
  define ns m where "ns = butlast ms" and "m = last ms"
  have ms: "ms = ns @ [m]" using True by (simp add: ns_def m_def)
  from assms have "history (ns @ [m]) r []" by (simp add: ms)
  then obtain r0 o0 where "check_messages 0 None [] ns = Inr (r0, o0)"
    "check_message (length ns) r0 o0 m = Inr (r, [])" "r = Some (cm_role m)" by (rule history_snocE)
  with True show ?thesis
    by (simp add: history_def push_text_def ms check_messages_append check_message_text)
next
  case False
  with assms have r: "r \<noteq> Some RoleUser" by (auto simp: history_def)
  from False have "push_text t ms = ms @ [\<lparr>cm_role = RoleUser, cm_content = [block_text t]\<rparr>]"
    by (auto simp: push_text_def)
  with history_snoc [OF assms, of "\<lparr>cm_role = RoleUser, cm_content = [block_text t]\<rparr>" "[]"] r show ?thesis
    by (simp add: check_message_def Let_def)
qed

lemma history_push_assistant:
  assumes "history ms r []" "r \<noteq> Some RoleAssistant" "result_ids bs = []"
  shows "history (ms @ [chat_assistant bs]) (Some RoleAssistant) (use_ids bs)"
  using history_snoc [OF assms(1), of "chat_assistant bs" "use_ids bs"] assms(2,3)
  by (simp add: check_message_def Let_def chat_assistant_def)

lemma history_push_results:
  assumes "history ms (Some RoleAssistant) open" "set (result_ids bs) = set open" "use_ids bs = []"
  shows "history (ms @ [\<lparr>cm_role = RoleUser, cm_content = bs\<rparr>]) (Some RoleUser) []"
proof -
  have "find (\<lambda>o'. o' \<notin> set (result_ids bs)) open = None" "find (\<lambda>r. r \<notin> set open) (result_ids bs) = None"
    using assms(2) by (simp_all add: find_None_iff_all)
  with history_snoc [OF assms(1), of "\<lparr>cm_role = RoleUser, cm_content = bs\<rparr>" "[]"] assms(3) show ?thesis
    by (simp add: check_message_def Let_def)
qed

lemma calls_of_ids: "map tl_id (calls_of bs) = use_ids bs"
  by (induction bs) (auto simp: calls_of_def use_ids_def map_filter_def block_tool_use_def split: content_block.split)

lemma pending_none: "history ms (Some RoleAssistant) open \<Longrightarrow> cv_messages c = ms \<Longrightarrow>
   pending_tool_uses c = [] \<longleftrightarrow> open = []"
proof -
  assume h: "history ms (Some RoleAssistant) open" and c: "cv_messages c = ms"
  then have ne: "ms \<noteq> []" by (auto simp: history_def)
  with h obtain r0 o0 where "check_message (length (butlast ms)) r0 o0 (last ms) = Inr (Some RoleAssistant, open)"
    by (metis append_butlast_last_id history_snocE)
  then have "open = use_ids (cm_content (last ms))"
    by (auto simp: check_message_def Let_def split: if_splits option.splits)
  moreover have "cm_role (last ms) = RoleAssistant" using h ne by (simp add: history_def)
  ultimately show ?thesis
    using ne calls_of_ids [of "cm_content (last ms)"] by (auto simp: pending_tool_uses_def c)
qed

end
