(* ===== verification/Trace_Types.thy ===== *)
theory Trace_Types
  imports Conversation
begin

text \<open>
  The data of the trace store (\<open>crates/core/src/trace/\<close>: \<open>mod.rs\<close>, \<open>error.rs\<close>, and the inputs and
  rows of \<open>store.rs\<close> and \<open>sessions.rs\<close>): ids and times are strings, a column with a closed set of
  texts is the datatype it is read as (the title's source, which an import writes unchecked, is its
  text), and a JSON column is the value it holds. SQLite's integers
  are \<open>i64\<close>: an unsigned count goes in through \<open>to_i64\<close>.
\<close>

section \<open>Statuses and kinds\<close>

datatype run_status = RunRunning | RunOk | RunCancelledStatus | RunErrorStatus

definition run_status_str :: "run_status \<Rightarrow> string" where
  "run_status_str s =
     (case s of RunRunning \<Rightarrow> ''running'' | RunOk \<Rightarrow> ''ok'' | RunCancelledStatus \<Rightarrow> ''cancelled''
      | RunErrorStatus \<Rightarrow> ''error'')"

definition run_status_parse :: "string \<Rightarrow> run_status option" where
  "run_status_parse s =
     (if s = ''running'' then Some RunRunning else if s = ''ok'' then Some RunOk
      else if s = ''cancelled'' then Some RunCancelledStatus else if s = ''error'' then Some RunErrorStatus
      else None)"

datatype agent_kind = MainAgent | SubAgent | EvalAgent

definition agent_kind_str :: "agent_kind \<Rightarrow> string" where
  "agent_kind_str k = (case k of MainAgent \<Rightarrow> ''main'' | SubAgent \<Rightarrow> ''sub'' | EvalAgent \<Rightarrow> ''eval'')"

definition agent_kind_parse :: "string \<Rightarrow> agent_kind option" where
  "agent_kind_parse s =
     (if s = ''main'' then Some MainAgent else if s = ''sub'' then Some SubAgent
      else if s = ''eval'' then Some EvalAgent else None)"

datatype session_status = SessionOpen | SessionArchived | SessionDeleted

definition session_status_str :: "session_status \<Rightarrow> string" where
  "session_status_str s =
     (case s of SessionOpen \<Rightarrow> ''open'' | SessionArchived \<Rightarrow> ''archived'' | SessionDeleted \<Rightarrow> ''deleted'')"

definition session_status_parse :: "string \<Rightarrow> session_status option" where
  "session_status_parse s =
     (if s = ''open'' then Some SessionOpen else if s = ''archived'' then Some SessionArchived
      else if s = ''deleted'' then Some SessionDeleted else None)"

datatype title_source = TitleUser | TitlePrompt | TitleGenerated

definition title_source_str :: "title_source \<Rightarrow> string" where
  "title_source_str s = (case s of TitleUser \<Rightarrow> ''user'' | TitlePrompt \<Rightarrow> ''prompt'' | TitleGenerated \<Rightarrow> ''generated'')"

definition title_source_parse :: "string \<Rightarrow> title_source option" where
  "title_source_parse s =
     (if s = ''user'' then Some TitleUser else if s = ''prompt'' then Some TitlePrompt
      else if s = ''generated'' then Some TitleGenerated else None)"

datatype call_kind = CallStep | CallTitle

definition call_kind_str :: "call_kind \<Rightarrow> string" where
  "call_kind_str k = (case k of CallStep \<Rightarrow> ''step'' | CallTitle \<Rightarrow> ''title'')"

definition call_kind_parse :: "string \<Rightarrow> call_kind option" where
  "call_kind_parse s = (if s = ''step'' then Some CallStep else if s = ''title'' then Some CallTitle else None)"

definition role_str :: "role \<Rightarrow> string" where
  "role_str r = (case r of RoleUser \<Rightarrow> ''user'' | RoleAssistant \<Rightarrow> ''assistant'' | RoleSystem \<Rightarrow> ''system'')"

definition parse_role :: "string \<Rightarrow> role option" where
  "parse_role s =
     (if s = ''user'' then Some RoleUser else if s = ''assistant'' then Some RoleAssistant
      else if s = ''system'' then Some RoleSystem else None)"

text \<open>What is written into such a column is read back as itself: \<open>bad_column\<close> is not reached.\<close>

lemma column_texts [simp]:
  "run_status_parse (run_status_str a) = Some a" "agent_kind_parse (agent_kind_str b) = Some b"
  "session_status_parse (session_status_str c) = Some c" "title_source_parse (title_source_str d) = Some d"
  "call_kind_parse (call_kind_str e) = Some e" "parse_role (role_str r) = Some r"
  by ((cases a; simp add: run_status_parse_def run_status_str_def),
      (cases b; simp add: agent_kind_parse_def agent_kind_str_def),
      (cases c; simp add: session_status_parse_def session_status_str_def),
      (cases d; simp add: title_source_parse_def title_source_str_def),
      (cases e; simp add: call_kind_parse_def call_kind_str_def),
      (cases r; simp add: parse_role_def role_str_def))

definition event_kinds :: "string list" where
  "event_kinds =
     [''session.created'', ''agent.started'', ''agent.finished'', ''user.message'', ''assistant.message'',
      ''mentor.request'', ''mentor.response'', ''mentor.error'', ''tool.call'', ''tool.result'',
      ''apprentice.invocation'', ''apprentice.state'', ''permission.decision'', ''outcome'', ''feedback'',
      ''workspace.snapshot'', ''session.title'', ''session.status'', ''session.repaired'',
      ''session.prefix_changed'']"

text \<open>\<open>kinds::is_valid\<close>: one or two parts of lower-case letters, digits and underscores.\<close>

definition kind_part_ok :: "string \<Rightarrow> bool" where
  "kind_part_ok p \<longleftrightarrow> p \<noteq> [] \<and> list_all (\<lambda>c. ascii_lower c \<or> ascii_digit c \<or> c = CHR ''_'') p"

definition kind_valid :: "string \<Rightarrow> bool" where
  "kind_valid kind =
     (case split_on CHR ''.'' kind of
        [a] \<Rightarrow> kind_part_ok a
      | [a, b] \<Rightarrow> kind_part_ok a \<and> kind_part_ok b
      | _ \<Rightarrow> False)"

lemma event_kinds_valid: "list_all kind_valid event_kinds"
  by code_simp

section \<open>Errors\<close>

datatype trace_error =
    TraceSqlite string
  | TraceIo string string string
  | SchemaTooNew nat nat
  | TraceMigration nat string
  | TraceNotFound string string
  | BlobCorrupted string string
  | TraceInvalid string string
  | TraceConflict string
  | TraceJson string
  | WriterClosed
  | BatchFailed string

definition trace_error_kind :: "trace_error \<Rightarrow> string" where
  "trace_error_kind e =
     (case e of
        TraceSqlite _ \<Rightarrow> ''sqlite'' | TraceIo _ _ _ \<Rightarrow> ''io'' | SchemaTooNew _ _ \<Rightarrow> ''schema_too_new''
      | TraceMigration _ _ \<Rightarrow> ''migration'' | TraceNotFound _ _ \<Rightarrow> ''not_found''
      | BlobCorrupted _ _ \<Rightarrow> ''blob_corrupted'' | TraceInvalid _ _ \<Rightarrow> ''invalid''
      | TraceConflict _ \<Rightarrow> ''conflict'' | TraceJson _ \<Rightarrow> ''json'' | WriterClosed \<Rightarrow> ''writer_closed''
      | BatchFailed _ \<Rightarrow> ''batch_failed'')"

definition quoted_id :: "string \<Rightarrow> string" where
  "quoted_id s = CHR 0x60 # s @ [CHR 0x60]"

definition trace_error_str :: "trace_error \<Rightarrow> string" where
  "trace_error_str e =
     (case e of
        TraceSqlite m \<Rightarrow> ''database error: '' @ m
      | TraceIo ctx p m \<Rightarrow> ctx @ '' '' @ p @ '': '' @ m
      | SchemaTooNew found supported \<Rightarrow>
          ''trace database schema v'' @ show_nat found @ '' is newer than this build supports (v''
          @ show_nat supported @ ''); upgrade apprentice-harness or point HARNESS_HOME at another directory''
      | TraceMigration v m \<Rightarrow> ''migration to schema v'' @ show_nat v @ '' failed: '' @ m
      | TraceNotFound what i \<Rightarrow> what @ '' '' @ quoted_id i @ '' not found''
      | BlobCorrupted i actual \<Rightarrow> ''blob '' @ quoted_id i @ '' is corrupted (content hashes to '' @ actual @ '')''
      | TraceInvalid what reason \<Rightarrow> ''invalid '' @ what @ '': '' @ reason
      | TraceConflict m \<Rightarrow> m
      | TraceJson m \<Rightarrow> ''JSON error: '' @ m
      | WriterClosed \<Rightarrow> ''trace writer closed''
      | BatchFailed m \<Rightarrow> ''batch commit failed: '' @ m)"

definition conflict_error :: "string \<Rightarrow> rpc_error" where
  "conflict_error = rpc_error_new (-32011) ''conflict''"

definition agent_stopped :: "string \<Rightarrow> string \<Rightarrow> rpc_error" where
  "agent_stopped = rpc_error_new (-32031)"

definition rpc_of_trace_error :: "trace_error \<Rightarrow> rpc_error" where
  "rpc_of_trace_error e =
     (case e of
        TraceNotFound _ _ \<Rightarrow> not_found_error (trace_error_str e)
      | TraceInvalid _ _ \<Rightarrow> invalid_params (trace_error_str e)
      | TraceConflict _ \<Rightarrow> conflict_error (trace_error_str e)
      | _ \<Rightarrow> with_details (internal_error (''trace store: '' @ trace_error_str e))
               (jobj [(''reason'', JStr (trace_error_kind e))]))"

section \<open>Inputs\<close>

record new_session =
  ns_title :: "string option"
  ns_workspace_path :: "string option"
  ns_workspace_id :: "string option"
  ns_config :: json

record new_agent =
  na_session :: string
  na_parent :: "string option"
  na_kind :: agent_kind
  na_task_text :: "string option"
  na_options :: json

definition new_agent_main :: "string \<Rightarrow> string \<Rightarrow> new_agent" where
  "new_agent_main session task =
     \<lparr>na_session = session, na_parent = None, na_kind = MainAgent, na_task_text = Some task, na_options = JObj []\<rparr>"

datatype blob_input = BlobBytes string string | BlobExisting string

record new_event =
  nv_session :: string
  nv_agent :: "string option"
  nv_step :: "string option"
  nv_kind :: string
  nv_payload :: json
  nv_blob :: "blob_input option"

definition event_new :: "string \<Rightarrow> string \<Rightarrow> new_event" where
  "event_new session kind =
     \<lparr>nv_session = session, nv_agent = None, nv_step = None, nv_kind = kind, nv_payload = JObj [], nv_blob = None\<rparr>"

definition event_agent :: "string \<Rightarrow> new_event \<Rightarrow> new_event" where
  "event_agent a e = e\<lparr>nv_agent := Some a\<rparr>"

definition event_step :: "string \<Rightarrow> new_event \<Rightarrow> new_event" where
  "event_step s e = e\<lparr>nv_step := Some s\<rparr>"

definition event_payload :: "json \<Rightarrow> new_event \<Rightarrow> new_event" where
  "event_payload v e = e\<lparr>nv_payload := v\<rparr>"

definition event_blob_bytes :: "string \<Rightarrow> string \<Rightarrow> new_event \<Rightarrow> new_event" where
  "event_blob_bytes bytes mt e = e\<lparr>nv_blob := Some (BlobBytes bytes mt)\<rparr>"

definition event_blob :: "string \<Rightarrow> new_event \<Rightarrow> new_event" where
  "event_blob i e = e\<lparr>nv_blob := Some (BlobExisting i)\<rparr>"

record mentor_call_start =
  ks_id :: string
  ks_session :: string
  ks_agent :: string
  ks_step :: string
  ks_request_event :: string
  ks_model :: string
  ks_effort :: "string option"
  ks_request_bytes :: "nat option"
  ks_started_at :: "string option"
  ks_kind :: call_kind

record mentor_call_end =
  ke_id :: string
  ke_response_event :: "string option"
  ke_status :: run_status
  ke_stop_reason :: "string option"
  ke_http_status :: "nat option"
  ke_usage :: "usage option"
  ke_cost_micros :: "u64 option"
  ke_first_byte_ms :: "nat option"
  ke_total_ms :: "nat option"

definition mentor_call_end_new :: "string \<Rightarrow> run_status \<Rightarrow> mentor_call_end" where
  "mentor_call_end_new i s =
     \<lparr>ke_id = i, ke_response_event = None, ke_status = s, ke_stop_reason = None, ke_http_status = None,
      ke_usage = None, ke_cost_micros = None, ke_first_byte_ms = None, ke_total_ms = None\<rparr>"

record new_message =
  nm_session :: string
  nm_seq :: nat
  nm_role :: role
  nm_content :: "content_block list"
  nm_agent :: "string option"
  nm_step :: "string option"

record step_ref =
  sf_session :: string
  sf_agent :: string
  sf_step :: string

definition step_event :: "step_ref \<Rightarrow> string \<Rightarrow> new_event" where
  "step_event at kind = event_step (sf_step at) (event_agent (sf_agent at) (event_new (sf_session at) kind))"

section \<open>Rows\<close>

record session_row =
  sr_id :: string
  sr_created_at :: string
  sr_updated_at :: string
  sr_title :: "string option"
  sr_title_source :: "string option"
  sr_workspace_path :: "string option"
  sr_workspace_id :: "string option"
  sr_config :: json
  sr_status :: session_status
  sr_message_count :: nat
  sr_last_agent_status :: "run_status option"
  sr_prompt_version :: "string option"
  sr_tools_hash :: "string option"

record workspace_row =
  wr_id :: string
  wr_root :: string
  wr_name :: string
  wr_created_at :: string
  wr_last_used_at :: string
  wr_settings :: json

record agent_row =
  ar_id :: string
  ar_session :: string
  ar_parent :: "string option"
  ar_kind :: agent_kind
  ar_created_at :: string
  ar_ended_at :: "string option"
  ar_status :: run_status
  ar_task_text :: "string option"
  ar_options :: json

record step_row =
  sp_id :: string
  sp_agent :: string
  sp_seq :: nat
  sp_started_at :: string
  sp_ended_at :: "string option"
  sp_status :: run_status

record event_row =
  er_id :: string
  er_session :: string
  er_agent :: "string option"
  er_step :: "string option"
  er_seq :: nat
  er_ts :: string
  er_kind :: string
  er_payload :: json
  er_blob :: "string option"

record blob_row =
  br_id :: string
  br_size :: nat
  br_media_type :: string
  br_created_at :: string
  br_refcount :: nat
  br_pruned_at :: "string option"

record call_row =
  kr_id :: string
  kr_session :: string
  kr_agent :: string
  kr_step :: string
  kr_request_event :: string
  kr_response_event :: "string option"
  kr_model :: string
  kr_effort :: "string option"
  kr_started_at :: string
  kr_ended_at :: "string option"
  kr_status :: run_status
  kr_stop_reason :: "string option"
  kr_http_status :: "nat option"
  kr_input_tokens :: "nat option"
  kr_output_tokens :: "nat option"
  kr_cache_read_tokens :: "nat option"
  kr_cache_creation_tokens :: "nat option"
  kr_cost_micros :: "int option"
  kr_first_byte_ms :: "nat option"
  kr_total_ms :: "nat option"
  kr_request_bytes :: "nat option"
  kr_apprentice_applied :: bool
  kr_kind :: call_kind

record message_row =
  ml_session :: string
  ml_seq :: nat
  ml_role :: role
  ml_content :: json
  ml_agent :: "string option"
  ml_step :: "string option"
  ml_created_at :: string

record fts_row =
  ft_session :: string
  ft_seq :: nat
  ft_text :: string

text \<open>\<open>bad_column\<close>, when a row is read.\<close>

definition bad_column :: "string \<Rightarrow> string \<Rightarrow> trace_error" where
  "bad_column column value = TraceSqlite (''Conversion error from type Text at index: 0, invalid ''
     @ column @ '' '' @ quoted_id value)"

text \<open>\<open>session_record\<close>: the row, when its texts are known ones.\<close>

definition session_record :: "session_row \<Rightarrow> trace_error + session_row" where
  "session_record r =
     (case sr_title_source r of
        None \<Rightarrow> Inr r
      | Some s \<Rightarrow> (if title_source_parse s = None then Inl (bad_column ''title_source'' s) else Inr r))"

text \<open>\<open>to_i64\<close>: what does not fit becomes \<open>i64::MAX\<close>.\<close>

definition to_i64 :: "nat \<Rightarrow> nat" where
  "to_i64 n = min n (2 ^ 63 - 1)"

definition clamp_page :: "nat option \<Rightarrow> nat" where
  "clamp_page limit = min (max (case limit of Some n \<Rightarrow> n | None \<Rightarrow> 200) 1) 10000"

end
