(* ===== verification/Trace_State.thy ===== *)
theory Trace_State
  imports Trace_Types
begin

text \<open>
  The state of the trace store and what its operations are made of: the SQLite tables as lists of
  rows in the order of insertion, the blob files by their id, and an operation as a function from a
  store to a result and a store. A transaction that fails leaves the tables as they were; files
  written before it stay. What SQLite or the disk may refuse is the fault of the operation's number
  in \<open>store_env\<close>, which also has the ids (UUID v7) and the times handed out.
  Then the blob files of \<open>blobs.rs\<close> and the payload rule of \<open>payload.rs\<close>.
\<close>

record trace_db =
  db_sessions :: "session_row list"
  db_workspaces :: "workspace_row list"
  db_agents :: "agent_row list"
  db_steps :: "step_row list"
  db_blobs :: "blob_row list"
  db_events :: "event_row list"
  db_calls :: "call_row list"
  db_messages :: "message_row list"
  db_fts :: "fts_row list"

record trace_store =
  ts_db :: trace_db
  ts_files :: "(string \<times> string) list"
  ts_ids :: nat
  ts_ticks :: nat
  ts_ops :: nat

record store_env =
  se_inline_max :: nat
  se_sha256 :: "string \<Rightarrow> string"
  se_print :: "json \<Rightarrow> string"
  se_root :: string
  se_id :: "nat \<Rightarrow> string"
  se_now :: "nat \<Rightarrow> string"
  se_fault :: "nat \<Rightarrow> trace_error option"

definition db_empty :: trace_db where
  "db_empty = \<lparr>db_sessions = [], db_workspaces = [], db_agents = [], db_steps = [], db_blobs = [],
     db_events = [], db_calls = [], db_messages = [], db_fts = []\<rparr>"

definition store_new :: trace_store where
  "store_new = \<lparr>ts_db = db_empty, ts_files = [], ts_ids = 0, ts_ticks = 0, ts_ops = 0\<rparr>"

section \<open>Operations\<close>

type_synonym ('s, 'a) op = "'s \<Rightarrow> (trace_error + 'a) \<times> 's"

type_synonym 'a trace_op = "(trace_store, 'a) op"

definition t_return :: "'a \<Rightarrow> ('s, 'a) op" where
  "t_return x = (\<lambda>st. (Inr x, st))"

definition t_fail :: "trace_error \<Rightarrow> ('s, 'a) op" where
  "t_fail e = (\<lambda>st. (Inl e, st))"

definition t_bind :: "('s, 'a) op \<Rightarrow> ('a \<Rightarrow> ('s, 'b) op) \<Rightarrow> ('s, 'b) op" where
  "t_bind m f = (\<lambda>st. case m st of (Inl e, st') \<Rightarrow> (Inl e, st') | (Inr x, st') \<Rightarrow> f x st')"

definition t_then :: "('s, unit) op \<Rightarrow> ('s, 'b) op \<Rightarrow> ('s, 'b) op" where
  "t_then m n = t_bind m (\<lambda>_. n)"

text \<open>One operation per element, results in order, up to the first error.\<close>

fun t_each :: "('a \<Rightarrow> ('s, 'b) op) \<Rightarrow> 'a list \<Rightarrow> ('s, 'b list) op" where
  "t_each f [] = t_return []"
| "t_each f (x # xs) = t_bind (f x) (\<lambda>y. t_bind (t_each f xs) (\<lambda>ys. t_return (y # ys)))"

definition t_all :: "('a \<Rightarrow> ('s, unit) op) \<Rightarrow> 'a list \<Rightarrow> ('s, unit) op" where
  "t_all f xs = t_bind (t_each f xs) (\<lambda>_. t_return ())"

definition t_lift :: "trace_error + 'a \<Rightarrow> ('s, 'a) op" where
  "t_lift r = (\<lambda>st. (r, st))"

definition t_read :: "(trace_db \<Rightarrow> 'a) \<Rightarrow> 'a trace_op" where
  "t_read f = (\<lambda>st. (Inr (f (ts_db st)), st))"

definition t_write :: "(trace_db \<Rightarrow> trace_db) \<Rightarrow> unit trace_op" where
  "t_write f = (\<lambda>st. (Inr (), st\<lparr>ts_db := f (ts_db st)\<rparr>))"

text \<open>\<open>require_row\<close>, and what SQLite says to a statement that breaks a constraint.\<close>

definition t_require :: "bool \<Rightarrow> trace_error \<Rightarrow> ('s, unit) op" where
  "t_require ok e = (if ok then t_return () else t_fail e)"

definition require_row :: "nat \<Rightarrow> string \<Rightarrow> string \<Rightarrow> ('s, unit) op" where
  "require_row n what i = t_require (n \<noteq> 0) (TraceNotFound what i)"

definition fk_failed :: trace_error where
  "fk_failed = TraceSqlite ''FOREIGN KEY constraint failed''"

definition unique_failed :: "string \<Rightarrow> trace_error" where
  "unique_failed column = TraceSqlite (''UNIQUE constraint failed: '' @ column)"

definition fresh_id :: "store_env \<Rightarrow> string trace_op" where
  "fresh_id env = (\<lambda>st. (Inr (se_id env (ts_ids st)), st\<lparr>ts_ids := Suc (ts_ids st)\<rparr>))"

definition now_ts :: "store_env \<Rightarrow> string trace_op" where
  "now_ts env = (\<lambda>st. (Inr (se_now env (ts_ticks st)), st\<lparr>ts_ticks := Suc (ts_ticks st)\<rparr>))"

definition t_io :: "store_env \<Rightarrow> unit trace_op" where
  "t_io env = (\<lambda>st. (case se_fault env (ts_ops st) of Some e \<Rightarrow> Inl e | None \<Rightarrow> Inr (),
                     st\<lparr>ts_ops := Suc (ts_ops st)\<rparr>))"

text \<open>A transaction: dropped before its commit, it is rolled back.\<close>

definition transaction :: "store_env \<Rightarrow> 'a trace_op \<Rightarrow> 'a trace_op" where
  "transaction env body =
     t_bind (t_io env) (\<lambda>_ st. case body st of
        (Inl e, st') \<Rightarrow> (Inl e, st'\<lparr>ts_db := ts_db st\<rparr>)
      | ok \<Rightarrow> ok)"

text \<open>A query under the lock.\<close>

definition t_query :: "store_env \<Rightarrow> (trace_db \<Rightarrow> 'a) \<Rightarrow> 'a trace_op" where
  "t_query env f = t_bind (t_io env) (\<lambda>_. t_read f)"

definition t_found :: "'a option \<Rightarrow> string \<Rightarrow> string \<Rightarrow> ('s, 'a) op" where
  "t_found r what i = (case r of Some x \<Rightarrow> t_return x | None \<Rightarrow> t_fail (TraceNotFound what i))"

definition sql_update :: "('r \<Rightarrow> bool) \<Rightarrow> ('r \<Rightarrow> 'r) \<Rightarrow> 'r list \<Rightarrow> 'r list" where
  "sql_update p f rows = map (\<lambda>r. if p r then f r else r) rows"

definition sql_count :: "('r \<Rightarrow> bool) \<Rightarrow> 'r list \<Rightarrow> nat" where
  "sql_count p rows = length (filter p rows)"

text \<open>\<open>COALESCE(MAX(x), 0)\<close>.\<close>

definition sql_max :: "nat list \<Rightarrow> nat" where
  "sql_max xs = foldr max xs 0"

text \<open>\<open>ORDER BY\<close>: the rows in insertion order, sorted by the columns compared.\<close>

fun insert_by :: "('a \<Rightarrow> 'a \<Rightarrow> bool) \<Rightarrow> 'a \<Rightarrow> 'a list \<Rightarrow> 'a list" where
  "insert_by lt x [] = [x]"
| "insert_by lt x (y # ys) = (if lt y x then y # insert_by lt x ys else x # y # ys)"

definition order_by :: "('a \<Rightarrow> 'a \<Rightarrow> bool) \<Rightarrow> 'a list \<Rightarrow> 'a list" where
  "order_by lt xs = foldr (insert_by lt) xs []"

definition less_pair :: "string \<times> string \<Rightarrow> string \<times> string \<Rightarrow> bool" where
  "less_pair a b \<longleftrightarrow> str_less (fst a) (fst b) \<or> fst a = fst b \<and> str_less (snd a) (snd b)"

section \<open>Blob files\<close>

definition blob_path :: "string \<Rightarrow> string \<Rightarrow> string" where
  "blob_path root i =
     root @ ''/'' @ (if 2 \<le> length i \<and> is_char_boundary i 2 then take 2 i else ''__'') @ ''/'' @ i"

text \<open>\<open>write\<close>: what is there under that hash is not written again.\<close>

definition blob_write :: "store_env \<Rightarrow> string \<Rightarrow> (string \<times> bool) trace_op" where
  "blob_write env bytes =
     (let i = se_sha256 env bytes in (\<lambda>st.
        if map_of (ts_files st) i \<noteq> None then (Inr (i, False), st)
        else t_bind (t_io env) (\<lambda>_ st. (Inr (i, True), st\<lparr>ts_files := (i, bytes) # ts_files st\<rparr>)) st))"

definition blob_read :: "store_env \<Rightarrow> string \<Rightarrow> string trace_op" where
  "blob_read env i = t_bind (t_io env) (\<lambda>_ st.
     case map_of (ts_files st) i of
       Some v \<Rightarrow> (Inr v, st)
     | None \<Rightarrow> (Inl (TraceNotFound ''blob'' i), st))"

definition blob_verify :: "store_env \<Rightarrow> string \<Rightarrow> unit trace_op" where
  "blob_verify env i = t_bind (blob_read env i) (\<lambda>v.
     if se_sha256 env v = i then t_return () else t_fail (BlobCorrupted i (se_sha256 env v)))"

definition blob_remove :: "store_env \<Rightarrow> string \<Rightarrow> unit trace_op" where
  "blob_remove env i = t_bind (t_io env) (\<lambda>_ st.
     (Inr (), st\<lparr>ts_files := filter (\<lambda>f. fst f \<noteq> i) (ts_files st)\<rparr>))"

definition blob_disk_usage :: "trace_store \<Rightarrow> nat \<times> nat" where
  "blob_disk_usage st = (sum_list (map (length \<circ> snd) (ts_files st)), length (ts_files st))"

section \<open>Payloads\<close>

definition spilled_media_type :: string where
  "spilled_media_type = ''text/plain; charset=utf-8''"

definition blob_ref_json :: "string \<Rightarrow> nat \<Rightarrow> json" where
  "blob_ref_json i n = jobj [(''$blob'', JStr i), (''bytes'', JInt (int n))]"

text \<open>\<open>spill_strings\<close>: strings over the limit become references, with how many were moved.\<close>

fun spill_strings :: "nat \<Rightarrow> (string \<Rightarrow> ('s, string) op) \<Rightarrow> json \<Rightarrow> ('s, json \<times> nat) op"
  and spill_items :: "nat \<Rightarrow> (string \<Rightarrow> ('s, string) op) \<Rightarrow> json list \<Rightarrow> ('s, json list \<times> nat) op"
  and spill_fields :: "nat \<Rightarrow> (string \<Rightarrow> ('s, string) op) \<Rightarrow> (string \<times> json) list \<Rightarrow> ('s, (string \<times> json) list \<times> nat) op"
  where
  "spill_strings max_len put (JStr s) =
     (if max_len < length s
      then t_bind (put s) (\<lambda>i. t_return (blob_ref_json i (length s), 1))
      else t_return (JStr s, 0))"
| "spill_strings max_len put (JArr vs) =
     t_bind (spill_items max_len put vs) (\<lambda>(vs', n). t_return (JArr vs', n))"
| "spill_strings max_len put (JObj fs) =
     t_bind (spill_fields max_len put fs) (\<lambda>(fs', n). t_return (JObj fs', n))"
| "spill_strings max_len put v = t_return (v, 0)"
| "spill_items max_len put [] = t_return ([], 0)"
| "spill_items max_len put (v # vs) =
     t_bind (spill_strings max_len put v) (\<lambda>(v', n).
     t_bind (spill_items max_len put vs) (\<lambda>(vs', m). t_return (v' # vs', n + m)))"
| "spill_fields max_len put [] = t_return ([], 0)"
| "spill_fields max_len put ((k, v) # fs) =
     t_bind (spill_strings max_len put v) (\<lambda>(v', n).
     t_bind (spill_fields max_len put fs) (\<lambda>(fs', m). t_return ((k, v') # fs', n + m)))"

text \<open>\<open>blob_refs\<close>: the references in a payload, an object's own before those below it.\<close>

definition own_ref :: "(string \<times> json) list \<Rightarrow> string list" where
  "own_ref fs = (case map_of fs ''$blob'' of Some (JStr i) \<Rightarrow> [i] | _ \<Rightarrow> [])"

fun blob_refs :: "json \<Rightarrow> string list" where
  "blob_refs (JObj fs) = own_ref fs @ concat (map (\<lambda>kv. blob_refs (snd kv)) fs)"
| "blob_refs (JArr vs) = concat (map blob_refs vs)"
| "blob_refs v = []"

text \<open>What a reader does with the references: each is replaced by the text of its blob.\<close>

fun resolve_refs :: "(string \<Rightarrow> string option) \<Rightarrow> json \<Rightarrow> json" where
  "resolve_refs read (JObj fs) =
     (case own_ref fs of
        [i] \<Rightarrow> (case read i of Some s \<Rightarrow> JStr s | None \<Rightarrow> JObj fs)
      | _ \<Rightarrow> JObj (map (\<lambda>kv. (fst kv, resolve_refs read (snd kv))) fs))"
| "resolve_refs read (JArr vs) = JArr (map (resolve_refs read) vs)"
| "resolve_refs read v = v"

section \<open>Facts shared by the operations\<close>

lemma t_simps [simp]:
  "t_return x st = (Inr x, st)" "t_fail e st = (Inl e, st)" "t_lift r st = (r, st)"
  "t_read f ts = (Inr (f (ts_db ts)), ts)"
  "t_require ok e st = (if ok then Inr () else Inl e, st)"
  "require_row n what i st = (if n \<noteq> 0 then Inr () else Inl (TraceNotFound what i), st)"
  by (simp_all add: t_return_def t_fail_def t_lift_def t_read_def t_require_def require_row_def)

lemma t_bind_Inr_iff:
  "t_bind m f st = (Inr y, st'') \<longleftrightarrow> (\<exists>x st'. m st = (Inr x, st') \<and> f x st' = (Inr y, st''))"
  by (auto simp: t_bind_def split: prod.split sum.split)

lemma t_bind_Inl_iff:
  "t_bind m f st = (Inl e, st'') \<longleftrightarrow>
     m st = (Inl e, st'') \<or> (\<exists>x st'. m st = (Inr x, st') \<and> f x st' = (Inl e, st''))"
  by (auto simp: t_bind_def split: prod.split sum.split)

lemma t_bind_cases:
  assumes "t_bind m f st = (r, st'')"
  obtains e where "m st = (Inl e, st'')" "r = Inl e"
  | x st' where "m st = (Inr x, st')" "f x st' = (r, st'')"
  using assms by (auto simp: t_bind_def split: prod.splits sum.splits)

lemma sql_max_ge: "x \<in> set xs \<Longrightarrow> x \<le> sql_max xs"
  by (induction xs) (auto simp: sql_max_def)

lemma sql_max_append [simp]: "sql_max (xs @ ys) = max (sql_max xs) (sql_max ys)"
  by (induction xs) (simp_all add: sql_max_def)

lemma sql_max_upt: "sql_max [1..<Suc n] = n"
  by (induction n) (simp_all add: sql_max_def [of "[]"], simp add: sql_max_def)

end
