(* ===== verification/Trace_Store.thy ===== *)
theory Trace_Store
  imports Trace_State
begin

text \<open>
  \<open>crates/core/src/trace/store.rs\<close>: sessions, agents, steps, events, blobs, mentor calls and
  workspaces. Every logical action is one transaction; the constraints of the schema (primary keys,
  foreign keys, which are on) are written out where a statement can break them.
\<close>

section \<open>Preparing and inserting an event\<close>

text \<open>What is to be registered once the transaction runs, and whether it is a stored blob.\<close>

record prepared =
  pp_ev :: new_event
  pp_blob_id :: "string option"
  pp_register :: "(string \<times> nat \<times> string) list"
  pp_reference :: "string option"

text \<open>The closure given to \<open>spill_strings\<close>: the string is written and its blob noted.\<close>

definition spill_put :: "store_env \<Rightarrow> string \<Rightarrow> (trace_store \<times> (string \<times> nat \<times> string) list, string) op" where
  "spill_put env s = (\<lambda>(st, reg).
     case blob_write env s st of
       (Inl e, st') \<Rightarrow> (Inl e, (st', reg))
     | (Inr (i, _), st') \<Rightarrow> (Inr i, (st', reg @ [(i, length s, spilled_media_type)])))"

definition prepare :: "store_env \<Rightarrow> new_event \<Rightarrow> prepared trace_op" where
  "prepare env ev = (\<lambda>st.
     if \<not> kind_valid (nv_kind ev) then
       (Inl (TraceInvalid ''event kind''
          (quoted_id (nv_kind ev) @ '' (expected '' @ quoted_id ''area.name'' @ '' in lower-case)'')), st)
     else case spill_strings (se_inline_max env) (spill_put env) (nv_payload ev) (st, []) of
       (Inl e, (st', _)) \<Rightarrow> (Inl e, st')
     | (Inr (payload, _), (st', reg)) \<Rightarrow>
         (let ev' = ev\<lparr>nv_payload := payload, nv_blob := None\<rparr> in
          case nv_blob ev of
            None \<Rightarrow> (Inr \<lparr>pp_ev = ev', pp_blob_id = None, pp_register = reg, pp_reference = None\<rparr>, st')
          | Some (BlobExisting i) \<Rightarrow>
              (Inr \<lparr>pp_ev = ev', pp_blob_id = Some i, pp_register = reg, pp_reference = Some i\<rparr>, st')
          | Some (BlobBytes bytes mt) \<Rightarrow>
              t_bind (blob_write env bytes) (\<lambda>(i, _). t_return
                \<lparr>pp_ev = ev', pp_blob_id = Some i, pp_register = reg @ [(i, length bytes, mt)],
                 pp_reference = None\<rparr>) st'))"

definition register_blob :: "store_env \<Rightarrow> string \<times> nat \<times> string \<Rightarrow> unit trace_op" where
  "register_blob env b = (case b of (i, n, mt) \<Rightarrow>
     t_bind (now_ts env) (\<lambda>now. t_write (\<lambda>db.
       if i \<in> br_id ` set (db_blobs db) then
         db\<lparr>db_blobs := sql_update (\<lambda>r. br_id r = i) (\<lambda>r. r\<lparr>br_refcount := br_refcount r + 1\<rparr>) (db_blobs db)\<rparr>
       else
         db\<lparr>db_blobs := db_blobs db @
              [\<lparr>br_id = i, br_size = to_i64 n, br_media_type = mt, br_created_at = now, br_refcount = 1,
                br_pruned_at = None\<rparr>]\<rparr>)))"

text \<open>A reference to a stored blob counts; it has to have a row.\<close>

definition reference_blob :: "string \<Rightarrow> unit trace_op" where
  "reference_blob i =
     t_bind (t_read (\<lambda>db. sql_count (\<lambda>r. br_id r = i) (db_blobs db))) (\<lambda>n.
     t_then (t_write (\<lambda>db.
         db\<lparr>db_blobs := sql_update (\<lambda>r. br_id r = i) (\<lambda>r. r\<lparr>br_refcount := br_refcount r + 1\<rparr>) (db_blobs db)\<rparr>))
       (require_row n ''blob'' i))"

definition has_session :: "string \<Rightarrow> trace_db \<Rightarrow> bool" where
  "has_session s db \<longleftrightarrow> s \<in> sr_id ` set (db_sessions db)"

definition session_touched :: "string \<Rightarrow> string \<Rightarrow> trace_db \<Rightarrow> trace_db" where
  "session_touched s now db =
     db\<lparr>db_sessions := sql_update (\<lambda>r. sr_id r = s) (\<lambda>r. r\<lparr>sr_updated_at := now\<rparr>) (db_sessions db)\<rparr>"

definition event_seqs :: "string \<Rightarrow> trace_db \<Rightarrow> nat list" where
  "event_seqs s db = map er_seq (filter (\<lambda>r. er_session r = s) (db_events db))"

definition event_row_of :: "prepared \<Rightarrow> string \<Rightarrow> string \<Rightarrow> trace_db \<Rightarrow> event_row" where
  "event_row_of p i now db =
     \<lparr>er_id = i, er_session = nv_session (pp_ev p), er_agent = nv_agent (pp_ev p), er_step = nv_step (pp_ev p),
      er_seq = sql_max (event_seqs (nv_session (pp_ev p)) db) + 1, er_ts = now, er_kind = nv_kind (pp_ev p),
      er_payload = nv_payload (pp_ev p), er_blob = pp_blob_id p\<rparr>"

definition insert_event_row :: "event_row \<Rightarrow> unit trace_op" where
  "insert_event_row r =
     t_bind (t_read (\<lambda>db. er_id r \<in> er_id ` set (db_events db))) (\<lambda>taken.
     t_then (t_require (\<not> taken) (unique_failed ''events.id''))
     (t_bind (t_read (\<lambda>db. case er_blob r of None \<Rightarrow> True | Some b \<Rightarrow> b \<in> br_id ` set (db_blobs db))) (\<lambda>known.
      t_then (t_require known fk_failed)
        (t_write (\<lambda>db. db\<lparr>db_events := db_events db @ [r]\<rparr>)))))"

definition insert_event :: "store_env \<Rightarrow> prepared \<Rightarrow> string trace_op" where
  "insert_event env p =
     (let s = nv_session (pp_ev p) in
      t_then (t_all (register_blob env) (pp_register p))
      (t_then (case pp_reference p of None \<Rightarrow> t_return () | Some i \<Rightarrow> reference_blob i)
      (t_bind (t_read (has_session s)) (\<lambda>ok.
       t_then (t_require ok (TraceNotFound ''session'' s))
       (t_bind (fresh_id env) (\<lambda>i.
        t_bind (now_ts env) (\<lambda>now.
        t_bind (t_read (event_row_of p i now)) (\<lambda>row.
        t_then (insert_event_row row)
        (t_then (t_write (session_touched s now)) (t_return i))))))))))"

section \<open>Sessions\<close>

definition create_session :: "store_env \<Rightarrow> new_session \<Rightarrow> string trace_op" where
  "create_session env s =
     t_bind (fresh_id env) (\<lambda>i.
     t_bind (now_ts env) (\<lambda>now.
     t_bind (prepare env (event_payload (jobj
        [(''title'', case ns_title s of Some t \<Rightarrow> JStr t | None \<Rightarrow> JNull),
         (''workspace_path'', case ns_workspace_path s of Some t \<Rightarrow> JStr t | None \<Rightarrow> JNull),
         (''workspace_id'', case ns_workspace_id s of Some t \<Rightarrow> JStr t | None \<Rightarrow> JNull)])
        (event_new i ''session.created''))) (\<lambda>created.
     transaction env
       (t_bind (t_read (has_session i)) (\<lambda>taken.
        t_then (t_require (\<not> taken) (unique_failed ''sessions.id''))
        (t_bind (t_read (\<lambda>db. case ns_workspace_id s of None \<Rightarrow> True | Some w \<Rightarrow> w \<in> wr_id ` set (db_workspaces db)))
          (\<lambda>known.
        t_then (t_require known fk_failed)
        (t_then (t_write (\<lambda>db. db\<lparr>db_sessions := db_sessions db @
           [\<lparr>sr_id = i, sr_created_at = now, sr_updated_at = now, sr_title = ns_title s,
             sr_title_source = map_option (\<lambda>_. title_source_str TitleUser) (ns_title s),
             sr_workspace_path = ns_workspace_path s, sr_workspace_id = ns_workspace_id s,
             sr_config = ns_config s, sr_status = SessionOpen, sr_message_count = 0,
             sr_last_agent_status = None, sr_prompt_version = None, sr_tools_hash = None\<rparr>]\<rparr>))
        (t_then (t_write (\<lambda>db. case ns_workspace_id s of
             None \<Rightarrow> db
           | Some w \<Rightarrow> db\<lparr>db_workspaces := sql_update (\<lambda>r. wr_id r = w) (\<lambda>r. r\<lparr>wr_last_used_at := now\<rparr>) (db_workspaces db)\<rparr>))
        (t_bind (insert_event env created) (\<lambda>_. t_return i)))))))))))"

definition session_by :: "string \<Rightarrow> trace_db \<Rightarrow> session_row option" where
  "session_by i db = find (\<lambda>r. sr_id r = i) (db_sessions db)"

definition get_session :: "store_env \<Rightarrow> string \<Rightarrow> session_row trace_op" where
  "get_session env i =
     t_bind (t_query env (session_by i)) (\<lambda>r. t_bind (t_found r ''session'' i) (\<lambda>r. t_lift (session_record r)))"

definition count_sessions :: "store_env \<Rightarrow> session_status \<Rightarrow> nat trace_op" where
  "count_sessions env s = t_query env (\<lambda>db. sql_count (\<lambda>r. sr_status r = s) (db_sessions db))"

text \<open>An update of the session rows that satisfy \<open>p\<close>; it is an error when there are none.\<close>

definition update_session :: "string \<Rightarrow> (session_row \<Rightarrow> bool) \<Rightarrow> (session_row \<Rightarrow> session_row) \<Rightarrow> unit trace_op" where
  "update_session i p f =
     t_bind (t_read (\<lambda>db. sql_count (\<lambda>r. sr_id r = i \<and> p r) (db_sessions db))) (\<lambda>n.
     t_then (t_write (\<lambda>db. db\<lparr>db_sessions := sql_update (\<lambda>r. sr_id r = i \<and> p r) f (db_sessions db)\<rparr>))
       (require_row n ''session'' i))"

definition set_session_status :: "store_env \<Rightarrow> string \<Rightarrow> session_status \<Rightarrow> unit trace_op" where
  "set_session_status env i s =
     t_bind (now_ts env) (\<lambda>now. transaction env
       (update_session i (\<lambda>_. True) (\<lambda>r. r\<lparr>sr_status := s, sr_updated_at := now\<rparr>)))"

text \<open>A title of another source does not replace the user's.\<close>

definition title_replaceable :: "title_source \<Rightarrow> session_row \<Rightarrow> bool" where
  "title_replaceable src r \<longleftrightarrow> sr_title_source r \<noteq> Some ''user'' \<or> src = TitleUser"

definition set_session_title :: "store_env \<Rightarrow> string \<Rightarrow> string option \<Rightarrow> title_source \<Rightarrow> bool trace_op" where
  "set_session_title env i title src =
     t_bind (now_ts env) (\<lambda>now.
     t_bind (transaction env
       (t_bind (t_read (\<lambda>db. sql_count (\<lambda>r. sr_id r = i \<and> title_replaceable src r) (db_sessions db))) (\<lambda>n.
        t_then (t_write (\<lambda>db. db\<lparr>db_sessions :=
            sql_update (\<lambda>r. sr_id r = i \<and> title_replaceable src r)
              (\<lambda>r. r\<lparr>sr_title := title, sr_title_source := Some (title_source_str src), sr_updated_at := now\<rparr>) (db_sessions db)\<rparr>))
          (t_return n)))) (\<lambda>n.
     if 0 < n then t_return True
     else t_bind (t_query env (has_session i)) (\<lambda>ok.
       if ok then t_return False else t_fail (TraceNotFound ''session'' i))))"

definition set_session_prefix :: "store_env \<Rightarrow> string \<Rightarrow> string \<Rightarrow> string \<Rightarrow> unit trace_op" where
  "set_session_prefix env i version hash = transaction env
     (update_session i (\<lambda>_. True) (\<lambda>r. r\<lparr>sr_prompt_version := Some version, sr_tools_hash := Some hash\<rparr>))"

section \<open>Agents and steps\<close>

definition opt_str :: "string option \<Rightarrow> json" where
  "opt_str s = (case s of Some t \<Rightarrow> JStr t | None \<Rightarrow> JNull)"

definition start_agent :: "store_env \<Rightarrow> new_agent \<Rightarrow> string trace_op" where
  "start_agent env a =
     t_bind (fresh_id env) (\<lambda>i.
     t_bind (prepare env (event_payload (jobj
        [(''kind'', JStr (agent_kind_str (na_kind a))), (''task_text'', opt_str (na_task_text a)),
         (''options'', na_options a), (''parent_agent_id'', opt_str (na_parent a))])
        (event_agent i (event_new (na_session a) ''agent.started'')))) (\<lambda>started.
     transaction env
       (t_bind (now_ts env) (\<lambda>now.
        t_bind (t_read (\<lambda>db. i \<in> ar_id ` set (db_agents db))) (\<lambda>taken.
        t_then (t_require (\<not> taken) (unique_failed ''agents.id''))
        (t_bind (t_read (\<lambda>db. has_session (na_session a) db \<and>
            (case na_parent a of None \<Rightarrow> True | Some p \<Rightarrow> p \<in> ar_id ` set (db_agents db)))) (\<lambda>known.
        t_then (t_require known fk_failed)
        (t_then (t_write (\<lambda>db. db\<lparr>db_agents := db_agents db @
           [\<lparr>ar_id = i, ar_session = na_session a, ar_parent = na_parent a, ar_kind = na_kind a,
             ar_created_at = now, ar_ended_at = None, ar_status = RunRunning,
             ar_task_text = na_task_text a, ar_options = na_options a\<rparr>]\<rparr>))
        (t_bind (insert_event env started) (\<lambda>_. t_return i))))))))))"

definition get_agent :: "store_env \<Rightarrow> string \<Rightarrow> agent_row trace_op" where
  "get_agent env i =
     t_bind (t_query env (\<lambda>db. find (\<lambda>r. ar_id r = i) (db_agents db))) (\<lambda>r. t_found r ''agent'' i)"

definition end_agent :: "string \<Rightarrow> run_status \<Rightarrow> string \<Rightarrow> unit trace_op" where
  "end_agent i status now =
     t_bind (t_read (\<lambda>db. sql_count (\<lambda>r. ar_id r = i) (db_agents db))) (\<lambda>n.
     t_then (t_write (\<lambda>db. db\<lparr>db_agents :=
         sql_update (\<lambda>r. ar_id r = i) (\<lambda>r. r\<lparr>ar_status := status, ar_ended_at := Some now\<rparr>) (db_agents db)\<rparr>))
       (require_row n ''agent'' i))"

definition session_ended :: "string \<Rightarrow> run_status \<Rightarrow> string \<Rightarrow> trace_db \<Rightarrow> trace_db" where
  "session_ended s status now db = db\<lparr>db_sessions :=
     sql_update (\<lambda>r. sr_id r = s) (\<lambda>r. r\<lparr>sr_last_agent_status := Some status, sr_updated_at := now\<rparr>) (db_sessions db)\<rparr>"

definition finish_agent :: "store_env \<Rightarrow> string \<Rightarrow> run_status \<Rightarrow> json option \<Rightarrow> unit trace_op" where
  "finish_agent env i status error =
     t_bind (get_agent env i) (\<lambda>a.
     t_bind (prepare env (event_payload
        (jobj ((''status'', JStr (run_status_str status)) # (case error of Some e \<Rightarrow> [(''error'', e)] | None \<Rightarrow> [])))
        (event_agent i (event_new (ar_session a) ''agent.finished'')))) (\<lambda>finished.
     transaction env
       (t_bind (now_ts env) (\<lambda>now.
        t_then (end_agent i status now)
        (t_bind (now_ts env) (\<lambda>now'.
         t_then (t_write (session_ended (ar_session a) status now'))
         (t_bind (insert_event env finished) (\<lambda>_. t_return ()))))))))"

definition list_agents :: "store_env \<Rightarrow> string \<Rightarrow> agent_row list trace_op" where
  "list_agents env s = t_query env (\<lambda>db.
     order_by (\<lambda>a b. less_pair (ar_created_at a, ar_id a) (ar_created_at b, ar_id b))
       (filter (\<lambda>r. ar_session r = s) (db_agents db)))"

definition step_seqs :: "string \<Rightarrow> trace_db \<Rightarrow> nat list" where
  "step_seqs a db = map sp_seq (filter (\<lambda>r. sp_agent r = a) (db_steps db))"

definition start_step :: "store_env \<Rightarrow> string \<Rightarrow> string trace_op" where
  "start_step env a =
     t_bind (fresh_id env) (\<lambda>i. transaction env
       (t_bind (t_read (\<lambda>db. a \<in> ar_id ` set (db_agents db))) (\<lambda>ok.
        t_then (t_require ok (TraceNotFound ''agent'' a))
        (t_bind (now_ts env) (\<lambda>now.
        t_bind (t_read (\<lambda>db. i \<in> sp_id ` set (db_steps db))) (\<lambda>taken.
        t_then (t_require (\<not> taken) (unique_failed ''steps.id''))
        (t_then (t_write (\<lambda>db. db\<lparr>db_steps := db_steps db @
           [\<lparr>sp_id = i, sp_agent = a, sp_seq = sql_max (step_seqs a db) + 1, sp_started_at = now,
             sp_ended_at = None, sp_status = RunRunning\<rparr>]\<rparr>))
          (t_return i))))))))"

definition finish_step :: "store_env \<Rightarrow> string \<Rightarrow> run_status \<Rightarrow> unit trace_op" where
  "finish_step env i status =
     t_bind (now_ts env) (\<lambda>now. transaction env
       (t_bind (t_read (\<lambda>db. sql_count (\<lambda>r. sp_id r = i) (db_steps db))) (\<lambda>n.
        t_then (t_write (\<lambda>db. db\<lparr>db_steps :=
            sql_update (\<lambda>r. sp_id r = i) (\<lambda>r. r\<lparr>sp_status := status, sp_ended_at := Some now\<rparr>) (db_steps db)\<rparr>))
          (require_row n ''step'' i))))"

definition get_step :: "store_env \<Rightarrow> string \<Rightarrow> step_row trace_op" where
  "get_step env i =
     t_bind (t_query env (\<lambda>db. find (\<lambda>r. sp_id r = i) (db_steps db))) (\<lambda>r. t_found r ''step'' i)"

definition list_steps :: "store_env \<Rightarrow> string \<Rightarrow> step_row list trace_op" where
  "list_steps env a = t_query env (\<lambda>db.
     order_by (\<lambda>x y. sp_seq x < sp_seq y) (filter (\<lambda>r. sp_agent r = a) (db_steps db)))"

section \<open>Events\<close>

definition append_event :: "store_env \<Rightarrow> new_event \<Rightarrow> string trace_op" where
  "append_event env ev = t_bind (prepare env ev) (\<lambda>p. transaction env (insert_event env p))"

definition append_all :: "store_env \<Rightarrow> new_event list \<Rightarrow> string list trace_op" where
  "append_all env evs =
     t_bind (t_each (prepare env) evs) (\<lambda>ps. transaction env (t_each (insert_event env) ps))"

text \<open>An operation whose failure is a value of its own.\<close>

definition t_catch :: "'a trace_op \<Rightarrow> (trace_error + 'a) trace_op" where
  "t_catch m = (\<lambda>st. case m st of (r, st') \<Rightarrow> (Inr r, st'))"

text \<open>A savepoint in a transaction: rolled back alone.\<close>

definition savepoint :: "'a trace_op \<Rightarrow> 'a trace_op" where
  "savepoint body = (\<lambda>st. case body st of
     (Inl e, st') \<Rightarrow> (Inl e, st'\<lparr>ts_db := ts_db st\<rparr>)
   | ok \<Rightarrow> ok)"

definition append_slot :: "store_env \<Rightarrow> trace_error + prepared \<Rightarrow> (trace_error + string) trace_op" where
  "append_slot env p =
     (case p of
        Inl e \<Rightarrow> t_return (Inl e)
      | Inr q \<Rightarrow> t_catch (savepoint (insert_event env q)))"

definition append_batch :: "store_env \<Rightarrow> new_event list \<Rightarrow> (trace_error + string) list trace_op" where
  "append_batch env evs =
     t_bind (t_each (\<lambda>ev. t_catch (prepare env ev)) evs) (\<lambda>ps.
       transaction env (t_each (append_slot env) ps))"

section \<open>Blobs\<close>

definition put_blob :: "store_env \<Rightarrow> string \<Rightarrow> string \<Rightarrow> string trace_op" where
  "put_blob env bytes mt =
     t_bind (blob_write env bytes) (\<lambda>(i, _).
     t_bind (transaction env (register_blob env (i, length bytes, mt))) (\<lambda>_. t_return i))"

definition blob_meta :: "store_env \<Rightarrow> string \<Rightarrow> blob_row trace_op" where
  "blob_meta env i =
     t_bind (t_query env (\<lambda>db. find (\<lambda>r. br_id r = i) (db_blobs db))) (\<lambda>r. t_found r ''blob'' i)"

definition prune_blob :: "store_env \<Rightarrow> string \<Rightarrow> unit trace_op" where
  "prune_blob env i =
     t_bind (now_ts env) (\<lambda>now.
     t_then (transaction env
       (t_bind (t_read (\<lambda>db. sql_count (\<lambda>r. br_id r = i \<and> br_pruned_at r = None) (db_blobs db))) (\<lambda>n.
        t_then (t_write (\<lambda>db. db\<lparr>db_blobs :=
            sql_update (\<lambda>r. br_id r = i \<and> br_pruned_at r = None) (\<lambda>r. r\<lparr>br_pruned_at := Some now\<rparr>) (db_blobs db)\<rparr>))
          (require_row n ''blob'' i))))
       (blob_remove env i))"

section \<open>Mentor calls\<close>

definition insert_mentor_call :: "store_env \<Rightarrow> mentor_call_start \<Rightarrow> unit trace_op" where
  "insert_mentor_call env c =
     t_bind (case ks_started_at c of Some t \<Rightarrow> t_return t | None \<Rightarrow> now_ts env) (\<lambda>started.
     t_bind (t_read (\<lambda>db. ks_id c \<in> kr_id ` set (db_calls db))) (\<lambda>taken.
     t_then (t_require (\<not> taken) (unique_failed ''mentor_calls.id''))
     (t_bind (t_read (\<lambda>db. ks_request_event c \<in> er_id ` set (db_events db))) (\<lambda>known.
     t_then (t_require known fk_failed)
       (t_write (\<lambda>db. db\<lparr>db_calls := db_calls db @
          [\<lparr>kr_id = ks_id c, kr_session = ks_session c, kr_agent = ks_agent c, kr_step = ks_step c,
            kr_request_event = ks_request_event c, kr_response_event = None, kr_model = ks_model c,
            kr_effort = ks_effort c, kr_started_at = started, kr_ended_at = None, kr_status = RunRunning,
            kr_stop_reason = None, kr_http_status = None, kr_input_tokens = None, kr_output_tokens = None,
            kr_cache_read_tokens = None, kr_cache_creation_tokens = None, kr_cost_micros = None,
            kr_first_byte_ms = None, kr_total_ms = None,
            kr_request_bytes = map_option to_i64 (ks_request_bytes c), kr_apprentice_applied = False,
            kr_kind = ks_kind c\<rparr>]\<rparr>))))))"

definition call_ended :: "mentor_call_end \<Rightarrow> string \<Rightarrow> call_row \<Rightarrow> call_row" where
  "call_ended c now r = r
     \<lparr>kr_response_event := ke_response_event c, kr_status := ke_status c, kr_ended_at := Some now,
      kr_stop_reason := ke_stop_reason c, kr_http_status := ke_http_status c,
      kr_input_tokens := map_option (\<lambda>u. to_i64 (unat (us_input u))) (ke_usage c),
      kr_output_tokens := map_option (\<lambda>u. to_i64 (unat (us_output u))) (ke_usage c),
      kr_cache_read_tokens := map_option (\<lambda>u. to_i64 (unat (us_cache_read u))) (ke_usage c),
      kr_cache_creation_tokens := map_option (\<lambda>u. to_i64 (unat (us_cache_creation u))) (ke_usage c),
      kr_cost_micros := map_option sint (ke_cost_micros c),
      kr_first_byte_ms := map_option to_i64 (ke_first_byte_ms c),
      kr_total_ms := map_option to_i64 (ke_total_ms c)\<rparr>"

definition update_mentor_call :: "store_env \<Rightarrow> mentor_call_end \<Rightarrow> unit trace_op" where
  "update_mentor_call env c =
     t_bind (now_ts env) (\<lambda>now.
     t_bind (t_read (\<lambda>db. sql_count (\<lambda>r. kr_id r = ke_id c) (db_calls db))) (\<lambda>n.
     t_bind (t_read (\<lambda>db. n = 0 \<or> (case ke_response_event c of None \<Rightarrow> True | Some e \<Rightarrow> e \<in> er_id ` set (db_events db))))
       (\<lambda>known.
     t_then (t_require known fk_failed)
     (t_then (t_write (\<lambda>db. db\<lparr>db_calls := sql_update (\<lambda>r. kr_id r = ke_id c) (call_ended c now) (db_calls db)\<rparr>))
       (require_row n ''mentor call'' (ke_id c))))))"

definition record_mentor_call :: "store_env \<Rightarrow> mentor_call_start \<Rightarrow> unit trace_op" where
  "record_mentor_call env c = transaction env (insert_mentor_call env c)"

definition complete_mentor_call :: "store_env \<Rightarrow> mentor_call_end \<Rightarrow> unit trace_op" where
  "complete_mentor_call env c = transaction env (update_mentor_call env c)"

definition get_mentor_call :: "store_env \<Rightarrow> string \<Rightarrow> call_row trace_op" where
  "get_mentor_call env i =
     t_bind (t_query env (\<lambda>db. find (\<lambda>r. kr_id r = i) (db_calls db))) (\<lambda>r. t_found r ''mentor call'' i)"

definition append_with_call :: "store_env \<Rightarrow> new_event \<Rightarrow> mentor_call_start \<Rightarrow> string trace_op" where
  "append_with_call env ev c =
     t_bind (prepare env ev) (\<lambda>p. transaction env
       (t_bind (insert_event env p) (\<lambda>i.
        t_then (insert_mentor_call env (c\<lparr>ks_request_event := i\<rparr>)) (t_return i))))"

definition append_with_completion ::
  "store_env \<Rightarrow> new_event list \<Rightarrow> mentor_call_end \<Rightarrow> bool \<Rightarrow> string list trace_op" where
  "append_with_completion env evs c link_first =
     t_bind (t_each (prepare env) evs) (\<lambda>ps. transaction env
       (t_bind (t_each (insert_event env) ps) (\<lambda>ids.
        t_then (update_mentor_call env
            (c\<lparr>ke_response_event :=
                 (if link_first then (case ids of [] \<Rightarrow> None | i # _ \<Rightarrow> Some i) else ke_response_event c)\<rparr>))
          (t_return ids))))"

section \<open>Workspaces\<close>

definition is_sep :: "char \<Rightarrow> bool" where
  "is_sep c \<longleftrightarrow> c = CHR ''/'' \<or> c = CHR 0x5C"

text \<open>The last component of the root, or the whole of it.\<close>

definition default_workspace_name :: "string \<Rightarrow> string" where
  "default_workspace_name root =
     (let trimmed = rev (dropWhile is_sep (rev root));
          name = rev (takeWhile (\<lambda>c. \<not> is_sep c) (rev trimmed))
      in if name = [] then root else name)"

definition add_workspace :: "store_env \<Rightarrow> string \<Rightarrow> string option \<Rightarrow> workspace_row trace_op" where
  "add_workspace env root name = transaction env
     (t_bind (now_ts env) (\<lambda>now.
      t_bind (t_read (\<lambda>db. map_option wr_id (find (\<lambda>r. wr_root r = root) (db_workspaces db)))) (\<lambda>existing.
      t_bind (case existing of
          Some i \<Rightarrow>
            t_then (t_write (\<lambda>db. db\<lparr>db_workspaces :=
                sql_update (\<lambda>r. wr_id r = i) (\<lambda>r. r\<lparr>wr_last_used_at := now\<rparr>) (db_workspaces db)\<rparr>))
              (t_return i)
        | None \<Rightarrow>
            t_bind (fresh_id env) (\<lambda>i.
            t_bind (t_read (\<lambda>db. i \<in> wr_id ` set (db_workspaces db))) (\<lambda>taken.
            t_then (t_require (\<not> taken) (unique_failed ''workspaces.id''))
            (t_then (t_write (\<lambda>db. db\<lparr>db_workspaces := db_workspaces db @
                [\<lparr>wr_id = i, wr_root = root,
                  wr_name = (case name of
                      Some n \<Rightarrow> (if trim n = [] then default_workspace_name root else n)
                    | None \<Rightarrow> default_workspace_name root),
                  wr_created_at = now, wr_last_used_at = now, wr_settings = JObj []\<rparr>]\<rparr>))
              (t_return i))))) (\<lambda>i.
      t_bind (t_read (\<lambda>db. find (\<lambda>r. wr_id r = i) (db_workspaces db))) (\<lambda>r.
        case r of Some w \<Rightarrow> t_return w | None \<Rightarrow> t_fail (TraceSqlite ''Query returned no rows''))))))"

definition get_workspace :: "store_env \<Rightarrow> string \<Rightarrow> workspace_row trace_op" where
  "get_workspace env i =
     t_bind (t_query env (\<lambda>db. find (\<lambda>r. wr_id r = i) (db_workspaces db))) (\<lambda>r. t_found r ''workspace'' i)"

definition find_workspace :: "store_env \<Rightarrow> string \<Rightarrow> workspace_row option trace_op" where
  "find_workspace env root = t_query env (\<lambda>db. find (\<lambda>r. wr_root r = root) (db_workspaces db))"

definition list_workspaces :: "store_env \<Rightarrow> workspace_row list trace_op" where
  "list_workspaces env = t_query env (\<lambda>db.
     order_by (\<lambda>a b. less_pair (wr_last_used_at b, wr_id b) (wr_last_used_at a, wr_id a)) (db_workspaces db))"

definition update_workspace :: "store_env \<Rightarrow> string \<Rightarrow> (workspace_row \<Rightarrow> workspace_row) \<Rightarrow> unit trace_op" where
  "update_workspace env i f = transaction env
     (t_bind (t_read (\<lambda>db. sql_count (\<lambda>r. wr_id r = i) (db_workspaces db))) (\<lambda>n.
      t_then (t_write (\<lambda>db. db\<lparr>db_workspaces := sql_update (\<lambda>r. wr_id r = i) f (db_workspaces db)\<rparr>))
        (require_row n ''workspace'' i)))"

definition touch_workspace :: "store_env \<Rightarrow> string \<Rightarrow> unit trace_op" where
  "touch_workspace env i =
     t_bind (now_ts env) (\<lambda>now. update_workspace env i (\<lambda>r. r\<lparr>wr_last_used_at := now\<rparr>))"

definition rename_workspace :: "store_env \<Rightarrow> string \<Rightarrow> string \<Rightarrow> unit trace_op" where
  "rename_workspace env i name = update_workspace env i (\<lambda>r. r\<lparr>wr_name := name\<rparr>)"

definition set_workspace_settings :: "store_env \<Rightarrow> string \<Rightarrow> json \<Rightarrow> unit trace_op" where
  "set_workspace_settings env i settings = update_workspace env i (\<lambda>r. r\<lparr>wr_settings := settings\<rparr>)"

definition remove_workspace :: "store_env \<Rightarrow> string \<Rightarrow> nat trace_op" where
  "remove_workspace env i = transaction env
     (t_bind (t_read (\<lambda>db. (sql_count (\<lambda>r. sr_workspace_id r = Some i) (db_sessions db),
                           sql_count (\<lambda>r. wr_id r = i) (db_workspaces db)))) (\<lambda>(unlinked, n).
      t_then (t_write (\<lambda>db. db
         \<lparr>db_sessions := sql_update (\<lambda>r. sr_workspace_id r = Some i) (\<lambda>r. r\<lparr>sr_workspace_id := None\<rparr>) (db_sessions db),
          db_workspaces := filter (\<lambda>r. wr_id r \<noteq> i) (db_workspaces db)\<rparr>))
        (t_then (require_row n ''workspace'' i) (t_return unlinked))))"

end
