(* ===== verification/Agent_Events.thy ===== *)
theory Agent_Events
  imports Trace_Types
begin

text \<open>
  \<open>crates/api/src/events.rs\<close>: what the daemon tells its clients while an agent runs. A cost is kept
  in micro-dollars (\<open>micros_to_usd\<close> divides it by a million on the way out).
\<close>

datatype agent_status = StatusOk | StatusCancelled | StatusError

datatype step_phase = PhaseMentor | PhaseTools

datatype tool_stream = StreamStdout | StreamStderr

datatype log_level = LogDebug | LogInfo | LogWarn | LogError

record tool_result_event =
  tv_call_id :: string
  tv_name :: string
  tv_ok :: bool
  tv_summary :: string
  tv_blob_id :: "string option"
  tv_mentor_bytes :: nat
  tv_event_id :: "string option"

record usage_event =
  uv_call_id :: string
  uv_usage :: usage
  uv_cost :: "u64 option"
  uv_session_usage :: usage
  uv_session_cost :: "u64 option"
  uv_session_calls :: u64

record permission_request_event =
  pv_request_id :: string
  pv_tool :: string
  pv_input :: json
  pv_risk :: risk
  pv_description :: string
  pv_command :: "string option"
  pv_paths :: "string list"
  pv_suggested_rules :: "rule_spec list"
  pv_timeout_s :: nat

record permission_decision_event =
  dv_call_id :: string
  dv_tool :: string
  dv_decision :: permission_decision
  dv_source :: permission_source
  dv_request_id :: "string option"
  dv_rule_ref :: "string option"
  dv_reason :: "string option"

text \<open>The first field of an agent's event is its id.\<close>

datatype agent_event =
    AgentStarted string string
  | AgentTextDelta string string
  | AgentThinkingDelta string string
  | AgentStep string nat step_phase
  | AgentToolCall string string string json
  | AgentToolProgress string string tool_stream string
  | AgentToolResult string tool_result_event
  | AgentUsage string usage_event
  | AgentWarning string string string
  | AgentOutcome string string string string "bool option" json
  | AgentWaiting string string string nat
  | AgentFinished string agent_status "rpc_error option" bool
  | PermissionRequestEvent string permission_request_event
  | PermissionDecisionEvent string permission_decision_event
  | LogEvent log_level string
  | UnknownEvent json

text \<open>\<open>is_terminal\<close>: the event that ends its subscription.\<close>

definition event_terminal :: "agent_event \<Rightarrow> bool" where
  "event_terminal e = (case e of AgentFinished _ _ _ _ \<Rightarrow> True | _ \<Rightarrow> False)"

definition event_warn :: "string \<Rightarrow> agent_event" where
  "event_warn m = LogEvent LogWarn m"

end
