(* ===== verification/Outcomes.thy ===== *)
theory Outcomes
  imports Agent_Events
begin

text \<open>
  \<open>crates/core/src/outcomes/\<close>: the signals recorded for a run (\<open>mod.rs\<close>), which commands are test
  runs or builds, and how their output is counted (\<open>runners.rs\<close>). The \<open>regex\<close> engine is a parameter:
  \<open>rl_captures p text\<close> is what \<open>captures_iter\<close> of pattern \<open>p\<close> yields, group 0 first;
  \<open>rl_word_char\<close> tells whether every character of a word is alphanumeric (in Unicode) or an underscore.
\<close>

section \<open>Runners\<close>

datatype runner = Cargo | Pytest | Node | GoTest

definition runner_name :: "runner \<Rightarrow> string" where
  "runner_name r = (case r of Cargo \<Rightarrow> ''cargo'' | Pytest \<Rightarrow> ''pytest'' | Node \<Rightarrow> ''node'' | GoTest \<Rightarrow> ''go'')"

definition runner_all :: "runner list" where
  "runner_all = [Cargo, Pytest, Node, GoTest]"

definition runner_from_name :: "string \<Rightarrow> runner option" where
  "runner_from_name name = find (\<lambda>r. runner_name r = name) runner_all"

record test_counts =
  tk_passed :: nat
  tk_failed :: nat
  tk_skipped :: nat
  tk_recognised :: bool
  tk_unit :: "string option"

definition counts_default :: test_counts where
  "counts_default = \<lparr>tk_passed = 0, tk_failed = 0, tk_skipped = 0, tk_recognised = False, tk_unit = None\<rparr>"

datatype pattern =
    LibTest | NexTest | PytestSummary | PytestPart | NodeLine | NodePart | GoTestLine | GoPackage

record runner_lib =
  rl_captures :: "pattern \<Rightarrow> string \<Rightarrow> (string option list) list"
  rl_word_char :: "string \<Rightarrow> bool"

definition group :: "nat \<Rightarrow> string option list \<Rightarrow> string" where
  "group i c = (if i < length c then (case c ! i of Some s \<Rightarrow> s | None \<Rightarrow> []) else [])"

text \<open>\<open>parse::<u64>\<close> of the digits a group matched, 0 when it did not or they do not fit.\<close>

fun digits_value :: "nat \<Rightarrow> string \<Rightarrow> nat option" where
  "digits_value n [] = Some n"
| "digits_value n (c # cs) = (if ascii_digit c then digits_value (10 * n + (of_char c - 48)) cs else None)"

definition num :: "string option list \<Rightarrow> nat \<Rightarrow> nat" where
  "num c i =
     (if group i c = [] then 0
      else case digits_value 0 (group i c) of Some n \<Rightarrow> (if n < 2 ^ 64 then n else 0) | None \<Rightarrow> 0)"

definition add_counts :: "nat \<Rightarrow> nat \<Rightarrow> nat \<Rightarrow> test_counts \<Rightarrow> test_counts" where
  "add_counts p f s k = k
     \<lparr>tk_passed := tk_passed k + p, tk_failed := tk_failed k + f, tk_skipped := tk_skipped k + s,
      tk_recognised := True\<rparr>"

definition parse_cargo :: "runner_lib \<Rightarrow> string \<Rightarrow> test_counts" where
  "parse_cargo lib out =
     (let k = foldl (\<lambda>k c. add_counts (num c 1) (num c 2) (num c 3) k) counts_default (rl_captures lib LibTest out);
          nx = rl_captures lib NexTest out
      in if \<not> tk_recognised k \<and> nx \<noteq> [] then
           k\<lparr>tk_recognised := True, tk_passed := num (last nx) 2, tk_failed := num (last nx) 3,
             tk_skipped := num (last nx) 4\<rparr>
         else k)"

definition pytest_part :: "test_counts \<Rightarrow> string option list \<Rightarrow> test_counts" where
  "pytest_part k c =
     (let n = num c 1; w = group 2 c in
      if w \<in> {''passed'', ''xpassed''} then k\<lparr>tk_passed := tk_passed k + n\<rparr>
      else if w \<in> {''failed'', ''error'', ''errors''} then k\<lparr>tk_failed := tk_failed k + n\<rparr>
      else if w \<in> {''skipped'', ''xfailed''} then k\<lparr>tk_skipped := tk_skipped k + n\<rparr>
      else k)"

definition parse_pytest :: "runner_lib \<Rightarrow> string \<Rightarrow> test_counts" where
  "parse_pytest lib out =
     (let rows = rl_captures lib PytestSummary out in
      if rows = [] then counts_default
      else foldl pytest_part (counts_default\<lparr>tk_recognised := True\<rparr>)
             (rl_captures lib PytestPart (group 1 (last rows))))"

definition node_part :: "test_counts \<Rightarrow> string option list \<Rightarrow> test_counts" where
  "node_part k c =
     (let n = num c 1; w = group 2 c in
      if w = ''passed'' then k\<lparr>tk_passed := tk_passed k + n\<rparr>
      else if w = ''failed'' then k\<lparr>tk_failed := tk_failed k + n\<rparr>
      else if w \<in> {''skipped'', ''todo'', ''pending''} then k\<lparr>tk_skipped := tk_skipped k + n\<rparr>
      else k)"

definition parse_node :: "runner_lib \<Rightarrow> string \<Rightarrow> test_counts" where
  "parse_node lib out =
     (let rows = filter (\<lambda>c. rl_captures lib NodePart (group 1 c) \<noteq> []) (rl_captures lib NodeLine out) in
      if rows = [] then counts_default
      else foldl node_part (counts_default\<lparr>tk_recognised := True\<rparr>)
             (rl_captures lib NodePart (group 1 (last rows))))"

definition go_count :: "string \<Rightarrow> string \<Rightarrow> string option list \<Rightarrow> test_counts \<Rightarrow> test_counts" where
  "go_count pass fail c k =
     (if group 1 c = pass then add_counts 1 0 0 k
      else if group 1 c = fail then add_counts 0 1 0 k
      else add_counts 0 0 1 k)"

definition parse_go :: "runner_lib \<Rightarrow> string \<Rightarrow> test_counts" where
  "parse_go lib out =
     (let k = foldl (\<lambda>k c. go_count ''PASS'' ''FAIL'' c k) counts_default (rl_captures lib GoTestLine out) in
      if tk_recognised k then k
      else foldl (\<lambda>k c. (go_count ''ok'' ''FAIL'' c k)\<lparr>tk_unit := Some ''packages''\<rparr>) k
             (rl_captures lib GoPackage out))"

definition runner_parse :: "runner_lib \<Rightarrow> runner \<Rightarrow> string \<Rightarrow> test_counts" where
  "runner_parse lib r out =
     (case r of Cargo \<Rightarrow> parse_cargo lib out | Pytest \<Rightarrow> parse_pytest lib out
      | Node \<Rightarrow> parse_node lib out | GoTest \<Rightarrow> parse_go lib out)"

section \<open>Which runner a directory uses\<close>

record detected =
  de_runner :: runner
  de_command :: string
  de_because :: string

text \<open>\<open>is_file\<close> tells which names are files of the directory, \<open>package\<close> what package.json parses to.\<close>

definition has_test_script :: "json option \<Rightarrow> bool" where
  "has_test_script package =
     (case package of
        None \<Rightarrow> False
      | Some v \<Rightarrow> as_str (jindex ''test'' (jindex ''scripts'' v)) \<noteq> None)"

definition detect_runner :: "(string \<Rightarrow> bool) \<Rightarrow> json option \<Rightarrow> detected option" where
  "detect_runner is_file package =
     (if is_file ''Cargo.toml'' then
        Some \<lparr>de_runner = Cargo, de_command = ''cargo test'', de_because = ''Cargo.toml''\<rparr>
      else if has_test_script package then
        Some \<lparr>de_runner = Node,
              de_command = (if is_file ''yarn.lock'' then ''yarn''
                            else if is_file ''package-lock.json'' then ''npm'' else ''pnpm'') @ '' test'',
              de_because = ''package.json''\<rparr>
      else if is_file ''pyproject.toml'' then
        Some \<lparr>de_runner = Pytest, de_command = (if is_file ''uv.lock'' then ''uv run pytest'' else ''pytest''),
              de_because = ''pyproject.toml''\<rparr>
      else if is_file ''go.mod'' then
        Some \<lparr>de_runner = GoTest, de_command = ''go test ./...'', de_because = ''go.mod''\<rparr>
      else None)"

section \<open>Which commands are test runs\<close>

datatype command_kind = CommandTests "runner option" | CommandBuild

text \<open>\<open>split(pat)\<close> at a two-character separator.\<close>

fun split_str2 :: "char \<Rightarrow> char \<Rightarrow> string \<Rightarrow> string list" where
  "split_str2 a b (x # y # s) =
     (if x = a \<and> y = b then [] # split_str2 a b s
      else case split_str2 a b (y # s) of w # ws \<Rightarrow> (x # w) # ws | [] \<Rightarrow> [[x]])"
| "split_str2 a b s = [s]"

definition split_chain :: "string \<Rightarrow> string list" where
  "split_chain command =
     filter (\<lambda>s. s \<noteq> []) (map trim
       (concat (map (split_str2 CHR ''|'' CHR ''|'')
       (concat (map (split_str2 CHR ''&'' CHR ''&'')
       (split_on CHR '';'' (replace_char (CHR 0x0A) CHR '';'' command)))))))"

definition is_assignment :: "runner_lib \<Rightarrow> string \<Rightarrow> bool" where
  "is_assignment lib w =
     (CHR ''='' \<in> set w \<and> takeWhile (\<lambda>c. c \<noteq> CHR ''='') w \<noteq> [] \<and>
      rl_word_char lib (takeWhile (\<lambda>c. c \<noteq> CHR ''='') w))"

definition command_words :: "runner_lib \<Rightarrow> string \<Rightarrow> string list" where
  "command_words lib segment = dropWhile (is_assignment lib) (split_whitespace segment)"

text \<open>\<open>Path::file_name\<close> of the first word, without \<open>.exe\<close>.\<close>

definition file_name :: "string \<Rightarrow> string" where
  "file_name p =
     (let parts = filter (\<lambda>s. s \<noteq> [] \<and> s \<noteq> ''.'') (split_on CHR ''/'' p) in
      if parts = [] \<or> last parts = ''..'' then p else last parts)"

definition program_name :: "string \<Rightarrow> string" where
  "program_name w =
     (case strip_suffix (file_name w) ''.exe'' of Some s \<Rightarrow> s | None \<Rightarrow> file_name w)"

definition sub_command :: "string list \<Rightarrow> string list \<Rightarrow> string option" where
  "sub_command rest known = find (\<lambda>a. a \<in> set known) rest"

definition pytest_kind :: "string list \<Rightarrow> command_kind" where
  "pytest_kind rest =
     (if ''--collect-only'' \<in> set rest \<or> ''--co'' \<in> set rest then CommandBuild else CommandTests (Some Pytest))"

fun has_module_pytest :: "string list \<Rightarrow> bool" where
  "has_module_pytest (a # b # ws) \<longleftrightarrow> a = ''-m'' \<and> b = ''pytest'' \<or> has_module_pytest (b # ws)"
| "has_module_pytest _ \<longleftrightarrow> False"

definition cargo_commands :: "string list" where
  "cargo_commands = [''test'', ''t'', ''nextest'', ''build'', ''b'', ''check'', ''c'', ''clippy'', ''run'', ''r'',
     ''fmt'', ''doc'', ''bench'', ''install'', ''publish'', ''add'', ''remove'', ''update'', ''new'', ''init'',
     ''clean'']"

definition go_commands :: "string list" where
  "go_commands = [''test'', ''build'', ''vet'', ''run'', ''generate'', ''mod'', ''get'', ''install'']"

definition node_commands :: "string list" where
  "node_commands = [''test'', ''t'', ''vitest'', ''jest'', ''run'', ''build'', ''typecheck'', ''install'', ''i'',
     ''add'', ''exec'', ''dlx'', ''start'', ''dev'']"

definition node_script :: "string list \<Rightarrow> command_kind option" where
  "node_script rest =
     (case dropWhile (\<lambda>a. a \<noteq> ''run'') rest of
        _ # s # _ \<Rightarrow>
          (if s \<in> {''test'', ''test:unit'', ''test:ci'', ''vitest'', ''jest''} then Some (CommandTests (Some Node))
           else if s \<in> {''build'', ''typecheck'', ''lint'', ''check''} then Some CommandBuild
           else None)
      | _ \<Rightarrow> None)"

text \<open>The programs that do not run another one.\<close>

definition classify_program :: "string \<Rightarrow> string list \<Rightarrow> command_kind option" where
  "classify_program first rest =
     (if first = ''cargo'' then
        (case sub_command rest cargo_commands of
           Some s \<Rightarrow>
             (if s \<in> {''test'', ''t'', ''nextest''} then Some (CommandTests (Some Cargo))
              else if s \<in> {''build'', ''b'', ''check'', ''c'', ''clippy''} then Some CommandBuild else None)
         | None \<Rightarrow> None)
      else if first \<in> {''pytest'', ''py.test''} then Some (pytest_kind rest)
      else if first \<in> {''python'', ''python3'', ''py''} then
        (if has_module_pytest rest then Some (pytest_kind rest) else None)
      else if first = ''go'' then
        (case sub_command rest go_commands of
           Some s \<Rightarrow>
             (if s = ''test'' then Some (CommandTests (Some GoTest))
              else if s \<in> {''build'', ''vet''} then Some CommandBuild else None)
         | None \<Rightarrow> None)
      else if first \<in> {''pnpm'', ''npm'', ''yarn'', ''bun''} then
        (case sub_command rest node_commands of
           Some s \<Rightarrow>
             (if s \<in> {''test'', ''t'', ''vitest'', ''jest''} then Some (CommandTests (Some Node))
              else if s = ''run'' then node_script rest
              else if s \<in> {''build'', ''typecheck''} then Some CommandBuild else None)
         | None \<Rightarrow> None)
      else if first \<in> {''npx'', ''pnpx'', ''bunx''} then
        (case sub_command rest [''vitest'', ''jest'', ''tsc''] of
           Some s \<Rightarrow> Some (if s = ''tsc'' then CommandBuild else CommandTests (Some Node))
         | None \<Rightarrow> None)
      else if first \<in> {''vitest'', ''jest''} then Some (CommandTests (Some Node))
      else if first = ''tsc'' then Some CommandBuild
      else if first \<in> {''just'', ''make''} then
        (case sub_command rest [''test'', ''tests'', ''build'', ''check''] of
           Some s \<Rightarrow> Some (if s \<in> {''test'', ''tests''} then CommandTests None else CommandBuild)
         | None \<Rightarrow> None)
      else None)"

fun suffixes_of :: "'a list \<Rightarrow> 'a list list" where
  "suffixes_of [] = []"
| "suffixes_of (x # xs) = (x # xs) # suffixes_of xs"

fun first_some :: "('a \<Rightarrow> 'b option) \<Rightarrow> 'a list \<Rightarrow> 'b option" where
  "first_some f [] = None"
| "first_some f (x # xs) = (case f x of Some y \<Rightarrow> Some y | None \<Rightarrow> first_some f xs)"

lemma first_some_cong [fundef_cong]:
  "xs = ys \<Longrightarrow> (\<And>x. x \<in> set ys \<Longrightarrow> f x = g x) \<Longrightarrow> first_some f xs = first_some g ys"
  by (induction ys arbitrary: xs) (auto split: option.split)

text \<open>Joined again, later words are shorter than the text they come from.\<close>

definition words_weight :: "string list \<Rightarrow> nat" where
  "words_weight ws = sum_list (map (\<lambda>w. Suc (length w)) ws)"

lemma words_weight_split: "words_weight (split_ws_go cur s) \<le> length cur + length s + 1"
proof (induction cur s rule: split_ws_go.induct)
  case (1 cur s)
  show ?case
  proof (cases s)
    case Nil
    then show ?thesis by (simp add: split_ws_go.simps [of cur "[]"] words_weight_def)
  next
    case (Cons c s')
    show ?thesis
    proof (cases "0 < ws_len s")
      case True
      with 1(1) [OF Cons] have "words_weight (split_ws_go [] (drop (ws_len s) s)) \<le> length s - ws_len s + 1"
        by simp
      moreover have "ws_len s \<le> length s" by (rule ws_len_le)
      ultimately show ?thesis
        using True Cons by (subst split_ws_go.simps) (auto simp: words_weight_def)
    next
      case False
      with 1(2) [OF Cons] Cons show ?thesis by (subst split_ws_go.simps) simp
    qed
  qed
qed

lemma length_join: "ws \<noteq> [] \<Longrightarrow> Suc (length (join_with '' '' ws)) = words_weight ws"
  by (induction "'' ''" ws rule: join_with.induct) (simp_all add: words_weight_def)

lemma words_weight_dropWhile: "words_weight (dropWhile p ws) \<le> words_weight ws"
  by (induction ws) (simp_all add: words_weight_def)

lemma words_weight_suffixes: "ws \<in> set (suffixes_of vs) \<Longrightarrow> ws \<noteq> [] \<and> words_weight ws \<le> words_weight vs"
  by (induction vs) (auto simp: words_weight_def)

lemma later_words_shorter:
  assumes "w # rest = command_words lib segment" "x # after = dropWhile p rest" "ws \<in> set (suffixes_of after)"
  shows "length (join_with '' '' ws) < length segment"
proof -
  have "words_weight (w # rest) \<le> length segment + 1"
    using words_weight_dropWhile [of "is_assignment lib" "split_whitespace segment"]
      words_weight_split [of "[]" segment]
    unfolding assms(1) command_words_def by (simp add: split_whitespace_def)
  moreover have "words_weight (x # after) \<le> words_weight rest"
    unfolding assms(2) by (rule words_weight_dropWhile)
  moreover have "ws \<noteq> []" "words_weight ws \<le> words_weight after"
    using words_weight_suffixes [OF assms(3)] by simp_all
  ultimately show ?thesis using length_join [of ws] by (simp add: words_weight_def)
qed

text \<open>\<open>uv run\<close> and its like classify what they run, from each word after \<open>run\<close> on.\<close>

function classify_segment :: "runner_lib \<Rightarrow> string \<Rightarrow> command_kind option" where
  "classify_segment lib segment =
     (case command_words lib segment of
        [] \<Rightarrow> None
      | w # rest \<Rightarrow>
          (if program_name w \<in> {''uv'', ''poetry'', ''pipenv'', ''hatch'', ''pdm''} then
             (case dropWhile (\<lambda>a. a \<noteq> ''run'') rest of
                [] \<Rightarrow> None
              | _ # after \<Rightarrow>
                  first_some (\<lambda>ws. classify_segment lib (join_with '' '' ws)) (suffixes_of after))
           else classify_program (program_name w) rest))"
  by pat_completeness auto
termination
  by (relation "measure (length \<circ> snd)") (simp, simp add: later_words_shorter [OF sym sym])

declare classify_segment.simps [simp del]

definition classify_command :: "runner_lib \<Rightarrow> string \<Rightarrow> command_kind option" where
  "classify_command lib command =
     (let kinds = List.map_filter (classify_segment lib) (split_chain command);
          tests = List.map_filter (\<lambda>k. case k of CommandTests r \<Rightarrow> Some r | CommandBuild \<Rightarrow> None) kinds
      in if tests \<noteq> [] then Some (CommandTests (last tests))
         else if CommandBuild \<in> set kinds then Some CommandBuild else None)"

definition ascii_runner_lib :: runner_lib where
  "ascii_runner_lib = \<lparr>rl_captures = (\<lambda>_ _. []),
     rl_word_char = list_all (\<lambda>c. ascii_lower c \<or> ascii_digit c \<or> c = CHR ''_'')\<rparr>"

lemma classify_demo:
  "classify_command ascii_runner_lib ''x=1 uv run --directory ml python3 -m pytest -q'' = Some (CommandTests (Some Pytest))"
  "classify_command ascii_runner_lib ''cargo build && cargo fmt'' = Some CommandBuild"
  "classify_command ascii_runner_lib ''uv run'' = None"
  by code_simp+

section \<open>Outcomes\<close>

record signal =
  sg_kind :: string
  sg_details :: json

record run_facts =
  rf_command :: string
  rf_exit_code :: "int option"
  rf_duration_ms :: nat
  rf_killed :: bool

definition label_kinds :: "string list" where
  "label_kinds = [''tests'', ''user_accept'', ''user_reject'', ''task_done'']"

definition opt_int :: "int option \<Rightarrow> json" where
  "opt_int v = (case v of Some i \<Rightarrow> JInt i | None \<Rightarrow> JNull)"

definition outcome_tests :: "runner_lib \<Rightarrow> runner option \<Rightarrow> string \<Rightarrow> run_facts \<Rightarrow> string \<Rightarrow> signal" where
  "outcome_tests lib r out f src =
     (let k = (case r of Some x \<Rightarrow> runner_parse lib x out | None \<Rightarrow> counts_default) in
      \<lparr>sg_kind = ''tests'', sg_details = jobj
         ([(''runner'', case r of Some x \<Rightarrow> JStr (runner_name x) | None \<Rightarrow> JNull),
           (''passed'', JInt (int (tk_passed k))), (''failed'', JInt (int (tk_failed k))),
           (''skipped'', JInt (int (tk_skipped k))), (''exit_code'', opt_int (rf_exit_code f)),
           (''duration_ms'', JInt (int (rf_duration_ms f))), (''command'', JStr (rf_command f)),
           (''source'', JStr src), (''parsed'', JBool (tk_recognised k))]
          @ (case tk_unit k of Some u \<Rightarrow> [(''unit'', JStr u)] | None \<Rightarrow> [])
          @ (if rf_killed f then [(''killed'', JBool True)] else []))\<rparr>)"

definition outcome_build :: "run_facts \<Rightarrow> signal" where
  "outcome_build f =
     \<lparr>sg_kind = ''build'', sg_details = jobj
        ([(''ok'', JBool (rf_exit_code f = Some 0)), (''exit_code'', opt_int (rf_exit_code f)),
          (''duration_ms'', JInt (int (rf_duration_ms f))), (''command'', JStr (rf_command f))]
         @ (if rf_killed f then [(''killed'', JBool True)] else []))\<rparr>"

definition outcome_error :: "string \<Rightarrow> json \<Rightarrow> signal" where
  "outcome_error kind extra =
     \<lparr>sg_kind = ''error'', sg_details = jobj ((''kind'', JStr kind) # (case extra of JObj fs \<Rightarrow> fs | _ \<Rightarrow> []))\<rparr>"

definition outcome_reverted :: "string list \<Rightarrow> string \<Rightarrow> signal" where
  "outcome_reverted files at_agent =
     \<lparr>sg_kind = ''reverted'', sg_details = jobj [(''files'', JArr (map JStr files)), (''at_agent'', JStr at_agent)]\<rparr>"

text \<open>\<open>mark\<close>: the kind is the mark's own, the note kept when it says something.\<close>

definition outcome_mark :: "string \<Rightarrow> string option \<Rightarrow> signal" where
  "outcome_mark kind note =
     \<lparr>sg_kind = kind, sg_details = jobj
        (case note of
           Some n \<Rightarrow> (if trim n = [] then [] else [(''note'', JStr (trim n))])
         | None \<Rightarrow> [])\<rparr>"

definition signal_payload :: "signal \<Rightarrow> json" where
  "signal_payload g = jobj [(''kind'', JStr (sg_kind g)), (''details'', sg_details g)]"

definition signal_event :: "signal \<Rightarrow> string \<Rightarrow> string \<Rightarrow> new_event" where
  "signal_event g session agent =
     event_payload (signal_payload g) (event_agent agent (event_new session ''outcome''))"

definition signal_event_at :: "signal \<Rightarrow> step_ref \<Rightarrow> new_event" where
  "signal_event_at g at = event_payload (signal_payload g) (step_event at ''outcome'')"

text \<open>This module's \<open>one_line\<close>: the first characters of the words on one line, then an ellipsis.\<close>

definition cut_line :: "string \<Rightarrow> nat \<Rightarrow> string" where
  "cut_line t n =
     (let flat = join_with '' '' (split_whitespace t) in
      if char_count flat \<le> n then flat else take_chars n flat @ ellipsis)"

definition as_int :: "json \<Rightarrow> int option" where
  "as_int v = (case v of JInt i \<Rightarrow> (if - (2 ^ 63) \<le> i \<and> i < 2 ^ 63 then Some i else None) | _ \<Rightarrow> None)"

definition nat_at :: "string \<Rightarrow> json \<Rightarrow> nat" where
  "nat_at k d = (case as_u64 (jindex k d) of Some n \<Rightarrow> n | None \<Rightarrow> 0)"

definition array_len :: "json \<Rightarrow> nat" where
  "array_len v = (case v of JArr vs \<Rightarrow> length vs | _ \<Rightarrow> 0)"

definition show_int :: "int \<Rightarrow> string" where
  "show_int i = (if i < 0 then CHR ''-'' # show_nat (nat (- i)) else show_nat (nat i))"

definition exit_text :: "json \<Rightarrow> string \<Rightarrow> string" where
  "exit_text d ok_word =
     (case as_int (jindex ''exit_code'' d) of
        Some c \<Rightarrow> (if c = 0 then ok_word else ''exit '' @ show_int c)
      | None \<Rightarrow> (if as_bool (jindex ''killed'' d) = Some True then ''killed'' else ''no exit status''))"

definition command_text :: "json \<Rightarrow> string" where
  "command_text d =
     (case as_str (jindex ''command'' d) of Some c \<Rightarrow> '' ('' @ cut_line c 60 @ '')'' | None \<Rightarrow> [])"

definition file_count :: "json \<Rightarrow> string \<Rightarrow> nat" where
  "file_count d k =
     (case as_u64 (jindex k (jindex ''counts'' d)) of Some n \<Rightarrow> n | None \<Rightarrow> array_len (jindex k d))"

definition plural :: "nat \<Rightarrow> string" where
  "plural n = (if n = 1 then [] else ''s'')"

definition describe_files :: "json \<Rightarrow> string" where
  "describe_files d =
     (let total = file_count d ''changed'' + file_count d ''added'' + file_count d ''deleted'';
          parts = filter (\<lambda>(n, _). 0 < n) (map (\<lambda>k. (file_count d k, k)) [''changed'', ''added'', ''deleted''])
      in case parts of
           [] \<Rightarrow> ''no files changed''
         | [(n, what)] \<Rightarrow> show_nat n @ '' file'' @ plural total @ '' '' @ what
         | many \<Rightarrow> show_nat total @ '' file'' @ plural total @ '' (''
                    @ join_with '', '' (map (\<lambda>(n, what). show_nat n @ '' '' @ what) many) @ '')'')"

definition describe_tests :: "json \<Rightarrow> string \<times> bool option" where
  "describe_tests d =
     (let exit_ok = (as_int (jindex ''exit_code'' d) = Some 0) in
      if as_bool (jindex ''parsed'' d) = Some True then
        (join_with '', ''
           ([show_nat (nat_at ''passed'' d) @ '' passed'']
            @ (if 0 < nat_at ''failed'' d then [show_nat (nat_at ''failed'' d) @ '' failed''] else [])
            @ (if 0 < nat_at ''skipped'' d then [show_nat (nat_at ''skipped'' d) @ '' skipped''] else []))
         @ (case as_str (jindex ''unit'' d) of Some u \<Rightarrow> '' '' @ u | None \<Rightarrow> [])
         @ (if exit_ok then [] else '', '' @ exit_text d ''exit 0'') @ command_text d,
         Some (exit_ok \<and> nat_at ''failed'' d = 0))
      else (''tests: '' @ exit_text d ''passed'' @ command_text d, Some exit_ok))"

definition em_dash :: string where
  "em_dash = [CHR 0xE2, CHR 0x80, CHR 0x94]"

definition describe_error :: "json \<Rightarrow> string" where
  "describe_error d =
     ''error: '' @ (case as_str (jindex ''kind'' d) of Some k \<Rightarrow> k | None \<Rightarrow> ''error'')
     @ (case as_str (jindex ''message'' d) of
          Some m \<Rightarrow> (if m = [] then [] else '' '' @ em_dash @ '' '' @ cut_line m 120)
        | None \<Rightarrow> [])"

definition describe_mark :: "string \<Rightarrow> json \<Rightarrow> string" where
  "describe_mark word d =
     word @ (case as_str (jindex ''note'' d) of
               Some n \<Rightarrow> (if n = [] then [] else '': '' @ cut_line n 120)
             | None \<Rightarrow> [])"

definition describe_outcome :: "string \<Rightarrow> json \<Rightarrow> string \<times> bool option" where
  "describe_outcome kind d =
     (if kind = ''files_changed'' then (describe_files d, None)
      else if kind = ''tests'' then describe_tests d
      else if kind = ''build'' then
        (let ok = (as_bool (jindex ''ok'' d) = Some True) in
         (''build '' @ (if ok then ''ok'' else exit_text d ''ok'') @ command_text d, Some ok))
      else if kind = ''user_accept'' then (describe_mark ''accepted'' d, Some True)
      else if kind = ''user_reject'' then (describe_mark ''rejected'' d, Some False)
      else if kind = ''task_done'' then (describe_mark ''task done'' d, Some True)
      else if kind = ''error'' then (describe_error d, Some False)
      else if kind = ''reverted'' then
        (let n = array_len (jindex ''files'' d) in (show_nat n @ '' file'' @ plural n @ '' reverted'', Some False))
      else (kind, None))"

definition signal_describe :: "signal \<Rightarrow> string \<times> bool option" where
  "signal_describe g = describe_outcome (sg_kind g) (sg_details g)"

definition signal_live_event :: "signal \<Rightarrow> string \<Rightarrow> string \<Rightarrow> agent_event" where
  "signal_live_event g agent event_id =
     AgentOutcome agent event_id (sg_kind g) (fst (signal_describe g)) (snd (signal_describe g)) (sg_details g)"

record outcome_info =
  oi_event_id :: string
  oi_kind :: string
  oi_summary :: string
  oi_ok :: "bool option"
  oi_details :: json
  oi_at :: string

definition outcome_info_of :: "string \<Rightarrow> json \<Rightarrow> string \<Rightarrow> outcome_info" where
  "outcome_info_of event_id payload at =
     (let kind = (case as_str (jindex ''kind'' payload) of Some k \<Rightarrow> k | None \<Rightarrow> ''?'');
          details = (case jget ''details'' payload of Some d \<Rightarrow> d | None \<Rightarrow> JObj [])
      in \<lparr>oi_event_id = event_id, oi_kind = kind, oi_summary = fst (describe_outcome kind details),
          oi_ok = snd (describe_outcome kind details), oi_details = details, oi_at = at\<rparr>)"

text \<open>\<open>from_tool_result\<close>: the signal in a tool's result.\<close>

definition exit_code_of :: "json \<Rightarrow> int option" where
  "exit_code_of m = (case as_int (jindex ''exit_code'' m) of
       Some c \<Rightarrow> (if - (2 ^ 31) \<le> c \<and> c < 2 ^ 31 then Some c else None)
     | None \<Rightarrow> None)"

definition shell_facts :: "string \<Rightarrow> json \<Rightarrow> run_facts" where
  "shell_facts command m =
     \<lparr>rf_command = command, rf_exit_code = exit_code_of m,
      rf_duration_ms = nat_at ''duration_ms'' m,
      rf_killed = (as_bool (jindex ''timed_out'' m) = Some True \<or> as_bool (jindex ''killed'' m) = Some True)\<rparr>"

definition from_tool_result :: "runner_lib \<Rightarrow> string \<Rightarrow> json \<Rightarrow> string \<Rightarrow> json \<Rightarrow> signal option" where
  "from_tool_result lib name input t m =
     (if name = ''run_tests'' then
        map_option (\<lambda>d. \<lparr>sg_kind = ''tests'', sg_details = d\<rparr>) (jget ''outcome'' m)
      else if name = ''shell'' then
        (if as_bool (jindex ''background'' input) = Some True then None
         else case as_str (jindex ''command'' input) of
           None \<Rightarrow> None
         | Some command \<Rightarrow>
             map_option (\<lambda>k. case k of
                 CommandTests r \<Rightarrow> outcome_tests lib r t (shell_facts command m) ''shell''
               | CommandBuild \<Rightarrow> outcome_build (shell_facts command m)) (classify_command lib command))
      else None)"

end
