(* ===== verification/Trace_Sessions.thy ===== *)
theory Trace_Sessions
  imports Trace_Store Outcomes
begin

text \<open>
  \<open>crates/core/src/trace/sessions.rs\<close>: the stored conversation of a session, archive and delete, the
  export of a session as one document and its import; and \<open>record.rs\<close>, the recording of mentor
  calls, with the recovery of orphaned agents of \<open>outcomes.rs\<close>.
\<close>

section \<open>Messages\<close>

definition search_text :: "content_block list \<Rightarrow> string" where
  "search_text bs = join_with [CHR 0x0A] (List.map_filter block_as_text bs)"

definition message_at :: "string \<Rightarrow> nat \<Rightarrow> message_row \<Rightarrow> bool" where
  "message_at s n r \<longleftrightarrow> ml_session r = s \<and> ml_seq r = n"

text \<open>An insert at \<open>seq\<close>, or an update of the row there, which keeps its time.\<close>

definition upsert_message :: "new_message \<Rightarrow> string \<Rightarrow> message_row list \<Rightarrow> message_row list" where
  "upsert_message m created_at rows =
     (let s = nm_session m; n = to_i64 (nm_seq m) in
      if \<exists>r\<in>set rows. message_at s n r then
        sql_update (message_at s n)
          (\<lambda>r. r\<lparr>ml_role := nm_role m, ml_content := content_json (nm_content m), ml_agent := nm_agent m,
                ml_step := nm_step m\<rparr>) rows
      else rows @
        [\<lparr>ml_session = s, ml_seq = n, ml_role = nm_role m, ml_content = content_json (nm_content m),
          ml_agent = nm_agent m, ml_step = nm_step m, ml_created_at = created_at\<rparr>])"

definition index_message :: "new_message \<Rightarrow> fts_row list \<Rightarrow> fts_row list" where
  "index_message m rows =
     (let s = nm_session m; n = to_i64 (nm_seq m); t = search_text (nm_content m) in
      filter (\<lambda>r. \<not> (ft_session r = s \<and> ft_seq r = n)) rows
      @ (if t = [] then [] else [\<lparr>ft_session = s, ft_seq = n, ft_text = t\<rparr>]))"

definition put_message_at :: "new_message \<Rightarrow> string \<Rightarrow> unit trace_op" where
  "put_message_at m created_at =
     t_bind (t_read (has_session (nm_session m))) (\<lambda>ok.
     t_then (t_require ok fk_failed)
       (t_write (\<lambda>db. db\<lparr>db_messages := upsert_message m created_at (db_messages db),
                           db_fts := index_message m (db_fts db)\<rparr>)))"

definition session_rows :: "string \<Rightarrow> trace_db \<Rightarrow> message_row list" where
  "session_rows s db = filter (\<lambda>r. ml_session r = s) (db_messages db)"

definition refresh_count :: "store_env \<Rightarrow> string \<Rightarrow> unit trace_op" where
  "refresh_count env s =
     t_bind (now_ts env) (\<lambda>now.
     t_bind (t_read (\<lambda>db. length (session_rows s db))) (\<lambda>n.
       update_session s (\<lambda>_. True) (\<lambda>r. r\<lparr>sr_message_count := n, sr_updated_at := now\<rparr>)))"

definition put_message :: "store_env \<Rightarrow> new_message \<Rightarrow> unit trace_op" where
  "put_message env m =
     t_bind (now_ts env) (\<lambda>now. t_then (put_message_at m now) (refresh_count env (nm_session m)))"

definition put_session_message :: "store_env \<Rightarrow> new_message \<Rightarrow> unit trace_op" where
  "put_session_message env m = transaction env (put_message env m)"

definition append_with_message :: "store_env \<Rightarrow> new_event \<Rightarrow> new_message \<Rightarrow> string trace_op" where
  "append_with_message env ev m =
     t_bind (prepare env ev) (\<lambda>p. transaction env
       (t_bind (insert_event env p) (\<lambda>i. t_then (put_message env m) (t_return i))))"

record stored_message =
  sm_seq :: nat
  sm_role :: role
  sm_content :: "content_block list"
  sm_agent :: "string option"
  sm_step :: "string option"
  sm_created_at :: string

text \<open>\<open>Vec<ContentBlock>\<close> is read from an array; a block that no variant takes is kept as it is.\<close>

definition read_message :: "message_row \<Rightarrow> trace_error + stored_message" where
  "read_message r =
     (case ml_content r of
        JArr vs \<Rightarrow> Inr \<lparr>sm_seq = ml_seq r, sm_role = ml_role r, sm_content = map block_of_json vs,
                       sm_agent = ml_agent r, sm_step = ml_step r, sm_created_at = ml_created_at r\<rparr>
      | _ \<Rightarrow> Inl (TraceSqlite ''Conversion error from type Text at index: 2, invalid type, expected a sequence''))"

fun collect :: "('e + 'a) list \<Rightarrow> 'e + 'a list" where
  "collect [] = Inr []"
| "collect (r # rs) = res_bind r (\<lambda>x. res_bind (collect rs) (\<lambda>xs. Inr (x # xs)))"

definition by_seq :: "message_row list \<Rightarrow> message_row list" where
  "by_seq rows = order_by (\<lambda>a b. ml_seq a < ml_seq b) rows"

definition session_messages :: "store_env \<Rightarrow> string \<Rightarrow> nat \<Rightarrow> nat option \<Rightarrow> stored_message list trace_op" where
  "session_messages env s after limit =
     t_bind (t_query env (\<lambda>db.
         let rows = by_seq (filter (\<lambda>r. to_i64 after < ml_seq r) (session_rows s db))
         in (case limit of Some n \<Rightarrow> take n rows | None \<Rightarrow> rows)))
       (\<lambda>rows. t_lift (collect (map read_message rows)))"

definition session_messages_before :: "store_env \<Rightarrow> string \<Rightarrow> nat \<Rightarrow> nat \<Rightarrow> stored_message list trace_op" where
  "session_messages_before env s before limit =
     t_bind (t_query env (\<lambda>db. rev (take limit (rev (by_seq
         (filter (\<lambda>r. ml_seq r < to_i64 before) (session_rows s db)))))))
       (\<lambda>rows. t_lift (collect (map read_message rows)))"

definition truncate_session_messages :: "store_env \<Rightarrow> string \<Rightarrow> nat \<Rightarrow> nat trace_op" where
  "truncate_session_messages env s keep = transaction env
     (t_then (t_write (\<lambda>db. db\<lparr>db_fts :=
          filter (\<lambda>r. \<not> (ft_session r = s \<and> to_i64 keep < ft_seq r)) (db_fts db)\<rparr>))
     (t_bind (t_read (\<lambda>db. sql_count (\<lambda>r. ml_session r = s \<and> to_i64 keep < ml_seq r) (db_messages db))) (\<lambda>n.
      t_then (t_write (\<lambda>db. db\<lparr>db_messages :=
          filter (\<lambda>r. \<not> (ml_session r = s \<and> to_i64 keep < ml_seq r)) (db_messages db)\<rparr>))
      (t_then (refresh_count env s) (t_return n)))))"

section \<open>Titles and queries\<close>

definition prompt_title_chars :: nat where
  "prompt_title_chars = 60"

definition first_prompt_title :: "string \<Rightarrow> string" where
  "first_prompt_title prompt =
     (let l = (case find (\<lambda>x. x \<noteq> []) (map trim (lines_of prompt)) of Some x \<Rightarrow> x | None \<Rightarrow> []) in
      if char_count l \<le> prompt_title_chars then l
      else trim_end (take_chars prompt_title_chars l) @ ellipsis)"

definition fts_query :: "string \<Rightarrow> string" where
  "fts_query ws =
     join_with '' '' (map (\<lambda>w. CHR 0x22 # w @ [CHR 0x22, CHR ''*''])
       (filter (\<lambda>w. w \<noteq> []) (map (filter (\<lambda>c. c \<noteq> CHR 0x22)) (split_whitespace ws))))"

section \<open>Archive and delete\<close>

definition status_event :: "string \<Rightarrow> session_status \<Rightarrow> new_event" where
  "status_event i s = event_payload (jobj [(''status'', JStr (session_status_str s))]) (event_new i ''session.status'')"

definition archive_session :: "store_env \<Rightarrow> string \<Rightarrow> bool \<Rightarrow> unit trace_op" where
  "archive_session env i archived =
     (let status = (if archived then SessionArchived else SessionOpen) in
      t_bind (prepare env (status_event i status)) (\<lambda>ev. transaction env
        (t_bind (now_ts env) (\<lambda>now.
         t_then (update_session i (\<lambda>r. sr_status r \<noteq> SessionDeleted)
                   (\<lambda>r. r\<lparr>sr_status := status, sr_updated_at := now\<rparr>))
           (t_bind (insert_event env ev) (\<lambda>_. t_return ()))))))"

text \<open>The blob references of a session's events, with their number.\<close>

definition event_blob_refs :: "event_row \<Rightarrow> string list" where
  "event_blob_refs r = (case er_blob r of Some b \<Rightarrow> [b] | None \<Rightarrow> []) @ blob_refs (er_payload r)"

definition release_blobs :: "string \<Rightarrow> trace_db \<Rightarrow> trace_db" where
  "release_blobs s db =
     (let refs = concat (map event_blob_refs (filter (\<lambda>r. er_session r = s) (db_events db)))
      in db\<lparr>db_blobs := map (\<lambda>b. b\<lparr>br_refcount := br_refcount b - count_list refs (br_id b)\<rparr>) (db_blobs db)\<rparr>)"

record delete_report =
  dr_messages :: nat
  dr_events :: nat

definition purge_session :: "string \<Rightarrow> nat trace_op" where
  "purge_session i =
     t_then (t_write (release_blobs i))
     (t_then (t_write (\<lambda>db. db\<lparr>db_calls := filter (\<lambda>r. kr_session r \<noteq> i) (db_calls db)\<rparr>))
     (t_bind (t_read (\<lambda>db. filter (\<lambda>r. er_session r = i) (db_events db))) (\<lambda>evs.
      t_bind (t_read (\<lambda>db. \<exists>r\<in>set (db_calls db). kr_request_event r \<in> er_id ` set evs \<or>
                              (\<exists>e. kr_response_event r = Some e \<and> e \<in> er_id ` set evs))) (\<lambda>held.
      t_then (t_require (\<not> held) fk_failed)
      (t_then (t_write (\<lambda>db. db\<lparr>db_events := filter (\<lambda>r. er_session r \<noteq> i) (db_events db)\<rparr>))
      (t_bind (t_read (\<lambda>db. filter (\<lambda>r. ar_session r = i) (db_agents db))) (\<lambda>gone.
       t_then (t_write (\<lambda>db. db\<lparr>db_steps := filter (\<lambda>r. sp_agent r \<notin> ar_id ` set gone) (db_steps db)\<rparr>))
       (t_bind (t_read (\<lambda>db. \<exists>r\<in>set (db_agents db). ar_session r \<noteq> i \<and>
                               (\<exists>p. ar_parent r = Some p \<and> p \<in> ar_id ` set gone))) (\<lambda>parents.
       t_then (t_require (\<not> parents) fk_failed)
       (t_then (t_write (\<lambda>db. db\<lparr>db_agents := filter (\<lambda>r. ar_session r \<noteq> i) (db_agents db)\<rparr>))
       (t_bind (t_read (\<lambda>db. sql_count (\<lambda>r. sr_id r = i) (db_sessions db))) (\<lambda>n.
        t_then (t_write (\<lambda>db. db\<lparr>db_sessions := filter (\<lambda>r. sr_id r \<noteq> i) (db_sessions db)\<rparr>))
        (t_then (require_row n ''session'' i) (t_return (length evs)))))))))))))))"

definition delete_session :: "store_env \<Rightarrow> string \<Rightarrow> bool \<Rightarrow> delete_report trace_op" where
  "delete_session env i purge =
     t_bind (prepare env (status_event i SessionDeleted)) (\<lambda>ev. transaction env
       (t_then (t_write (\<lambda>db. db\<lparr>db_fts := filter (\<lambda>r. ft_session r \<noteq> i) (db_fts db)\<rparr>))
       (t_bind (t_read (\<lambda>db. length (session_rows i db))) (\<lambda>msgs.
        t_then (t_write (\<lambda>db. db\<lparr>db_messages := filter (\<lambda>r. ml_session r \<noteq> i) (db_messages db)\<rparr>))
        (if purge then
           t_bind (purge_session i) (\<lambda>evs. t_return \<lparr>dr_messages = msgs, dr_events = evs\<rparr>)
         else
           t_bind (now_ts env) (\<lambda>now.
           t_then (update_session i (\<lambda>_. True)
                     (\<lambda>r. r\<lparr>sr_status := SessionDeleted, sr_message_count := 0, sr_updated_at := now\<rparr>))
             (t_bind (insert_event env ev) (\<lambda>_. t_return \<lparr>dr_messages = msgs, dr_events = 0\<rparr>))))))))"

section \<open>Export and import\<close>

record session_summary =
  sy_id :: string
  sy_title :: "string option"
  sy_workspace :: "string option"
  sy_workspace_id :: "string option"
  sy_status :: string
  sy_created_at :: string
  sy_updated_at :: string
  sy_message_count :: nat
  sy_last_activity :: string
  sy_last_agent_status :: "agent_status option"
  sy_usage :: "nat \<times> nat \<times> nat \<times> nat"
  sy_cost :: "int option"
  sy_calls :: nat
  sy_title_source :: "string option"
  sy_prompt_version :: "string option"
  sy_tools_hash :: "string option"
  sy_config :: json

text \<open>\<open>SUM\<close> over the values that are not NULL: an integer overflow is an error.\<close>

fun sql_sum_from :: "int \<Rightarrow> int list \<Rightarrow> trace_error + int" where
  "sql_sum_from acc [] = Inr acc"
| "sql_sum_from acc (x # xs) =
     (if - (2 ^ 63) \<le> acc + x \<and> acc + x < 2 ^ 63 then sql_sum_from (acc + x) xs
      else Inl (TraceSqlite ''integer overflow''))"

definition sql_sum :: "('r \<Rightarrow> int option) \<Rightarrow> 'r list \<Rightarrow> trace_error + int" where
  "sql_sum f rows = sql_sum_from 0 (List.map_filter f rows)"

definition sum_tokens :: "(call_row \<Rightarrow> nat option) \<Rightarrow> call_row list \<Rightarrow> trace_error + nat" where
  "sum_tokens f rows = res_bind (sql_sum (\<lambda>r. map_option int (f r)) rows) (\<lambda>n. Inr (nat n))"

definition unpriced_call :: "call_row \<Rightarrow> bool" where
  "unpriced_call r \<longleftrightarrow> kr_status r = RunOk \<and> kr_cost_micros r = None"

definition latest :: "string list \<Rightarrow> string option" where
  "latest ts = (if ts = [] then None else Some (last (order_by str_less ts)))"

definition agent_status_of :: "run_status \<Rightarrow> agent_status" where
  "agent_status_of s = (case s of RunOk \<Rightarrow> StatusOk | RunCancelledStatus \<Rightarrow> StatusCancelled | _ \<Rightarrow> StatusError)"

definition agent_run_status :: "agent_status \<Rightarrow> run_status" where
  "agent_run_status s = (case s of StatusOk \<Rightarrow> RunOk | StatusCancelled \<Rightarrow> RunCancelledStatus | StatusError \<Rightarrow> RunErrorStatus)"

definition session_info_of :: "session_row \<Rightarrow> trace_db \<Rightarrow> trace_error + session_summary" where
  "session_info_of r db =
     (let calls = filter (\<lambda>c. kr_session c = sr_id r) (db_calls db) in
      res_bind (sum_tokens kr_input_tokens calls) (\<lambda>i.
      res_bind (sum_tokens kr_output_tokens calls) (\<lambda>out.
      res_bind (sum_tokens kr_cache_read_tokens calls) (\<lambda>cr.
      res_bind (sum_tokens kr_cache_creation_tokens calls) (\<lambda>cc.
      res_bind (sql_sum kr_cost_micros calls) (\<lambda>cost.
      res_bind (session_record r) (\<lambda>_.
        Inr \<lparr>sy_id = sr_id r, sy_title = sr_title r, sy_workspace = sr_workspace_path r,
             sy_workspace_id = sr_workspace_id r, sy_status = session_status_str (sr_status r),
             sy_created_at = sr_created_at r, sy_updated_at = sr_updated_at r,
             sy_message_count = sr_message_count r,
             sy_last_activity = (case latest (map ml_created_at (session_rows (sr_id r) db)) of
                 Some t \<Rightarrow> t | None \<Rightarrow> sr_created_at r),
             sy_last_agent_status = map_option agent_status_of (sr_last_agent_status r),
             sy_usage = (i, out, cr, cc),
             sy_cost = (if sql_count unpriced_call calls = 0 then Some cost else None),
             sy_calls = length calls, sy_title_source = sr_title_source r,
             sy_prompt_version = sr_prompt_version r, sy_tools_hash = sr_tools_hash r,
             sy_config = sr_config r\<rparr>)))))))"

definition session_info :: "store_env \<Rightarrow> string \<Rightarrow> session_summary trace_op" where
  "session_info env i =
     t_bind (t_query env (\<lambda>db. map_option (\<lambda>r. session_info_of r db) (session_by i db))) (\<lambda>r.
     t_bind (t_found r ''session'' i) t_lift)"

record session_message =
  xm_seq :: nat
  xm_role :: string
  xm_content :: json
  xm_agent :: "string option"
  xm_step :: "string option"
  xm_created_at :: string

definition into_wire :: "stored_message \<Rightarrow> session_message" where
  "into_wire m =
     \<lparr>xm_seq = sm_seq m, xm_role = role_str (sm_role m), xm_content = content_json (sm_content m),
      xm_agent = sm_agent m, xm_step = sm_step m, xm_created_at = sm_created_at m\<rparr>"

record call_info =
  ci_id :: string
  ci_agent :: string
  ci_step :: string
  ci_kind :: string
  ci_model :: string
  ci_effort :: "string option"
  ci_started_at :: string
  ci_ended_at :: "string option"
  ci_status :: string
  ci_stop_reason :: "string option"
  ci_usage :: "(nat \<times> nat \<times> nat \<times> nat) option"
  ci_cost :: "int option"
  ci_first_byte_ms :: "nat option"
  ci_total_ms :: "nat option"

text \<open>\<open>mentor_call_row\<close> has a usage when the input tokens are there; other NULLs do not read as integers.\<close>

definition call_usage :: "call_row \<Rightarrow> trace_error + (nat \<times> nat \<times> nat \<times> nat) option" where
  "call_usage r =
     (case kr_input_tokens r of
        None \<Rightarrow> Inr None
      | Some i \<Rightarrow>
          (case (kr_output_tokens r, kr_cache_read_tokens r, kr_cache_creation_tokens r) of
             (Some out, Some cr, Some cc) \<Rightarrow> Inr (Some (i, out, cr, cc))
           | _ \<Rightarrow> Inl (TraceSqlite ''Invalid column type Null'')))"

definition call_info_of :: "call_row \<Rightarrow> trace_error + call_info" where
  "call_info_of r = res_bind (call_usage r) (\<lambda>u. Inr
     \<lparr>ci_id = kr_id r, ci_agent = kr_agent r, ci_step = kr_step r, ci_kind = call_kind_str (kr_kind r),
      ci_model = kr_model r, ci_effort = kr_effort r, ci_started_at = kr_started_at r,
      ci_ended_at = kr_ended_at r, ci_status = run_status_str (kr_status r),
      ci_stop_reason = kr_stop_reason r, ci_usage = u, ci_cost = kr_cost_micros r,
      ci_first_byte_ms = kr_first_byte_ms r, ci_total_ms = kr_total_ms r\<rparr>)"

record session_export =
  sx_format :: string
  sx_exported_at :: string
  sx_session :: session_summary
  sx_messages :: "session_message list"
  sx_calls :: "call_info list"

definition export_format :: string where
  "export_format = ''harness-session/1''"

definition calls_in_order :: "call_row list \<Rightarrow> call_row list" where
  "calls_in_order cs =
     order_by (\<lambda>a b. less_pair (kr_started_at a, kr_id a) (kr_started_at b, kr_id b)) cs"

definition export_session :: "store_env \<Rightarrow> string \<Rightarrow> session_export trace_op" where
  "export_session env i =
     t_bind (session_info env i) (\<lambda>info.
     t_bind (session_messages env i 0 None) (\<lambda>msgs.
     t_bind (t_query env (\<lambda>db. collect (map call_info_of
         (calls_in_order (filter (\<lambda>c. kr_session c = i) (db_calls db)))))) (\<lambda>cs.
     t_bind (t_lift cs) (\<lambda>calls.
     t_bind (now_ts env) (\<lambda>now. t_return
       \<lparr>sx_format = export_format, sx_exported_at = now, sx_session = info,
        sx_messages = map into_wire msgs, sx_calls = calls\<rparr>)))))"

definition import_message :: "string \<Rightarrow> session_message \<Rightarrow> unit trace_op" where
  "import_message i m =
     (case parse_role (xm_role m) of
        None \<Rightarrow> t_fail (TraceInvalid ''message role'' (xm_role m))
      | Some r \<Rightarrow>
          (case xm_content m of
             JArr vs \<Rightarrow> put_message_at
               \<lparr>nm_session = i, nm_seq = xm_seq m, nm_role = r, nm_content = map block_of_json vs,
                nm_agent = xm_agent m, nm_step = xm_step m\<rparr> (xm_created_at m)
           | _ \<Rightarrow> t_fail (TraceJson ''invalid type, expected a sequence'')))"

text \<open>One \<open>mentor.request\<close> event with what the export knows, and the call's row.\<close>

definition import_call :: "store_env \<Rightarrow> string \<Rightarrow> call_info \<Rightarrow> unit trace_op" where
  "import_call env i c =
     (case run_status_parse (ci_status c) of
        None \<Rightarrow> t_fail (TraceInvalid ''call status'' (ci_status c))
      | Some status \<Rightarrow>
          t_bind (fresh_id env) (\<lambda>event_id.
          t_bind (t_read (\<lambda>db. \<lparr>er_id = event_id, er_session = i, er_agent = Some (ci_agent c),
              er_step = Some (ci_step c), er_seq = sql_max (event_seqs i db) + 1, er_ts = ci_started_at c,
              er_kind = ''mentor.request'',
              er_payload = jobj [(''call_id'', JStr (ci_id c)), (''model'', JStr (ci_model c)),
                (''effort'', opt_str (ci_effort c)), (''imported'', JBool True)],
              er_blob = None\<rparr>)) (\<lambda>row.
          t_then (insert_event_row row)
          (t_then (insert_mentor_call env
             \<lparr>ks_id = ci_id c, ks_session = i, ks_agent = ci_agent c, ks_step = ci_step c,
              ks_request_event = event_id, ks_model = ci_model c, ks_effort = ci_effort c,
              ks_request_bytes = None, ks_started_at = Some (ci_started_at c),
              ks_kind = (case call_kind_parse (ci_kind c) of Some k \<Rightarrow> k | None \<Rightarrow> CallStep)\<rparr>)
            (t_write (\<lambda>db. db\<lparr>db_calls := sql_update (\<lambda>r. kr_id r = ci_id c)
              (\<lambda>r. r\<lparr>kr_status := status, kr_ended_at := ci_ended_at c, kr_stop_reason := ci_stop_reason c,
                 kr_input_tokens := map_option (\<lambda>(a, _, _, _). to_i64 a) (ci_usage c),
                 kr_output_tokens := map_option (\<lambda>(_, b, _, _). to_i64 b) (ci_usage c),
                 kr_cache_read_tokens := map_option (\<lambda>(_, _, d, _). to_i64 d) (ci_usage c),
                 kr_cache_creation_tokens := map_option (\<lambda>(_, _, _, e). to_i64 e) (ci_usage c),
                 kr_cost_micros := ci_cost c,
                 kr_first_byte_ms := map_option to_i64 (ci_first_byte_ms c),
                 kr_total_ms := map_option to_i64 (ci_total_ms c)\<rparr>) (db_calls db)\<rparr>))))))"

definition imported_row :: "session_summary \<Rightarrow> session_status \<Rightarrow> session_row" where
  "imported_row s status =
     \<lparr>sr_id = sy_id s, sr_created_at = sy_created_at s, sr_updated_at = sy_updated_at s,
      sr_title = sy_title s, sr_title_source = sy_title_source s, sr_workspace_path = sy_workspace s,
      sr_workspace_id = None, sr_config = sy_config s, sr_status = status, sr_message_count = 0,
      sr_last_agent_status = map_option agent_run_status (sy_last_agent_status s),
      sr_prompt_version = sy_prompt_version s, sr_tools_hash = sy_tools_hash s\<rparr>"

definition import_session :: "store_env \<Rightarrow> session_export \<Rightarrow> string trace_op" where
  "import_session env x =
     (if sx_format x \<noteq> export_format then
        t_fail (TraceInvalid ''session export'' (''format '' @ quoted_id (sx_format x)
          @ '' (this build reads '' @ quoted_id export_format @ '')''))
      else let i = sy_id (sx_session x) in transaction env
        (t_bind (t_read (has_session i)) (\<lambda>taken.
         t_then (t_require (\<not> taken) (TraceConflict (''session '' @ i @ '' exists'')))
         (case session_status_parse (sy_status (sx_session x)) of
            None \<Rightarrow> t_fail (TraceInvalid ''session status'' (sy_status (sx_session x)))
          | Some status \<Rightarrow>
              t_then (t_write (\<lambda>db. db\<lparr>db_sessions := db_sessions db @ [imported_row (sx_session x) status]\<rparr>))
              (t_then (t_all (import_message i) (sx_messages x))
              (t_then (t_all (import_call env i) (sx_calls x))
              (t_then (refresh_count env i) (t_return i))))))))"

section \<open>Mentor calls\<close>

definition effort_str :: "effort \<Rightarrow> string" where
  "effort_str e =
     (case e of EffortLow \<Rightarrow> ''low'' | EffortMedium \<Rightarrow> ''medium'' | EffortHigh \<Rightarrow> ''high''
      | EffortXHigh \<Rightarrow> ''xhigh'' | EffortMax \<Rightarrow> ''max'')"

definition system_json :: "system_block list \<Rightarrow> json" where
  "system_json bs = JArr (map (\<lambda>b. jobj ([(''type'', JStr ''text''), (''text'', JStr (sb_text b))]
                                          @ cache_json (sb_cache b))) bs)"

definition usage_to_json :: "usage \<Rightarrow> json" where
  "usage_to_json u = jobj
     [(''input_tokens'', JInt (uint (us_input u))), (''output_tokens'', JInt (uint (us_output u))),
      (''cache_read_input_tokens'', JInt (uint (us_cache_read u))),
      (''cache_creation_input_tokens'', JInt (uint (us_cache_creation u)))]"

definition stop_details_json :: "stop_details \<Rightarrow> json" where
  "stop_details_json d = jobj (skip_none ''category'' (map_option JStr (sd_category d))
     @ skip_none ''explanation'' (map_option JStr (sd_explanation d)) @ sd_extra d)"

definition record_mentor_request ::
  "store_env \<Rightarrow> step_ref \<Rightarrow> string \<Rightarrow> call_kind \<Rightarrow> mentor_request \<Rightarrow> string \<Rightarrow> string option \<Rightarrow> string trace_op" where
  "record_mentor_request env at call_id kind req body version =
     (let effort = Some (effort_str (mq_effort req));
          system_hash = (if mq_system req = [] then None
                         else Some (se_sha256 env (se_print env (system_json (mq_system req)))));
          payload = jobj
            [(''call_id'', JStr call_id), (''model'', JStr (mq_model req)), (''effort'', opt_str effort),
             (''max_tokens'', JInt (int (mq_max_tokens req))),
             (''message_count'', JInt (int (length (mq_messages req)))),
             (''tool_names'', JArr (map (JStr \<circ> td_name) (mq_tools req))),
             (''system_hash'', opt_str system_hash), (''prompt_version'', opt_str version),
             (''kind'', JStr (call_kind_str kind)), (''request_hash'', JStr (se_sha256 env body)),
             (''bytes'', JInt (int (length body)))]
      in append_with_call env
           (event_blob_bytes body ''application/json'' (event_payload payload (step_event at ''mentor.request'')))
           \<lparr>ks_id = call_id, ks_session = sf_session at, ks_agent = sf_agent at, ks_step = sf_step at,
            ks_request_event = [], ks_model = mq_model req, ks_effort = effort,
            ks_request_bytes = Some (length body), ks_started_at = None, ks_kind = kind\<rparr>)"

definition response_payload :: "string \<Rightarrow> mentor_response \<Rightarrow> string option \<Rightarrow> json" where
  "response_payload call_id r raw = jobj
     ([(''call_id'', JStr call_id), (''response_id'', JStr (mr_id r)), (''model'', JStr (mr_model r)),
       (''stop_reason'', JStr (stop_reason_str (mr_stop_reason r))), (''usage'', usage_to_json (mr_usage r)),
       (''first_byte_ms'', JInt (int (tm_first_byte_ms (mr_timing r)))),
       (''total_ms'', JInt (int (tm_total_ms (mr_timing r)))),
       (''attempts'', JInt (int (tm_attempts (mr_timing r))))]
      @ skip_none ''stop_details'' (map_option stop_details_json (mr_stop_details r))
      @ skip_none ''raw_sse_blob_id'' (map_option (\<lambda>i. jobj [(''$blob'', JStr i)]) raw))"

definition record_mentor_response ::
  "store_env \<Rightarrow> step_ref \<Rightarrow> string \<Rightarrow> mentor_response \<Rightarrow> u64 option \<Rightarrow> string trace_op" where
  "record_mentor_response env at call_id r cost =
     t_bind (case mr_raw_sse r of
         Some raw \<Rightarrow> t_bind (put_blob env raw ''text/event-stream'') (\<lambda>i. t_return (Some i))
       | None \<Rightarrow> t_return None) (\<lambda>raw.
     t_bind (append_with_completion env
        [event_blob_bytes (se_print env (content_json (mr_content r))) ''application/json''
           (event_payload (response_payload call_id r raw) (step_event at ''mentor.response''))]
        \<lparr>ke_id = call_id, ke_response_event = None, ke_status = RunOk,
         ke_stop_reason = Some (stop_reason_str (mr_stop_reason r)), ke_http_status = Some 200,
         ke_usage = Some (mr_usage r), ke_cost_micros = cost,
         ke_first_byte_ms = Some (tm_first_byte_ms (mr_timing r)),
         ke_total_ms = Some (tm_total_ms (mr_timing r))\<rparr> True) (\<lambda>ids. t_return (hd ids)))"

definition mentor_error_payload :: "string \<Rightarrow> mentor_error \<Rightarrow> nat \<Rightarrow> json" where
  "mentor_error_payload call_id e retry_no = jobj
     [(''call_id'', JStr call_id), (''kind'', JStr (mentor_error_kind e)),
      (''message'', JStr (mentor_error_str e)),
      (''http_status'', case fst (mentor_error_http e) of Some n \<Rightarrow> JInt (int n) | None \<Rightarrow> JNull),
      (''api_error_type'', opt_str (snd (mentor_error_http e))), (''retry_no'', JInt (int retry_no))]"

definition record_mentor_error ::
  "store_env \<Rightarrow> step_ref \<Rightarrow> string \<Rightarrow> mentor_error \<Rightarrow> nat \<Rightarrow> bool \<Rightarrow> string trace_op" where
  "record_mentor_error env at call_id e retry_no final =
     (let ev = event_payload (mentor_error_payload call_id e retry_no) (step_event at ''mentor.error'') in
      if \<not> final then append_event env ev
      else t_bind (append_with_completion env [ev]
             ((mentor_call_end_new call_id
                (if e = MentorCancelled then RunCancelledStatus else RunErrorStatus))
              \<lparr>ke_http_status := fst (mentor_error_http e)\<rparr>) False) (\<lambda>ids. t_return (hd ids)))"

section \<open>Agents a dead daemon left running\<close>

definition restart_error :: rpc_error where
  "restart_error = agent_stopped ''daemon_restart''
     ''the daemon stopped while the agent was running; the run has no result''"

definition close_open_work :: "string \<Rightarrow> string \<Rightarrow> string \<Rightarrow> trace_db \<Rightarrow> trace_db" where
  "close_open_work agent session now db = db
     \<lparr>db_steps := sql_update (\<lambda>r. sp_agent r = agent \<and> sp_status r = RunRunning)
        (\<lambda>r. r\<lparr>sp_status := RunErrorStatus, sp_ended_at := Some now\<rparr>) (db_steps db),
      db_calls := sql_update (\<lambda>r. kr_agent r = agent \<and> kr_status r = RunRunning)
        (\<lambda>r. r\<lparr>kr_status := RunErrorStatus, kr_ended_at := Some now\<rparr>) (db_calls db),
      db_agents := sql_update (\<lambda>r. ar_id r = agent)
        (\<lambda>r. r\<lparr>ar_status := RunErrorStatus, ar_ended_at := Some now\<rparr>) (db_agents db),
      db_sessions := sql_update (\<lambda>r. sr_id r = session)
        (\<lambda>r. r\<lparr>sr_last_agent_status := Some RunErrorStatus, sr_updated_at := now\<rparr>) (db_sessions db)\<rparr>"

definition recover_agent :: "store_env \<Rightarrow> string \<times> string \<Rightarrow> unit trace_op" where
  "recover_agent env a = (case a of (agent, session) \<Rightarrow>
     t_bind (prepare env (event_payload
        (jobj [(''status'', JStr ''error''), (''error'', rpc_error_json restart_error)])
        (event_agent agent (event_new session ''agent.finished'')))) (\<lambda>finished.
     t_bind (prepare env (signal_event (outcome_error ''daemon_restart''
          (jobj [(''message'', JStr ''the daemon stopped while the agent was running'')])) session agent)) (\<lambda>out.
     transaction env
       (t_bind (now_ts env) (\<lambda>now.
        t_then (t_write (close_open_work agent session now))
        (t_bind (insert_event env finished) (\<lambda>_.
         t_bind (insert_event env out) (\<lambda>_. t_return ()))))))))"

definition orphaned :: "trace_db \<Rightarrow> (string \<times> string) list" where
  "orphaned db = map (\<lambda>r. (ar_id r, ar_session r))
     (order_by (\<lambda>a b. less_pair (ar_created_at a, ar_id a) (ar_created_at b, ar_id b))
       (filter (\<lambda>r. ar_status r = RunRunning) (db_agents db)))"

definition recover_orphaned_agents :: "store_env \<Rightarrow> (string \<times> string) list trace_op" where
  "recover_orphaned_agents env =
     t_bind (t_query env orphaned) (\<lambda>orphans.
       t_then (t_all (recover_agent env) orphans) (t_return orphans))"

end
