(* ===== verification/Trace_Logic.thy ===== *)
theory Trace_Logic
  imports Trace_Sessions
begin

text \<open>
  How the operations of the trace store are reasoned about. \<open>twp m Q st\<close> says that \<open>m\<close>, when it
  succeeds on \<open>st\<close>, ends in a result and a state with \<open>Q\<close>; its equations compute it through the
  combinators (collection \<open>twp\<close>). A failed transaction is rolled back, so for the tables only
  successes matter: \<open>keeps P m\<close> says that \<open>m\<close> keeps \<open>P\<close> of the tables whatever it returns, and
  follows for a transaction from \<open>twp\<close> of its body.
\<close>

named_theorems twp

definition twp :: "('s, 'a) op \<Rightarrow> ('a \<Rightarrow> 's \<Rightarrow> bool) \<Rightarrow> 's \<Rightarrow> bool" where
  "twp m Q st = (case m st of (Inl e, st') \<Rightarrow> True | (Inr x, st') \<Rightarrow> Q x st')"

definition keeps :: "(trace_db \<Rightarrow> bool) \<Rightarrow> 'a trace_op \<Rightarrow> bool" where
  "keeps P m \<longleftrightarrow> (\<forall>st r st'. P (ts_db st) \<longrightarrow> m st = (r, st') \<longrightarrow> P (ts_db st'))"

lemma twp_bind [twp]: "twp (t_bind m f) Q st = twp m (\<lambda>x st'. twp (f x) Q st') st"
  by (simp add: twp_def t_bind_def split: prod.split sum.split)

lemma twp_then [twp]: "twp (t_then m n) Q st = twp m (\<lambda>_ st'. twp n Q st') st"
  by (simp add: t_then_def twp_bind)

lemma twp_basic [twp]:
  "twp (t_return x) Q st = Q x st" "twp (t_fail e) Q st = True"
  "twp (t_lift r) Q st = (\<forall>x. r = Inr x \<longrightarrow> Q x st)"
  "twp (t_read f) Q' s = Q' (f (ts_db s)) s"
  "twp (t_write g) Q'' s = Q'' () (s\<lparr>ts_db := g (ts_db s)\<rparr>)"
  "twp (t_require ok e) R st = (ok \<longrightarrow> R () st)"
  "twp (require_row n what i) R st = (n \<noteq> 0 \<longrightarrow> R () st)"
  "twp (fresh_id env) Q3 s = Q3 (se_id env (ts_ids s)) (s\<lparr>ts_ids := Suc (ts_ids s)\<rparr>)"
  "twp (now_ts env) Q3 s = Q3 (se_now env (ts_ticks s)) (s\<lparr>ts_ticks := Suc (ts_ticks s)\<rparr>)"
  by (simp_all add: twp_def t_write_def fresh_id_def now_ts_def split: sum.split)

lemma twp_mono: "twp m Q st \<Longrightarrow> (\<And>x st'. Q x st' \<Longrightarrow> R x st') \<Longrightarrow> twp m R st"
  by (auto simp: twp_def split: prod.splits sum.splits)

lemma twp_each:
  assumes "\<And>x st. x \<in> set xs \<Longrightarrow> I st \<Longrightarrow> twp (f x) (\<lambda>_. I) st" "I st"
  shows "twp (t_each f xs) (\<lambda>_. I) st"
  using assms
proof (induction xs arbitrary: st)
  case (Cons x xs)
  have "twp (f x) (\<lambda>_ st'. twp (t_each f xs) (\<lambda>_. I) st') st"
  proof (rule twp_mono [OF Cons.prems(1)])
    show "x \<in> set (x # xs)" "I st" using Cons.prems(2) by simp_all
    fix st' assume "I st'"
    show "twp (t_each f xs) (\<lambda>_. I) st'"
    proof (rule Cons.IH)
      show "I st'" by fact
      fix y s assume "y \<in> set xs" "I s"
      then show "twp (f y) (\<lambda>_. I) s" by (intro Cons.prems(1)) simp_all
    qed
  qed
  then show ?case by (simp only: t_each.simps twp_bind twp_basic)
qed (simp add: twp)

lemma twp_all:
  assumes "\<And>x st. x \<in> set xs \<Longrightarrow> I st \<Longrightarrow> twp (f x) (\<lambda>_. I) st" "I st"
  shows "twp (t_all f xs) (\<lambda>_. I) st"
  unfolding t_all_def twp_bind twp_basic using assms by (rule twp_each)

lemma keepsD: "keeps P m \<Longrightarrow> P (ts_db st) \<Longrightarrow> m st = (r, st') \<Longrightarrow> P (ts_db st')"
  by (simp add: keeps_def)

lemma keeps_bind:
  assumes "keeps P m" "\<And>x. keeps P (f x)"
  shows "keeps P (t_bind m f)"
  unfolding keeps_def
proof (intro allI impI)
  fix st r st' assume P: "P (ts_db st)" and "t_bind m f st = (r, st')"
  from this(2) show "P (ts_db st')"
  proof (rule t_bind_cases)
    fix e assume "m st = (Inl e, st')"
    with assms(1) P show ?thesis by (rule keepsD)
  next
    fix x st1 assume m: "m st = (Inr x, st1)" and f: "f x st1 = (r, st')"
    from assms(1) P m have "P (ts_db st1)" by (rule keepsD)
    with assms(2) show ?thesis using f by (rule keepsD)
  qed
qed

lemma keeps_return: "keeps P (t_return x)"
  by (simp add: keeps_def)

lemma keeps_then: "keeps P m \<Longrightarrow> keeps P n \<Longrightarrow> keeps P (t_then m n)"
  by (simp add: t_then_def keeps_bind)

lemma keeps_each: "(\<And>x. x \<in> set xs \<Longrightarrow> keeps P (f x)) \<Longrightarrow> keeps P (t_each f xs)"
  by (induction xs) (simp_all add: keeps_bind keeps_return)

lemma keeps_transaction:
  assumes "\<And>st. P (ts_db st) \<Longrightarrow> twp body (\<lambda>_ st'. P (ts_db st')) st"
  shows "keeps P (transaction env body)"
  unfolding keeps_def
proof (intro allI impI)
  fix st r st' assume P: "P (ts_db st)" and run: "transaction env body st = (r, st')"
  show "P (ts_db st')"
  proof (cases "t_io env st")
    case (Pair q st1)
    then have db: "ts_db st1 = ts_db st" by (auto simp: t_io_def)
    with assms [of st1] P have body: "twp body (\<lambda>_ st'. P (ts_db st')) st1" by simp
    show ?thesis
      using run body P db
      by (cases q; cases "body st1")
        (auto simp: transaction_def t_bind_def Pair twp_def split: sum.splits prod.splits)
  qed
qed

text \<open>Operations that leave the tables alone.\<close>

definition frames :: "'a trace_op \<Rightarrow> bool" where
  "frames m \<longleftrightarrow> (\<forall>st r st'. m st = (r, st') \<longrightarrow> ts_db st' = ts_db st)"

lemma frames_keeps: "frames m \<Longrightarrow> keeps P m"
  by (auto simp: frames_def keeps_def)

lemma frames_twp: "frames m \<Longrightarrow> (\<And>x st'. ts_db st' = ts_db st \<Longrightarrow> Q x st') \<Longrightarrow> twp m Q st"
  by (auto simp: frames_def twp_def split: prod.splits sum.splits)

lemma frames_bind: "frames m \<Longrightarrow> (\<And>x. frames (f x)) \<Longrightarrow> frames (t_bind m f)"
  unfolding frames_def t_bind_def by (fastforce split: prod.splits sum.splits)

lemma frames_basic [simp]:
  "frames (t_return x)" "frames (t_fail e)" "frames (t_lift r)" "frames (t_read f)" "frames (t_require ok e)"
  "frames (fresh_id env)" "frames (now_ts env)" "frames (t_io env)" "frames (t_query env g)"
  by (auto simp: frames_def fresh_id_def now_ts_def t_io_def t_query_def t_bind_def split: sum.splits prod.splits
      option.splits)

lemma frames_found [simp]: "frames (t_found r what i)"
  by (cases r) (simp_all add: t_found_def)

lemma frames_blob_write [simp]: "frames (blob_write env b)"
  by (auto simp: frames_def blob_write_def Let_def t_bind_def t_io_def split: if_splits option.splits)

lemma frames_prepare [simp]: "frames (prepare env ev)"
proof -
  define D where "D db x \<longleftrightarrow> ts_db (fst x) = db" for db and x :: "trace_store \<times> (string \<times> nat \<times> string) list"
  have put: "D db x \<Longrightarrow> spill_put env s x = (r, x') \<Longrightarrow> D db x'" for db s x r x'
    using frames_blob_write [of env s]
    by (auto simp: frames_def spill_put_def D_def split: prod.splits sum.splits)
  have spill:
    "D db x \<Longrightarrow> D db (snd (spill_strings n (spill_put env) v x))"
    "D db x \<Longrightarrow> D db (snd (spill_items n (spill_put env) vs x))"
    "D db x \<Longrightarrow> D db (snd (spill_fields n (spill_put env) fs x))" for db n v vs fs x
    using put
    by (induction n "spill_put env" v and n "spill_put env" vs and n "spill_put env" fs arbitrary: x and x and x
        rule: spill_strings_spill_items_spill_fields.induct)
      (fastforce simp: t_bind_def split: prod.splits sum.splits)+
  show ?thesis
    unfolding frames_def
  proof (intro allI impI)
    fix st r st' assume run: "prepare env ev st = (r, st')"
    obtain q st1 reg where s: "spill_strings (se_inline_max env) (spill_put env) (nv_payload ev) (st, []) = (q, (st1, reg))"
      by (metis prod.exhaust)
    with spill(1) [of "ts_db st" "(st, [])"] have st1: "ts_db st1 = ts_db st" by (metis D_def fst_conv snd_conv)
    show "ts_db st' = ts_db st"
    proof (cases "nv_blob ev")
      case (Some b)
      with run s st1 frames_blob_write show ?thesis
        by (cases b) (auto simp: prepare_def frames_def t_bind_def Let_def split: if_splits sum.splits prod.splits)
    qed (use run s st1 in \<open>auto simp: prepare_def Let_def split: if_splits sum.splits\<close>)
  qed
qed

lemma twp_prepare: "(\<And>p st'. ts_db st' = ts_db st \<Longrightarrow> Q p st') \<Longrightarrow> twp (prepare env ev) Q st"
  by (rule frames_twp) simp_all

section \<open>Tables\<close>

lemma sql_update_keys: "(\<And>r. k (f r) = k r) \<Longrightarrow> map k (sql_update p f rows) = map k rows"
  by (simp add: sql_update_def)

lemma sql_update_key_set: "(\<And>r. k (f r) = k r) \<Longrightarrow> k ` set (sql_update p f rows) = k ` set rows"
  using sql_update_keys [of k f p rows] by (metis set_map)

lemma set_sql_update: "set (sql_update p f rows) = (\<lambda>r. if p r then f r else r) ` set rows"
  by (simp add: sql_update_def)

end
