(* ===== verification/Trace_Invariant.thy ===== *)
theory Trace_Invariant
  imports Trace_Logic
begin

text \<open>
  What every operation of the trace store keeps: ids are unique, references lead somewhere, the
  events of a session and the steps of an agent are numbered from 1 without gaps, and a session's
  message count is the number of its stored messages.
\<close>

definition keys_ok :: "trace_db \<Rightarrow> bool" where
  "keys_ok db \<longleftrightarrow>
     distinct (map sr_id (db_sessions db)) \<and> distinct (map wr_id (db_workspaces db)) \<and>
     distinct (map ar_id (db_agents db)) \<and> distinct (map sp_id (db_steps db)) \<and>
     distinct (map br_id (db_blobs db)) \<and> distinct (map er_id (db_events db)) \<and>
     distinct (map kr_id (db_calls db)) \<and> distinct (map (\<lambda>r. (ml_session r, ml_seq r)) (db_messages db))"

definition opt_in :: "'a option \<Rightarrow> 'a set \<Rightarrow> bool" where
  "opt_in x S \<longleftrightarrow> (case x of None \<Rightarrow> True | Some y \<Rightarrow> y \<in> S)"

definition refs_ok :: "trace_db \<Rightarrow> bool" where
  "refs_ok db \<longleftrightarrow>
     (\<forall>r\<in>set (db_sessions db). opt_in (sr_workspace_id r) (wr_id ` set (db_workspaces db))) \<and>
     (\<forall>r\<in>set (db_agents db). ar_session r \<in> sr_id ` set (db_sessions db) \<and>
        opt_in (ar_parent r) (ar_id ` set (db_agents db))) \<and>
     (\<forall>r\<in>set (db_steps db). sp_agent r \<in> ar_id ` set (db_agents db)) \<and>
     (\<forall>r\<in>set (db_events db). er_session r \<in> sr_id ` set (db_sessions db) \<and>
        opt_in (er_blob r) (br_id ` set (db_blobs db))) \<and>
     (\<forall>r\<in>set (db_calls db). kr_request_event r \<in> er_id ` set (db_events db) \<and>
        opt_in (kr_response_event r) (er_id ` set (db_events db))) \<and>
     (\<forall>r\<in>set (db_messages db). ml_session r \<in> sr_id ` set (db_sessions db))"

definition numbered :: "nat list \<Rightarrow> bool" where
  "numbered ns \<longleftrightarrow> ns = [1..<Suc (length ns)]"

definition seqs_ok :: "trace_db \<Rightarrow> bool" where
  "seqs_ok db \<longleftrightarrow> (\<forall>s. numbered (event_seqs s db)) \<and> (\<forall>a. numbered (step_seqs a db))"

text \<open>The counts of all sessions but those in \<open>S\<close>, which a transaction has yet to refresh.\<close>

definition counts_ok :: "string set \<Rightarrow> trace_db \<Rightarrow> bool" where
  "counts_ok S db \<longleftrightarrow>
     (\<forall>r\<in>set (db_sessions db). sr_id r \<notin> S \<longrightarrow> sr_message_count r = length (session_rows (sr_id r) db))"

definition db_ok :: "string set \<Rightarrow> trace_db \<Rightarrow> bool" where
  "db_ok S db \<longleftrightarrow> keys_ok db \<and> refs_ok db \<and> seqs_ok db \<and> counts_ok S db"

abbreviation wf_db :: "trace_db \<Rightarrow> bool" where
  "wf_db \<equiv> db_ok {}"

lemmas db_ok_parts = db_ok_def keys_ok_def refs_ok_def seqs_ok_def counts_ok_def

lemma opt_in_simps [simp]: "opt_in None S" "opt_in (Some x) S \<longleftrightarrow> x \<in> S"
  by (simp_all add: opt_in_def)

lemma opt_in_mono: "opt_in x S \<Longrightarrow> S \<subseteq> T \<Longrightarrow> opt_in x T"
  by (auto simp: opt_in_def split: option.splits)

lemma numbered_snoc: "numbered ns \<Longrightarrow> numbered (ns @ [sql_max ns + 1])"
proof -
  assume n: "numbered ns"
  then have "sql_max ns = length ns" unfolding numbered_def by (metis length_upt diff_Suc_1 sql_max_upt)
  with n show ?thesis by (simp add: numbered_def) 
qed

lemma numbered_Nil [simp]: "numbered []"
  by (simp add: numbered_def)

lemma wf_empty: "wf_db db_empty"
  by (simp add: db_ok_parts db_empty_def event_seqs_def step_seqs_def)

section \<open>The writes\<close>

lemma ok_blobs:
  assumes "db_ok S db" "distinct (map br_id bs)" "br_id ` set (db_blobs db) \<subseteq> br_id ` set bs"
  shows "db_ok S (db\<lparr>db_blobs := bs\<rparr>)"
  using assms unfolding db_ok_parts event_seqs_def step_seqs_def session_rows_def
  by (auto intro: opt_in_mono)

lemma ok_workspaces:
  assumes "db_ok S db" "distinct (map wr_id ws)" "wr_id ` set (db_workspaces db) \<subseteq> wr_id ` set ws"
  shows "db_ok S (db\<lparr>db_workspaces := ws\<rparr>)"
  using assms unfolding db_ok_parts event_seqs_def step_seqs_def session_rows_def
  by (auto intro: opt_in_mono)

lemma ok_fts: "db_ok S db \<Longrightarrow> db_ok S (db\<lparr>db_fts := fs\<rparr>)"
  by (simp add: db_ok_parts event_seqs_def step_seqs_def session_rows_def)

text \<open>An update of session rows that keeps ids, counts and workspace links.\<close>

lemma ok_sessions_update:
  assumes "db_ok S db" "\<And>r. sr_id (f r) = sr_id r" "\<And>r. sr_message_count (f r) = sr_message_count r"
    "\<And>r. sr_workspace_id (f r) = sr_workspace_id r"
  shows "db_ok S (db\<lparr>db_sessions := sql_update p f (db_sessions db)\<rparr>)"
  using assms(1) unfolding db_ok_parts event_seqs_def step_seqs_def session_rows_def
  by (simp add: sql_update_keys [of sr_id f, OF assms(2)] sql_update_key_set [of sr_id f, OF assms(2)])
    (auto simp: set_sql_update assms)

lemma ok_events_snoc:
  assumes "db_ok S db" "er_id r \<notin> er_id ` set (db_events db)" "er_session r \<in> sr_id ` set (db_sessions db)"
    "opt_in (er_blob r) (br_id ` set (db_blobs db))" "er_seq r = sql_max (event_seqs (er_session r) db) + 1"
  shows "db_ok S (db\<lparr>db_events := db_events db @ [r]\<rparr>)"
proof -
  have "numbered (event_seqs s (db\<lparr>db_events := db_events db @ [r]\<rparr>))" for s
    using assms(1,5) numbered_snoc [of "event_seqs s db"]
    by (auto simp: db_ok_def seqs_ok_def event_seqs_def)
  moreover have "keys_ok (db\<lparr>db_events := db_events db @ [r]\<rparr>)"
    using assms(1,2) by (auto simp: db_ok_def keys_ok_def)
  moreover have "refs_ok (db\<lparr>db_events := db_events db @ [r]\<rparr>)"
    using assms(1,3,4) unfolding db_ok_def refs_ok_def by (auto intro: opt_in_mono)
  ultimately show ?thesis
    using assms(1) by (simp add: db_ok_def seqs_ok_def step_seqs_def counts_ok_def session_rows_def)
qed

lemma ok_sessions_snoc:
  assumes "db_ok S db" "sr_id r \<notin> sr_id ` set (db_sessions db)"
    "opt_in (sr_workspace_id r) (wr_id ` set (db_workspaces db))" "sr_message_count r = 0"
  shows "db_ok S (db\<lparr>db_sessions := db_sessions db @ [r]\<rparr>)"
proof -
  have "\<forall>x\<in>set (db_messages db). ml_session x \<noteq> sr_id r"
    using assms(1,2) unfolding db_ok_def refs_ok_def by metis
  then have "session_rows (sr_id r) db = []"
    by (simp add: session_rows_def filter_empty_conv)
  with assms show ?thesis
    unfolding db_ok_parts event_seqs_def step_seqs_def by (auto simp: session_rows_def)
qed

lemma ok_agents_snoc:
  assumes "db_ok S db" "ar_id r \<notin> ar_id ` set (db_agents db)" "ar_session r \<in> sr_id ` set (db_sessions db)"
    "opt_in (ar_parent r) (ar_id ` set (db_agents db))"
  shows "db_ok S (db\<lparr>db_agents := db_agents db @ [r]\<rparr>)"
  using assms unfolding db_ok_parts event_seqs_def step_seqs_def session_rows_def
  by (auto intro: opt_in_mono)

lemma ok_agents_update:
  assumes "db_ok S db" "\<And>r. ar_id (f r) = ar_id r" "\<And>r. ar_session (f r) = ar_session r"
    "\<And>r. ar_parent (f r) = ar_parent r"
  shows "db_ok S (db\<lparr>db_agents := sql_update p f (db_agents db)\<rparr>)"
  using assms(1) unfolding db_ok_parts event_seqs_def step_seqs_def session_rows_def
  by (simp add: sql_update_keys [of ar_id f, OF assms(2)] sql_update_key_set [of ar_id f, OF assms(2)])
    (auto simp: set_sql_update assms)

lemma ok_steps_snoc:
  assumes "db_ok S db" "sp_id r \<notin> sp_id ` set (db_steps db)" "sp_agent r \<in> ar_id ` set (db_agents db)"
    "sp_seq r = sql_max (step_seqs (sp_agent r) db) + 1"
  shows "db_ok S (db\<lparr>db_steps := db_steps db @ [r]\<rparr>)"
proof -
  have "numbered (step_seqs a (db\<lparr>db_steps := db_steps db @ [r]\<rparr>))" for a
    using assms(1,4) numbered_snoc [of "step_seqs a db"]
    by (auto simp: db_ok_def seqs_ok_def step_seqs_def)
  then show ?thesis
    using assms(1-3) by (auto simp: db_ok_parts event_seqs_def session_rows_def)
qed

lemma step_seqs_update:
  assumes "\<And>r. sp_agent (f r) = sp_agent r" "\<And>r. sp_seq (f r) = sp_seq r"
  shows "step_seqs a (db\<lparr>db_steps := sql_update p f (db_steps db)\<rparr>) = step_seqs a db"
proof -
  have "map sp_seq (filter (\<lambda>r. sp_agent r = a) (sql_update p f rows)) = map sp_seq (filter (\<lambda>r. sp_agent r = a) rows)" for rows
    by (induction rows) (simp_all add: sql_update_def assms)
  then show ?thesis by (simp add: step_seqs_def)
qed

lemma ok_steps_update:
  assumes "db_ok S db" "\<And>r. sp_id (f r) = sp_id r" "\<And>r. sp_agent (f r) = sp_agent r" "\<And>r. sp_seq (f r) = sp_seq r"
  shows "db_ok S (db\<lparr>db_steps := sql_update p f (db_steps db)\<rparr>)"
proof -
  have "seqs_ok (db\<lparr>db_steps := sql_update p f (db_steps db)\<rparr>)"
    using assms(1) step_seqs_update [of f, OF assms(3,4)] by (simp add: db_ok_def seqs_ok_def event_seqs_def)
  moreover have "keys_ok (db\<lparr>db_steps := sql_update p f (db_steps db)\<rparr>)"
    using assms(1) by (simp add: db_ok_def keys_ok_def sql_update_keys [of sp_id f, OF assms(2)])
  ultimately show ?thesis
    using assms(1) by (auto simp: db_ok_def refs_ok_def counts_ok_def session_rows_def set_sql_update assms(3))
qed

lemma ok_calls_snoc:
  assumes "db_ok S db" "kr_id r \<notin> kr_id ` set (db_calls db)" "kr_request_event r \<in> er_id ` set (db_events db)"
    "kr_response_event r = None"
  shows "db_ok S (db\<lparr>db_calls := db_calls db @ [r]\<rparr>)"
  using assms unfolding db_ok_parts event_seqs_def step_seqs_def session_rows_def by auto

lemma ok_calls_update:
  assumes "db_ok S db" "\<And>r. kr_id (f r) = kr_id r" "\<And>r. kr_request_event (f r) = kr_request_event r"
    "\<And>r. p r \<Longrightarrow> r \<in> set (db_calls db) \<Longrightarrow> opt_in (kr_response_event (f r)) (er_id ` set (db_events db))"
  shows "db_ok S (db\<lparr>db_calls := sql_update p f (db_calls db)\<rparr>)"
proof -
  have "refs_ok (db\<lparr>db_calls := sql_update p f (db_calls db)\<rparr>)"
    using assms(1,3,4) by (auto simp: db_ok_def refs_ok_def set_sql_update)
  then show ?thesis
    using assms(1) by (simp add: db_ok_def keys_ok_def seqs_ok_def event_seqs_def step_seqs_def counts_ok_def
        session_rows_def sql_update_keys [of kr_id f, OF assms(2)])
qed

text \<open>Messages: the count of their session is to be refreshed.\<close>

lemma upsert_rows:
  assumes "s \<noteq> nm_session m"
  shows "filter (\<lambda>r. ml_session r = s) (upsert_message m t rows) = filter (\<lambda>r. ml_session r = s) rows"
proof -
  have "filter (\<lambda>r. ml_session r = s) (sql_update (message_at (nm_session m) n) (\<lambda>r. r\<lparr>ml_role := a, ml_content := b,
      ml_agent := c, ml_step := d\<rparr>) rows) = filter (\<lambda>r. ml_session r = s) rows" for n a b c d
    using assms by (induction rows) (auto simp: sql_update_def message_at_def)
  with assms show ?thesis by (simp add: upsert_message_def Let_def)
qed

lemma upsert_keys:
  assumes "distinct (map (\<lambda>r. (ml_session r, ml_seq r)) rows)"
  shows "distinct (map (\<lambda>r. (ml_session r, ml_seq r)) (upsert_message m t rows))"
  using assms by (auto simp: upsert_message_def Let_def sql_update_keys message_at_def)

lemma upsert_sessions:
  "r \<in> set (upsert_message m t rows) \<Longrightarrow> ml_session r = nm_session m \<or> (\<exists>q\<in>set rows. ml_session r = ml_session q)"
  by (auto simp: upsert_message_def Let_def set_sql_update message_at_def split: if_splits)

lemma ok_message:
  assumes "db_ok S db" "has_session (nm_session m) db"
  shows "db_ok (insert (nm_session m) S)
    (db\<lparr>db_messages := upsert_message m t (db_messages db), db_fts := fs\<rparr>)"
proof -
  let ?db = "db\<lparr>db_messages := upsert_message m t (db_messages db), db_fts := fs\<rparr>"
  have "\<forall>r\<in>set (upsert_message m t (db_messages db)). ml_session r \<in> sr_id ` set (db_sessions db)"
  proof
    fix r assume "r \<in> set (upsert_message m t (db_messages db))"
    from upsert_sessions [OF this] show "ml_session r \<in> sr_id ` set (db_sessions db)"
      using assms by (auto simp: db_ok_def refs_ok_def has_session_def)
  qed
  then have "refs_ok ?db" using assms(1) by (simp add: db_ok_def refs_ok_def)
  moreover have "keys_ok ?db" using assms(1) by (simp add: db_ok_def keys_ok_def upsert_keys)
  moreover have "seqs_ok ?db" using assms(1) by (simp add: db_ok_def seqs_ok_def event_seqs_def step_seqs_def)
  moreover have "counts_ok (insert (nm_session m) S) ?db"
    using assms(1) by (simp add: db_ok_def counts_ok_def session_rows_def upsert_rows)
  ultimately show ?thesis by (simp add: db_ok_def)
qed

lemma ok_messages_removed:
  assumes "db_ok S db"
  shows "db_ok (insert s S) (db\<lparr>db_messages := filter (\<lambda>r. \<not> (ml_session r = s \<and> p r)) (db_messages db)\<rparr>)"
proof -
  have "filter (\<lambda>r. ml_session r = s') (filter (\<lambda>r. ml_session r = s \<longrightarrow> \<not> p r) rows) = filter (\<lambda>r. ml_session r = s') rows"
    if "s' \<noteq> s" for s' rows
    using that by (induction rows) auto
  with assms show ?thesis
    unfolding db_ok_parts event_seqs_def step_seqs_def session_rows_def
    by (auto simp: distinct_map_filter)
qed

lemma ok_truncated:
  assumes "db_ok S db"
  shows "db_ok (insert s S) (db\<lparr>db_fts := fs,
    db_messages := filter (\<lambda>r. ml_session r = s \<longrightarrow> \<not> p r) (db_messages db)\<rparr>)"
  using ok_messages_removed [where s = s and p = p, OF ok_fts [OF assms, of fs]] by simp

lemma ok_counted:
  assumes "db_ok (insert s S) db"
  shows "db_ok S (db\<lparr>db_sessions := sql_update (\<lambda>r. sr_id r = s)
    (\<lambda>r. r\<lparr>sr_message_count := length (session_rows s db), sr_updated_at := t\<rparr>) (db_sessions db)\<rparr>)"
proof -
  let ?f = "\<lambda>r. r\<lparr>sr_message_count := length (session_rows s db), sr_updated_at := t\<rparr>"
  let ?db = "db\<lparr>db_sessions := sql_update (\<lambda>r. sr_id r = s) ?f (db_sessions db)\<rparr>"
  have ids: "map sr_id (sql_update p ?f rows) = map sr_id rows" "sr_id ` set (sql_update p ?f rows) = sr_id ` set rows" for p rows
    by (simp_all add: sql_update_keys sql_update_key_set)
  have "counts_ok S ?db"
    using assms by (auto simp: db_ok_def counts_ok_def set_sql_update session_rows_def)
  moreover have "\<forall>r\<in>set (db_sessions ?db). opt_in (sr_workspace_id r) (wr_id ` set (db_workspaces db))"
    using assms by (auto simp: db_ok_def refs_ok_def set_sql_update)
  then have "refs_ok ?db"
    using assms by (simp add: db_ok_def refs_ok_def ids)
  ultimately show ?thesis
    using assms by (simp add: db_ok_def keys_ok_def seqs_ok_def event_seqs_def step_seqs_def ids)
qed

section \<open>The operations\<close>

lemma twp_register:
  assumes "db_ok S (ts_db st)"
    "\<And>st'. db_ok S (ts_db st') \<Longrightarrow> (\<exists>bs. ts_db st' = (ts_db st)\<lparr>db_blobs := bs\<rparr>) \<Longrightarrow>
       fst b \<in> br_id ` set (db_blobs (ts_db st')) \<Longrightarrow>
       br_id ` set (db_blobs (ts_db st)) \<subseteq> br_id ` set (db_blobs (ts_db st')) \<Longrightarrow> Q () st'"
  shows "twp (register_blob env b) Q st"
proof -
  obtain i n mt where b: "b = (i, n, mt)" by (rule prod_cases3)
  have "distinct (map br_id (db_blobs (ts_db st)))" using assms(1) by (simp add: db_ok_parts)
  then show ?thesis
    unfolding b register_blob_def prod.case twp
    by (intro assms(2))
      (auto intro!: ok_blobs assms(1) simp: sql_update_keys sql_update_key_set b)
qed

definition grown :: "trace_db \<Rightarrow> trace_db \<Rightarrow> bool" where
  "grown db db' \<longleftrightarrow>
     er_id ` set (db_events db) \<subseteq> er_id ` set (db_events db') \<and> map sr_id (db_sessions db') = map sr_id (db_sessions db) \<and>
     db_messages db' = db_messages db \<and> db_calls db' = db_calls db \<and> db_agents db' = db_agents db \<and>
     db_steps db' = db_steps db \<and> db_workspaces db' = db_workspaces db"

definition only_blobs :: "string set \<Rightarrow> trace_db \<Rightarrow> trace_store \<Rightarrow> bool" where
  "only_blobs S db st \<longleftrightarrow> db_ok S (ts_db st) \<and> (\<exists>bs. ts_db st = db\<lparr>db_blobs := bs\<rparr>)"

lemma twp_registered: "only_blobs S db st \<Longrightarrow> twp (register_blob env b) (\<lambda>_. only_blobs S db) st"
  by (rule twp_register [of S]) (auto simp: only_blobs_def)

lemma twp_referenced:
  assumes "only_blobs S db st"
  shows "twp (case r of None \<Rightarrow> t_return () | Some i \<Rightarrow> reference_blob i) (\<lambda>_. only_blobs S db) st"
proof (cases r)
  case (Some i)
  from assms have ok: "db_ok S (ts_db st)" and bs: "\<exists>bs. ts_db st = db\<lparr>db_blobs := bs\<rparr>"
    by (simp_all add: only_blobs_def)
  have "distinct (map br_id (db_blobs (ts_db st)))" using ok by (simp add: db_ok_def keys_ok_def)
  with ok_blobs [OF ok] bs Some show ?thesis
    by (auto simp: reference_blob_def twp only_blobs_def sql_update_keys sql_update_key_set)
qed (use assms in \<open>simp add: twp\<close>)

lemma twp_insert_row:
  assumes "db_ok S (ts_db st)" "er_session r \<in> sr_id ` set (db_sessions (ts_db st))"
    "er_seq r = sql_max (event_seqs (er_session r) (ts_db st)) + 1"
    "\<And>st'. ts_db st' = (ts_db st)\<lparr>db_events := db_events (ts_db st) @ [r]\<rparr> \<Longrightarrow> db_ok S (ts_db st') \<Longrightarrow> Q () st'"
  shows "twp (insert_event_row r) Q st"
  unfolding insert_event_row_def twp
  by (intro impI assms(4)) (simp_all add: ok_events_snoc assms opt_in_def)

lemma ok_touched: "db_ok S db \<Longrightarrow> db_ok S (session_touched s now db)"
  by (simp add: session_touched_def ok_sessions_update)

lemma twp_insert_event:
  assumes ok: "db_ok S (ts_db st)"
    and Q: "\<And>i st'. db_ok S (ts_db st') \<Longrightarrow> i \<in> er_id ` set (db_events (ts_db st')) \<Longrightarrow>
        grown (ts_db st) (ts_db st') \<Longrightarrow> Q i st'"
  shows "twp (insert_event env p) Q st"
  unfolding insert_event_def Let_def twp
proof (rule twp_mono [OF twp_all [where I = "only_blobs S (ts_db st)"]], goal_cases)
  case (1 b st1)
  show ?case by (rule twp_registered [OF 1(2)])
next
  case 2
  show ?case using ok by (auto simp: only_blobs_def intro!: exI [of _ "db_blobs (ts_db st)"])
next
  case (3 x st1)
  show ?case
  proof (rule twp_mono [OF twp_referenced [OF 3]], intro impI)
    fix y st2 assume b: "only_blobs S (ts_db st) st2" and s: "has_session (nv_session (pp_ev p)) (ts_db st2)"
    then obtain bs where db: "ts_db st2 = (ts_db st)\<lparr>db_blobs := bs\<rparr>" and ok2: "db_ok S (ts_db st2)"
      by (auto simp: only_blobs_def)
    let ?i = "se_id env (ts_ids st2)"
    let ?st3 = "st2\<lparr>ts_ids := Suc (ts_ids st2), ts_ticks := Suc (ts_ticks st2)\<rparr>"
    show "twp (insert_event_row (event_row_of p ?i (se_now env (ts_ticks (st2\<lparr>ts_ids := Suc (ts_ids st2)\<rparr>)))
              (ts_db (st2\<lparr>ts_ids := Suc (ts_ids st2), ts_ticks := Suc (ts_ticks (st2\<lparr>ts_ids := Suc (ts_ids st2)\<rparr>))\<rparr>))))
          (\<lambda>_ st'. Q ?i (st'\<lparr>ts_db := session_touched (nv_session (pp_ev p))
               (se_now env (ts_ticks (st2\<lparr>ts_ids := Suc (ts_ids st2)\<rparr>))) (ts_db st')\<rparr>))
          (st2\<lparr>ts_ids := Suc (ts_ids st2), ts_ticks := Suc (ts_ticks (st2\<lparr>ts_ids := Suc (ts_ids st2)\<rparr>))\<rparr>)"
      apply (rule twp_insert_row [of S])
      subgoal using ok2 by simp
      subgoal using s by (simp add: event_row_of_def has_session_def)
      subgoal by (simp add: event_row_of_def)
      subgoal for st4
        by (rule Q, simp add: ok_touched)
          (auto simp: session_touched_def grown_def db sql_update_keys event_row_of_def)
      done
  qed
qed

lemma twp_insert_then:
  "db_ok S (ts_db st) \<Longrightarrow> twp (insert_event env p) (\<lambda>_ st'. db_ok S (ts_db st')) st"
  by (rule twp_insert_event)

lemma keeps_frames_bind: "frames m \<Longrightarrow> (\<And>x. keeps P (f x)) \<Longrightarrow> keeps P (t_bind m f)"
  by (simp add: keeps_bind frames_keeps)

lemma keeps_create_session: "keeps wf_db (create_session env s)"
  unfolding create_session_def
proof (intro keeps_frames_bind frames_basic frames_prepare keeps_transaction, goal_cases)
  case (1 i now created st)
  let ?r = "\<lparr>sr_id = i, sr_created_at = now, sr_updated_at = now, sr_title = ns_title s,
             sr_title_source = map_option (\<lambda>_. title_source_str TitleUser) (ns_title s),
             sr_workspace_path = ns_workspace_path s, sr_workspace_id = ns_workspace_id s,
             sr_config = ns_config s, sr_status = SessionOpen, sr_message_count = 0,
             sr_last_agent_status = None, sr_prompt_version = None, sr_tools_hash = None\<rparr>"
  have ws: "distinct (map wr_id (db_workspaces (ts_db st)))" using 1 by (simp add: db_ok_def keys_ok_def)
  show ?case
    unfolding twp
    apply (intro impI twp_insert_then)
    using 1 ok_sessions_snoc [of "{}" "ts_db st" ?r] ws
    by (auto simp: has_session_def opt_in_def sql_update_keys sql_update_key_set split: option.splits
        intro!: ok_workspaces)
qed

lemma twp_update_session:
  assumes "db_ok S (ts_db st)" "\<And>r. sr_id (f r) = sr_id r" "\<And>r. sr_message_count (f r) = sr_message_count r"
    "\<And>r. sr_workspace_id (f r) = sr_workspace_id r" "\<And>st'. db_ok S (ts_db st') \<Longrightarrow> Q () st'"
  shows "twp (update_session i p f) Q st"
  unfolding update_session_def twp by (intro impI assms(5)) (simp add: ok_sessions_update assms)

lemma keeps_set_session_status: "keeps wf_db (set_session_status env i s)"
  unfolding set_session_status_def
  by (intro keeps_frames_bind frames_basic keeps_transaction twp_update_session) simp_all

lemma keeps_set_session_title: "keeps wf_db (set_session_title env i title src)"
  unfolding set_session_title_def
  apply (rule keeps_frames_bind [OF frames_basic(7)], rule keeps_bind)
  subgoal by (rule keeps_transaction) (simp add: twp ok_sessions_update)
  subgoal by (auto intro!: frames_keeps frames_bind)
  done

lemma keeps_set_session_prefix: "keeps wf_db (set_session_prefix env i v h)"
  unfolding set_session_prefix_def by (intro keeps_transaction twp_update_session) simp_all

lemma keeps_start_agent: "keeps wf_db (start_agent env a)"
  unfolding start_agent_def
  by (intro keeps_frames_bind frames_basic frames_prepare keeps_transaction)
    (auto simp: twp has_session_def opt_in_def split: option.splits intro!: twp_insert_then ok_agents_snoc)

lemma twp_end_agent:
  "db_ok S (ts_db st) \<Longrightarrow> (\<And>st'. db_ok S (ts_db st') \<Longrightarrow> Q () st') \<Longrightarrow> twp (end_agent i status now) Q st"
  unfolding end_agent_def twp by (auto simp: ok_agents_update)

lemma keeps_finish_agent: "keeps wf_db (finish_agent env i status e)"
  unfolding finish_agent_def get_agent_def
  by (intro keeps_frames_bind frames_bind frames_basic frames_found frames_prepare keeps_transaction)
    (auto simp: twp session_ended_def ok_sessions_update intro!: twp_end_agent twp_insert_then)

lemma keeps_start_step: "keeps wf_db (start_step env a)"
  unfolding start_step_def
  by (intro keeps_frames_bind frames_basic keeps_transaction) (auto simp: twp intro!: ok_steps_snoc)

lemma keeps_finish_step: "keeps wf_db (finish_step env i status)"
  unfolding finish_step_def
  by (intro keeps_frames_bind frames_basic keeps_transaction) (auto simp: twp ok_steps_update)

lemma keeps_append_event: "keeps wf_db (append_event env ev)"
  unfolding append_event_def
  by (intro keeps_frames_bind frames_prepare keeps_transaction twp_insert_then)

lemma frames_each: "(\<And>x. frames (f x)) \<Longrightarrow> frames (t_each f xs)"
  by (induction xs) (auto intro!: frames_bind)

lemma twp_insert_each:
  "db_ok S (ts_db st) \<Longrightarrow> twp (t_each (insert_event env) ps) (\<lambda>_ st'. db_ok S (ts_db st')) st"
  by (rule twp_each) (auto intro: twp_insert_then)

lemma keeps_append_all: "keeps wf_db (append_all env evs)"
  unfolding append_all_def
  by (intro keeps_frames_bind frames_each frames_prepare keeps_transaction twp_insert_each)

lemma frames_catch: "frames m \<Longrightarrow> frames (t_catch m)"
  by (auto simp: frames_def t_catch_def split: prod.splits)

lemma twp_append_slot:
  assumes "wf_db (ts_db st)"
  shows "twp (append_slot env p) (\<lambda>_ st'. wf_db (ts_db st')) st"
proof (cases p)
  case (Inr q)
  obtain r st' where i: "insert_event env q st = (r, st')" by (cases "insert_event env q st")
  from twp_insert_then [OF assms, of env q] i assms Inr show ?thesis
    by (cases r) (auto simp: append_slot_def t_catch_def savepoint_def twp_def)
qed (use assms in \<open>simp add: append_slot_def twp\<close>)

lemma keeps_append_batch: "keeps wf_db (append_batch env evs)"
  unfolding append_batch_def
  by (intro keeps_frames_bind frames_each frames_catch frames_prepare keeps_transaction twp_each [where I = "\<lambda>st. wf_db (ts_db st)"] twp_append_slot)

lemma keeps_put_blob: "keeps wf_db (put_blob env b mt)"
  unfolding put_blob_def split_beta
  by (intro keeps_frames_bind frames_blob_write keeps_bind keeps_return keeps_transaction)
    (rule twp_register, auto)

lemma frames_blob_remove [simp]: "frames (blob_remove env i)"
  by (auto simp: frames_def blob_remove_def t_bind_def t_io_def split: option.splits)

lemma keeps_prune_blob: "keeps wf_db (prune_blob env i)"
  unfolding prune_blob_def
proof (rule keeps_frames_bind [OF frames_basic(7)], rule keeps_then, rule keeps_transaction, goal_cases)
  case (1 now st)
  then have "distinct (map br_id (db_blobs (ts_db st)))" by (simp add: db_ok_def keys_ok_def)
  with 1 show ?case
    by (auto simp: twp sql_update_keys sql_update_key_set intro!: ok_blobs)
qed (simp add: frames_keeps)

lemma twp_insert_call:
  assumes "db_ok S (ts_db st)"
  shows "twp (insert_mentor_call env c) (\<lambda>_ st'. db_ok S (ts_db st')) st"
  using assms
  by (cases "ks_started_at c") (auto simp: insert_mentor_call_def twp intro!: ok_calls_snoc)

lemma twp_update_call:
  assumes "db_ok S (ts_db st)"
  shows "twp (update_mentor_call env c) (\<lambda>_ st'. db_ok S (ts_db st')) st"
  using assms
  by (auto simp: update_mentor_call_def twp call_ended_def opt_in_def sql_count_def split: option.splits
      intro!: ok_calls_update)

lemma keeps_record_mentor_call: "keeps wf_db (record_mentor_call env c)"
  unfolding record_mentor_call_def by (intro keeps_transaction twp_insert_call)

lemma keeps_complete_mentor_call: "keeps wf_db (complete_mentor_call env c)"
  unfolding complete_mentor_call_def by (intro keeps_transaction twp_update_call)

lemma keeps_append_with_call: "keeps wf_db (append_with_call env ev c)"
  unfolding append_with_call_def
  by (intro keeps_frames_bind frames_prepare keeps_transaction)
    (auto simp: twp intro!: twp_insert_event twp_insert_call)

lemma keeps_append_with_completion: "keeps wf_db (append_with_completion env evs c b)"
  unfolding append_with_completion_def
  by (intro keeps_frames_bind frames_each frames_prepare keeps_transaction)
    (auto simp: twp intro!: twp_mono [OF twp_insert_each] twp_update_call)

lemma twp_add_row:
  assumes "wf_db (ts_db st)"
  shows "twp (case find (\<lambda>r. wr_id r = i) ws of Some w \<Rightarrow> t_return w | None \<Rightarrow> t_fail e) (\<lambda>_ st'. wf_db (ts_db st')) st"
  using assms by (simp add: twp split: option.split)

lemma keeps_add_workspace: "keeps wf_db (add_workspace env root name)"
  unfolding add_workspace_def
proof (rule keeps_transaction, goal_cases)
  case (1 st)
  then have ws: "distinct (map wr_id (db_workspaces (ts_db st)))" by (simp add: db_ok_def keys_ok_def)
  with 1 show ?case
    by (cases "find (\<lambda>r. wr_root r = root) (db_workspaces (ts_db st))")
      (auto simp: twp sql_update_keys sql_update_key_set intro!: twp_add_row ok_workspaces)
qed

lemma keeps_update_workspace:
  assumes "\<And>r. wr_id (f r) = wr_id r"
  shows "keeps wf_db (update_workspace env i f)"
  unfolding update_workspace_def
proof (rule keeps_transaction, goal_cases)
  case (1 st)
  then have "distinct (map wr_id (db_workspaces (ts_db st)))" by (simp add: db_ok_def keys_ok_def)
  with 1 show ?case
    by (auto simp: twp sql_update_keys sql_update_key_set assms intro!: ok_workspaces)
qed

lemma keeps_workspace_updates:
  "keeps wf_db (touch_workspace env i)" "keeps wf_db (rename_workspace env i n)"
  "keeps wf_db (set_workspace_settings env i v)"
  by (simp_all add: touch_workspace_def rename_workspace_def set_workspace_settings_def keeps_update_workspace
      keeps_frames_bind)

lemma keeps_remove_workspace: "keeps wf_db (remove_workspace env i)"
  unfolding remove_workspace_def
proof (rule keeps_transaction, unfold twp prod.case, intro impI)
  fix st :: trace_store assume ok: "wf_db (ts_db st)"
  let ?f = "\<lambda>r. r\<lparr>sr_workspace_id := None\<rparr>" and ?p = "\<lambda>r. sr_workspace_id r = Some i"
  let ?db = "ts_db (st\<lparr>ts_db := ts_db st\<lparr>db_sessions := sql_update ?p ?f (db_sessions (ts_db st)),
      db_workspaces := filter (\<lambda>r. wr_id r \<noteq> i) (db_workspaces (ts_db st))\<rparr>\<rparr>)"
  have ids: "map sr_id (sql_update ?p ?f rows) = map sr_id rows" "sr_id ` set (sql_update ?p ?f rows) = sr_id ` set rows" for rows
    by (simp_all add: sql_update_keys sql_update_key_set)
  have "\<forall>r\<in>set (sql_update ?p ?f (db_sessions (ts_db st))).
      opt_in (sr_workspace_id r) (wr_id ` set (filter (\<lambda>r. wr_id r \<noteq> i) (db_workspaces (ts_db st))))"
    using ok by (fastforce simp: db_ok_def refs_ok_def set_sql_update opt_in_def split: option.splits)
  then have "refs_ok ?db" using ok by (simp add: db_ok_def refs_ok_def ids)
  moreover have "counts_ok {} ?db"
    using ok by (auto simp: db_ok_def counts_ok_def set_sql_update session_rows_def)
  ultimately show "wf_db ?db"
    using ok by (simp add: db_ok_def keys_ok_def seqs_ok_def event_seqs_def step_seqs_def ids distinct_map_filter)
qed

section \<open>Messages, archive and delete\<close>

lemma twp_put_at:
  assumes "db_ok S (ts_db st)"
  shows "twp (put_message_at m t) (\<lambda>_ st'. db_ok (insert (nm_session m) S) (ts_db st')) st"
  using assms unfolding put_message_at_def twp by (auto intro: ok_message)

lemma twp_refresh:
  assumes "db_ok (insert s S) (ts_db st)"
  shows "twp (refresh_count env s) (\<lambda>_ st'. db_ok S (ts_db st')) st"
  using assms ok_counted [of s S "ts_db st"] by (auto simp: refresh_count_def update_session_def twp)

lemma twp_put_message:
  assumes "db_ok S (ts_db st)"
  shows "twp (put_message env m) (\<lambda>_ st'. db_ok S (ts_db st')) st"
  unfolding put_message_def twp
  by (rule twp_mono [OF twp_put_at [of S]]) (use assms in \<open>auto intro: twp_refresh\<close>)

lemma keeps_put_session_message: "keeps wf_db (put_session_message env m)"
  unfolding put_session_message_def by (intro keeps_transaction twp_put_message)

lemma keeps_append_with_message: "keeps wf_db (append_with_message env ev m)"
  unfolding append_with_message_def
  by (intro keeps_frames_bind frames_prepare keeps_transaction)
    (auto simp: twp intro!: twp_insert_event twp_put_message)

lemma keeps_truncate: "keeps wf_db (truncate_session_messages env s n)"
  unfolding truncate_session_messages_def
  by (rule keeps_transaction, unfold twp, rule twp_refresh) (simp add: ok_truncated)

lemma keeps_archive: "keeps wf_db (archive_session env i b)"
  unfolding archive_session_def Let_def
  by (intro keeps_frames_bind frames_prepare keeps_transaction)
    (auto simp: twp intro!: twp_update_session twp_insert_then)

text \<open>A session's messages removed, and its row updated or its rows removed with it.\<close>

lemma ok_session_deleted:
  assumes "db_ok (insert s S) db" "session_rows s db = []"
  shows "db_ok S (db\<lparr>db_sessions := sql_update (\<lambda>r. sr_id r = s)
    (\<lambda>r. r\<lparr>sr_status := x, sr_message_count := 0, sr_updated_at := t\<rparr>) (db_sessions db)\<rparr>)"
proof -
  let ?f = "\<lambda>r. r\<lparr>sr_status := x, sr_message_count := 0, sr_updated_at := t\<rparr>"
  let ?db = "db\<lparr>db_sessions := sql_update (\<lambda>r. sr_id r = s) ?f (db_sessions db)\<rparr>"
  have ids: "map sr_id (sql_update p ?f rows) = map sr_id rows" "sr_id ` set (sql_update p ?f rows) = sr_id ` set rows" for p rows
    by (simp_all add: sql_update_keys sql_update_key_set)
  have "counts_ok S ?db"
    using assms by (auto simp: db_ok_def counts_ok_def set_sql_update session_rows_def)
  moreover have "\<forall>r\<in>set (db_sessions ?db). opt_in (sr_workspace_id r) (wr_id ` set (db_workspaces db))"
    using assms by (auto simp: db_ok_def refs_ok_def set_sql_update)
  then have "refs_ok ?db"
    using assms by (simp add: db_ok_def refs_ok_def ids)
  ultimately show ?thesis
    using assms by (simp add: db_ok_def keys_ok_def seqs_ok_def event_seqs_def step_seqs_def ids)
qed

lemma numbered_filtered:
  assumes "\<forall>s. numbered (map f (filter (\<lambda>r. k r = s) rows))"
    and "\<And>s. (\<forall>r\<in>set rows. k r = s \<longrightarrow> p r) \<or> (\<forall>r\<in>set rows. k r = s \<longrightarrow> \<not> p r)"
  shows "\<forall>s. numbered (map f (filter (\<lambda>r. k r = s) (filter p rows)))"
proof
  fix s
  consider "\<forall>r\<in>set rows. k r = s \<longrightarrow> p r" | "\<forall>r\<in>set rows. k r = s \<longrightarrow> \<not> p r"
    using assms(2) by blast
  then show "numbered (map f (filter (\<lambda>r. k r = s) (filter p rows)))"
  proof cases
    case 1
    then have "filter (\<lambda>r. k r = s) (filter p rows) = filter (\<lambda>r. k r = s) rows"
      by (auto intro: filter_cong simp: filter_filter)
    with assms(1) show ?thesis by simp
  next
    case 2
    then have "filter (\<lambda>r. k r = s) (filter p rows) = []"
      by (auto simp: filter_empty_conv)
    then show ?thesis by simp
  qed
qed

lemma image_kept: "y \<in> k ` set rows \<Longrightarrow> y \<notin> k ` {x \<in> set rows. p x} \<Longrightarrow> y \<in> k ` {x \<in> set rows. \<not> p x}"
  by auto

text \<open>What \<open>purge_session\<close> leaves, given what it has checked on the way.\<close>

definition purged :: "string \<Rightarrow> trace_db \<Rightarrow> trace_db" where
  "purged i db = db
     \<lparr>db_calls := filter (\<lambda>r. kr_session r \<noteq> i) (db_calls db),
      db_events := filter (\<lambda>r. er_session r \<noteq> i) (db_events db),
      db_steps := filter (\<lambda>r. sp_agent r \<notin> ar_id ` set (filter (\<lambda>r. ar_session r = i) (db_agents db))) (db_steps db),
      db_agents := filter (\<lambda>r. ar_session r \<noteq> i) (db_agents db),
      db_sessions := filter (\<lambda>r. sr_id r \<noteq> i) (db_sessions db)\<rparr>"

lemma ok_purged:
  assumes ok: "db_ok (insert i S) db" and msgs: "session_rows i db = []"
    and held: "\<not> (\<exists>r\<in>set (filter (\<lambda>r. kr_session r \<noteq> i) (db_calls db)).
        kr_request_event r \<in> er_id ` set (filter (\<lambda>r. er_session r = i) (db_events db)) \<or>
        (\<exists>e. kr_response_event r = Some e \<and> e \<in> er_id ` set (filter (\<lambda>r. er_session r = i) (db_events db))))"
    and parents: "\<not> (\<exists>r\<in>set (db_agents db). ar_session r \<noteq> i \<and>
        (\<exists>p. ar_parent r = Some p \<and> p \<in> ar_id ` set (filter (\<lambda>r. ar_session r = i) (db_agents db))))"
  shows "db_ok S (purged i db)"
proof -
  have keys: "keys_ok db" and refs: "refs_ok db" and seqs: "seqs_ok db" and counts: "counts_ok (insert i S) db"
    using ok by (simp_all add: db_ok_def)
  have "keys_ok (purged i db)"
    using keys by (simp add: keys_ok_def purged_def distinct_map_filter)
  moreover have "counts_ok S (purged i db)"
    using counts by (auto simp: counts_ok_def purged_def session_rows_def)
  moreover have "seqs_ok (purged i db)"
  proof -
    have "numbered (map sp_seq (filter (\<lambda>r. sp_agent r = a)
        (filter (\<lambda>r. sp_agent r \<notin> ar_id ` set (filter (\<lambda>r. ar_session r = i) (db_agents db))) (db_steps db))))" for a
      by (rule numbered_filtered [rule_format]) (use seqs in \<open>auto simp: seqs_ok_def step_seqs_def\<close>)
    moreover have "numbered (map er_seq (filter (\<lambda>r. er_session r = s) (filter (\<lambda>r. er_session r \<noteq> i) (db_events db))))" for s
      by (rule numbered_filtered [rule_format]) (use seqs in \<open>auto simp: seqs_ok_def event_seqs_def\<close>)
    ultimately show ?thesis
      unfolding seqs_ok_def step_seqs_def event_seqs_def purged_def by simp
  qed
  moreover have "refs_ok (purged i db)"
  proof -
    have "kr_request_event r \<in> er_id ` {x \<in> set (db_events db). er_session x \<noteq> i}"
      "opt_in (kr_response_event r) (er_id ` {x \<in> set (db_events db). er_session x \<noteq> i})"
      if r: "r \<in> set (db_calls db)" "kr_session r \<noteq> i" for r
    proof -
      from r refs have "kr_request_event r \<in> er_id ` set (db_events db)" "opt_in (kr_response_event r) (er_id ` set (db_events db))"
        by (simp_all add: refs_ok_def)
      moreover from r held have "kr_request_event r \<notin> er_id ` {x \<in> set (db_events db). er_session x = i}"
        "\<forall>e. kr_response_event r = Some e \<longrightarrow> e \<notin> er_id ` {x \<in> set (db_events db). er_session x = i}"
        by (simp_all, blast+)
      ultimately show "kr_request_event r \<in> er_id ` {x \<in> set (db_events db). er_session x \<noteq> i}"
        "opt_in (kr_response_event r) (er_id ` {x \<in> set (db_events db). er_session x \<noteq> i})"
        using image_kept [where k = er_id and p = "\<lambda>x. er_session x = i" and rows = "db_events db"]
        by (simp_all add: opt_in_def split: option.splits)
    qed
    moreover have "opt_in (ar_parent r) (ar_id ` {x \<in> set (db_agents db). ar_session x \<noteq> i})"
      if r: "r \<in> set (db_agents db)" "ar_session r \<noteq> i" for r
    proof -
      from r refs have "opt_in (ar_parent r) (ar_id ` set (db_agents db))"
        by (simp add: refs_ok_def)
      moreover from r parents have "\<forall>e. ar_parent r = Some e \<longrightarrow> e \<notin> ar_id ` {x \<in> set (db_agents db). ar_session x = i}"
        by (simp, blast)
      ultimately show ?thesis
        using image_kept [where k = ar_id and p = "\<lambda>x. ar_session x = i" and rows = "db_agents db"]
        by (simp add: opt_in_def split: option.splits)
    qed
    moreover have "ml_session r \<noteq> i" if "r \<in> set (db_messages db)" for r
      using that msgs by (auto simp: session_rows_def filter_empty_conv)
    moreover have "sr_id ` {x \<in> set (db_sessions db). sr_id x \<noteq> i} = sr_id ` set (db_sessions db) - {i}" by auto
    moreover have "sp_agent r \<in> ar_id ` {x \<in> set (db_agents db). ar_session x \<noteq> i}"
      if "r \<in> set (db_steps db)" "sp_agent r \<notin> ar_id ` {x \<in> set (db_agents db). ar_session x = i}" for r
      using that refs by (force simp: refs_ok_def)
    ultimately show ?thesis
      using refs by (simp add: refs_ok_def purged_def)
  qed
  ultimately show ?thesis by (simp add: db_ok_def)
qed

lemma ok_released: "db_ok S db \<Longrightarrow> db_ok S (release_blobs i db)"
proof -
  assume ok: "db_ok S db"
  have "distinct (map br_id (db_blobs db))" using ok by (simp add: db_ok_def keys_ok_def)
  then show ?thesis
    unfolding release_blobs_def Let_def by (intro ok_blobs [OF ok]) (simp_all add: comp_def image_image)
qed

lemma released_tables:
  "db_sessions (release_blobs i db) = db_sessions db" "db_events (release_blobs i db) = db_events db"
  "db_calls (release_blobs i db) = db_calls db" "db_agents (release_blobs i db) = db_agents db"
  "session_rows i (release_blobs i db) = session_rows i db"
  by (simp_all add: release_blobs_def Let_def session_rows_def)

lemma twp_purge:
  assumes "db_ok (insert i S) (ts_db st)" "session_rows i (ts_db st) = []"
  shows "twp (purge_session i) (\<lambda>_ st'. db_ok S (ts_db st')) st"
  unfolding purge_session_def twp
proof (intro impI, goal_cases)
  case 1
  show ?case
    using ok_purged [of i S "release_blobs i (ts_db st)"] 1(1,2) assms
    by (simp add: ok_released released_tables purged_def)
qed

lemma keeps_delete_session: "keeps wf_db (delete_session env i b)"
  unfolding delete_session_def
proof (intro keeps_frames_bind frames_prepare keeps_transaction, goal_cases)
  case (1 ev st)
  let ?db = "(ts_db st)\<lparr>db_fts := filter (\<lambda>r. ft_session r \<noteq> i) (db_fts (ts_db st)),
    db_messages := filter (\<lambda>r. ml_session r \<noteq> i) (db_messages (ts_db st))\<rparr>"
  have ok: "db_ok (insert i {}) ?db"
    using ok_truncated [where p = "\<lambda>_. True" and s = i, OF 1] by simp
  have none: "session_rows i ?db = []"
    by (simp add: session_rows_def filter_empty_conv)
  show ?case
  proof (cases b)
    case True
    then show ?thesis
      using twp_purge [of i "{}" "st\<lparr>ts_db := ?db\<rparr>"] ok none by (simp add: twp)
  next
    case False
    then show ?thesis
      using ok_session_deleted [OF ok none]
      by (auto simp: twp update_session_def intro!: twp_insert_then)
  qed
qed

section \<open>Import\<close>

definition importing :: "string \<Rightarrow> trace_store \<Rightarrow> bool" where
  "importing i st \<longleftrightarrow> db_ok {i} (ts_db st) \<and> has_session i (ts_db st)"

lemma twp_import_message:
  assumes "importing i st"
  shows "twp (import_message i m) (\<lambda>_. importing i) st"
proof -
  have "importing i (st\<lparr>ts_db := (ts_db st)\<lparr>db_messages := upsert_message n t (db_messages (ts_db st)), db_fts := fs\<rparr>\<rparr>)"
    if "nm_session n = i" for n t fs
    using assms that ok_message [of "{i}" "ts_db st" n fs t] by (simp add: importing_def has_session_def)
  then show ?thesis
    by (simp add: import_message_def put_message_at_def twp split: option.split json.split)
qed

lemma twp_insert_call_then:
  assumes "db_ok S (ts_db st)"
    "\<And>st'. db_ok S (ts_db st') \<Longrightarrow> db_sessions (ts_db st') = db_sessions (ts_db st) \<Longrightarrow> Q () st'"
  shows "twp (insert_mentor_call env c) Q st"
  using assms(1)
  by (cases "ks_started_at c") (auto simp: insert_mentor_call_def twp intro!: ok_calls_snoc assms(2))

lemma ok_calls_same:
  assumes "db_ok S db" "\<And>r. kr_id (f r) = kr_id r" "\<And>r. kr_request_event (f r) = kr_request_event r"
    "\<And>r. kr_response_event (f r) = kr_response_event r"
  shows "db_ok S (db\<lparr>db_calls := sql_update p f (db_calls db)\<rparr>)"
  by (rule ok_calls_update [OF assms(1-3)]) (use assms in \<open>simp add: db_ok_def refs_ok_def\<close>)

lemma twp_import_call:
  assumes "importing i st"
  shows "twp (import_call env i c) (\<lambda>_. importing i) st"
proof (cases "run_status_parse (ci_status c)")
  case (Some status)
  show ?thesis
    unfolding import_call_def Some option.case twp
  proof (rule twp_insert_row [of "{i}"], goal_cases)
    case (4 st1)
    have s1: "has_session i (ts_db st1)" using 4(1) assms by (simp add: importing_def has_session_def)
    show ?case
    proof (rule twp_insert_call_then [OF 4(2)], goal_cases)
      case (1 st2)
      have "has_session i (ts_db st2)" using s1 1(2) by (simp add: has_session_def)
      with ok_calls_same [OF 1(1)] show ?case by (simp add: importing_def has_session_def)
    qed
  qed (use assms in \<open>simp_all add: importing_def has_session_def\<close>)
qed (simp add: import_call_def twp)

lemma importing_start:
  assumes "wf_db (ts_db st)" "\<not> has_session (sy_id s) (ts_db st)"
  shows "importing (sy_id s) (st\<lparr>ts_db := (ts_db st)\<lparr>db_sessions := db_sessions (ts_db st) @ [imported_row s status]\<rparr>\<rparr>)"
proof -
  have "db_ok {} ((ts_db st)\<lparr>db_sessions := db_sessions (ts_db st) @ [imported_row s status]\<rparr>)"
    using assms by (intro ok_sessions_snoc) (simp_all add: has_session_def imported_row_def)
  then have "db_ok {sy_id s} ((ts_db st)\<lparr>db_sessions := db_sessions (ts_db st) @ [imported_row s status]\<rparr>)"
    by (auto simp: db_ok_def counts_ok_def)
  then show ?thesis by (simp add: importing_def has_session_def imported_row_def)
qed

lemma keeps_import_session: "keeps wf_db (import_session env x)"
proof (cases "sx_format x = export_format")
  case True
  define i where "i = sy_id (sx_session x)"
  have "twp (t_bind (t_read (has_session i)) (\<lambda>taken.
      t_then (t_require (\<not> taken) e)
        (case session_status_parse (sy_status (sx_session x)) of None \<Rightarrow> t_fail e'
         | Some status \<Rightarrow> t_then (t_write (\<lambda>db. db\<lparr>db_sessions := db_sessions db @ [imported_row (sx_session x) status]\<rparr>))
            (t_then (t_all (import_message i) (sx_messages x))
              (t_then (t_all (import_call env i) (sx_calls x))
              (t_then (refresh_count env i) (t_return i)))))))
      (\<lambda>_ st'. wf_db (ts_db st')) st" (is "twp ?m _ _")
    if ok: "wf_db (ts_db st)" for st e e'
  proof (cases "session_status_parse (sy_status (sx_session x))")
    case (Some status)
    have msgs: "twp (t_all (import_message i) (sx_messages x)) (\<lambda>_. importing i) s" if "importing i s" for s
      by (rule twp_all [OF twp_import_message that])
    have calls: "twp (t_all (import_call env i) (sx_calls x)) (\<lambda>_. importing i) s" if "importing i s" for s
      by (rule twp_all [OF twp_import_call that])
    have refresh: "twp (refresh_count env i) (\<lambda>_ st'. wf_db (ts_db st')) s" if "importing i s" for s
      by (rule twp_refresh) (use that in \<open>simp add: importing_def\<close>)
    show ?thesis
      unfolding Some option.case twp
    proof (intro impI)
      assume "\<not> has_session i (ts_db st)"
      with importing_start [of st "sx_session x" status] ok have "importing i
          (st\<lparr>ts_db := (ts_db st)\<lparr>db_sessions := db_sessions (ts_db st) @ [imported_row (sx_session x) status]\<rparr>\<rparr>)"
        by (simp add: i_def)
      then show "twp (t_all (import_message i) (sx_messages x))
          (\<lambda>_. twp (t_all (import_call env i) (sx_calls x))
            (\<lambda>_. twp (refresh_count env i) (\<lambda>_ st'. wf_db (ts_db st'))))
          (st\<lparr>ts_db := (ts_db st)\<lparr>db_sessions := db_sessions (ts_db st) @ [imported_row (sx_session x) status]\<rparr>\<rparr>)"
        by (intro twp_mono [OF msgs] twp_mono [OF calls] refresh)
    qed
  qed (simp add: twp)
  then show ?thesis
    unfolding import_session_def Let_def i_def using True by (auto intro: keeps_transaction)
qed (simp add: import_session_def frames_keeps)

section \<open>Mentor calls and recovery\<close>

lemma keeps_record_mentor:
  "keeps wf_db (record_mentor_request env at i k req body v)"
  "keeps wf_db (record_mentor_response env at i r c)"
  "keeps wf_db (record_mentor_error env at i e n final)"
  by (auto simp: record_mentor_request_def record_mentor_response_def record_mentor_error_def Let_def
      intro!: keeps_bind keeps_return keeps_put_blob keeps_append_with_call keeps_append_with_completion
      keeps_append_event split: option.split)

lemma ok_closed: "db_ok S db \<Longrightarrow> db_ok S (close_open_work a s now db)"
proof -
  let ?st = "\<lambda>r. r\<lparr>sp_status := RunErrorStatus, sp_ended_at := Some now\<rparr>"
  let ?kr = "\<lambda>r. r\<lparr>kr_status := RunErrorStatus, kr_ended_at := Some now\<rparr>"
  let ?ar = "\<lambda>r. r\<lparr>ar_status := RunErrorStatus, ar_ended_at := Some now\<rparr>"
  let ?sr = "\<lambda>r. r\<lparr>sr_last_agent_status := Some RunErrorStatus, sr_updated_at := now\<rparr>"
  let ?p = "\<lambda>r. sp_agent r = a \<and> sp_status r = RunRunning"
  let ?q = "\<lambda>r. kr_agent r = a \<and> kr_status r = RunRunning"
  assume "db_ok S db"
  from ok_steps_update [OF this, of ?st ?p]
  have "db_ok S (db\<lparr>db_steps := sql_update ?p ?st (db_steps db)\<rparr>)" by simp
  from ok_calls_same [OF this, of ?kr ?q]
  have "db_ok S (db\<lparr>db_steps := sql_update ?p ?st (db_steps db), db_calls := sql_update ?q ?kr (db_calls db)\<rparr>)" by simp
  from ok_agents_update [OF this, of ?ar "\<lambda>r. ar_id r = a"]
  have "db_ok S (db\<lparr>db_steps := sql_update ?p ?st (db_steps db), db_calls := sql_update ?q ?kr (db_calls db),
      db_agents := sql_update (\<lambda>r. ar_id r = a) ?ar (db_agents db)\<rparr>)" by simp
  from ok_sessions_update [OF this, of ?sr "\<lambda>r. sr_id r = s"]
  show ?thesis by (simp add: close_open_work_def)
qed

lemma keeps_recover_agent: "keeps wf_db (recover_agent env p)"
  unfolding recover_agent_def split_beta
  by (intro keeps_frames_bind frames_prepare keeps_transaction)
    (auto simp: twp ok_closed intro!: twp_insert_event)

lemma keeps_recover: "keeps wf_db (recover_orphaned_agents env)"
  unfolding recover_orphaned_agents_def t_all_def
  by (intro keeps_frames_bind keeps_then keeps_bind keeps_each keeps_recover_agent keeps_return) simp

end
