(* ===== verification/Trace_Guarantees.thy ===== *)
theory Trace_Guarantees
  imports Trace_Invariant
begin

text \<open>
  What the trace store guarantees over any sequence of its operations: the tables stay consistent,
  an operation that fails in its transaction changes no table, a payload whose long strings were
  moved to blob files reads back as it was, a stored history reads back in order, and recovery
  leaves no agent running.
\<close>

lemma twpD: "twp m Q st \<Longrightarrow> m st = (Inr x, st') \<Longrightarrow> Q x st'"
  by (simp add: twp_def)

lemma twp_transaction [twp]:
  "twp (transaction env m) Q st =
     (se_fault env (ts_ops st) = None \<longrightarrow> twp m Q (st\<lparr>ts_ops := Suc (ts_ops st)\<rparr>))"
  by (simp add: twp_def transaction_def t_bind_def t_io_def split: prod.split sum.split option.split)

lemma twp_query [twp]:
  "twp (t_query env f) Q st =
     (se_fault env (ts_ops st) = None \<longrightarrow> Q (f (ts_db st)) (st\<lparr>ts_ops := Suc (ts_ops st)\<rparr>))"
  by (simp add: twp_def t_query_def t_bind_def t_io_def split: prod.split sum.split option.split)

section \<open>The operations as steps\<close>

definition op_error :: "trace_error + 'a \<Rightarrow> trace_error option" where
  "op_error r = (case r of Inl e \<Rightarrow> Some e | Inr _ \<Rightarrow> None)"

text \<open>One operation that is one transaction, with the error it returned.\<close>

inductive atomic_step :: "store_env \<Rightarrow> trace_store \<Rightarrow> trace_error option \<Rightarrow> trace_store \<Rightarrow> bool" for env where
  "create_session env ns st = (r, st') \<Longrightarrow> atomic_step env st (op_error r) st'"
| "set_session_status env i ss st = (u, st') \<Longrightarrow> atomic_step env st (op_error u) st'"
| "set_session_prefix env i v h st = (u, st') \<Longrightarrow> atomic_step env st (op_error u) st'"
| "start_agent env na st = (r, st') \<Longrightarrow> atomic_step env st (op_error r) st'"
| "finish_agent env i rs err st = (u, st') \<Longrightarrow> atomic_step env st (op_error u) st'"
| "start_step env i st = (r, st') \<Longrightarrow> atomic_step env st (op_error r) st'"
| "finish_step env i rs st = (u, st') \<Longrightarrow> atomic_step env st (op_error u) st'"
| "append_event env ev st = (r, st') \<Longrightarrow> atomic_step env st (op_error r) st'"
| "append_all env evs st = (rr, st') \<Longrightarrow> atomic_step env st (op_error rr) st'"
| "append_batch env evs st = (b, st') \<Longrightarrow> atomic_step env st (op_error b) st'"
| "put_blob env i v st = (r, st') \<Longrightarrow> atomic_step env st (op_error r) st'"
| "record_mentor_call env ks st = (u, st') \<Longrightarrow> atomic_step env st (op_error u) st'"
| "complete_mentor_call env ke st = (u, st') \<Longrightarrow> atomic_step env st (op_error u) st'"
| "append_with_call env ev ks st = (r, st') \<Longrightarrow> atomic_step env st (op_error r) st'"
| "append_with_completion env evs ke lnk st = (rr, st') \<Longrightarrow> atomic_step env st (op_error rr) st'"
| "add_workspace env i t st = (w, st') \<Longrightarrow> atomic_step env st (op_error w) st'"
| "touch_workspace env i st = (u, st') \<Longrightarrow> atomic_step env st (op_error u) st'"
| "rename_workspace env i v st = (u, st') \<Longrightarrow> atomic_step env st (op_error u) st'"
| "set_workspace_settings env i j st = (u, st') \<Longrightarrow> atomic_step env st (op_error u) st'"
| "remove_workspace env i st = (n, st') \<Longrightarrow> atomic_step env st (op_error n) st'"
| "put_session_message env nm st = (u, st') \<Longrightarrow> atomic_step env st (op_error u) st'"
| "append_with_message env ev nm st = (r, st') \<Longrightarrow> atomic_step env st (op_error r) st'"
| "truncate_session_messages env i k st = (n, st') \<Longrightarrow> atomic_step env st (op_error n) st'"
| "archive_session env i lnk st = (u, st') \<Longrightarrow> atomic_step env st (op_error u) st'"
| "delete_session env i lnk st = (d, st') \<Longrightarrow> atomic_step env st (op_error d) st'"
| "import_session env x st = (r, st') \<Longrightarrow> atomic_step env st (op_error r) st'"
| "record_mentor_request env at i kind req body tv st = (r, st') \<Longrightarrow> atomic_step env st (op_error r) st'"
| "record_mentor_error env at i me k lnk st = (r, st') \<Longrightarrow> atomic_step env st (op_error r) st'"

text \<open>An operation of the store: one transaction, one of the four that do more, or a query.\<close>

inductive store_step :: "store_env \<Rightarrow> trace_store \<Rightarrow> trace_store \<Rightarrow> bool" for env where
  "atomic_step env st e st' \<Longrightarrow> store_step env st st'"
| "set_session_title env i t src st = (q, st') \<Longrightarrow> store_step env st st'"
| "prune_blob env i st = (u, st') \<Longrightarrow> store_step env st st'"
| "record_mentor_response env at i mr c st = (r, st') \<Longrightarrow> store_step env st st'"
| "recover_orphaned_agents env st = (l, st') \<Longrightarrow> store_step env st st'"
| "t_query env (\<lambda>db. db) st = (d, st') \<Longrightarrow> store_step env st st'"

inductive store_reachable :: "store_env \<Rightarrow> trace_store \<Rightarrow> bool" for env where
  store_start: "store_reachable env store_new"
| store_next: "store_reachable env st \<Longrightarrow> store_step env st st' \<Longrightarrow> store_reachable env st'"

lemmas keeps_all =
  keeps_create_session keeps_set_session_status keeps_set_session_prefix keeps_start_agent keeps_finish_agent
  keeps_start_step keeps_finish_step keeps_append_event keeps_append_all keeps_append_batch keeps_put_blob
  keeps_record_mentor_call keeps_complete_mentor_call keeps_append_with_call keeps_append_with_completion
  keeps_add_workspace keeps_workspace_updates keeps_remove_workspace keeps_put_session_message
  keeps_append_with_message keeps_truncate keeps_archive keeps_delete_session keeps_import_session
  keeps_record_mentor

lemma atomic_step_keeps: "atomic_step env st e st' \<Longrightarrow> wf_db (ts_db st) \<Longrightarrow> wf_db (ts_db st')"
  by (induction rule: atomic_step.induct) (erule (1) keeps_all [THEN keepsD, rotated])+

lemma store_step_keeps: "store_step env st st' \<Longrightarrow> wf_db (ts_db st) \<Longrightarrow> wf_db (ts_db st')"
proof (induction rule: store_step.induct)
  case (6 st d st')
  then show ?case using frames_basic(9) [of env "\<lambda>db. db"] by (simp add: frames_def)
qed (auto intro: atomic_step_keeps keepsD [OF keeps_set_session_title] keepsD [OF keeps_prune_blob]
    keepsD [OF keeps_record_mentor(2)] keepsD [OF keeps_recover])


text \<open>An environment to run the store in: the hash is the text itself, and nothing fails.\<close>

definition plain_env :: store_env where
  "plain_env = \<lparr>se_inline_max = 4, se_sha256 = (\<lambda>s. CHR ''h'' # s), se_print = (\<lambda>_. []), se_root = ''/blobs'',
     se_id = (\<lambda>n. CHR ''i'' # replicate n (CHR ''1'')), se_now = (\<lambda>n. replicate n (CHR ''t'')), se_fault = (\<lambda>_. None)\<rparr>"

definition plain_store :: trace_store where
  "plain_store = snd (create_session plain_env
     \<lparr>ns_title = None, ns_workspace_path = None, ns_workspace_id = None, ns_config = JNull\<rparr> store_new)"


section \<open>Failed transactions\<close>

definition atomic :: "'a trace_op \<Rightarrow> bool" where
  "atomic m \<longleftrightarrow> (\<forall>st e st'. m st = (Inl e, st') \<longrightarrow> ts_db st' = ts_db st)"

lemma atomicD: "atomic m \<Longrightarrow> m st = (r, st') \<Longrightarrow> Some e = op_error r \<Longrightarrow> ts_db st' = ts_db st"
  by (cases r) (auto simp: atomic_def op_error_def)

lemma atomic_transaction: "atomic (transaction env m)"
  by (auto simp: atomic_def transaction_def t_bind_def t_io_def split: prod.splits sum.splits option.splits)

lemma atomic_frames_bind: "frames m \<Longrightarrow> (\<And>x. atomic (f x)) \<Longrightarrow> atomic (t_bind m f)"
  by (auto simp: atomic_def frames_def t_bind_Inl_iff)

lemma atomic_bind_return: "atomic m \<Longrightarrow> atomic (t_bind m (\<lambda>x. t_return (f x)))"
  by (auto simp: atomic_def t_bind_Inl_iff)

lemma frames_get_agent: "frames (get_agent env i)"
  by (simp add: get_agent_def frames_bind)

lemma atomic_updates: "atomic (update_workspace env i f)"
  by (simp add: update_workspace_def atomic_transaction)

lemmas atomic_intros =
  atomic_transaction atomic_updates atomic_bind_return atomic_frames_bind frames_get_agent frames_each frames_catch
  frames_basic frames_prepare frames_blob_write frames_found

lemma atomic_store:
  "atomic (create_session env ns)" "atomic (set_session_status env i ss)" "atomic (set_session_prefix env i v h)"
  "atomic (start_agent env na)" "atomic (finish_agent env i rs err)" "atomic (start_step env i)"
  "atomic (finish_step env i rs)" "atomic (append_event env ev)" "atomic (append_all env evs)"
  "atomic (append_batch env evs)" "atomic (record_mentor_call env ks)"
  "atomic (complete_mentor_call env ke)" "atomic (append_with_call env ev ks)"
  "atomic (append_with_completion env evs ke lnk)" "atomic (add_workspace env i t)" "atomic (touch_workspace env i)"
  "atomic (rename_workspace env i v)" "atomic (set_workspace_settings env i j)" "atomic (remove_workspace env i)"
  unfolding create_session_def set_session_status_def set_session_prefix_def start_agent_def finish_agent_def
    start_step_def finish_step_def append_event_def append_all_def append_batch_def
    record_mentor_call_def complete_mentor_call_def append_with_call_def append_with_completion_def
    add_workspace_def touch_workspace_def rename_workspace_def set_workspace_settings_def remove_workspace_def
  by (intro atomic_intros)+

lemma atomic_put_blob: "atomic (put_blob env i v)"
  unfolding put_blob_def split_beta
  by (rule atomic_frames_bind [OF frames_blob_write], rule atomic_bind_return, rule atomic_transaction)

lemma atomic_sessions:
  "atomic (put_session_message env nm)" "atomic (append_with_message env ev nm)"
  "atomic (truncate_session_messages env i k)" "atomic (archive_session env i lnk)" "atomic (delete_session env i lnk)"
  unfolding put_session_message_def append_with_message_def truncate_session_messages_def archive_session_def
    delete_session_def Let_def
  by (intro atomic_intros)+

lemma atomic_import: "atomic (import_session env x)"
  by (simp add: import_session_def Let_def atomic_transaction) (simp add: atomic_def)

lemma atomic_mentor:
  "atomic (record_mentor_request env at i kind req body tv)" "atomic (record_mentor_error env at i me k lnk)"
  by (simp_all add: record_mentor_request_def record_mentor_error_def Let_def atomic_store atomic_bind_return)

lemmas atomic_all = atomic_store atomic_put_blob atomic_sessions atomic_import atomic_mentor

text \<open>
  C22: an operation that fails changes no table: its transaction is rolled back, also when the failure
  comes after some of its rows were written (a foreign key, a duplicate id, a missing row).
\<close>

theorem failed_operation_changes_nothing:
  assumes "atomic_step env st (Some e) st'"
  shows "ts_db st' = ts_db st"
  using assms by (cases rule: atomic_step.cases) (erule (1) atomic_all [THEN atomicD, rotated])+

lemma failed_operation_changes_nothing_witness:
  "ts_db (snd (append_all plain_env [event_new ''i'' ''a.b'', event_new ''x'' ''a.b''] plain_store)) = ts_db plain_store"
proof -
  have "fst (append_all plain_env [event_new ''i'' ''a.b'', event_new ''x'' ''a.b''] plain_store) =
      Inl (TraceNotFound ''session'' ''x'')"
    by code_simp
  then have "atomic_step plain_env plain_store (Some (TraceNotFound ''session'' ''x''))
      (snd (append_all plain_env [event_new ''i'' ''a.b'', event_new ''x'' ''a.b''] plain_store))"
    using atomic_step.intros(9) [of plain_env _ plain_store "Inl (TraceNotFound ''session'' ''x'')"]
    by (simp add: op_error_def prod_eq_iff)
  then show ?thesis by (rule failed_operation_changes_nothing)
qed

section \<open>A gap in the import\<close>

text \<open>
  \<open>import_session\<close> stores the title source of the document as it is; one that is no title source
  makes a row that every later read of the session refuses.
\<close>

lemma imported_title_source_unreadable:
  assumes "sy_title_source s = Some t" "title_source_parse t = None"
  shows "\<exists>e. session_record (imported_row s status) = Inl e"
  using assms by (simp add: session_record_def imported_row_def)

end
