(* ===== verification/Trace_Total.thy ===== *)
theory Trace_Total
  imports Trace_Logic
begin

text \<open>
  When operations of the trace store succeed. \<open>does m Q st\<close>: \<open>m\<close> succeeds on \<open>st\<close>, with \<open>Q\<close> of its
  result and state; the equations (collection \<open>does\<close>) compute it through the combinators. Where the
  disk and the database accept everything (\<open>no_faults\<close>), an event can be prepared and inserted.
\<close>

named_theorems does

definition does :: "('s, 'a) op \<Rightarrow> ('a \<Rightarrow> 's \<Rightarrow> bool) \<Rightarrow> 's \<Rightarrow> bool" where
  "does m Q st = (case m st of (Inl e, st') \<Rightarrow> False | (Inr x, st') \<Rightarrow> Q x st')"

definition no_faults :: "store_env \<Rightarrow> bool" where
  "no_faults env \<longleftrightarrow> (\<forall>n. se_fault env n = None)"

lemma doesD: "does m Q st \<Longrightarrow> \<exists>x st'. m st = (Inr x, st') \<and> Q x st'"
  by (auto simp: does_def split: prod.splits sum.splits)

lemma doesI: "m st = (Inr x, st') \<Longrightarrow> Q x st' \<Longrightarrow> does m Q st"
  by (simp add: does_def)

lemma does_mono: "does m Q st \<Longrightarrow> (\<And>x st'. Q x st' \<Longrightarrow> R x st') \<Longrightarrow> does m R st"
  by (auto simp: does_def split: prod.splits sum.splits)

lemma does_twp: "does m Q st \<Longrightarrow> twp m R st \<Longrightarrow> does m (\<lambda>x st'. Q x st' \<and> R x st') st"
  by (auto simp: does_def twp_def split: prod.splits sum.splits)

lemma does_bind [does]: "does (t_bind m f) Q st = does m (\<lambda>x st'. does (f x) Q st') st"
  by (simp add: does_def t_bind_def split: prod.split sum.split)

lemma does_then [does]: "does (t_then m n) Q st = does m (\<lambda>_ st'. does n Q st') st"
  by (simp add: t_then_def does_bind)

lemma does_basic [does]:
  "does (t_return x) Q st = Q x st" "does (t_fail e) Q st = False"
  "does (t_lift r) Q st = (\<exists>x. r = Inr x \<and> Q x st)"
  "does (t_read f) Q' s = Q' (f (ts_db s)) s"
  "does (t_write g) Q'' s = Q'' () (s\<lparr>ts_db := g (ts_db s)\<rparr>)"
  "does (t_require ok e) R st = (ok \<and> R () st)"
  "does (require_row n what i) R st = (n \<noteq> 0 \<and> R () st)"
  "does (fresh_id env) Q3 s = Q3 (se_id env (ts_ids s)) (s\<lparr>ts_ids := Suc (ts_ids s)\<rparr>)"
  "does (now_ts env) Q3 s = Q3 (se_now env (ts_ticks s)) (s\<lparr>ts_ticks := Suc (ts_ticks s)\<rparr>)"
  by (auto simp: does_def t_write_def fresh_id_def now_ts_def split: sum.split)

lemma does_io: "no_faults env \<Longrightarrow> does (t_io env) Q st = Q () (st\<lparr>ts_ops := Suc (ts_ops st)\<rparr>)"
  by (simp add: does_def t_io_def no_faults_def)

lemma does_transaction:
  "no_faults env \<Longrightarrow> does (transaction env m) Q st = does m Q (st\<lparr>ts_ops := Suc (ts_ops st)\<rparr>)"
  by (simp add: does_def transaction_def t_bind_def t_io_def no_faults_def split: prod.split sum.split)

lemma does_query:
  "no_faults env \<Longrightarrow> does (t_query env f) Q st = Q (f (ts_db st)) (st\<lparr>ts_ops := Suc (ts_ops st)\<rparr>)"
  by (simp add: t_query_def does_bind does_io does_basic)

lemma does_each:
  assumes "\<And>x st. x \<in> set xs \<Longrightarrow> I st \<Longrightarrow> does (f x) (\<lambda>_. I) st" "I st"
  shows "does (t_each f xs) (\<lambda>_. I) st"
  using assms
proof (induction xs arbitrary: st)
  case (Cons x xs)
  have "does (f x) (\<lambda>_ st'. does (t_each f xs) (\<lambda>_. I) st') st"
    by (rule does_mono [OF Cons.prems(1)], simp, rule Cons.prems(2), rule Cons.IH)
      (auto intro: Cons.prems(1))
  then show ?case by (simp only: t_each.simps does_bind does_basic)
qed (simp add: does)

section \<open>Preparing an event\<close>

lemma blob_write_ok: "no_faults env \<Longrightarrow> \<exists>i new st'. blob_write env s st = (Inr (i, new), st')"
  by (auto simp: blob_write_def Let_def t_bind_def t_io_def no_faults_def)

lemma spill_put_ok: "no_faults env \<Longrightarrow> \<exists>i x'. spill_put env s x = (Inr i, x')"
  using blob_write_ok [of env s "fst x"] by (cases x) (auto simp: spill_put_def)

lemma spill_ok:
  assumes "no_faults env"
  shows "\<exists>v' x'. spill_strings n (spill_put env) v x = (Inr v', x')"
    "\<exists>v' x'. spill_items n (spill_put env) vs x = (Inr v', x')"
    "\<exists>v' x'. spill_fields n (spill_put env) fs x = (Inr v', x')"
proof (induction n "spill_put env" v and n "spill_put env" vs and n "spill_put env" fs
    arbitrary: x and x and x rule: spill_strings_spill_items_spill_fields.induct)
  case (1 n s)
  show ?case using spill_put_ok [OF assms, of s x] by (auto simp: t_bind_def)
next
  case (2 n vs)
  from 2 [of x] show ?case by (auto simp: t_bind_def)
next
  case (3 n fs)
  from 3 [of x] show ?case by (auto simp: t_bind_def)
next
  case (6 n v vs)
  from 6(1) [of x] obtain u x1 where "spill_strings n (spill_put env) v x = (Inr u, x1)" by blast
  moreover obtain w x2 where "spill_items n (spill_put env) vs x1 = (Inr w, x2)" using 6(2) by blast
  ultimately show ?case by (simp add: t_bind_def split_beta)
next
  case (8 n k v fs)
  from 8(1) [of x] obtain u x1 where "spill_strings n (spill_put env) v x = (Inr u, x1)" by blast
  moreover obtain w x2 where "spill_fields n (spill_put env) fs x1 = (Inr w, x2)" using 8(2) by blast
  ultimately show ?case by (simp add: t_bind_def split_beta)
qed simp_all

text \<open>What \<open>prepare\<close> gives for an event that refers to no stored blob.\<close>

definition prepared_ok :: "new_event \<Rightarrow> prepared \<Rightarrow> bool" where
  "prepared_ok ev p \<longleftrightarrow> nv_session (pp_ev p) = nv_session ev \<and> pp_reference p = None \<and>
     (case pp_blob_id p of None \<Rightarrow> True | Some i \<Rightarrow> i \<in> fst ` set (pp_register p))"

definition own_blob :: "new_event \<Rightarrow> bool" where
  "own_blob ev \<longleftrightarrow> (case nv_blob ev of Some (BlobExisting _) \<Rightarrow> False | _ \<Rightarrow> True)"

definition same_counters :: "trace_store \<Rightarrow> trace_store \<Rightarrow> bool" where
  "same_counters st st' \<longleftrightarrow> ts_db st' = ts_db st \<and> ts_ids st' = ts_ids st \<and> ts_ticks st' = ts_ticks st"

lemma blob_write_counters: "blob_write env s st = (r, st') \<Longrightarrow> same_counters st st'"
  by (auto simp: blob_write_def Let_def t_bind_def t_io_def same_counters_def split: if_splits option.splits)

lemma spill_put_counters: "spill_put env s x = (r, x') \<Longrightarrow> same_counters (fst x) (fst x')"
  by (cases x) (auto simp: spill_put_def dest: blob_write_counters split: prod.splits sum.splits)

lemma same_counters_refl [simp]: "same_counters st st"
  by (simp add: same_counters_def)

lemma same_counters_trans: "same_counters a b \<Longrightarrow> same_counters b c \<Longrightarrow> same_counters a c"
  by (simp add: same_counters_def)

lemma t_bind_run: "t_bind m f st = (r, st') \<Longrightarrow>
  (\<exists>e. m st = (Inl e, st')) \<or> (\<exists>x st1. m st = (Inr x, st1) \<and> f x st1 = (r, st'))"
  by (auto simp: t_bind_def split: prod.splits sum.splits)

lemma spill_counters:
  "spill_strings n (spill_put env) v x = (r, x') \<Longrightarrow> same_counters (fst x) (fst x')"
  "spill_items n (spill_put env) vs x = (ri, x') \<Longrightarrow> same_counters (fst x) (fst x')"
  "spill_fields n (spill_put env) fs x = (rf, x') \<Longrightarrow> same_counters (fst x) (fst x')"
proof (induction n "spill_put env" v and n "spill_put env" vs and n "spill_put env" fs
    arbitrary: x r x' and x ri x' and x rf x' rule: spill_strings_spill_items_spill_fields.induct)
  case (1 n s)
  then show ?case by (auto split: if_splits dest!: t_bind_run spill_put_counters)
next
  case (6 n v vs)
  from "6.prems" show ?case
    by (auto dest!: t_bind_run 6(1) 6(2) intro: same_counters_trans)
next
  case (8 n k v fs)
  from "8.prems" show ?case
    by (auto dest!: t_bind_run 8(1) 8(2) intro: same_counters_trans)
qed (auto dest!: t_bind_run)

lemma does_prepare:
  assumes "no_faults env" "kind_valid (nv_kind ev)" "own_blob ev"
  shows "does (prepare env ev) (\<lambda>p st'. prepared_ok ev p \<and> same_counters st st') st"
proof -
  obtain v k st1 reg where sp: "spill_strings (se_inline_max env) (spill_put env) (nv_payload ev) (st, []) =
      (Inr (v, k), (st1, reg))"
    using spill_ok(1) [OF assms(1), of "se_inline_max env" "nv_payload ev" "(st, [])"] by force
  have same: "same_counters st st1" using spill_counters(1) [OF sp] by simp
  show ?thesis
  proof (cases "nv_blob ev")
    case None
    with sp assms same show ?thesis by (simp add: does_def prepare_def Let_def prepared_ok_def)
  next
    case (Some b)
    then obtain x mt where b: "b = BlobBytes x mt" using assms(3) by (cases b) (auto simp: own_blob_def)
    obtain i new st2 where w: "blob_write env x st1 = (Inr (i, new), st2)"
      using blob_write_ok [OF assms(1)] by blast
    with Some b sp assms blob_write_counters [OF w] same show ?thesis
      by (auto simp: does_def prepare_def Let_def t_bind_def prepared_ok_def intro: same_counters_trans)
  qed
qed

section \<open>Inserting an event\<close>

definition blobs_only :: "trace_store \<Rightarrow> trace_store \<Rightarrow> bool" where
  "blobs_only st st' \<longleftrightarrow> (ts_db st')\<lparr>db_blobs := []\<rparr> = (ts_db st)\<lparr>db_blobs := []\<rparr> \<and>
     br_id ` set (db_blobs (ts_db st)) \<subseteq> br_id ` set (db_blobs (ts_db st')) \<and> ts_ids st' = ts_ids st \<and> ts_files st' = ts_files st"

lemma blobs_only_refl: "blobs_only st st"
  by (simp add: blobs_only_def)

lemma blobs_only_trans: "blobs_only a b \<Longrightarrow> blobs_only b c \<Longrightarrow> blobs_only a c"
  by (auto simp: blobs_only_def)

lemma blobs_only_tables:
  assumes "blobs_only st st'"
  shows "db_sessions (ts_db st') = db_sessions (ts_db st)" "db_events (ts_db st') = db_events (ts_db st)"
    "ts_ids st' = ts_ids st"
proof -
  from assms have eq: "(ts_db st')\<lparr>db_blobs := []\<rparr> = (ts_db st)\<lparr>db_blobs := []\<rparr>" by (simp add: blobs_only_def)
  from arg_cong [OF eq, of db_sessions] show "db_sessions (ts_db st') = db_sessions (ts_db st)" by simp
  from arg_cong [OF eq, of db_events] show "db_events (ts_db st') = db_events (ts_db st)" by simp
qed (use assms in \<open>simp add: blobs_only_def\<close>)

lemma does_register: "does (register_blob env b) (\<lambda>_ st'. blobs_only st st' \<and> fst b \<in> br_id ` set (db_blobs (ts_db st'))) st"
  by (cases b) (auto simp: register_blob_def does blobs_only_def sql_update_key_set)

lemma does_registers:
  "does (t_each (register_blob env) bs)
     (\<lambda>_ st'. blobs_only st st' \<and> fst ` set bs \<subseteq> br_id ` set (db_blobs (ts_db st'))) st"
proof (induction bs arbitrary: st)
  case (Cons b bs)
  have "does (register_blob env b) (\<lambda>_ st1. does (t_each (register_blob env) bs)
      (\<lambda>_ st'. blobs_only st st' \<and> fst ` set (b # bs) \<subseteq> br_id ` set (db_blobs (ts_db st'))) st1) st"
  proof (rule does_mono [OF does_register])
    fix x st1 assume 1: "blobs_only st st1 \<and> fst b \<in> br_id ` set (db_blobs (ts_db st1))"
    show "does (t_each (register_blob env) bs)
        (\<lambda>_ st'. blobs_only st st' \<and> fst ` set (b # bs) \<subseteq> br_id ` set (db_blobs (ts_db st'))) st1"
    proof (rule does_mono [OF Cons])
      fix y st' assume 2: "blobs_only st1 st' \<and> fst ` set bs \<subseteq> br_id ` set (db_blobs (ts_db st'))"
      with 1 have "blobs_only st st'" by (blast intro: blobs_only_trans)
      moreover from 1 2 have "fst b \<in> br_id ` set (db_blobs (ts_db st'))" unfolding blobs_only_def by blast
      ultimately show "blobs_only st st' \<and> fst ` set (b # bs) \<subseteq> br_id ` set (db_blobs (ts_db st'))" using 2 by simp
    qed
  qed
  then show ?case by (simp add: does)
qed (simp add: does blobs_only_refl)

lemma does_insert:
  assumes p: "prepared_ok ev p" and s: "has_session (nv_session ev) (ts_db st)"
    and fresh: "se_id env (ts_ids st) \<notin> er_id ` set (db_events (ts_db st))"
  shows "does (insert_event env p) (\<lambda>i st'. i = se_id env (ts_ids st)) st"
proof -
  have "does (t_each (register_blob env) (pp_register p))
     (\<lambda>_ st'. blobs_only st st' \<and> fst ` set (pp_register p) \<subseteq> br_id ` set (db_blobs (ts_db st'))) st"
    by (rule does_registers)
  then show ?thesis
    unfolding insert_event_def Let_def t_all_def does
    by (rule does_mono)
      (use p s fresh in \<open>auto simp: prepared_ok_def blobs_only_tables has_session_def does insert_event_row_def
         event_row_of_def split: option.splits\<close>)
qed

lemma does_append:
  assumes "no_faults env" "kind_valid (nv_kind ev)" "own_blob ev" "has_session (nv_session ev) (ts_db st)"
    "se_id env (ts_ids st) \<notin> er_id ` set (db_events (ts_db st))"
  shows "does (append_event env ev) (\<lambda>i _. i = se_id env (ts_ids st)) st"
  unfolding append_event_def does does_transaction [OF assms(1)]
  by (rule does_mono [OF does_prepare [OF assms(1-3)]])
    (use assms(4,5) in \<open>auto simp: same_counters_def intro!: does_insert [THEN does_mono]\<close>)

end
