(* ===== verification/Trace_History.thy ===== *)
theory Trace_History
  imports Trace_Guarantees Trace_Total
begin

text \<open>
  The stored conversation of a session as a map from positions to messages: what
  \<open>put_session_message\<close> does to it, and that \<open>session_messages\<close> reads it in order.
\<close>

definition read_row :: "message_row \<Rightarrow> role \<times> content_block list" where
  "read_row r = (ml_role r, case ml_content r of JArr vs \<Rightarrow> map block_of_json vs | _ \<Rightarrow> [])"

definition stored_history :: "string \<Rightarrow> trace_db \<Rightarrow> nat \<rightharpoonup> role \<times> content_block list" where
  "stored_history s db = (\<lambda>n. map_option read_row (find (message_at s n) (db_messages db)))"

text \<open>The map after a sequence of writes, the later ones over the earlier.\<close>

definition history_put :: "(nat \<rightharpoonup> role \<times> content_block list) \<Rightarrow> new_message \<Rightarrow> (nat \<rightharpoonup> role \<times> content_block list)" where
  "history_put h m = h(nm_seq m \<mapsto> (nm_role m, nm_content m))"

lemma find_sql_update:
  assumes "\<And>r. q (f r) = q r"
  shows "find q (sql_update p f rows) = map_option (\<lambda>r. if p r then f r else r) (find q rows)"
  by (induction rows) (auto simp: sql_update_def assms)

lemma find_append: "find q (xs @ ys) = (case find q xs of Some x \<Rightarrow> Some x | None \<Rightarrow> find q ys)"
  by (induction xs) auto

lemma find_message_at: "find (message_at s n) rows = Some r \<Longrightarrow> message_at s n r"
  by (simp add: find_Some_iff) blast

definition writable :: "string \<Rightarrow> new_message \<Rightarrow> bool" where
  "writable s m \<longleftrightarrow> nm_session m = s \<and> nm_seq m < 2 ^ 63 \<and> list_all wf_block (nm_content m)"

lemma blocks_roundtrip: "list_all wf_block bs \<Longrightarrow> map (block_of_json \<circ> block_json) bs = bs"
  by (induction bs) (simp_all add: block_roundtrip)

lemma upsert_history:
  assumes "writable s m"
  shows "map_option read_row (find (message_at s n) (upsert_message m t rows)) =
    (if n = nm_seq m then Some (nm_role m, nm_content m) else map_option read_row (find (message_at s n) rows))"
proof -
  have seq: "to_i64 (nm_seq m) = nm_seq m" and s: "nm_session m = s"
    and blocks: "map block_of_json (map block_json (nm_content m)) = nm_content m"
    using assms blocks_roundtrip [of "nm_content m"] by (simp_all add: writable_def to_i64_def)
  show ?thesis
  proof (cases "\<exists>r\<in>set rows. message_at s (nm_seq m) r")
    case True
    let ?f = "\<lambda>r. r\<lparr>ml_role := nm_role m, ml_content := content_json (nm_content m), ml_agent := nm_agent m,
      ml_step := nm_step m\<rparr>"
    have rows: "find (message_at s n) (upsert_message m t rows) =
        map_option (\<lambda>r. if message_at s (nm_seq m) r then ?f r else r) (find (message_at s n) rows)"
      using True by (simp add: upsert_message_def Let_def seq s find_sql_update message_at_def)
    show ?thesis
    proof (cases "find (message_at s n) rows")
      case None
      with True have "n \<noteq> nm_seq m" by (auto simp: find_None_iff)
      with None rows show ?thesis by simp
    next
      case (Some q)
      then have "message_at s n q" by (rule find_message_at)
      with Some rows blocks show ?thesis
        by (auto simp: message_at_def read_row_def content_json_def)
    qed
  next
    case False
    then have "find (message_at s (nm_seq m)) rows = None" by (auto simp: find_None_iff)
    with False show ?thesis
      using blocks by (auto simp: upsert_message_def Let_def seq s find_append message_at_def read_row_def
          content_json_def split: option.split)
  qed
qed

lemma twp_put_history:
  assumes "writable s m"
  shows "twp (put_session_message env m)
    (\<lambda>_ st'. stored_history s (ts_db st') = history_put (stored_history s (ts_db st)) m) st"
proof -
  have "stored_history s (db\<lparr>db_messages := upsert_message m t (db_messages db), db_fts := fs\<rparr>) =
      history_put (stored_history s db) m" for db t fs
    using upsert_history [OF assms] by (auto simp: stored_history_def history_put_def)
  then show ?thesis
    by (auto simp: put_session_message_def put_message_def put_message_at_def refresh_count_def
        update_session_def stored_history_def twp)
qed

lemma twp_puts_history:
  assumes "list_all (writable s) ms"
  shows "twp (t_all (put_session_message env) ms)
    (\<lambda>_ st'. stored_history s (ts_db st') = foldl history_put (stored_history s (ts_db st)) ms) st"
proof -
  have "twp (t_each (put_session_message env) ms)
    (\<lambda>_ st'. stored_history s (ts_db st') = foldl history_put (stored_history s (ts_db st)) ms) st"
    using assms
  proof (induction ms arbitrary: st)
    case (Cons m ms)
    show ?case
      unfolding t_each.simps twp
      by (rule twp_mono [OF twp_put_history]) (use Cons in \<open>auto intro: twp_mono [OF Cons.IH]\<close>)
  qed (simp add: twp)
  then show ?thesis by (simp add: t_all_def twp)
qed

section \<open>Reading\<close>

lemma by_seq_sort: "by_seq rows = sort_key ml_seq rows"
proof -
  have "insert_by (\<lambda>a b. ml_seq a < ml_seq b) x ys = insort_key ml_seq x ys" for x ys
    by (induction ys) auto
  then have "insert_by (\<lambda>a b. ml_seq a < ml_seq b) = insort_key ml_seq" by (intro ext)
  then show ?thesis unfolding by_seq_def order_by_def sort_key_def by (rule arg_cong)
qed

lemma collect_all2: "collect rs = Inr xs \<Longrightarrow> list_all2 (\<lambda>r x. r = Inr x) rs xs"
  by (induction rs arbitrary: xs) (auto simp: res_bind_def split: sum.splits)

lemma read_message_row: "read_message r = Inr x \<Longrightarrow> sm_seq x = ml_seq r \<and> read_row r = (sm_role x, sm_content x)"
  by (auto simp: read_message_def read_row_def split: json.splits)

lemma list_all2_in_second: "list_all2 P xs ys \<Longrightarrow> y \<in> set ys \<Longrightarrow> \<exists>x\<in>set xs. P x y"
  by (induction rule: list_all2_induct) auto

lemma session_rows_distinct:
  assumes "keys_ok db"
  shows "distinct (map ml_seq (filter p (session_rows s db)))"
proof -
  have "distinct (map (\<lambda>r. (ml_session r, ml_seq r)) (db_messages db))" using assms by (simp add: keys_ok_def)
  then have "inj_on (\<lambda>r. (ml_session r, ml_seq r)) (set (db_messages db))" "distinct (db_messages db)"
    by (simp_all add: distinct_map)
  then show ?thesis
    by (auto simp: distinct_map session_rows_def inj_on_def)
qed

lemma stored_row:
  assumes "keys_ok db" "r \<in> set (session_rows s db)"
  shows "stored_history s db (ml_seq r) = Some (read_row r)"
proof -
  have inj: "inj_on (\<lambda>r. (ml_session r, ml_seq r)) (set (db_messages db))"
    using assms(1) by (simp add: keys_ok_def distinct_map)
  have r: "r \<in> set (db_messages db)" "ml_session r = s" using assms(2) by (simp_all add: session_rows_def)
  then have "find (message_at s (ml_seq r)) (db_messages db) \<noteq> None"
    by (auto simp: find_None_iff message_at_def)
  then obtain q where q: "find (message_at s (ml_seq r)) (db_messages db) = Some q" by blast
  then have "q \<in> set (db_messages db)" "message_at s (ml_seq r) q" by (auto simp: find_Some_iff)
  with inj r have "q = r" by (auto simp: message_at_def dest!: inj_onD)
  with q show ?thesis by (simp add: stored_history_def)
qed

lemma stored_dom: "dom (stored_history s db) = ml_seq ` set (session_rows s db)"
  by (auto simp: stored_history_def dom_def find_Some_iff session_rows_def message_at_def image_iff
      find_None_iff)

lemma twp_session_messages:
  assumes "keys_ok (ts_db st)" "after < 2 ^ 63"
  shows "twp (session_messages env s after None)
    (\<lambda>out _. map sm_seq out = sorted_list_of_set {n \<in> dom (stored_history s (ts_db st)). after < n} \<and>
       (\<forall>x\<in>set out. stored_history s (ts_db st) (sm_seq x) = Some (sm_role x, sm_content x))) st"
proof -
  let ?rows = "filter (\<lambda>r. after < ml_seq r) (session_rows s (ts_db st))"
  have "map ml_seq (sort_key ml_seq ?rows) = sorted_list_of_set (set (map ml_seq (sort_key ml_seq ?rows)))"
    by (rule sorted_list_of_set.idem_if_sorted_distinct [symmetric])
      (use session_rows_distinct [OF assms(1)] in \<open>auto simp: distinct_map\<close>)
  also have "set (map ml_seq (sort_key ml_seq ?rows)) = {n \<in> dom (stored_history s (ts_db st)). after < n}"
    by (auto simp: stored_dom)
  finally have seqs: "map ml_seq (sort_key ml_seq ?rows) =
      sorted_list_of_set {n \<in> dom (stored_history s (ts_db st)). after < n}" .
  have "map sm_seq out = map ml_seq (sort_key ml_seq ?rows) \<and>
       (\<forall>x\<in>set out. stored_history s (ts_db st) (sm_seq x) = Some (sm_role x, sm_content x))"
    if "collect (map read_message (sort_key ml_seq ?rows)) = Inr out" for out
  proof -
    from collect_all2 [OF that] have all: "list_all2 (\<lambda>r x. read_message r = Inr x) (sort_key ml_seq ?rows) out"
      by (simp add: list_all2_map1)
    then have "map sm_seq out = map ml_seq (sort_key ml_seq ?rows)"
      by (induction rule: list_all2_induct) (auto dest: read_message_row)
    moreover have "stored_history s (ts_db st) (sm_seq x) = Some (sm_role x, sm_content x)" if x: "x \<in> set out" for x
    proof -
      from list_all2_in_second [OF all x] obtain r where "r \<in> set (sort_key ml_seq ?rows)" "read_message r = Inr x"
        by blast
      then show ?thesis
        using stored_row [OF assms(1), of r s] read_message_row [of r x] by auto
    qed
    ultimately show ?thesis by blast
  qed
  then show ?thesis
    using assms(2) by (simp add: session_messages_def twp Let_def by_seq_sort to_i64_def seqs)
qed

section \<open>Without faults\<close>

definition array_rows :: "message_row list \<Rightarrow> bool" where
  "array_rows rows \<longleftrightarrow> (\<forall>r\<in>set rows. \<exists>vs. ml_content r = JArr vs)"

definition array_contents :: "trace_db \<Rightarrow> bool" where
  "array_contents db \<longleftrightarrow> array_rows (db_messages db)"

lemma upsert_arrays: "array_rows rows \<Longrightarrow> array_rows (upsert_message m t rows)"
  by (auto simp: array_rows_def upsert_message_def Let_def set_sql_update content_json_def)

lemma session_counted: "has_session s db \<Longrightarrow> sql_count (\<lambda>r. sr_id r = s) (db_sessions db) \<noteq> 0"
  by (auto simp: has_session_def sql_count_def filter_empty_conv)

lemma does_put:
  assumes "no_faults env" "has_session (nm_session m) (ts_db st)" "array_contents (ts_db st)"
  shows "does (put_session_message env m)
    (\<lambda>_ st'. map sr_id (db_sessions (ts_db st')) = map sr_id (db_sessions (ts_db st)) \<and> array_contents (ts_db st')) st"
proof -
  from session_counted [OF assms(2)] have "sql_count (\<lambda>r. sr_id r = nm_session m) (db_sessions (ts_db st)) \<noteq> 0" .
  with assms show ?thesis
    unfolding put_session_message_def does_transaction [OF assms(1)] put_message_def put_message_at_def
      refresh_count_def update_session_def does
    by (intro conjI) (simp_all add: sql_update_keys array_contents_def upsert_arrays)
qed

lemma has_session_ids: "map sr_id (db_sessions db') = map sr_id (db_sessions db) \<Longrightarrow> has_session s db' = has_session s db"
  by (metis has_session_def set_map)

lemma does_puts:
  assumes "no_faults env" "has_session s (ts_db st)" "array_contents (ts_db st)" "list_all (writable s) ms"
  shows "does (t_all (put_session_message env) ms) (\<lambda>_ st'. array_contents (ts_db st')) st"
proof -
  have "does (t_each (put_session_message env) ms)
      (\<lambda>_ st'. has_session s (ts_db st') \<and> array_contents (ts_db st')) st"
  proof (rule does_each)
    fix m :: new_message and st :: trace_store
    assume "m \<in> set ms" and st: "has_session s (ts_db st) \<and> array_contents (ts_db st)"
    then have "nm_session m = s" using assms(4) by (auto simp: list_all_iff writable_def)
    with st assms(1) show "does (put_session_message env m) (\<lambda>_ st'. has_session s (ts_db st') \<and> array_contents (ts_db st')) st"
      using does_mono [OF does_put [OF assms(1), of m st],
          of "\<lambda>_ st'. has_session s (ts_db st') \<and> array_contents (ts_db st')"] has_session_ids [of _ "ts_db st" s]
      by blast
  qed (use assms in simp)
  then show ?thesis unfolding t_all_def does by (rule does_mono) simp
qed

lemma collect_ok: "\<forall>r\<in>set rs. \<exists>x. r = Inr x \<Longrightarrow> \<exists>xs. collect rs = Inr xs"
  by (induction rs) (auto simp: res_bind_def)

lemma does_session_messages:
  assumes "no_faults env" "array_contents (ts_db st)"
  shows "does (session_messages env s after None) (\<lambda>_ _. True) st"
proof -
  have "\<exists>x. read_message r = Inr x" if "r \<in> set (db_messages (ts_db st))" for r
    using assms(2) that by (force simp: array_contents_def array_rows_def read_message_def)
  then have "\<exists>xs. collect (map read_message (sort_key ml_seq (filter p (session_rows s (ts_db st))))) = Inr xs" for p
    by (intro collect_ok) (auto simp: session_rows_def)
  then show ?thesis
    using assms(1) by (simp add: session_messages_def does does_query Let_def by_seq_sort)
qed

text \<open>
  C15: the stored conversation is a map from positions to messages: after any writes to a session
  with any stored history, in any order and over positions already taken, \<open>session_messages\<close> gives
  the messages after the position asked for in ascending order, each with the role and the content
  blocks of the last write to its position. On a store that refuses nothing, all of it succeeds.
\<close>

theorem history_reads_last_writes:
  assumes "wf_db (ts_db st)" "no_faults env" "has_session s (ts_db st)" "array_contents (ts_db st)"
    "list_all (writable s) ms" "after < 2 ^ 63"
    "h = foldl history_put (stored_history s (ts_db st)) ms"
  shows "\<exists>st1 out st2. t_all (put_session_message env) ms st = (Inr (), st1) \<and>
    session_messages env s after None st1 = (Inr out, st2) \<and>
    map sm_seq out = sorted_list_of_set {n \<in> dom h. after < n} \<and>
    list_all (\<lambda>x. h (sm_seq x) = Some (sm_role x, sm_content x)) out"
proof -
  from doesD [OF does_puts [OF assms(2-5)]] obtain st1 where
    puts: "t_all (put_session_message env) ms st = (Inr (), st1)" and arrays: "array_contents (ts_db st1)"
    by auto
  from doesD [OF does_session_messages [OF assms(2) arrays, of s after]] obtain out st2 where
    read: "session_messages env s after None st1 = (Inr out, st2)" by blast
  have "keeps wf_db (t_all (put_session_message env) ms)"
    unfolding t_all_def by (intro keeps_bind keeps_each keeps_put_session_message keeps_return)
  from keepsD [OF this assms(1) puts] have "keys_ok (ts_db st1)" by (simp add: db_ok_def)
  moreover from twpD [OF twp_puts_history [OF assms(5)] puts] assms(7) have "stored_history s (ts_db st1) = h"
    by simp
  ultimately have "map sm_seq out = sorted_list_of_set {n \<in> dom h. after < n} \<and>
      list_all (\<lambda>x. h (sm_seq x) = Some (sm_role x, sm_content x)) out"
    using twpD [OF twp_session_messages [of st1 after env s] read] assms(6) by (simp add: list_all_iff)
  with puts read show ?thesis by blast
qed

definition text_message :: "nat \<Rightarrow> string \<Rightarrow> new_message" where
  "text_message n t = \<lparr>nm_session = ''i'', nm_seq = n, nm_role = RoleUser, nm_content = [block_text t],
     nm_agent = None, nm_step = None\<rparr>"

lemma history_reads_last_writes_witness:
  "\<exists>st1 out st2.
     t_all (put_session_message plain_env) [text_message 2 ''a'', text_message 1 ''b'', text_message 2 ''c''] plain_store
       = (Inr (), st1) \<and>
     session_messages plain_env ''i'' 0 None st1 = (Inr out, st2) \<and> map sm_seq out = [1, 2]"
proof -
  define h where "h = foldl history_put (stored_history ''i'' (ts_db plain_store))
    [text_message 2 ''a'', text_message 1 ''b'', text_message 2 ''c'']"
  have wf: "wf_db (ts_db plain_store)"
    unfolding plain_store_def by (rule keepsD [OF keeps_create_session _ prod.collapse [symmetric]])
      (simp add: store_new_def wf_empty)
  have session: "has_session ''i'' (ts_db plain_store)" by code_simp
  have none: "db_messages (ts_db plain_store) = []" by code_simp
  then have arrays: "array_contents (ts_db plain_store)" by (simp add: array_contents_def array_rows_def)
  have nf: "no_faults plain_env" by (simp add: no_faults_def plain_env_def)
  have ms: "list_all (writable ''i'') [text_message 2 ''a'', text_message 1 ''b'', text_message 2 ''c'']"
    by (simp add: writable_def text_message_def block_text_def wf_block_def)
  have "stored_history ''i'' (ts_db plain_store) = Map.empty"
    by (simp add: stored_history_def none)
  then have dom: "{n \<in> dom h. 0 < n} = {1, 2}"
    by (auto simp: h_def history_put_def text_message_def)
  have sorted: "sorted_list_of_set {1, 2 :: nat} = [1, 2]" by code_simp
  from history_reads_last_writes [OF wf nf session arrays ms _ h_def, of 0] show ?thesis
    unfolding dom sorted by auto
qed

end
