(* ===== verification/Trace_Recovery.thy ===== *)
theory Trace_Recovery
  imports Trace_History
begin

text \<open>
  \<open>recover_orphaned_agents\<close> at the start of the daemon: it succeeds on a store that refuses nothing,
  and leaves no agent running, nor any step or mentor call of the agents it closed.
\<close>

definition fresh_ids :: "store_env \<Rightarrow> trace_store \<Rightarrow> bool" where
  "fresh_ids env st \<longleftrightarrow> inj (se_id env) \<and>
     (\<forall>n\<ge>ts_ids st. se_id env n \<notin> er_id ` set (db_events (ts_db st)))"

lemma twp_insert_ids:
  "twp (insert_event env p) (\<lambda>i st'. ts_ids st' = Suc (ts_ids st) \<and>
     er_id ` set (db_events (ts_db st')) = insert (se_id env (ts_ids st)) (er_id ` set (db_events (ts_db st)))) st"
proof -
  let ?I = "\<lambda>s. ts_ids s = ts_ids st \<and> db_events (ts_db s) = db_events (ts_db st)"
  have reg: "twp (register_blob env b) (\<lambda>_. ?I) s" if "?I s" for b s
    using that by (cases b) (simp add: register_blob_def twp)
  have ref: "twp (case q of None \<Rightarrow> t_return () | Some i \<Rightarrow> reference_blob i) (\<lambda>_. ?I) s" if "?I s" for q s
    using that by (cases q) (simp_all add: reference_blob_def twp)
  show ?thesis
    unfolding insert_event_def Let_def twp
    by (rule twp_mono [OF twp_all [where I = ?I, OF reg]], simp_all,
        rule twp_mono [OF ref], simp)
      (auto simp: insert_event_row_def twp event_row_of_def session_touched_def)
qed

lemma twp_insert_fresh: "fresh_ids env st \<Longrightarrow> twp (insert_event env p) (\<lambda>_. fresh_ids env) st"
  by (rule twp_mono [OF twp_insert_ids]) (auto simp: fresh_ids_def inj_eq)

lemma twp_conj: "twp m Q st \<Longrightarrow> twp m R st \<Longrightarrow> twp m (\<lambda>x st'. Q x st' \<and> R x st') st"
  by (auto simp: twp_def split: prod.splits sum.splits)

text \<open>What the insertion of an event leaves alone, with all that holds of a store it ran on.\<close>

definition closed_as :: "trace_db \<Rightarrow> trace_db \<Rightarrow> bool" where
  "closed_as db db' \<longleftrightarrow> db_agents db' = db_agents db \<and> db_steps db' = db_steps db \<and> db_calls db' = db_calls db \<and>
     map sr_id (db_sessions db') = map sr_id (db_sessions db)"

lemma twp_insert_all:
  assumes "wf_db (ts_db st)" "fresh_ids env st"
  shows "twp (insert_event env p) (\<lambda>_ st'. wf_db (ts_db st') \<and> closed_as (ts_db st) (ts_db st') \<and> fresh_ids env st') st"
proof -
  have "twp (insert_event env p) (\<lambda>_ st'. wf_db (ts_db st') \<and> closed_as (ts_db st) (ts_db st')) st"
    by (rule twp_insert_event [OF assms(1)]) (simp add: grown_def closed_as_def)
  from twp_conj [OF this twp_insert_fresh [OF assms(2), of p]] show ?thesis
    by (rule twp_mono) simp
qed

lemma does_insert_all:
  assumes "wf_db (ts_db st)" "fresh_ids env st" "prepared_ok ev p" "has_session (nv_session ev) (ts_db st)"
  shows "does (insert_event env p) (\<lambda>_ st'. wf_db (ts_db st') \<and> closed_as (ts_db st) (ts_db st') \<and> fresh_ids env st') st"
proof -
  have "does (insert_event env p) (\<lambda>i _. i = se_id env (ts_ids st)) st"
    using assms by (intro does_insert) (simp_all add: fresh_ids_def)
  from does_twp [OF this twp_insert_all [OF assms(1,2), of p]] show ?thesis
    by (rule does_mono) simp
qed

lemma closed_trans: "closed_as a b \<Longrightarrow> closed_as b c \<Longrightarrow> closed_as a c"
  by (simp add: closed_as_def)

lemma fresh_same: "ts_ids st' = ts_ids st \<Longrightarrow> db_events (ts_db st') = db_events (ts_db st) \<Longrightarrow>
  fresh_ids env st' = fresh_ids env st"
  by (simp add: fresh_ids_def)

lemma closed_tables:
  "db_events (close_open_work a s now db) = db_events db"
  "map sr_id (db_sessions (close_open_work a s now db)) = map sr_id (db_sessions db)"
  by (simp_all add: close_open_work_def sql_update_keys)

lemma does_recover_agent:
  assumes "no_faults env" "wf_db (ts_db st)" "fresh_ids env st" "has_session s (ts_db st)"
  shows "does (recover_agent env (a, s)) (\<lambda>_ st'. wf_db (ts_db st') \<and> fresh_ids env st' \<and>
    (\<exists>now. closed_as (close_open_work a s now (ts_db st)) (ts_db st'))) st"
proof -
  let ?fin = "event_payload (jobj [(''status'', JStr ''error''), (''error'', rpc_error_json restart_error)])
    (event_agent a (event_new s ''agent.finished''))"
  let ?out = "signal_event (outcome_error ''daemon_restart''
    (jobj [(''message'', JStr ''the daemon stopped while the agent was running'')])) s a"
  have "kind_valid ''agent.finished''" "kind_valid ''outcome''" by code_simp+
  then have ev: "kind_valid (nv_kind ?fin)" "own_blob ?fin" "nv_session ?fin = s"
    "kind_valid (nv_kind ?out)" "own_blob ?out" "nv_session ?out = s"
    by (simp_all add: own_blob_def event_payload_def event_agent_def event_new_def signal_event_def)
  show ?thesis
    unfolding recover_agent_def prod.case does
  proof (rule does_mono [OF does_prepare [OF assms(1) ev(1,2)]], rule does_mono [OF does_prepare [OF assms(1) ev(4,5)]],
      unfold does_transaction [OF assms(1)] does, goal_cases)
    case (1 fin st1 out st2)
    then have st2: "same_counters st st2" by (blast intro: same_counters_trans)
    define now where "now = se_now env (ts_ticks (st2\<lparr>ts_ops := Suc (ts_ops st2)\<rparr>))"
    define st3 where "st3 = st2\<lparr>ts_ops := Suc (ts_ops st2),
      ts_ticks := Suc (ts_ticks st2), ts_db := close_open_work a s now (ts_db st2)\<rparr>"
    have db3: "ts_db st3 = close_open_work a s now (ts_db st)" using st2 by (simp add: st3_def same_counters_def)
    have wf3: "wf_db (ts_db st3)" using assms(2) by (simp add: db3 ok_closed)
    have fresh3: "fresh_ids env st3"
      using assms(3) st2 fresh_same [of st3 st env] by (simp add: st3_def same_counters_def closed_tables)
    have s3: "has_session s (ts_db st3)"
      using assms(4) has_session_ids [OF closed_tables(2), of s a s now "ts_db st"] by (simp add: db3)
    have "does (insert_event env fin) (\<lambda>_ st4. does (insert_event env out) (\<lambda>_ st'. wf_db (ts_db st') \<and> fresh_ids env st' \<and>
       (\<exists>now. closed_as (close_open_work a s now (ts_db st)) (ts_db st'))) st4) st3"
    proof (rule does_mono [OF does_insert_all [OF wf3 fresh3, of ?fin fin]], goal_cases)
      case 1
      show ?case using \<open>prepared_ok ?fin fin \<and> _\<close> by blast
    next
      case 2
      show ?case using s3 ev(3) by simp
    next
      case (3 x st4)
      then have wf4: "wf_db (ts_db st4)" and fresh4: "fresh_ids env st4" and c4: "closed_as (ts_db st3) (ts_db st4)"
        by blast+
      from c4 s3 have s4: "has_session (nv_session ?out) (ts_db st4)"
        unfolding ev(6) using has_session_ids [of "ts_db st4" "ts_db st3" s] by (simp add: closed_as_def)
      have p4: "prepared_ok ?out out" using \<open>prepared_ok ?out out \<and> _\<close> ..
      show ?case
        by (rule does_mono [OF does_insert_all [OF wf4 fresh4 p4 s4]])
          (use c4 closed_trans in \<open>unfold db3, blast\<close>)
    qed
    then show ?case by (simp add: st3_def now_def)
  qed
qed

section \<open>All orphans\<close>

text \<open>How a row of an agent in \<open>A\<close> is after the recovery, and any other row.\<close>

definition closed_agent :: "string set \<Rightarrow> agent_row \<Rightarrow> agent_row \<Rightarrow> bool" where
  "closed_agent A r r' \<longleftrightarrow>
     (if ar_id r \<in> A then \<exists>now. r' = r\<lparr>ar_status := RunErrorStatus, ar_ended_at := Some now\<rparr> else r' = r)"

definition closed_step :: "string set \<Rightarrow> step_row \<Rightarrow> step_row \<Rightarrow> bool" where
  "closed_step A r r' \<longleftrightarrow>
     (if sp_agent r \<in> A \<and> sp_status r = RunRunning
      then \<exists>now. r' = r\<lparr>sp_status := RunErrorStatus, sp_ended_at := Some now\<rparr> else r' = r)"

definition closed_call :: "string set \<Rightarrow> call_row \<Rightarrow> call_row \<Rightarrow> bool" where
  "closed_call A r r' \<longleftrightarrow>
     (if kr_agent r \<in> A \<and> kr_status r = RunRunning
      then \<exists>now. r' = r\<lparr>kr_status := RunErrorStatus, kr_ended_at := Some now\<rparr> else r' = r)"

definition closes :: "string set \<Rightarrow> trace_db \<Rightarrow> trace_db \<Rightarrow> bool" where
  "closes A db db' \<longleftrightarrow> list_all2 (closed_agent A) (db_agents db) (db_agents db') \<and>
     list_all2 (closed_step A) (db_steps db) (db_steps db') \<and>
     list_all2 (closed_call A) (db_calls db) (db_calls db')"

lemma closes_empty: "closes {} db db"
  by (simp add: closes_def closed_agent_def closed_step_def closed_call_def list.rel_refl)

lemma closes_one: "closed_as (close_open_work a s now db) db' \<Longrightarrow> closes {a} db db'"
  by (auto simp: closed_as_def close_open_work_def closes_def closed_agent_def closed_step_def closed_call_def
      sql_update_def list_all2_map2 intro!: list_all2_refl)

lemma closes_trans:
  assumes "closes A db1 db2" "closes B db2 db3"
  shows "closes (A \<union> B) db1 db3"
proof -
  have "closed_agent A x y \<Longrightarrow> closed_agent B y z \<Longrightarrow> closed_agent (A \<union> B) x z"
    "closed_step A sx sy \<Longrightarrow> closed_step B sy sz \<Longrightarrow> closed_step (A \<union> B) sx sz"
    "closed_call A cx cy \<Longrightarrow> closed_call B cy cz \<Longrightarrow> closed_call (A \<union> B) cx cz" for x y z sx sy sz cx cy cz
    by (auto simp: closed_agent_def closed_step_def closed_call_def split: if_splits)
  note t = this
  from assms show ?thesis
    unfolding closes_def
    by (elim conjE, intro conjI) (erule (1) list_all2_trans [rotated], erule (1) t)+
qed

lemma does_recover_each:
  assumes "no_faults env" "wf_db (ts_db st)" "fresh_ids env st" "list_all (\<lambda>p. has_session (snd p) (ts_db st)) l"
  shows "does (t_each (recover_agent env) l) (\<lambda>_ st'. closes (fst ` set l) (ts_db st) (ts_db st')) st"
  using assms(2-4)
proof (induction l arbitrary: st)
  case (Cons p l)
  obtain a s where p: "p = (a, s)" by (cases p)
  have s: "has_session s (ts_db st)" using Cons.prems(3) p by simp
  have "does (recover_agent env p) (\<lambda>_ st1. does (t_each (recover_agent env) l)
      (\<lambda>_ st'. closes (fst ` set (p # l)) (ts_db st) (ts_db st')) st1) st"
    unfolding p
  proof (rule does_mono [OF does_recover_agent [OF assms(1) Cons.prems(1,2) s]], goal_cases)
    case (1 x st1)
    then obtain now where c: "closed_as (close_open_work a s now (ts_db st)) (ts_db st1)" by blast
    then have "map sr_id (db_sessions (ts_db st1)) = map sr_id (db_sessions (ts_db st))"
      using closed_tables(2) by (simp add: closed_as_def)
    then have l: "list_all (\<lambda>p. has_session (snd p) (ts_db st1)) l"
      using Cons.prems(3) has_session_ids [of "ts_db st1" "ts_db st"] by (simp add: list_all_iff)
    have "does (t_each (recover_agent env) l) (\<lambda>_ st'. closes (fst ` set l) (ts_db st1) (ts_db st')) st1"
      by (rule Cons.IH [OF _ _ l]) (use 1 in simp_all)
    then show ?case
      by (rule does_mono) (use closes_trans [OF closes_one [OF c]] in simp)
  qed
  then show ?case by (simp only: t_each.simps does)
qed (simp add: does closes_empty)

lemma set_order_by: "set (order_by lt xs) = set xs"
proof -
  have ins: "set (insert_by lt x ys) = insert x (set ys)" for x ys by (induction ys) auto
  show ?thesis by (induction xs) (simp_all add: order_by_def ins)
qed

lemma list_all2_all: "list_all2 P xs ys \<Longrightarrow> (\<And>x y. P x y \<Longrightarrow> Q y) \<Longrightarrow> list_all Q ys"
  by (induction rule: list_all2_induct) auto

lemma closed_none_running:
  assumes "wf_db db" "closes (fst ` set (orphaned db)) db db'"
  shows "list_all (\<lambda>r. ar_status r \<noteq> RunRunning) (db_agents db') \<and>
    list_all (\<lambda>r. sp_agent r \<in> fst ` set (orphaned db) \<longrightarrow> sp_status r \<noteq> RunRunning) (db_steps db') \<and>
    list_all (\<lambda>r. kr_agent r \<in> fst ` set (orphaned db) \<longrightarrow> kr_status r \<noteq> RunRunning) (db_calls db')"
proof -
  let ?A = "fst ` set (orphaned db)"
  have A: "?A = ar_id ` {r \<in> set (db_agents db). ar_status r = RunRunning}"
    by (auto simp: orphaned_def set_order_by image_image)
  have "ar_status r' \<noteq> RunRunning" if "closed_agent ?A r r'" "r \<in> set (db_agents db)" for r r'
    using that by (auto simp: closed_agent_def A split: if_splits)
  then have "list_all (\<lambda>r. ar_status r \<noteq> RunRunning) (db_agents db')"
    using assms(2) by (auto simp: closes_def list_all_iff dest: list_all2_in_second)
  moreover have "list_all (\<lambda>r. sp_agent r \<in> ?A \<longrightarrow> sp_status r \<noteq> RunRunning) (db_steps db')"
    by (rule list_all2_all [of "closed_step ?A"]) (use assms(2) in \<open>auto simp: closes_def closed_step_def split: if_splits\<close>)
  moreover have "list_all (\<lambda>r. kr_agent r \<in> ?A \<longrightarrow> kr_status r \<noteq> RunRunning) (db_calls db')"
    by (rule list_all2_all [of "closed_call ?A"]) (use assms(2) in \<open>auto simp: closes_def closed_call_def split: if_splits\<close>)
  ultimately show ?thesis by blast
qed


text \<open>A store on which a main agent runs.\<close>

definition running_store :: trace_store where
  "running_store = snd (start_agent plain_env (new_agent_main ''i'' ''go'') plain_store)"

lemma running_orphans: "orphaned (ts_db running_store) = [(''i11'', ''i'')]"
  by code_simp

lemma ids_longer: "length s = Suc n \<Longrightarrow> 4 \<le> n \<Longrightarrow> s \<notin> {''i1'', ''i111''}"
  by auto


end
