(* ===== verification/Trace_Spill.thy ===== *)
theory Trace_Spill
  imports Trace_Guarantees Trace_Total
begin

text \<open>
  The payload rule of the trace store (\<open>payload.rs\<close>, \<open>TraceStore::prepare\<close>): a string over the
  inline limit goes to a blob file and leaves a reference; a reader that resolves the references of
  a stored event gets the payload back.
\<close>

text \<open>The strings of a value, in which a reader or the spill may meet them.\<close>

fun json_strings :: "json \<Rightarrow> string list" where
  "json_strings (JStr s) = [s]"
| "json_strings (JArr vs) = concat (map json_strings vs)"
| "json_strings (JObj fs) = concat (map (\<lambda>kv. json_strings (snd kv)) fs)"
| "json_strings v = []"

text \<open>Every stored file is named by its hash and holds one of the byte strings \<open>S\<close>.\<close>

definition good_files :: "string set \<Rightarrow> store_env \<Rightarrow> (string \<times> string) list \<Rightarrow> bool" where
  "good_files S env fs \<longleftrightarrow> (\<forall>f\<in>set fs. fst f = se_sha256 env (snd f) \<and> snd f \<in> S)"

definition more_files :: "(string \<times> string) list \<Rightarrow> (string \<times> string) list \<Rightarrow> bool" where
  "more_files fs fs' \<longleftrightarrow> map_of fs \<subseteq>\<^sub>m map_of fs'"

lemma more_files_refl [simp]: "more_files fs fs"
  by (simp add: more_files_def)

lemma more_files_trans: "more_files a b \<Longrightarrow> more_files b c \<Longrightarrow> more_files a c"
  unfolding more_files_def by (rule map_le_trans)

lemma more_filesD: "more_files a b \<Longrightarrow> map_of a i = Some v \<Longrightarrow> map_of b i = Some v"
  unfolding more_files_def map_le_def by (metis domI)

definition no_collision :: "store_env \<Rightarrow> string set \<Rightarrow> bool" where
  "no_collision env S \<longleftrightarrow> inj_on (se_sha256 env) S"

lemma blob_write_file:
  assumes "blob_write env s st = (Inr (i, new), st')" "good_files S env (ts_files st)" "no_collision env S" "s \<in> S"
  shows "good_files S env (ts_files st') \<and> more_files (ts_files st) (ts_files st') \<and> map_of (ts_files st') i = Some s"
proof (cases "map_of (ts_files st) (se_sha256 env s)")
  case None
  with assms show ?thesis
    by (auto simp: blob_write_def Let_def t_bind_def t_io_def good_files_def more_files_def map_le_def
        split: option.splits)
next
  case (Some b)
  then have "(se_sha256 env s, b) \<in> set (ts_files st)" by (rule map_of_SomeD)
  with assms(2) have "se_sha256 env s = se_sha256 env b" "b \<in> S" by (force simp: good_files_def)+
  with assms(3,4) have "b = s" by (auto simp: no_collision_def dest: inj_onD)
  with Some assms show ?thesis by (auto simp: blob_write_def Let_def)
qed

text \<open>What a spill of a value does: more good files, and a reader of them gets the value.\<close>

definition reads_back :: "(string \<times> string) list \<Rightarrow> json \<Rightarrow> json \<Rightarrow> bool" where
  "reads_back fs v' v \<longleftrightarrow> (\<forall>gs. more_files fs gs \<longrightarrow> resolve_refs (map_of gs) v' = v)"

lemma reads_back_more: "reads_back fs v' v \<Longrightarrow> more_files fs gs \<Longrightarrow> reads_back gs v' v"
  unfolding reads_back_def using more_files_trans by blast

lemma reads_back_ref: "map_of fs i = Some s \<Longrightarrow> reads_back fs (blob_ref_json i n) (JStr s)"
  by (auto simp: reads_back_def blob_ref_json_def jobj_def  own_ref_def dest: more_filesD)

lemma spill_put_file:
  assumes "spill_put env s x = (Inr i, x')" "good_files S env (ts_files (fst x))" "no_collision env S" "s \<in> S"
  shows "good_files S env (ts_files (fst x')) \<and> more_files (ts_files (fst x)) (ts_files (fst x')) \<and>
    map_of (ts_files (fst x')) i = Some s"
  using assms blob_write_file [of env s "fst x" i _ "fst x'" S]
  by (cases x) (auto simp: spill_put_def split: prod.splits sum.splits)

definition field_back :: "(string \<times> string) list \<Rightarrow> string \<times> json \<Rightarrow> string \<times> json \<Rightarrow> bool" where
  "field_back fs a b \<longleftrightarrow> fst a = fst b \<and> reads_back fs (snd a) (snd b) \<and> (\<forall>t. snd a = JStr t \<longrightarrow> snd b = JStr t)"

lemma reads_back_arr: "list_all2 (reads_back fs) vs' vs \<Longrightarrow> reads_back fs (JArr vs') (JArr vs)"
  by (induction rule: list_all2_induct) (simp_all add: reads_back_def)

lemma field_back_lookup:
  "list_all2 (field_back gs) fs' fs \<Longrightarrow> map_of fs' k = Some (JStr t) \<Longrightarrow> map_of fs k = Some (JStr t)"
  by (induction rule: list_all2_induct) (auto simp: field_back_def split: if_splits)

lemma field_back_resolved:
  assumes "list_all2 (field_back gs) fs' fs" "more_files gs hs"
  shows "map (\<lambda>kv. (fst kv, resolve_refs (map_of hs) (snd kv))) fs' = fs"
  using assms by (induction rule: list_all2_induct) (auto simp: field_back_def reads_back_def prod_eq_iff)

lemma own_ref_empty: "own_ref fs = [] \<longleftrightarrow> (\<forall>t. map_of fs ''$blob'' \<noteq> Some (JStr t))"
  by (auto simp: own_ref_def split: option.split json.split)

lemma reads_back_obj:
  assumes "list_all2 (field_back gs) fs' fs" "own_ref fs = []"
  shows "reads_back gs (JObj fs') (JObj fs)"
proof -
  have "own_ref fs' = []"
    using assms field_back_lookup [OF assms(1)] by (auto simp: own_ref_empty)
  then show ?thesis
    using field_back_resolved [OF assms(1)] by (simp add: reads_back_def)
qed

lemma list_all2_more:
  "list_all2 (reads_back fs) vs' vs \<Longrightarrow> more_files fs gs \<Longrightarrow> list_all2 (reads_back gs) vs' vs"
  by (erule list_all2_mono) (rule reads_back_more)

lemma field_back_more: "field_back fs a b \<Longrightarrow> more_files fs gs \<Longrightarrow> field_back gs a b"
  unfolding field_back_def using reads_back_more by blast

text \<open>The parts of what a spill leaves, as one predicate of the store before and after.\<close>

definition spilled :: "string set \<Rightarrow> store_env \<Rightarrow> trace_store \<Rightarrow> trace_store \<Rightarrow> bool" where
  "spilled S env st st' \<longleftrightarrow>
     good_files S env (ts_files st') \<and> more_files (ts_files st) (ts_files st')"

lemma spilled_refl: "good_files S env (ts_files st) \<Longrightarrow> spilled S env st st"
  by (simp add: spilled_def)

lemma spilled_trans: "spilled S env a b \<Longrightarrow> spilled S env b c \<Longrightarrow> spilled S env a c"
  using more_files_trans by (auto simp: spilled_def)

lemma spilled_reads_back:
  assumes "no_collision env S"
  shows "spill_strings n (spill_put env) v x = (Inr (v', k), x') \<Longrightarrow> blob_refs v = [] \<Longrightarrow>
      good_files S env (ts_files (fst x)) \<Longrightarrow> set (json_strings v) \<subseteq> S \<Longrightarrow>
      spilled S env (fst x) (fst x') \<and> field_back (ts_files (fst x')) (f, v') (f, v)"
    "spill_items n (spill_put env) vs x = (Inr (vs', k), x') \<Longrightarrow> concat (map blob_refs vs) = [] \<Longrightarrow>
      good_files S env (ts_files (fst x)) \<Longrightarrow> set (concat (map json_strings vs)) \<subseteq> S \<Longrightarrow>
      spilled S env (fst x) (fst x') \<and> list_all2 (reads_back (ts_files (fst x'))) vs' vs"
    "spill_fields n (spill_put env) fs x = (Inr (fs', k), x') \<Longrightarrow> concat (map (\<lambda>kv. blob_refs (snd kv)) fs) = [] \<Longrightarrow>
      good_files S env (ts_files (fst x)) \<Longrightarrow> set (concat (map (\<lambda>kv. json_strings (snd kv)) fs)) \<subseteq> S \<Longrightarrow>
      spilled S env (fst x) (fst x') \<and> list_all2 (field_back (ts_files (fst x'))) fs' fs"
proof (induction n "spill_put env" v and n "spill_put env" vs and n "spill_put env" fs
    arbitrary: x v' k x' f and x vs' k x' and x fs' k x' rule: spill_strings_spill_items_spill_fields.induct)
  case (1 n s)
  show ?case
  proof (cases "n < length s")
    case True
    then obtain i where "spill_put env s x = (Inr i, x')" "v' = blob_ref_json i (length s)"
      using 1 by (auto simp: t_bind_Inr_iff)
    moreover from this spill_put_file [of env s x i x' S] 1 assms
    have "spilled S env (fst x) (fst x')" "map_of (ts_files (fst x')) i = Some s"
      by (simp_all add: spilled_def)
    ultimately show ?thesis by (simp add: reads_back_ref field_back_def) (simp add: blob_ref_json_def jobj_def)
  qed (use 1 in \<open>auto simp: reads_back_def field_back_def spilled_refl\<close>)
next
  case (2 n vs)
  from "2.prems"(1) obtain us where "spill_items n (spill_put env) vs x = (Inr (us, k), x')" "v' = JArr us"
    by (auto simp: t_bind_Inr_iff)
  with "2.hyps" [of x us k x'] "2.prems" show ?case
    by (auto simp: field_back_def intro: reads_back_arr)
next
  case (3 n fs)
  from "3.prems"(1) obtain us where "spill_fields n (spill_put env) fs x = (Inr (us, k), x')" "v' = JObj us"
    by (auto simp: t_bind_Inr_iff)
  with "3.hyps" [of x us k x'] "3.prems" show ?case
    by (auto simp: field_back_def intro: reads_back_obj)
next
  case (6 n v vs)
  from "6.prems"(1) obtain u i x1 us j where
    v: "spill_strings n (spill_put env) v x = (Inr (u, i), x1)" and
    vs: "spill_items n (spill_put env) vs x1 = (Inr (us, j), x')" and "vs' = u # us"
    by (auto simp: t_bind_Inr_iff)
  have 1: "spilled S env (fst x) (fst x1) \<and> field_back (ts_files (fst x1)) ([], u) ([], v)"
    using "6.hyps"(1) [OF v] "6.prems" by simp
  then have 2: "spilled S env (fst x1) (fst x') \<and> list_all2 (reads_back (ts_files (fst x'))) us vs"
    using "6.hyps"(2) [OF vs] "6.prems" by (simp add: spilled_def)
  with 1 \<open>vs' = u # us\<close> show ?case
    using reads_back_more spilled_trans by (auto simp: field_back_def spilled_def intro: more_files_trans)
next
  case (8 n f v fs)
  from "8.prems"(1) obtain u i x1 us j where
    v: "spill_strings n (spill_put env) v x = (Inr (u, i), x1)" and
    vs: "spill_fields n (spill_put env) fs x1 = (Inr (us, j), x')" and "fs' = (f, u) # us"
    by (auto simp: t_bind_Inr_iff)
  have 1: "spilled S env (fst x) (fst x1) \<and> field_back (ts_files (fst x1)) (f, u) (f, v)"
    using "8.hyps"(1) [OF v] "8.prems" by simp
  then have 2: "spilled S env (fst x1) (fst x') \<and> list_all2 (field_back (ts_files (fst x'))) us fs"
    using "8.hyps"(2) [OF vs] "8.prems" by (simp add: spilled_def)
  with 1 \<open>fs' = (f, u) # us\<close> show ?case
    using field_back_more by (auto simp: spilled_def intro: more_files_trans)
qed (auto simp: reads_back_def field_back_def spilled_refl)

section \<open>The stored event\<close>

definition event_bytes :: "new_event \<Rightarrow> string list" where
  "event_bytes ev = json_strings (nv_payload ev)
     @ (case nv_blob ev of Some (BlobBytes b _) \<Rightarrow> [b] | _ \<Rightarrow> [])"

text \<open>A prepared event that a reader of the files \<open>fs\<close> reads as \<open>ev\<close>.\<close>

definition prepared_for :: "(string \<times> string) list \<Rightarrow> new_event \<Rightarrow> prepared \<Rightarrow> bool" where
  "prepared_for fs ev p \<longleftrightarrow>
     reads_back fs (nv_payload (pp_ev p)) (nv_payload ev) \<and>
     nv_session (pp_ev p) = nv_session ev \<and> nv_kind (pp_ev p) = nv_kind ev \<and>
     (case nv_blob ev of
        None \<Rightarrow> pp_blob_id p = None
      | Some (BlobExisting i) \<Rightarrow> pp_blob_id p = Some i
      | Some (BlobBytes b _) \<Rightarrow> \<exists>i. pp_blob_id p = Some i \<and> map_of fs i = Some b)"

lemma prepared_reads_back:
  assumes run: "prepare env ev st = (Inr p, st')" and refs: "blob_refs (nv_payload ev) = []"
    and files: "good_files S env (ts_files st)" and S: "set (event_bytes ev) \<subseteq> S" "no_collision env S"
  shows "prepared_for (ts_files st') ev p"
proof -
  obtain v k st1 reg where sp: "spill_strings (se_inline_max env) (spill_put env) (nv_payload ev) (st, []) =
      (Inr (v, k), (st1, reg))"
    using run by (auto simp: prepare_def Let_def split: if_splits prod.splits sum.splits)
  have sub: "set (json_strings (nv_payload ev)) \<subseteq> S" using S(1) by (simp add: event_bytes_def)
  from spilled_reads_back(1) [OF S(2) sp refs _ sub] files
  have 1: "good_files S env (ts_files st1)" "reads_back (ts_files st1) v (nv_payload ev)"
    by (simp_all add: spilled_def field_back_def)
  show ?thesis
  proof (cases "nv_blob ev")
    case None
    with run sp 1 show ?thesis by (auto simp: prepare_def Let_def prepared_for_def split: if_splits)
  next
    case (Some b)
    show ?thesis
    proof (cases b)
      case (BlobBytes x mt)
      with run sp Some obtain i new where w: "blob_write env x st1 = (Inr (i, new), st')"
        and p: "nv_payload (pp_ev p) = v" "nv_session (pp_ev p) = nv_session ev" "nv_kind (pp_ev p) = nv_kind ev"
          "pp_blob_id p = Some i"
        by (auto simp: prepare_def Let_def t_bind_Inr_iff split: if_splits)
      have "x \<in> S" using S(1) Some BlobBytes by (simp add: event_bytes_def)
      from blob_write_file [OF w 1(1) S(2) this] p Some BlobBytes 1(2) show ?thesis
        by (auto simp: prepared_for_def intro: reads_back_more)
    qed (use run sp 1 Some in \<open>auto simp: prepare_def Let_def prepared_for_def split: if_splits\<close>)
  qed
qed

definition event_stored :: "prepared \<Rightarrow> string \<Rightarrow> trace_db \<Rightarrow> bool" where
  "event_stored p i db \<longleftrightarrow> (\<exists>r\<in>set (db_events db). er_id r = i \<and> er_session r = nv_session (pp_ev p) \<and>
     er_kind r = nv_kind (pp_ev p) \<and> er_payload r = nv_payload (pp_ev p) \<and> er_blob r = pp_blob_id p)"

lemma twp_insert_stored:
  "twp (insert_event env p) (\<lambda>i st'. ts_files st' = ts_files st \<and> event_stored p i (ts_db st')) st"
proof -
  have reg: "twp (register_blob env b) (\<lambda>_ st'. ts_files st' = ts_files st) s" if "ts_files s = ts_files st" for b s
    using that by (cases b) (simp add: register_blob_def twp)
  have ref: "twp (case q of None \<Rightarrow> t_return () | Some i \<Rightarrow> reference_blob i) (\<lambda>_ st'. ts_files st' = ts_files st) s"
    if "ts_files s = ts_files st" for q s
    using that by (cases q) (simp_all add: reference_blob_def twp)
  show ?thesis
    unfolding insert_event_def Let_def twp
    by (rule twp_mono [OF twp_all [where I = "\<lambda>s. ts_files s = ts_files st", OF reg]], simp_all,
        rule twp_mono [OF ref], simp)
      (auto simp: insert_event_row_def twp event_stored_def event_row_of_def session_touched_def)
qed

lemma transaction_Inr:
  "transaction env m st = (Inr x, st') \<Longrightarrow> \<exists>st1. m st1 = (Inr x, st') \<and> ts_files st1 = ts_files st"
  by (auto simp: transaction_def t_bind_Inr_iff t_io_def split: prod.splits sum.splits)


definition spill_event :: new_event where
  "spill_event = event_blob_bytes ''body'' ''text/plain''
     (event_payload (JObj [(''a'', JStr ''long text''), (''b'', JArr [JStr ''tiny'', JStr ''other text''])])
       (event_new ''i'' ''a.b''))"

lemma spill_event_appended: "\<exists>i st'. append_event plain_env spill_event plain_store = (Inr i, st')"
proof -
  have st: "ts_ids plain_store = 2" by code_simp
  have "kind_valid ''a.b''" by code_simp
  then have ev: "kind_valid (nv_kind spill_event)" "own_blob spill_event" "nv_session spill_event = ''i''"
    by (simp_all add: spill_event_def own_blob_def event_blob_bytes_def event_payload_def event_new_def)
  have session: "has_session ''i'' (ts_db plain_store)" by code_simp
  have events: "map er_id (db_events (ts_db plain_store)) = [''i1'']" by code_simp
  from arg_cong [OF events, of set] have ids: "er_id ` set (db_events (ts_db plain_store)) = {''i1''}" by simp
  have "does (append_event plain_env spill_event) (\<lambda>i _. i = se_id plain_env (ts_ids plain_store)) plain_store"
  proof (rule does_append [OF _ ev(1,2)])
    show "no_faults plain_env" by (simp add: no_faults_def plain_env_def)
    show "has_session (nv_session spill_event) (ts_db plain_store)" unfolding ev(3) by (rule session)
    show "se_id plain_env (ts_ids plain_store) \<notin> er_id ` set (db_events (ts_db plain_store))"
      unfolding st ids by (simp add: plain_env_def numeral_2_eq_2)
  qed
  from doesD [OF this] show ?thesis by blast
qed


end
