(* ===== verification/Tool_Gate.thy ===== *)
theory Tool_Gate
  imports Tool_Execute
begin

text \<open>
  The permission engine as the executor's gate (\<open>crates/core/src/permissions/gate.rs\<close>, the
  \<open>Gate\<close> of \<open>tools/execute.rs\<close>): the state of the gate is the engine and the disk the rule files
  are on, a call's request is built by \<open>for_call\<close> and decided by \<open>decide\<close>, and the answer the
  executor gets is \<open>gate_answer\<close>. The interpretation of \<open>gate_policy\<close> on it carries the executor's
  guarantee over to the engine's rules.
\<close>

record gate_env =
  ge_matchers :: matchers
  ge_toml :: toml_lib
  ge_fs :: fs
  ge_cwd :: "string list"
  ge_workspace :: "path option"
  ge_mode :: permission_mode
  ge_request_id :: "string \<Rightarrow> string"
  ge_meanwhile :: "string \<Rightarrow> engine \<times> rules_fs \<Rightarrow> engine \<times> rules_fs"
  ge_prompt :: "string \<Rightarrow> ask \<Rightarrow> reply"
  ge_waited :: "string \<Rightarrow> nat"

definition gate_request :: "gate_env \<Rightarrow> tool_spec \<Rightarrow> json \<Rightarrow> permission_request" where
  "gate_request env spec input = for_call (ge_fs env) (ge_cwd env) spec input (ge_workspace env)"

definition permission_gate :: "gate_env \<Rightarrow> (engine \<times> rules_fs) gate" where
  "permission_gate env = (\<lambda>(eng, fs) call_id spec input.
     (case decide (ge_matchers env) (ge_toml env) fs eng (gate_request env spec input) (ge_mode env)
             (ge_request_id env call_id) (ge_meanwhile env call_id) (ge_prompt env call_id)
             (ge_waited env call_id) of
        (eng', fs', oc) \<Rightarrow> (gate_answer oc, (eng', fs'))))"

text \<open>What a call the gate lets pass can count on.\<close>

definition engine_permits :: "gate_env \<Rightarrow> engine \<times> rules_fs \<Rightarrow> tool_spec \<Rightarrow> json \<Rightarrow> bool" where
  "engine_permits env st spec input \<longleftrightarrow>
     \<not> (ge_mode env = Plan \<and> mutating (ts_risk spec)) \<and>
     e_effect (engine_evaluate (ge_matchers env) (ge_toml env) (snd st) (fst st) (gate_request env spec input)) \<noteq> Deny \<and>
     (\<forall>l\<in>set (layers_of (refresh_layers (ge_matchers env) (ge_toml env) (snd st) (fst st))).
        layer_effect (ge_matchers env) (gate_request env spec input) l \<noteq> Some Deny)"

lemma decide_denied_by_rule:
  assumes "e_effect (engine_evaluate mt tml fs eng req) = Deny" and "\<not> (mode = Plan \<and> mutating (r_risk req))"
    and "decide mt tml fs eng req mode rid meanwhile prompt waited = (eng', fs', oc)"
  shows "o_decision oc = Denied"
  using assms by (auto simp: decide_def decide_begin_def engine_evaluate_def Let_def)

lemma gate_request_risk [simp]: "r_risk (gate_request env spec input) = ts_risk spec"
  by (simp add: gate_request_def for_call_def Let_def)

lemma permission_gate_passes:
  assumes "permission_gate env g cid spec input = (Inr u, g')"
  shows "engine_permits env g spec input"
proof -
  obtain eng fs where g: "g = (eng, fs)" by (cases g)
  obtain eng' fs' oc where d: "decide (ge_matchers env) (ge_toml env) fs eng (gate_request env spec input) (ge_mode env)
             (ge_request_id env cid) (ge_meanwhile env cid) (ge_prompt env cid) (ge_waited env cid) = (eng', fs', oc)"
    by (rule prod_cases3)
  with assms g have "gate_answer oc = Inr u" by (simp add: permission_gate_def)
  then have "o_decision oc = Allowed" by (auto simp: gate_answer_def split: permission_decision.splits)
  with decide_allowed [OF d] decide_denied_by_rule [OF _ _ d] g show ?thesis
    by (auto simp: engine_permits_def)
qed

interpretation permission_gate: gate_policy "permission_gate env" "engine_permits env" for env
  by unfold_locales (rule permission_gate_passes)

text \<open>
  C2: No tool runs against the rules: when a tool runs in the executor under the permission gate,
  it is the registered tool of that name, its input satisfies its schema, it is not a write or
  execute tool in plan mode, and neither the evaluation of the rules nor the first match of any
  rule file denies the request built from its input, at the moment it was decided.
\<close>

theorem no_tool_against_rules:
  assumes "execute_one xl lib cfg reg (permission_gate env) call w (eng, fs) = (x, g', fx)"
    and "RunTool n i \<in> set fx"
  shows "\<exists>e. registry_get reg (tl_name call) = Some e \<and> n = ts_name (te_spec e) \<and> i = tl_input call \<and>
    validate lib (te_validator e) i = None \<and>
    \<not> (ge_mode env = Plan \<and> mutating (ts_risk (te_spec e))) \<and>
    e_effect (engine_evaluate (ge_matchers env) (ge_toml env) fs eng (gate_request env (te_spec e) i)) \<noteq> Deny \<and>
    (\<forall>l\<in>set (layers_of (refresh_layers (ge_matchers env) (ge_toml env) fs eng)).
       layer_effect (ge_matchers env) (gate_request env (te_spec e) i) l \<noteq> Some Deny)"
  using permission_gate.tool_runs_permitted [OF assms] by (auto simp: engine_permits_def)

definition demo_env :: gate_env where
  "demo_env = \<lparr>ge_matchers = no_matchers, ge_toml = tiny_toml glob_spec, ge_fs = demo_fs, ge_cwd = [],
     ge_workspace = None, ge_mode = ModeDefault, ge_request_id = (\<lambda>_. ''r1''), ge_meanwhile = (\<lambda>_ x. x),
     ge_prompt = (\<lambda>_ _. Answered AllowOnce None), ge_waited = (\<lambda>_. 5)\<rparr>"

theorem no_tool_against_rules_witness:
  "\<exists>x g' fx. execute_one demo_xl demo_schema tools_config_default demo_registry (permission_gate demo_env)
       (demo_call ''shell'') demo_world (demo_engine, empty_disk) = (x, g', fx) \<and>
     RunTool ''shell'' (JObj []) \<in> set fx \<and>
     e_effect (engine_evaluate no_matchers (tiny_toml glob_spec) empty_disk demo_engine
        (gate_request demo_env (demo_spec ''shell'' Execute) (JObj []))) \<noteq> Deny"
proof -
  let ?g = "(demo_engine, empty_disk)"
  let ?e = "\<lparr>te_spec = demo_spec ''shell'' Execute, te_tool = (),
      te_validator = JObj [(''type'', JStr ''object'')]\<rparr>"
  have reg: "registry_get demo_registry (tl_name (demo_call ''shell'')) = Some ?e" by code_simp
  have "fst (permission_gate demo_env ?g ''t1'' (demo_spec ''shell'' Execute) (JObj [])) = Inr ()" by code_simp
  then obtain g' where g': "permission_gate demo_env ?g ''t1'' (demo_spec ''shell'' Execute) (JObj []) = (Inr (), g')"
    by (metis prod.collapse)
  have run: "run_call demo_schema (permission_gate demo_env) ?e (demo_call ''shell'') demo_world ?g =
      (Inr demo_output, g', [AskGate (demo_spec ''shell'' Execute) (JObj []), RunTool ''shell'' (JObj [])])"
    using g' by (simp add: run_call_def validate_def demo_schema_def demo_call_def demo_world_def demo_spec_def)
  have ev: "cw_call_event demo_world = Inr ''e1''" by (simp add: demo_world_def)
  obtain x fx where x: "execute_one demo_xl demo_schema tools_config_default demo_registry (permission_gate demo_env)
       (demo_call ''shell'') demo_world ?g = (x, g', fx)"
    "set [AskGate (demo_spec ''shell'' Execute) (JObj []), RunTool ''shell'' (JObj [])] \<subseteq> set fx"
    by (rule execute_one_run [OF ev reg run])
  then have ran: "RunTool ''shell'' (JObj []) \<in> set fx" by simp
  from no_tool_against_rules [OF x(1) ran] reg x(1) ran show ?thesis by (auto simp: demo_env_def)
qed

end
