(* ===== verification/Agent_Tools.thy ===== *)
theory Agent_Tools
  imports Tool_Gate Trace_Sessions Agent_Events
begin

text \<open>
  The tools of one step as \<open>run_tools\<close> of \<open>crates/core/src/runtime/agent.rs\<close> wires them: the executor
  of \<open>tools/execute.rs\<close> and the gate of \<open>permissions/gate.rs\<close> over one state, with the trace store they
  write to, the events they send and the permission engine. What the executor's own model reads
  off a \<open>call_world\<close> (did the trace take the call, which ids did the blobs get) comes from the store
  here, and so does what the gate decides: the engine and its rule files are part of the state.
\<close>

section \<open>State and world\<close>

record exec_state =
  xs_store :: trace_store
  xs_log :: "agent_event list"
  xs_engine :: engine
  xs_rules :: rules_fs
  xs_runs :: nat

text \<open>
  What one execution of a call meets: when the run is cancelled and how the tool ends, and the
  events that reach the clients while it runs (the progress of tools and the permission prompts).
\<close>

record tool_world =
  tw_call :: call_world
  tw_live :: "agent_event list"

definition live_event :: "agent_event \<Rightarrow> bool" where
  "live_event e = (case e of AgentToolProgress _ _ _ _ \<Rightarrow> True | PermissionRequestEvent _ _ \<Rightarrow> True | _ \<Rightarrow> False)"

record tools_env =
  te_store :: store_env
  te_gate :: gate_env
  te_xl :: exec_lib
  te_schema :: schema_lib
  te_config :: tools_config
  te_registry :: "unit registry"

definition xs_emit :: "agent_event list \<Rightarrow> exec_state \<Rightarrow> exec_state" where
  "xs_emit es s = s\<lparr>xs_log := xs_log s @ es\<rparr>"

text \<open>A write whose failure is only logged: its id when it worked.\<close>

definition stored_id :: "string trace_op \<Rightarrow> trace_store \<Rightarrow> string option \<times> trace_store" where
  "stored_id m st = (case m st of (r, st') \<Rightarrow> (case r of Inl _ \<Rightarrow> None | Inr i \<Rightarrow> Some i, st'))"

section \<open>The gate\<close>

definition decision_event :: "step_ref \<Rightarrow> string \<Rightarrow> permission_request \<Rightarrow> outcome \<Rightarrow> agent_event" where
  "decision_event at call_id req oc = PermissionDecisionEvent (sf_agent at)
     \<lparr>dv_call_id = call_id, dv_tool = r_tool req, dv_decision = o_decision oc, dv_source = o_source oc,
      dv_request_id = o_request_id oc, dv_rule_ref = o_rule_ref oc, dv_reason = o_reason oc\<rparr>"

text \<open>\<open>permit\<close>: decide, record the decision, tell the clients, answer.\<close>

definition step_gate :: "store_env \<Rightarrow> gate_env \<Rightarrow> step_ref \<Rightarrow> exec_state gate" where
  "step_gate env gv at = (\<lambda>s call_id spec input.
     (let req = gate_request gv spec input in
      case decide (ge_matchers gv) (ge_toml gv) (xs_rules s) (xs_engine s) req (ge_mode gv)
             (ge_request_id gv call_id) (ge_meanwhile gv call_id) (ge_prompt gv call_id) (ge_waited gv call_id) of
        (eng, rules, oc) \<Rightarrow>
          (gate_answer oc,
           xs_emit [decision_event at call_id req oc]
             (s\<lparr>xs_engine := eng, xs_rules := rules,
                xs_store := snd (stored_id (append_event env
                  (event_payload (gate_payload (ge_mode gv) call_id req oc)
                     (step_event at ''permission.decision''))) (xs_store s))\<rparr>))))"

section \<open>One call\<close>

fun store_each :: "store_env \<Rightarrow> attachment list \<Rightarrow> trace_store \<Rightarrow> string option list \<times> trace_store" where
  "store_each env [] st = ([], st)"
| "store_each env (a # as) st =
     (let (i, st1) = stored_id (put_blob env (at_bytes a) (at_media_type a)) st;
          (is, st2) = store_each env as st1
      in (i # is, st2))"

text \<open>\<open>finish\<close>: the raw output and the attachments become blobs, then the result is recorded.\<close>

definition finish_in ::
  "store_env \<Rightarrow> step_ref \<Rightarrow> exec_lib \<Rightarrow> tool_call \<Rightarrow> tool_env \<Rightarrow> call_world \<Rightarrow> nat \<Rightarrow> risk option \<Rightarrow>
     tool_error + tool_output \<Rightarrow> trace_store \<Rightarrow> executed \<times> trace_store" where
  "finish_in env at xl call tenv w ms rk out st =
     (let p = outcome_parts_of xl (tl_name call) (ev_timeout_s tenv) ms out;
          captured = stored_output (ev_max_capture_bytes tenv) p;
          (blob, st1) =
            (case op_raw p of
               None \<Rightarrow> (None, st)
             | Some (raw, mt, _) \<Rightarrow>
                 stored_id (put_blob env (case captured of Some c \<Rightarrow> c | None \<Rightarrow> raw) mt) st);
          (ids, st2) = store_each env (op_attachments p) st1;
          x = fst (finish_call xl call tenv (w\<lparr>cw_blob := blob, cw_result_event := None\<rparr>) ms rk out);
          ev = event_payload (result_payload p x (captured \<noteq> None) (attached (op_attachments p) ids) rk)
                 (step_event at ''tool.result'');
          (rid, st3) = stored_id (append_event env (case blob of Some i \<Rightarrow> event_blob i ev | None \<Rightarrow> ev)) st2
      in (x\<lparr>ex_result_event := rid\<rparr>, st3))"

definition call_event :: "tools_env \<Rightarrow> step_ref \<Rightarrow> tool_call \<Rightarrow> risk option \<Rightarrow> new_event" where
  "call_event te at call rk =
     event_blob_bytes (xl_print (te_xl te) (tl_input call)) ''application/json''
       (event_payload (record_call_payload (te_xl te) call rk) (step_event at ''tool.call''))"

definition result_event :: "step_ref \<Rightarrow> executed \<Rightarrow> agent_event" where
  "result_event at x = AgentToolResult (sf_agent at)
     \<lparr>tv_call_id = ex_call_id x, tv_name = ex_name x, tv_ok = ex_ok x, tv_summary = ex_summary x,
      tv_blob_id = ex_blob_id x, tv_mentor_bytes = ex_mentor_bytes x, tv_event_id = ex_result_event x\<rparr>"

text \<open>What is run for a call: an unknown tool is an answer too.\<close>

definition run_entry ::
  "tools_env \<Rightarrow> step_ref \<Rightarrow> tool_call \<Rightarrow> call_world \<Rightarrow> exec_state \<Rightarrow> (tool_error + tool_output) \<times> exec_state" where
  "run_entry te at call w s =
     (case registry_get (te_registry te) (tl_name call) of
        None \<Rightarrow> (Inl (unknown_tool (tl_name call) (registry_names (te_registry te))), s)
      | Some e \<Rightarrow>
          (case run_call (te_schema te) (step_gate (te_store te) (te_gate te) at) e call w s of
             (out, s', _) \<Rightarrow> (out, s')))"

definition call_risk :: "tools_env \<Rightarrow> tool_call \<Rightarrow> risk option" where
  "call_risk te call = map_option (\<lambda>e. ts_risk (te_spec e)) (registry_get (te_registry te) (tl_name call))"

definition call_env :: "tools_env \<Rightarrow> tool_call \<Rightarrow> tool_env" where
  "call_env te call =
     (case registry_get (te_registry te) (tl_name call) of
        Some e \<Rightarrow> tool_env_resolve (te_config te) (te_spec e)
      | None \<Rightarrow> tool_env_default)"

definition execute_in ::
  "tools_env \<Rightarrow> step_ref \<Rightarrow> (nat \<Rightarrow> tool_world) \<Rightarrow> tool_call \<Rightarrow> exec_state \<Rightarrow> executed \<times> exec_state" where
  "execute_in te at world call s0 =
     (let w = world (xs_runs s0);
          s = s0\<lparr>xs_runs := Suc (xs_runs s0)\<rparr>
      in case append_event (te_store te) (call_event te at call (call_risk te call)) (xs_store s) of
           (Inl e, st) \<Rightarrow>
             (case finish_in (te_store te) at (te_xl te) call (call_env te call) (tw_call w) 0 None
                     (Inl (ToolFailed (''trace: '' @ trace_error_str e))) st of
                (x, st') \<Rightarrow> (x, s\<lparr>xs_store := st'\<rparr>))
         | (Inr _, st) \<Rightarrow>
             (case run_entry te at call (tw_call w) (s\<lparr>xs_store := st\<rparr>) of
                (out, s1) \<Rightarrow>
                  (let s2 = xs_emit (filter live_event (tw_live w)) s1 in
                   case finish_in (te_store te) at (te_xl te) call (call_env te call) (tw_call w)
                          (cw_duration_ms (tw_call w)) (call_risk te call) out (xs_store s2) of
                     (x, st') \<Rightarrow> (x, xs_emit [result_event at x] (s2\<lparr>xs_store := st'\<rparr>)))))"

section \<open>The calls of a step\<close>

text \<open>The order the concurrent calls happen in, when it is one of theirs; else the order given.\<close>

definition batch_order :: "(tool_call \<Rightarrow> bool) \<Rightarrow> tool_call list \<Rightarrow> nat list \<Rightarrow> nat list" where
  "batch_order mut calls order =
     (let conc = filter (\<lambda>i. \<not> mut (calls ! i)) [0..<length calls] in
      if sort order = conc then order else conc)"

definition run_batch ::
  "tools_env \<Rightarrow> step_ref \<Rightarrow> (nat \<Rightarrow> tool_world) \<Rightarrow> nat list \<Rightarrow> tool_call list \<Rightarrow> exec_state \<Rightarrow>
     executed list \<times> exec_state" where
  "run_batch te at world order calls s =
     (let mut = call_mutating (te_registry te) in
      case execute_all (execute_in te at world) mut (batch_order mut calls order) calls s of
        Some r \<Rightarrow> r
      | None \<Rightarrow> ([], s))"

text \<open>The block the mentor reads, and its text.\<close>

definition block_of_result :: "tool_result_block \<Rightarrow> content_block" where
  "block_of_result b = BToolResult (tb_tool_use_id b) [RText (tb_content b)] (tb_is_error b) False"

definition result_text :: "content_block \<Rightarrow> string" where
  "result_text b =
     (case b of
        BToolResult _ rs _ _ \<Rightarrow>
          (case List.map_filter (\<lambda>r. case r of RText t \<Rightarrow> Some t | _ \<Rightarrow> None) rs of t # _ \<Rightarrow> t | [] \<Rightarrow> [])
      | _ \<Rightarrow> [])"

section \<open>What a batch keeps\<close>

text \<open>The contract of what executes a call: it keeps \<open>inv\<close> and answers the call it was given.\<close>

locale executor =
  fixes exec :: "tool_call \<Rightarrow> 's \<Rightarrow> 'e \<times> 's"
    and inv :: "'s \<Rightarrow> bool"
    and answers :: "tool_call \<Rightarrow> 'e \<Rightarrow> bool"
  assumes exec_inv: "exec c s = (e, s') \<Longrightarrow> inv s \<Longrightarrow> inv s'"
    and exec_answers: "exec c s = (e, s') \<Longrightarrow> answers c e"
begin

lemma slots_inv: "run_slots exec calls is (slots, s) = (slots', s') \<Longrightarrow> inv s \<Longrightarrow> inv s'"
proof (induction "is" arbitrary: slots s)
  case (Cons i "is")
  then show ?case by (cases "exec (calls ! i) s") (auto dest: exec_inv)
qed simp

lemma all_answered:
  assumes "sort order = filter (\<lambda>i. \<not> mut (calls ! i)) [0..<length calls]"
  shows "\<exists>es s'. execute_all exec mut order calls s = Some (es, s') \<and> list_all2 answers calls es \<and>
    (inv s \<longrightarrow> inv s')"
proof -
  let ?n = "length calls" and ?seq = "filter (\<lambda>i. mut (calls ! i)) [0..<length calls]"
  obtain slots s' where r: "run_slots exec calls (order @ ?seq) (replicate ?n None, s) = (slots, s')"
    by fastforce
  have "answers c (fst (exec c t))" for c t using exec_answers [of c t] by (metis prod.collapse)
  from run_slots_fill [of answers exec, OF this r, of "[]"]
  have slots: "length slots = ?n" "\<forall>i<?n. i \<in> set (order @ ?seq) \<longrightarrow> (\<exists>e. slots ! i = Some e \<and> answers (calls ! i) e)"
    by auto
  have "set order = set (sort order)" by simp
  then have "set order = {i. i < ?n \<and> \<not> mut (calls ! i)}" unfolding assms by auto
  with slots(2) have all: "\<forall>i<?n. \<exists>e. slots ! i = Some e \<and> answers (calls ! i) e" by auto
  then have "None \<notin> set slots" using slots(1) by (metis in_set_conv_nth option.distinct(1))
  with assms r have "execute_all exec mut order calls s = Some (map the slots, s')"
    by (simp add: execute_all_def Let_def)
  moreover have "list_all2 answers calls (map the slots)"
    unfolding list_all2_conv_all_nth using all slots(1) by fastforce
  ultimately show ?thesis using slots_inv [OF r] by blast
qed

end

lemma sorted_filter_upt: "sort (filter P [0..<n]) = filter P [0..<n]"
  by (intro sorted_sort_id sorted_wrt_filter) simp

lemma batch_order_sorted: "sort (batch_order mut calls order) = filter (\<lambda>i. \<not> mut (calls ! i)) [0..<length calls]"
  by (simp add: batch_order_def Let_def sorted_filter_upt)

section \<open>What one call keeps\<close>

text \<open>What every write of the executor and its gate keeps of the store.\<close>

definition tool_stable :: "store_env \<Rightarrow> (trace_store \<Rightarrow> bool) \<Rightarrow> bool" where
  "tool_stable env P \<longleftrightarrow> (\<forall>ev st. P st \<longrightarrow> P (snd (append_event env ev st))) \<and>
     (\<forall>b mt st. P st \<longrightarrow> P (snd (put_blob env b mt st)))"

text \<open>The events a call sends.\<close>

definition tool_event :: "agent_event \<Rightarrow> bool" where
  "tool_event e \<longleftrightarrow> live_event e \<or>
     (case e of AgentToolResult _ _ \<Rightarrow> True | PermissionDecisionEvent _ _ \<Rightarrow> True | _ \<Rightarrow> False)"

text \<open>From a state: the store still has what it had, and only events of tools were sent.\<close>

definition tool_reach :: "(trace_store \<Rightarrow> bool) \<Rightarrow> exec_state \<Rightarrow> exec_state \<Rightarrow> bool" where
  "tool_reach P s s' \<longleftrightarrow> (P (xs_store s) \<longrightarrow> P (xs_store s')) \<and>
     (\<exists>es. xs_log s' = xs_log s @ es \<and> list_all tool_event es)"

lemma tool_reach_refl [simp]: "tool_reach P s s"
  by (simp add: tool_reach_def)

lemma tool_reach_trans: "tool_reach P a b \<Longrightarrow> tool_reach P b c \<Longrightarrow> tool_reach P a c"
  by (force simp: tool_reach_def)

lemma stored_id_stable: "tool_stable env P \<Longrightarrow> P st \<Longrightarrow> P (snd (stored_id (append_event env ev) st))"
  "tool_stable env P \<Longrightarrow> P st \<Longrightarrow> P (snd (stored_id (put_blob env b mt) st))"
  by (auto simp: stored_id_def tool_stable_def split: prod.splits) (metis snd_conv)+

lemma store_each_stable: "tool_stable env P \<Longrightarrow> P st \<Longrightarrow> P (snd (store_each env as st))"
proof (induction as arbitrary: st)
  case (Cons a as)
  obtain i st1 where "stored_id (put_blob env (at_bytes a) (at_media_type a)) st = (i, st1)" by fastforce
  with stored_id_stable(2) [OF Cons.prems, of "at_bytes a" "at_media_type a"] Cons.IH [of st1] Cons.prems(1)
  show ?case by (simp add: split_beta)
qed simp

lemma finish_in_stable: "tool_stable env P \<Longrightarrow> P st \<Longrightarrow> P (snd (finish_in env at xl call tenv w ms rk out st))"
  by (auto simp: finish_in_def Let_def split_beta stored_id_stable store_each_stable split: option.split)

lemma step_gate_reach:
  "tool_stable env P \<Longrightarrow> tool_reach P s (snd (step_gate env gv at s cid spec input))"
  by (auto simp: step_gate_def Let_def xs_emit_def tool_reach_def decision_event_def tool_event_def live_event_def
      stored_id_stable split: prod.split)

lemma run_call_state:
  "run_call lib gate e call w s = (out, s', fx) \<Longrightarrow> s' = s \<or> s' = snd (gate s (tl_id call) (te_spec e) (tl_input call))"
  by (auto simp: run_call_def Let_def split: option.splits cancel_point.splits prod.splits sum.splits run_end.splits)

lemma run_entry_reach:
  assumes "tool_stable (te_store te) P" "run_entry te at call w s = (out, s')"
  shows "tool_reach P s s'"
proof (cases "registry_get (te_registry te) (tl_name call)")
  case (Some e)
  obtain o' s1 fx where r: "run_call (te_schema te) (step_gate (te_store te) (te_gate te) at) e call w s = (o', s1, fx)"
    by (rule prod_cases3)
  from run_call_state [OF r] step_gate_reach [OF assms(1), of s] have "tool_reach P s s1" by auto
  with assms(2) Some r show ?thesis by (simp add: run_entry_def)
qed (use assms(2) in \<open>simp add: run_entry_def\<close>)

lemma execute_in_cases:
  assumes "execute_in te at world call s = (x, s')"
  obtains e st st' where
      "append_event (te_store te) (call_event te at call (call_risk te call)) (xs_store s) = (Inl e, st)"
      "finish_in (te_store te) at (te_xl te) call (call_env te call) (tw_call (world (xs_runs s))) 0 None
         (Inl (ToolFailed (''trace: '' @ trace_error_str e))) st = (x, st')"
      "s' = s\<lparr>xs_runs := Suc (xs_runs s), xs_store := st'\<rparr>"
  | i st out s1 s2 st' where
      "append_event (te_store te) (call_event te at call (call_risk te call)) (xs_store s) = (Inr i, st)"
      "run_entry te at call (tw_call (world (xs_runs s))) (s\<lparr>xs_runs := Suc (xs_runs s), xs_store := st\<rparr>) = (out, s1)"
      "s2 = xs_emit (filter live_event (tw_live (world (xs_runs s)))) s1"
      "finish_in (te_store te) at (te_xl te) call (call_env te call) (tw_call (world (xs_runs s)))
         (cw_duration_ms (tw_call (world (xs_runs s)))) (call_risk te call) out (xs_store s2) = (x, st')"
      "s' = xs_emit [result_event at x] (s2\<lparr>xs_store := st'\<rparr>)"
  using assms unfolding execute_in_def Let_def by (auto split: prod.splits sum.splits)

lemma finish_in_step: "tool_stable env P \<Longrightarrow> finish_in env at xl call tenv w ms rk out st = (x, st') \<Longrightarrow> P st \<Longrightarrow> P st'"
  using finish_in_stable [of env P st at xl call tenv w ms rk out] by simp

lemma append_event_step: "tool_stable env P \<Longrightarrow> append_event env ev st = (r, st') \<Longrightarrow> P st \<Longrightarrow> P st'"
  by (metis tool_stable_def snd_conv)

lemma execute_in_reach:
  assumes "tool_stable (te_store te) P" "execute_in te at world call s = (x, s')"
  shows "tool_reach P s s'"
  using assms(2)
proof (cases rule: execute_in_cases)
  case (1 e st st')
  with append_event_step [OF assms(1) 1(1)] finish_in_step [OF assms(1) 1(2)] show ?thesis
    by (simp add: tool_reach_def)
next
  case (2 i st out s1 s2 st')
  have "tool_reach P s s1"
    using run_entry_reach [OF assms(1) 2(2)] append_event_step [OF assms(1) 2(1)] by (simp add: tool_reach_def)
  moreover have "tool_reach P s1 s2"
    by (auto simp: 2(3) xs_emit_def tool_reach_def list_all_iff tool_event_def)
  moreover have "tool_reach P s2 s'"
    using finish_in_step [OF assms(1) 2(4)] by (simp add: 2(5) tool_reach_def xs_emit_def tool_event_def result_event_def)
  ultimately show ?thesis using tool_reach_trans by blast
qed

lemma finish_in_answers:
  "finish_in env at xl call tenv w ms rk out st = (x, st') \<Longrightarrow>
     ex_call_id x = tl_id call \<and> tb_tool_use_id (ex_block x) = tl_id call"
  by (auto simp: finish_in_def Let_def finish_call_def split: prod.splits)

lemma execute_in_answers:
  assumes "execute_in te at world call s = (x, s')"
  shows "ex_call_id x = tl_id call \<and> tb_tool_use_id (ex_block x) = tl_id call"
  using assms by (cases rule: execute_in_cases) (use finish_in_answers in blast)+

interpretation step_tools: executor "execute_in te at world"
    "\<lambda>s. tool_stable (te_store te) P \<and> tool_reach P s0 s"
    "\<lambda>c x. ex_call_id x = tl_id c \<and> tb_tool_use_id (ex_block x) = tl_id c"
  for te at world P s0
proof (unfold_locales, goal_cases)
  case 1
  then show ?case using execute_in_reach tool_reach_trans by blast
qed (use execute_in_answers in blast)

lemma run_batch_results:
  assumes "run_batch te at world order calls s = (xs, s')"
  shows "map ex_call_id xs = map tl_id calls" "map (tb_tool_use_id \<circ> ex_block) xs = map tl_id calls"
    "tool_stable (te_store te) P \<Longrightarrow> tool_reach P s s'"
proof -
  let ?mut = "call_mutating (te_registry te)"
  from step_tools.all_answered [OF batch_order_sorted [of ?mut calls order], of te at world s P s]
  obtain es s1 where e: "execute_all (execute_in te at world) (call_mutating (te_registry te))
        (batch_order (call_mutating (te_registry te)) calls order) calls s = Some (es, s1)"
    "list_all2 (\<lambda>c x. ex_call_id x = tl_id c \<and> tb_tool_use_id (ex_block x) = tl_id c) calls es"
    "tool_stable (te_store te) P \<Longrightarrow> tool_reach P s s1" by auto
  with assms have eq: "xs = es" "s' = s1" by (simp_all add: run_batch_def Let_def)
  from e(2) show "map ex_call_id xs = map tl_id calls" "map (tb_tool_use_id \<circ> ex_block) xs = map tl_id calls"
    unfolding eq by (induction rule: list_all2_induct) simp_all
  show "tool_stable (te_store te) P \<Longrightarrow> tool_reach P s s'" using e(3) unfolding eq .
qed

end
