(* ===== verification/Agent_Loop.thy ===== *)
theory Agent_Loop
  imports Agent_Tools Conversation
begin

text \<open>
  The loop of \<open>crates/core/src/runtime/agent.rs\<close>: mentor call, tools, mentor call, until the mentor
  ends the turn. An operation of the run is a function from the state of the run (the store, the
  events sent, the permission engine, the conversation, the flags of the loop) to its result and the
  state after it; the result \<open>Inl\<close> is a failure of the trace. What the mentor answers, when the run
  is cancelled and how long anything takes is asked of \<open>run_world\<close>, question by question: each
  question has the number of the state's counter. The retries of one mentor call have no bound of
  their own in the code, so \<open>call_loop\<close> has fuel and answers \<open>None\<close> when it is used up.
\<close>

section \<open>How a run ends\<close>

record finish =
  fn_status :: agent_status
  fn_error :: "rpc_error option"
  fn_truncated :: bool

definition finish_ok :: "bool \<Rightarrow> finish" where
  "finish_ok truncated = \<lparr>fn_status = StatusOk, fn_error = None, fn_truncated = truncated\<rparr>"

definition finish_error :: "rpc_error \<Rightarrow> finish" where
  "finish_error e =
     \<lparr>fn_status = (if error_kind e = Some ''cancelled'' then StatusCancelled else StatusError),
      fn_error = Some e, fn_truncated = False\<rparr>"

definition finish_cancelled :: finish where
  "finish_cancelled = finish_error cancelled_error"

definition finish_stopped :: "string \<Rightarrow> string \<Rightarrow> json \<Rightarrow> finish" where
  "finish_stopped kind m details = finish_error (with_details (agent_stopped kind m) details)"

definition finish_run_status :: "finish \<Rightarrow> run_status" where
  "finish_run_status f =
     (case fn_status f of StatusOk \<Rightarrow> RunOk | StatusCancelled \<Rightarrow> RunCancelledStatus | StatusError \<Rightarrow> RunErrorStatus)"

section \<open>Settings, world and state\<close>

record loop_config =
  lc_max_iterations :: nat
  lc_max_wait_s :: nat
  lc_stall_grace_s :: nat
  lc_mentor :: mentor_config
  lc_permissions :: permissions_config

text \<open>\<open>stall_window\<close>, in seconds of \<open>u64\<close>; zero is off.\<close>

definition stall_window :: "loop_config \<Rightarrow> tools_config \<Rightarrow> nat" where
  "stall_window lc tc =
     (if lc_stall_grace_s lc = 0 then 0
      else min (max (max (gc_timeout_s (lc_mentor lc)) (tc_execute_s tc)) (pc_ask_timeout_s (lc_permissions lc))
                  + lc_stall_grace_s lc) (2 ^ 64 - 1))"

text \<open>The watchdog: how often it looks, in milliseconds, and what it finds.\<close>

definition watch_tick_ms :: "nat \<Rightarrow> nat" where
  "watch_tick_ms window_s = min (max (1000 * window_s div 4) 200) 15000"

datatype watch = WatchOn | WatchOver | WatchStalled

definition watch_look :: "nat \<Rightarrow> bool \<Rightarrow> nat \<Rightarrow> watch" where
  "watch_look window_ms cancelled idle_ms =
     (if cancelled then WatchOver else if window_ms \<le> idle_ms then WatchStalled else WatchOn)"

text \<open>The hook points; \<open>NoopHooks\<close> changes nothing.\<close>

record step_hooks =
  hk_before_call :: "nat \<Rightarrow> conversation \<Rightarrow> conversation"
  hk_before_tools :: "nat \<Rightarrow> tool_call list \<Rightarrow> tool_call list"
  hk_on_results :: "nat \<Rightarrow> executed list \<Rightarrow> executed list"

definition noop_hooks :: step_hooks where
  "noop_hooks = \<lparr>hk_before_call = (\<lambda>_ c. c), hk_before_tools = (\<lambda>_ cs. cs), hk_on_results = (\<lambda>_ xs. xs)\<rparr>"

record run_world =
  rw_cancelled :: "nat \<Rightarrow> bool"
  rw_count_tokens :: "nat \<Rightarrow> mentor_request \<Rightarrow> mentor_error + nat"
  rw_body :: "mentor_request \<Rightarrow> mentor_error + string"
  rw_complete :: "nat \<Rightarrow> mentor_request \<Rightarrow> stream_event list \<times> (mentor_error + mentor_response)"
  rw_wait_cut :: "nat \<Rightarrow> bool"
  rw_until :: "nat \<Rightarrow> string"
  rw_call_id :: "nat \<Rightarrow> string"
  rw_tools :: "nat \<Rightarrow> tool_world"
  rw_order :: "nat \<Rightarrow> nat list"
  rw_late :: "nat \<Rightarrow> agent_event list"

record run_env =
  rn_tools :: tools_env
  rn_world :: run_world
  rn_hooks :: step_hooks
  rn_config :: loop_config
  rn_session :: string
  rn_agent :: string
  rn_runner :: runner_lib
  rn_price :: "string \<Rightarrow> usage \<Rightarrow> u64 option"
  rn_parse :: "string \<Rightarrow> string + json"

record run_state =
  ru_exec :: exec_state
  ru_conv :: conversation
  ru_tick :: nat
  ru_warned :: bool
  ru_continued :: bool

type_synonym 'a run_op = "(run_state, 'a) op"

definition rn_store :: "run_env \<Rightarrow> store_env" where
  "rn_store env = te_store (rn_tools env)"

definition on_store :: "'a trace_op \<Rightarrow> 'a run_op" where
  "on_store m = (\<lambda>s. case m (xs_store (ru_exec s)) of
     (r, st) \<Rightarrow> (r, s\<lparr>ru_exec := (ru_exec s)\<lparr>xs_store := st\<rparr>\<rparr>))"

definition emits :: "agent_event list \<Rightarrow> unit run_op" where
  "emits es = (\<lambda>s. (Inr (), s\<lparr>ru_exec := xs_emit es (ru_exec s)\<rparr>))"

definition asks :: "(nat \<Rightarrow> 'a) \<Rightarrow> 'a run_op" where
  "asks f = (\<lambda>s. (Inr (f (ru_tick s)), s\<lparr>ru_tick := Suc (ru_tick s)\<rparr>))"

definition gets :: "(run_state \<Rightarrow> 'a) \<Rightarrow> 'a run_op" where
  "gets f = (\<lambda>s. (Inr (f s), s))"

definition edits :: "(conversation \<Rightarrow> conversation) \<Rightarrow> unit run_op" where
  "edits f = (\<lambda>s. (Inr (), s\<lparr>ru_conv := f (ru_conv s)\<rparr>))"

text \<open>The last message as its row; a message was just pushed.\<close>

definition run_row :: "run_env \<Rightarrow> step_ref \<Rightarrow> conversation \<Rightarrow> new_message" where
  "run_row env at c =
     \<lparr>nm_session = rn_session env, nm_seq = length (cv_messages c), nm_role = cm_role (last (cv_messages c)),
      nm_content = cm_content (last (cv_messages c)), nm_agent = Some (sf_agent at), nm_step = Some (sf_step at)\<rparr>"

section \<open>What the clients see of a stream\<close>

type_synonym stream_tools = "nat \<rightharpoonup> string \<times> string \<times> string"

definition tool_input :: "(string \<Rightarrow> string + json) \<Rightarrow> string \<Rightarrow> json" where
  "tool_input parse j =
     (if trim j = [] then JObj [] else case parse j of Inr v \<Rightarrow> v | Inl _ \<Rightarrow> JStr j)"

definition on_stream ::
  "(string \<Rightarrow> string + json) \<Rightarrow> string \<Rightarrow> stream_event \<Rightarrow> stream_tools \<Rightarrow> stream_tools \<times> agent_event list" where
  "on_stream parse agent ev tools =
     (case ev of
        TextDelta t \<Rightarrow> (tools, [AgentTextDelta agent t])
      | ThinkingDelta t \<Rightarrow> (tools, [AgentThinkingDelta agent t])
      | ToolUseStart i cid name \<Rightarrow> (tools(i \<mapsto> (cid, name, [])), [])
      | ToolInputDelta i part \<Rightarrow>
          (case tools i of
             Some (cid, name, j) \<Rightarrow> (tools(i \<mapsto> (cid, name, j @ part)), [])
           | None \<Rightarrow> (tools, []))
      | BlockStop i \<Rightarrow>
          (case tools i of
             Some (cid, name, j) \<Rightarrow> (tools(i := None), [AgentToolCall agent cid name (tool_input parse j)])
           | None \<Rightarrow> (tools, []))
      | UsageSoFar _ \<Rightarrow> (tools, [])
      | StreamDone \<Rightarrow> (tools, []))"

fun on_streams ::
  "(string \<Rightarrow> string + json) \<Rightarrow> string \<Rightarrow> stream_event list \<Rightarrow> stream_tools \<Rightarrow> agent_event list" where
  "on_streams parse agent [] tools = []"
| "on_streams parse agent (ev # evs) tools =
     (case on_stream parse agent ev tools of (tools', es) \<Rightarrow> es @ on_streams parse agent evs tools')"

section \<open>One mentor call\<close>

definition default_wait_s :: nat where
  "default_wait_s = 30"

text \<open>How long to wait after an error before the next attempt, if there is to be one.\<close>

definition wait_after :: "mentor_error \<Rightarrow> bool \<Rightarrow> nat option \<times> bool" where
  "wait_after e interrupted =
     (case e of
        RateLimited r \<Rightarrow> (Some (case r of Some s \<Rightarrow> s | None \<Rightarrow> default_wait_s), interrupted)
      | Overloaded \<Rightarrow> (Some default_wait_s, interrupted)
      | StreamInterrupted _ \<Rightarrow> (if interrupted then (None, True) else (Some 0, True))
      | _ \<Rightarrow> (None, interrupted))"

definition stream_warning :: "run_env \<Rightarrow> agent_event" where
  "stream_warning env = AgentWarning (rn_agent env) ''stream_interrupted''
     ''the stream broke after output started; calling again (the partial output above is discarded)''"

text \<open>One attempt: the request goes out, its events reach the clients as they come.\<close>

definition call_once :: "run_env \<Rightarrow> mentor_request \<Rightarrow> (mentor_error + mentor_response) run_op" where
  "call_once env req =
     t_bind (asks (\<lambda>t. rw_complete (rn_world env) t req)) (\<lambda>(evs, r).
     t_then (emits (on_streams (rn_parse env) (rn_agent env) evs Map.empty)) (t_return r))"

fun call_loop ::
  "run_env \<Rightarrow> step_ref \<Rightarrow> string \<Rightarrow> mentor_request \<Rightarrow> nat \<Rightarrow> nat \<Rightarrow> nat \<Rightarrow> bool \<Rightarrow>
     (mentor_error + mentor_response) option run_op" where
  "call_loop env at cid req 0 waited retry_no interrupted = t_return None"
| "call_loop env at cid req (Suc fuel) waited retry_no interrupted =
     t_bind (call_once env req) (\<lambda>r.
     case r of
       Inr resp \<Rightarrow> t_return (Some (Inr resp))
     | Inl err \<Rightarrow>
         (case wait_after err interrupted of
            (None, _) \<Rightarrow> t_return (Some (Inl err))
          | (Some w, interrupted') \<Rightarrow>
              if lc_max_wait_s (rn_config env) < waited + w then t_return (Some (Inl err))
              else t_bind (on_store (append_event (rn_store env)
                     (event_payload (mentor_error_payload cid err (Suc retry_no)) (step_event at ''mentor.error'')))) (\<lambda>_.
              if w = 0 then
                t_then (emits [stream_warning env]) (call_loop env at cid req fuel waited (Suc retry_no) interrupted')
              else t_bind (asks (rw_until (rn_world env))) (\<lambda>until.
                t_then (emits [AgentWaiting (rn_agent env) (mentor_error_kind err) until (wait_millis w)])
                (t_bind (asks (rw_wait_cut (rn_world env))) (\<lambda>cut.
                 if cut then t_return (Some (Inl MentorCancelled))
                 else call_loop env at cid req fuel (waited + w) (Suc retry_no) interrupted'))))))"

declare call_loop.simps [simp del]

definition call_mentor ::
  "run_env \<Rightarrow> nat \<Rightarrow> step_ref \<Rightarrow> string \<Rightarrow> (mentor_error + mentor_response) option run_op" where
  "call_mentor env fuel at cid =
     t_bind (gets ru_conv) (\<lambda>conv.
     let req = conv_request conv in
     case rw_body (rn_world env) req of
       Inl e \<Rightarrow> t_return (Some (Inl e))
     | Inr body \<Rightarrow>
         t_bind (on_store (record_mentor_request (rn_store env) at cid CallStep req body (cv_prompt_version conv))) (\<lambda>_.
           call_loop env at cid req fuel 0 0 False))"

section \<open>Outcomes and the context guard\<close>

text \<open>\<open>record_outcome\<close>: a failure of the trace is only logged.\<close>

definition record_outcome :: "run_env \<Rightarrow> signal \<Rightarrow> step_ref option \<Rightarrow> unit run_op" where
  "record_outcome env g at = (\<lambda>s.
     let ev = (case at of Some a \<Rightarrow> signal_event_at g a | None \<Rightarrow> signal_event g (rn_session env) (rn_agent env)) in
     case on_store (append_event (rn_store env) ev) s of
       (Inl e, s') \<Rightarrow> (Inr (), s')
     | (Inr i, s') \<Rightarrow> emits [signal_live_event g (rn_agent env) i] s')"

definition stop_run :: "run_env \<Rightarrow> string \<Rightarrow> string \<Rightarrow> json \<Rightarrow> finish run_op" where
  "stop_run env kind m details =
     t_then (record_outcome env (outcome_error kind details) None) (t_return (finish_stopped kind m details))"

text \<open>How big the context is: the last usage, else the API's count of a history that was loaded.\<close>

definition known_tokens :: "run_env \<Rightarrow> u64 option run_op" where
  "known_tokens env =
     t_bind (gets ru_conv) (\<lambda>conv.
     case context_tokens conv of
       Some n \<Rightarrow> t_return (Some n)
     | None \<Rightarrow>
         if 1 < length (cv_messages conv) then
           t_bind (asks (\<lambda>t. rw_count_tokens (rn_world env) t (conv_request conv))) (\<lambda>r.
             t_return (case r of Inr n \<Rightarrow> Some (of_nat n) | Inl _ \<Rightarrow> None))
         else t_return None)"

definition guard_context :: "run_env \<Rightarrow> finish option run_op" where
  "guard_context env =
     t_bind (known_tokens env) (\<lambda>tokens.
     case tokens of
       None \<Rightarrow> t_return None
     | Some n \<Rightarrow>
         (let hard = gc_context_hard_limit (lc_mentor (rn_config env));
              soft = gc_context_soft_limit (lc_mentor (rn_config env))
          in if 0 < hard \<and> hard \<le> n then
               t_bind (stop_run env ''context_limit''
                 (''the context reached '' @ show_nat (unat n) @ '' tokens (mentor.context_hard_limit ''
                   @ show_nat (unat hard) @ '')'')
                 (jobj [(''context_tokens'', JInt (uint n)), (''limit'', JInt (uint hard))])) (\<lambda>f. t_return (Some f))
             else t_bind (gets ru_warned) (\<lambda>warned.
               if 0 < soft \<and> soft \<le> n \<and> \<not> warned then
                 t_then (\<lambda>s. (Inr (), s\<lparr>ru_warned := True\<rparr>))
                 (t_then (emits [AgentWarning (rn_agent env) ''context_large''
                    (''the last call used '' @ show_nat (unat n) @ '' input tokens (mentor.context_soft_limit ''
                      @ show_nat (unat soft) @ '')'')])
                   (t_return None))
               else t_return None)))"

section \<open>After the answer\<close>

definition message_payload :: "string \<Rightarrow> mentor_response \<Rightarrow> json" where
  "message_payload cid resp = jobj
     [(''call_id'', JStr cid), (''text_len'', JInt (int (length (response_text resp)))),
      (''stop_reason'', JStr (stop_reason_str (mr_stop_reason resp))),
      (''truncated'', JBool (mr_stop_reason resp = MaxTokens)),
      (''tool_calls'', JArr (map (\<lambda>(_, n, _). JStr n) (response_tool_uses resp)))]"

definition after_response :: "run_env \<Rightarrow> step_ref \<Rightarrow> string \<Rightarrow> mentor_response \<Rightarrow> unit run_op" where
  "after_response env at cid resp =
     (let cost = rn_price env (mr_model resp) (mr_usage resp);
          message = event_blob_bytes (response_text resp) output_media_type
            (event_payload (message_payload cid resp) (step_event at ''assistant.message''))
      in t_then (edits (push_assistant (mr_content resp)))
         (t_bind (gets ru_conv) (\<lambda>conv.
          t_bind (on_store (t_bind (record_mentor_response (rn_store env) at cid resp cost) (\<lambda>_.
              append_with_message (rn_store env) message (run_row env at conv)))) (\<lambda>_.
          t_then (edits (record_usage (mr_usage resp) cost))
          (t_bind (gets ru_conv) (\<lambda>conv'.
            emits [AgentUsage (rn_agent env)
              \<lparr>uv_call_id = cid, uv_usage = mr_usage resp, uv_cost = cost, uv_session_usage = cv_totals conv',
               uv_session_cost = cv_cost_micros conv', uv_session_calls = cv_calls conv'\<rparr>]))))))"

section \<open>The tools of a step\<close>

definition response_calls :: "mentor_response \<Rightarrow> tool_call list" where
  "response_calls resp = calls_of (mr_content resp)"

definition run_batch_op :: "run_env \<Rightarrow> step_ref \<Rightarrow> tool_call list \<Rightarrow> executed list run_op" where
  "run_batch_op env at calls = (\<lambda>s.
     case run_batch (rn_tools env) at (rw_tools (rn_world env)) (rw_order (rn_world env) (ru_tick s)) calls (ru_exec s) of
       (xs, e) \<Rightarrow> (Inr xs, s\<lparr>ru_exec := e, ru_tick := Suc (ru_tick s)\<rparr>))"

text \<open>The signal in a result, by the call that had its id (the last of them).\<close>

definition result_signal :: "run_env \<Rightarrow> tool_call list \<Rightarrow> executed \<Rightarrow> signal option" where
  "result_signal env calls x =
     (if ex_kind x \<noteq> KindOk \<and> ex_kind x \<noteq> KindError then None
      else case map_of (rev (map (\<lambda>c. (tl_id c, c)) calls)) (ex_call_id x) of
        None \<Rightarrow> None
      | Some c \<Rightarrow> from_tool_result (rn_runner env) (tl_name c) (tl_input c)
                    (result_text (block_of_result (ex_block x))) (ex_metadata x))"

text \<open>\<open>run_tools\<close> up to the end of the step: whether the run was cancelled meanwhile.\<close>

definition tool_results ::
  "run_env \<Rightarrow> step_ref \<Rightarrow> nat \<Rightarrow> tool_call list \<Rightarrow> bool run_op" where
  "tool_results env at seq calls0 =
     t_then (emits [AgentStep (rn_agent env) seq PhaseTools])
     (let calls = hk_before_tools (rn_hooks env) seq calls0 in
      t_bind (run_batch_op env at calls) (\<lambda>results0.
      t_bind (asks (rw_late (rn_world env))) (\<lambda>late.
      t_then (emits (filter live_event late))
      (let results = hk_on_results (rn_hooks env) seq results0 in
       t_then (t_all (\<lambda>x. case result_signal env calls x of
                  Some g \<Rightarrow> record_outcome env g (Some at) | None \<Rightarrow> t_return ()) results)
       (t_bind (asks (rw_cancelled (rn_world env))) (\<lambda>polled.
        t_then (edits (push_tool_results (map (block_of_result \<circ> ex_block) results)))
        (t_bind (gets ru_conv) (\<lambda>conv.
         t_then (on_store (put_session_message (rn_store env) (run_row env at conv)))
           (t_return ((\<exists>x\<in>set results. ex_kind x = KindCancelled) \<or> polled))))))))))"

definition run_tools ::
  "run_env \<Rightarrow> step_ref \<Rightarrow> nat \<Rightarrow> tool_call list \<Rightarrow> bool run_op" where
  "run_tools env at seq calls =
     t_bind (tool_results env at seq calls) (\<lambda>cancelled.
     t_then (on_store (finish_step (rn_store env) (sf_step at) (if cancelled then RunCancelledStatus else RunOk)))
       (t_return cancelled))"

section \<open>The loop\<close>

text \<open>What a step leads to; a call whose fuel ran out has not come back.\<close>

datatype next_step = CallHangs | StepsOn | StopsWith finish

definition run_start_step :: "run_env \<Rightarrow> step_ref run_op" where
  "run_start_step env =
     t_bind (on_store (start_step (rn_store env) (rn_agent env))) (\<lambda>i.
       t_return \<lparr>sf_session = rn_session env, sf_agent = rn_agent env, sf_step = i\<rparr>)"

definition close_step :: "run_env \<Rightarrow> step_ref \<Rightarrow> unit run_op" where
  "close_step env at = on_store (finish_step (rn_store env) (sf_step at) RunOk)"

definition step_with_tools :: "run_env \<Rightarrow> nat \<Rightarrow> step_ref \<Rightarrow> tool_call list \<Rightarrow> next_step run_op" where
  "step_with_tools env seq at calls =
     t_bind (run_tools env at seq calls) (\<lambda>cancelled.
       t_return (if cancelled then StopsWith finish_cancelled else StepsOn))"

definition continue_step :: "run_env \<Rightarrow> step_ref \<Rightarrow> next_step run_op" where
  "continue_step env at =
     t_bind (gets ru_continued) (\<lambda>continued.
     if continued then t_return (StopsWith (finish_ok True))
     else
       t_then (\<lambda>s. (Inr (), s\<lparr>ru_continued := True\<rparr>))
       (t_then (edits (push_user_text continue_message))
       (t_bind (gets ru_conv) (\<lambda>conv.
        t_bind (on_store (append_with_message (rn_store env)
            (event_blob_bytes continue_message output_media_type
              (event_payload (jobj [(''text_len'', JInt (int (length continue_message))),
                                    (''synthetic'', JStr ''continue'')]) (step_event at ''user.message'')))
            (run_row env at conv))) (\<lambda>_. t_return StepsOn)))))"

definition refusal_details :: "mentor_response \<Rightarrow> json" where
  "refusal_details resp =
     (let d = mr_stop_details resp in
      jobj [(''category'', opt_str (Option.bind d sd_category)),
            (''explanation'', opt_str (Option.bind d sd_explanation))])"

definition after_step :: "run_env \<Rightarrow> nat \<Rightarrow> step_ref \<Rightarrow> mentor_response \<Rightarrow> next_step run_op" where
  "after_step env seq at resp =
     (let calls = response_calls resp in
      case mr_stop_reason resp of
        StopToolUse \<Rightarrow> step_with_tools env seq at calls
      | MaxTokens \<Rightarrow>
          if calls \<noteq> [] then step_with_tools env seq at calls
          else t_then (close_step env at) (continue_step env at)
      | Refusal \<Rightarrow>
          t_then (close_step env at)
          (t_bind (stop_run env ''refusal''
             (''the mentor refused to continue (category: ''
               @ (case as_str (jindex ''category'' (refusal_details resp)) of Some c \<Rightarrow> c | None \<Rightarrow> ''unspecified'') @ '')'')
             (refusal_details resp)) (\<lambda>f. t_return (StopsWith f)))
      | PauseTurn \<Rightarrow> t_then (close_step env at) (t_return StepsOn)
      | ModelContextWindowExceeded \<Rightarrow>
          t_then (close_step env at)
          (t_bind (gets ru_conv) (\<lambda>conv.
           t_bind (stop_run env ''context_limit'' ''the conversation no longer fits the model's context window''
             (jobj [(''context_tokens'', json_opt (JInt \<circ> uint) (context_tokens conv))])) (\<lambda>f. t_return (StopsWith f))))
      | _ \<Rightarrow> t_then (close_step env at) (t_return (StopsWith (finish_ok False))))"

text \<open>A call that ended in an error: it and the step are closed.\<close>

definition failed_step :: "run_env \<Rightarrow> step_ref \<Rightarrow> string \<Rightarrow> mentor_error \<Rightarrow> next_step run_op" where
  "failed_step env at cid err =
     t_bind (on_store (t_bind (record_mentor_error (rn_store env) at cid err 0 True) (\<lambda>_.
        finish_step (rn_store env) (sf_step at)
          (if err = MentorCancelled then RunCancelledStatus else RunErrorStatus)))) (\<lambda>_.
       t_return (StopsWith (finish_error (rpc_of_mentor_error err))))"

text \<open>The body of the loop: the call of a step that has begun, the step, the checks before it.\<close>

definition step_call :: "run_env \<Rightarrow> nat \<Rightarrow> nat \<Rightarrow> step_ref \<Rightarrow> next_step run_op" where
  "step_call env fuel seq at =
     t_bind (asks (rw_call_id (rn_world env))) (\<lambda>cid.
     t_bind (call_mentor env fuel at cid) (\<lambda>r.
     case r of
       None \<Rightarrow> t_return CallHangs
     | Some (Inl err) \<Rightarrow> failed_step env at cid err
     | Some (Inr resp) \<Rightarrow> t_then (after_response env at cid resp) (after_step env seq at resp)))"

definition open_step :: "run_env \<Rightarrow> nat \<Rightarrow> nat \<Rightarrow> next_step run_op" where
  "open_step env fuel seq =
     t_then (edits (hk_before_call (rn_hooks env) seq))
     (t_bind (run_start_step env) (\<lambda>at.
      t_then (emits [AgentStep (rn_agent env) seq PhaseMentor]) (step_call env fuel seq at)))"

definition run_step :: "run_env \<Rightarrow> nat \<Rightarrow> nat \<Rightarrow> next_step run_op" where
  "run_step env fuel seq =
     t_bind (asks (rw_cancelled (rn_world env))) (\<lambda>cancelled.
     if cancelled then t_return (StopsWith finish_cancelled)
     else t_bind (guard_context env) (\<lambda>stop.
     case stop of
       Some f \<Rightarrow> t_return (StopsWith f)
     | None \<Rightarrow> open_step env fuel seq))"

definition max_steps :: "run_env \<Rightarrow> nat" where
  "max_steps env = max 1 (lc_max_iterations (rn_config env))"

fun run_steps :: "run_env \<Rightarrow> nat \<Rightarrow> nat \<Rightarrow> nat \<Rightarrow> finish option run_op" where
  "run_steps env fuel 0 seq =
     t_bind (stop_run env ''max_iterations''
       (''stopped after '' @ show_nat (max_steps env) @ '' mentor calls (runtime.max_iterations)'')
       (jobj [(''max_iterations'', JInt (int (max_steps env)))])) (\<lambda>f. t_return (Some f))"
| "run_steps env fuel (Suc left) seq =
     t_bind (run_step env fuel seq) (\<lambda>r.
     case r of
       CallHangs \<Rightarrow> t_return None
     | StopsWith f \<Rightarrow> t_return (Some f)
     | StepsOn \<Rightarrow> run_steps env fuel left (Suc seq))"

declare run_steps.simps [simp del]

definition run_loop :: "run_env \<Rightarrow> nat \<Rightarrow> finish option run_op" where
  "run_loop env fuel = run_steps env fuel (max_steps env) 1"

end
