(* ===== verification/Agent_Demo.thy ===== *)
theory Agent_Demo
  imports Agent_Loop Trace_Guarantees
begin

text \<open>
  A run to evaluate the properties of the loop on: a session with one prompt, on the store of
  \<open>plain_env\<close>, with a mentor that answers it and ends its turn.
\<close>

definition demo_loop_config :: loop_config where
  "demo_loop_config =
     \<lparr>lc_max_iterations = 3, lc_max_wait_s = 60, lc_stall_grace_s = 60,
      lc_mentor = \<lparr>gc_provider = ''p'', gc_model = ''m'', gc_title_model = ''t'', gc_effort = EffortHigh,
        gc_max_tokens = 100, gc_thinking_display = Summarized, gc_base_url = [], gc_timeout_s = 10,
        gc_max_retries = 2, gc_context_soft_limit = 0, gc_context_hard_limit = 0\<rparr>,
      lc_permissions = \<lparr>pc_ask_timeout_s = 600, pc_headless = HeadlessDeny\<rparr>\<rparr>"

definition demo_answer :: mentor_response where
  "demo_answer =
     \<lparr>mr_id = ''r'', mr_model = ''m'', mr_content = [block_text ''ok''], mr_stop_reason = EndTurn,
      mr_stop_details = None, mr_usage = usage_zero,
      mr_timing = \<lparr>tm_first_byte_ms = 1, tm_total_ms = 2, tm_attempts = 1\<rparr>, mr_request_bytes = 2,
      mr_raw_sse = None\<rparr>"

definition demo_run_world :: run_world where
  "demo_run_world =
     \<lparr>rw_cancelled = (\<lambda>_. False), rw_count_tokens = (\<lambda>_ _. Inr 1), rw_body = (\<lambda>_. Inr ''{}''),
      rw_complete = (\<lambda>_ _. ([TextDelta ''ok''], Inr demo_answer)), rw_wait_cut = (\<lambda>_. False),
      rw_until = (\<lambda>_. ''t''), rw_call_id = (\<lambda>_. ''c''), rw_tools = (\<lambda>_. \<lparr>tw_call = demo_world, tw_live = []\<rparr>),
      rw_order = (\<lambda>_. []), rw_late = (\<lambda>_. [])\<rparr>"

definition demo_run :: run_env where
  "demo_run =
     \<lparr>rn_tools = \<lparr>te_store = plain_env, te_gate = demo_env, te_xl = demo_xl, te_schema = demo_schema,
        te_config = tools_config_default, te_registry = demo_registry\<rparr>,
      rn_world = demo_run_world, rn_hooks = noop_hooks, rn_config = demo_loop_config,
      rn_session = ''i'', rn_agent = ''a'', rn_runner = ascii_runner_lib, rn_price = (\<lambda>_ _. None),
      rn_parse = (\<lambda>s. Inr (JStr s))\<rparr>"

definition demo_run_state :: run_state where
  "demo_run_state =
     \<lparr>ru_exec = \<lparr>xs_store = plain_store, xs_log = [], xs_engine = demo_engine, xs_rules = empty_disk, xs_runs = 0\<rparr>,
      ru_conv = push_user_text ''hi'' (conv_new ''i''), ru_tick = 0, ru_warned = False, ru_continued = False\<rparr>"

lemma demo_parts:
  "rn_world demo_run = demo_run_world" "rn_hooks demo_run = noop_hooks" "rn_config demo_run = demo_loop_config"
  "rn_store demo_run = plain_env" "lc_max_wait_s demo_loop_config = 60" "lc_max_iterations demo_loop_config = 3"
  "rw_complete demo_run_world t q = ([TextDelta ''ok''], Inr demo_answer)"
  by (simp_all add: demo_run_def demo_loop_config_def demo_run_world_def rn_store_def)

end
