(* ===== verification/Agent_Returns.thy ===== *)
theory Agent_Returns
  imports Agent_Demo
begin

text \<open>
  The loop comes back: the retries of a mentor call are bounded by the waiting budget as long as a
  rate limit asks for a wait at all, and every run makes at most \<open>max_iterations\<close> calls. A rate limit
  that asks for no wait is tried again at once, without end.
\<close>

section \<open>One call\<close>

text \<open>Every rate limit with a \<open>retry-after\<close> asks for a second at least.\<close>

definition patient_world :: "run_world \<Rightarrow> bool" where
  "patient_world w \<longleftrightarrow> (\<forall>t req evs. rw_complete w t req \<noteq> (evs, Inl (RateLimited (Some 0))))"

definition retry_budget :: "run_env \<Rightarrow> nat \<Rightarrow> bool \<Rightarrow> nat" where
  "retry_budget env waited interrupted =
     lc_max_wait_s (rn_config env) - waited + (if interrupted then 0 else 1)"

definition call_fuel :: "run_env \<Rightarrow> nat" where
  "call_fuel env = lc_max_wait_s (rn_config env) + 2"

lemma call_once_run:
  obtains r s' where "call_once env req s = (Inr r, s')"
    "\<exists>evs. rw_complete (rn_world env) (ru_tick s) req = (evs, r)"
  by (cases "rw_complete (rn_world env) (ru_tick s) req")
    (auto simp: call_once_def t_bind_def t_then_def asks_def emits_def t_return_def)

lemma wait_after_budget:
  assumes "wait_after err interrupted = (Some w, interrupted')" "err \<noteq> RateLimited (Some 0)"
    "waited + w \<le> lc_max_wait_s (rn_config env)"
  shows "retry_budget env (waited + w) interrupted' < retry_budget env waited interrupted"
  using assms by (auto simp: wait_after_def retry_budget_def default_wait_s_def split: mentor_error.splits option.splits if_splits)

text \<open>Two loops of which one has more fuel than the other, both more than the budget.\<close>

lemma call_loop_fuel:
  assumes "patient_world (rn_world env)"
  shows "retry_budget env waited interrupted < f \<Longrightarrow> retry_budget env waited interrupted < f' \<Longrightarrow>
     call_loop env at cid req f waited retry_no interrupted s = call_loop env at cid req f' waited retry_no interrupted s \<and>
     fst (call_loop env at cid req f waited retry_no interrupted s) \<noteq> Inr None"
proof (induction f arbitrary: f' waited retry_no interrupted s)
  case (Suc f)
  then obtain g where g: "f' = Suc g" by (cases f') auto
  obtain r s1 evs where c: "call_once env req s = (Inr r, s1)"
    "rw_complete (rn_world env) (ru_tick s) req = (evs, r)" by (rule call_once_run) blast
  show ?case
  proof (cases r)
    case (Inr resp)
    with c show ?thesis by (simp add: g call_loop.simps t_bind_def t_return_def)
  next
    case (Inl err)
    with c(2) assms have nz: "err \<noteq> RateLimited (Some 0)" by (auto simp: patient_world_def)
    obtain ow i where w: "wait_after err interrupted = (ow, i)" by fastforce
    show ?thesis
    proof (cases "\<exists>w. ow = Some w \<and> waited + w \<le> lc_max_wait_s (rn_config env)")
      case False
      with c Inl w show ?thesis
        by (cases ow) (simp_all add: g call_loop.simps t_bind_def t_return_def)
    next
      case True
      then obtain w' where w': "ow = Some w'" "waited + w' \<le> lc_max_wait_s (rn_config env)" by blast
      have lt: "retry_budget env (waited + w') i < retry_budget env waited interrupted"
        using wait_after_budget [OF _ nz w'(2)] w w'(1) by simp
      have IH: "call_loop env at cid req f (waited + w') n i t = call_loop env at cid req g (waited + w') n i t \<and>
          fst (call_loop env at cid req f (waited + w') n i t) \<noteq> Inr None" for n t
        by (rule Suc.IH) (use lt Suc.prems g in linarith)+
      show ?thesis
        using c Inl w w' IH IH [of _ "_ :: run_state"]
        by (auto simp: g call_loop.simps t_bind_def t_then_def t_return_def emits_def asks_def split: prod.split sum.split)
    qed
  qed
qed simp

section \<open>The whole loop\<close>

lemma twp_always: "(\<And>x st. Q x st) \<Longrightarrow> twp m Q s"
  by (simp add: twp_def split: prod.split sum.split)

lemma twp_bind_always: "(\<And>x st. twp (f x) Q st) \<Longrightarrow> twp (t_bind m f) Q s"
  unfolding twp_bind by (rule twp_always)

lemma twp_then_always: "(\<And>st. twp n Q st) \<Longrightarrow> twp (t_then m n) Q s"
  unfolding twp_then by (rule twp_always)

lemma twp_fst: "twp m (\<lambda>x _. x \<noteq> y) s \<Longrightarrow> fst (m s) \<noteq> Inr y"
  by (auto simp: twp_def split: prod.splits sum.splits)

lemma fst_twp: "fst (m s) \<noteq> Inr y \<Longrightarrow> twp m (\<lambda>x _. x \<noteq> y) s"
  by (auto simp: twp_def split: prod.splits sum.splits)

lemma budget_fuel: "call_fuel env \<le> f \<Longrightarrow> retry_budget env 0 False < f"
  by (simp add: call_fuel_def retry_budget_def)

lemma call_mentor_fuel:
  assumes "patient_world (rn_world env)" "call_fuel env \<le> f"
  shows "call_mentor env f at cid = call_mentor env (call_fuel env) at cid"
    and "twp (call_mentor env f at cid) (\<lambda>r _. r \<noteq> None) s"
proof -
  note loop = call_loop_fuel [OF assms(1) budget_fuel [OF assms(2)] budget_fuel [OF order_refl]]
  have eq: "call_loop env at cid req f 0 0 False = call_loop env at cid req (call_fuel env) 0 0 False" for req
    by (rule ext) (use loop in blast)
  show "call_mentor env f at cid = call_mentor env (call_fuel env) at cid"
    unfolding call_mentor_def eq ..
  have "twp (call_loop env at cid req f 0 0 False) (\<lambda>r _. r \<noteq> None) t" for req t
    using loop by (intro fst_twp) blast
  then have called: "twp (t_bind (on_store m) (\<lambda>_. call_loop env at cid req f 0 0 False)) (\<lambda>r _. r \<noteq> None) t"
    for m :: "string trace_op" and req t
    by (rule twp_bind_always)
  show "twp (call_mentor env f at cid) (\<lambda>r _. r \<noteq> None) s"
    unfolding call_mentor_def Let_def
    by (rule twp_bind_always) (auto simp: twp_basic called simp del: not_None_eq split: sum.split)
qed

lemma run_step_fuel:
  assumes "patient_world (rn_world env)" "call_fuel env \<le> f"
  shows "run_step env f seq = run_step env (call_fuel env) seq"
    and "twp (run_step env f seq) (\<lambda>r _. r \<noteq> CallHangs) s"
proof -
  show "run_step env f seq = run_step env (call_fuel env) seq"
    unfolding run_step_def open_step_def step_call_def call_mentor_fuel(1) [OF assms] ..
  have stops: "twp (t_bind m (\<lambda>f. t_return (StopsWith (g f)))) (\<lambda>r _. r \<noteq> CallHangs) t" for m :: "'a run_op" and g t
    by (simp add: twp) (rule twp_always, simp)
  have tools: "twp (step_with_tools env seq at calls) (\<lambda>r _. r \<noteq> CallHangs) t" for at calls t
    by (simp add: step_with_tools_def twp) (rule twp_always, simp)
  have cont: "twp (continue_step env at) (\<lambda>r _. r \<noteq> CallHangs) t" for at t
    unfolding continue_step_def twp_bind by (rule twp_always) (auto simp: twp intro!: twp_always)
  have after: "twp (after_step env seq at resp) (\<lambda>r _. r \<noteq> CallHangs) t" for at resp t
    unfolding after_step_def Let_def
    by (auto simp: twp tools cont stops split: stop_reason.split intro!: twp_always)
  have failed: "twp (failed_step env at cid err) (\<lambda>r _. r \<noteq> CallHangs) t" for at cid err t
    unfolding failed_step_def twp_bind by (rule twp_always) (simp add: twp_basic)
  have called: "twp (t_bind (call_mentor env f at cid) (\<lambda>r. case r of None \<Rightarrow> t_return CallHangs
      | Some (Inl err) \<Rightarrow> failed_step env at cid err
      | Some (Inr resp) \<Rightarrow> t_then (after_response env at cid resp) (after_step env seq at resp)))
         (\<lambda>r _. r \<noteq> CallHangs) t" for at cid t
    unfolding twp_bind
    by (rule twp_mono [OF call_mentor_fuel(2) [OF assms]])
      (auto simp: failed after split: sum.split intro!: twp_then_always)
  have "twp (open_step env f seq) (\<lambda>r _. r \<noteq> CallHangs) t" for t
    unfolding open_step_def step_call_def
    by (rule twp_then_always, rule twp_bind_always, rule twp_then_always, rule twp_bind_always, rule called)
  then show "twp (run_step env f seq) (\<lambda>r _. r \<noteq> CallHangs) s"
    unfolding run_step_def
    by (intro twp_bind_always) (auto simp: twp_basic split: option.split intro!: twp_bind_always)
qed

lemma run_steps_fuel:
  assumes "patient_world (rn_world env)" "call_fuel env \<le> f"
  shows "run_steps env f n seq = run_steps env (call_fuel env) n seq"
    and "twp (run_steps env f n seq) (\<lambda>r _. r \<noteq> None) s"
proof -
  show "run_steps env f n seq = run_steps env (call_fuel env) n seq"
    by (induction n arbitrary: seq) (simp_all add: run_steps.simps run_step_fuel(1) [OF assms] cong: next_step.case_cong)
  show "twp (run_steps env f n seq) (\<lambda>r _. r \<noteq> None) s"
  proof (induction n arbitrary: seq s)
    case 0
    show ?case by (simp add: run_steps.simps twp) (rule twp_always, simp)
  next
    case (Suc n)
    show ?case unfolding run_steps.simps twp_bind
      by (rule twp_mono [OF run_step_fuel(2) [OF assms]]) (simp add: twp_basic Suc del: not_None_eq split: next_step.split)
  qed
qed



text \<open>The other side: a rate limit without a wait is retried without end.\<close>

lemma zero_wait_never_returns:
  assumes "\<And>t. rw_complete (rn_world env) t req = ([], Inl (RateLimited (Some 0)))"
    and "waited \<le> lc_max_wait_s (rn_config env)"
  shows "fst (call_loop env at cid req fuel waited retry_no interrupted s) \<noteq> Inr (Some r)"
proof (induction fuel arbitrary: retry_no interrupted s)
  case (Suc fuel)
  obtain x s1 evs where c: "call_once env req s = (Inr x, s1)"
    "rw_complete (rn_world env) (ru_tick s) req = (evs, x)" by (rule call_once_run) blast
  with assms(1) have "x = Inl (RateLimited (Some 0))" by simp
  with c assms(2) Suc show ?case
    by (auto simp: call_loop.simps t_bind_def t_then_def t_return_def emits_def wait_after_def split: prod.split sum.split)
qed (simp add: call_loop.simps t_return_def)

end
