(* ===== verification/Agent_Logic.thy ===== *)
theory Agent_Logic
  imports Agent_Loop Trace_Logic
begin

text \<open>
  How the operations of a run are reasoned about. \<open>run_wp m Q E s\<close> says that \<open>m\<close> on \<open>s\<close> ends with \<open>Q\<close> of
  its result and state, or, when the trace fails, with \<open>E\<close> of the state; its equations are the
  collection \<open>run_wp\<close>. \<open>within R m\<close> says that \<open>m\<close> relates the states before and after by \<open>R\<close>, whatever
  it returns; the locales carry it from the primitives to the parts of the loop: \<open>run_frame\<close> for
  those that leave the conversation and the steps alone, \<open>run_frame_edit\<close> for those that add
  messages, \<open>run_frame_full\<close> for the whole loop.
\<close>

section \<open>Both outcomes of an operation\<close>

named_theorems run_wp

definition run_wp :: "('s, 'a) op \<Rightarrow> ('a \<Rightarrow> 's \<Rightarrow> bool) \<Rightarrow> ('s \<Rightarrow> bool) \<Rightarrow> 's \<Rightarrow> bool" where
  "run_wp m Q E s = (case m s of (Inl e, s') \<Rightarrow> E s' | (Inr x, s') \<Rightarrow> Q x s')"

lemma run_wp_bind [run_wp]: "run_wp (t_bind m f) Q E s = run_wp m (\<lambda>x s'. run_wp (f x) Q E s') E s"
  by (simp add: run_wp_def t_bind_def split: prod.split sum.split)

lemma run_wp_then [run_wp]: "run_wp (t_then m n) Q E s = run_wp m (\<lambda>_ s'. run_wp n Q E s') E s"
  by (simp add: t_then_def run_wp_bind)

lemma run_wp_basic [run_wp]:
  "run_wp (t_return x) Q E s = Q x s"
  "run_wp (asks f) Q' E' r = Q' (f (ru_tick r)) (r\<lparr>ru_tick := Suc (ru_tick r)\<rparr>)"
  "run_wp (gets g) Q'' E' r = Q'' (g r) r"
  "run_wp (edits h) U E' r = U () (r\<lparr>ru_conv := h (ru_conv r)\<rparr>)"
  "run_wp (emits es) U E' r = U () (r\<lparr>ru_exec := xs_emit es (ru_exec r)\<rparr>)"
  by (simp_all add: run_wp_def t_return_def asks_def gets_def edits_def emits_def)

lemma run_wp_mono:
  "run_wp m Q E s \<Longrightarrow> (\<And>x s'. Q x s' \<Longrightarrow> Q' x s') \<Longrightarrow> (\<And>s'. E s' \<Longrightarrow> E' s') \<Longrightarrow> run_wp m Q' E' s"
  by (auto simp: run_wp_def split: prod.splits sum.splits)

lemma run_wpD: "run_wp m Q E s \<Longrightarrow> m s = (r, s') \<Longrightarrow> (case r of Inl e \<Rightarrow> E s' | Inr x \<Rightarrow> Q x s')"
  by (simp add: run_wp_def split: sum.splits)

section \<open>Operations within a relation\<close>

definition within :: "(run_state \<Rightarrow> run_state \<Rightarrow> bool) \<Rightarrow> 'a run_op \<Rightarrow> bool" where
  "within R m \<longleftrightarrow> (\<forall>s. R s (snd (m s)))"

lemma within_wp:
  "within R m \<Longrightarrow> (\<And>x s'. R s s' \<Longrightarrow> Q x s') \<Longrightarrow> (\<And>s'. R s s' \<Longrightarrow> E s') \<Longrightarrow> run_wp m Q E s"
  unfolding within_def run_wp_def by (metis (mono_tags, lifting) old.prod.case prod.collapse sum.case_eq_if)

text \<open>The events a part of the loop sends, other than the beginning of a step or a run.\<close>

definition quiet_event :: "agent_event \<Rightarrow> bool" where
  "quiet_event e =
     (case e of AgentStarted _ _ \<Rightarrow> False | AgentFinished _ _ _ _ \<Rightarrow> False | AgentStep _ _ p \<Rightarrow> p = PhaseTools | _ \<Rightarrow> True)"

lemma on_stream_quiet: "on_stream parse agent ev tools = (tools', es) \<Longrightarrow> list_all quiet_event es"
  by (auto simp: on_stream_def quiet_event_def split: stream_event.splits option.splits)

lemma on_streams_quiet: "list_all quiet_event (on_streams parse agent evs tools)"
  by (induction parse agent evs tools rule: on_streams.induct) (auto dest: on_stream_quiet split: prod.split)

lemma tool_event_quiet: "tool_event e \<Longrightarrow> quiet_event e"
  by (auto simp: tool_event_def live_event_def quiet_event_def split: agent_event.splits)

lemma live_events_quiet: "list_all quiet_event (filter live_event es)"
  by (auto simp: list_all_iff tool_event_def intro: tool_event_quiet)

locale run_frame =
  fixes R :: "run_state \<Rightarrow> run_state \<Rightarrow> bool"
    and S :: "trace_store \<Rightarrow> trace_store \<Rightarrow> bool"
    and env :: run_env
  assumes R_refl: "R s s"
    and R_trans: "R a b \<Longrightarrow> R b c \<Longrightarrow> R a c"
    and R_flags: "R s (s\<lparr>ru_tick := n\<rparr>)" "R s (s\<lparr>ru_warned := w\<rparr>)" "R s (s\<lparr>ru_continued := w\<rparr>)"
    and R_store: "S (xs_store (ru_exec s)) st \<Longrightarrow> R s (s\<lparr>ru_exec := (ru_exec s)\<lparr>xs_store := st\<rparr>\<rparr>)"
    and R_events: "list_all quiet_event es \<Longrightarrow> R s (s\<lparr>ru_exec := xs_emit es (ru_exec s)\<rparr>)"
    and R_batch: "run_batch (rn_tools env) at world order calls (ru_exec s) = (xs, x) \<Longrightarrow> R s (s\<lparr>ru_exec := x\<rparr>)"
    and S_trans: "S p q \<Longrightarrow> S q t \<Longrightarrow> S p t"
    and S_append: "S st (snd (append_event (rn_store env) ev st))"
    and S_request: "S st (snd (record_mentor_request (rn_store env) at cid k req body version st))"
    and S_response: "S st (snd (record_mentor_response (rn_store env) at cid resp cost st))"
    and S_error: "S st (snd (record_mentor_error (rn_store env) at cid err n final st))"
begin

lemma within_return: "within R (t_return x)"
  by (simp add: within_def t_return_def R_refl)

lemma within_bind: "within R m \<Longrightarrow> (\<And>x. within R (f x)) \<Longrightarrow> within R (t_bind m f)"
  unfolding within_def t_bind_def by (auto split: prod.split sum.split) (metis R_trans snd_conv)+

lemma within_then: "within R m \<Longrightarrow> within R n \<Longrightarrow> within R (t_then m n)"
  by (simp add: t_then_def within_bind)

lemma within_each: "(\<And>x. within R (f x)) \<Longrightarrow> within R (t_each f xs)"
  by (induction xs) (simp_all add: within_return within_bind)

lemma within_all: "(\<And>x. within R (f x)) \<Longrightarrow> within R (t_all f xs)"
  by (simp add: t_all_def within_bind within_each within_return)

lemma within_asks: "within R (asks f)"
  by (simp add: within_def asks_def R_flags)

lemma within_gets: "within R (gets f)"
  by (simp add: within_def gets_def R_refl)

lemma within_store: "(\<And>st. S st (snd (m st))) \<Longrightarrow> within R (on_store m)"
  unfolding within_def on_store_def by (auto split: prod.split) (metis R_store snd_conv)

lemma within_emits: "list_all quiet_event es \<Longrightarrow> within R (emits es)"
  by (simp add: within_def emits_def R_events)

lemma within_warned: "within R (\<lambda>s. (Inr (), s\<lparr>ru_warned := True\<rparr>))"
  "within R (\<lambda>s. (Inr (), s\<lparr>ru_continued := True\<rparr>))"
  by (simp_all add: within_def R_flags)

lemmas within_steps = within_return within_asks within_gets within_warned

lemma within_append: "within R (on_store (append_event (rn_store env) ev))"
  by (rule within_store) (rule S_append)

lemma within_call_once: "within R (call_once env req)"
  unfolding call_once_def
  by (rule within_bind [OF within_asks]) (auto intro!: within_then within_emits within_return on_streams_quiet)

lemma within_call_loop: "within R (call_loop env at cid req fuel waited retry_no interrupted)"
proof (induction fuel arbitrary: waited retry_no interrupted)
  case (Suc fuel)
  have quiet: "list_all quiet_event [stream_warning env]" "list_all quiet_event [AgentWaiting a b c d]" for a b c d
    by (simp_all add: quiet_event_def stream_warning_def)
  show ?case
    unfolding call_loop.simps
    by (rule within_bind [OF within_call_once])
      (auto split: sum.split option.split prod.split
        intro!: within_steps within_bind [OF within_append] within_then [OF within_emits] quiet Suc
          within_bind [OF within_asks])
qed (simp add: call_loop.simps within_return)

lemma within_call_mentor: "within R (call_mentor env fuel at cid)"
  unfolding call_mentor_def Let_def
  by (rule within_bind [OF within_gets])
    (auto split: sum.split intro!: within_return within_bind [OF within_store] within_call_loop S_request)

lemma within_outcome: "within R (record_outcome env g at)"
  unfolding within_def
proof
  fix s
  obtain r s1 where a: "on_store (append_event (rn_store env)
      (case at of Some a \<Rightarrow> signal_event_at g a | None \<Rightarrow> signal_event g (rn_session env) (rn_agent env))) s = (r, s1)"
    by fastforce
  then have "R s s1" using within_append unfolding within_def by (metis snd_conv)
  moreover have "R s1 (snd (emits [signal_live_event g (rn_agent env) i] s1))" for i
    using within_emits [of "[signal_live_event g (rn_agent env) i]"]
    by (simp add: within_def quiet_event_def signal_live_event_def)
  ultimately show "R s (snd (record_outcome env g at s))"
    using a by (auto simp: record_outcome_def Let_def intro: R_trans split: sum.split)
qed

lemma within_stop: "within R (stop_run env kind m details)"
  unfolding stop_run_def by (intro within_then within_outcome within_return)

lemma within_tokens: "within R (known_tokens env)"
  unfolding known_tokens_def
  by (rule within_bind [OF within_gets]) (auto split: option.split intro!: within_steps within_bind [OF within_asks])

lemma within_guard: "within R (guard_context env)"
  unfolding guard_context_def Let_def
  by (rule within_bind [OF within_tokens])
    (auto split: option.split intro!: within_steps within_bind [OF within_stop] within_bind [OF within_gets]
      within_then within_emits simp: quiet_event_def)

lemma within_batch: "within R (run_batch_op env at calls)"
  unfolding within_def
proof
  fix s :: run_state
  obtain xs e where b: "run_batch (rn_tools env) at (rw_tools (rn_world env)) (rw_order (rn_world env) (ru_tick s)) calls (ru_exec s) = (xs, e)"
    by fastforce
  have "R (s\<lparr>ru_exec := e\<rparr>) (s\<lparr>ru_exec := e, ru_tick := Suc (ru_tick s)\<rparr>)" by (rule R_flags)
  with b R_batch [OF b] show "R s (snd (run_batch_op env at calls s))"
    by (auto simp: run_batch_op_def intro: R_trans)
qed

lemma within_signals: "within R (t_all (\<lambda>x. case result_signal env calls x of
    Some g \<Rightarrow> record_outcome env g (Some at) | None \<Rightarrow> t_return ()) results)"
  by (rule within_all) (auto split: option.split intro: within_outcome within_return)

end

text \<open>With messages added to the conversation.\<close>

locale run_frame_edit = run_frame +
  assumes R_edit: "R s (s\<lparr>ru_conv := c\<rparr>)"
    and S_message: "S st (snd (append_with_message (rn_store env) ev row st))"
    and S_row: "S st (snd (put_session_message (rn_store env) row st))"
begin

lemma within_edits: "within R (edits f)"
  by (simp add: within_def edits_def R_edit)

lemma S_bind: "(\<And>st. S st (snd (m st))) \<Longrightarrow> (\<And>x st. S st (snd (f x st))) \<Longrightarrow> S st (snd (t_bind m f st))"
  unfolding t_bind_def by (auto split: prod.split sum.split) (metis S_trans snd_conv)+

lemma within_after_response: "within R (after_response env at cid resp)"
  unfolding after_response_def Let_def
  by (intro within_then within_edits within_bind within_gets within_store S_bind S_response S_message within_emits)
    (simp add: quiet_event_def)

lemma within_tool_results: "within R (tool_results env at seq calls)"
  unfolding tool_results_def Let_def
  by (intro within_then within_edits within_bind within_gets within_store within_batch within_asks within_signals
      S_row within_return within_emits live_events_quiet)
    (simp add: quiet_event_def)

lemma within_continue: "within R (continue_step env at)"
  unfolding continue_step_def
  by (rule within_bind [OF within_gets])
    (auto intro!: within_then within_edits within_bind within_gets within_store S_message within_steps)

end

text \<open>With the rows of steps begun and ended.\<close>

locale run_frame_steps = run_frame_edit +
  assumes S_start: "S st (snd (start_step (rn_store env) a st))"
    and S_finish: "S st (snd (finish_step (rn_store env) i status st))"
begin

lemma within_start: "within R (run_start_step env)"
  unfolding run_start_step_def by (intro within_bind within_store S_start within_return)

lemma within_close: "within R (close_step env at)"
  unfolding close_step_def by (rule within_store) (rule S_finish)

lemma within_step_tools: "within R (step_with_tools env seq at calls)"
  unfolding step_with_tools_def run_tools_def
  by (intro within_bind within_then within_tool_results within_store S_finish within_return)

lemma within_after: "within R (after_step env seq at resp)"
  unfolding after_step_def Let_def
  by (auto split: stop_reason.split
      intro!: within_step_tools within_then within_close within_continue within_bind within_stop within_gets within_return)

lemma within_failed: "within R (failed_step env at cid err)"
  unfolding failed_step_def
  by (intro within_bind within_store S_bind S_error S_finish within_return)

lemma within_step_call: "within R (step_call env fuel seq at)"
  unfolding step_call_def
  by (rule within_bind [OF within_asks], rule within_bind [OF within_call_mentor])
    (auto split: option.split sum.split intro: within_return within_failed within_then within_after_response within_after)

end

text \<open>With the steps announced.\<close>

locale run_frame_full = run_frame_steps +
  assumes R_begun: "R s (s\<lparr>ru_exec := xs_emit [AgentStep (rn_agent env) n PhaseMentor] (ru_exec s)\<rparr>)"
begin

lemma within_open: "within R (open_step env fuel seq)"
proof -
  have begun: "within R (emits [AgentStep (rn_agent env) seq PhaseMentor])"
    by (simp add: within_def emits_def R_begun)
  then show ?thesis
    unfolding open_step_def by (intro within_then within_edits within_bind within_start within_step_call)
qed

lemma within_run_step: "within R (run_step env fuel seq)"
  unfolding run_step_def
  by (rule within_bind [OF within_asks])
    (auto split: option.split intro!: within_return within_bind [OF within_guard] within_open)

lemma within_run_steps: "within R (run_steps env fuel n seq)"
proof (induction n arbitrary: seq)
  case 0
  show ?case unfolding run_steps.simps by (intro within_bind within_stop within_return)
next
  case (Suc n)
  show ?case unfolding run_steps.simps
    by (rule within_bind [OF within_run_step]) (auto split: next_step.split intro: within_return Suc)
qed

lemma within_run_loop: "within R (run_loop env fuel)"
  unfolding run_loop_def by (rule within_run_steps)

end

end
