(* ===== verification/Agent_Guarantees.thy ===== *)
theory Agent_Guarantees
  imports Agent_Logic Agent_Demo
begin

text \<open>
  What a run keeps and what it shows: the consistency of the trace, the events of its beginning and
  its steps, and the rules of the API on the history the mentor is sent.
\<close>

section \<open>The trace\<close>

definition run_db :: "run_state \<Rightarrow> trace_db" where
  "run_db s = ts_db (xs_store (ru_exec s))"

lemma keeps_step: "keeps P m \<Longrightarrow> P (ts_db st) \<Longrightarrow> P (ts_db (snd (m st)))"
  by (metis keepsD prod.collapse)

lemma tool_stable_keeps:
  "(\<And>ev. keeps P (append_event env ev)) \<Longrightarrow> (\<And>b mt. keeps P (put_blob env b mt)) \<Longrightarrow> tool_stable env (\<lambda>st. P (ts_db st))"
  by (simp add: tool_stable_def keeps_step)

lemma run_batch_step:
  assumes "run_batch te at world order calls s = (xs, s')"
  shows "\<And>P. tool_stable (te_store te) P \<Longrightarrow> P (xs_store s) \<Longrightarrow> P (xs_store s')"
    and "\<exists>es. xs_log s' = xs_log s @ es \<and> list_all tool_event es"
proof -
  have "tool_stable (te_store te) (\<lambda>_. True)" by (simp add: tool_stable_def)
  from run_batch_results(3) [OF assms this] show "\<exists>es. xs_log s' = xs_log s @ es \<and> list_all tool_event es"
    by (simp add: tool_reach_def)
  fix P assume "tool_stable (te_store te) P" "P (xs_store s)"
  with run_batch_results(3) [OF assms, of P] show "P (xs_store s')" by (simp add: tool_reach_def)
qed

interpretation run_trace: run_frame_full "\<lambda>s s'. wf_db (run_db s) \<longrightarrow> wf_db (run_db s')"
    "\<lambda>st st'. wf_db (ts_db st) \<longrightarrow> wf_db (ts_db st')" env for env
proof (unfold_locales, goal_cases)
  case (8 at world order calls s xs x)
  have "tool_stable (te_store (rn_tools env)) (\<lambda>st. wf_db (ts_db st))"
    by (intro tool_stable_keeps keeps_append_event keeps_put_blob)
  from run_batch_step(1) [OF 8 this] show ?case by (simp add: run_db_def)
qed (auto simp: run_db_def xs_emit_def intro: keeps_append_event keeps_record_mentor keeps_append_with_message
    keeps_put_session_message keeps_start_step keeps_finish_step keeps_step)

section \<open>The events of a run\<close>

text \<open>The steps announced, and the events that only begin or end a run.\<close>

definition begun :: "agent_event list \<Rightarrow> nat list" where
  "begun es = List.map_filter (\<lambda>e. case e of AgentStep _ n PhaseMentor \<Rightarrow> Some n | _ \<Rightarrow> None) es"

definition boundary :: "agent_event \<Rightarrow> bool" where
  "boundary e = (case e of AgentStarted _ _ \<Rightarrow> True | AgentFinished _ _ _ _ \<Rightarrow> True | _ \<Rightarrow> False)"

definition run_begun :: "run_state \<Rightarrow> nat list" where
  "run_begun s = begun (xs_log (ru_exec s))"

lemma begun_append [simp]: "begun (xs @ ys) = begun xs @ begun ys"
  by (simp add: begun_def map_filter_def)

lemma begun_step [simp]: "begun [AgentStep a n PhaseMentor] = [n]"
  by (simp add: begun_def map_filter_def)

lemma begun_quiet: "list_all quiet_event es \<Longrightarrow> begun es = []"
  by (induction es) (auto simp: begun_def map_filter_def quiet_event_def split: agent_event.splits step_phase.splits)

lemma quiet_boundary: "quiet_event e \<Longrightarrow> \<not> boundary e"
  by (auto simp: quiet_event_def boundary_def split: agent_event.splits)

lemma tool_events_quiet: "list_all tool_event es \<Longrightarrow> list_all quiet_event es"
  by (auto simp: list_all_iff intro: tool_event_quiet)

text \<open>Before and after: the same steps announced; the log longer by events that are no boundary.\<close>

interpretation same_begun: run_frame_steps "\<lambda>s s'. run_begun s' = run_begun s" "\<lambda>_ _. True" env for env
proof (unfold_locales, goal_cases)
  case (8 at world order calls s xs x)
  from run_batch_step(2) [OF 8] show ?case by (auto simp: run_begun_def dest!: tool_events_quiet begun_quiet)
qed (simp_all add: run_begun_def xs_emit_def begun_quiet)

definition log_grows :: "run_state \<Rightarrow> run_state \<Rightarrow> bool" where
  "log_grows s s' \<longleftrightarrow> (\<exists>es. xs_log (ru_exec s') = xs_log (ru_exec s) @ es \<and> (\<forall>e\<in>set es. \<not> boundary e))"

lemma log_growsI: "xs_log (ru_exec s') = xs_log (ru_exec s) @ es \<Longrightarrow> (\<forall>e\<in>set es. \<not> boundary e) \<Longrightarrow> log_grows s s'"
  by (auto simp: log_grows_def)

interpretation run_logs: run_frame_full log_grows "\<lambda>_ _. True" env for env
proof (unfold_locales, goal_cases)
  case (2 a b c)
  then show ?case by (force simp: log_grows_def)
next
  case (7 es s)
  then show ?case by (auto simp: log_grows_def xs_emit_def list_all_iff quiet_boundary)
next
  case (8 at world order calls s xs x)
  from run_batch_step(2) [OF 8] show ?case
    by (auto simp: log_grows_def list_all_iff dest: tool_event_quiet quiet_boundary)
next
  case (19 s n)
  then show ?case by (auto simp: log_grows_def xs_emit_def boundary_def)
qed (simp_all add: log_grows_def)

text \<open>One step announces itself at most once, and does when it leads to the next.\<close>

lemma run_step_begun:
  "run_wp (run_step env fuel seq)
     (\<lambda>r s'. run_begun s' = run_begun s @ [seq] \<or> run_begun s' = run_begun s \<and> r \<noteq> StepsOn)
     (\<lambda>s'. run_begun s' = run_begun s \<or> run_begun s' = run_begun s @ [seq]) s"
proof -
  note frame = within_wp [where R = "\<lambda>s s'. run_begun s' = run_begun s"]
  have call: "run_wp (step_call env fuel seq at) (\<lambda>r s'. run_begun s' = run_begun t) (\<lambda>s'. run_begun s' = run_begun t) t"
    for at t by (rule frame [OF same_begun.within_step_call]) simp_all
  have opened: "run_wp (open_step env fuel seq) (\<lambda>r s'. run_begun s' = run_begun t @ [seq])
      (\<lambda>s'. run_begun s' = run_begun t \<or> run_begun s' = run_begun t @ [seq]) t" for t
    unfolding open_step_def run_wp
    by (rule frame [OF same_begun.within_start], rule run_wp_mono [OF call]) (auto simp: run_begun_def xs_emit_def)
  show ?thesis
    unfolding run_step_def
    by (auto simp: run_wp run_begun_def split: option.split
        intro!: frame [OF same_begun.within_guard] run_wp_mono [OF opened])
qed

lemma run_steps_begun:
  "\<exists>k\<le>n. run_begun (snd (run_steps env fuel n seq s)) = run_begun s @ [seq..<seq + k]"
proof (induction n arbitrary: seq s)
  case 0
  have "within (\<lambda>s s'. run_begun s' = run_begun s) (run_steps env fuel 0 seq)"
    unfolding run_steps.simps
    by (intro same_begun.within_bind same_begun.within_stop same_begun.within_return)
  then show ?case by (simp add: within_def)
next
  case (Suc n)
  obtain r s1 where r: "run_step env fuel seq s = (r, s1)" by fastforce
  note b = run_wpD [OF run_step_begun r]
  show ?case
  proof (cases "r = Inr StepsOn")
    case True
    with b have b1: "run_begun s1 = run_begun s @ [seq]" by simp
    from Suc [of "Suc seq" s1] obtain k where k: "k \<le> n"
      "run_begun (snd (run_steps env fuel n (Suc seq) s1)) = run_begun s1 @ [Suc seq..<Suc seq + k]" by blast
    have "[seq..<seq + Suc k] = seq # [Suc seq..<Suc seq + k]" by (simp add: upt_rec [of seq])
    with k b1 r True show ?thesis
      by (intro exI [of _ "Suc k"]) (simp add: run_steps.simps t_bind_def)
  next
    case False
    then have "snd (run_steps env fuel (Suc n) seq s) = s1"
      using r by (auto simp: run_steps.simps t_bind_def t_return_def split: sum.split next_step.split)
    moreover have "run_begun s1 = run_begun s \<or> run_begun s1 = run_begun s @ [seq]"
      using b by (auto split: sum.splits)
    moreover have "run_begun s = run_begun s @ [seq..<seq + 0]" "run_begun s @ [seq] = run_begun s @ [seq..<seq + 1]"
      by simp_all
    ultimately show ?thesis by (metis le0 le_add1 plus_1_eq_Suc)
  qed
qed

text \<open>
  C20: What the clients see of the loop: whatever the mentor, the tools, the hooks and the trace do,
  \<open>run_loop\<close> announces its steps in order, 1, 2, 3 and so on, each once and at most
  \<open>max(1, max_iterations)\<close> of them, only adds to the events sent, and sends neither the event that
  begins a run nor the one that ends it.
\<close>

theorem run_loop_announces_steps:
  "\<exists>es k. xs_log (ru_exec (snd (run_loop env fuel s))) = xs_log (ru_exec s) @ es \<and>
     begun es = [1..<Suc k] \<and> k \<le> max 1 (lc_max_iterations (rn_config env)) \<and>
     \<not> (\<exists>e\<in>set es. boundary e)"
proof -
  from run_logs.within_run_loop [of env fuel] have "log_grows s (snd (run_loop env fuel s))"
    by (simp add: within_def)
  then obtain es where es: "xs_log (ru_exec (snd (run_loop env fuel s))) = xs_log (ru_exec s) @ es"
    "\<not> (\<exists>e\<in>set es. boundary e)" unfolding log_grows_def by blast
  obtain k where k: "k \<le> max_steps env"
    "run_begun (snd (run_loop env fuel s)) = run_begun s @ [1..<1 + k]"
    unfolding run_loop_def using run_steps_begun [of "max_steps env" env fuel 1 s] by blast
  from k(2) es(1) have "begun es = [1..<Suc k]" by (simp add: run_begun_def)
  with es k(1) show ?thesis unfolding max_steps_def by blast
qed

text \<open>
  C19: A run keeps the trace consistent: from tables with unique keys, foreign keys that lead to rows
  and events and steps numbered without gaps, \<open>run_loop\<close> leaves such tables, whatever the mentor
  answers, the tools do, the hooks change and the disk or the database refuses.
\<close>

theorem run_loop_keeps_trace:
  assumes "wf_db (ts_db (xs_store (ru_exec s)))"
  shows "wf_db (ts_db (xs_store (ru_exec (snd (run_loop env fuel s)))))"
  using run_trace.within_run_loop [of env fuel] assms by (simp add: within_def run_db_def)

lemma run_loop_keeps_trace_witness:
  "wf_db (ts_db (xs_store (ru_exec (snd (run_loop demo_run 70 demo_run_state)))))"
proof (rule run_loop_keeps_trace)
  have "keeps wf_db (create_session plain_env n)" for n by (rule keeps_create_session)
  then show "wf_db (ts_db (xs_store (ru_exec demo_run_state)))"
    by (simp add: demo_run_state_def plain_store_def keeps_step store_new_def wf_empty)
qed

end
