(* ===== verification/Agent_History.thy ===== *)
theory Agent_History
  imports Agent_Guarantees
begin

text \<open>
  The history of a run keeps the rules of the API: between steps it is valid and ends in a user
  turn, so that every request built from it is one the API takes; and however the loop ends, what
  \<open>repair\<close> makes of it is valid. This is for the loop with \<open>NoopHooks\<close> and answers that are those of an
  assistant: a \<open>pause_turn\<close> leaves its turn open, and the next answer follows it directly.
\<close>

section \<open>The request of a valid history\<close>

lemma uncached_ids [simp]: "use_ids (map uncached bs) = use_ids bs" "result_ids (map uncached bs) = result_ids bs"
  by (induction bs) (auto simp: use_ids_def result_ids_def map_filter_def uncached_def block_text_def split: content_block.splits)

lemma ids_Cons:
  "use_ids (b # bs) = use_ids [b] @ use_ids bs" "result_ids (b # bs) = result_ids [b] @ result_ids bs"
  by (simp_all add: use_ids_def result_ids_def map_filter_def)

lemma cached_ids [simp]: "use_ids [block_cached b] = use_ids [b]" "result_ids [block_cached b] = result_ids [b]"
  by (auto simp: use_ids_def result_ids_def map_filter_def block_cached_def split: content_block.splits)

text \<open>Messages that say the same to the check.\<close>

definition same_shape :: "chat_message \<Rightarrow> chat_message \<Rightarrow> bool" where
  "same_shape m m' \<longleftrightarrow> cm_role m' = cm_role m \<and> use_ids (cm_content m') = use_ids (cm_content m) \<and>
     result_ids (cm_content m') = result_ids (cm_content m)"

lemma check_message_shape: "same_shape m m' \<Longrightarrow> check_message i r open m' = check_message i r open m"
  by (simp only: same_shape_def check_message_def)

lemma check_messages_shape:
  "list_all2 same_shape ms ms' \<Longrightarrow> check_messages i r open ms' = check_messages i r open ms"
proof (induction arbitrary: i r "open" rule: list_all2_induct)
  case (Cons m ms m' ms')
  from Cons.IH check_message_shape [OF Cons.hyps(1)] show ?case by (simp split: sum.split)
qed simp

lemma mark_last_shape: "list_all2 same_shape ms (mark_last ms)"
proof (cases "ms \<noteq> [] \<and> cm_role (last ms) = RoleUser \<and> cm_content (last ms) \<noteq> []")
  case True
  have refl: "list_all2 same_shape xs xs" for xs by (simp add: list_all2_same same_shape_def)
  let ?bs = "cm_content (last ms)"
  have "use_ids (butlast ?bs @ [block_cached (last ?bs)]) = use_ids (butlast ?bs @ [last ?bs])"
    "result_ids (butlast ?bs @ [block_cached (last ?bs)]) = result_ids (butlast ?bs @ [last ?bs])" by simp_all
  with True have "same_shape (last ms) ((last ms)\<lparr>cm_content := butlast ?bs @ [block_cached (last ?bs)]\<rparr>)"
    by (simp add: same_shape_def)
  then have "list_all2 same_shape (butlast ms @ [last ms])
      (butlast ms @ [(last ms)\<lparr>cm_content := butlast ?bs @ [block_cached (last ?bs)]\<rparr>])"
    using refl by (simp add: list_all2_append)
  with True show ?thesis by (simp add: mark_last_def)
qed (auto simp: mark_last_def list_all2_same same_shape_def)

lemma request_shape:
  "check_messages i r open (mq_messages (conv_request c)) = check_messages i r open (cv_messages c)"
proof -
  have "list_all2 same_shape (cv_messages c) (map (\<lambda>m. m\<lparr>cm_content := map uncached (cm_content m)\<rparr>) (cv_messages c))"
    by (simp add: list_all2_conv_all_nth same_shape_def)
  with check_messages_shape [OF mark_last_shape] show ?thesis
    by (simp add: conv_request_def check_messages_shape)
qed

section \<open>Between the steps, and at the end\<close>

definition ready :: "conversation \<Rightarrow> bool" where
  "ready c \<longleftrightarrow> history (cv_messages c) (Some RoleUser) []"

definition sound :: "conversation \<Rightarrow> bool" where
  "sound c \<longleftrightarrow> (\<exists>r open. history (cv_messages c) r open \<and> (open = [] \<or> r = Some RoleAssistant))"

definition answered :: "content_block list \<Rightarrow> conversation \<Rightarrow> bool" where
  "answered bs c \<longleftrightarrow> history (cv_messages c) (Some RoleAssistant) (use_ids bs)"

definition polite_answer :: "mentor_response \<Rightarrow> bool" where
  "polite_answer resp \<longleftrightarrow> result_ids (mr_content resp) = [] \<and> mr_stop_reason resp \<noteq> PauseTurn"

definition polite_run :: "run_env \<Rightarrow> bool" where
  "polite_run env \<longleftrightarrow> rn_hooks env = noop_hooks \<and>
     (\<forall>t req evs resp. rw_complete (rn_world env) t req = (evs, Inr resp) \<longrightarrow> polite_answer resp)"

lemma ready_sound: "ready c \<Longrightarrow> sound c"
  by (auto simp: ready_def sound_def)

lemma answered_sound: "answered bs c \<Longrightarrow> sound c"
  by (auto simp: answered_def sound_def)

lemma ready_valid: "ready c \<Longrightarrow> conv_validate c = None"
  by (auto simp: ready_def intro: history_valid)

lemma sound_repaired:
  assumes "sound c"
  shows "conv_validate (snd (conv_repair c)) = None"
proof -
  from assms obtain r "open" where h: "history (cv_messages c) r open" "open = [] \<or> r = Some RoleAssistant"
    unfolding sound_def by blast
  show ?thesis
  proof (cases "open = []")
    case True
    have "pending_tool_uses c = []"
    proof (cases "r = Some RoleAssistant")
      case True
      with h \<open>open = []\<close> pending_none [of "cv_messages c" "[]" c] show ?thesis by simp
    next
      case False
      with h(1) show ?thesis by (auto simp: pending_tool_uses_def history_def)
    qed
    with h True show ?thesis by (simp add: conv_repair_def history_valid)
  next
    case False
    with h have a: "history (cv_messages c) (Some RoleAssistant) open" by simp
    with False have p: "pending_tool_uses c \<noteq> []" using pending_none by blast
    from a have ne: "cv_messages c \<noteq> []" by (auto simp: history_def)
    with a have "history (butlast (cv_messages c) @ [last (cv_messages c)]) (Some RoleAssistant) open" by simp
    then obtain r0 o0 where "check_messages 0 None [] (butlast (cv_messages c)) = Inr (r0, o0)"
      "check_message (length (butlast (cv_messages c))) r0 o0 (last (cv_messages c)) = Inr (Some RoleAssistant, open)"
      "Some RoleAssistant = Some (cm_role (last (cv_messages c)))" by (rule history_snocE)
    then have "check_messages 0 None [] (butlast (cv_messages c)) = Inr (r0, [])"
      by (auto simp: check_message_def Let_def split: if_splits option.splits)
    with p show ?thesis by (simp add: conv_repair_def conv_validate_def)
  qed
qed

section \<open>The parts of a step\<close>

interpretation same_conv: run_frame "\<lambda>s s'. ru_conv s' = ru_conv s" "\<lambda>_ _. True" env for env
  by unfold_locales simp_all

lemma conv_frame:
  "within (\<lambda>s s'. ru_conv s' = ru_conv s) m \<Longrightarrow> (\<And>x s'. ru_conv s' = ru_conv s \<Longrightarrow> Q x s') \<Longrightarrow>
   (\<And>s'. ru_conv s' = ru_conv s \<Longrightarrow> E s') \<Longrightarrow> run_wp m Q E s"
  by (rule within_wp [where R = "\<lambda>s s'. ru_conv s' = ru_conv s"])

lemma conv_store: "within (\<lambda>s s'. ru_conv s' = ru_conv s) (on_store m)"
  by (rule same_conv.within_store) simp

lemma conv_emits: "within (\<lambda>s s'. ru_conv s' = ru_conv s) (emits es)"
  by (simp add: within_def emits_def)

lemma conv_start: "within (\<lambda>s s'. ru_conv s' = ru_conv s) (run_start_step env)"
  unfolding run_start_step_def by (intro same_conv.within_bind conv_store same_conv.within_return)

lemma conv_failed: "within (\<lambda>s s'. ru_conv s' = ru_conv s) (failed_step env at cid err)"
  unfolding failed_step_def by (intro same_conv.within_bind conv_store same_conv.within_return)

text \<open>What the mentor's last answer in a call is.\<close>

lemma call_loop_answer:
  assumes "\<And>t evs resp. rw_complete (rn_world env) t req = (evs, Inr resp) \<Longrightarrow> P resp"
  shows "run_wp (call_loop env at cid req fuel waited retry_no interrupted)
     (\<lambda>r s'. \<forall>resp. r = Some (Inr resp) \<longrightarrow> P resp) (\<lambda>_. True) s"
proof (induction fuel arbitrary: waited retry_no interrupted s)
  case (Suc fuel waited retry_no interrupted s)
  obtain r s1 evs where c: "call_once env req s = (Inr r, s1)"
    "rw_complete (rn_world env) (ru_tick s) req = (evs, r)"
    by (cases "rw_complete (rn_world env) (ru_tick s) req")
      (auto simp: call_once_def t_bind_def t_then_def asks_def emits_def t_return_def)
  have once: "run_wp (call_once env req) Q E s = Q r s1" for Q E by (simp add: run_wp_def c)
  have skip: "(\<And>x t. Q x t) \<Longrightarrow> run_wp (on_store m) Q (\<lambda>_. True) t" for m :: "string trace_op" and Q t
    by (simp add: run_wp_def split: prod.split sum.split)
  show ?case
  proof (cases r)
    case (Inr resp)
    with c(2) assms show ?thesis unfolding call_loop.simps run_wp_bind once by (simp add: run_wp)
  next
    case (Inl err)
    then show ?thesis
      unfolding call_loop.simps run_wp_bind once
      by (cases "wait_after err interrupted") (auto simp: run_wp Suc split: option.split intro!: skip)
  qed
qed (simp add: call_loop.simps run_wp)

lemma call_mentor_answer:
  assumes "polite_run env"
  shows "run_wp (call_mentor env fuel at cid)
     (\<lambda>r s'. ru_conv s' = ru_conv s \<and> (\<forall>resp. r = Some (Inr resp) \<longrightarrow> polite_answer resp))
     (\<lambda>s'. ru_conv s' = ru_conv s) s"
proof -
  have loop: "run_wp (call_loop env at cid req fuel 0 0 False)
     (\<lambda>r s'. \<forall>resp. r = Some (Inr resp) \<longrightarrow> polite_answer resp) (\<lambda>_. True) t" for req t
    by (rule call_loop_answer) (use assms in \<open>auto simp: polite_run_def\<close>)
  have skip: "(\<And>x t. Q x t) \<Longrightarrow> run_wp (on_store m) Q (\<lambda>_. True) t" for m :: "string trace_op" and Q t
    by (simp add: run_wp_def split: prod.split sum.split)
  have "run_wp (call_mentor env fuel at cid) (\<lambda>r s'. \<forall>resp. r = Some (Inr resp) \<longrightarrow> polite_answer resp) (\<lambda>_. True) s"
    unfolding call_mentor_def Let_def by (auto simp: run_wp split: sum.split intro!: skip loop)
  moreover have "run_wp (call_mentor env fuel at cid) (\<lambda>r s'. ru_conv s' = ru_conv s) (\<lambda>s'. ru_conv s' = ru_conv s) s"
    by (rule conv_frame [OF same_conv.within_call_mentor])
  ultimately show ?thesis by (simp add: run_wp_def split: prod.splits sum.splits)
qed

lemma after_response_answered:
  assumes "ready (ru_conv s)" "polite_answer resp"
  shows "run_wp (after_response env at cid resp) (\<lambda>_ s'. answered (mr_content resp) (ru_conv s'))
     (\<lambda>s'. answered (mr_content resp) (ru_conv s')) s"
proof -
  have pushed: "answered (mr_content resp) (push_assistant (mr_content resp) (ru_conv s))"
    using history_push_assistant [of "cv_messages (ru_conv s)" "Some RoleUser" "mr_content resp"] assms
    by (simp add: ready_def answered_def polite_answer_def push_assistant_def)
  have usage: "answered bs (record_usage u cost c) = answered bs c" for bs u cost c
    by (simp add: answered_def record_usage_def Let_def split: option.split bool.split)
  show ?thesis
    unfolding after_response_def Let_def
    by (simp add: run_wp, rule conv_frame [OF conv_store]) (simp_all add: run_wp pushed usage)
qed

lemma batch_ids:
  assumes "run_batch te at world order calls s = (xs, s')"
  shows "result_ids (map (block_of_result \<circ> ex_block) xs) = map tl_id calls"
    "use_ids (map (block_of_result \<circ> ex_block) xs) = []"
proof -
  have "result_ids (map (block_of_result \<circ> ex_block) xs) = map (tb_tool_use_id \<circ> ex_block) xs" for xs :: "executed list"
    by (induction xs) (auto simp: result_ids_def map_filter_def block_of_result_def)
  then show "result_ids (map (block_of_result \<circ> ex_block) xs) = map tl_id calls"
    by (simp only: run_batch_results(2) [OF assms])
  show "use_ids (map (block_of_result \<circ> ex_block) xs) = []"
    by (induction xs) (auto simp: use_ids_def map_filter_def block_of_result_def)
qed

lemma run_batch_wp:
  assumes "\<And>xs s'. result_ids (map (block_of_result \<circ> ex_block) xs) = map tl_id calls \<Longrightarrow>
      use_ids (map (block_of_result \<circ> ex_block) xs) = [] \<Longrightarrow> ru_conv s' = ru_conv s \<Longrightarrow> Q xs s'"
  shows "run_wp (run_batch_op env at calls) Q E s"
  using assms batch_ids by (fastforce simp: run_wp_def run_batch_op_def split: prod.split)

text \<open>The results of a step answer its calls.\<close>

lemma tool_results_ready:
  assumes "answered bs (ru_conv s)" "rn_hooks env = noop_hooks"
  shows "run_wp (tool_results env at seq (calls_of bs)) (\<lambda>_ s'. ready (ru_conv s'))
     (\<lambda>s'. sound (ru_conv s')) s"
proof -
  have pushed: "ready (push_tool_results rs c)" if "answered bs c" "result_ids rs = map tl_id (calls_of bs)" "use_ids rs = []" for rs c
    using that history_push_results [of "cv_messages c" "use_ids bs" rs]
    by (simp add: ready_def answered_def push_tool_results_def calls_of_ids)
  have wrote: "run_wp (t_then (on_store m) (t_return k)) (\<lambda>_ s'. ready (ru_conv s')) (\<lambda>s'. sound (ru_conv s')) t"
    if "ready (ru_conv t)" for m :: "unit trace_op" and k :: bool and t
    unfolding run_wp using that by (intro conv_frame [OF conv_store]) (auto simp: run_wp intro: ready_sound)
  have hooks: "hk_before_tools (rn_hooks env) seq calls = calls" "hk_on_results (rn_hooks env) seq xs = xs" for calls xs
    by (simp_all add: assms(2) noop_hooks_def)
  show ?thesis
    unfolding tool_results_def Let_def hooks run_wp
    by (rule run_batch_wp, rule conv_frame [OF same_conv.within_signals])
      (use assms(1) in \<open>auto intro!: wrote [unfolded run_wp] pushed intro: answered_sound\<close>)
qed

text \<open>A step with an answer leads to the next only from a history that is ready for it.\<close>

definition next_ready :: "next_step \<Rightarrow> run_state \<Rightarrow> bool" where
  "next_ready r s \<longleftrightarrow> (if r = StepsOn then ready (ru_conv s) else sound (ru_conv s))"

lemma step_tools_ready:
  assumes "answered bs (ru_conv s)" "rn_hooks env = noop_hooks"
  shows "run_wp (step_with_tools env seq at (calls_of bs)) next_ready (\<lambda>s'. sound (ru_conv s')) s"
  unfolding step_with_tools_def run_tools_def run_wp
  by (rule run_wp_mono [OF tool_results_ready [OF assms]], rule conv_frame [OF conv_store])
    (auto simp: run_wp next_ready_def intro: ready_sound)

lemma continue_ready:
  assumes "answered bs (ru_conv s)" "use_ids bs = []"
  shows "run_wp (continue_step env at) next_ready (\<lambda>s'. sound (ru_conv s')) s"
proof -
  have pushed: "ready (push_user_text t (ru_conv s))" for t
    using assms history_push_text [of "cv_messages (ru_conv s)" "Some RoleAssistant" t]
    by (simp add: answered_def ready_def push_user_text_def)
  have flag: "run_wp (\<lambda>s. (Inr (), s\<lparr>ru_continued := True\<rparr>)) Q E t = Q () (t\<lparr>ru_continued := True\<rparr>)" for Q E t
    by (simp add: run_wp_def)
  show ?thesis
    unfolding continue_step_def
    using answered_sound [OF assms(1)] ready_sound [OF pushed]
    by (auto simp: run_wp flag next_ready_def pushed intro!: conv_frame [OF conv_store])
qed

lemma stop_sound:
  assumes "sound (ru_conv s)"
  shows "run_wp (t_bind (stop_run env kind m details) (\<lambda>f. t_return (StopsWith f))) next_ready
     (\<lambda>s'. sound (ru_conv s')) s"
  unfolding run_wp using assms
  by (intro conv_frame [OF same_conv.within_stop]) (simp_all add: run_wp next_ready_def)

lemma close_conv: "within (\<lambda>s s'. ru_conv s' = ru_conv s) (close_step env at)"
  unfolding close_step_def by (rule conv_store)

lemma after_step_ready:
  assumes "answered (mr_content resp) (ru_conv s)" "rn_hooks env = noop_hooks" "polite_answer resp"
  shows "run_wp (after_step env seq at resp) next_ready (\<lambda>s'. sound (ru_conv s')) s"
proof -
  have snd: "sound (ru_conv s)" using assms(1) by (rule answered_sound)
  have closes: "run_wp (t_then (close_step env at) m) next_ready (\<lambda>s'. sound (ru_conv s')) s"
    if "\<And>t. ru_conv t = ru_conv s \<Longrightarrow> run_wp m next_ready (\<lambda>s'. sound (ru_conv s')) t" for m
    unfolding run_wp using that snd by (intro conv_frame [OF close_conv]) simp_all
  have done_ok: "run_wp (t_return (StopsWith f)) next_ready (\<lambda>s'. sound (ru_conv s')) t" if "ru_conv t = ru_conv s" for f t
    using that snd by (simp add: run_wp next_ready_def)
  have cont: "run_wp (continue_step env at) next_ready (\<lambda>s'. sound (ru_conv s')) t"
    if "ru_conv t = ru_conv s" "response_calls resp = []" for t
    using that assms(1) calls_of_ids [of "mr_content resp"]
    by (intro continue_ready [of "mr_content resp"]) (simp_all add: response_calls_def)
  have stops: "run_wp (t_bind (stop_run env kind m details) (\<lambda>f. t_return (StopsWith f))) next_ready (\<lambda>s'. sound (ru_conv s')) t"
    if "ru_conv t = ru_conv s" for kind m details t using that snd by (intro stop_sound) simp
  note tools = step_tools_ready [OF assms(1,2), folded response_calls_def]
  show ?thesis
    using assms(3) unfolding after_step_def Let_def polite_answer_def
    by (cases "mr_stop_reason resp")
      (auto intro!: tools closes done_ok cont stops simp: run_wp_basic(3) run_wp_bind [of "gets _"])
qed

lemma step_call_ready:
  assumes "ready (ru_conv s)" "polite_run env"
  shows "run_wp (step_call env fuel seq at) next_ready (\<lambda>s'. sound (ru_conv s')) s"
proof -
  have snd: "sound (ru_conv s)" using assms(1) by (rule ready_sound)
  have hooks: "rn_hooks env = noop_hooks" using assms(2) by (simp add: polite_run_def)
  have failed: "run_wp (failed_step env at cid err) next_ready (\<lambda>s'. sound (ru_conv s')) t"
    if "ru_conv t = ru_conv s" for cid err t
  proof (rule run_wp_mono)
    show "run_wp (failed_step env at cid err) (\<lambda>r s'. r \<noteq> StepsOn \<and> ru_conv s' = ru_conv t) (\<lambda>s'. ru_conv s' = ru_conv t) t"
      unfolding failed_step_def run_wp by (rule conv_frame [OF conv_store]) simp_all
  qed (use that snd in \<open>simp_all add: next_ready_def\<close>)
  have answer: "run_wp (t_then (after_response env at cid resp) (after_step env seq at resp)) next_ready (\<lambda>s'. sound (ru_conv s')) t"
    if "ru_conv t = ru_conv s" "polite_answer resp" for cid resp t
    unfolding run_wp
    by (rule run_wp_mono [OF after_response_answered [OF _ that(2)]])
      (use that assms(1) hooks in \<open>auto intro: after_step_ready answered_sound\<close>)
  show ?thesis
    unfolding step_call_def
    by (simp add: run_wp, rule run_wp_mono [OF call_mentor_answer [OF assms(2)]])
      (auto simp: run_wp next_ready_def snd split: option.split sum.split intro: failed answer [unfolded run_wp_then])
qed

lemma run_step_ready:
  assumes "ready (ru_conv s)" "polite_run env"
  shows "run_wp (run_step env fuel seq) next_ready (\<lambda>s'. sound (ru_conv s')) s"
proof -
  have snd: "sound (ru_conv s)" using assms(1) by (rule ready_sound)
  have hooks: "hk_before_call (rn_hooks env) seq c = c" for c
    using assms(2) by (simp add: polite_run_def noop_hooks_def)
  have opened: "run_wp (open_step env fuel seq) next_ready (\<lambda>s'. sound (ru_conv s')) t" if "ru_conv t = ru_conv s" for t
    unfolding open_step_def hooks
    by (simp add: run_wp, rule conv_frame [OF conv_start])
      (use that assms in \<open>auto simp: run_wp snd intro: step_call_ready\<close>)
  show ?thesis
    unfolding run_step_def
    by (auto simp: run_wp next_ready_def snd split: option.split
        intro!: conv_frame [OF same_conv.within_guard] opened)
qed

section \<open>The states of the loop\<close>

text \<open>The states in which the loop of a run is about to do the step after the first \<open>n\<close>.\<close>

inductive loop_reaches :: "run_env \<Rightarrow> nat \<Rightarrow> run_state \<Rightarrow> nat \<Rightarrow> run_state \<Rightarrow> bool" for env fuel s0 where
  loop_start: "loop_reaches env fuel s0 0 s0"
| loop_next: "loop_reaches env fuel s0 n s \<Longrightarrow> run_step env fuel (Suc n) s = (Inr StepsOn, s') \<Longrightarrow>
    loop_reaches env fuel s0 (Suc n) s'"

inductive_cases loop_reaches_SucE: "loop_reaches env fuel s0 (Suc n) s'"

lemma loop_reaches_ready:
  "loop_reaches env fuel s0 n s \<Longrightarrow> polite_run env \<Longrightarrow> ready (ru_conv s0) \<Longrightarrow> ready (ru_conv s)"
proof (induction rule: loop_reaches.induct)
  case (loop_next n s s')
  then show ?case using run_wpD [OF run_step_ready [of s env fuel "Suc n"]] by (auto simp: next_ready_def)
qed

lemma run_steps_sound:
  "ready (ru_conv s) \<Longrightarrow> polite_run env \<Longrightarrow> sound (ru_conv (snd (run_steps env fuel n seq s)))"
proof (induction n arbitrary: seq s)
  case 0
  have "within (\<lambda>s s'. ru_conv s' = ru_conv s) (run_steps env fuel 0 seq)"
    unfolding run_steps.simps by (intro same_conv.within_bind same_conv.within_stop same_conv.within_return)
  with 0 show ?case by (simp add: within_def ready_sound)
next
  case (Suc n)
  obtain r s1 where r: "run_step env fuel seq s = (r, s1)" by fastforce
  note after = run_wpD [OF run_step_ready [OF Suc.prems] r]
  show ?case
  proof (cases "r = Inr StepsOn")
    case True
    with after Suc.IH [of s1 "Suc seq"] Suc.prems r show ?thesis
      by (simp add: next_ready_def run_steps.simps t_bind_def)
  next
    case False
    then have "snd (run_steps env fuel (Suc n) seq s) = s1"
      using r by (auto simp: run_steps.simps t_bind_def t_return_def split: sum.split next_step.split)
    with after False show ?thesis by (auto simp: next_ready_def split: sum.splits)
  qed
qed

text \<open>
  C1: The mentor is never sent a history the API refuses: in a run on a valid history that ends in a
  user turn, with answers that pause no turn and carry no tool results, every request built at the
  start of a step passes the API's rules (turns alternate, every tool use is answered by the next
  message and nothing else is) and ends in a user turn; and however the loop ends, in the middle of
  a step or by a failure of the trace, the history after \<open>repair\<close> is valid again.
\<close>

theorem run_history_valid:
  assumes "polite_run env" and "history (cv_messages (ru_conv s)) (Some RoleUser) []"
  shows "(\<forall>n s'. loop_reaches env fuel s n s' \<longrightarrow>
            check_messages 0 None [] (mq_messages (conv_request (ru_conv s'))) = Inr (Some RoleUser, [])) \<and>
    conv_validate (snd (conv_repair (ru_conv (snd (run_loop env fuel s))))) = None"
proof (intro conjI allI impI)
  have ready: "ready (ru_conv s)" using assms(2) by (simp add: ready_def)
  fix n s' assume "loop_reaches env fuel s n s'"
  from loop_reaches_ready [OF this assms(1) ready]
  show "check_messages 0 None [] (mq_messages (conv_request (ru_conv s'))) = Inr (Some RoleUser, [])"
    by (simp add: request_shape ready_def history_def)
next
  show "conv_validate (snd (conv_repair (ru_conv (snd (run_loop env fuel s))))) = None"
    unfolding run_loop_def using assms by (intro sound_repaired run_steps_sound) (simp_all add: ready_def)
qed

lemma run_history_valid_witness:
  "check_messages 0 None [] (mq_messages (conv_request (ru_conv demo_run_state))) = Inr (Some RoleUser, []) \<and>
   conv_validate (snd (conv_repair (ru_conv (snd (run_loop demo_run 70 demo_run_state))))) = None"
proof -
  have polite: "polite_run demo_run"
    by (auto simp: polite_run_def polite_answer_def demo_parts demo_answer_def)
  have hist: "history (cv_messages (ru_conv demo_run_state)) (Some RoleUser) []"
    by (simp add: demo_run_state_def push_user_text_def push_text_def conv_new_def history_def check_message_def)
  from run_history_valid [OF polite hist, of 70] loop_start show ?thesis by blast
qed

end
