(* ===== verification/Trace_Queries.thy ===== *)
theory Trace_Queries
  imports Trace_Guarantees
begin

text \<open>
  The queries of the trace store: events, mentor calls and their sums, sessions and agents with
  their signals (\<open>trace/store.rs\<close>, \<open>sessions.rs\<close>, \<open>outcomes.rs\<close>), the check of the store's integrity
  and its size, and \<open>reprice\<close>, which recomputes the stored costs. A \<open>WHERE\<close> clause is a predicate on
  rows; what SQLite itself computes beyond that (full-text matching, dates, the row it reads the
  bare columns of a group from) is a parameter.
\<close>

section \<open>Events\<close>

record event_query =
  eq_session :: "string option"
  eq_agent :: "string option"
  eq_step :: "string option"
  eq_kinds :: "string list"
  eq_before :: "nat option"
  eq_after :: "nat option"
  eq_limit :: "nat option"

definition event_query_all :: event_query where
  "event_query_all = \<lparr>eq_session = None, eq_agent = None, eq_step = None, eq_kinds = [], eq_before = None,
     eq_after = None, eq_limit = None\<rparr>"

record event_summary =
  vs_id :: string
  vs_session :: string
  vs_agent :: "string option"
  vs_step :: "string option"
  vs_seq :: nat
  vs_ts :: string
  vs_kind :: string
  vs_blob_bytes :: "nat option"

definition given :: "'a option \<Rightarrow> ('a \<Rightarrow> bool) \<Rightarrow> bool" where
  "given x p \<longleftrightarrow> (case x of None \<Rightarrow> True | Some v \<Rightarrow> p v)"

definition event_where :: "event_query \<Rightarrow> event_row \<Rightarrow> bool" where
  "event_where q r \<longleftrightarrow>
     given (eq_session q) (\<lambda>s. er_session r = s) \<and> given (eq_agent q) (\<lambda>a. er_agent r = Some a) \<and>
     given (eq_step q) (\<lambda>s. er_step r = Some s) \<and> given (eq_before q) (\<lambda>n. er_seq r < to_i64 n) \<and>
     given (eq_after q) (\<lambda>n. to_i64 n < er_seq r) \<and> (eq_kinds q = [] \<or> er_kind r \<in> set (eq_kinds q))"

definition event_before :: "event_row \<Rightarrow> event_row \<Rightarrow> bool" where
  "event_before a b \<longleftrightarrow>
     str_less (er_session a) (er_session b) \<or> er_session a = er_session b \<and> er_seq a < er_seq b"

text \<open>The size of the blob an event names, when it has a row.\<close>

definition blob_bytes_of :: "trace_db \<Rightarrow> event_row \<Rightarrow> nat option" where
  "blob_bytes_of db r = Option.bind (er_blob r) (\<lambda>i. map_option br_size (find (\<lambda>b. br_id b = i) (db_blobs db)))"

definition event_summary_of :: "trace_db \<Rightarrow> event_row \<Rightarrow> event_summary" where
  "event_summary_of db r =
     \<lparr>vs_id = er_id r, vs_session = er_session r, vs_agent = er_agent r, vs_step = er_step r, vs_seq = er_seq r,
      vs_ts = er_ts r, vs_kind = er_kind r, vs_blob_bytes = blob_bytes_of db r\<rparr>"

text \<open>With \<open>before_seq\<close> the newest rows below it, still in ascending order.\<close>

definition events_page :: "event_query \<Rightarrow> trace_db \<Rightarrow> event_row list" where
  "events_page q db =
     (let rows = filter (event_where q) (db_events db); n = clamp_page (eq_limit q) in
      if eq_before q \<noteq> None then rev (take n (order_by (\<lambda>a b. event_before b a) rows))
      else take n (order_by event_before rows))"

definition list_events :: "store_env \<Rightarrow> event_query \<Rightarrow> event_summary list trace_op" where
  "list_events env q = t_query env (\<lambda>db. map (event_summary_of db) (events_page q db))"

definition get_event :: "store_env \<Rightarrow> string \<Rightarrow> event_row trace_op" where
  "get_event env i = t_bind (t_query env (\<lambda>db. find (\<lambda>r. er_id r = i) (db_events db))) (\<lambda>r. t_found r ''event'' i)"

definition session_events :: "store_env \<Rightarrow> string \<Rightarrow> event_row list trace_op" where
  "session_events env s = t_query env (\<lambda>db.
     order_by (\<lambda>a b. er_seq a < er_seq b) (filter (\<lambda>r. er_session r = s) (db_events db)))"

definition event_count :: "store_env \<Rightarrow> string \<Rightarrow> nat trace_op" where
  "event_count env s = t_query env (\<lambda>db. sql_max (event_seqs s db))"

definition read_blob :: "store_env \<Rightarrow> string \<Rightarrow> string trace_op" where
  "read_blob env i = blob_read env i"

section \<open>Mentor calls\<close>

record call_filter =
  cf_session :: "string option"
  cf_agent :: "string option"
  cf_model :: "string option"
  cf_status :: "run_status option"
  cf_since :: "string option"
  cf_until :: "string option"
  cf_workspace :: "string option"

definition call_filter_all :: call_filter where
  "call_filter_all = \<lparr>cf_session = None, cf_agent = None, cf_model = None, cf_status = None, cf_since = None,
     cf_until = None, cf_workspace = None\<rparr>"

definition session_calls :: "string \<Rightarrow> call_filter" where
  "session_calls s = call_filter_all\<lparr>cf_session := Some s\<rparr>"

definition call_where :: "call_filter \<Rightarrow> trace_db \<Rightarrow> call_row \<Rightarrow> bool" where
  "call_where f db r \<longleftrightarrow>
     given (cf_session f) (\<lambda>s. kr_session r = s) \<and> given (cf_agent f) (\<lambda>a. kr_agent r = a) \<and>
     given (cf_model f) (\<lambda>m. kr_model r = m) \<and> given (cf_status f) (\<lambda>s. kr_status r = s) \<and>
     given (cf_since f) (\<lambda>t. \<not> str_less (kr_started_at r) t) \<and> given (cf_until f) (\<lambda>t. str_less (kr_started_at r) t) \<and>
     given (cf_workspace f) (\<lambda>w. \<exists>s\<in>set (db_sessions db). sr_id s = kr_session r \<and> sr_workspace_id s = Some w)"

definition matching_calls :: "call_filter \<Rightarrow> trace_db \<Rightarrow> call_row list" where
  "matching_calls f db = filter (call_where f db) (db_calls db)"

definition call_before :: "call_row \<Rightarrow> call_row \<Rightarrow> bool" where
  "call_before a b \<longleftrightarrow> less_pair (kr_started_at a, kr_id a) (kr_started_at b, kr_id b)"

text \<open>A row whose usage is only half there cannot be read.\<close>

definition read_call :: "call_row \<Rightarrow> trace_error + call_row" where
  "read_call r = res_bind (call_usage r) (\<lambda>_. Inr r)"

definition list_mentor_calls :: "store_env \<Rightarrow> call_filter \<Rightarrow> call_row list trace_op" where
  "list_mentor_calls env f =
     t_bind (t_query env (\<lambda>db. order_by call_before (matching_calls f db))) (\<lambda>rows. t_lift (collect (map read_call rows)))"

record call_list_row =
  cl_call :: call_row
  cl_session_title :: "string option"
  cl_workspace_id :: "string option"

definition call_list_row_of :: "trace_db \<Rightarrow> call_row \<Rightarrow> trace_error + call_list_row" where
  "call_list_row_of db r = res_bind (read_call r) (\<lambda>_. Inr
     \<lparr>cl_call = r, cl_session_title = Option.bind (session_by (kr_session r) db) sr_title,
      cl_workspace_id = Option.bind (session_by (kr_session r) db) sr_workspace_id\<rparr>)"

definition list_calls_page :: "store_env \<Rightarrow> call_filter \<Rightarrow> nat \<Rightarrow> nat \<Rightarrow> (call_list_row list \<times> nat) trace_op" where
  "list_calls_page env f limit offset =
     t_bind (t_query env (\<lambda>db.
        (collect (map (call_list_row_of db)
           (take limit (drop offset (order_by (\<lambda>a b. call_before b a) (matching_calls f db))))),
         length (matching_calls f db)))) (\<lambda>(rows, n).
     t_bind (t_lift rows) (\<lambda>rows. t_return (rows, n)))"

record usage_totals =
  ut_calls :: nat
  ut_input :: nat
  ut_output :: nat
  ut_cache_read :: nat
  ut_cache_creation :: nat
  ut_cost :: int
  ut_unpriced :: nat

definition totals_of :: "call_row list \<Rightarrow> trace_error + usage_totals" where
  "totals_of rows =
     res_bind (sum_tokens kr_input_tokens rows) (\<lambda>i.
     res_bind (sum_tokens kr_output_tokens rows) (\<lambda>out.
     res_bind (sum_tokens kr_cache_read_tokens rows) (\<lambda>cr.
     res_bind (sum_tokens kr_cache_creation_tokens rows) (\<lambda>cc.
     res_bind (sql_sum kr_cost_micros rows) (\<lambda>cost.
       Inr \<lparr>ut_calls = length rows, ut_input = i, ut_output = out, ut_cache_read = cr, ut_cache_creation = cc,
            ut_cost = cost, ut_unpriced = sql_count unpriced_call rows\<rparr>)))))"

definition call_stats :: "store_env \<Rightarrow> call_filter \<Rightarrow> usage_totals trace_op" where
  "call_stats env f = t_bind (t_query env (matching_calls f)) (\<lambda>rows. t_lift (totals_of rows))"

datatype group_by = ByModel | ByDay int | ByCallSession | ByWorkspace | ByKind

record grouped_totals =
  gt_key :: string
  gt_label :: "string option"
  gt_totals :: usage_totals

text \<open>\<open>date()\<close> is SQLite's; a session without a workspace is grouped under the empty key.\<close>

definition group_key :: "(int \<Rightarrow> string \<Rightarrow> string option) \<Rightarrow> group_by \<Rightarrow> trace_db \<Rightarrow> call_row \<Rightarrow> string option" where
  "group_key date g db r =
     (case g of
        ByModel \<Rightarrow> Some (kr_model r)
      | ByDay off \<Rightarrow> date off (kr_started_at r)
      | ByCallSession \<Rightarrow> Some (kr_session r)
      | ByWorkspace \<Rightarrow>
          Some (case Option.bind (session_by (kr_session r) db) sr_workspace_id of Some w \<Rightarrow> w | None \<Rightarrow> [])
      | ByKind \<Rightarrow> Some (call_kind_str (kr_kind r)))"

definition group_label :: "group_by \<Rightarrow> trace_db \<Rightarrow> call_row \<Rightarrow> string option" where
  "group_label g db r =
     (case g of
        ByCallSession \<Rightarrow> Option.bind (session_by (kr_session r) db) sr_title
      | ByWorkspace \<Rightarrow>
          (case session_by (kr_session r) db of
             None \<Rightarrow> None
           | Some s \<Rightarrow>
               (case Option.bind (sr_workspace_id s) (\<lambda>w. find (\<lambda>x. wr_id x = w) (db_workspaces db)) of
                  Some w \<Rightarrow> Some (wr_root w)
                | None \<Rightarrow> sr_workspace_path s))
      | _ \<Rightarrow> None)"

text \<open>Sessions and workspaces with the highest cost first, the others by key; NULL sorts first.\<close>

definition key_less :: "string option \<Rightarrow> string option \<Rightarrow> bool" where
  "key_less a b = (case (a, b) of
     (None, Some _) \<Rightarrow> True | (Some x, Some y) \<Rightarrow> str_less x y | _ \<Rightarrow> False)"

definition group_less :: "group_by \<Rightarrow> string option \<times> grouped_totals \<Rightarrow> string option \<times> grouped_totals \<Rightarrow> bool" where
  "group_less g a b =
     (if g = ByCallSession \<or> g = ByWorkspace then
        ut_cost (gt_totals (snd b)) < ut_cost (gt_totals (snd a)) \<or>
        ut_cost (gt_totals (snd a)) = ut_cost (gt_totals (snd b)) \<and> key_less (fst a) (fst b)
      else key_less (fst a) (fst b))"

definition stats_by ::
  "store_env \<Rightarrow> (int \<Rightarrow> string \<Rightarrow> string option) \<Rightarrow> (call_row list \<Rightarrow> call_row) \<Rightarrow> call_filter \<Rightarrow> group_by \<Rightarrow>
     grouped_totals list trace_op" where
  "stats_by env date pick f g =
     t_bind (t_query env (\<lambda>db.
       let rows = matching_calls f db; keys = remdups (map (group_key date g db) rows) in
       collect (map (\<lambda>k. let own = filter (\<lambda>r. group_key date g db r = k) rows in
          res_bind (totals_of own) (\<lambda>t. Inr (k,
            \<lparr>gt_key = (case k of Some s \<Rightarrow> s | None \<Rightarrow> []), gt_label = group_label g db (pick own), gt_totals = t\<rparr>))) keys)))
     (\<lambda>groups. t_bind (t_lift groups) (\<lambda>gs. t_return (map snd (order_by (group_less g) gs))))"

section \<open>Pricing again\<close>

record reprice_report =
  rp_examined :: nat
  rp_changed :: nat
  rp_unpriced :: nat

text \<open>A completed call with its usage, and what it costs now.\<close>

definition repriced ::
  "(string \<Rightarrow> nat \<times> nat \<times> nat \<times> nat \<Rightarrow> int option) \<Rightarrow> call_row \<Rightarrow> trace_error + (call_row \<times> int option)" where
  "repriced price r = res_bind (call_usage r) (\<lambda>u.
     Inr (r, case u of Some t \<Rightarrow> price (kr_model r) t | None \<Rightarrow> None))"

definition set_cost :: "string \<Rightarrow> int option \<Rightarrow> call_row list \<Rightarrow> call_row list" where
  "set_cost i cost rows = sql_update (\<lambda>r. kr_id r = i) (\<lambda>r. r\<lparr>kr_cost_micros := cost\<rparr>) rows"

definition reprice ::
  "store_env \<Rightarrow> call_filter \<Rightarrow> (string \<Rightarrow> nat \<times> nat \<times> nat \<times> nat \<Rightarrow> int option) \<Rightarrow> reprice_report trace_op" where
  "reprice env f price = transaction env
     (t_bind (t_read (\<lambda>db. filter (\<lambda>r. kr_input_tokens r \<noteq> None) (matching_calls f db))) (\<lambda>rows.
      t_bind (t_lift (collect (map (repriced price) rows))) (\<lambda>fresh.
      let updates = filter (\<lambda>(r, c). c \<noteq> kr_cost_micros r) fresh in
      t_then (t_write (\<lambda>db. db\<lparr>db_calls := fold (\<lambda>(r, c). set_cost (kr_id r) c) updates (db_calls db)\<rparr>))
        (t_return \<lparr>rp_examined = length fresh, rp_changed = length updates,
                   rp_unpriced = length (filter (\<lambda>(r, c). c = None) fresh)\<rparr>))))"

section \<open>Sessions and agents\<close>

record session_query =
  sq_query :: "string option"
  sq_workspace :: "string option"
  sq_workspace_id :: "string option"
  sq_archived :: bool
  sq_limit :: "nat option"
  sq_offset :: nat

text \<open>SQLite's \<open>lower\<close> knows only ASCII; \<open>lowercase\<close> is Rust's, \<open>fts\<close> the full-text match.\<close>

definition sqlite_lower :: "string \<Rightarrow> string" where
  "sqlite_lower s = map (\<lambda>c. let n = (of_char c :: nat) in if 65 \<le> n \<and> n \<le> 90 then char_of (n + 32) else c) s"

definition words_match :: "(string \<Rightarrow> string) \<Rightarrow> (string \<Rightarrow> string \<Rightarrow> bool) \<Rightarrow> string \<Rightarrow> trace_db \<Rightarrow> session_row \<Rightarrow> bool" where
  "words_match lowercase fts ws db r \<longleftrightarrow>
     contains_str (sqlite_lower (case sr_title r of Some t \<Rightarrow> t | None \<Rightarrow> [])) (lowercase ws) \<or>
     fts_query ws \<noteq> [] \<and> (\<exists>x\<in>set (db_fts db). ft_session x = sr_id r \<and> fts (fts_query ws) (ft_text x))"

definition session_where ::
  "(string \<Rightarrow> string) \<Rightarrow> (string \<Rightarrow> string \<Rightarrow> bool) \<Rightarrow> session_query \<Rightarrow> trace_db \<Rightarrow> session_row \<Rightarrow> bool" where
  "session_where lowercase fts q db r \<longleftrightarrow>
     (sq_archived q \<or> sr_status r = SessionOpen) \<and> given (sq_workspace q) (\<lambda>w. sr_workspace_path r = Some w) \<and>
     given (sq_workspace_id q) (\<lambda>w. sr_workspace_id r = Some w) \<and>
     given (sq_query q) (\<lambda>t. trim t = [] \<or> words_match lowercase fts (trim t) db r)"

definition list_sessions ::
  "store_env \<Rightarrow> (string \<Rightarrow> string) \<Rightarrow> (string \<Rightarrow> string \<Rightarrow> bool) \<Rightarrow> session_query \<Rightarrow> session_summary list trace_op" where
  "list_sessions env lowercase fts q =
     t_bind (t_query env (\<lambda>db.
       let active = (\<lambda>r. case latest (map ml_created_at (session_rows (sr_id r) db)) of Some t \<Rightarrow> t | None \<Rightarrow> sr_created_at r);
           rows = order_by (\<lambda>a b. less_pair (active b, sr_id b) (active a, sr_id a))
                    (filter (session_where lowercase fts q db) (db_sessions db))
       in collect (map (\<lambda>r. session_info_of r db) (take (clamp_page (sq_limit q)) (drop (sq_offset q) rows)))))
     t_lift"

record agent_signals =
  gs_outcomes :: "outcome_info list"
  gs_error :: "rpc_error option"

definition signal_row :: "event_row \<Rightarrow> agent_signals \<Rightarrow> agent_signals" where
  "signal_row r g =
     (if er_kind r = ''outcome'' then
        g\<lparr>gs_outcomes := gs_outcomes g @ [outcome_info_of (er_id r) (er_payload r) (er_ts r)]\<rparr>
      else case jget ''error'' (er_payload r) of
        Some e \<Rightarrow> (if e = JNull then g else g\<lparr>gs_error := rpc_error_of_json e\<rparr>)
      | None \<Rightarrow> g)"

definition add_signal :: "event_row \<Rightarrow> (string \<rightharpoonup> agent_signals) \<Rightarrow> (string \<rightharpoonup> agent_signals)" where
  "add_signal r m =
     (case er_agent r of
        None \<Rightarrow> m
      | Some a \<Rightarrow> m(a \<mapsto> signal_row r (case m a of Some g \<Rightarrow> g | None \<Rightarrow> \<lparr>gs_outcomes = [], gs_error = None\<rparr>)))"

definition session_signals :: "store_env \<Rightarrow> string \<Rightarrow> (string \<rightharpoonup> agent_signals) trace_op" where
  "session_signals env s = t_query env (\<lambda>db.
     fold add_signal (order_by (\<lambda>a b. er_seq a < er_seq b)
       (filter (\<lambda>r. er_session r = s \<and> er_agent r \<noteq> None \<and> er_kind r \<in> {''outcome'', ''agent.finished''}) (db_events db)))
       Map.empty)"

definition agent_outcomes :: "store_env \<Rightarrow> string \<Rightarrow> outcome_info list trace_op" where
  "agent_outcomes env a = t_query env (\<lambda>db.
     map (\<lambda>r. outcome_info_of (er_id r) (er_payload r) (er_ts r))
       (order_by (\<lambda>x y. er_seq x < er_seq y)
         (filter (\<lambda>r. er_agent r = Some a \<and> er_kind r = ''outcome'') (db_events db))))"

record agent_summary =
  gy_id :: string
  gy_status :: string
  gy_started_at :: string
  gy_ended_at :: "string option"
  gy_model :: "string option"
  gy_calls :: nat
  gy_usage :: "nat \<times> nat \<times> nat \<times> nat"
  gy_cost :: "int option"
  gy_error :: "rpc_error option"
  gy_outcomes :: "outcome_info list"

definition agent_summary_of :: "trace_db \<Rightarrow> agent_row \<Rightarrow> trace_error + agent_summary" where
  "agent_summary_of db a =
     (let calls = filter (\<lambda>c. kr_agent c = ar_id a) (db_calls db);
          steps = order_by (\<lambda>x y. str_less (kr_started_at x) (kr_started_at y)) (filter (\<lambda>c. kr_kind c = CallStep) calls)
      in res_bind (totals_of calls) (\<lambda>t. Inr
        \<lparr>gy_id = ar_id a, gy_status = run_status_str (ar_status a), gy_started_at = ar_created_at a,
         gy_ended_at = ar_ended_at a, gy_model = (case steps of c # _ \<Rightarrow> Some (kr_model c) | [] \<Rightarrow> None),
         gy_calls = ut_calls t, gy_usage = (ut_input t, ut_output t, ut_cache_read t, ut_cache_creation t),
         gy_cost = (if ut_unpriced t = 0 then Some (ut_cost t) else None), gy_error = None, gy_outcomes = []\<rparr>))"

definition with_signals :: "(string \<rightharpoonup> agent_signals) \<Rightarrow> agent_summary \<Rightarrow> agent_summary" where
  "with_signals m a =
     (case m (gy_id a) of
        None \<Rightarrow> a
      | Some g \<Rightarrow> a\<lparr>gy_outcomes := gs_outcomes g,
                    gy_error := (if gy_status a \<noteq> ''ok'' then gs_error g else gy_error a)\<rparr>)"

definition session_agents :: "store_env \<Rightarrow> string \<Rightarrow> agent_summary list trace_op" where
  "session_agents env s =
     t_bind (t_query env (\<lambda>db. collect (map (agent_summary_of db)
        (order_by (\<lambda>a b. less_pair (ar_created_at a, ar_id a) (ar_created_at b, ar_id b))
          (filter (\<lambda>a. ar_session a = s) (db_agents db)))))) (\<lambda>rows.
     t_bind (t_lift rows) (\<lambda>agents.
     t_bind (session_signals env s) (\<lambda>m. t_return (map (with_signals m) agents))))"

section \<open>Counts of outcomes\<close>

record outcome_filter =
  of_since :: "string option"
  of_until :: "string option"
  of_workspace :: "string option"

record outcome_stats =
  os_agents :: nat
  os_labelled :: nat
  os_by_kind :: "(string \<times> nat) list"
  os_tests_passed :: nat
  os_tests_failed :: nat
  os_accepted :: nat
  os_rejected :: nat
  os_done :: nat
  os_errors :: "(string \<times> nat) list"

text \<open>A bound that is empty is none.\<close>

definition bound_of :: "string option \<Rightarrow> (string \<Rightarrow> bool) \<Rightarrow> bool" where
  "bound_of x p \<longleftrightarrow> given x (\<lambda>t. t = [] \<or> p t)"

definition counted_agent :: "outcome_filter \<Rightarrow> trace_db \<Rightarrow> agent_row \<Rightarrow> bool" where
  "counted_agent f db a \<longleftrightarrow> ar_kind a = MainAgent \<and>
     bound_of (of_since f) (\<lambda>t. \<not> str_less (ar_created_at a) t) \<and> bound_of (of_until f) (\<lambda>t. str_less (ar_created_at a) t) \<and>
     (\<exists>s\<in>set (db_sessions db). sr_id s = ar_session a \<and> bound_of (of_workspace f) (\<lambda>w. sr_workspace_id s = Some w))"

text \<open>The outcomes of the agents counted: agent, kind and details, agent by agent, in order.\<close>

definition counted_outcomes :: "outcome_filter \<Rightarrow> trace_db \<Rightarrow> (string \<times> string \<times> json) list" where
  "counted_outcomes f db =
     (let ids = map ar_id (filter (counted_agent f db) (db_agents db));
          own = filter (\<lambda>r. er_kind r = ''outcome'' \<and> (\<exists>a\<in>set ids. er_agent r = Some a)) (db_events db);
          agent = (\<lambda>r. case er_agent r of Some a \<Rightarrow> a | None \<Rightarrow> []);
          rows = order_by (\<lambda>x y. str_less (agent x) (agent y) \<or> agent x = agent y \<and> er_seq x < er_seq y) own
      in List.map_filter (\<lambda>r. map_option (\<lambda>k. (agent r, k, case jget ''details'' (er_payload r) of Some d \<Rightarrow> d | None \<Rightarrow> JNull))
           (as_str (jindex ''kind'' (er_payload r)))) rows)"

text \<open>How many agents carry each of the keys, by key.\<close>

definition count_by :: "(string \<times> string) list \<Rightarrow> (string \<times> nat) list" where
  "count_by ps = map (\<lambda>k. (k, length (remdups (map snd (filter (\<lambda>p. fst p = k) ps))))) (order_by str_less (remdups (map fst ps)))"

definition count_of :: "(string \<times> nat) list \<Rightarrow> string \<Rightarrow> nat" where
  "count_of m k = (case map_of m k of Some n \<Rightarrow> n | None \<Rightarrow> 0)"

definition outcome_stats_of :: "nat \<Rightarrow> (string \<times> string \<times> json) list \<Rightarrow> outcome_stats" where
  "outcome_stats_of agents os =
     (let kinds = count_by (map (\<lambda>(a, k, d). (k, a)) os);
          errors = count_by (List.map_filter (\<lambda>(a, k, d). if k = ''error'' then
             Some (case as_str (jindex ''kind'' d) of Some w \<Rightarrow> w | None \<Rightarrow> ''error'', a) else None) os);
          tests = List.map_filter (\<lambda>(a, k, d). if k = ''tests'' then
             Some (a, snd (describe_outcome k d) = Some True) else None) os;
          last = map_of (rev tests);
          tested = remdups (map fst tests)
      in \<lparr>os_agents = agents,
          os_labelled = length (remdups (map fst (filter (\<lambda>(a, k, d). k \<in> set label_kinds) os))),
          os_by_kind = kinds,
          os_tests_passed = length (filter (\<lambda>a. last a = Some True) tested),
          os_tests_failed = length (filter (\<lambda>a. last a = Some False) tested),
          os_accepted = count_of kinds ''user_accept'', os_rejected = count_of kinds ''user_reject'',
          os_done = count_of kinds ''task_done'', os_errors = errors\<rparr>)"

definition outcome_stats_query :: "store_env \<Rightarrow> outcome_filter \<Rightarrow> outcome_stats trace_op" where
  "outcome_stats_query env f = t_query env (\<lambda>db.
     outcome_stats_of (length (filter (counted_agent f db) (db_agents db))) (counted_outcomes f db))"

section \<open>Integrity and size\<close>

record integrity_report =
  ig_sqlite :: string
  ig_checked :: nat
  ig_missing :: "string list"
  ig_corrupted :: "string list"
  ig_dangling :: "(string \<times> string) list"
  ig_bodiless :: "string list"

definition integrity_ok :: "integrity_report \<Rightarrow> bool" where
  "integrity_ok r \<longleftrightarrow> ig_sqlite r = ''ok'' \<and> ig_missing r = [] \<and> ig_corrupted r = [] \<and> ig_dangling r = [] \<and> ig_bodiless r = []"

text \<open>The blobs that are not pruned, each file read and hashed.\<close>

fun check_blobs :: "store_env \<Rightarrow> blob_row list \<Rightarrow> integrity_report \<Rightarrow> integrity_report trace_op" where
  "check_blobs env [] rep = t_return rep"
| "check_blobs env (b # bs) rep =
     (if br_pruned_at b \<noteq> None then check_blobs env bs rep
      else t_bind (t_catch (blob_verify env (br_id b))) (\<lambda>r.
        let rep' = rep\<lparr>ig_checked := Suc (ig_checked rep)\<rparr> in
        case r of
          Inr _ \<Rightarrow> check_blobs env bs rep'
        | Inl (TraceNotFound _ _) \<Rightarrow> check_blobs env bs (rep'\<lparr>ig_missing := ig_missing rep @ [br_id b]\<rparr>)
        | Inl (BlobCorrupted _ _) \<Rightarrow> check_blobs env bs (rep'\<lparr>ig_corrupted := ig_corrupted rep @ [br_id b]\<rparr>)
        | Inl e \<Rightarrow> t_fail e))"

definition integrity_check :: "store_env \<Rightarrow> string \<Rightarrow> integrity_report trace_op" where
  "integrity_check env pragma =
     t_bind (t_query env (\<lambda>db. (order_by (\<lambda>a b. str_less (br_id a) (br_id b)) (db_blobs db),
                                 order_by event_before (db_events db)))) (\<lambda>(blobs, events).
     t_bind (check_blobs env blobs \<lparr>ig_sqlite = pragma, ig_checked = 0, ig_missing = [], ig_corrupted = [],
                                    ig_dangling = [], ig_bodiless = []\<rparr>) (\<lambda>rep.
       t_return (rep
         \<lparr>ig_bodiless := map er_id (filter (\<lambda>e. er_kind e = ''mentor.request'' \<and> er_blob e = None) events),
          ig_dangling := concat (map (\<lambda>e. map (Pair (er_id e))
            (filter (\<lambda>i. i \<notin> br_id ` set blobs) (blob_refs (er_payload e)))) events)\<rparr>)))"

record disk_usage =
  du_database :: nat
  du_wal :: nat
  du_blob_bytes :: nat
  du_blob_files :: nat
  du_sessions :: nat
  du_events :: nat
  du_blob_rows :: nat

definition disk_usage_of :: "nat \<Rightarrow> nat \<Rightarrow> trace_store \<Rightarrow> disk_usage" where
  "disk_usage_of database wal st =
     \<lparr>du_database = database, du_wal = wal, du_blob_bytes = fst (blob_disk_usage st),
      du_blob_files = snd (blob_disk_usage st), du_sessions = length (db_sessions (ts_db st)),
      du_events = length (db_events (ts_db st)), du_blob_rows = length (db_blobs (ts_db st))\<rparr>"

definition total_bytes :: "disk_usage \<Rightarrow> nat" where
  "total_bytes d = du_database d + du_wal d + du_blob_bytes d"

end
