(* ===== verification/Trace_Reprice.thy ===== *)
theory Trace_Reprice
  imports Trace_Queries
begin

text \<open>
  \<open>reprice\<close> settles: what it stores is what the prices say, the rest of every row stays, and a
  second run finds nothing to change.
\<close>

section \<open>Setting costs one after another\<close>

definition cost_free :: "call_row \<Rightarrow> call_row" where
  "cost_free r = r\<lparr>kr_cost_micros := None\<rparr>"

lemma fold_set_cost:
  assumes "distinct (map (kr_id \<circ> fst) us)"
  shows "fold (\<lambda>(r, c). set_cost (kr_id r) c) us rows =
    map (\<lambda>r. case map_of (map (\<lambda>(q, c). (kr_id q, c)) us) (kr_id r) of Some c \<Rightarrow> r\<lparr>kr_cost_micros := c\<rparr> | None \<Rightarrow> r) rows"
  using assms
proof (induction us arbitrary: rows)
  case (Cons u us)
  obtain q c where u: "u = (q, c)" by fastforce
  have new: "map_of (map (\<lambda>(q, c). (kr_id q, c)) us) (kr_id q) = None"
    using Cons.prems by (force simp: u map_of_eq_None_iff)
  have "distinct (map (kr_id \<circ> fst) us)" using Cons.prems by (simp add: comp_def)
  note ih = Cons.IH [OF this, of "set_cost (kr_id q) c rows"]
  have "fold (\<lambda>(r, c). set_cost (kr_id r) c) (u # us) rows =
    fold (\<lambda>(r, c). set_cost (kr_id r) c) us (set_cost (kr_id q) c rows)" by (simp add: u)
  also note ih
  also have "map (\<lambda>r. case map_of (map (\<lambda>(q, c). (kr_id q, c)) us) (kr_id r) of Some c \<Rightarrow> r\<lparr>kr_cost_micros := c\<rparr> | None \<Rightarrow> r)
      (set_cost (kr_id q) c rows) =
    map (\<lambda>r. case map_of (map (\<lambda>(q, c). (kr_id q, c)) (u # us)) (kr_id r) of Some c \<Rightarrow> r\<lparr>kr_cost_micros := c\<rparr> | None \<Rightarrow> r) rows"
    using new by (simp add: u set_cost_def sql_update_def)
  finally show ?case .
qed simp

text \<open>The cost of a row by the prices of now, and the rows after the run.\<close>

definition cost_now :: "(string \<Rightarrow> nat \<times> nat \<times> nat \<times> nat \<Rightarrow> int option) \<Rightarrow> call_row \<Rightarrow> int option" where
  "cost_now price r = (case call_usage r of Inr (Some t) \<Rightarrow> price (kr_model r) t | _ \<Rightarrow> None)"

definition repriced_row :: "call_filter \<Rightarrow> trace_db \<Rightarrow> (string \<Rightarrow> nat \<times> nat \<times> nat \<times> nat \<Rightarrow> int option) \<Rightarrow> call_row \<Rightarrow> call_row" where
  "repriced_row f db price r =
     (if call_where f db r \<and> kr_input_tokens r \<noteq> None then r\<lparr>kr_cost_micros := cost_now price r\<rparr> else r)"

lemma repriced_cost: "repriced price r = Inr (q, c) \<Longrightarrow> q = r \<and> c = cost_now price r"
  by (auto simp: repriced_def cost_now_def res_bind_def split: sum.splits option.splits)

lemma collect_repriced:
  "collect (map (repriced price) rows) = Inr fresh \<Longrightarrow> fresh = map (\<lambda>r. (r, cost_now price r)) rows"
proof (induction rows arbitrary: fresh)
  case (Cons r rows)
  then show ?case
    by (cases "repriced price r"; cases "collect (map (repriced price) rows)")
      (auto simp: res_bind_def dest: repriced_cost split: prod.splits)
qed simp

lemma call_usage_cost [simp]: "call_usage (r\<lparr>kr_cost_micros := c\<rparr>) = call_usage r"
  by (cases "kr_input_tokens r") (simp_all add: call_usage_def)

lemma cost_now_cost [simp]: "cost_now price (r\<lparr>kr_cost_micros := c\<rparr>) = cost_now price r"
  unfolding cost_now_def call_usage_cost by (simp cong: sum.case_cong option.case_cong)

lemma call_where_cost [simp]: "call_where f (db\<lparr>db_calls := cs\<rparr>) (r\<lparr>kr_cost_micros := c\<rparr>) = call_where f db r"
  "call_where f (db\<lparr>db_calls := cs\<rparr>) q = call_where f db q"
  by (simp_all add: call_where_def)

text \<open>The updates of a run, on rows with their own keys.\<close>

lemma updated_rows:
  assumes d: "distinct (map kr_id (db_calls db))"
  shows "fold (\<lambda>(r, c). set_cost (kr_id r) c)
      (filter (\<lambda>(r, c). c \<noteq> kr_cost_micros r) (map (\<lambda>r. (r, cost_now price r))
        (filter (\<lambda>r. kr_input_tokens r \<noteq> None) (matching_calls f db)))) (db_calls db) =
    map (repriced_row f db price) (db_calls db)"
proof -
  define P where "P r \<longleftrightarrow> cost_now price r \<noteq> kr_cost_micros r \<and> kr_input_tokens r \<noteq> None \<and> call_where f db r" for r
  define us where "us = map (\<lambda>r. (r, cost_now price r)) (filter P (db_calls db))"
  have us: "filter (\<lambda>(r, c). c \<noteq> kr_cost_micros r) (map (\<lambda>r. (r, cost_now price r))
      (filter (\<lambda>r. kr_input_tokens r \<noteq> None) (matching_calls f db))) = us"
    unfolding us_def matching_calls_def filter_map filter_filter
    by (rule arg_cong [of _ _ "map _"], rule filter_cong) (auto simp: P_def)
  have keys: "map (kr_id \<circ> fst) us = map kr_id (filter P (db_calls db))"
    by (simp add: us_def)
  then have du: "distinct (map (kr_id \<circ> fst) us)" using d by (simp add: distinct_map_filter)
  have look: "map_of (map (\<lambda>(q, c). (kr_id q, c)) us) (kr_id r) = (if P r then Some (cost_now price r) else None)"
    if "r \<in> set (db_calls db)" for r
  proof (cases "P r")
    case True
    have "map fst (map (\<lambda>(q, c). (kr_id q, c)) us) = map (kr_id \<circ> fst) us" by auto
    with du have "distinct (map fst (map (\<lambda>(q, c). (kr_id q, c)) us))" by (simp only:)
    moreover have "(kr_id r, cost_now price r) \<in> set (map (\<lambda>(q, c). (kr_id q, c)) us)"
      using True that by (force simp: us_def)
    ultimately show ?thesis using True by (simp add: map_of_is_SomeI)
  next
    case False
    have "kr_id r \<noteq> kr_id q" if "q \<in> set (db_calls db)" "P q" for q
      using d that False \<open>r \<in> set (db_calls db)\<close> by (metis distinct_map inj_onD)
    then have "kr_id r \<notin> kr_id ` set (filter P (db_calls db))" by auto
    with False show ?thesis by (auto simp: us_def map_of_eq_None_iff image_image)
  qed
  have row: "(case map_of (map (\<lambda>(q, c). (kr_id q, c)) us) (kr_id r) of Some c \<Rightarrow> r\<lparr>kr_cost_micros := c\<rparr> | None \<Rightarrow> r) =
      repriced_row f db price r" if "r \<in> set (db_calls db)" for r
    using look [OF that] by (auto simp: P_def repriced_row_def)
  show ?thesis unfolding us fold_set_cost [OF du] using row by (intro map_cong) simp_all
qed

lemma reprice_run:
  assumes "reprice env f price st = (Inr rep, st')" and "distinct (map kr_id (db_calls (ts_db st)))"
  shows "ts_db st' = (ts_db st)\<lparr>db_calls := map (repriced_row f (ts_db st) price) (db_calls (ts_db st))\<rparr>"
    and "rp_changed rep = length (filter (\<lambda>r. cost_now price r \<noteq> kr_cost_micros r)
           (filter (\<lambda>r. kr_input_tokens r \<noteq> None) (matching_calls f (ts_db st))))"
proof -
  let ?rows = "filter (\<lambda>r. kr_input_tokens r \<noteq> None) (matching_calls f (ts_db st))"
  let ?us = "filter (\<lambda>(r, c). c \<noteq> kr_cost_micros r) (map (\<lambda>r. (r, cost_now price r)) ?rows)"
  obtain fresh where "collect (map (repriced price) ?rows) = Inr fresh"
    using assms(1) by (auto simp: reprice_def transaction_def t_bind_def t_io_def split: option.splits sum.splits)
  then have fresh: "collect (map (repriced price) ?rows) = Inr (map (\<lambda>r. (r, cost_now price r)) ?rows)"
    using collect_repriced by blast
  have io: "t_io env st = (Inr (), st\<lparr>ts_ops := Suc (ts_ops st)\<rparr>)"
    using assms(1) by (auto simp: reprice_def transaction_def t_bind_def t_io_def split: option.splits)
  have "reprice env f price st = (Inr \<lparr>rp_examined = length ?rows, rp_changed = length ?us,
      rp_unpriced = length (filter (\<lambda>(r, c). c = None) (map (\<lambda>r. (r, cost_now price r)) ?rows))\<rparr>,
    st\<lparr>ts_ops := Suc (ts_ops st), ts_db := (ts_db st)\<lparr>db_calls := fold (\<lambda>(r, c). set_cost (kr_id r) c) ?us (db_calls (ts_db st))\<rparr>\<rparr>)"
    unfolding reprice_def transaction_def t_bind_def t_then_def io
    by (simp add: t_read_def t_lift_def fresh t_write_def t_return_def Let_def del: not_None_eq filter_map)
  with assms(1) have "ts_db st' = (ts_db st)\<lparr>db_calls := fold (\<lambda>(r, c). set_cost (kr_id r) c) ?us (db_calls (ts_db st))\<rparr>"
    and "rp_changed rep = length ?us" by auto
  then show "ts_db st' = (ts_db st)\<lparr>db_calls := map (repriced_row f (ts_db st) price) (db_calls (ts_db st))\<rparr>"
    "rp_changed rep = length (filter (\<lambda>r. cost_now price r \<noteq> kr_cost_micros r) ?rows)"
    by (simp_all only: updated_rows [OF assms(2)]) (simp add: filter_map comp_def)
qed

lemma collect_repriced_ok:
  assumes "\<And>r. r \<in> set rows \<Longrightarrow> \<exists>c. repriced price r = Inr (r, c)"
  shows "\<exists>fresh. collect (map (repriced price) rows) = Inr fresh"
  using assms by (induction rows) (fastforce simp: res_bind_def)+

text \<open>
  C32: \<open>reprice\<close> settles: after a run that succeeded on rows with distinct keys, every completed call
  that matches the filter has the cost the prices give its usage now, nothing else of any row and no
  other table has changed, and a second run, unless the database refuses it, changes no row.
\<close>

theorem reprice_settles:
  assumes "reprice env f price st = (Inr rep, st')" and "distinct (map kr_id (db_calls (ts_db st)))"
    and "se_fault env (ts_ops st') = None"
  shows "(\<forall>r\<in>set (db_calls (ts_db st')). call_where f (ts_db st') r \<and> kr_input_tokens r \<noteq> None \<longrightarrow>
            kr_cost_micros r = cost_now price r) \<and>
    map cost_free (db_calls (ts_db st')) = map cost_free (db_calls (ts_db st)) \<and>
    (ts_db st')\<lparr>db_calls := []\<rparr> = (ts_db st)\<lparr>db_calls := []\<rparr> \<and>
    (\<exists>rep' st2. reprice env f price st' = (Inr rep', st2) \<and> rp_changed rep' = 0 \<and> ts_db st2 = ts_db st')"
proof (intro conjI ballI impI)
  note db = reprice_run(1) [OF assms(1,2)]
  let ?row = "repriced_row f (ts_db st) price"
  have settled: "kr_cost_micros r = cost_now price r"
    if "r \<in> set (db_calls (ts_db st'))" "call_where f (ts_db st') r \<and> kr_input_tokens r \<noteq> None" for r
    using that by (auto simp: db repriced_row_def split: if_splits)
  then show "kr_cost_micros r = cost_now price r"
    if "r \<in> set (db_calls (ts_db st'))" "call_where f (ts_db st') r \<and> kr_input_tokens r \<noteq> None" for r
    using that by blast
  show "map cost_free (db_calls (ts_db st')) = map cost_free (db_calls (ts_db st))"
    by (simp add: db repriced_row_def cost_free_def)
  show "(ts_db st')\<lparr>db_calls := []\<rparr> = (ts_db st)\<lparr>db_calls := []\<rparr>" by (simp add: db)
  have ids: "distinct (map kr_id (db_calls (ts_db st')))"
  proof -
    have "map kr_id (db_calls (ts_db st')) = map kr_id (db_calls (ts_db st))" by (simp add: db repriced_row_def)
    with assms(2) show ?thesis by simp
  qed
  have readable: "\<exists>c. repriced price r = Inr (r, c)"
    if "r \<in> set (filter (\<lambda>r. kr_input_tokens r \<noteq> None) (matching_calls f (ts_db st')))" for r
  proof -
    obtain fresh where fresh: "collect (map (repriced price)
        (filter (\<lambda>r. kr_input_tokens r \<noteq> None) (matching_calls f (ts_db st)))) = Inr fresh"
      using assms(1) by (auto simp: reprice_def transaction_def t_bind_def t_io_def split: option.splits sum.splits)
    have "\<exists>x. repriced price q = Inr x" if "q \<in> set rows" "collect (map (repriced price) rows) = Inr fresh" for q rows fresh
      using that by (induction rows arbitrary: fresh) (auto simp: res_bind_def split: sum.splits)
    then have old: "\<exists>x. repriced price q = Inr x"
      if "q \<in> set (filter (\<lambda>r. kr_input_tokens r \<noteq> None) (matching_calls f (ts_db st)))" for q
      using that fresh by blast
    from that obtain q where q: "q \<in> set (db_calls (ts_db st))" "r = ?row q" "call_where f (ts_db st') r" "kr_input_tokens r \<noteq> None"
      by (auto simp: matching_calls_def db)
    then have "q \<in> set (filter (\<lambda>r. kr_input_tokens r \<noteq> None) (matching_calls f (ts_db st)))"
      by (auto simp: matching_calls_def db repriced_row_def split: if_splits)
    with old obtain u where "call_usage q = Inr u" by (force simp: repriced_def res_bind_def split: sum.splits)
    moreover have "call_usage r = call_usage q" by (simp add: q(2) repriced_row_def)
    ultimately show ?thesis by (simp add: repriced_def res_bind_def)
  qed
  obtain fresh where f2: "collect (map (repriced price)
      (filter (\<lambda>r. kr_input_tokens r \<noteq> None) (matching_calls f (ts_db st')))) = Inr fresh"
    using collect_repriced_ok [OF readable] by blast
  then obtain rep' st2 where again: "reprice env f price st' = (Inr rep', st2)"
    using assms(3) by (simp add: reprice_def transaction_def t_bind_def t_then_def t_io_def t_write_def Let_def)
  have "ts_db st2 = ts_db st'"
  proof -
    have "map (repriced_row f (ts_db st') price) (db_calls (ts_db st')) = db_calls (ts_db st')"
      by (rule map_idI) (auto simp: repriced_row_def settled [symmetric])
    then show ?thesis using reprice_run(1) [OF again ids] by simp
  qed
  moreover have "rp_changed rep' = 0"
    unfolding reprice_run(2) [OF again ids] using settled [symmetric] by (force simp: matching_calls_def filter_empty_conv)
  ultimately show "\<exists>rep' st2. reprice env f price st' = (Inr rep', st2) \<and> rp_changed rep' = 0 \<and> ts_db st2 = ts_db st'"
    using again by blast
qed

definition demo_call :: "string \<Rightarrow> nat option \<Rightarrow> call_row" where
  "demo_call i t = \<lparr>kr_id = i, kr_session = ''s'', kr_agent = ''a'', kr_step = ''p'', kr_request_event = ''e'',
     kr_response_event = None, kr_model = ''m'', kr_effort = None, kr_started_at = ''t'', kr_ended_at = None,
     kr_status = RunOk, kr_stop_reason = None, kr_http_status = Some 200, kr_input_tokens = t, kr_output_tokens = t,
     kr_cache_read_tokens = t, kr_cache_creation_tokens = t, kr_cost_micros = None, kr_first_byte_ms = None,
     kr_total_ms = None, kr_request_bytes = None, kr_apprentice_applied = False, kr_kind = CallStep\<rparr>"

definition demo_calls_store :: trace_store where
  "demo_calls_store = store_new\<lparr>ts_db := db_empty\<lparr>db_calls := [demo_call ''1'' (Some 5), demo_call ''2'' None]\<rparr>\<rparr>"

lemma reprice_settles_witness:
  "kr_cost_micros (hd (db_calls (ts_db (snd (reprice plain_env call_filter_all (\<lambda>_ (i, _). Some (int i * 3)) demo_calls_store))))) = Some 15"
proof -
  let ?price = "\<lambda>(_ :: string) (i :: nat, _ :: nat \<times> nat \<times> nat). Some (int i * 3)"
  let ?st = "snd (reprice plain_env call_filter_all ?price demo_calls_store)"
  have run: "reprice plain_env call_filter_all ?price demo_calls_store =
      (Inr \<lparr>rp_examined = 1, rp_changed = 1, rp_unpriced = 0\<rparr>, ?st) \<and>
      db_calls (ts_db ?st) = [(demo_call ''1'' (Some 5))\<lparr>kr_cost_micros := Some 15\<rparr>, demo_call ''2'' None]"
    by code_simp
  have keys: "distinct (map kr_id (db_calls (ts_db demo_calls_store)))" by code_simp
  have healthy: "se_fault plain_env (ts_ops ?st) = None" by (simp add: plain_env_def)
  from reprice_settles [OF conjunct1 [OF run] keys healthy]
  have "\<forall>r\<in>set (db_calls (ts_db ?st)). call_where call_filter_all (ts_db ?st) r \<and> kr_input_tokens r \<noteq> None \<longrightarrow>
      kr_cost_micros r = cost_now ?price r" by (elim conjE)
  then show ?thesis using conjunct2 [OF run]
    by (simp add: call_where_def call_filter_all_def given_def demo_call_def cost_now_def call_usage_def)
qed

end
