(* ===== verification/Tool_Capture.thy ===== *)
theory Tool_Capture
  imports Agent_Events Rust_Utf8
begin

text \<open>
  \<open>crates/core/src/tools/shell/capture.rs\<close> and the pump of \<open>process.rs\<close>: the output of a command
  kept under a cap (the head, the tail and a count of what lies between), the transcript of both
  streams, the reporter that never waits for a slow listener, the reader that cuts a pipe's bytes
  at line ends, and the loop that reads both pipes until the command is done.
\<close>

section \<open>One stream under a cap\<close>

record capture =
  kp_head_budget :: nat
  kp_tail_budget :: nat
  kp_head :: string
  kp_head_full :: bool
  kp_tail :: string
  kp_total :: nat
  kp_newlines :: nat

definition marker_reserve :: nat where
  "marker_reserve = 96"

definition line_search :: nat where
  "line_search = 4096"

abbreviation newline :: char where
  "newline \<equiv> CHR 0x0A"

definition capture_new :: "nat \<Rightarrow> capture" where
  "capture_new max_bytes =
     (let usable = max (max_bytes - marker_reserve) 16;
          head_budget = usable * 3 div 4
      in \<lparr>kp_head_budget = head_budget, kp_tail_budget = usable - head_budget, kp_head = [],
          kp_head_full = False, kp_tail = [], kp_total = 0, kp_newlines = 0\<rparr>)"

definition count_newlines :: "string \<Rightarrow> nat" where
  "count_newlines bytes = length (filter (\<lambda>b. b = newline) bytes)"

text \<open>\<open>rposition\<close>: the last index of an element that satisfies the test.\<close>

definition rposition :: "('a \<Rightarrow> bool) \<Rightarrow> 'a list \<Rightarrow> nat option" where
  "rposition p xs = map_option (\<lambda>i. length xs - Suc i) (position p (rev xs))"

text \<open>The length a first byte announces, by its upper bits.\<close>

definition announced_len :: "char \<Rightarrow> nat" where
  "announced_len b =
     (let n = byte b in
      if n < 0x80 then 1 else if 0xC0 \<le> n \<and> n < 0xE0 then 2 else if 0xE0 \<le> n \<and> n < 0xF0 then 3
      else if 0xF0 \<le> n \<and> n < 0xF8 then 4 else 1)"

definition trim_incomplete_char :: "string \<Rightarrow> string" where
  "trim_incomplete_char bytes =
     (case rposition (\<lambda>b. \<not> is_cont b) bytes of
        None \<Rightarrow> bytes
      | Some lead \<Rightarrow>
          if 4 < length bytes - lead then bytes
          else if length bytes - lead < announced_len (bytes ! lead) then take lead bytes
          else bytes)"

fun char_floor_from :: "string \<Rightarrow> nat \<Rightarrow> nat" where
  "char_floor_from bytes 0 = 0"
| "char_floor_from bytes (Suc i) =
     (if Suc i < length bytes \<and> is_cont (bytes ! Suc i) then char_floor_from bytes i else Suc i)"

definition char_floor :: "string \<Rightarrow> nat \<Rightarrow> nat" where
  "char_floor bytes at = char_floor_from bytes (min at (length bytes))"

text \<open>The head once it is full: it ends on a line when one ends close enough, else on a character.\<close>

definition head_end :: "string \<Rightarrow> string" where
  "head_end head =
     (let from = length head - line_search in
      case rposition (\<lambda>b. b = newline) (drop from head) of
        Some i \<Rightarrow> take (from + i + 1) head
      | None \<Rightarrow> trim_incomplete_char head)"

definition push_tail :: "string \<Rightarrow> capture \<Rightarrow> capture" where
  "push_tail rest c =
     (if kp_tail_budget c \<le> length rest then
        c\<lparr>kp_tail := drop (length rest - kp_tail_budget c) rest\<rparr>
      else
        (let tail = kp_tail c @ rest in
         c\<lparr>kp_tail := (if 2 * kp_tail_budget c < length tail then drop (length tail - kp_tail_budget c) tail
                       else tail)\<rparr>))"

definition capture_push :: "string \<Rightarrow> capture \<Rightarrow> capture" where
  "capture_push bytes c0 =
     (let c = c0\<lparr>kp_total := kp_total c0 + length bytes, kp_newlines := kp_newlines c0 + count_newlines bytes\<rparr> in
      if kp_head_full c then push_tail bytes c
      else
        (let room = kp_head_budget c - length (kp_head c) in
         if length bytes \<le> room then c\<lparr>kp_head := kp_head c @ bytes\<rparr>
         else
           (let cut = char_floor bytes room in
            push_tail (drop cut bytes)
              (c\<lparr>kp_head := head_end (kp_head c @ take cut bytes), kp_head_full := True\<rparr>))))"

definition ends_with_newline :: "capture \<Rightarrow> bool" where
  "ends_with_newline c =
     (let bytes = (if kp_tail c = [] then kp_head c else kp_tail c) in bytes \<noteq> [] \<and> last bytes = newline)"

definition capture_lines :: "capture \<Rightarrow> nat" where
  "capture_lines c = kp_newlines c + (if 0 < kp_total c \<and> \<not> ends_with_newline c then 1 else 0)"

definition capture_truncated :: "capture \<Rightarrow> bool" where
  "capture_truncated c \<longleftrightarrow> length (kp_head c) + min (length (kp_tail c)) (kp_tail_budget c) < kp_total c"

definition kept_tail :: "capture \<Rightarrow> string" where
  "kept_tail c = drop (length (kp_tail c) - kp_tail_budget c) (kp_tail c)"

text \<open>How much of the tail goes so that it starts on a line, else on a character.\<close>

definition tail_skip :: "string \<Rightarrow> nat" where
  "tail_skip tail =
     (case position (\<lambda>b. b = newline) (take line_search tail) of
        Some i \<Rightarrow> i + 1
      | None \<Rightarrow> (case position (\<lambda>b. \<not> is_cont b) tail of Some i \<Rightarrow> i | None \<Rightarrow> length tail))"

definition capture_render :: "(nat \<Rightarrow> string) \<Rightarrow> capture \<Rightarrow> string" where
  "capture_render marker c =
     (let tail = kept_tail c;
          omitted = kp_total c - length (kp_head c) - length tail
      in if omitted = 0 then kp_head c @ tail
         else
           (let skip = tail_skip tail in
            kp_head c @ (if kp_head c \<noteq> [] \<and> last (kp_head c) \<noteq> newline then [newline] else [])
              @ marker (omitted + skip) @ [newline] @ drop skip tail))"

section \<open>Both streams\<close>

record transcript =
  sc_combined :: capture
  sc_stdout :: capture
  sc_stderr :: capture
  sc_current :: "tool_stream option"

definition transcript_new :: "nat \<Rightarrow> transcript" where
  "transcript_new max_bytes =
     \<lparr>sc_combined = capture_new max_bytes, sc_stdout = capture_new max_bytes,
      sc_stderr = capture_new max_bytes, sc_current = None\<rparr>"

definition stream_tag :: "tool_stream \<Rightarrow> string" where
  "stream_tag s = (case s of StreamStdout \<Rightarrow> ''[out]'' @ [newline] | StreamStderr \<Rightarrow> ''[err]'' @ [newline])"

definition transcript_push :: "tool_stream \<Rightarrow> string \<Rightarrow> transcript \<Rightarrow> transcript" where
  "transcript_push stream bytes t0 =
     (if bytes = [] then t0
      else
        (let t = (case stream of
                    StreamStdout \<Rightarrow> t0\<lparr>sc_stdout := capture_push bytes (sc_stdout t0)\<rparr>
                  | StreamStderr \<Rightarrow> t0\<lparr>sc_stderr := capture_push bytes (sc_stderr t0)\<rparr>);
             combined =
               (if sc_current t = Some stream then sc_combined t
                else if sc_current t = None \<and> stream = StreamStdout then sc_combined t
                else
                  (let c = sc_combined t;
                       c' = (if 0 < kp_total c \<and> \<not> ends_with_newline c then capture_push [newline] c else c)
                   in capture_push (stream_tag stream) c'))
         in t\<lparr>sc_current := Some stream, sc_combined := capture_push bytes combined\<rparr>))"

definition stream_word :: "tool_stream \<Rightarrow> string" where
  "stream_word s = (case s of StreamStdout \<Rightarrow> ''stdout'' | StreamStderr \<Rightarrow> ''stderr'')"

definition transcript_raw :: "transcript \<Rightarrow> string" where
  "transcript_raw t = capture_render (\<lambda>n. ''[... '' @ show_nat n @ '' bytes omitted]'') (sc_combined t)"

definition stream_bytes :: "tool_stream \<Rightarrow> transcript \<Rightarrow> string option" where
  "stream_bytes stream t =
     (let c = (case stream of StreamStdout \<Rightarrow> sc_stdout t | StreamStderr \<Rightarrow> sc_stderr t) in
      if 0 < kp_total c
      then Some (capture_render (\<lambda>n. ''[... '' @ show_nat n @ '' bytes of '' @ stream_word stream @ '' omitted]'') c)
      else None)"

definition transcript_truncated :: "transcript \<Rightarrow> bool" where
  "transcript_truncated t \<longleftrightarrow>
     capture_truncated (sc_combined t) \<or> capture_truncated (sc_stdout t) \<or> capture_truncated (sc_stderr t)"

section \<open>What a capture shows\<close>

lemma rposition_Some:
  assumes "rposition p xs = Some i"
  shows "i < length xs \<and> p (xs ! i) \<and> (\<forall>j. i < j \<and> j < length xs \<longrightarrow> \<not> p (xs ! j))"
proof -
  from assms obtain k where k: "position p (rev xs) = Some k" "i = length xs - Suc k"
    by (auto simp: rposition_def)
  then have k': "k < length xs" "p (rev xs ! k)" "\<forall>j<k. \<not> p (rev xs ! j)" by (auto simp: position_Some_iff)
  have "\<not> p (xs ! j)" if "i < j" "j < length xs" for j
  proof -
    have "length xs - Suc j < k" using that k(2) k'(1) by linarith
    with k'(3) have "\<not> p (rev xs ! (length xs - Suc j))" by blast
    then show ?thesis using that by (simp add: rev_nth)
  qed
  then show ?thesis using k' k(2) by (simp add: rev_nth)
qed

lemma position_None: "position p xs = None \<longleftrightarrow> (\<forall>x\<in>set xs. \<not> p x)"
  by (induction xs) auto

lemma rposition_None: "rposition p xs = None \<longleftrightarrow> (\<forall>x\<in>set xs. \<not> p x)"
  by (simp add: rposition_def position_None)

lemma trim_incomplete_take: "\<exists>n. trim_incomplete_char h = take n h \<and> n \<le> length h"
  by (auto simp: trim_incomplete_char_def split: option.split dest!: rposition_Some intro: exI [of _ "length h"])

lemma head_end_take: "\<exists>n. head_end h = take n h \<and> n \<le> length h"
proof (cases "rposition (\<lambda>b. b = newline) (drop (length h - line_search) h)")
  case None
  then show ?thesis using trim_incomplete_take by (simp add: head_end_def)
next
  case (Some i)
  then have "length h - line_search + i + 1 \<le> length h" by (auto dest: rposition_Some)
  with Some show ?thesis by (auto simp: head_end_def Let_def)
qed

text \<open>What a capture is after the bytes \<open>s\<close>: its head begins them, its tail ends them.\<close>

definition captures :: "nat \<Rightarrow> string \<Rightarrow> capture \<Rightarrow> bool" where
  "captures m s c \<longleftrightarrow>
     kp_head_budget c = kp_head_budget (capture_new m) \<and> kp_tail_budget c = kp_tail_budget (capture_new m) \<and>
     kp_total c = length s \<and> kp_newlines c = count_newlines s \<and> length (kp_head c) \<le> kp_head_budget c \<and>
     (if kp_head_full c then
        (\<exists>mid. s = kp_head c @ mid @ kp_tail c) \<and> kp_tail c \<noteq> [] \<and> (\<exists>n. kp_head c = head_end (take n s))
      else kp_head c = s \<and> kp_tail c = [])"

lemma tail_budget_pos: "0 < kp_tail_budget (capture_new m)"
  by (simp add: capture_new_def Let_def)

lemma captures_new: "captures m [] (capture_new m)"
  by (simp add: captures_def capture_new_def Let_def count_newlines_def)

lemma push_tail_same [simp]:
  "kp_head_budget (push_tail r c) = kp_head_budget c" "kp_tail_budget (push_tail r c) = kp_tail_budget c"
  "kp_head (push_tail r c) = kp_head c" "kp_head_full (push_tail r c) = kp_head_full c"
  "kp_total (push_tail r c) = kp_total c" "kp_newlines (push_tail r c) = kp_newlines c"
  by (simp_all add: push_tail_def Let_def)

lemma push_tail_drop:
  assumes "kp_tail c @ r \<noteq> []" and "0 < kp_tail_budget c"
  shows "\<exists>n < length (kp_tail c @ r). kp_tail (push_tail r c) = drop n (kp_tail c @ r)"
proof (cases "kp_tail_budget c \<le> length r")
  case True
  then show ?thesis using assms
    by (intro exI [of _ "length (kp_tail c) + (length r - kp_tail_budget c)"]) (auto simp: push_tail_def)
next
  case False
  show ?thesis
  proof (cases "2 * kp_tail_budget c < length (kp_tail c @ r)")
    case big: True
    then show ?thesis using assms False
      by (intro exI [of _ "length (kp_tail c @ r) - kp_tail_budget c"]) (auto simp: push_tail_def Let_def)
  next
    case small: False
    then show ?thesis using assms False by (intro exI [of _ 0]) (auto simp: push_tail_def Let_def)
  qed
qed

lemma push_tail_suffix:
  assumes "kp_tail c @ r \<noteq> []" and "0 < kp_tail_budget c"
  shows "\<exists>gone. kp_tail c @ r = gone @ kp_tail (push_tail r c)" and "kp_tail (push_tail r c) \<noteq> []"
proof -
  from push_tail_drop [OF assms] obtain n where n: "n < length (kp_tail c @ r)" "kp_tail (push_tail r c) = drop n (kp_tail c @ r)"
    by blast
  then show "\<exists>gone. kp_tail c @ r = gone @ kp_tail (push_tail r c)" by (metis append_take_drop_id)
  show "kp_tail (push_tail r c) \<noteq> []" unfolding n(2) using n(1) by (simp del: drop_append)
qed

lemma count_newlines_append [simp]: "count_newlines (s @ t) = count_newlines s + count_newlines t"
  by (simp add: count_newlines_def)

lemma char_floor_le: "char_floor bytes at \<le> at" "char_floor bytes at \<le> length bytes"
proof -
  have le: "char_floor_from b i \<le> i" for b i by (induction b i rule: char_floor_from.induct) auto
  show "char_floor bytes at \<le> at" "char_floor bytes at \<le> length bytes"
    using le [of bytes "min at (length bytes)"] by (auto simp: char_floor_def)
qed

lemma captures_full:
  assumes "captures m s c" "kp_head_budget d = kp_head_budget c" "kp_tail_budget d = kp_tail_budget c"
    and "kp_total d = kp_total c + length bytes" "kp_newlines d = kp_newlines c + count_newlines bytes"
    and "length (kp_head d) \<le> kp_head_budget c" "kp_head_full d"
    and "s @ bytes = kp_head d @ mid @ kp_tail d" "kp_tail d \<noteq> []" "kp_head d = head_end (take n (s @ bytes))"
  shows "captures m (s @ bytes) d"
proof -
  have "kp_head_budget c = kp_head_budget (capture_new m)" "kp_tail_budget c = kp_tail_budget (capture_new m)"
    "kp_total c = length s" "kp_newlines c = count_newlines s"
    using assms(1) unfolding captures_def by blast+
  then have "kp_head_budget d = kp_head_budget (capture_new m) \<and> kp_tail_budget d = kp_tail_budget (capture_new m) \<and>
    kp_total d = length (s @ bytes) \<and> kp_newlines d = count_newlines (s @ bytes) \<and> length (kp_head d) \<le> kp_head_budget d"
    using assms(2-6) by simp
  moreover have "\<exists>mid. s @ bytes = kp_head d @ mid @ kp_tail d" "\<exists>n. kp_head d = head_end (take n (s @ bytes))"
    using assms(8,10) by blast+
  ultimately show ?thesis unfolding captures_def if_P [OF assms(7)] using assms(9) by blast
qed

lemma captures_push:
  assumes "captures m s c"
  shows "captures m (s @ bytes) (capture_push bytes c)"
proof -
  let ?c = "c\<lparr>kp_total := kp_total c + length bytes, kp_newlines := kp_newlines c + count_newlines bytes\<rparr>"
  have budget: "0 < kp_tail_budget c" using assms tail_budget_pos by (simp add: captures_def)
  show ?thesis
  proof (cases "kp_head_full c")
    case True
    with assms obtain mid where mid: "s = kp_head c @ mid @ kp_tail c" "kp_tail c \<noteq> []" by (auto simp: captures_def)
    have push: "capture_push bytes c = push_tail bytes ?c" using True by (simp add: capture_push_def Let_def)
    have suf: "\<exists>gone. kp_tail c @ bytes = gone @ kp_tail (push_tail bytes ?c)" "kp_tail (push_tail bytes ?c) \<noteq> []"
      using push_tail_suffix [of ?c bytes] mid(2) budget by simp_all
    then obtain gone where "kp_tail c @ bytes = gone @ kp_tail (push_tail bytes ?c)" by blast
    with mid(1) have split: "s @ bytes = kp_head c @ (mid @ gone) @ kp_tail (push_tail bytes ?c)" by simp
    obtain n where "kp_head c = head_end (take n s)" using assms True by (auto simp: captures_def)
    then have cut: "kp_head c = head_end (take (min n (length s)) (s @ bytes))"
      by (cases "n \<le> length s") (simp_all add: min_def)
    show ?thesis unfolding push
    proof (rule captures_full [OF assms])
      show "s @ bytes = kp_head (push_tail bytes ?c) @ (mid @ gone) @ kp_tail (push_tail bytes ?c)" using split by simp
      show "kp_head (push_tail bytes ?c) = head_end (take (min n (length s)) (s @ bytes))"
        unfolding push_tail_same using cut by simp
      show "kp_tail (push_tail bytes ?c) \<noteq> []" by (fact suf(2))
      show "length (kp_head (push_tail bytes ?c)) \<le> kp_head_budget c" using assms by (simp add: captures_def)
    qed (simp_all add: True)
  next
    case open_head: False
    with assms have head: "kp_head c = s" "kp_tail c = []" by (simp_all add: captures_def)
    let ?room = "kp_head_budget c - length (kp_head c)"
    show ?thesis
    proof (cases "length bytes \<le> ?room")
      case True
      with assms open_head show ?thesis by (auto simp: captures_def capture_push_def Let_def)
    next
      case False
      define cut where "cut = char_floor bytes ?room"
      have cut: "cut \<le> ?room" "cut < length bytes" using char_floor_le [of bytes ?room] False by (auto simp: cut_def)
      obtain n where n: "head_end (s @ take cut bytes) = take n (s @ take cut bytes)" "n \<le> length (s @ take cut bytes)"
        using head_end_take by blast
      let ?d = "?c\<lparr>kp_head := head_end (s @ take cut bytes), kp_head_full := True\<rparr>"
      have push: "capture_push bytes c = push_tail (drop cut bytes) ?d"
        using open_head False by (simp add: capture_push_def Let_def head cut_def)
      have suf: "\<exists>gone. drop cut bytes = gone @ kp_tail (push_tail (drop cut bytes) ?d)"
        "kp_tail (push_tail (drop cut bytes) ?d) \<noteq> []"
        using push_tail_suffix [of ?d "drop cut bytes"] cut(2) budget head(2) by simp_all
      then obtain gone where gone: "drop cut bytes = gone @ kp_tail (push_tail (drop cut bytes) ?d)" by blast
      have "s @ bytes = (s @ take cut bytes) @ drop cut bytes" by simp
      also have "\<dots> = take n (s @ take cut bytes) @ drop n (s @ take cut bytes) @ drop cut bytes"
        by (metis append.assoc append_take_drop_id)
      also have "\<dots> = kp_head ?d @ (drop n (s @ take cut bytes) @ gone) @ kp_tail (push_tail (drop cut bytes) ?d)"
        using gone n(1) by simp
      finally have split: "s @ bytes = kp_head ?d @ (drop n (s @ take cut bytes) @ gone) @ kp_tail (push_tail (drop cut bytes) ?d)" .
      show ?thesis unfolding push
      proof (rule captures_full [OF assms])
        show "s @ bytes = kp_head (push_tail (drop cut bytes) ?d) @ (drop n (s @ take cut bytes) @ gone)
            @ kp_tail (push_tail (drop cut bytes) ?d)"
          unfolding push_tail_same by (fact split)
        show "kp_head (push_tail (drop cut bytes) ?d) = head_end (take (length s + cut) (s @ bytes))" by simp
        show "kp_tail (push_tail (drop cut bytes) ?d) \<noteq> []" by (fact suf(2))
        show "length (kp_head (push_tail (drop cut bytes) ?d)) \<le> kp_head_budget c"
        proof -
          have "length s \<le> kp_head_budget c" using assms head(1) by (simp add: captures_def)
          then have "length s + cut \<le> kp_head_budget c" using cut(1) head(1) by simp
          then show ?thesis using n(2) unfolding push_tail_same by (simp add: n(1))
        qed
      qed simp_all
    qed
  qed
qed

lemma captures_all: "captures m (concat chunks) (fold capture_push chunks (capture_new m))"
proof -
  have "captures m s c \<Longrightarrow> captures m (s @ concat chunks) (fold capture_push chunks c)" for s c
    by (induction chunks arbitrary: s c) (auto dest: captures_push simp flip: append_assoc)
  from this [OF captures_new] show ?thesis by simp
qed

section \<open>Cuts at characters\<close>

lemma boundary_not_cont: "i < length s \<Longrightarrow> \<not> is_cont (s ! i) \<Longrightarrow> is_char_boundary s i"
  by (simp add: is_char_boundary_def)

text \<open>After a byte of ASCII, and after the last byte of a character, the text can be cut.\<close>

lemma boundary_after:
  assumes "utf8_valid s" "i < length s" "\<not> is_cont (s ! i)"
  shows "is_char_boundary s (i + char_len (drop i s))" and "0 < char_len (drop i s)"
    and "i + char_len (drop i s) \<le> length s"
proof -
  have d: "utf8_valid (drop i s)" using utf8_valid_cut [of s i] boundary_not_cont assms by simp
  have "drop i s \<noteq> []" using assms(2) by simp
  from utf8_valid_step [OF d this] have step: "0 < char_len (drop i s)" "utf8_valid (drop (char_len (drop i s)) (drop i s))" by auto
  show "0 < char_len (drop i s)" by (fact step(1))
  show le: "i + char_len (drop i s) \<le> length s" using char_len_le [of "drop i s"] assms(2) by simp
  show "is_char_boundary s (i + char_len (drop i s))"
  proof (cases "i + char_len (drop i s) = length s")
    case False
    with le have "drop (char_len (drop i s)) (drop i s) \<noteq> []" by simp
    from utf8_valid_start [OF step(2) this] False le show ?thesis
      by (intro boundary_not_cont) (simp_all add: add.commute)
  qed (simp add: is_char_boundary_def)
qed

lemma char_len_first: "0 < char_len s \<Longrightarrow> char_len s = lead_len (s ! 0)"
  by (elim char_len_pos) simp

lemma boundary_after_newline:
  assumes "utf8_valid s" "i < length s" "s ! i = newline"
  shows "is_char_boundary s (Suc i)"
proof -
  have nc: "\<not> is_cont (s ! i)" by (simp add: assms(3) is_cont_def)
  have "char_len (drop i s) = lead_len newline"
    using char_len_first [OF boundary_after(2) [OF assms(1,2) nc]] assms(2,3) by simp
  then show ?thesis using boundary_after(1) [OF assms(1,2) nc] by (simp add: lead_len_def byte_def)
qed

lemma announced_lead: "0 < lead_len a \<Longrightarrow> announced_len a = lead_len a"
  by (auto simp: announced_len_def lead_len_def Let_def split: if_splits)

lemma trim_incomplete_boundary:
  assumes "utf8_valid s" "n \<le> length s"
  shows "is_char_boundary s (length (trim_incomplete_char (take n s)))"
proof (cases "rposition (\<lambda>b. \<not> is_cont b) (take n s)")
  case None
  have "n = 0"
  proof (rule ccontr)
    assume "n \<noteq> 0"
    with assms(2) have "s \<noteq> []" "s ! 0 \<in> set (take n s)" by (auto simp: in_set_conv_nth intro!: exI [of _ 0])
    with None utf8_valid_start [OF assms(1)] show False by (auto simp: rposition_None)
  qed
  with None show ?thesis by (simp add: trim_incomplete_char_def is_char_boundary_def)
next
  case (Some lead)
  from rposition_Some [OF Some] assms(2) have lead: "lead < n" "\<not> is_cont (s ! lead)"
    "\<And>j. lead < j \<Longrightarrow> j < n \<Longrightarrow> is_cont (s ! j)" by auto
  let ?k = "char_len (drop lead s)"
  have "lead < length s" using lead(1) assms(2) by simp
  note after = boundary_after [OF assms(1) this lead(2)]
  have k: "?k = lead_len (s ! lead)" using char_len_first [OF after(2)] \<open>lead < length s\<close> by simp
  then have announced: "announced_len (s ! lead) = ?k" using announced_lead after(2) by simp
  have "n - lead \<le> ?k"
  proof (rule ccontr)
    assume "\<not> n - lead \<le> ?k"
    then have "lead < lead + ?k" "lead + ?k < n" using after(2) by auto
    with lead(3) have "is_cont (s ! (lead + ?k))" by blast
    with after(1) \<open>lead + ?k < n\<close> assms(2) after(2) show False by (simp add: is_char_boundary_def)
  qed
  moreover have "?k \<le> 4" by (rule char_len_max)
  ultimately have "trim_incomplete_char (take n s) = (if n - lead < ?k then take lead s else take n s)"
    using Some lead(1) assms(2) announced by (simp add: trim_incomplete_char_def min_absorb2)
  moreover have "is_char_boundary s lead" using lead \<open>lead < length s\<close> by (simp add: boundary_not_cont)
  moreover have "n = lead + ?k" if "\<not> n - lead < ?k" using that \<open>n - lead \<le> ?k\<close> lead(1) by simp
  ultimately show ?thesis using after(1) assms(2) \<open>lead < length s\<close> by (auto simp: min_absorb2)
qed

lemma head_end_boundary:
  assumes "utf8_valid s"
  shows "is_char_boundary s (length (head_end (take n s)))"
proof -
  define h where "h = take n s"
  have h: "h = take (length h) s" "length h \<le> length s" by (cases "n \<le> length s", simp_all add: h_def min_def)
  have "is_char_boundary s (length (head_end h))"
  proof (cases "rposition (\<lambda>b. b = newline) (drop (length h - line_search) h)")
    case None
    then show ?thesis using trim_incomplete_boundary [OF assms h(2)] h(1) by (simp add: head_end_def)
  next
    case (Some i)
    let ?i = "length h - line_search + i"
    from rposition_Some [OF Some] have i: "?i < length h" "h ! ?i = newline" by auto
    then have "s ! ?i = newline" using h by (metis nth_take)
    with boundary_after_newline [OF assms, of ?i] i h(2) have "is_char_boundary s (Suc ?i)" by simp
    moreover have "length (head_end h) = Suc ?i" using Some i by (simp add: head_end_def Let_def)
    ultimately show ?thesis by simp
  qed
  then show ?thesis by (simp add: h_def)
qed

lemma tail_skip_le: "tail_skip tail \<le> length tail"
  by (auto simp: tail_skip_def position_Some_iff split: option.split)

lemma tail_skip_boundary:
  assumes "utf8_valid s" "s = front @ tail"
  shows "is_char_boundary s (length front + tail_skip tail)"
proof (cases "position (\<lambda>b. b = newline) (take line_search tail)")
  case (Some i)
  then have i: "i < length tail" "tail ! i = newline" by (auto simp: position_Some_iff)
  then have "s ! (length front + i) = newline" by (simp add: assms(2) nth_append)
  with boundary_after_newline [OF assms(1), of "length front + i"] i(1) Some show ?thesis
    by (simp add: tail_skip_def assms(2))
next
  case None
  show ?thesis
  proof (cases "position (\<lambda>b. \<not> is_cont b) tail")
    case (Some i)
    then have "i < length tail" "\<not> is_cont (tail ! i)" by (auto simp: position_Some_iff)
    with None Some show ?thesis
      by (intro boundary_not_cont) (simp_all add: tail_skip_def assms(2) nth_append)
  qed (use None in \<open>simp add: tail_skip_def assms(2) is_char_boundary_def\<close>)
qed

section \<open>The guarantee\<close>

lemma capture_sizes:
  "kp_head_budget (capture_new m) + kp_tail_budget (capture_new m) = max (m - marker_reserve) 16"
  by (simp add: capture_new_def Let_def)

lemma kept_tail_suffix: "\<exists>gone. kp_tail c = gone @ kept_tail c"
  by (metis append_take_drop_id kept_tail_def)

text \<open>
  C33: What a capture shows of a stream, whatever chunks it came in: a capture that leaves nothing out
  gives the stream back; one that does gives the beginning of the stream, a line with the exact
  number of bytes left out, and the end of the stream, within the cap and cut at characters when
  the stream is UTF-8. The number of bytes seen is exact.
\<close>

theorem capture_faithful:
  assumes "c = fold capture_push chunks (capture_new m)" and "s = concat chunks"
  shows "kp_total c = length s \<and>
    (if capture_truncated c then
       \<exists>h mid t. s = h @ mid @ t \<and> mid \<noteq> [] \<and> length h + length t \<le> max (m - marker_reserve) 16 \<and>
         capture_render marker c =
           h @ (if h \<noteq> [] \<and> last h \<noteq> newline then [newline] else []) @ marker (length mid) @ [newline] @ t \<and>
         (utf8_valid s \<longrightarrow> utf8_valid h \<and> utf8_valid t)
     else capture_render marker c = s)"
proof -
  note cap = captures_all [of m chunks, folded assms]
  have total: "kp_total c = length s" using cap by (simp add: captures_def)
  obtain rest where split: "s = kp_head c @ rest @ kept_tail c"
  proof (cases "kp_head_full c")
    case True
    with cap obtain mid where "s = kp_head c @ mid @ kp_tail c" by (auto simp: captures_def)
    moreover obtain gone where "kp_tail c = gone @ kept_tail c" using kept_tail_suffix by blast
    ultimately have "s = kp_head c @ (mid @ gone) @ kept_tail c" by simp
    then show thesis by (rule that)
  next
    case False
    with cap have "s = kp_head c @ [] @ kept_tail c" by (simp add: captures_def kept_tail_def)
    then show thesis by (rule that)
  qed
  have kept: "length (kept_tail c) = min (length (kp_tail c)) (kp_tail_budget c)" by (simp add: kept_tail_def)
  have omitted: "kp_total c - length (kp_head c) - length (kept_tail c) = length rest"
    using arg_cong [OF split, of length] total by simp
  have trunc: "capture_truncated c \<longleftrightarrow> rest \<noteq> []"
    using arg_cong [OF split, of length] total by (auto simp: capture_truncated_def kept)
  show ?thesis
  proof (cases "rest = []")
    case True
    with omitted split trunc total show ?thesis by (simp add: capture_render_def)
  next
    case False
    let ?skip = "tail_skip (kept_tail c)" and ?h = "kp_head c"
    let ?mid = "rest @ take ?skip (kept_tail c)" and ?t = "drop ?skip (kept_tail c)"
    have s: "s = ?h @ ?mid @ ?t" by (simp add: split)
    have mid: "length ?mid = length rest + ?skip" using tail_skip_le by simp
    have "length ?h \<le> kp_head_budget (capture_new m)" "kp_tail_budget c = kp_tail_budget (capture_new m)"
      using cap by (auto simp: captures_def)
    then have len: "length ?h + length ?t \<le> max (m - marker_reserve) 16"
      unfolding capture_sizes [symmetric] using kept by simp
    have "utf8_valid ?h \<and> utf8_valid ?t" if valid: "utf8_valid s"
    proof
      have full: "kp_head_full c" using False split cap by (cases "kp_head_full c") (auto simp: captures_def)
      then obtain n where "?h = head_end (take n s)" using cap by (auto simp: captures_def)
      with head_end_boundary [OF valid, of n] have "is_char_boundary s (length ?h)" by simp
      from utf8_valid_cut [OF valid this] show "utf8_valid ?h" by (simp add: split)
      have "s = (?h @ rest) @ kept_tail c" using split by simp
      from tail_skip_boundary [OF valid this] have "is_char_boundary s (length (?h @ rest) + ?skip)" .
      from utf8_valid_cut [OF valid this] show "utf8_valid ?t" using tail_skip_le [of "kept_tail c"] by (simp add: split)
    qed
    moreover have "capture_render marker c = ?h @ (if ?h \<noteq> [] \<and> last ?h \<noteq> newline then [newline] else [])
        @ marker (length ?mid) @ [newline] @ ?t"
      unfolding capture_render_def Let_def omitted mid using False by (simp del: drop_append)
    moreover have "?mid \<noteq> []" using False by simp
    ultimately have "s = ?h @ ?mid @ ?t \<and> ?mid \<noteq> [] \<and> length ?h + length ?t \<le> max (m - marker_reserve) 16 \<and>
        capture_render marker c = ?h @ (if ?h \<noteq> [] \<and> last ?h \<noteq> newline then [newline] else [])
          @ marker (length ?mid) @ [newline] @ ?t \<and>
        (utf8_valid s \<longrightarrow> utf8_valid ?h \<and> utf8_valid ?t)" using s len by blast
    moreover have "capture_truncated c" using trunc False by simp
    ultimately show ?thesis using total unfolding if_P [OF \<open>capture_truncated c\<close>] by blast
  qed
qed

lemma capture_faithful_witness:
  "let c = fold capture_push [replicate 20 (CHR ''a''), replicate 20 (CHR ''b'')] (capture_new 0)
   in kp_total c = 40 \<and> capture_truncated c"
proof -
  let ?chunks = "[replicate 20 (CHR ''a''), replicate 20 (CHR ''b'')]"
  let ?c = "fold capture_push ?chunks (capture_new 0)"
  have "kp_total ?c = length (concat ?chunks)"
    using capture_faithful [OF refl refl, of ?chunks 0] by (rule conjunct1)
  moreover have "capture_truncated ?c" by code_simp
  ultimately show ?thesis by (simp add: Let_def)
qed

end
