(* ===== verification/Tool_Pump.thy ===== *)
theory Tool_Pump
  imports Tool_Capture "HOL-Library.Sublist"
begin

text \<open>
  The reporter of \<open>tools/shell/capture.rs\<close>, which passes output on without ever waiting, and the
  pump of \<open>tools/shell/process.rs\<close>: the reader of one pipe and the \<open>select!\<close> loop as a state machine,
  one event of the world per turn of the loop.
\<close>

section \<open>The reporter\<close>

text \<open>What goes to the listener: a chunk, or the note that lines were left out.\<close>

datatype shown = ShownChunk tool_stream string | ShownGap tool_stream nat

definition shown_text :: "shown \<Rightarrow> string" where
  "shown_text s =
     (case s of ShownChunk _ t \<Rightarrow> t
      | ShownGap _ n \<Rightarrow> ''[... '' @ show_nat n @ '' lines of output not shown]'' @ [newline])"

record reporter =
  rq_pending :: "(tool_stream \<times> string) list"
  rq_dropped :: nat
  rq_closed :: bool

text \<open>What \<open>try_send\<close> answers.\<close>

datatype send_answer = SendTaken | SendFull | SendClosed

definition pending_max :: nat where
  "pending_max = 8"

definition count_lines :: "string \<Rightarrow> nat" where
  "count_lines t = count_newlines t + (if t \<noteq> [] \<and> last t \<noteq> newline then 1 else 0)"

definition reporter_new :: "bool \<Rightarrow> reporter" where
  "reporter_new closed = \<lparr>rq_pending = [], rq_dropped = 0, rq_closed = closed\<rparr>"

text \<open>The next message: the note of a gap goes out under the stream of what follows it.\<close>

definition next_message :: "reporter \<Rightarrow> shown option" where
  "next_message r =
     (if 0 < rq_dropped r then
        Some (ShownGap (case rq_pending r of [] \<Rightarrow> StreamStdout | (s, _) # _ \<Rightarrow> s) (rq_dropped r))
      else (case rq_pending r of [] \<Rightarrow> None | (s, t) # _ \<Rightarrow> Some (ShownChunk s t)))"

definition message_taken :: "reporter \<Rightarrow> reporter" where
  "message_taken r = (if 0 < rq_dropped r then r\<lparr>rq_dropped := 0\<rparr> else r\<lparr>rq_pending := tl (rq_pending r)\<rparr>)"

text \<open>\<open>flush\<close>, with the answers of the channel; a channel that says no more is full.\<close>

fun report_flush :: "send_answer list \<Rightarrow> reporter \<Rightarrow> shown list \<times> reporter" where
  "report_flush answers r =
     (if rq_closed r then ([], r)
      else case next_message r of
        None \<Rightarrow> ([], r)
      | Some m \<Rightarrow>
          (case answers of
             SendTaken # rest \<Rightarrow> (case report_flush rest (message_taken r) of (ms, r') \<Rightarrow> (m # ms, r'))
           | SendClosed # _ \<Rightarrow> ([], r\<lparr>rq_closed := True, rq_pending := [], rq_dropped := 0\<rparr>)
           | _ \<Rightarrow> ([], r)))"

declare report_flush.simps [simp del]

definition report_queue :: "tool_stream \<Rightarrow> string \<Rightarrow> reporter \<Rightarrow> reporter" where
  "report_queue stream t r =
     (let pending = rq_pending r @ [(stream, t)] in
      if pending_max < length pending then
        r\<lparr>rq_pending := tl pending, rq_dropped := rq_dropped r + count_lines (snd (hd pending))\<rparr>
      else r\<lparr>rq_pending := pending\<rparr>)"

definition report_push :: "send_answer list \<Rightarrow> tool_stream \<Rightarrow> string \<Rightarrow> reporter \<Rightarrow> shown list \<times> reporter" where
  "report_push answers stream t r =
     (if rq_closed r then ([], r) else report_flush answers (report_queue stream t r))"

text \<open>\<open>dropped_lines\<close>: the lines that never reached the listener, so far.\<close>

definition lines_waiting :: "(tool_stream \<times> string) list \<Rightarrow> nat" where
  "lines_waiting ps = sum_list (map (count_lines \<circ> snd) ps)"

definition dropped_lines :: "reporter \<Rightarrow> nat" where
  "dropped_lines r = rq_dropped r + lines_waiting (rq_pending r)"

text \<open>A run of pushes, each with the channel's answers during it.\<close>

fun report_all :: "(send_answer list \<times> tool_stream \<times> string) list \<Rightarrow> reporter \<Rightarrow> shown list \<times> reporter" where
  "report_all [] r = ([], r)"
| "report_all ((answers, stream, t) # ps) r =
     (case report_push answers stream t r of
        (ms, r') \<Rightarrow> (case report_all ps r' of (ms', r'') \<Rightarrow> (ms @ ms', r'')))"

definition shown_lines :: "shown \<Rightarrow> nat" where
  "shown_lines s = (case s of ShownChunk _ t \<Rightarrow> count_lines t | ShownGap _ n \<Rightarrow> n)"

section \<open>The reader of a pipe\<close>

definition chunk_size :: nat where
  "chunk_size = 65536"

text \<open>What one read adds to the bytes held back: the batch to send, and what stays.\<close>

definition read_cut :: "nat \<Rightarrow> string \<Rightarrow> nat option" where
  "read_cut chunk pending =
     (case rposition (\<lambda>b. b = newline) pending of
        Some i \<Rightarrow> Some (i + 1)
      | None \<Rightarrow> if chunk \<le> length pending then Some (length pending) else None)"

fun read_stream :: "nat \<Rightarrow> string list \<Rightarrow> string \<Rightarrow> string list" where
  "read_stream chunk [] pending = (if pending = [] then [] else [pending])"
| "read_stream chunk (r # reads) pending =
     (case read_cut chunk (pending @ r) of
        None \<Rightarrow> read_stream chunk reads (pending @ r)
      | Some n \<Rightarrow> take n (pending @ r) # read_stream chunk reads (drop n (pending @ r)))"

section \<open>The pump\<close>

datatype ended = EndedExit "int option" | EndedTimeout | EndedKilled

record pump =
  pm_status :: "int option option"
  pm_ended :: "ended option"
  pm_grace :: bool
  pm_orphans :: bool
  pm_open :: bool
  pm_killed :: bool
  pm_chunks :: "(tool_stream \<times> string) list"

definition pump_start :: pump where
  "pump_start = \<lparr>pm_status = None, pm_ended = None, pm_grace = False, pm_orphans = False, pm_open = True,
     pm_killed = False, pm_chunks = []\<rparr>"

text \<open>The branch of the \<open>select!\<close> that is ready: \<open>OnExit\<close> has the exit code, \<open>OnGrace\<close> is the timer.\<close>

datatype pump_event = OnCancel | OnDeadline | OnExit "int option" | OnGrace | OnChunk tool_stream string | OnClosed

definition stop_tree :: "ended \<Rightarrow> pump \<Rightarrow> pump" where
  "stop_tree e p = p\<lparr>pm_ended := Some e, pm_killed := True, pm_grace := True\<rparr>"

text \<open>One turn; a branch whose condition does not hold is not taken.\<close>

definition pump_step :: "pump_event \<Rightarrow> pump \<Rightarrow> pump option" where
  "pump_step ev p =
     (if \<not> pm_open p then None
      else case ev of
        OnCancel \<Rightarrow> if pm_ended p = None then Some (stop_tree EndedKilled p) else None
      | OnDeadline \<Rightarrow> if pm_ended p = None then Some (stop_tree EndedTimeout p) else None
      | OnExit code \<Rightarrow>
          if pm_status p = None
          then Some (p\<lparr>pm_status := Some code, pm_grace := (pm_grace p \<or> pm_ended p = None)\<rparr>)
          else None
      | OnGrace \<Rightarrow>
          if \<not> pm_grace p then None
          else if pm_ended p = None then Some (p\<lparr>pm_orphans := True, pm_killed := True, pm_grace := True\<rparr>)
          else Some (p\<lparr>pm_grace := False, pm_open := False\<rparr>)
      | OnChunk stream bytes \<Rightarrow> Some (p\<lparr>pm_chunks := pm_chunks p @ [(stream, bytes)]\<rparr>)
      | OnClosed \<Rightarrow> Some (p\<lparr>pm_open := False\<rparr>))"

fun pump_run :: "pump_event list \<Rightarrow> pump \<Rightarrow> pump option" where
  "pump_run [] p = Some p"
| "pump_run (ev # evs) p = (case pump_step ev p of None \<Rightarrow> None | Some p' \<Rightarrow> pump_run evs p')"

text \<open>The end: a child that is still there is killed and waited for, \<open>late\<close> is what that gives.\<close>

definition pump_end :: "int option option \<Rightarrow> pump \<Rightarrow> ended" where
  "pump_end late p =
     (case pm_ended p of
        Some e \<Rightarrow> e
      | None \<Rightarrow>
          EndedExit (case pm_status p of Some code \<Rightarrow> code | None \<Rightarrow> (case late of Some code \<Rightarrow> code | None \<Rightarrow> Some 0)))"

section \<open>Nothing is lost unnoticed\<close>

definition shown_chunks :: "shown list \<Rightarrow> (tool_stream \<times> string) list" where
  "shown_chunks ms = List.map_filter (\<lambda>m. case m of ShownChunk s t \<Rightarrow> Some (s, t) | ShownGap _ _ \<Rightarrow> None) ms"

lemma shown_chunks_append [simp]: "shown_chunks (xs @ ys) = shown_chunks xs @ shown_chunks ys"
  by (simp add: shown_chunks_def map_filter_def)

lemma shown_chunks_simps [simp]:
  "shown_chunks [] = []" "shown_chunks (ShownChunk s t # ms) = (s, t) # shown_chunks ms"
  "shown_chunks (ShownGap s n # ms) = shown_chunks ms"
  by (simp_all add: shown_chunks_def map_filter_simps)

text \<open>A flush only moves: what it takes from the reporter is what it shows.\<close>

lemma report_flush_moves:
  "report_flush answers r = (ms, r') \<Longrightarrow> \<not> rq_closed r' \<Longrightarrow>
   sum_list (map shown_lines ms) + dropped_lines r' = dropped_lines r \<and>
   shown_chunks ms @ rq_pending r' = rq_pending r \<and> \<not> rq_closed r"
proof (induction answers r arbitrary: ms rule: report_flush.induct)
  case (1 answers r)
  note run = 1(2) [unfolded report_flush.simps [of answers r]]
  show ?case
  proof (cases "rq_closed r \<or> next_message r = None")
    case True
    with run 1(3) show ?thesis by (auto split: if_splits)
  next
    case False
    then obtain m where m: "next_message r = Some m" and r: "\<not> rq_closed r" by auto
    show ?thesis
    proof (cases answers)
      case Nil
      with run 1(3) m r show ?thesis by auto
    next
      case (Cons a rest)
      show ?thesis
      proof (cases a)
        case SendTaken
        obtain ms0 where rec: "report_flush rest (message_taken r) = (ms0, r')" "ms = m # ms0"
          using run m r Cons SendTaken by (auto split: prod.splits)
        from 1(1) [OF r m Cons SendTaken rec(1) 1(3)]
        have ih: "sum_list (map shown_lines ms0) + dropped_lines r' = dropped_lines (message_taken r)"
          "shown_chunks ms0 @ rq_pending r' = rq_pending (message_taken r)" by auto
        have "shown_lines m + dropped_lines (message_taken r) = dropped_lines r"
          "shown_chunks [m] @ rq_pending (message_taken r) = rq_pending r"
          using m by (auto simp: next_message_def message_taken_def shown_lines_def dropped_lines_def lines_waiting_def
              split: if_splits list.splits)
        then show ?thesis using ih r rec(2) shown_chunks_append [of "[m]" ms0] by simp
      next
        case SendFull
        with run 1(3) m r Cons show ?thesis by auto
      next
        case SendClosed
        with run 1(3) m r Cons show ?thesis by auto
      qed
    qed
  qed
qed

lemma report_queue_lines:
  "dropped_lines (report_queue stream t r) = dropped_lines r + count_lines t"
  "subseq (rq_pending (report_queue stream t r)) (rq_pending r @ [(stream, t)])"
  "length (rq_pending r) \<le> pending_max \<Longrightarrow> length (rq_pending (report_queue stream t r)) \<le> pending_max"
  by (cases "rq_pending r"; auto simp: report_queue_def dropped_lines_def lines_waiting_def Let_def)+

lemma report_all_closed: "report_all ps r0 = (ms, r) \<Longrightarrow> rq_closed r0 \<Longrightarrow> rq_closed r"
proof (induction ps arbitrary: ms r0)
  case (Cons p ps)
  then show ?case by (cases p) (auto simp: report_push_def split: prod.splits)
qed simp

text \<open>
  The reporter never waits and never loses a line unnoticed: as long as the listener is there,
  the lines it was shown, those it was told were left out and those not delivered so far are
  together the lines pushed; it sees chunks in order, each as it was pushed, and no more than
  eight wait.
\<close>

theorem reporter_accounts:
  assumes "report_all ps (reporter_new False) = (ms, r)" and "\<not> rq_closed r"
  shows "sum_list (map shown_lines ms) + dropped_lines r = sum_list (map (\<lambda>(_, _, t). count_lines t) ps) \<and>
    subseq (shown_chunks ms @ rq_pending r) (map snd ps) \<and> length (rq_pending r) \<le> pending_max"
proof -
  have "report_all ps r0 = (ms, r) \<Longrightarrow> length (rq_pending r0) \<le> pending_max \<Longrightarrow>
    sum_list (map shown_lines ms) + dropped_lines r = dropped_lines r0 + sum_list (map (\<lambda>(_, _, t). count_lines t) ps) \<and>
    subseq (shown_chunks ms @ rq_pending r) (rq_pending r0 @ map snd ps) \<and>
    length (rq_pending r) \<le> pending_max" for r0
    using assms(2)
  proof (induction ps arbitrary: ms r0)
    case Nil
    then show ?case by simp
  next
    case (Cons p ps)
    obtain answers stream t where p: "p = (answers, stream, t)" by (cases p)
    obtain ms1 r1 ms2 where run: "report_push answers stream t r0 = (ms1, r1)" "report_all ps r1 = (ms2, r)" "ms = ms1 @ ms2"
      using Cons.prems(1) by (auto simp: p split: prod.splits)
    have r0: "\<not> rq_closed r0" "\<not> rq_closed r1"
      using report_all_closed Cons.prems(1,3) run(2) by blast+
    let ?q = "report_queue stream t r0"
    have flush: "report_flush answers ?q = (ms1, r1)" using run(1) r0(1) by (simp add: report_push_def)
    note moves = report_flush_moves [OF this r0(2)]
    note q = report_queue_lines [where stream = stream and t = t and r = r0]
    have "length (rq_pending ?q) = length (shown_chunks ms1) + length (rq_pending r1)"
      using moves by (metis length_append)
    then have "length (rq_pending r1) \<le> pending_max" using q(3) Cons.prems(2) by simp
    from Cons.IH [OF run(2) this Cons.prems(3)]
    have ih: "sum_list (map shown_lines ms2) + dropped_lines r = dropped_lines r1 + sum_list (map (\<lambda>(_, _, t). count_lines t) ps)"
      "subseq (shown_chunks ms2 @ rq_pending r) (rq_pending r1 @ map snd ps)"
      "length (rq_pending r) \<le> pending_max" by auto
    from ih(2) have "subseq (shown_chunks ms1 @ shown_chunks ms2 @ rq_pending r)
        (shown_chunks ms1 @ rq_pending r1 @ map snd ps)"
      by (rule list_emb_append_mono [OF subseq_order.order_refl])
    also have "\<dots> = rq_pending ?q @ map snd ps" using moves by (metis append.assoc)
    finally have "subseq (shown_chunks ms @ rq_pending r) (rq_pending ?q @ map snd ps)"
      by (simp add: run(3))
    moreover have "subseq (rq_pending ?q @ map snd ps) (rq_pending r0 @ map snd (p # ps))"
      using list_emb_append_mono [OF q(2) subseq_order.order_refl] by (simp add: p)
    ultimately have "subseq (shown_chunks ms @ rq_pending r) (rq_pending r0 @ map snd (p # ps))"
      by (rule subseq_order.order_trans)
    then show ?case using ih(1,3) moves q(1) by (simp add: p run(3))
  qed
  from this [OF assms(1)] show ?thesis
    by (simp add: reporter_new_def dropped_lines_def lines_waiting_def)
qed

lemma reporter_accounts_witness:
  "sum_list (map shown_lines (fst (report_all [([SendTaken], StreamStdout, ''a''), ([], StreamStderr, ''b'')] (reporter_new False)))) = 1"
proof -
  let ?ps = "[([SendTaken], StreamStdout, ''a''), ([], StreamStderr, ''b'')]"
  obtain ms r where run: "report_all ?ps (reporter_new False) = (ms, r)" by fastforce
  have "report_all ?ps (reporter_new False) = ([ShownChunk StreamStdout ''a''],
      \<lparr>rq_pending = [(StreamStderr, ''b'')], rq_dropped = 0, rq_closed = False\<rparr>)" by code_simp
  with run have r: "\<not> rq_closed r" "dropped_lines r = 1" "ms = [ShownChunk StreamStdout ''a'']"
    by (auto simp: dropped_lines_def lines_waiting_def count_lines_def count_newlines_def)
  from reporter_accounts [OF run r(1)] r(2) show ?thesis
    unfolding run by (simp add: count_lines_def count_newlines_def)
qed

section \<open>The reader loses nothing\<close>

lemma read_cut_le: "read_cut chunk pending = Some n \<Longrightarrow> n \<le> length pending"
  by (auto simp: read_cut_def split: option.splits if_splits dest: rposition_Some)

lemma read_cut_line: "read_cut chunk pending = Some n \<Longrightarrow> pending \<noteq> [] \<Longrightarrow>
    last (take n pending) = newline \<or> chunk \<le> length (take n pending)"
  by (auto simp: read_cut_def last_conv_nth split: option.splits if_splits dest: rposition_Some)

definition whole_batch :: "nat \<Rightarrow> string \<Rightarrow> bool" where
  "whole_batch chunk b \<longleftrightarrow> b = [] \<or> last b = newline \<or> chunk \<le> length b"

text \<open>
  The reader of a pipe passes on every byte in order, whatever pieces the reads bring, and each
  batch before the last ends with a line or is as long as a whole read.
\<close>

theorem read_stream_lossless:
  "concat (read_stream chunk reads []) = concat reads \<and>
   list_all (whole_batch chunk) (butlast (read_stream chunk reads []))"
proof -
  have "concat (read_stream chunk reads p) = p @ concat reads \<and>
    list_all (whole_batch chunk) (butlast (read_stream chunk reads p))" for p
  proof (induction chunk reads p rule: read_stream.induct)
    case (2 chunk r reads p)
    show ?case
    proof (cases "read_cut chunk (p @ r)")
      case None
      with 2(1) show ?thesis by simp
    next
      case (Some n)
      have "take n (p @ r) @ drop n (p @ r) = p @ r" by (rule append_take_drop_id)
      moreover have "whole_batch chunk (take n (p @ r))"
        using read_cut_line [OF Some] unfolding whole_batch_def by (metis take_eq_Nil)
      ultimately show ?thesis using 2(2) [OF Some]
        by (simp add: Some del: take_append drop_append length_append)
    qed
  qed simp
  from this [of "[]"] show ?thesis by simp
qed

section \<open>How a command ends\<close>

text \<open>The first of cancellation and deadline in the events of a run.\<close>

definition first_stop :: "pump_event list \<Rightarrow> ended option" where
  "first_stop evs =
     (case List.map_filter (\<lambda>ev. case ev of OnCancel \<Rightarrow> Some EndedKilled | OnDeadline \<Rightarrow> Some EndedTimeout | _ \<Rightarrow> None) evs of
        [] \<Rightarrow> None | e # _ \<Rightarrow> Some e)"

definition chunks_of :: "pump_event list \<Rightarrow> (tool_stream \<times> string) list" where
  "chunks_of evs = List.map_filter (\<lambda>ev. case ev of OnChunk s b \<Rightarrow> Some (s, b) | _ \<Rightarrow> None) evs"

lemma pump_step_keeps:
  assumes "pump_step ev p = Some p'"
  shows "pm_open p" and "pm_ended p' = (case pm_ended p of Some e \<Rightarrow> Some e | None \<Rightarrow> first_stop [ev])"
    and "pm_chunks p' = pm_chunks p @ chunks_of [ev]"
    and "(pm_ended p \<noteq> None \<longrightarrow> pm_killed p) \<Longrightarrow> (pm_ended p' \<noteq> None \<longrightarrow> pm_killed p')"
    and "pm_killed p \<Longrightarrow> pm_killed p'"
  using assms
  by (auto simp: pump_step_def stop_tree_def first_stop_def chunks_of_def map_filter_simps
      split: pump_event.splits if_splits option.split)

lemma pump_run_keeps:
  "pump_run evs p = Some p' \<Longrightarrow>
   pm_ended p' = (case pm_ended p of Some e \<Rightarrow> Some e | None \<Rightarrow> first_stop evs) \<and>
   pm_chunks p' = pm_chunks p @ chunks_of evs \<and>
   ((pm_ended p \<noteq> None \<longrightarrow> pm_killed p) \<longrightarrow> (pm_ended p' \<noteq> None \<longrightarrow> pm_killed p'))"
proof (induction evs arbitrary: p)
  case Nil
  then show ?case by (auto simp: first_stop_def chunks_of_def map_filter_simps split: option.split)
next
  case (Cons ev evs)
  then obtain q where q: "pump_step ev p = Some q" "pump_run evs q = Some p'" by (auto split: option.splits)
  have "first_stop (ev # evs) = (case first_stop [ev] of Some e \<Rightarrow> Some e | None \<Rightarrow> first_stop evs)"
    "chunks_of (ev # evs) = chunks_of [ev] @ chunks_of evs"
    by (auto simp: first_stop_def chunks_of_def map_filter_simps split: pump_event.split list.split)
  with Cons.IH [OF q(2)] pump_step_keeps [OF q(1)] show ?case by (auto split: option.splits)
qed

lemma pump_stop_ends:
  "pump_run evs p = Some p' \<Longrightarrow> pm_ended p \<noteq> None \<Longrightarrow> pm_grace p \<Longrightarrow>
   length (filter (\<lambda>ev. ev = OnGrace) evs) \<le> 1 \<and> (OnGrace \<in> set evs \<longrightarrow> \<not> pm_open p')"
proof (induction evs arbitrary: p)
  case (Cons ev evs)
  then obtain q where q: "pump_step ev p = Some q" "pump_run evs q = Some p'" by (auto split: option.splits)
  show ?case
  proof (cases "ev = OnGrace")
    case True
    with q(1) Cons.prems(2,3) have "\<not> pm_open q" by (auto simp: pump_step_def split: if_splits)
    then have "evs = []" using q(2) by (cases evs) (auto simp: pump_step_def split: option.splits)
    with True q(2) \<open>\<not> pm_open q\<close> show ?thesis by simp
  next
    case False
    then have "pm_ended q \<noteq> None" "pm_grace q"
      using q(1) Cons.prems(2,3) by (auto simp: pump_step_def split: pump_event.splits if_splits)
    with Cons.IH [OF q(2)] False show ?thesis by simp
  qed
qed simp

lemma pump_run_append: "pump_run (xs @ ys) p = Option.bind (pump_run xs p) (pump_run ys)"
  by (induction xs arbitrary: p) (auto split: option.split)

lemma pump_stopped_grace:
  "pump_run evs p = Some p' \<Longrightarrow> (pm_ended p \<noteq> None \<longrightarrow> pm_grace p \<or> \<not> pm_open p) \<Longrightarrow>
   pm_ended p' \<noteq> None \<longrightarrow> pm_grace p' \<or> \<not> pm_open p'"
proof (induction evs arbitrary: p)
  case (Cons ev evs)
  then obtain q where q: "pump_step ev p = Some q" "pump_run evs q = Some p'" by (auto split: option.splits)
  then have "pm_ended q \<noteq> None \<longrightarrow> pm_grace q \<or> \<not> pm_open q"
    using Cons.prems(2) by (auto simp: pump_step_def stop_tree_def split: pump_event.splits if_splits)
  with Cons.IH [OF q(2)] show ?case by blast
qed simp

text \<open>
  C34: How the pump ends, whatever happens in whatever order: the first of cancellation and deadline,
  if there was one, is how the command ended, and then its tree was killed; otherwise it is the
  exit. Every chunk went to the sink once, in order, and after a kill the pump gives up on the
  pipes at the first tick of the grace timer.
\<close>

theorem pump_ends:
  assumes "pump_run evs pump_start = Some p"
  shows "pm_chunks p = chunks_of evs \<and>
    (case first_stop evs of
       Some e \<Rightarrow> pump_end late p = e \<and> pm_killed p
     | None \<Rightarrow> \<exists>code. pump_end late p = EndedExit code) \<and>
    (\<forall>pre post. evs = pre @ post \<and> first_stop pre \<noteq> None \<and> OnGrace \<in> set post \<longrightarrow>
       \<not> pm_open p \<and> length (filter (\<lambda>ev. ev = OnGrace) post) = 1)"
proof -
  have run: "pm_ended p = first_stop evs" "pm_chunks p = chunks_of evs" "pm_ended p \<noteq> None \<longrightarrow> pm_killed p"
    using pump_run_keeps [OF assms] by (simp_all add: pump_start_def)
  have "case first_stop evs of Some e \<Rightarrow> pump_end late p = e \<and> pm_killed p | None \<Rightarrow> \<exists>code. pump_end late p = EndedExit code"
    using run(1,3) by (auto simp: pump_end_def split: option.split)
  moreover have "\<not> pm_open p \<and> length (filter (\<lambda>ev. ev = OnGrace) post) = 1"
    if "evs = pre @ post \<and> first_stop pre \<noteq> None \<and> OnGrace \<in> set post" for pre post
  proof -
    from assms that obtain q where q: "pump_run pre pump_start = Some q" "pump_run post q = Some p"
      by (auto simp: pump_run_append bind_eq_Some_conv)
    have "pm_ended q \<noteq> None" using pump_run_keeps [OF q(1)] that by (simp add: pump_start_def)
    moreover have "pm_open q" using q(2) that by (cases post) (auto simp: pump_step_def split: option.splits if_splits)
    ultimately have "pm_grace q" using pump_stopped_grace [OF q(1)] by (simp add: pump_start_def)
    from pump_stop_ends [OF q(2) \<open>pm_ended q \<noteq> None\<close> this] that
    have "length (filter (\<lambda>ev. ev = OnGrace) post) \<le> 1" "\<not> pm_open p" by auto
    moreover have "filter (\<lambda>ev. ev = OnGrace) post \<noteq> []" using that by (auto simp: filter_empty_conv)
    ultimately show ?thesis by (simp add: le_Suc_eq)
  qed
  ultimately show ?thesis using run(2) by blast
qed

lemma pump_ends_witness:
  "\<exists>p. pump_run [OnChunk StreamStdout ''a'', OnDeadline, OnExit None, OnCancel] pump_start = None \<and>
     pump_run [OnChunk StreamStdout ''a'', OnDeadline, OnExit None, OnGrace] pump_start = Some p \<and>
     pump_end None p = EndedTimeout \<and> pm_killed p"
proof -
  let ?evs = "[OnChunk StreamStdout ''a'', OnDeadline, OnExit None, OnGrace]"
  have none: "pump_run [OnChunk StreamStdout ''a'', OnDeadline, OnExit None, OnCancel] pump_start = None" by code_simp
  have "pump_run ?evs pump_start \<noteq> None" by code_simp
  then obtain p where run: "pump_run ?evs pump_start = Some p" by blast
  moreover have "first_stop ?evs = Some EndedTimeout" by code_simp
  ultimately show ?thesis using pump_ends [OF run, of None] none by auto
qed

text \<open>
  Without a stop the grace timer is set anew each time: a command whose orphans keep its pipes open
  after they were killed is pumped on, although its exit is known, until the deadline, and then
  counts as timed out.
\<close>

lemma orphans_time_out:
  "\<exists>p. pump_run (OnExit (Some 0) # replicate (Suc n) OnGrace @ [OnDeadline, OnGrace]) pump_start = Some p \<and>
     pm_status p = Some (Some 0) \<and> pump_end None p = EndedTimeout"
proof -
  have spin: "pump_run (replicate n OnGrace) p = Some (if n = 0 then p else p\<lparr>pm_orphans := True, pm_killed := True, pm_grace := True\<rparr>)"
    if "pm_open p" "pm_grace p" "pm_ended p = None" for n p
    using that by (induction n arbitrary: p) (auto simp: pump_step_def)
  show ?thesis
    by (simp add: pump_run_append spin pump_step_def pump_start_def stop_tree_def pump_end_def del: replicate.simps)
qed

end
