(* ===== verification/Workspace_Index.thy ===== *)
theory Workspace_Index
  imports Trace_Sessions Mentor_Client
begin

text \<open>
  The file index of \<open>crates/core/src/workspace/index.rs\<close>: what the walk of the \<open>ignore\<close> crate visited,
  one entry after the other in the order the threads took the lock, becomes a list of files sorted
  by path. \<open>get\<close> and \<open>under\<close> search it by halves, which is written out and shown to find
  exactly the entries asked for.
\<close>

section \<open>Languages\<close>

definition ascii_lowercase :: "string \<Rightarrow> string" where
  "ascii_lowercase s = map (\<lambda>c. let n = (of_char c :: nat) in if 65 \<le> n \<and> n \<le> 90 then char_of (n + 32) else c) s"

text \<open>The last component of a relative path, and the part of a name after its last dot.\<close>

definition last_component :: "string \<Rightarrow> string" where
  "last_component p = last (split_on (CHR ''/'') p)"

definition name_extension :: "string \<Rightarrow> string option" where
  "name_extension n =
     (case rsplit_once (CHR ''.'') n of
        Some (before, ext) \<Rightarrow> if before = [] then None else Some ext
      | None \<Rightarrow> None)"

definition language_names :: "(string list \<times> string) list" where
  "language_names =
     [([''Makefile'', ''GNUmakefile'', ''makefile''], ''make''),
      ([''Dockerfile'', ''Containerfile''], ''dockerfile''),
      ([''justfile'', ''Justfile''], ''just''),
      ([''CMakeLists.txt''], ''cmake''),
      ([''Cargo.lock'', ''Cargo.toml''], ''toml'')]"

definition language_extensions :: "(string list \<times> string) list" where
  "language_extensions =
     [([''rs''], ''rust''), ([''py'', ''pyi''], ''python''), ([''ts'', ''mts'', ''cts''], ''typescript''),
      ([''tsx''], ''tsx''), ([''js'', ''mjs'', ''cjs''], ''javascript''), ([''jsx''], ''jsx''), ([''go''], ''go''),
      ([''java''], ''java''), ([''kt'', ''kts''], ''kotlin''), ([''scala''], ''scala''), ([''c'', ''h''], ''c''),
      ([''cc'', ''cpp'', ''cxx'', ''hh'', ''hpp'', ''hxx''], ''cpp''), ([''cs''], ''csharp''), ([''rb''], ''ruby''),
      ([''php''], ''php''), ([''swift''], ''swift''), ([''m'', ''mm''], ''objective-c''), ([''zig''], ''zig''),
      ([''lua''], ''lua''), ([''sh'', ''bash'', ''zsh''], ''shell''), ([''ps1'', ''psm1''], ''powershell''),
      ([''bat'', ''cmd''], ''batch''), ([''sql''], ''sql''), ([''html'', ''htm''], ''html''), ([''css''], ''css''),
      ([''scss'', ''sass''], ''scss''), ([''vue''], ''vue''), ([''svelte''], ''svelte''), ([''json'', ''jsonc''], ''json''),
      ([''yaml'', ''yml''], ''yaml''), ([''toml''], ''toml''), ([''xml''], ''xml''), ([''md'', ''markdown''], ''markdown''),
      ([''txt''], ''text''), ([''proto''], ''protobuf''), ([''graphql'', ''gql''], ''graphql''), ([''tf''], ''terraform''),
      ([''nix''], ''nix''), ([''ex'', ''exs''], ''elixir''), ([''erl''], ''erlang''), ([''hs''], ''haskell''),
      ([''ml'', ''mli''], ''ocaml''), ([''clj'', ''cljs''], ''clojure''), ([''dart''], ''dart''), ([''r''], ''r''),
      ([''jl''], ''julia''), ([''cmake''], ''cmake''), ([''gradle''], ''gradle''), ([''ipynb''], ''notebook'')]"

definition named_in :: "(string list \<times> string) list \<Rightarrow> string \<Rightarrow> string option" where
  "named_in table k = map_option snd (find (\<lambda>(ks, _). k \<in> set ks) table)"

text \<open>\<open>language_of\<close>; a name or an extension that is not UTF-8 has no language.\<close>

definition language_of :: "string \<Rightarrow> string option" where
  "language_of path =
     (let name = last_component path in
      if name = [] \<or> name = ''..'' \<or> \<not> utf8_valid name then None
      else case named_in language_names name of
        Some l \<Rightarrow> Some l
      | None \<Rightarrow>
          (case name_extension name of
             Some ext \<Rightarrow> if utf8_valid ext then named_in language_extensions (ascii_lowercase ext) else None
           | None \<Rightarrow> None))"

section \<open>Building the index\<close>

record file_entry =
  fe_path :: string
  fe_size :: nat
  fe_mtime :: "nat option"
  fe_mtime_ns :: "nat option"
  fe_language :: "string option"

record file_index =
  ix_entries :: "file_entry list"
  ix_directories :: nat
  ix_truncated :: bool

text \<open>
  What the walker hands over: an error, the root or an entry of no known type, a directory, a file
  (its path from the root, its length and its time of change in nanoseconds since the epoch, as
  far as the metadata could be read), anything else.
\<close>

datatype walked = WalkError | WalkRoot | WalkUntyped | WalkDir | WalkFile string "nat option" "nat option" | WalkOther

definition max_index_files :: nat where
  "max_index_files = 200000"

definition visited_file :: "string \<Rightarrow> nat option \<Rightarrow> nat option \<Rightarrow> file_entry" where
  "visited_file rel len mtime_ns =
     \<lparr>fe_path = replace_char (CHR 0x5C) (CHR ''/'') (utf8_lossy rel),
      fe_size = (case len of Some n \<Rightarrow> n | None \<Rightarrow> 0),
      fe_mtime = map_option (\<lambda>t. t div 1000000000) mtime_ns, fe_mtime_ns = mtime_ns,
      fe_language = language_of rel\<rparr>"

definition visit :: "nat \<Rightarrow> walked \<Rightarrow> file_index \<Rightarrow> file_index" where
  "visit limit w ix =
     (case w of
        WalkDir \<Rightarrow> ix\<lparr>ix_directories := Suc (ix_directories ix)\<rparr>
      | WalkFile rel len t \<Rightarrow>
          if limit \<le> length (ix_entries ix) then ix\<lparr>ix_truncated := True\<rparr>
          else ix\<lparr>ix_entries := ix_entries ix @ [visited_file rel len t]\<rparr>
      | _ \<Rightarrow> ix)"

definition index_build :: "nat \<Rightarrow> walked list \<Rightarrow> file_index" where
  "index_build limit ws =
     (let ix = fold (visit limit) ws \<lparr>ix_entries = [], ix_directories = 0, ix_truncated = False\<rparr>
      in ix\<lparr>ix_entries := order_by (\<lambda>a b. str_less (fe_path a) (fe_path b)) (ix_entries ix)\<rparr>)"

section \<open>Searching it\<close>

text \<open>
  \<open>partition_point\<close> of the standard library: the search by halves between two positions. Of several
  entries of one path \<open>binary_search_by\<close> may give any; \<open>index_get\<close> gives the first.
\<close>

function partition_between :: "('a \<Rightarrow> bool) \<Rightarrow> 'a list \<Rightarrow> nat \<Rightarrow> nat \<Rightarrow> nat" where
  "partition_between p xs lo hi =
     (if lo < hi then
        (let mid = lo + (hi - lo) div 2 in
         if p (xs ! mid) then partition_between p xs (Suc mid) hi else partition_between p xs lo mid)
      else lo)"
  by auto
termination
  by (relation "measure (\<lambda>(p, xs, lo, hi). hi - lo)") auto

declare partition_between.simps [simp del]

definition partition_point :: "('a \<Rightarrow> bool) \<Rightarrow> 'a list \<Rightarrow> nat" where
  "partition_point p xs = partition_between p xs 0 (length xs)"

definition index_get :: "string \<Rightarrow> file_index \<Rightarrow> file_entry option" where
  "index_get path ix =
     (let i = partition_point (\<lambda>e. str_less (fe_path e) path) (ix_entries ix) in
      if i < length (ix_entries ix) \<and> fe_path (ix_entries ix ! i) = path then Some (ix_entries ix ! i) else None)"

definition trim_slashes :: "string \<Rightarrow> string" where
  "trim_slashes s = rev (dropWhile (\<lambda>c. c = CHR ''/'') (rev (dropWhile (\<lambda>c. c = CHR ''/'') s)))"

definition dir_prefix :: "string \<Rightarrow> string" where
  "dir_prefix dir = (let d = trim_slashes dir in if d = [] then [] else d @ ''/'')"

definition index_under :: "string \<Rightarrow> file_index \<Rightarrow> file_entry list" where
  "index_under dir ix =
     (let pre = dir_prefix dir;
          start = partition_point (\<lambda>e. str_less (fe_path e) pre) (ix_entries ix)
      in takeWhile (\<lambda>e. take (length pre) (fe_path e) = pre) (drop start (ix_entries ix)))"

section \<open>What a search finds\<close>

declare str_less_simps [simp] str_less_irrefl [simp]

lemma str_less_prefix: "take (length p) a = p \<Longrightarrow> \<not> str_less a p"
proof (induction p arbitrary: a)
  case (Cons x p)
  then show ?case by (cases a) auto
qed simp

text \<open>Between a prefix and a string that has it, every string has it.\<close>

lemma prefix_between:
  "\<not> str_less b p \<Longrightarrow> \<not> str_less c b \<Longrightarrow> take (length p) c = p \<Longrightarrow> take (length p) b = p"
proof (induction p arbitrary: b c)
  case (Cons x p)
  then obtain c' where c: "c = x # c'" "take (length p) c' = p" by (cases c) auto
  obtain y b' where b: "b = y # b'" using Cons.prems(1) by (cases b) auto
  have "x = y" using Cons.prems(1,2) by (auto simp: b c)
  with Cons.IH [of b' c'] Cons.prems c show ?case by (simp add: b)
qed simp

lemma partition_between_finds:
  assumes down: "\<And>i j. i \<le> j \<Longrightarrow> j < n \<Longrightarrow> p (xs ! j) \<Longrightarrow> p (xs ! i)"
  shows "lo \<le> hi \<Longrightarrow> hi \<le> n \<Longrightarrow> \<forall>i<lo. p (xs ! i) \<Longrightarrow> \<forall>i. hi \<le> i \<and> i < n \<longrightarrow> \<not> p (xs ! i) \<Longrightarrow>
    partition_between p xs lo hi \<le> n \<and> (\<forall>i<partition_between p xs lo hi. p (xs ! i)) \<and>
    (\<forall>i. partition_between p xs lo hi \<le> i \<and> i < n \<longrightarrow> \<not> p (xs ! i))"
proof (induction "hi - lo" arbitrary: lo hi rule: less_induct)
  case less
  show ?case
  proof (cases "lo < hi")
    case True
    define mid where "mid = lo + (hi - lo) div 2"
    have mid: "lo \<le> mid" "mid < hi" using True by (auto simp: mid_def)
    show ?thesis
    proof (cases "p (xs ! mid)")
      case p: True
      have "\<forall>i<Suc mid. p (xs ! i)" using down [of _ mid] p mid less.prems(2) by (simp add: less_Suc_eq_le)
      with less.hyps [of hi "Suc mid"] mid less.prems p True show ?thesis
        by (simp add: partition_between.simps [of p xs lo hi] flip: mid_def)
    next
      case p: False
      have "\<forall>i. mid \<le> i \<and> i < n \<longrightarrow> \<not> p (xs ! i)" using down [of mid] p by blast
      with less.hyps [of mid lo] mid less.prems p True show ?thesis
        by (simp add: partition_between.simps [of p xs lo hi] flip: mid_def)
    qed
  next
    case False
    with less.prems have "lo = hi" by simp
    with less.prems show ?thesis by (simp add: partition_between.simps [of p xs hi hi])
  qed
qed

text \<open>On a list the test splits, the point is where its true part ends.\<close>

lemma partition_point_sorted:
  assumes "\<And>i j. i \<le> j \<Longrightarrow> j < length xs \<Longrightarrow> p (xs ! j) \<Longrightarrow> p (xs ! i)"
  shows "partition_point p xs \<le> length xs" and "filter p xs = take (partition_point p xs) xs"
    and "filter (\<lambda>x. \<not> p x) xs = drop (partition_point p xs) xs"
proof -
  let ?k = "partition_point p xs"
  have "?k \<le> length xs \<and> (\<forall>i<?k. p (xs ! i)) \<and> (\<forall>i. ?k \<le> i \<and> i < length xs \<longrightarrow> \<not> p (xs ! i))"
    unfolding partition_point_def
    by (rule partition_between_finds [of "length xs" p xs 0 "length xs", OF assms le0 le_refl]) auto
  then have k: "?k \<le> length xs" "\<forall>i<?k. p (xs ! i)" "\<forall>i. ?k \<le> i \<and> i < length xs \<longrightarrow> \<not> p (xs ! i)"
    by blast+
  have "\<forall>x\<in>set (take ?k xs). p x" using k(1,2) by (fastforce simp: in_set_conv_nth)
  moreover have "\<forall>x\<in>set (drop ?k xs). \<not> p x" using k(1,3) by (fastforce simp: in_set_conv_nth)
  moreover have "filter q xs = filter q (take ?k xs) @ filter q (drop ?k xs)" for q
    by (simp flip: filter_append)
  ultimately show "filter p xs = take ?k xs" "filter (\<lambda>x. \<not> p x) xs = drop ?k xs" by simp_all
  show "?k \<le> length xs" by (fact k(1))
qed

text \<open>Insertion sort: sorted, and the same elements.\<close>

lemma order_by_sorted:
  assumes trans: "\<And>x y z. lt x y \<Longrightarrow> lt y z \<Longrightarrow> lt x z" and asym: "\<And>x y. lt x y \<Longrightarrow> \<not> lt y x"
    and linear: "\<And>x y z. lt x y \<Longrightarrow> lt x z \<or> lt z y"
  shows "sorted_wrt (\<lambda>x y. \<not> lt y x) (order_by lt xs)"
proof -
  have set: "set (insert_by lt x ys) = insert x (set ys)" for x ys by (induction ys) auto
  have "sorted_wrt (\<lambda>x y. \<not> lt y x) ys \<Longrightarrow> sorted_wrt (\<lambda>x y. \<not> lt y x) (insert_by lt x ys)" for x ys
    by (induction ys) (auto simp: set dest: asym linear trans)
  then show ?thesis by (induction xs) (simp_all add: order_by_def)
qed

lemma mset_order_by: "mset (order_by lt xs) = mset xs"
proof -
  have "mset (insert_by lt x ys) = add_mset x (mset ys)" for x ys by (induction ys) auto
  then show ?thesis by (induction xs) (simp_all add: order_by_def)
qed

lemma index_sorted: "sorted_wrt (\<lambda>x y. \<not> str_less (fe_path y) (fe_path x)) (ix_entries (index_build limit ws))"
  unfolding index_build_def Let_def
  by (simp, rule order_by_sorted) (use str_less_trans str_less_asym str_less_linear in metis)+

lemma index_split:
  assumes "sorted_wrt (\<lambda>x y. \<not> str_less (fe_path y) (fe_path x)) es"
  shows "i \<le> j \<Longrightarrow> j < length es \<Longrightarrow> str_less (fe_path (es ! j)) q \<Longrightarrow> str_less (fe_path (es ! i)) q"
proof -
  assume h: "i \<le> j" "j < length es" "str_less (fe_path (es ! j)) q"
  then have "\<not> str_less (fe_path (es ! j)) (fe_path (es ! i))"
    using sorted_wrt_nth_less [OF assms] by (cases "i = j") auto
  with h(3) show ?thesis using str_less_linear str_less_trans by metis
qed

lemma index_point:
  assumes "sorted_wrt (\<lambda>x y. \<not> str_less (fe_path y) (fe_path x)) es"
  shows "filter (\<lambda>e. str_less (fe_path e) q) es = take (partition_point (\<lambda>e. str_less (fe_path e) q) es) es"
    and "filter (\<lambda>e. \<not> str_less (fe_path e) q) es = drop (partition_point (\<lambda>e. str_less (fe_path e) q) es) es"
  by (rule partition_point_sorted(2,3), erule (2) index_split [OF assms])+

text \<open>In a sorted list that starts at or after a prefix, the entries that have it come first.\<close>

lemma take_prefixed:
  assumes "sorted_wrt (\<lambda>x y. \<not> str_less (fe_path y) (fe_path x)) es" and "\<forall>e\<in>set es. \<not> str_less (fe_path e) pre"
  shows "takeWhile (\<lambda>e. take (length pre) (fe_path e) = pre) es = filter (\<lambda>e. take (length pre) (fe_path e) = pre) es"
  using assms
proof (induction es)
  case (Cons e es)
  show ?case
  proof (cases "take (length pre) (fe_path e) = pre")
    case True
    with Cons show ?thesis by simp
  next
    case False
    then have "take (length pre) (fe_path c) \<noteq> pre" if "c \<in> set es" for c
      using prefix_between [of "fe_path e" pre "fe_path c"] Cons.prems that by auto
    with False show ?thesis by simp
  qed
qed simp

lemma index_under_filter:
  assumes "sorted_wrt (\<lambda>x y. \<not> str_less (fe_path y) (fe_path x)) (ix_entries ix)"
  shows "index_under dir ix = filter (\<lambda>e. take (length (dir_prefix dir)) (fe_path e) = dir_prefix dir) (ix_entries ix)"
proof -
  let ?pre = "dir_prefix dir" and ?es = "ix_entries ix"
  let ?q = "\<lambda>e. take (length ?pre) (fe_path e) = ?pre" and ?rest = "filter (\<lambda>e. \<not> str_less (fe_path e) ?pre) ?es"
  have "drop (partition_point (\<lambda>e. str_less (fe_path e) ?pre) ?es) ?es = ?rest"
    using index_point(2) [OF assms] by simp
  moreover have "sorted_wrt (\<lambda>x y. \<not> str_less (fe_path y) (fe_path x)) ?rest"
    using assms by (rule sorted_wrt_filter)
  ultimately have "index_under dir ix = filter ?q ?rest"
    unfolding index_under_def Let_def by (simp add: take_prefixed)
  also have "\<dots> = filter ?q ?es"
    unfolding filter_filter by (rule filter_cong) (use str_less_prefix in auto)
  finally show ?thesis .
qed

lemma index_get_find:
  assumes "sorted_wrt (\<lambda>x y. \<not> str_less (fe_path y) (fe_path x)) (ix_entries ix)"
  shows "index_get path ix = find (\<lambda>e. fe_path e = path) (ix_entries ix)"
proof -
  let ?es = "ix_entries ix" and ?p = "\<lambda>e. str_less (fe_path e) path"
  let ?k = "partition_point ?p ?es"
  note pt = index_point [OF assms, of path]
  have small: "\<forall>e\<in>set (take ?k ?es). fe_path e \<noteq> path"
  proof
    fix e assume "e \<in> set (take ?k ?es)"
    then have "e \<in> set (filter ?p ?es)" unfolding pt(1) .
    then show "fe_path e \<noteq> path" by auto
  qed
  have "find (\<lambda>e. fe_path e = path) (xs @ ys) = find (\<lambda>e. fe_path e = path) ys"
    if "\<forall>e\<in>set xs. fe_path e \<noteq> path" for xs ys using that by (induction xs) auto
  from this [OF small, of "drop ?k ?es"] have find: "find (\<lambda>e. fe_path e = path) ?es = find (\<lambda>e. fe_path e = path) (drop ?k ?es)"
    by simp
  show ?thesis
  proof (cases "?k < length ?es")
    case True
    then have d: "drop ?k ?es = ?es ! ?k # drop (Suc ?k) ?es" by (simp add: Cons_nth_drop_Suc)
    show ?thesis
    proof (cases "fe_path (?es ! ?k) = path")
      case True
      with d find \<open>?k < length ?es\<close> show ?thesis by (simp add: index_get_def)
    next
      case False
      have "?es ! ?k \<in> set (drop ?k ?es)" using d by simp
      then have "?es ! ?k \<in> set (filter (\<lambda>e. \<not> ?p e) ?es)" unfolding pt(2) .
      then have "\<not> ?p (?es ! ?k)" by simp
      with False have above: "str_less path (fe_path (?es ! ?k))" using str_less_linear by blast
      have "fe_path e \<noteq> path" if "e \<in> set (drop (Suc ?k) ?es)" for e
      proof -
        from that obtain i where "i < length ?es - Suc ?k" "e = ?es ! (Suc ?k + i)"
          by (auto simp: in_set_conv_nth)
        then obtain j where "?k < j" "j < length ?es" "e = ?es ! j" by (intro that [of "Suc ?k + i"]) auto
        with sorted_wrt_nth_less [OF assms] above show ?thesis by auto
      qed
      then have "find (\<lambda>e. fe_path e = path) (drop (Suc ?k) ?es) = None" by (simp add: find_None_iff)
      with False d find show ?thesis by (simp add: index_get_def Let_def)
    qed
  next
    case False
    with find show ?thesis by (simp add: index_get_def Let_def)
  qed
qed

text \<open>The files the walk brought.\<close>

definition walked_files :: "walked list \<Rightarrow> file_entry list" where
  "walked_files ws = List.map_filter (\<lambda>w. case w of WalkFile rel len t \<Rightarrow> Some (visited_file rel len t) | _ \<Rightarrow> None) ws"

lemma walked_files_simps [simp]:
  "walked_files [] = []" "walked_files (WalkFile rel len t # ws) = visited_file rel len t # walked_files ws"
  "walked_files (WalkError # ws) = walked_files ws" "walked_files (WalkRoot # ws) = walked_files ws"
  "walked_files (WalkUntyped # ws) = walked_files ws" "walked_files (WalkDir # ws) = walked_files ws"
  "walked_files (WalkOther # ws) = walked_files ws"
  by (simp_all add: walked_files_def map_filter_simps)

lemma visited:
  "fold (visit limit) ws ix =
     \<lparr>ix_entries = ix_entries ix @ take (limit - length (ix_entries ix)) (walked_files ws),
      ix_directories = ix_directories ix + length (filter (\<lambda>w. w = WalkDir) ws),
      ix_truncated = (ix_truncated ix \<or> (walked_files ws \<noteq> [] \<and> limit < length (ix_entries ix) + length (walked_files ws)))\<rparr>"
proof (induction ws arbitrary: ix)
  case Nil
  then show ?case by simp
next
  case (Cons w ws)
  show ?case
  proof (cases w)
    case (WalkFile rel len t)
    show ?thesis
    proof (cases "limit \<le> length (ix_entries ix)")
      case True
      have "visit limit w ix = ix\<lparr>ix_truncated := True\<rparr>" using True by (simp add: visit_def WalkFile)
      with True show ?thesis by (auto simp: Cons.IH WalkFile)
    next
      case False
      then obtain k where "limit - length (ix_entries ix) = Suc k" "limit - Suc (length (ix_entries ix)) = k"
        by (metis Suc_diff_Suc diff_Suc_1 not_le)
      moreover have "visit limit w ix = ix\<lparr>ix_entries := ix_entries ix @ [visited_file rel len t]\<rparr>"
        using False by (simp add: visit_def WalkFile)
      ultimately show ?thesis using False by (auto simp: Cons.IH WalkFile)
    qed
  qed (simp_all add: Cons.IH, simp_all add: visit_def)
qed


end
