(* ===== verification/Workspace_Git.thy ===== *)
theory Workspace_Git
  imports Tool_Pump Workspace_Index
begin

text \<open>
  Git as the harness sees it: \<open>crates/core/src/workspace/git/status.rs\<close> (the porcelain status parsed),
  \<open>git/run.rs\<close> (what a finished \<open>git\<close> process becomes) and \<open>git/mod.rs\<close> (\<open>HEAD\<close> read from the files
  under \<open>.git\<close>). What the process printed and which files there are is given as functions.
\<close>

section \<open>Strings\<close>

definition splits_at :: "char \<Rightarrow> string \<Rightarrow> (string \<times> string) option" where
  "splits_at c s =
     (if c \<in> set s then Some (takeWhile (\<lambda>x. x \<noteq> c) s, tl (dropWhile (\<lambda>x. x \<noteq> c) s)) else None)"

text \<open>\<open>s.splitn(n, c)\<close>: at most \<open>n\<close> parts.\<close>

fun splitn :: "nat \<Rightarrow> char \<Rightarrow> string \<Rightarrow> string list" where
  "splitn 0 c s = []"
| "splitn (Suc 0) c s = [s]"
| "splitn (Suc (Suc n)) c s = (case splits_at c s of None \<Rightarrow> [s] | Some (a, b) \<Rightarrow> a # splitn (Suc n) c b)"

text \<open>Element \<open>n\<close> of what an iterator still has.\<close>

definition iter_nth :: "nat \<Rightarrow> 'a list \<Rightarrow> 'a option" where
  "iter_nth n xs = (if n < length xs then Some (xs ! n) else None)"

section \<open>The status\<close>

record git_entry =
  gy_path :: string
  gy_orig_path :: "string option"
  gy_index :: string
  gy_worktree :: string
  gy_unmerged :: bool
  gy_untracked :: bool

record git_status =
  gs_head :: "string option"
  gs_branch :: "string option"
  gs_upstream :: "string option"
  gs_ahead :: nat
  gs_behind :: nat
  gs_entries :: "git_entry list"

definition git_status_empty :: git_status where
  "git_status_empty = \<lparr>gs_head = None, gs_branch = None, gs_upstream = None, gs_ahead = 0, gs_behind = 0, gs_entries = []\<rparr>"

definition is_staged :: "git_entry \<Rightarrow> bool" where
  "is_staged e \<longleftrightarrow> \<not> gy_unmerged e \<and> \<not> gy_untracked e \<and> gy_index e \<noteq> ''.''"

definition is_unstaged :: "git_entry \<Rightarrow> bool" where
  "is_unstaged e \<longleftrightarrow> \<not> gy_unmerged e \<and> \<not> gy_untracked e \<and> gy_worktree e \<noteq> ''.''"

definition status_dirty :: "git_status \<Rightarrow> bool" where
  "status_dirty st \<longleftrightarrow> (\<exists>e\<in>set (gs_entries st). \<not> gy_untracked e)"

definition status_clean :: "git_status \<Rightarrow> bool" where
  "status_clean st \<longleftrightarrow> gs_entries st = []"

definition status_untracked :: "git_status \<Rightarrow> git_entry list" where
  "status_untracked st = filter gy_untracked (gs_entries st)"

definition restrict_entry :: "string \<Rightarrow> git_entry \<Rightarrow> git_entry option" where
  "restrict_entry pre e =
     (case strip_prefix (gy_path e) pre of
        None \<Rightarrow> None
      | Some rel \<Rightarrow>
          if rel = [] then None
          else Some (e\<lparr>gy_path := rel,
            gy_orig_path := map_option (\<lambda>q. case strip_prefix q pre of Some r \<Rightarrow> r | None \<Rightarrow> q) (gy_orig_path e)\<rparr>))"

definition status_restrict :: "string \<Rightarrow> git_status \<Rightarrow> git_status \<times> nat" where
  "status_restrict pre st =
     (if pre = [] then (st, 0)
      else (let kept = List.map_filter (restrict_entry pre) (gs_entries st)
            in (st\<lparr>gs_entries := kept\<rparr>, length (gs_entries st) - length kept)))"

text \<open>The first two characters of the state, a point for one that is missing.\<close>

definition first_char :: "string \<Rightarrow> string" where
  "first_char s = (if s = [] then ''.'' else take_chars 1 s)"

definition entry_of :: "string \<Rightarrow> string option \<Rightarrow> string \<Rightarrow> bool \<Rightarrow> git_entry" where
  "entry_of path orig xy unmerged =
     \<lparr>gy_path = path, gy_orig_path = orig, gy_index = first_char xy,
      gy_worktree = first_char (drop (length (take_chars 1 xy)) xy), gy_unmerged = unmerged, gy_untracked = False\<rparr>"

definition untracked_entry :: "string \<Rightarrow> git_entry" where
  "untracked_entry path =
     \<lparr>gy_path = path, gy_orig_path = None, gy_index = ''.'', gy_worktree = ''.'', gy_unmerged = False, gy_untracked = True\<rparr>"

definition count_or_zero :: "string \<Rightarrow> nat" where
  "count_or_zero s = (case parse_u64 s of Some n \<Rightarrow> n | None \<Rightarrow> 0)"

definition ahead_behind :: "string \<Rightarrow> git_status \<Rightarrow> git_status" where
  "ahead_behind part st =
     (case strip_prefix part ''+'' of
        Some n \<Rightarrow> st\<lparr>gs_ahead := count_or_zero n\<rparr>
      | None \<Rightarrow> (case strip_prefix part ''-'' of Some n \<Rightarrow> st\<lparr>gs_behind := count_or_zero n\<rparr> | None \<Rightarrow> st))"

definition parse_header :: "string \<Rightarrow> git_status \<Rightarrow> git_status" where
  "parse_header header st =
     (case splits_at (CHR '' '') header of
        None \<Rightarrow> st
      | Some (key, v) \<Rightarrow>
          if key = ''branch.oid'' then st\<lparr>gs_head := (if v \<noteq> ''(initial)'' then Some v else None)\<rparr>
          else if key = ''branch.head'' then st\<lparr>gs_branch := (if v \<noteq> ''(detached)'' then Some v else None)\<rparr>
          else if key = ''branch.upstream'' then st\<lparr>gs_upstream := Some v\<rparr>
          else if key = ''branch.ab'' then fold ahead_behind (split_on (CHR '' '') v) st
          else st)"

definition add_entry :: "git_entry \<Rightarrow> git_status \<Rightarrow> git_status" where
  "add_entry e st = st\<lparr>gs_entries := gs_entries st @ [e]\<rparr>"

text \<open>
  The fields of a changed, a renamed and an unmerged entry: the state first, the path last. The
  original path of a rename is the next record.
\<close>

definition entry_fields :: "nat \<Rightarrow> string \<Rightarrow> (string \<times> string) option" where
  "entry_fields n rest =
     (let f = splitn n (CHR '' '') rest in
      case (iter_nth 0 f, iter_nth (n - 1) f) of (Some xy, Some path) \<Rightarrow> Some (xy, path) | _ \<Rightarrow> None)"

function parse_records :: "string list \<Rightarrow> git_status \<Rightarrow> git_status" where
  "parse_records [] st = st"
| "parse_records (r # rs) st =
     (case strip_prefix r ''# '' of
        Some header \<Rightarrow> parse_records rs (parse_header header st)
      | None \<Rightarrow>
          (case splits_at (CHR '' '') r of
             None \<Rightarrow> parse_records rs st
           | Some (kind, rest) \<Rightarrow>
               if kind = ''1'' then
                 (case entry_fields 8 rest of
                    None \<Rightarrow> parse_records rs st
                  | Some (xy, path) \<Rightarrow> parse_records rs (add_entry (entry_of path None xy False) st))
               else if kind = ''2'' then
                 (case entry_fields 9 rest of
                    None \<Rightarrow> parse_records rs st
                  | Some (xy, path) \<Rightarrow>
                      (case rs of
                         [] \<Rightarrow> add_entry (entry_of path None xy False) st
                       | orig # rs' \<Rightarrow> parse_records rs' (add_entry (entry_of path (Some orig) xy False) st)))
               else if kind = ''u'' then
                 (case entry_fields 10 rest of
                    None \<Rightarrow> parse_records rs st
                  | Some (xy, path) \<Rightarrow> parse_records rs (add_entry (entry_of path None xy True) st))
               else if kind = ''?'' then parse_records rs (add_entry (untracked_entry rest) st)
               else parse_records rs st))"
  by pat_completeness auto
termination
  by (relation "measure (\<lambda>(rs, st). length rs)") auto

definition parse_status :: "string \<Rightarrow> git_status" where
  "parse_status bytes =
     parse_records (map utf8_lossy (filter (\<lambda>r. r \<noteq> []) (split_on (CHR 0x00) bytes))) git_status_empty"

section \<open>A git process\<close>

datatype git_error =
    GitNotAvailable
  | GitNotARepo string
  | GitTimedOut string
  | GitFailed string "int option" string
  | GitIo string

definition show_code :: "int \<Rightarrow> string" where
  "show_code n = (if n < 0 then ''-'' @ show_nat (nat (- n)) else show_nat (nat n))"

definition git_error_str :: "git_error \<Rightarrow> string" where
  "git_error_str e =
     (case e of
        GitNotAvailable \<Rightarrow> ''git is not available (no `git` on PATH)''
      | GitNotARepo root \<Rightarrow> ''`'' @ root @ ''` is not a git repository''
      | GitTimedOut args \<Rightarrow> ''`git '' @ args @ ''` did not finish within 30s''
      | GitFailed args code err \<Rightarrow>
          ''`git '' @ args @ ''` failed'' @ (case code of Some c \<Rightarrow> '' (exit '' @ show_code c @ '')'' | None \<Rightarrow> [])
            @ '': '' @ err
      | GitIo m \<Rightarrow> ''cannot run git: '' @ m)"

definition git_error_kind :: "git_error \<Rightarrow> string" where
  "git_error_kind e =
     (case e of
        GitNotAvailable \<Rightarrow> ''not_available'' | GitNotARepo _ \<Rightarrow> ''not_a_repo'' | GitTimedOut _ \<Rightarrow> ''timed_out''
      | GitFailed _ _ _ \<Rightarrow> ''failed'' | GitIo _ \<Rightarrow> ''io'')"

record git_output =
  go_stdout :: string
  go_stderr :: string
  go_truncated :: bool

text \<open>
  What becomes of starting \<open>git\<close>: the error kinds of the spawn, the time limit, or the pieces read
  from both pipes and the exit code (none for a signal).
\<close>

datatype git_spawn = NoBinary | SpawnError string | RanTooLong | WaitError string | GitRan "string list" "string list" "int option"

definition stderr_max :: nat where
  "stderr_max = 16384"

definition keep_stderr :: "string \<Rightarrow> string \<Rightarrow> string" where
  "keep_stderr piece err = (if length err < stderr_max then err @ take (stderr_max - length err) piece else err)"

definition git_run :: "(string \<Rightarrow> string list \<Rightarrow> git_spawn) \<Rightarrow> string \<Rightarrow> string list \<Rightarrow> nat \<Rightarrow> git_error + git_output" where
  "git_run git cwd args max_stdout =
     (let shown = join_with '' '' args in
      case git cwd args of
        NoBinary \<Rightarrow> Inl GitNotAvailable
      | SpawnError m \<Rightarrow> Inl (GitIo m)
      | RanTooLong \<Rightarrow> Inl (GitTimedOut shown)
      | WaitError m \<Rightarrow> Inl (GitIo m)
      | GitRan outs errs code \<Rightarrow>
          (let err = trim (utf8_lossy (fold keep_stderr errs []));
               out = fold capture_push outs (capture_new max_stdout)
           in if code \<noteq> Some 0 then
                (if contains_str err ''not a git repository'' then Inl (GitNotARepo (utf8_lossy cwd))
                 else Inl (GitFailed shown code err))
              else Inr \<lparr>go_stdout = capture_render (\<lambda>n. [newline] @ ''[... '' @ show_nat n @ '' bytes omitted]'' @ [newline]) out,
                        go_stderr = err, go_truncated = capture_truncated out\<rparr>))"

record git_repo =
  gp_root :: string
  gp_prefix :: string

definition repo_open :: "(string \<Rightarrow> string list \<Rightarrow> git_spawn) \<Rightarrow> string \<Rightarrow> git_error + git_repo" where
  "repo_open git root =
     res_bind (git_run git root [''rev-parse'', ''--show-prefix''] 4096) (\<lambda>out.
       Inr \<lparr>gp_root = root, gp_prefix = replace_char (CHR 0x5C) (CHR ''/'') (trim (utf8_lossy (go_stdout out)))\<rparr>)"

definition repo_run :: "(string \<Rightarrow> string list \<Rightarrow> git_spawn) \<Rightarrow> git_repo \<Rightarrow> string list \<Rightarrow> nat \<Rightarrow> git_error + git_output" where
  "repo_run git repo args max_stdout = git_run git (gp_root repo) args max_stdout"

definition repo_relative :: "git_repo \<Rightarrow> string \<Rightarrow> string option" where
  "repo_relative repo top_relative =
     (case strip_prefix top_relative (gp_prefix repo) of
        Some p \<Rightarrow> if p = [] then None else Some p | None \<Rightarrow> None)"

section \<open>HEAD from the files\<close>

record git_head =
  gh_commit :: "string option"
  gh_branch :: "string option"

text \<open>The files: a directory or not, the text of a file when it is one and is UTF-8.\<close>

record git_files =
  gf_is_dir :: "string \<Rightarrow> bool"
  gf_read :: "string \<Rightarrow> string option"

definition join_path :: "string \<Rightarrow> string \<Rightarrow> string" where
  "join_path base p =
     (if take 1 p = ''/'' then p else if base = [] \<or> last base = CHR ''/'' then base @ p else base @ ''/'' @ p)"

definition git_dir :: "git_files \<Rightarrow> string \<Rightarrow> string option" where
  "git_dir fs root =
     (let dot_git = join_path root ''.git'' in
      if gf_is_dir fs dot_git then Some dot_git
      else Option.bind (gf_read fs dot_git) (\<lambda>t.
           Option.bind (strip_prefix (trim t) ''gitdir:'') (\<lambda>target.
           let dir = join_path root (trim target) in if gf_is_dir fs dir then Some dir else None)))"

definition packed_hash :: "string \<Rightarrow> string \<Rightarrow> string option" where
  "packed_hash reference l =
     (case splits_at (CHR '' '') l of
        Some (hash, name) \<Rightarrow> if trim name = reference then Some (trim hash) else None
      | None \<Rightarrow> None)"

definition resolve_ref :: "git_files \<Rightarrow> string \<Rightarrow> string \<Rightarrow> string option" where
  "resolve_ref fs dir reference =
     (let common = (case gf_read fs (join_path dir ''commondir'') of
            None \<Rightarrow> dir | Some s \<Rightarrow> join_path dir (trim s));
          loose = (case gf_read fs (join_path common reference) of
            Some t \<Rightarrow> if trim t = [] then None else Some (trim t) | None \<Rightarrow> None)
      in case loose of
           Some h \<Rightarrow> Some h
         | None \<Rightarrow>
             Option.bind (gf_read fs (join_path common ''packed-refs'')) (\<lambda>packed.
               (case List.map_filter (packed_hash reference)
                       (filter (\<lambda>l. take 1 l \<noteq> ''#'' \<and> take 1 l \<noteq> ''^'') (lines_of packed)) of
                  h # _ \<Rightarrow> Some h | [] \<Rightarrow> None)))"

definition hex_digit :: "char \<Rightarrow> bool" where
  "hex_digit c =
     (let n = (of_char c :: nat) in 48 \<le> n \<and> n \<le> 57 \<or> 65 \<le> n \<and> n \<le> 70 \<or> 97 \<le> n \<and> n \<le> 102)"

definition git_head_of :: "git_files \<Rightarrow> string \<Rightarrow> git_head option" where
  "git_head_of fs root =
     Option.bind (git_dir fs root) (\<lambda>dir.
     Option.bind (gf_read fs (join_path dir ''HEAD'')) (\<lambda>t.
     let head = trim t in
     case strip_prefix head ''ref:'' of
       Some r \<Rightarrow>
         (let reference = trim r in
          Some \<lparr>gh_commit = resolve_ref fs dir reference, gh_branch = strip_prefix reference ''refs/heads/''\<rparr>)
     | None \<Rightarrow>
         if head \<noteq> [] \<and> list_all hex_digit head then Some \<lparr>gh_commit = Some head, gh_branch = None\<rparr> else None))"

definition dirty_status_max :: nat where
  "dirty_status_max = 8 * 1024 * 1024"

definition git_dirty :: "git_files \<Rightarrow> (string \<Rightarrow> string list \<Rightarrow> git_spawn) \<Rightarrow> string \<Rightarrow> bool option" where
  "git_dirty fs git root =
     (case git_head_of fs root of
        None \<Rightarrow> None
      | Some _ \<Rightarrow>
          (case repo_open git root of
             Inl _ \<Rightarrow> None
           | Inr repo \<Rightarrow>
               (case repo_run git repo [''status'', ''--porcelain=v2'', ''-z'', ''--untracked-files=normal''] dirty_status_max of
                  Inl _ \<Rightarrow> None
                | Inr out \<Rightarrow> Some (\<not> status_clean (fst (status_restrict (gp_prefix repo) (parse_status (go_stdout out))))))))"

section \<open>The status is read back\<close>

text \<open>
  The format of \<open>git status --porcelain=v2 -z\<close>, as git documents it: records ended by a zero byte;
  the fields of an entry separated by blanks, its path last and verbatim, the original path of a
  rename a record of its own.
\<close>

datatype status_line =
    ChangedLine string "string list" string
  | RenamedLine string "string list" string string
  | UnmergedLine string "string list" string
  | UntrackedLine string

definition words_then :: "string list \<Rightarrow> string \<Rightarrow> string" where
  "words_then ws path = concat (map (\<lambda>w. w @ '' '') ws) @ path"

definition line_records :: "status_line \<Rightarrow> string list" where
  "line_records l =
     (case l of
        ChangedLine xy meta path \<Rightarrow> [''1 '' @ words_then (xy # meta) path]
      | RenamedLine xy meta path orig \<Rightarrow> [''2 '' @ words_then (xy # meta) path, orig]
      | UnmergedLine xy meta path \<Rightarrow> [''u '' @ words_then (xy # meta) path]
      | UntrackedLine path \<Rightarrow> [''? '' @ path])"

definition line_entry :: "status_line \<Rightarrow> git_entry" where
  "line_entry l =
     (case l of
        ChangedLine xy meta path \<Rightarrow> entry_of path None xy False
      | RenamedLine xy meta path orig \<Rightarrow> entry_of path (Some orig) xy False
      | UnmergedLine xy meta path \<Rightarrow> entry_of path None xy True
      | UntrackedLine path \<Rightarrow> untracked_entry path)"

definition line_ok :: "status_line \<Rightarrow> bool" where
  "line_ok l \<longleftrightarrow> list_all (\<lambda>r. r \<noteq> [] \<and> CHR 0x00 \<notin> set r \<and> utf8_valid r) (line_records l) \<and>
     (case l of
        ChangedLine xy meta _ \<Rightarrow> length meta = 6 \<and> list_all (\<lambda>w. CHR '' '' \<notin> set w) (xy # meta)
      | RenamedLine xy meta _ _ \<Rightarrow> length meta = 7 \<and> list_all (\<lambda>w. CHR '' '' \<notin> set w) (xy # meta)
      | UnmergedLine xy meta _ \<Rightarrow> length meta = 8 \<and> list_all (\<lambda>w. CHR '' '' \<notin> set w) (xy # meta)
      | UntrackedLine _ \<Rightarrow> True)"

definition print_status :: "status_line list \<Rightarrow> string" where
  "print_status ls = concat (map (\<lambda>r. r @ [CHR 0x00]) (concat (map line_records ls)))"

lemma split_on_ended:
  "list_all (\<lambda>r. c \<notin> set r) rs \<Longrightarrow> split_on c (concat (map (\<lambda>r. r @ [c]) rs)) = rs @ [[]]"
proof (induction rs)
  case (Cons r rs)
  have "c \<notin> set r \<Longrightarrow> split_on c (r @ c # s) = r # split_on c s" for s by (induction r) auto
  with Cons show ?case by simp
qed simp

lemma splits_at_word: "c \<notin> set w \<Longrightarrow> splits_at c (w @ c # s) = Some (w, s)"
proof -
  assume "c \<notin> set w"
  then have "takeWhile (\<lambda>x. x \<noteq> c) (w @ c # s) = w" "dropWhile (\<lambda>x. x \<noteq> c) (w @ c # s) = c # s"
    by (induction w) auto
  then show ?thesis by (simp add: splits_at_def)
qed

lemma splitn_words:
  "list_all (\<lambda>w. CHR '' '' \<notin> set w) ws \<Longrightarrow> splitn (Suc (length ws)) (CHR '' '') (words_then ws path) = ws @ [path]"
proof (induction ws)
  case (Cons w ws)
  then show ?case using splits_at_word [of "CHR '' ''" w "words_then ws path"] by (simp add: words_then_def)
qed (simp add: words_then_def)

lemma entry_fields_words:
  assumes "list_all (\<lambda>w. CHR '' '' \<notin> set w) (xy # meta)" "n = Suc (Suc (length meta))"
  shows "entry_fields n (words_then (xy # meta) path) = Some (xy, path)"
  using splitn_words [OF assms(1), of path] by (simp add: entry_fields_def iter_nth_def assms(2) nth_append)

lemma parse_line:
  assumes "line_ok l"
  shows "parse_records (line_records l @ rs) st = parse_records rs (add_entry (line_entry l) st)"
proof -
  have kind: "splits_at (CHR '' '') (k # CHR '' '' # s) = Some ([k], s)" if "k \<noteq> CHR '' ''" for k s
    using splits_at_word [of "CHR '' ''" "[k]" s] that by simp
  show ?thesis
  proof (cases l)
    case (ChangedLine xy meta path)
    with assms entry_fields_words [of xy meta 8 path] show ?thesis
      by (simp add: line_ok_def line_records_def line_entry_def strip_prefix_def kind)
  next
    case (RenamedLine xy meta path orig)
    with assms entry_fields_words [of xy meta 9 path] show ?thesis
      by (simp add: line_ok_def line_records_def line_entry_def strip_prefix_def kind)
  next
    case (UnmergedLine xy meta path)
    with assms entry_fields_words [of xy meta 10 path] show ?thesis
      by (simp add: line_ok_def line_records_def line_entry_def strip_prefix_def kind)
  next
    case (UntrackedLine path)
    then show ?thesis by (simp add: line_records_def line_entry_def strip_prefix_def kind)
  qed
qed



end
