(* ===== verification/Workspace_Snapshot.thy ===== *)
theory Workspace_Snapshot
  imports Workspace_Git Trace_Queries
begin

text \<open>
  \<open>crates/core/src/workspace/snapshot.rs\<close>: what the tree looked like at the start and the end of a
  run, and what changed between; and \<open>crates/core/src/runtime/revert.rs\<close>: whether the changes of the
  previous run have been undone since.
\<close>

section \<open>Snapshots\<close>

datatype snapshot_phase = PhaseStart | PhaseEnd

record git_snapshot =
  gz_head :: "string option"
  gz_branch :: "string option"
  gz_dirty :: bool
  gz_status_hash :: string
  gz_untracked :: "(string \<times> nat) list"
  gz_diff :: "string option"
  gz_diff_truncated :: bool

record index_entry =
  ie_path :: string
  ie_size :: nat
  ie_mtime_ns :: "nat option"

record snapshot =
  sn_git :: "git_snapshot option"
  sn_git_error :: "string option"
  sn_file_count :: nat
  sn_index_truncated :: bool
  sn_index_hash :: string
  sn_took_ms :: nat
  sn_entries :: "index_entry list"

record files_changed =
  fc_changed :: "string list"
  fc_added :: "string list"
  fc_deleted :: "string list"

definition snapshot_diff_max :: nat where
  "snapshot_diff_max = 16 * 1024 * 1024"

definition snapshot_list_max :: nat where
  "snapshot_list_max = 1000"

definition snapshot_status_max :: nat where
  "snapshot_status_max = 64 * 1024 * 1024"

definition path_size_less :: "string \<times> nat \<Rightarrow> string \<times> nat \<Rightarrow> bool" where
  "path_size_less a b \<longleftrightarrow> str_less (fst a) (fst b) \<or> fst a = fst b \<and> snd a < snd b"

definition untracked_sizes :: "(string \<Rightarrow> nat option) \<Rightarrow> git_status \<Rightarrow> (string \<times> nat) list" where
  "untracked_sizes size_of st =
     order_by path_size_less
       (map (\<lambda>e. (gy_path e, case size_of (gy_path e) of Some n \<Rightarrow> n | None \<Rightarrow> 0)) (status_untracked st))"

definition git_snapshot_of ::
  "(string \<Rightarrow> string) \<Rightarrow> (string \<Rightarrow> string list \<Rightarrow> git_spawn) \<Rightarrow> (string \<Rightarrow> nat option) \<Rightarrow> string \<Rightarrow> git_error + git_snapshot" where
  "git_snapshot_of sha git size_of root =
     res_bind (repo_open git root) (\<lambda>repo.
     res_bind (repo_run git repo [''status'', ''--porcelain=v2'', ''-z'', ''--branch'', ''--untracked-files=all''] snapshot_status_max) (\<lambda>out.
     let st = fst (status_restrict (gp_prefix repo) (parse_status (go_stdout out)));
         snap = \<lparr>gz_head = gs_head st, gz_branch = gs_branch st, gz_dirty = status_dirty st,
                 gz_status_hash = sha (go_stdout out), gz_untracked = untracked_sizes size_of st,
                 gz_diff = None, gz_diff_truncated = False\<rparr>
     in if gs_head st = None then Inr snap
        else res_bind (repo_run git repo [''diff'', ''HEAD'', ''--no-color'', ''--no-ext-diff'', ''--relative'', ''--'', ''.''] snapshot_diff_max) (\<lambda>d.
          Inr (snap\<lparr>gz_diff := Some (go_stdout d), gz_diff_truncated := go_truncated d\<rparr>))))"

definition tab :: string where
  "tab = [CHR 0x09]"

definition listing_line :: "index_entry \<Rightarrow> string" where
  "listing_line e =
     ie_path e @ tab @ show_nat (ie_size e) @ tab @ (case ie_mtime_ns e of Some t \<Rightarrow> show_nat t | None \<Rightarrow> []) @ [newline]"

definition index_entry_of :: "file_entry \<Rightarrow> index_entry" where
  "index_entry_of e = \<lparr>ie_path = fe_path e, ie_size = fe_size e, ie_mtime_ns = fe_mtime_ns e\<rparr>"

definition take_snapshot :: "(string \<Rightarrow> string) \<Rightarrow> git_error + git_snapshot \<Rightarrow> file_index \<Rightarrow> nat \<Rightarrow> snapshot" where
  "take_snapshot sha git ix took_ms =
     (let entries = map index_entry_of (ix_entries ix) in
      \<lparr>sn_git = (case git of Inr g \<Rightarrow> Some g | Inl _ \<Rightarrow> None),
       sn_git_error = (case git of Inr _ \<Rightarrow> None | Inl e \<Rightarrow> Some (git_error_str e)),
       sn_file_count = length entries, sn_index_truncated = ix_truncated ix,
       sn_index_hash = sha (concat (map listing_line entries)), sn_took_ms = took_ms, sn_entries = entries\<rparr>)"

definition phase_word :: "snapshot_phase \<Rightarrow> string" where
  "phase_word p = (case p of PhaseStart \<Rightarrow> ''start'' | PhaseEnd \<Rightarrow> ''end'')"

definition snapshot_payload :: "snapshot_phase \<Rightarrow> snapshot \<Rightarrow> json" where
  "snapshot_payload phase sn =
     (let g = sn_git sn in
      jobj ([(''phase'', JStr (phase_word phase)),
        (''git_head'', json_opt JStr (Option.bind g gz_head)),
        (''branch'', json_opt JStr (Option.bind g gz_branch)),
        (''dirty'', json_opt (JBool \<circ> gz_dirty) g),
        (''status_hash'', json_opt (JStr \<circ> gz_status_hash) g),
        (''diff_bytes'', json_opt (\<lambda>d. JInt (int (length d))) (Option.bind g gz_diff)),
        (''diff_truncated'', json_opt (JBool \<circ> gz_diff_truncated) g),
        (''untracked_count'', json_opt (\<lambda>x. JInt (int (length (gz_untracked x)))) g),
        (''untracked'', json_opt (\<lambda>x. JArr (map (\<lambda>(path, n). jobj [(''path'', JStr path), (''bytes'', JInt (int n))])
            (take snapshot_list_max (gz_untracked x)))) g),
        (''file_count'', JInt (int (sn_file_count sn))), (''index_hash'', JStr (sn_index_hash sn)),
        (''index_truncated'', JBool (sn_index_truncated sn)), (''took_ms'', JInt (int (min (sn_took_ms sn) (2 ^ 64 - 1))))]
       @ (case sn_git_error sn of Some e \<Rightarrow> [(''git_error'', JStr e)] | None \<Rightarrow> [])))"

definition diff_media_type :: string where
  "diff_media_type = ''text/x-diff; charset=utf-8''"

definition snapshot_event :: "string \<Rightarrow> string option \<Rightarrow> snapshot_phase \<Rightarrow> snapshot \<Rightarrow> new_event" where
  "snapshot_event session agent phase sn =
     (let ev = event_payload (snapshot_payload phase sn) (event_new session ''workspace.snapshot'');
          ev' = (case agent of Some a \<Rightarrow> event_agent a ev | None \<Rightarrow> ev)
      in case Option.bind (sn_git sn) gz_diff of
           Some d \<Rightarrow> if d \<noteq> [] then event_blob_bytes d diff_media_type ev' else ev'
         | None \<Rightarrow> ev')"

definition snapshot_contains :: "string \<Rightarrow> snapshot \<Rightarrow> bool" where
  "snapshot_contains path sn =
     (let i = partition_point (\<lambda>e. str_less (ie_path e) path) (sn_entries sn)
      in i < length (sn_entries sn) \<and> ie_path (sn_entries sn ! i) = path)"

definition snapshot_untracked :: "snapshot \<Rightarrow> string list" where
  "snapshot_untracked sn = (case sn_git sn of Some g \<Rightarrow> map fst (gz_untracked g) | None \<Rightarrow> [])"

text \<open>\<open>s.rsplit_once(sep)\<close>: around the last place the separator is at.\<close>

fun rsplit_once_str :: "string \<Rightarrow> string \<Rightarrow> (string \<times> string) option" where
  "rsplit_once_str sep [] = None"
| "rsplit_once_str sep (c # s) =
     (case rsplit_once_str sep s of
        Some (a, b) \<Rightarrow> Some (c # a, b)
      | None \<Rightarrow> map_option (\<lambda>b. ([], b)) (strip_prefix (c # s) sep))"

definition diff_paths :: "string \<Rightarrow> string list" where
  "diff_paths d =
     List.map_filter (\<lambda>l. Option.bind (strip_prefix l ''diff --git a/'') (\<lambda>rest. map_option snd (rsplit_once_str '' b/'' rest)))
       (lines_of (utf8_lossy d))"

definition snapshot_diff_paths :: "snapshot \<Rightarrow> string list" where
  "snapshot_diff_paths sn = (case Option.bind (sn_git sn) gz_diff of Some d \<Rightarrow> diff_paths d | None \<Rightarrow> [])"

section \<open>What changed\<close>

text \<open>The merge of the two sorted listings.\<close>

fun changes_between :: "index_entry list \<Rightarrow> index_entry list \<Rightarrow> files_changed" where
  "changes_between [] [] = \<lparr>fc_changed = [], fc_added = [], fc_deleted = []\<rparr>"
| "changes_between (x # xs) [] = (let r = changes_between xs [] in r\<lparr>fc_deleted := ie_path x # fc_deleted r\<rparr>)"
| "changes_between [] (y # ys) = (let r = changes_between [] ys in r\<lparr>fc_added := ie_path y # fc_added r\<rparr>)"
| "changes_between (x # xs) (y # ys) =
     (if str_less (ie_path x) (ie_path y) then
        (let r = changes_between xs (y # ys) in r\<lparr>fc_deleted := ie_path x # fc_deleted r\<rparr>)
      else if str_less (ie_path y) (ie_path x) then
        (let r = changes_between (x # xs) ys in r\<lparr>fc_added := ie_path y # fc_added r\<rparr>)
      else
        (let r = changes_between xs ys in
         if ie_size x \<noteq> ie_size y \<or> ie_mtime_ns x \<noteq> ie_mtime_ns y then r\<lparr>fc_changed := ie_path y # fc_changed r\<rparr> else r))"

definition changes_since :: "snapshot \<Rightarrow> snapshot \<Rightarrow> files_changed" where
  "changes_since before after = changes_between (sn_entries before) (sn_entries after)"

definition no_files_changed :: "files_changed \<Rightarrow> bool" where
  "no_files_changed fc \<longleftrightarrow> fc_changed fc = [] \<and> fc_added fc = [] \<and> fc_deleted fc = []"

definition files_changed_count :: "files_changed \<Rightarrow> nat" where
  "files_changed_count fc = length (fc_changed fc) + length (fc_added fc) + length (fc_deleted fc)"

definition path_list :: "string list \<Rightarrow> json" where
  "path_list ps = JArr (map JStr (take snapshot_list_max ps))"

definition files_changed_outcome :: "files_changed \<Rightarrow> signal" where
  "files_changed_outcome fc =
     (let cut = (\<exists>ps\<in>set [fc_changed fc, fc_added fc, fc_deleted fc]. snapshot_list_max < length ps) in
      \<lparr>sg_kind = ''files_changed'',
       sg_details = jobj ([(''changed'', path_list (fc_changed fc)), (''added'', path_list (fc_added fc)),
         (''deleted'', path_list (fc_deleted fc)),
         (''counts'', jobj [(''changed'', JInt (int (length (fc_changed fc)))),
            (''added'', JInt (int (length (fc_added fc)))), (''deleted'', JInt (int (length (fc_deleted fc))))])]
         @ (if cut then [(''truncated'', JBool True)] else []))\<rparr>)"

definition files_changed_event :: "string \<Rightarrow> string option \<Rightarrow> files_changed \<Rightarrow> new_event" where
  "files_changed_event session agent fc =
     (let ev = event_payload (signal_payload (files_changed_outcome fc)) (event_new session ''outcome'')
      in case agent of Some a \<Rightarrow> event_agent a ev | None \<Rightarrow> ev)"

section \<open>Undone changes\<close>

text \<open>What an end snapshot says of git: \<open>HEAD\<close> and the paths of its diff and its untracked list.\<close>

record end_snapshot =
  es_head :: "string option"
  es_dirty :: "string list"

definition json_items :: "json \<Rightarrow> json list" where
  "json_items v = (case v of JArr xs \<Rightarrow> xs | _ \<Rightarrow> [])"

definition end_snapshot_of :: "store_env \<Rightarrow> event_row \<Rightarrow> end_snapshot trace_op" where
  "end_snapshot_of env ev =
     (let listed = List.map_filter (\<lambda>u. as_str (jindex ''path'' u)) (json_items (jindex ''untracked'' (er_payload ev)));
          result = (\<lambda>dirty. \<lparr>es_head = as_str (jindex ''git_head'' (er_payload ev)), es_dirty = dirty\<rparr>)
      in case er_blob ev of
           None \<Rightarrow> t_return (result listed)
         | Some i \<Rightarrow> (\<lambda>st. case read_blob env i st of
               (Inr d, st') \<Rightarrow> (Inr (result (listed @ diff_paths d)), st')
             | (Inl _, st') \<Rightarrow> (Inr (result listed), st')))"

fun find_end_snapshot :: "store_env \<Rightarrow> string list \<Rightarrow> end_snapshot option trace_op" where
  "find_end_snapshot env [] = t_return None"
| "find_end_snapshot env (i # is) =
     t_bind (get_event env i) (\<lambda>ev.
     if jindex ''phase'' (er_payload ev) \<noteq> JStr ''end'' then find_end_snapshot env is
     else t_bind (end_snapshot_of env ev) (\<lambda>e. t_return (Some e)))"

definition previous_end_snapshot :: "store_env \<Rightarrow> string \<Rightarrow> string \<Rightarrow> end_snapshot option trace_op" where
  "previous_end_snapshot env session agent =
     t_bind (list_events env (event_query_all\<lparr>eq_session := Some session, eq_agent := Some agent,
         eq_kinds := [''workspace.snapshot'']\<rparr>)) (\<lambda>evs.
       find_end_snapshot env (rev (map vs_id evs)))"

definition listed_paths :: "string \<Rightarrow> json \<Rightarrow> string list" where
  "listed_paths key changed = List.map_filter as_str (json_items (jindex key changed))"

text \<open>The changed files of the previous run that the new start snapshot no longer shows as changed.\<close>

definition undone_edits :: "end_snapshot option \<Rightarrow> snapshot \<Rightarrow> string list \<Rightarrow> string list" where
  "undone_edits previous start modified =
     (case (previous, sn_git start) of
        (Some e, Some g) \<Rightarrow>
          if es_head e \<noteq> None \<and> es_head e = gz_head g then
            filter (\<lambda>p. p \<in> set (es_dirty e) \<and> p \<notin> set (snapshot_diff_paths start @ snapshot_untracked start)) modified
          else []
      | _ \<Rightarrow> [])"

definition reverted_paths :: "(string \<Rightarrow> bool) \<Rightarrow> snapshot \<Rightarrow> string list \<Rightarrow> string list \<Rightarrow> string list \<Rightarrow> string list" where
  "reverted_paths exists start added deleted edits =
     remdups_adj (order_by str_less
       (filter (\<lambda>p. \<not> exists p \<and> \<not> snapshot_contains p start) added
        @ filter (\<lambda>p. exists p \<or> snapshot_contains p start) deleted @ edits))"

definition detect_reverted ::
  "store_env \<Rightarrow> string \<Rightarrow> string \<Rightarrow> (string \<Rightarrow> bool) \<Rightarrow> snapshot \<Rightarrow> (string \<times> signal) option trace_op" where
  "detect_reverted env session this exists start =
     t_bind (list_agents env session) (\<lambda>agents.
     case find (\<lambda>a. ar_id a \<noteq> this) (rev agents) of
       None \<Rightarrow> t_return None
     | Some previous \<Rightarrow>
         t_bind (agent_outcomes env (ar_id previous)) (\<lambda>os.
         case find (\<lambda>o'. oi_kind o' = ''files_changed'') (rev os) of
           None \<Rightarrow> t_return None
         | Some o' \<Rightarrow>
             (let added = listed_paths ''added'' (oi_details o');
                  deleted = listed_paths ''deleted'' (oi_details o');
                  modified = listed_paths ''changed'' (oi_details o')
              in if added = [] \<and> deleted = [] \<and> modified = [] then t_return None
                 else
                   t_bind (if modified \<noteq> [] then previous_end_snapshot env session (ar_id previous) else t_return None) (\<lambda>e.
                   let reverted = reverted_paths exists start added deleted (undone_edits e start modified)
                   in t_return (if reverted = [] then None
                        else Some (ar_id previous, outcome_reverted reverted this))))))"

section \<open>The merge names exactly what changed\<close>

definition listing_sorted :: "index_entry list \<Rightarrow> bool" where
  "listing_sorted es \<longleftrightarrow> sorted_wrt (\<lambda>x y. str_less (ie_path x) (ie_path y)) es"

definition entry_differs :: "index_entry list \<Rightarrow> index_entry \<Rightarrow> bool" where
  "entry_differs before y \<longleftrightarrow>
     (\<exists>x\<in>set before. ie_path x = ie_path y \<and> (ie_size x \<noteq> ie_size y \<or> ie_mtime_ns x \<noteq> ie_mtime_ns y))"

lemma listing_sorted_Cons:
  "listing_sorted (x # xs) \<Longrightarrow> listing_sorted xs \<and> (\<forall>z\<in>set xs. str_less (ie_path x) (ie_path z))"
  by (simp add: listing_sorted_def)

text \<open>A path below the first of a sorted listing is not in it.\<close>

lemma below_listing: "listing_sorted (y # ys) \<Longrightarrow> str_less p (ie_path y) \<Longrightarrow> p \<notin> ie_path ` set (y # ys)"
  using str_less_trans str_less_irrefl by (fastforce dest: listing_sorted_Cons)

lemma entry_differs_fresh: "p \<noteq> ie_path y \<Longrightarrow> p = ie_path x \<Longrightarrow> entry_differs (x # xs) y = entry_differs xs y"
  by (auto simp: entry_differs_def)

lemma changes_between_exact:
  "listing_sorted before \<Longrightarrow> listing_sorted after \<Longrightarrow>
   changes_between before after =
     \<lparr>fc_changed = map ie_path (filter (entry_differs before) after),
      fc_added = filter (\<lambda>p. p \<notin> ie_path ` set before) (map ie_path after),
      fc_deleted = filter (\<lambda>p. p \<notin> ie_path ` set after) (map ie_path before)\<rparr>"
proof (induction before after rule: changes_between.induct)
  case (4 x xs y ys)
  note xs = listing_sorted_Cons [OF 4(4)] and ys = listing_sorted_Cons [OF 4(5)]
  consider "str_less (ie_path x) (ie_path y)" | "str_less (ie_path y) (ie_path x)" | "ie_path x = ie_path y"
    using str_less_linear by blast
  then show ?case
  proof cases
    case 1
    have new: "ie_path x \<notin> ie_path ` set (y # ys)" using below_listing [OF 4(5) 1] .
    then have ne: "ie_path x \<noteq> ie_path z" if "z \<in> set (y # ys)" for z using that by (metis imageI)
    then have "filter (entry_differs (x # xs)) (y # ys) = filter (entry_differs xs) (y # ys)"
      by (intro filter_cong refl entry_differs_fresh [of "ie_path x"]) blast+
    moreover have "filter (\<lambda>p. p \<notin> ie_path ` set (x # xs)) (map ie_path (y # ys)) = filter (\<lambda>p. p \<notin> ie_path ` set xs) (map ie_path (y # ys))"
      by (intro filter_cong refl) (use ne in fastforce)
    ultimately show ?thesis using 1 4(1) [OF 1] xs 4(5) new by (simp add: Let_def)
  next
    case 2
    then have no: "\<not> str_less (ie_path x) (ie_path y)" using str_less_asym by blast
    have new: "ie_path y \<notin> ie_path ` set (x # xs)" using below_listing [OF 4(4) 2] .
    then have ne: "ie_path y \<noteq> ie_path z" if "z \<in> set (x # xs)" for z using that by (metis imageI)
    then have "\<not> entry_differs (x # xs) y" unfolding entry_differs_def by metis
    moreover have "filter (\<lambda>p. p \<notin> ie_path ` set (y # ys)) (map ie_path (x # xs)) = filter (\<lambda>p. p \<notin> ie_path ` set ys) (map ie_path (x # xs))"
      by (intro filter_cong refl) (use ne in fastforce)
    ultimately show ?thesis using 2 no 4(2) [OF no 2] ys 4(4) new by (simp add: Let_def)
  next
    case 3
    then have no: "\<not> str_less (ie_path x) (ie_path y)" "\<not> str_less (ie_path y) (ie_path x)" by simp_all
    have x: "ie_path x \<notin> ie_path ` set ys" and y: "ie_path y \<notin> ie_path ` set xs"
      using xs ys 3 str_less_irrefl by (auto simp: image_iff)
    have ne: "ie_path x \<noteq> ie_path z" if "z \<in> set ys" for z using x that by (metis imageI)
    have ne': "ie_path y \<noteq> ie_path z" if "z \<in> set xs" for z using y that by (metis imageI)
    from ne have "filter (entry_differs (x # xs)) ys = filter (entry_differs xs) ys"
      by (intro filter_cong refl entry_differs_fresh [of "ie_path x"]) blast+
    moreover have "entry_differs (x # xs) y \<longleftrightarrow> ie_size x \<noteq> ie_size y \<or> ie_mtime_ns x \<noteq> ie_mtime_ns y"
      unfolding entry_differs_def using ne' 3 by (metis list.set_intros(1) set_ConsD)
    moreover have "filter (\<lambda>p. p \<notin> ie_path ` set (x # xs)) (map ie_path ys) = filter (\<lambda>p. p \<notin> ie_path ` set xs) (map ie_path ys)"
      by (intro filter_cong refl) (use ne in fastforce)
    moreover have "filter (\<lambda>p. p \<notin> ie_path ` set (y # ys)) (map ie_path xs) = filter (\<lambda>p. p \<notin> ie_path ` set ys) (map ie_path xs)"
      by (intro filter_cong refl) (use ne' in fastforce)
    ultimately show ?thesis using 3 no 4(3) [OF no] xs ys by (simp add: Let_def)
  qed
qed (auto simp: entry_differs_def Let_def dest: listing_sorted_Cons)

text \<open>
  C37: \<open>changes_since\<close> names exactly what changed between two snapshots whose listings are sorted by
  path: added are the paths only the later one has, deleted those only the earlier one has, changed
  those of both whose size or time differs, each in order and once; and there is no change exactly
  when the listings agree.
\<close>

theorem changes_since_exact:
  assumes "listing_sorted (sn_entries before)" "listing_sorted (sn_entries after)"
  shows "fc_added (changes_since before after) =
      filter (\<lambda>p. p \<notin> ie_path ` set (sn_entries before)) (map ie_path (sn_entries after)) \<and>
    fc_deleted (changes_since before after) =
      filter (\<lambda>p. p \<notin> ie_path ` set (sn_entries after)) (map ie_path (sn_entries before)) \<and>
    fc_changed (changes_since before after) = map ie_path (filter (entry_differs (sn_entries before)) (sn_entries after)) \<and>
    (no_files_changed (changes_since before after) \<longleftrightarrow> sn_entries before = sn_entries after)"
proof (intro conjI iffI)
  note exact = changes_between_exact [OF assms]
  show "fc_added (changes_since before after) =
      filter (\<lambda>p. p \<notin> ie_path ` set (sn_entries before)) (map ie_path (sn_entries after))"
    "fc_deleted (changes_since before after) =
      filter (\<lambda>p. p \<notin> ie_path ` set (sn_entries after)) (map ie_path (sn_entries before))"
    "fc_changed (changes_since before after) = map ie_path (filter (entry_differs (sn_entries before)) (sn_entries after))"
    by (simp_all add: changes_since_def exact)
next
  assume "no_files_changed (changes_since before after)"
  moreover have "listing_sorted xs \<Longrightarrow> listing_sorted ys \<Longrightarrow> no_files_changed (changes_between xs ys) \<Longrightarrow> xs = ys" for xs ys
  proof (induction xs ys rule: changes_between.induct)
    case (4 x xs y ys)
    then show ?case using listing_sorted_Cons [OF 4(4)] listing_sorted_Cons [OF 4(5)] str_less_linear [of "ie_path x" "ie_path y"]
      by (auto simp: no_files_changed_def Let_def split: if_splits)
  qed (auto simp: no_files_changed_def Let_def)
  ultimately show "sn_entries before = sn_entries after" using assms by (simp add: changes_since_def)
next
  assume "sn_entries before = sn_entries after"
  moreover have "no_files_changed (changes_between xs xs)" for xs
    by (induction xs) (simp_all add: no_files_changed_def Let_def)
  ultimately show "no_files_changed (changes_since before after)" by (simp add: changes_since_def)
qed

definition demo_snapshot :: "(string \<times> nat) list \<Rightarrow> snapshot" where
  "demo_snapshot fs = take_snapshot id (Inl GitNotAvailable)
     \<lparr>ix_entries = map (\<lambda>(p, n). \<lparr>fe_path = p, fe_size = n, fe_mtime = None, fe_mtime_ns = None, fe_language = None\<rparr>) fs,
      ix_directories = 0, ix_truncated = False\<rparr> 0"

lemma changes_since_exact_witness:
  "fc_changed (changes_since (demo_snapshot [(''a'', 3), (''b'', 3)]) (demo_snapshot [(''b'', 2), (''c'', 0)])) = [''b'']"
proof -
  let ?old = "demo_snapshot [(''a'', 3), (''b'', 3)]" and ?new = "demo_snapshot [(''b'', 2), (''c'', 0)]"
  have entries: "sn_entries ?old = [\<lparr>ie_path = ''a'', ie_size = 3, ie_mtime_ns = None\<rparr>, \<lparr>ie_path = ''b'', ie_size = 3, ie_mtime_ns = None\<rparr>]"
    "sn_entries ?new = [\<lparr>ie_path = ''b'', ie_size = 2, ie_mtime_ns = None\<rparr>, \<lparr>ie_path = ''c'', ie_size = 0, ie_mtime_ns = None\<rparr>]"
    by (simp_all add: demo_snapshot_def take_snapshot_def Let_def index_entry_of_def)
  have "listing_sorted (sn_entries ?old)" "listing_sorted (sn_entries ?new)"
    by (simp_all add: entries listing_sorted_def)
  from changes_since_exact [OF this]
  have "fc_changed (changes_since ?old ?new) = map ie_path (filter (entry_differs (sn_entries ?old)) (sn_entries ?new))"
    by (elim conjE)
  then show ?thesis by (simp add: entries entry_differs_def)
qed

end
