(* ===== verification/Agent_Run.thy ===== *)
theory Agent_Run
  imports Agent_Loop Workspace_Snapshot
begin

text \<open>
  A whole run: \<open>execute\<close>, \<open>setup\<close>, \<open>record_prefix\<close> and the snapshots of
  \<open>crates/core/src/runtime/agent.rs\<close>, and the task that \<open>runtime/mod.rs\<close> spawns around them. What
  the services of the daemon answer (workspaces, configuration, the API key, the system prompt, the
  snapshots and the watchdog) is the record \<open>services\<close>; \<open>env\<close> has what a run has before its set-up,
  which fills in the settings, the permission mode and the engine.
\<close>

section \<open>Services and settings\<close>

record run_config =
  rc_loop :: loop_config
  rc_tools :: tools_config
  rc_disabled :: "string list"
  rc_default_mode :: permission_mode

record services =
  sv_workspace :: "string \<Rightarrow> rpc_error + string"
  sv_open_root :: "string \<Rightarrow> rpc_error + string"
  sv_load_config :: "string option \<Rightarrow> rpc_error + run_config"
  sv_mentor :: "rpc_error option"
  sv_rules_file :: "string option \<Rightarrow> string option"
  sv_user_rules :: string
  sv_session_rules :: session_rules
  sv_system :: "string option \<Rightarrow> run_config \<Rightarrow> system_prompt"
  sv_snapshot :: "nat \<Rightarrow> snapshot"
  sv_exists :: "string \<Rightarrow> bool"
  sv_stalled :: "nat \<Rightarrow> bool"

text \<open>A run that is set up: its environment and whether it has a workspace.\<close>

record ready_run =
  rd_env :: run_env
  rd_workspace :: bool
  rd_window_s :: nat

section \<open>Set-up\<close>

definition tools_changed_note :: string where
  "tools_changed_note = ''[note: tool set changed since this session started]''"

definition from_to :: "string option \<Rightarrow> string \<Rightarrow> json" where
  "from_to old new = jobj [(''from'', opt_str old), (''to'', JStr new)]"

definition note_row :: "run_env \<Rightarrow> conversation \<Rightarrow> new_message" where
  "note_row env c =
     \<lparr>nm_session = rn_session env, nm_seq = length (cv_messages c), nm_role = cm_role (last (cv_messages c)),
      nm_content = cm_content (last (cv_messages c)), nm_agent = Some (rn_agent env), nm_step = None\<rparr>"

definition or_empty :: "string option \<Rightarrow> string" where
  "or_empty s = (case s of Some x \<Rightarrow> x | None \<Rightarrow> [])"

definition record_prefix :: "run_env \<Rightarrow> session_row \<Rightarrow> unit run_op" where
  "record_prefix env session =
     t_bind (gets ru_conv) (\<lambda>conv.
     let version = or_empty (cv_prompt_version conv); hash = or_empty (cv_tools_hash conv);
         old_version = sr_prompt_version session; old_hash = sr_tools_hash session
     in if old_version = None \<and> old_hash = None then
          on_store (set_session_prefix (rn_store env) (sr_id session) version hash)
        else
          (let tools_differ = (old_hash \<noteq> Some hash);
               changed = (if old_version \<noteq> Some version then [(''prompt_version'', from_to old_version version)] else [])
                 @ (if tools_differ then [(''tools_hash'', from_to old_hash hash)] else [])
           in if changed = [] then t_return ()
              else t_then (if tools_differ then edits (push_user_text tools_changed_note) else t_return ())
                (t_bind (gets ru_conv) (\<lambda>conv'.
                 t_bind (on_store
                   (t_then (set_session_prefix (rn_store env) (sr_id session) version hash)
                   (t_then (if tools_differ then put_session_message (rn_store env) (note_row env conv') else t_return ())
                     (append_event (rn_store env) (event_payload (jobj changed)
                        (event_agent (rn_agent env) (event_new (sr_id session) ''session.prefix_changed''))))))) (\<lambda>_.
                   t_return ())))))"

text \<open>A step that may fail with an error for the client.\<close>

definition or_fail :: "rpc_error + 'a \<Rightarrow> ('a \<Rightarrow> (rpc_error + 'b) run_op) \<Rightarrow> (rpc_error + 'b) run_op" where
  "or_fail r f = (case r of Inl e \<Rightarrow> t_return (Inl e) | Inr x \<Rightarrow> f x)"

definition find_workspace_of :: "services \<Rightarrow> session_row \<Rightarrow> rpc_error + string option" where
  "find_workspace_of sv session =
     (case (sr_workspace_id session, sr_workspace_path session) of
        (Some i, _) \<Rightarrow> map_sum id Some (sv_workspace sv i)
      | (None, Some path) \<Rightarrow> map_sum id Some (sv_open_root sv path)
      | (None, None) \<Rightarrow> Inr None)"

definition run_engine :: "services \<Rightarrow> run_env \<Rightarrow> string option \<Rightarrow> run_config \<Rightarrow> rules_fs \<Rightarrow> engine" where
  "run_engine sv env root cfg disk =
     with_files (ge_matchers (te_gate (rn_tools env))) (ge_toml (te_gate (rn_tools env))) disk (sv_user_rules sv)
       (sv_rules_file sv root) (lc_permissions (rc_loop cfg)) (sv_session_rules sv)"

definition configured_env :: "run_env \<Rightarrow> run_config \<Rightarrow> permission_mode \<Rightarrow> run_env" where
  "configured_env env cfg mode =
     env\<lparr>rn_config := rc_loop cfg,
         rn_tools := (rn_tools env)\<lparr>te_config := rc_tools cfg, te_gate := (te_gate (rn_tools env))\<lparr>ge_mode := mode\<rparr>\<rparr>\<rparr>"

definition install_engine :: "services \<Rightarrow> run_env \<Rightarrow> string option \<Rightarrow> run_config \<Rightarrow> unit run_op" where
  "install_engine sv env root cfg =
     (\<lambda>s. (Inr (), s\<lparr>ru_exec := (ru_exec s)\<lparr>xs_engine := run_engine sv env root cfg (xs_rules (ru_exec s))\<rparr>,
                     ru_warned := False, ru_continued := False\<rparr>))"

definition tools_changed_warning :: "run_env \<Rightarrow> agent_event" where
  "tools_changed_warning env = AgentWarning (rn_agent env) ''tools_changed''
     ''the tool set changed since the session started; the next call rebuilds the cache''"

definition set_run_tools :: "run_env \<Rightarrow> run_config \<Rightarrow> unit run_op" where
  "set_run_tools env cfg =
     t_bind (gets (\<lambda>s. fst (set_tools (te_xl (rn_tools env)) (registry_defs (rc_disabled cfg) (te_registry (rn_tools env))) (ru_conv s)))) (\<lambda>changed.
     t_then (edits (\<lambda>c. snd (set_tools (te_xl (rn_tools env)) (registry_defs (rc_disabled cfg) (te_registry (rn_tools env))) c)))
       (if changed \<noteq> None then emits [tools_changed_warning env] else t_return ()))"

definition setup_run :: "services \<Rightarrow> run_env \<Rightarrow> run_options \<Rightarrow> (rpc_error + ready_run) run_op" where
  "setup_run sv env opts =
     t_bind (on_store (get_session (rn_store env) (rn_session env))) (\<lambda>session.
     or_fail (find_workspace_of sv session) (\<lambda>root.
     or_fail (sv_load_config sv root) (\<lambda>cfg.
     or_fail (case sv_mentor sv of Some e \<Rightarrow> Inl e | None \<Rightarrow> Inr ()) (\<lambda>_.
     let mode = (case ro_permission_mode opts of Some m \<Rightarrow> m | None \<Rightarrow> rc_default_mode cfg);
         env' = configured_env env cfg mode
     in t_then (install_engine sv env root cfg)
        (t_then (edits (conv_configure (lc_mentor (rc_loop cfg)) opts))
        (t_then (edits (\<lambda>c. if cv_system c = [] then set_system (sv_system sv root cfg) c else c))
        (t_then (set_run_tools env cfg)
        (t_then (record_prefix env session)
          (t_return (Inr \<lparr>rd_env = env', rd_workspace = (root \<noteq> None),
                          rd_window_s = stall_window (rc_loop cfg) (rc_tools cfg)\<rparr>))))))))))"

section \<open>Snapshots of a run\<close>

text \<open>A write to the trace whose failure is only logged.\<close>

definition quietly :: "'a run_op \<Rightarrow> 'a option run_op" where
  "quietly m = (\<lambda>s. case m s of (Inl _, s') \<Rightarrow> (Inr None, s') | (Inr x, s') \<Rightarrow> (Inr (Some x), s'))"

definition run_snapshot :: "services \<Rightarrow> ready_run \<Rightarrow> snapshot_phase \<Rightarrow> snapshot option run_op" where
  "run_snapshot sv rd phase =
     (if \<not> rd_workspace rd then t_return None
      else t_bind (asks (sv_snapshot sv)) (\<lambda>snap.
        t_bind (quietly (on_store (append_event (rn_store (rd_env rd))
            (snapshot_event (rn_session (rd_env rd)) (Some (rn_agent (rd_env rd))) phase snap)))) (\<lambda>_.
          t_return (Some snap))))"

definition check_reverted :: "services \<Rightarrow> ready_run \<Rightarrow> snapshot \<Rightarrow> unit run_op" where
  "check_reverted sv rd start =
     (let env = rd_env rd in
      if \<not> rd_workspace rd then t_return ()
      else t_bind (quietly (on_store (detect_reverted (rn_store env) (rn_session env) (rn_agent env) (sv_exists sv) start))) (\<lambda>found.
        case found of
          Some (Some (previous, g)) \<Rightarrow>
            t_bind (quietly (on_store (append_event (rn_store env) (signal_event g (rn_session env) previous)))) (\<lambda>i.
              case i of Some i' \<Rightarrow> emits [signal_live_event g previous i'] | None \<Rightarrow> t_return ())
        | _ \<Rightarrow> t_return ()))"

definition finish_snapshot :: "services \<Rightarrow> ready_run \<Rightarrow> snapshot option \<Rightarrow> unit run_op" where
  "finish_snapshot sv rd start =
     (case start of
        None \<Rightarrow> t_return ()
      | Some before \<Rightarrow>
          t_bind (run_snapshot sv rd PhaseEnd) (\<lambda>end.
          case end of
            None \<Rightarrow> t_return ()
          | Some after \<Rightarrow> record_outcome (rd_env rd) (files_changed_outcome (changes_since before after)) None))"

section \<open>The run\<close>

text \<open>The loop, a failure of the trace as the end of the run; \<open>None\<close> is a call that has not come back.\<close>

definition loop_finish :: "run_env \<Rightarrow> nat \<Rightarrow> finish option run_op" where
  "loop_finish env fuel = (\<lambda>s. case run_loop env fuel s of
     (Inl e, s') \<Rightarrow> (Inr (Some (finish_error (rpc_of_trace_error e))), s')
   | (Inr r, s') \<Rightarrow> (Inr r, s'))"

definition stalled_finish :: "nat \<Rightarrow> finish" where
  "stalled_finish window_s = finish_stopped ''stalled''
     (''no sign of life for '' @ show_nat window_s @ '' s; the run was ended by the watchdog'')
     (jobj [(''window_s'', JInt (int window_s))])"

definition check_stalled :: "services \<Rightarrow> ready_run \<Rightarrow> finish \<Rightarrow> finish run_op" where
  "check_stalled sv rd f =
     t_bind (asks (sv_stalled sv)) (\<lambda>stalled.
     if stalled then
       t_then (record_outcome (rd_env rd) (outcome_error ''stalled'' (jobj [(''window_s'', JInt (int (rd_window_s rd)))])) None)
         (t_return (stalled_finish (rd_window_s rd)))
     else t_return f)"

definition run_ready :: "services \<Rightarrow> ready_run \<Rightarrow> nat \<Rightarrow> finish option run_op" where
  "run_ready sv rd fuel =
     t_bind (run_snapshot sv rd PhaseStart) (\<lambda>start.
     t_then (case start of Some snap \<Rightarrow> check_reverted sv rd snap | None \<Rightarrow> t_return ())
     (t_bind (loop_finish (rd_env rd) fuel) (\<lambda>r.
      case r of
        None \<Rightarrow> t_return None
      | Some f \<Rightarrow>
          t_bind (check_stalled sv rd f) (\<lambda>f'.
          t_then (finish_snapshot sv rd start) (t_return (Some f'))))))"

definition run_finish :: "services \<Rightarrow> run_env \<Rightarrow> run_options \<Rightarrow> nat \<Rightarrow> finish option run_op" where
  "run_finish sv env opts fuel = (\<lambda>s. case setup_run sv env opts s of
     (Inl e, s') \<Rightarrow> (Inr (Some (finish_error (rpc_of_trace_error e))), s')
   | (Inr (Inl e), s') \<Rightarrow> (Inr (Some (finish_error e)), s')
   | (Inr (Inr rd), s') \<Rightarrow> run_ready sv rd fuel s')"

text \<open>
  The turn without answers at the end of the history is dropped, here and in the store, where a
  failure is only logged.
\<close>

definition repaired_payload :: "nat \<Rightarrow> chat_message \<Rightarrow> json" where
  "repaired_payload keep m =
     jobj [(''dropped_seq'', JInt (int (keep + 1))), (''tool_use_ids'', JArr (map JStr (use_ids (cm_content m))))]"

definition repair_run :: "run_env \<Rightarrow> unit run_op" where
  "repair_run env =
     t_bind (gets (fst \<circ> conv_repair \<circ> ru_conv)) (\<lambda>dropped.
     t_then (edits (snd \<circ> conv_repair))
     (case dropped of
        None \<Rightarrow> t_return ()
      | Some m \<Rightarrow>
          t_bind (gets (length \<circ> cv_messages \<circ> ru_conv)) (\<lambda>keep.
          t_bind (quietly (on_store
            (t_bind (truncate_session_messages (rn_store env) (rn_session env) keep) (\<lambda>_.
              append_event (rn_store env) (event_payload (repaired_payload keep m)
                (event_agent (rn_agent env) (event_new (rn_session env) ''session.repaired''))))))) (\<lambda>_.
            t_return ()))))"

definition finished_event :: "run_env \<Rightarrow> finish \<Rightarrow> agent_event" where
  "finished_event env f = AgentFinished (rn_agent env) (fn_status f) (fn_error f) (fn_truncated f)"

definition execute_run :: "services \<Rightarrow> run_env \<Rightarrow> run_options \<Rightarrow> nat \<Rightarrow> agent_event option run_op" where
  "execute_run sv env opts fuel =
     t_then (emits [AgentStarted (rn_agent env) (rn_session env)])
     (t_bind (run_finish sv env opts fuel) (\<lambda>r.
      case r of
        None \<Rightarrow> t_return None
      | Some f \<Rightarrow>
          t_then (repair_run env)
          (t_bind (quietly (on_store (finish_agent (rn_store env) (rn_agent env) (finish_run_status f)
              (map_option rpc_error_json (fn_error f))))) (\<lambda>_.
            t_return (Some (finished_event env f))))))"

text \<open>The task: the last event goes out once the run is recorded.\<close>

definition run_task :: "services \<Rightarrow> run_env \<Rightarrow> run_options \<Rightarrow> nat \<Rightarrow> agent_event option run_op" where
  "run_task sv env opts fuel =
     t_bind (execute_run sv env opts fuel) (\<lambda>r.
     case r of
       None \<Rightarrow> t_return None
     | Some e \<Rightarrow> t_then (emits [e]) (t_return (Some e)))"

text \<open>The text of the final assistant turn, when the conversation ends on one.\<close>

definition last_answer :: "conversation \<Rightarrow> string option" where
  "last_answer c =
     (if cv_messages c \<noteq> [] \<and> cm_role (last (cv_messages c)) = RoleAssistant
      then Some (concat (List.map_filter block_as_text (cm_content (last (cv_messages c))))) else None)"

end
