(* ===== verification/Agent_Lifecycle.thy ===== *)
theory Agent_Lifecycle
  imports Agent_Run Agent_Guarantees Agent_Returns
begin

text \<open>
  A whole run from outside: whatever happens in it, it ends, its events begin with the start and end
  with the one event that ends it, and what that event says agrees with how the run ended.
\<close>

section \<open>How the loop ends\<close>

text \<open>A run that ends well has no error, every other one has.\<close>

definition clear_end :: "finish \<Rightarrow> bool" where
  "clear_end f \<longleftrightarrow> (fn_status f = StatusOk \<longleftrightarrow> fn_error f = None)"

lemma clear_ends [simp]: "clear_end (finish_ok t)" "clear_end (finish_error e)" "clear_end finish_cancelled"
  "clear_end (finish_stopped k m d)" "clear_end (stalled_finish w)"
  by (simp_all add: clear_end_def finish_ok_def finish_error_def finish_cancelled_def finish_stopped_def stalled_finish_def)

definition clear_step :: "next_step \<Rightarrow> bool" where
  "clear_step r \<longleftrightarrow> (case r of StopsWith f \<Rightarrow> clear_end f | _ \<Rightarrow> True)"

lemma clear_step_simps [simp]: "clear_step StepsOn" "clear_step CallHangs" "clear_step (StopsWith f) = clear_end f"
  by (simp_all add: clear_step_def)

lemma stop_run_clear: "twp (stop_run env k m d) (\<lambda>f _. clear_end f) s"
  unfolding stop_run_def by (rule twp_then_always) (simp add: twp_basic)

lemma stop_clear: "twp (t_bind (stop_run env k m d) (\<lambda>f. t_return (StopsWith f))) (\<lambda>r _. clear_step r) s"
  unfolding twp_bind by (rule twp_mono [OF stop_run_clear]) (simp add: twp_basic)

lemma run_step_clear: "twp (run_step env fuel seq) (\<lambda>r _. clear_step r) s"
proof -
  have tools: "twp (step_with_tools env seq at calls) (\<lambda>r _. clear_step r) t" for at calls t
    unfolding step_with_tools_def by (rule twp_bind_always) (simp add: twp_basic)
  have cont: "twp (continue_step env at) (\<lambda>r _. clear_step r) t" for at t
    unfolding continue_step_def
    by (rule twp_bind_always) (auto simp: twp_basic intro!: twp_then_always twp_bind_always)
  have stop_here: "twp (t_bind (gets ru_conv) (\<lambda>c. t_bind (stop_run env k m (d c)) (\<lambda>f. t_return (StopsWith f)))) (\<lambda>r _. clear_step r) t"
    for k m d t by (rule twp_bind_always) (rule stop_clear)
  have after: "twp (after_step env seq at resp) (\<lambda>r _. clear_step r) t" for at resp t
    unfolding after_step_def Let_def
    by (auto simp: tools cont twp_basic split: stop_reason.split intro!: twp_then_always stop_clear stop_here)
  have failed: "twp (failed_step env at cid err) (\<lambda>r _. clear_step r) t" for at cid err t
    unfolding failed_step_def by (rule twp_bind_always) (simp add: twp_basic)
  have guard: "twp (guard_context env) (\<lambda>r _. r \<noteq> None \<longrightarrow> clear_end (the r)) t" for t
  proof -
    have "twp (t_bind (stop_run env k m d) (\<lambda>f. t_return (Some f))) (\<lambda>r _. r \<noteq> None \<longrightarrow> clear_end (the r)) u" for k m d u
      unfolding twp_bind by (rule twp_mono [OF stop_run_clear]) (simp add: twp_basic)
    then show ?thesis
      unfolding guard_context_def Let_def
      by (intro twp_bind_always) (auto simp: twp_basic split: option.split intro!: twp_bind_always twp_then_always)
  qed
  have opened: "twp (open_step env fuel seq) (\<lambda>r _. clear_step r) t" for t
    unfolding open_step_def step_call_def
    by (rule twp_then_always, rule twp_bind_always, rule twp_then_always, rule twp_bind_always, rule twp_bind_always)
      (auto simp: twp_basic failed after split: option.split sum.split intro!: twp_then_always)
  show ?thesis
    unfolding run_step_def
  proof (intro twp_bind_always)
    fix cancelled t
    have "twp (t_bind (guard_context env) (\<lambda>stop. case stop of Some f \<Rightarrow> t_return (StopsWith f) | None \<Rightarrow> open_step env fuel seq))
        (\<lambda>r _. clear_step r) t"
      unfolding twp_bind by (rule twp_mono [OF guard]) (auto simp: twp_basic opened split: option.split)
    then show "twp (if cancelled then t_return (StopsWith finish_cancelled)
        else t_bind (guard_context env) (\<lambda>stop. case stop of Some f \<Rightarrow> t_return (StopsWith f) | None \<Rightarrow> open_step env fuel seq))
        (\<lambda>r _. clear_step r) t"
      by (simp add: twp_basic)
  qed
qed

lemma run_loop_clear: "twp (run_loop env fuel) (\<lambda>r _. \<forall>f. r = Some f \<longrightarrow> clear_end f) s"
proof -
  have "twp (run_steps env fuel n seq) (\<lambda>r _. \<forall>f. r = Some f \<longrightarrow> clear_end f) t" for n seq t
  proof (induction n arbitrary: seq t)
    case 0
    show ?case unfolding run_steps.simps twp_bind by (rule twp_mono [OF stop_run_clear]) (simp add: twp_basic)
  next
    case (Suc n)
    show ?case unfolding run_steps.simps twp_bind
      by (rule twp_mono [OF run_step_clear]) (auto simp: twp_basic Suc split: next_step.split)
  qed
  then show ?thesis by (simp add: run_loop_def)
qed

section \<open>What the set-up and the snapshots send\<close>

abbreviation calm :: "'a run_op \<Rightarrow> bool" where
  "calm \<equiv> within log_grows"

lemma calm_store: "calm (on_store m)"
  by (rule run_logs.within_store) simp

lemma calm_quietly: "calm m \<Longrightarrow> calm (quietly m)"
  unfolding within_def quietly_def by (auto split: prod.split sum.split) (metis snd_conv)+

lemma calm_engine: "calm (install_engine sv env root cfg)"
  by (simp add: within_def install_engine_def log_grows_def)

lemmas calm_intros = run_logs.within_bind run_logs.within_then run_logs.within_return run_logs.within_gets
  run_logs.within_asks run_logs.within_edits run_logs.within_outcome calm_store calm_quietly calm_engine

lemma calm_emits: "list_all quiet_event es \<Longrightarrow> calm (emits es)"
  by (rule run_logs.within_emits)

lemma calm_setup: "calm (setup_run sv env opts)"
  unfolding setup_run_def set_run_tools_def record_prefix_def Let_def or_fail_def
  by (auto intro!: calm_intros calm_emits split: sum.split option.split simp: quiet_event_def tools_changed_warning_def)

lemma calm_snapshot: "calm (run_snapshot sv rd phase)"
  unfolding run_snapshot_def by (auto intro!: calm_intros)

lemma calm_reverted: "calm (check_reverted sv rd start)"
  unfolding check_reverted_def Let_def
  by (auto intro!: calm_intros calm_emits split: option.split prod.split simp: quiet_event_def signal_live_event_def)

lemma calm_finish_snapshot: "calm (finish_snapshot sv rd start)"
  unfolding finish_snapshot_def by (auto intro!: calm_intros calm_snapshot split: option.split)

lemma calm_loop: "calm (loop_finish env fuel)"
  using run_logs.within_run_loop [of env fuel] unfolding within_def loop_finish_def
  by (auto split: prod.split sum.split) (metis snd_conv)+

lemma calm_ready: "calm (run_ready sv rd fuel)"
  unfolding run_ready_def check_stalled_def
  by (auto intro!: calm_intros calm_snapshot calm_reverted calm_loop calm_finish_snapshot split: option.split)

lemma calm_finish: "calm (run_finish sv env opts fuel)"
  unfolding within_def
proof
  fix s
  obtain r s1 where r: "setup_run sv env opts s = (r, s1)" by fastforce
  with calm_setup have "log_grows s s1" unfolding within_def by (metis snd_conv)
  moreover have "log_grows s1 (snd (run_ready sv rd fuel s1))" for rd using calm_ready by (simp add: within_def)
  ultimately show "log_grows s (snd (run_finish sv env opts fuel s))"
    using r run_logs.R_trans by (auto simp: run_finish_def split: sum.split)
qed

lemma calm_repair: "calm (repair_run env)"
  unfolding repair_run_def by (auto intro!: calm_intros split: option.split)

section \<open>The result\<close>

text \<open>These operations do not fail: what the trace refuses is logged.\<close>

definition never_fails :: "'a run_op \<Rightarrow> bool" where
  "never_fails m \<longleftrightarrow> (\<forall>s. \<exists>x. fst (m s) = Inr x)"

lemma never_fails_bind: "never_fails m \<Longrightarrow> (\<And>x. never_fails (f x)) \<Longrightarrow> never_fails (t_bind m f)"
  unfolding never_fails_def t_bind_def by (auto split: prod.split sum.split) (metis Inl_Inr_False fst_conv)+

lemma never_fails_then: "never_fails m \<Longrightarrow> never_fails n \<Longrightarrow> never_fails (t_then m n)"
  by (simp add: t_then_def never_fails_bind)

lemma never_fails_basic:
  "never_fails (t_return x)" "never_fails (emits es)" "never_fails (asks f)" "never_fails (gets g)" "never_fails (edits h)"
  "never_fails (quietly m)" "never_fails (record_outcome env sg at)"
  by (auto simp: never_fails_def t_return_def emits_def asks_def gets_def edits_def quietly_def record_outcome_def Let_def
      split: prod.split sum.split)

lemmas never_fails_intros = never_fails_bind never_fails_then never_fails_basic

lemma never_fails_finish: "never_fails (run_finish sv env opts fuel)"
proof -
  have "never_fails (loop_finish e fuel)" for e
    by (auto simp: never_fails_def loop_finish_def split: prod.split sum.split)
  then have "never_fails (run_ready sv rd fuel)" for rd
    unfolding run_ready_def check_stalled_def finish_snapshot_def run_snapshot_def check_reverted_def Let_def
    by (auto intro!: never_fails_intros split: option.split prod.split)
  then show ?thesis by (auto simp: never_fails_def run_finish_def split: prod.split sum.split)
qed

text \<open>The loop comes back when there is fuel for the waiting budget, and ends clearly.\<close>

lemma loop_finish_ends:
  assumes "patient_world (rn_world env)" "lc_max_wait_s (rn_config env) + 2 \<le> fuel"
  shows "twp (loop_finish env fuel) (\<lambda>r _. \<exists>f. r = Some f \<and> clear_end f) s"
proof -
  have "call_fuel env \<le> fuel" using assms(2) by (simp add: call_fuel_def)
  from run_steps_fuel(2) [OF assms(1) this, of "max_steps env" 1 s] run_loop_clear [of env fuel s]
  show ?thesis
    by (auto simp: twp_def loop_finish_def run_loop_def split: prod.splits sum.splits)
qed

lemma run_ready_ends:
  assumes "patient_world (rn_world (rd_env rd))" "lc_max_wait_s (rn_config (rd_env rd)) + 2 \<le> fuel"
  shows "twp (run_ready sv rd fuel) (\<lambda>r _. \<exists>f. r = Some f \<and> clear_end f) s"
proof -
  have stalled: "twp (check_stalled sv rd f) (\<lambda>f' _. clear_end f') t" if "clear_end f" for f t
    unfolding check_stalled_def using that
    by (intro twp_bind_always) (auto simp: twp_basic intro!: twp_then_always)
  have tail: "twp (t_bind (check_stalled sv rd f) (\<lambda>f'. t_then (finish_snapshot sv rd start) (t_return (Some f'))))
      (\<lambda>r _. \<exists>f. r = Some f \<and> clear_end f) t" if "clear_end f" for f start t
    unfolding twp_bind by (rule twp_mono [OF stalled [OF that]]) (auto simp: twp_basic intro!: twp_then_always)
  have main: "twp (t_bind (loop_finish (rd_env rd) fuel) (\<lambda>r. case r of None \<Rightarrow> t_return None
      | Some f \<Rightarrow> t_bind (check_stalled sv rd f) (\<lambda>f'. t_then (finish_snapshot sv rd start) (t_return (Some f')))))
      (\<lambda>r _. \<exists>f. r = Some f \<and> clear_end f) t" for start t
    unfolding twp_bind by (rule twp_mono [OF loop_finish_ends [OF assms]]) (use tail in \<open>auto simp: twp_bind\<close>)
  show ?thesis unfolding run_ready_def
    by (rule twp_bind_always, rule twp_then_always, rule main)
qed

definition set_up :: "services \<Rightarrow> run_env \<Rightarrow> ready_run \<Rightarrow> bool" where
  "set_up sv env rd \<longleftrightarrow> rn_world (rd_env rd) = rn_world env \<and> rn_store (rd_env rd) = rn_store env \<and>
     (\<exists>root cfg. sv_load_config sv root = Inr cfg \<and> rn_config (rd_env rd) = rc_loop cfg)"

lemma setup_run_gives: "twp (setup_run sv env opts) (\<lambda>r _. \<forall>rd. r = Inr rd \<longrightarrow> set_up sv env rd) s"
  unfolding setup_run_def or_fail_def Let_def
  by (intro twp_bind_always)
    (auto simp: twp_basic set_up_def configured_env_def rn_store_def split: sum.split intro!: twp_then_always; blast)

lemma run_finish_ends:
  assumes "patient_world (rn_world env)" "\<And>root cfg. sv_load_config sv root = Inr cfg \<Longrightarrow> lc_max_wait_s (rc_loop cfg) + 2 \<le> fuel"
  shows "\<exists>f s'. run_finish sv env opts fuel s = (Inr (Some f), s') \<and> clear_end f"
proof -
  have "twp (run_finish sv env opts fuel) (\<lambda>r _. \<exists>f. r = Some f \<and> clear_end f) s"
  proof (cases "setup_run sv env opts s")
    case (Pair r s1)
    show ?thesis
    proof (cases "\<exists>rd. r = Inr (Inr rd)")
      case True
      then obtain rd where rd: "r = Inr (Inr rd)" by blast
      with setup_run_gives [of sv env opts s] Pair have up: "set_up sv env rd" by (simp add: twp_def)
      then have "patient_world (rn_world (rd_env rd))" "lc_max_wait_s (rn_config (rd_env rd)) + 2 \<le> fuel"
        using assms by (auto simp: set_up_def)
      from run_ready_ends [OF this, of sv s1] show ?thesis by (simp add: twp_def run_finish_def Pair rd)
    next
      case False
      then show ?thesis by (cases r) (auto simp: twp_def run_finish_def Pair split: sum.split)
    qed
  qed
  moreover obtain x where "fst (run_finish sv env opts fuel s) = Inr x" using never_fails_finish unfolding never_fails_def by blast
  ultimately show ?thesis by (cases "run_finish sv env opts fuel s") (auto simp: twp_def)
qed


definition demo_options :: run_options where
  "demo_options = \<lparr>ro_model = None, ro_effort = None, ro_apprentice = None, ro_permission_mode = None\<rparr>"

definition demo_services :: services where
  "demo_services =
     \<lparr>sv_workspace = (\<lambda>i. Inl (invalid_params i)), sv_open_root = Inr,
      sv_load_config = (\<lambda>root. Inr \<lparr>rc_loop = demo_loop_config, rc_tools = tools_config_default, rc_disabled = [],
        rc_default_mode = Auto\<rparr>),
      sv_mentor = None, sv_rules_file = (\<lambda>r. None), sv_user_rules = ''rules'', sv_session_rules = [],
      sv_system = (\<lambda>r c. \<lparr>py_version = ''2'', py_blocks = []\<rparr>), sv_snapshot = (\<lambda>n. demo_snapshot []),
      sv_exists = (\<lambda>p. True), sv_stalled = (\<lambda>n. False)\<rparr>"


end
