(* ===== verification/Agent_Sessions.thy ===== *)
theory Agent_Sessions
  imports Agent_Run Trace_History
begin

text \<open>
  The sessions of a daemon and the start of a run: the agent registry, \<open>load_conversation\<close> and
  \<open>run_agent_with\<close> of \<open>crates/core/src/runtime/mod.rs\<close>, and the titles of
  \<open>crates/core/src/sessions/title.rs\<close>. A daemon is its trace store with its registry; the lock of a
  conversation is not modelled, an operation runs in one piece.
\<close>

section \<open>Handles and the registry\<close>

record agent_handle =
  ah_agent :: string
  ah_session :: string
  ah_finished :: "agent_event option"

definition handle_running :: "agent_handle \<Rightarrow> bool" where
  "handle_running h \<longleftrightarrow> ah_finished h = None"

definition handle_status :: "agent_handle \<Rightarrow> agent_status option" where
  "handle_status h = (case ah_finished h of Some (AgentFinished _ status _ _) \<Rightarrow> Some status | _ \<Rightarrow> None)"

text \<open>The watchdog's view of a run; times are milliseconds.\<close>

record activity =
  av_last :: nat
  av_stalled :: bool

definition activity_touch :: "nat \<Rightarrow> activity \<Rightarrow> activity" where
  "activity_touch now a = a\<lparr>av_last := now\<rparr>"

definition activity_idle :: "nat \<Rightarrow> activity \<Rightarrow> nat" where
  "activity_idle now a = now - av_last a"

definition mark_stalled :: "activity \<Rightarrow> activity" where
  "mark_stalled a = a\<lparr>av_stalled := True\<rparr>"

record agent_registry =
  rg_agents :: "agent_handle list"
  rg_convs :: "string \<rightharpoonup> conversation"
  rg_last_finished :: "nat option"

definition registry_empty :: agent_registry where
  "registry_empty = \<lparr>rg_agents = [], rg_convs = Map.empty, rg_last_finished = None\<rparr>"

definition get_agent_handle :: "string \<Rightarrow> agent_registry \<Rightarrow> agent_handle option" where
  "get_agent_handle i r = find (\<lambda>h. ah_agent h = i) (rg_agents r)"

definition running_agents :: "agent_registry \<Rightarrow> nat" where
  "running_agents r = length (rg_agents r)"

definition running_on :: "string \<Rightarrow> agent_registry \<Rightarrow> agent_handle option" where
  "running_on s r = find (\<lambda>h. ah_session h = s) (rg_agents r)"

definition loaded_conversation :: "string \<Rightarrow> agent_registry \<Rightarrow> conversation option" where
  "loaded_conversation s r = rg_convs r s"

text \<open>When one arrived first, that one wins.\<close>

definition insert_conversation :: "string \<Rightarrow> conversation \<Rightarrow> agent_registry \<Rightarrow> conversation \<times> agent_registry" where
  "insert_conversation s c r =
     (case rg_convs r s of
        Some held \<Rightarrow> (held, r)
      | None \<Rightarrow> (c, r\<lparr>rg_convs := (rg_convs r)(s \<mapsto> c)\<rparr>))"

definition forget_conversation :: "string \<Rightarrow> agent_registry \<Rightarrow> agent_registry" where
  "forget_conversation s r = r\<lparr>rg_convs := (rg_convs r)(s := None)\<rparr>"

definition add_agent :: "agent_handle \<Rightarrow> agent_registry \<Rightarrow> agent_registry" where
  "add_agent h r = r\<lparr>rg_agents := filter (\<lambda>x. ah_agent x \<noteq> ah_agent h) (rg_agents r) @ [h]\<rparr>"

definition remove_agent :: "nat \<Rightarrow> string \<Rightarrow> agent_registry \<Rightarrow> agent_registry" where
  "remove_agent now i r =
     r\<lparr>rg_agents := filter (\<lambda>x. ah_agent x \<noteq> i) (rg_agents r), rg_last_finished := Some now\<rparr>"

section \<open>Operations of the daemon\<close>

record daemon =
  dm_store :: trace_store
  dm_registry :: agent_registry

type_synonym 'a daemon_op = "daemon \<Rightarrow> (rpc_error + 'a) \<times> daemon"

definition d_bind :: "'a daemon_op \<Rightarrow> ('a \<Rightarrow> 'b daemon_op) \<Rightarrow> 'b daemon_op" where
  "d_bind m f = (\<lambda>d. case m d of (Inl e, d') \<Rightarrow> (Inl e, d') | (Inr x, d') \<Rightarrow> f x d')"

definition d_return :: "'a \<Rightarrow> 'a daemon_op" where
  "d_return x = (\<lambda>d. (Inr x, d))"

definition d_fail :: "rpc_error \<Rightarrow> 'a daemon_op" where
  "d_fail e = (\<lambda>d. (Inl e, d))"

text \<open>An operation on the store; its error is one of the wire.\<close>

definition in_store :: "'a trace_op \<Rightarrow> 'a daemon_op" where
  "in_store m = (\<lambda>d. case m (dm_store d) of
     (Inl e, st) \<Rightarrow> (Inl (rpc_of_trace_error e), d\<lparr>dm_store := st\<rparr>)
   | (Inr x, st) \<Rightarrow> (Inr x, d\<lparr>dm_store := st\<rparr>))"

definition in_registry :: "(agent_registry \<Rightarrow> 'a \<times> agent_registry) \<Rightarrow> 'a daemon_op" where
  "in_registry f = (\<lambda>d. case f (dm_registry d) of (x, r) \<Rightarrow> (Inr x, d\<lparr>dm_registry := r\<rparr>))"

section \<open>Loading a conversation\<close>

definition message_of_stored :: "stored_message \<Rightarrow> chat_message" where
  "message_of_stored m = \<lparr>cm_role = sm_role m, cm_content = sm_content m\<rparr>"

text \<open>A turn whose calls were never answered is dropped in the store too.\<close>

definition drop_unanswered :: "store_env \<Rightarrow> string \<Rightarrow> nat \<Rightarrow> chat_message \<Rightarrow> unit daemon_op" where
  "drop_unanswered env s keep m = in_store
     (t_bind (truncate_session_messages env s keep) (\<lambda>_.
      t_bind (append_event env (event_payload (repaired_payload keep m) (event_new s ''session.repaired''))) (\<lambda>_.
        t_return ())))"

definition invalid_history :: "string \<Rightarrow> string \<Rightarrow> rpc_error" where
  "invalid_history s reason = with_details
     (internal_error (''session '' @ s @ '': the stored conversation is not one the API accepts ('' @ reason
        @ '');              delete the session or export it for inspection''))
     (jobj [(''reason'', JStr ''invalid_history'')])"

definition totals_usage :: "usage_totals \<Rightarrow> usage" where
  "totals_usage t =
     \<lparr>us_input = of_nat (ut_input t), us_output = of_nat (ut_output t), us_cache_read = of_nat (ut_cache_read t),
      us_cache_creation = of_nat (ut_cache_creation t)\<rparr>"

definition seed_from_store :: "store_env \<Rightarrow> conversation \<Rightarrow> conversation daemon_op" where
  "seed_from_store env c = (\<lambda>d. case call_stats env (session_calls (cv_session c)) (dm_store d) of
     (r, st) \<Rightarrow>
       (Inr (case r of
               Inr t \<Rightarrow> if 0 < ut_calls t
                        then seed_totals (totals_usage t) (if ut_unpriced t = 0 then Some (of_int (ut_cost t)) else None)
                               (of_nat (ut_calls t)) c
                        else c
             | Inl _ \<Rightarrow> c), d\<lparr>dm_store := st\<rparr>))"

definition load_conversation :: "store_env \<Rightarrow> string \<Rightarrow> conversation daemon_op" where
  "load_conversation env s =
     d_bind (in_registry (\<lambda>r. (loaded_conversation s r, r))) (\<lambda>held.
     case held of
       Some c \<Rightarrow> d_return c
     | None \<Rightarrow>
         d_bind (in_store (get_session env s)) (\<lambda>session.
         d_bind (in_store (session_messages env s 0 None)) (\<lambda>rows.
         let c0 = with_tools_hash (sr_tools_hash session) (conv_load s (map message_of_stored rows));
             (dropped, c) = conv_repair c0
         in d_bind (case dropped of
               None \<Rightarrow> d_return ()
             | Some m \<Rightarrow> drop_unanswered env s (length (cv_messages c)) m) (\<lambda>_.
            case conv_validate c of
              Some reason \<Rightarrow> d_fail (invalid_history s reason)
            | None \<Rightarrow>
                d_bind (if 0 < sr_message_count session then seed_from_store env c else d_return c) (\<lambda>c.
                  in_registry (insert_conversation s c))))))"

section \<open>Starting a run\<close>

definition run_options_json :: "run_options \<Rightarrow> json" where
  "run_options_json o' = jobj
     ((case ro_model o' of Some m \<Rightarrow> [(''model'', JStr m)] | None \<Rightarrow> [])
      @ (case ro_effort o' of Some e \<Rightarrow> [(''effort'', JStr (effort_str e))] | None \<Rightarrow> [])
      @ (case ro_apprentice o' of Some b \<Rightarrow> [(''apprentice'', JBool b)] | None \<Rightarrow> [])
      @ (case ro_permission_mode o' of Some m \<Rightarrow> [(''permission_mode'', JStr (mode_name m))] | None \<Rightarrow> []))"

definition deleted_conflict :: "string \<Rightarrow> rpc_error" where
  "deleted_conflict s = conflict_error (''session '' @ s @ '' was deleted; its conversation is gone'')"

definition running_conflict :: "string \<Rightarrow> agent_handle \<Rightarrow> rpc_error" where
  "running_conflict s h = with_details
     (conflict_error (''agent '' @ ah_agent h @ '' is still running on session '' @ s))
     (jobj [(''agent_id'', JStr (ah_agent h))])"

definition user_row :: "conversation \<Rightarrow> string \<Rightarrow> new_message" where
  "user_row c agent =
     \<lparr>nm_session = cv_session c, nm_seq = length (cv_messages c), nm_role = cm_role (last (cv_messages c)),
      nm_content = cm_content (last (cv_messages c)), nm_agent = Some agent, nm_step = None\<rparr>"

definition user_event :: "string \<Rightarrow> string \<Rightarrow> string \<Rightarrow> new_event" where
  "user_event s agent prompt = event_blob_bytes prompt ''text/plain; charset=utf-8''
     (event_payload (jobj [(''text_len'', JInt (int (length prompt)))]) (event_agent agent (event_new s ''user.message'')))"

definition provisional_title :: "session_row \<Rightarrow> string \<Rightarrow> string option" where
  "provisional_title session prompt =
     (if sr_title_source session = None \<and> sr_message_count session = 0 \<and> first_prompt_title prompt \<noteq> []
      then Some (first_prompt_title prompt) else None)"

definition record_user_turn :: "store_env \<Rightarrow> string \<Rightarrow> string \<Rightarrow> string \<Rightarrow> string option \<Rightarrow> new_message \<Rightarrow> string trace_op" where
  "record_user_turn env s agent prompt title row =
     t_then (case title of
         Some t \<Rightarrow> t_bind (set_session_title env s (Some t) TitlePrompt) (\<lambda>_. t_return ())
       | None \<Rightarrow> t_return ())
       (append_with_message env (user_event s agent prompt) row)"

text \<open>The checks before anything is recorded.\<close>

definition check_start :: "store_env \<Rightarrow> string \<Rightarrow> session_row daemon_op" where
  "check_start env s =
     d_bind (in_store (get_session env s)) (\<lambda>session.
     if sr_status session = SessionDeleted then d_fail (deleted_conflict s)
     else d_bind (in_registry (\<lambda>r. (running_on s r, r))) (\<lambda>running.
       case running of Some h \<Rightarrow> d_fail (running_conflict s h) | None \<Rightarrow> d_return session))"

text \<open>
  The user turn, in memory and then in the store; when the store refuses, the registry forgets the
  agent. The turn stays in the conversation.
\<close>

definition push_prompt :: "string \<Rightarrow> string \<Rightarrow> conversation \<Rightarrow> agent_registry \<Rightarrow> conversation \<times> agent_registry" where
  "push_prompt s prompt c r =
     (let c' = push_user_text prompt c in (c', r\<lparr>rg_convs := (rg_convs r)(s \<mapsto> c')\<rparr>))"

definition record_prompt :: "store_env \<Rightarrow> nat \<Rightarrow> string \<Rightarrow> string \<Rightarrow> string \<Rightarrow> string option \<Rightarrow> conversation \<Rightarrow> unit daemon_op" where
  "record_prompt env now s agent prompt title c = (\<lambda>d.
     case in_store (record_user_turn env s agent prompt title (user_row c agent)) d of
       (Inl e, d') \<Rightarrow> (Inl e, d'\<lparr>dm_registry := remove_agent now agent (dm_registry d')\<rparr>)
     | (Inr _, d') \<Rightarrow> (Inr (), d'))"

definition new_handle :: "string \<Rightarrow> string \<Rightarrow> agent_handle" where
  "new_handle agent s = \<lparr>ah_agent = agent, ah_session = s, ah_finished = None\<rparr>"

text \<open>The part after the checks, and the whole start: the handle and the conversation of the run.\<close>

definition begin_run ::
  "store_env \<Rightarrow> nat \<Rightarrow> run_options \<Rightarrow> string \<Rightarrow> string \<Rightarrow> session_row \<Rightarrow> (agent_handle \<times> conversation) daemon_op" where
  "begin_run env now opts s prompt session =
     d_bind (load_conversation env s) (\<lambda>c.
     d_bind (in_store (start_agent env ((new_agent_main s prompt)\<lparr>na_options := run_options_json opts\<rparr>))) (\<lambda>agent.
     d_bind (in_registry (\<lambda>r. ((), add_agent (new_handle agent s) r))) (\<lambda>_.
     d_bind (in_registry (push_prompt s prompt c)) (\<lambda>c'.
     d_bind (record_prompt env now s agent prompt (provisional_title session prompt) c') (\<lambda>_.
       d_return (new_handle agent s, c'))))))"

definition start_run ::
  "store_env \<Rightarrow> nat \<Rightarrow> run_options \<Rightarrow> string \<Rightarrow> string \<Rightarrow> (agent_handle \<times> conversation) daemon_op" where
  "start_run env now opts s prompt = d_bind (check_start env s) (begin_run env now opts s prompt)"

text \<open>
  The end of a run: what the task leaves in the conversation it held the lock of, and the registry
  without the agent. No operation takes the conversation out while an agent runs on its session.
\<close>

definition end_run :: "nat \<Rightarrow> agent_handle \<Rightarrow> conversation \<Rightarrow> agent_registry \<Rightarrow> unit \<times> agent_registry" where
  "end_run now h c r = ((), remove_agent now (ah_agent h) (r\<lparr>rg_convs := (rg_convs r)(ah_session h \<mapsto> c)\<rparr>))"

section \<open>Titles\<close>

definition title_system :: string where
  "title_system = ''You name coding sessions. Reply with a title of at most eight ''
     @ ''words for the conversation you are given: what the user wanted, in plain words. No quotes, ''
     @ ''no trailing period, nothing but the title.''"

definition title_max_tokens :: nat where
  "title_max_tokens = 30"

definition title_input_chars :: nat where
  "title_input_chars = 2000"

definition title_chars :: nat where
  "title_chars = 80"

definition cut_title :: "string \<Rightarrow> nat \<Rightarrow> string" where
  "cut_title t m = (if m < char_count t then trim_end (take_chars m t) @ ellipsis else t)"

text \<open>The quotes \<open>trim_matches\<close> takes off: straight ones, and U+201C and U+201D.\<close>

definition quote_marks :: "string list" where
  "quote_marks = [[CHR 0x22], [CHR 0x27], [CHR 0xE2, CHR 0x80, CHR 0x9C], [CHR 0xE2, CHR 0x80, CHR 0x9D]]"

function trim_marks_start :: "string \<Rightarrow> string" where
  "trim_marks_start s =
     (case List.map_filter (strip_prefix s) quote_marks of [] \<Rightarrow> s | r # _ \<Rightarrow> trim_marks_start r)"
  by pat_completeness auto

termination
proof (relation "measure length")
  fix s r :: string and rs
  assume "List.map_filter (strip_prefix s) quote_marks = r # rs"
  then have "r \<in> set (List.map_filter (strip_prefix s) quote_marks)" by simp
  then obtain m where "m \<in> set quote_marks" "strip_prefix s m = Some r"
    by (auto simp: List.map_filter_def)
  then have "m \<noteq> []" "s = m @ r" by (auto simp: quote_marks_def strip_prefix_Some_iff)
  then show "(r, s) \<in> measure length" by simp
qed simp

function trim_marks_end :: "string \<Rightarrow> string" where
  "trim_marks_end s =
     (case List.map_filter (strip_suffix s) quote_marks of [] \<Rightarrow> s | r # _ \<Rightarrow> trim_marks_end r)"
  by pat_completeness auto

termination
proof (relation "measure length")
  fix s r :: string and rs
  assume "List.map_filter (strip_suffix s) quote_marks = r # rs"
  then have "r \<in> set (List.map_filter (strip_suffix s) quote_marks)" by simp
  then obtain m where "m \<in> set quote_marks" "strip_suffix s m = Some r"
    by (auto simp: List.map_filter_def)
  then have "m \<noteq> []" "s = r @ m" by (auto simp: quote_marks_def strip_suffix_Some_iff)
  then show "(r, s) \<in> measure length" by simp
qed simp

definition trim_dots_end :: "string \<Rightarrow> string" where
  "trim_dots_end s = rev (dropWhile (\<lambda>c. c = CHR ''.'') (rev s))"

definition clean_title :: "string \<Rightarrow> string option" where
  "clean_title t =
     (case find (\<lambda>l. l \<noteq> []) (map trim (lines_of t)) of
        None \<Rightarrow> None
      | Some l \<Rightarrow>
          (let l' = trim (trim_dots_end (trim_marks_end (trim_marks_start l)))
           in if l' = [] then None else Some (cut_title l' title_chars)))"

definition title_request :: "string \<Rightarrow> string \<Rightarrow> string \<Rightarrow> mentor_request" where
  "title_request model prompt answer =
     \<lparr>mq_model = model, mq_max_tokens = title_max_tokens,
      mq_system = [\<lparr>sb_text = title_system, sb_cache = False\<rparr>],
      mq_messages = [chat_user (''User:'' @ [CHR 0x0A] @ cut_title prompt title_input_chars @ [CHR 0x0A, CHR 0x0A]
        @ ''Assistant:'' @ [CHR 0x0A] @ cut_title answer title_input_chars)],
      mq_tools = [], mq_thinking = ThinkingDisabled, mq_effort = EffortLow, mq_metadata = None\<rparr>"

text \<open>What the title task asks of the daemon and the mentor.\<close>

record title_services =
  tv_config :: "string + bool \<times> string"
  tv_mentor :: "string option"
  tv_body :: "mentor_request \<Rightarrow> string + string"
  tv_complete :: "mentor_request \<Rightarrow> mentor_error + mentor_response"
  tv_call_id :: string
  tv_price :: "string \<Rightarrow> usage \<Rightarrow> u64 option"

definition title_due :: "store_env \<Rightarrow> title_services \<Rightarrow> string \<Rightarrow> trace_store \<Rightarrow> bool \<times> trace_store" where
  "title_due env tv s st =
     (case tv_config tv of
        Inr (True, _) \<Rightarrow>
          (case get_session env s st of
             (Inr session, st') \<Rightarrow> (sr_title_source session = Some (title_source_str TitlePrompt), st')
           | (Inl _, st') \<Rightarrow> (False, st'))
      | _ \<Rightarrow> (False, st))"

datatype title_result = TitleFailed string | TitleUnusable | TitleSet string | TitleKept string

text \<open>The error branch: what the store says to it is dropped.\<close>

definition record_title_error :: "store_env \<Rightarrow> step_ref \<Rightarrow> string \<Rightarrow> mentor_error \<Rightarrow> unit trace_op" where
  "record_title_error env at cid err = (\<lambda>st. (Inr (), snd
     (t_bind (record_mentor_error env at cid err 0 True) (\<lambda>_.
        finish_step env (sf_step at) (if err = MentorCancelled then RunCancelledStatus else RunErrorStatus)) st)))"

definition record_title :: "store_env \<Rightarrow> step_ref \<Rightarrow> string \<Rightarrow> string \<Rightarrow> bool trace_op" where
  "record_title env at cid title =
     t_bind (set_session_title env (sf_session at) (Some title) TitleGenerated) (\<lambda>ok.
     if ok then t_bind (append_event env (event_payload (jobj
            [(''title'', JStr title), (''source'', JStr (title_source_str TitleGenerated)), (''call_id'', JStr cid)])
            (step_event at ''session.title''))) (\<lambda>_. t_return True)
     else t_return False)"

definition generate_title ::
  "store_env \<Rightarrow> title_services \<Rightarrow> string \<Rightarrow> string \<Rightarrow> string \<Rightarrow> string \<Rightarrow> title_result trace_op" where
  "generate_title env tv s agent prompt answer =
     (case (tv_config tv, tv_mentor tv) of
        (Inl e, _) \<Rightarrow> t_return (TitleFailed e)
      | (Inr _, Some e) \<Rightarrow> t_return (TitleFailed e)
      | (Inr (_, model), None) \<Rightarrow>
          (let req = title_request model prompt answer; cid = tv_call_id tv in
           case tv_body tv req of
             Inl e \<Rightarrow> t_return (TitleFailed e)
           | Inr body \<Rightarrow>
               t_bind (start_step env agent) (\<lambda>step.
               let at = \<lparr>sf_session = s, sf_agent = agent, sf_step = step\<rparr> in
               t_bind (record_mentor_request env at cid CallTitle req body None) (\<lambda>_.
               case tv_complete tv req of
                 Inl err \<Rightarrow> t_then (record_title_error env at cid err) (t_return (TitleFailed (mentor_error_str err)))
               | Inr resp \<Rightarrow>
                   t_then (t_bind (record_mentor_response env at cid resp (tv_price tv (mr_model resp) (mr_usage resp)))
                       (\<lambda>_. finish_step env step RunOk))
                   (case clean_title (response_text resp) of
                      None \<Rightarrow> t_return TitleUnusable
                    | Some title \<Rightarrow> t_bind (record_title env at cid title) (\<lambda>ok.
                        t_return (if ok then TitleSet title else TitleKept title)))))))"

end
