(* ===== verification/Session_Methods.thy ===== *)
theory Session_Methods
  imports Agent_Sessions
begin

text \<open>
  The \<open>session.*\<close> methods of \<open>crates/core/src/sessions/mod.rs\<close> over the daemon: pages of sessions and
  messages, archive, delete, rename, export and the user's mark on a run. Page sizes are \<open>u32\<close> with
  the wrap-around of a release build.
\<close>

definition default_page :: "32 word" where
  "default_page = 200"

definition ensure_idle :: "string \<Rightarrow> unit daemon_op" where
  "ensure_idle s =
     d_bind (in_registry (\<lambda>r. (running_on s r, r))) (\<lambda>running.
     case running of Some h \<Rightarrow> d_fail (running_conflict s h) | None \<Rightarrow> d_return ())"

definition running_agent :: "agent_registry \<Rightarrow> string \<Rightarrow> string option" where
  "running_agent r s =
     (case running_on s r of Some h \<Rightarrow> if handle_running h then Some (ah_agent h) else None | None \<Rightarrow> None)"

section \<open>Reading\<close>

record session_list_params =
  sl_query :: "string option"
  sl_workspace :: "string option"
  sl_workspace_id :: "string option"
  sl_archived :: bool
  sl_limit :: "32 word option"
  sl_offset :: "32 word option"

text \<open>A caller's spelling of a workspace becomes the canonical one, when it has one.\<close>

definition session_query_of :: "(string \<Rightarrow> string option) \<Rightarrow> session_list_params \<Rightarrow> session_query" where
  "session_query_of canonical p =
     \<lparr>sq_query = sl_query p,
      sq_workspace = map_option (\<lambda>root. case canonical root of Some c \<Rightarrow> c | None \<Rightarrow> root) (sl_workspace p),
      sq_workspace_id = sl_workspace_id p, sq_archived = sl_archived p, sq_limit = map_option unat (sl_limit p),
      sq_offset = (case sl_offset p of Some n \<Rightarrow> unat n | None \<Rightarrow> 0)\<rparr>"

definition session_list_method ::
  "store_env \<Rightarrow> (string \<Rightarrow> string) \<Rightarrow> (string \<Rightarrow> string \<Rightarrow> bool) \<Rightarrow> (string \<Rightarrow> string option) \<Rightarrow> session_list_params \<Rightarrow>
   (session_summary \<times> string option) list daemon_op" where
  "session_list_method env lowercase fts canonical p =
     d_bind (in_store (list_sessions env lowercase fts (session_query_of canonical p))) (\<lambda>rows.
     in_registry (\<lambda>r. (map (\<lambda>y. (y, running_agent r (sy_id y))) rows, r)))"

record session_get_params =
  sg_id :: string
  sg_after :: "nat option"
  sg_before :: "nat option"
  sg_limit :: "32 word option"

record session_get_result =
  so_session :: session_summary
  so_running :: "string option"
  so_messages :: "session_message list"
  so_has_more :: bool
  so_agents :: "agent_summary list"

text \<open>One past the page tells whether more follow, or precede.\<close>

definition page_limit :: "session_get_params \<Rightarrow> 32 word" where
  "page_limit p = max 1 (case sg_limit p of Some n \<Rightarrow> n | None \<Rightarrow> default_page)"

definition page_rows :: "store_env \<Rightarrow> session_get_params \<Rightarrow> stored_message list trace_op" where
  "page_rows env p =
     (let n = unat (page_limit p + 1) in
      case sg_before p of
        Some before \<Rightarrow> session_messages_before env (sg_id p) before n
      | None \<Rightarrow> session_messages env (sg_id p) (case sg_after p of Some a \<Rightarrow> a | None \<Rightarrow> 0) (Some n))"

definition cut_page :: "session_get_params \<Rightarrow> 'a list \<Rightarrow> 'a list \<times> bool" where
  "cut_page p rows =
     (if unat (page_limit p) < length rows
      then (if sg_before p \<noteq> None then drop 1 rows else take (unat (page_limit p)) rows, True)
      else (rows, False))"

definition session_get :: "store_env \<Rightarrow> session_get_params \<Rightarrow> session_get_result daemon_op" where
  "session_get env p =
     d_bind (in_registry (\<lambda>r. (running_agent r (sg_id p), r))) (\<lambda>running.
     d_bind (in_store (session_info env (sg_id p))) (\<lambda>info.
     d_bind (in_store (page_rows env p)) (\<lambda>rows.
     d_bind (in_store (session_agents env (sg_id p))) (\<lambda>agents.
       d_return \<lparr>so_session = info, so_running = running, so_messages = map into_wire (fst (cut_page p rows)),
                 so_has_more = snd (cut_page p rows), so_agents = agents\<rparr>))))"

definition session_export_method :: "store_env \<Rightarrow> string \<Rightarrow> session_export daemon_op" where
  "session_export_method env s = in_store (export_session env s)"

section \<open>Changing\<close>

text \<open>An archived session's conversation leaves memory; a run on it later loads it back.\<close>

definition session_archive :: "store_env \<Rightarrow> string \<Rightarrow> bool \<Rightarrow> unit daemon_op" where
  "session_archive env s archived =
     d_bind (ensure_idle s) (\<lambda>_.
     d_bind (in_store (archive_session env s archived)) (\<lambda>_.
     if archived then in_registry (\<lambda>r. ((), forget_conversation s r)) else d_return ()))"

definition session_delete :: "store_env \<Rightarrow> string \<Rightarrow> bool \<Rightarrow> delete_report daemon_op" where
  "session_delete env s purge =
     d_bind (ensure_idle s) (\<lambda>_.
     d_bind (in_registry (\<lambda>r. ((), forget_conversation s r))) (\<lambda>_.
       in_store (delete_session env s purge)))"

definition session_rename :: "store_env \<Rightarrow> string \<Rightarrow> string \<Rightarrow> unit daemon_op" where
  "session_rename env s title =
     (if trim title = [] then d_fail (invalid_params ''the title is empty'')
      else in_store
        (t_bind (set_session_title env s (Some (trim title)) TitleUser) (\<lambda>_.
         t_bind (append_event env (event_payload (jobj
            [(''title'', JStr (trim title)), (''source'', JStr (title_source_str TitleUser))])
            (event_new s ''session.title''))) (\<lambda>_. t_return ()))))"

datatype session_mark = MarkAccept | MarkReject | MarkDone

definition mark_kind :: "session_mark \<Rightarrow> string" where
  "mark_kind m = (case m of MarkAccept \<Rightarrow> ''user_accept'' | MarkReject \<Rightarrow> ''user_reject'' | MarkDone \<Rightarrow> ''task_done'')"

definition marked_agent :: "string \<Rightarrow> string option \<Rightarrow> agent_row list \<Rightarrow> rpc_error + string" where
  "marked_agent s wanted agents =
     (case wanted of
        Some a \<Rightarrow>
          (case find (\<lambda>r. ar_id r = a) agents of
             Some r \<Rightarrow> Inr (ar_id r)
           | None \<Rightarrow> Inl (invalid_params (''agent '' @ a @ '' is not a run of session '' @ s)))
      | None \<Rightarrow>
          (if agents = [] then Inl (not_found_error (''session '' @ s @ '' has no run to mark''))
           else Inr (ar_id (last agents))))"

definition event_time :: "store_env \<Rightarrow> string \<Rightarrow> string daemon_op" where
  "event_time env i = (\<lambda>d. case get_event env i (dm_store d) of
     (r, st) \<Rightarrow> (Inr (case r of Inr e \<Rightarrow> er_ts e | Inl _ \<Rightarrow> []), d\<lparr>dm_store := st\<rparr>))"

record mark_result =
  mk_agent :: string
  mk_outcome :: outcome_info
  mk_event :: "agent_event option"

text \<open>\<open>session.mark\<close>, with the event a running agent's subscribers hear.\<close>

definition session_mark_run :: "store_env \<Rightarrow> string \<Rightarrow> session_mark \<Rightarrow> string option \<Rightarrow> string option \<Rightarrow> mark_result daemon_op" where
  "session_mark_run env s mark note wanted =
     d_bind (in_store (get_session env s)) (\<lambda>_.
     d_bind (in_store (list_agents env s)) (\<lambda>agents.
     case marked_agent s wanted agents of
       Inl e \<Rightarrow> d_fail e
     | Inr agent \<Rightarrow>
         (let g = outcome_mark (mark_kind mark) note in
          d_bind (in_store (append_event env (signal_event g s agent))) (\<lambda>i.
          d_bind (in_registry (\<lambda>r. (map_option (\<lambda>_. signal_live_event g agent i) (get_agent_handle agent r), r))) (\<lambda>live.
          d_bind (event_time env i) (\<lambda>at.
            d_return \<lparr>mk_agent = agent, mk_outcome = outcome_info_of i (signal_payload g) at, mk_event = live\<rparr>))))))"

end
