(* ===== verification/Trace_Mirror.thy ===== *)
theory Trace_Mirror
  imports Trace_History
begin

text \<open>
  The stored messages of a session as the copy of a list of messages: \<open>mirrors ms s db\<close> says that the
  table holds the messages \<open>ms\<close> at the positions from 1 and nothing else. Only the operations on
  messages touch it; a write of the last message, a truncation and a reading of all messages are what
  they are on the list.
\<close>

section \<open>Operations that leave the messages alone\<close>

abbreviation messages_are :: "message_row list \<Rightarrow> trace_db \<Rightarrow> bool" where
  "messages_are M db \<equiv> db_messages db = M"

lemma touched_messages [simp]: "db_messages (session_touched s now db) = db_messages db"
  by (simp add: session_touched_def)

lemma twp_insert_messages:
  assumes "db_messages (ts_db st) = M"
  shows "twp (insert_event env p) (\<lambda>_ st'. db_messages (ts_db st') = M) st"
proof -
  have reg: "twp (register_blob env b) (\<lambda>_ st'. db_messages (ts_db st') = M) t" if "db_messages (ts_db t) = M" for b t
    using that by (cases b) (simp add: register_blob_def twp)
  have ref: "twp (reference_blob i) (\<lambda>_ st'. db_messages (ts_db st') = M) t" if "db_messages (ts_db t) = M" for i t
    using that by (simp add: reference_blob_def twp)
  have rest: "twp (t_then (case pp_reference p of None \<Rightarrow> t_return () | Some i \<Rightarrow> reference_blob i)
      (t_bind (t_read (has_session s)) (\<lambda>ok.
       t_then (t_require ok (TraceNotFound ''session'' s))
       (t_bind (fresh_id env) (\<lambda>i.
        t_bind (now_ts env) (\<lambda>now.
        t_bind (t_read (event_row_of p i now)) (\<lambda>row.
        t_then (insert_event_row row)
        (t_then (t_write (session_touched s now)) (t_return i)))))))))
      (\<lambda>_ st'. db_messages (ts_db st') = M) t" if t: "db_messages (ts_db t) = M" for s t
    unfolding twp_then
    by (rule twp_mono [where Q = "\<lambda>_ st'. db_messages (ts_db st') = M"])
      (use t ref in \<open>auto simp: twp insert_event_row_def split: option.split\<close>)
  show ?thesis
    unfolding insert_event_def Let_def twp_then [of "t_all _ _"]
    by (rule twp_mono [OF twp_all [where I = "\<lambda>t. db_messages (ts_db t) = M"]])
      (use assms reg rest in blast)+
qed

lemma twp_insert_each_messages:
  "db_messages (ts_db st) = M \<Longrightarrow> twp (t_each (insert_event env) ps) (\<lambda>_ st'. db_messages (ts_db st') = M) st"
  by (rule twp_each) (auto intro: twp_insert_messages)

lemma keeps_messages_append: "keeps (messages_are M) (append_event env ev)"
  unfolding append_event_def
  by (intro keeps_frames_bind frames_prepare keeps_transaction twp_insert_messages)

lemma keeps_messages_blob: "keeps (messages_are M) (put_blob env b mt)"
  unfolding put_blob_def split_beta
  by (intro keeps_frames_bind frames_blob_write keeps_bind keeps_return keeps_transaction)
    (simp add: register_blob_def twp)

lemma keeps_messages_call: "keeps (messages_are M) (append_with_call env ev c)"
  unfolding append_with_call_def
  by (intro keeps_frames_bind frames_prepare keeps_transaction, unfold twp)
    (auto simp: twp insert_mentor_call_def split: option.split intro!: twp_mono [OF twp_insert_messages])

lemma keeps_messages_completion: "keeps (messages_are M) (append_with_completion env evs c b)"
  unfolding append_with_completion_def
  by (intro keeps_frames_bind frames_each frames_prepare keeps_transaction, unfold twp)
    (auto simp: twp update_mentor_call_def intro!: twp_mono [OF twp_insert_each_messages])

lemma keeps_messages_mentor:
  "keeps (messages_are M) (record_mentor_request env at cid k req body v)"
  "keeps (messages_are M) (record_mentor_response env at cid resp cost)"
  "keeps (messages_are M) (record_mentor_error env at cid err n final)"
  unfolding record_mentor_request_def record_mentor_response_def record_mentor_error_def Let_def
  by (auto split: option.split
      intro!: keeps_bind keeps_return keeps_messages_call keeps_messages_completion keeps_messages_append
        keeps_messages_blob)

lemma keeps_messages_steps:
  "keeps (messages_are M) (start_step env a)" "keeps (messages_are M) (finish_step env i status)"
  unfolding start_step_def finish_step_def
  by (intro keeps_frames_bind frames_basic keeps_transaction; simp add: twp)+

lemma keeps_messages_agent: "keeps (messages_are M) (start_agent env a)"
  unfolding start_agent_def
  by (intro keeps_frames_bind frames_basic frames_prepare keeps_transaction, unfold twp)
    (auto simp: twp intro!: twp_mono [OF twp_insert_messages])

lemma keeps_messages_title: "keeps (messages_are M) (set_session_title env i title src)"
  unfolding set_session_title_def
proof (rule keeps_frames_bind [OF frames_basic(7)], rule keeps_bind, rule keeps_transaction, goal_cases)
  case (2 now n)
  then show ?case by (auto intro!: keeps_return frames_keeps frames_bind)
qed (simp add: twp)

section \<open>A list and its copy\<close>

definition history_of :: "chat_message list \<Rightarrow> nat \<rightharpoonup> role \<times> content_block list" where
  "history_of ms n =
     (if 1 \<le> n \<and> n \<le> length ms then Some (cm_role (ms ! (n - 1)), cm_content (ms ! (n - 1))) else None)"

definition mirrors :: "chat_message list \<Rightarrow> string \<Rightarrow> trace_db \<Rightarrow> bool" where
  "mirrors ms s db \<longleftrightarrow> stored_history s db = history_of ms"

definition storable :: "chat_message list \<Rightarrow> bool" where
  "storable ms \<longleftrightarrow> list_all (\<lambda>m. list_all wf_block (cm_content m)) ms"

lemma storable_simps [simp]:
  "storable []" "storable (ms @ ms') \<longleftrightarrow> storable ms \<and> storable ms'"
  "storable [m] \<longleftrightarrow> list_all wf_block (cm_content m)"
  by (simp_all add: storable_def)

lemma mirrors_messages: "db_messages db' = db_messages db \<Longrightarrow> mirrors ms s db' = mirrors ms s db"
  by (simp add: mirrors_def stored_history_def)

text \<open>The last message of a list, written where it stands.\<close>

definition last_written :: "string \<Rightarrow> chat_message list \<Rightarrow> new_message \<Rightarrow> bool" where
  "last_written s ms row \<longleftrightarrow> ms \<noteq> [] \<and> nm_session row = s \<and> nm_seq row = length ms \<and>
     nm_role row = cm_role (last ms) \<and> nm_content row = cm_content (last ms)"

text \<open>One message more, or another last one.\<close>

definition extends_last :: "chat_message list \<Rightarrow> chat_message list \<Rightarrow> bool" where
  "extends_last ms ms' \<longleftrightarrow> ms' \<noteq> [] \<and> (butlast ms' = ms \<or> ms \<noteq> [] \<and> butlast ms' = butlast ms)"

lemma extends_length: "extends_last ms ms' \<Longrightarrow> length ms \<le> length ms' \<and> ms' \<noteq> []"
  by (cases ms rule: rev_cases; cases ms' rule: rev_cases) (auto simp: extends_last_def)

lemma history_put_last:
  assumes "last_written s ms' row" "extends_last ms ms'"
  shows "history_put (history_of ms) row = history_of ms'"
proof
  fix n
  obtain ns m where ms': "ms' = ns @ [m]" using assms(2) by (cases ms' rule: rev_cases) (auto simp: extends_last_def)
  have row: "nm_seq row = Suc (length ns)" "nm_role row = cm_role m" "nm_content row = cm_content m"
    using assms(1) ms' by (simp_all add: last_written_def)
  from assms(2) ms' obtain old where ms: "ms = ns \<or> ms = ns @ [old]"
    by (cases ms rule: rev_cases) (auto simp: extends_last_def)
  then show "history_put (history_of ms) row n = history_of ms' n"
    by (auto simp: history_put_def history_of_def ms' row nth_append)
qed

lemma extends_push_text: "extends_last ms (push_text t ms)"
  by (auto simp: extends_last_def push_text_def)

lemma extends_snoc: "extends_last ms (ms @ [m])"
  by (simp add: extends_last_def)

lemma storable_push_text: "storable ms \<Longrightarrow> storable (push_text t ms)"
proof -
  assume s: "storable ms"
  have "wf_block (block_text t)" by (simp add: wf_block_def block_text_def)
  moreover have "storable (butlast ms)" "ms \<noteq> [] \<Longrightarrow> list_all wf_block (cm_content (last ms))"
    using s by (auto simp: storable_def list_all_iff dest: in_set_butlastD)
  ultimately show ?thesis using s by (simp add: push_text_def)
qed

lemma storable_last: "storable ms \<Longrightarrow> ms \<noteq> [] \<Longrightarrow> list_all wf_block (cm_content (last ms))"
  by (cases ms rule: rev_cases) simp_all

section \<open>What the operations on messages do to the copy\<close>

text \<open>The last message of the list, written after one was added or changed.\<close>

lemma writes_last:
  assumes "mirrors ms s (ts_db st)" "extends_last ms ms'" "last_written s ms' row" "storable ms'" "length ms' < 2 ^ 63"
  shows "twp (put_session_message env row) (\<lambda>_ st'. mirrors ms' s (ts_db st')) st"
proof -
  have "writable s row"
    using assms(3-5) storable_last [of ms'] by (simp add: writable_def last_written_def)
  from twp_put_history [OF this, of env st] show ?thesis
    using assms(1) history_put_last [OF assms(3,2)] by (simp add: mirrors_def)
qed

lemma twp_put_message_history:
  assumes "writable s m"
  shows "twp (put_message env m)
    (\<lambda>_ st'. stored_history s (ts_db st') = history_put (stored_history s (ts_db st)) m) st"
proof -
  have "stored_history s (db\<lparr>db_messages := upsert_message m t (db_messages db), db_fts := fs\<rparr>) =
      history_put (stored_history s db) m" for db t fs
    using upsert_history [OF assms] by (auto simp: stored_history_def history_put_def)
  then show ?thesis
    by (auto simp: put_message_def put_message_at_def refresh_count_def update_session_def stored_history_def twp)
qed

lemma twp_transaction_body: "(\<And>st'. ts_db st' = ts_db st \<Longrightarrow> twp body Q st') \<Longrightarrow> twp (transaction env body) Q st"
proof -
  assume body: "\<And>st'. ts_db st' = ts_db st \<Longrightarrow> twp body Q st'"
  obtain q st1 where io: "t_io env st = (q, st1)" by fastforce
  then have "ts_db st1 = ts_db st" by (auto simp: t_io_def)
  from body [OF this] show ?thesis
    by (cases q) (auto simp: twp_def transaction_def t_bind_def io split: prod.splits sum.splits)
qed

lemma appends_last:
  assumes "mirrors ms s (ts_db st)" "extends_last ms ms'" "last_written s ms' row" "storable ms'" "length ms' < 2 ^ 63"
  shows "twp (append_with_message env ev row) (\<lambda>_ st'. mirrors ms' s (ts_db st')) st"
proof -
  have w: "writable s row"
    using assms(3-5) storable_last [of ms'] by (simp add: writable_def last_written_def)
  have put: "twp (put_message env row) (\<lambda>_ st'. mirrors ms' s (ts_db st')) t"
    if "db_messages (ts_db t) = db_messages (ts_db st)" for t
    using twp_put_message_history [OF w, of env t] assms(1) history_put_last [OF assms(3,2)] that
    by (simp add: mirrors_def stored_history_def)
  show ?thesis
    unfolding append_with_message_def twp_bind
  proof (rule twp_prepare, rule twp_transaction_body)
    fix p st1 st2 :: trace_store
    assume "ts_db st1 = ts_db st" "ts_db st2 = ts_db st1"
    then have "db_messages (ts_db st2) = db_messages (ts_db st)" by simp
    then show "twp (t_bind (insert_event env p) (\<lambda>i. t_then (put_message env row) (t_return i)))
        (\<lambda>_ st'. mirrors ms' s (ts_db st')) st2" for p
      unfolding twp by (rule twp_mono [OF twp_insert_messages]) (rule put)
  qed
qed

end
