(* ===== verification/Agent_Mirror.thy ===== *)
theory Agent_Mirror
  imports Agent_History Trace_Mirror
begin

text \<open>
  The agent loop keeps the stored conversation in step with the one in memory: each message is stored
  at its position right after it was added, and nothing else of the loop writes messages.
\<close>

definition in_step :: "run_env \<Rightarrow> run_state \<Rightarrow> bool" where
  "in_step env s \<longleftrightarrow> (length (cv_messages (ru_conv s)) < 2 ^ 63 \<longrightarrow>
     mirrors (cv_messages (ru_conv s)) (rn_session env) (run_db s) \<and> storable (cv_messages (ru_conv s)))"

text \<open>What the mentor answers can be written and read back, and no hook edits the run.\<close>

definition plain_answers :: "run_env \<Rightarrow> bool" where
  "plain_answers env \<longleftrightarrow> rn_hooks env = noop_hooks \<and>
     (\<forall>t req evs resp. rw_complete (rn_world env) t req = (evs, Inr resp) \<longrightarrow> list_all wf_block (mr_content resp))"

section \<open>The parts that write no message\<close>

lemma keeps_messages_step: "(\<And>M. keeps (messages_are M) m) \<Longrightarrow> db_messages (ts_db (snd (m st))) = db_messages (ts_db st)"
  using keeps_step [of "messages_are (db_messages (ts_db st))" m st] by blast

interpretation same_messages: run_frame
    "\<lambda>s s'. ru_conv s' = ru_conv s \<and> db_messages (run_db s') = db_messages (run_db s)"
    "\<lambda>st st'. db_messages (ts_db st') = db_messages (ts_db st)" env for env
proof (unfold_locales, goal_cases)
  case (8 at world order calls s xs x)
  have "tool_stable (te_store (rn_tools env)) (\<lambda>st. messages_are M (ts_db st))" for M
    by (intro tool_stable_keeps keeps_messages_append keeps_messages_blob)
  from run_batch_step(1) [OF 8 this] show ?case by (simp add: run_db_def)
qed (auto simp: run_db_def xs_emit_def intro: keeps_messages_step keeps_messages_append keeps_messages_mentor)

lemma in_step_same:
  "in_step env s \<Longrightarrow> cv_messages (ru_conv s') = cv_messages (ru_conv s) \<Longrightarrow>
   db_messages (run_db s') = db_messages (run_db s) \<Longrightarrow> in_step env s'"
  by (simp add: in_step_def mirrors_messages [of "run_db s'" "run_db s"])

lemma in_step_frame:
  assumes "within (\<lambda>s s'. ru_conv s' = ru_conv s \<and> db_messages (run_db s') = db_messages (run_db s)) m"
    "in_step env s" "\<And>x s'. in_step env s' \<Longrightarrow> Q x s'"
  shows "run_wp m Q (\<lambda>_. True) s"
  by (rule within_wp [OF assms(1)]) (use assms(2,3) in_step_same in auto)

lemma in_step_flags [simp]:
  "in_step env (s\<lparr>ru_tick := n\<rparr>) = in_step env s" "in_step env (s\<lparr>ru_continued := b\<rparr>) = in_step env s"
  "in_step env (s\<lparr>ru_exec := xs_emit es (ru_exec s)\<rparr>) = in_step env s"
  "in_step env (s\<lparr>ru_tick := n, ru_exec := xs_emit es (ru_exec s)\<rparr>) = in_step env s"
  by (simp_all add: in_step_def run_db_def xs_emit_def)

lemma frame_store:
  "(\<And>M. keeps (messages_are M) m) \<Longrightarrow>
   within (\<lambda>s s'. ru_conv s' = ru_conv s \<and> db_messages (run_db s') = db_messages (run_db s)) (on_store m)"
  by (rule same_messages.within_store) (rule keeps_messages_step)

section \<open>The parts that do\<close>

lemma run_wp_store:
  "twp m (\<lambda>x st'. Q x (s\<lparr>ru_exec := (ru_exec s)\<lparr>xs_store := st'\<rparr>\<rparr>)) (xs_store (ru_exec s)) \<Longrightarrow>
   run_wp (on_store m) Q (\<lambda>_. True) s"
  by (auto simp: twp_def run_wp_def on_store_def split: prod.splits sum.splits)

lemma run_wp_skip: "(\<And>x t. Q x t) \<Longrightarrow> run_wp (on_store m) Q (\<lambda>_. True) s"
  by (simp add: run_wp_def split: prod.split sum.split)

lemma twp_same_messages:
  "(\<And>M. keeps (messages_are M) m) \<Longrightarrow> (\<And>x st'. db_messages (ts_db st') = db_messages (ts_db st) \<Longrightarrow> Q x st') \<Longrightarrow> twp m Q st"
  using keeps_messages_step [of m st] by (auto simp: twp_def split: prod.split sum.split)

text \<open>The last message of the conversation in memory goes to the store.\<close>

definition one_ahead :: "run_env \<Rightarrow> run_state \<Rightarrow> bool" where
  "one_ahead env s \<longleftrightarrow> (length (cv_messages (ru_conv s)) < 2 ^ 63 \<longrightarrow>
     (\<exists>ms. mirrors ms (rn_session env) (run_db s) \<and> extends_last ms (cv_messages (ru_conv s))) \<and>
     storable (cv_messages (ru_conv s)))"

lemma one_aheadI:
  assumes "in_step env s" "extends_last (cv_messages (ru_conv s)) (cv_messages c)"
    "storable (cv_messages (ru_conv s)) \<Longrightarrow> storable (cv_messages c)"
  shows "one_ahead env (s\<lparr>ru_conv := c\<rparr>)"
proof -
  have "length (cv_messages (ru_conv s)) \<le> length (cv_messages c)"
    using extends_length [OF assms(2)] by simp
  then show ?thesis using assms by (auto simp: one_ahead_def in_step_def run_db_def)
qed

lemma one_ahead_same:
  "one_ahead env s \<Longrightarrow> ru_conv s' = ru_conv s \<Longrightarrow> db_messages (run_db s') = db_messages (run_db s) \<Longrightarrow> one_ahead env s'"
  by (simp add: one_ahead_def mirrors_messages [of "run_db s'" "run_db s"])

lemma row_written: "cv_messages c \<noteq> [] \<Longrightarrow> last_written (rn_session env) (cv_messages c) (run_row env at c)"
  by (simp add: last_written_def run_row_def)

lemma stores_last:
  assumes "one_ahead env s"
    and op: "\<And>ms. mirrors ms (rn_session env) (run_db s) \<Longrightarrow> extends_last ms (cv_messages (ru_conv s)) \<Longrightarrow>
      storable (cv_messages (ru_conv s)) \<Longrightarrow> length (cv_messages (ru_conv s)) < 2 ^ 63 \<Longrightarrow>
      twp m (\<lambda>_ st'. mirrors (cv_messages (ru_conv s)) (rn_session env) (ts_db st')) (xs_store (ru_exec s))"
    and Q: "\<And>x s'. in_step env s' \<Longrightarrow> ru_conv s' = ru_conv s \<Longrightarrow> Q x s'"
  shows "run_wp (on_store m) Q (\<lambda>_. True) s"
proof (rule run_wp_store, cases "length (cv_messages (ru_conv s)) < 2 ^ 63")
  case True
  with assms(1) obtain ms where "mirrors ms (rn_session env) (run_db s)" "extends_last ms (cv_messages (ru_conv s))"
    "storable (cv_messages (ru_conv s))" by (auto simp: one_ahead_def)
  with op True have "twp m (\<lambda>_ st'. mirrors (cv_messages (ru_conv s)) (rn_session env) (ts_db st')) (xs_store (ru_exec s))"
    by blast
  then show "twp m (\<lambda>x st'. Q x (s\<lparr>ru_exec := (ru_exec s)\<lparr>xs_store := st'\<rparr>\<rparr>)) (xs_store (ru_exec s))"
    by (rule twp_mono) (intro Q, use \<open>storable _\<close> in \<open>simp_all add: in_step_def run_db_def\<close>)
next
  case False
  then have "in_step env (s\<lparr>ru_exec := x\<rparr>)" for x by (simp add: in_step_def)
  with Q show "twp m (\<lambda>x st'. Q x (s\<lparr>ru_exec := (ru_exec s)\<lparr>xs_store := st'\<rparr>\<rparr>)) (xs_store (ru_exec s))"
    by (auto simp: twp_def split: prod.split sum.split)
qed

lemma stores_row:
  assumes "one_ahead env s" "cv_messages (ru_conv s) \<noteq> []" "\<And>x s'. in_step env s' \<Longrightarrow> ru_conv s' = ru_conv s \<Longrightarrow> Q x s'"
  shows "run_wp (on_store (put_session_message (rn_store env) (run_row env at (ru_conv s)))) Q (\<lambda>_. True) s"
  by (rule stores_last [OF assms(1)])
    (use assms(2,3) in \<open>auto simp: run_db_def intro!: writes_last row_written\<close>)

lemma stores_with_event:
  assumes "one_ahead env s" "cv_messages (ru_conv s) \<noteq> []" "\<And>x s'. in_step env s' \<Longrightarrow> ru_conv s' = ru_conv s \<Longrightarrow> R x s'"
  shows "run_wp (on_store (append_with_message (rn_store env) ev (run_row env at (ru_conv s)))) R (\<lambda>_. True) s"
  by (rule stores_last [OF assms(1)])
    (use assms(2,3) in \<open>auto simp: run_db_def intro!: appends_last row_written\<close>)

lemma after_response_in_step:
  assumes "in_step env s" "list_all wf_block (mr_content resp)"
  shows "run_wp (after_response env at cid resp) (\<lambda>_ s'. in_step env s') (\<lambda>_. True) s"
proof -
  let ?c = "push_assistant (mr_content resp) (ru_conv s)" and ?s = "s\<lparr>ru_conv := push_assistant (mr_content resp) (ru_conv s)\<rparr>"
  have ahead: "one_ahead env ?s"
    by (rule one_aheadI [OF assms(1)]) (use assms(2) in \<open>simp_all add: push_assistant_def extends_snoc chat_assistant_def\<close>)
  have store: "run_wp (on_store (t_bind (record_mentor_response (rn_store env) at cid resp cost) (\<lambda>_.
      append_with_message (rn_store env) ev (run_row env at ?c)))) (\<lambda>_ s'. in_step env s') (\<lambda>_. True) ?s" for cost ev
  proof (rule stores_last [OF ahead], unfold twp_bind, rule twp_same_messages [OF keeps_messages_mentor(2)])
    fix ms x and st' :: trace_store
    assume m: "mirrors ms (rn_session env) (run_db ?s)" "extends_last ms (cv_messages (ru_conv ?s))"
      "storable (cv_messages (ru_conv ?s))" "length (cv_messages (ru_conv ?s)) < 2 ^ 63"
      and "db_messages (ts_db st') = db_messages (ts_db (xs_store (ru_exec ?s)))"
    then have "mirrors ms (rn_session env) (ts_db st')" by (simp add: run_db_def mirrors_messages [of "ts_db st'" "ts_db (xs_store (ru_exec s))"])
    then show "twp (append_with_message (rn_store env) ev (run_row env at ?c))
        (\<lambda>_ st'. mirrors (cv_messages (ru_conv ?s)) (rn_session env) (ts_db st')) st'"
    proof (rule appends_last)
      have "cv_messages ?c \<noteq> []" by (simp add: push_assistant_def)
      from row_written [OF this, of env at]
      show "last_written (rn_session env) (cv_messages (ru_conv ?s)) (run_row env at ?c)" by simp
    qed (use m in blast)+
  qed
  have usage: "in_step env (t\<lparr>ru_conv := record_usage u cost (ru_conv t)\<rparr>) = in_step env t" for u cost t
    by (simp add: in_step_def run_db_def record_usage_def Let_def split: option.split bool.split)
  show ?thesis
    unfolding after_response_def Let_def
    by (simp add: run_wp, rule run_wp_mono [OF store]) (simp_all add: run_wp usage)
qed

lemma tool_results_in_step:
  assumes "in_step env s" "rn_hooks env = noop_hooks"
  shows "run_wp (tool_results env at seq calls) (\<lambda>_ s'. in_step env s') (\<lambda>_. True) s"
proof -
  have hooks: "hk_before_tools (rn_hooks env) seq calls = calls" "hk_on_results (rn_hooks env) seq xs = xs" for calls xs
    by (simp_all add: assms(2) noop_hooks_def)
  have wf: "list_all wf_block (map (block_of_result \<circ> ex_block) xs)" for xs :: "executed list"
    by (induction xs) (simp_all add: block_of_result_def wf_block_def wf_result_def)
  have wrote: "run_wp (on_store (put_session_message (rn_store env)
        (run_row env at (push_tool_results (map (block_of_result \<circ> ex_block) xs) (ru_conv t)))))
      (\<lambda>_ s'. in_step env s') (\<lambda>_. True)
      (t\<lparr>ru_conv := push_tool_results (map (block_of_result \<circ> ex_block) xs) (ru_conv t)\<rparr>)"
    if "in_step env t" for xs :: "executed list" and t
  proof -
    let ?t = "t\<lparr>ru_conv := push_tool_results (map (block_of_result \<circ> ex_block) xs) (ru_conv t)\<rparr>"
    have "one_ahead env ?t"
      by (rule one_aheadI [OF that]) (simp_all add: push_tool_results_def extends_snoc wf)
    from stores_row [OF this, of "\<lambda>_ s'. in_step env s'"] show ?thesis by (simp add: push_tool_results_def)
  qed
  show ?thesis
    unfolding tool_results_def Let_def hooks run_wp
    by (rule in_step_frame [where env = env, OF same_messages.within_batch], simp add: assms(1),
        rule in_step_frame [where env = env, OF same_messages.within_signals], simp)
      (use wrote [of "t\<lparr>ru_tick := n\<rparr>" for t n] in auto)
qed

lemma continue_in_step:
  assumes "in_step env s"
  shows "run_wp (continue_step env at) (\<lambda>_ s'. in_step env s') (\<lambda>_. True) s"
proof -
  have flag: "run_wp (\<lambda>s. (Inr (), s\<lparr>ru_continued := True\<rparr>)) Q E t = Q () (t\<lparr>ru_continued := True\<rparr>)" for Q E t
    by (simp add: run_wp_def)
  have wrote: "run_wp (on_store (append_with_message (rn_store env) ev (run_row env at (push_user_text x (ru_conv t)))))
      (\<lambda>_ s'. in_step env s') (\<lambda>_. True) (t\<lparr>ru_conv := push_user_text x (ru_conv t)\<rparr>)"
    if "in_step env t" for ev x t
  proof -
    let ?t = "t\<lparr>ru_conv := push_user_text x (ru_conv t)\<rparr>"
    have "one_ahead env ?t"
      by (rule one_aheadI [OF that]) (simp_all add: push_user_text_def extends_push_text storable_push_text)
    from stores_with_event [OF this, of "\<lambda>_ s'. in_step env s'"] show ?thesis
      by (simp add: push_user_text_def push_text_def)
  qed
  show ?thesis
    unfolding continue_step_def using assms wrote [of "s\<lparr>ru_continued := True\<rparr>"]
    by (auto simp: run_wp flag intro!: run_wp_mono [OF wrote])
qed

section \<open>The loop\<close>

lemma close_in_step:
  assumes "in_step env s" "\<And>s'. in_step env s' \<Longrightarrow> run_wp m (\<lambda>_ s'. in_step env s') (\<lambda>_. True) s'"
  shows "run_wp (t_then (close_step env at) m) (\<lambda>_ s'. in_step env s') (\<lambda>_. True) s"
  unfolding run_wp close_step_def
  by (rule in_step_frame [where env = env, OF frame_store [OF keeps_messages_steps(2)] assms(1)]) (rule assms(2))

lemma step_tools_in_step:
  assumes "in_step env s" "rn_hooks env = noop_hooks"
  shows "run_wp (step_with_tools env seq at calls) (\<lambda>_ s'. in_step env s') (\<lambda>_. True) s"
  unfolding step_with_tools_def run_tools_def run_wp
  by (rule run_wp_mono [OF tool_results_in_step [OF assms]],
      rule in_step_frame [where env = env, OF frame_store [OF keeps_messages_steps(2)]]) simp_all

lemma stop_in_step:
  "in_step env s \<Longrightarrow> run_wp (t_bind (stop_run env kind m details) (\<lambda>f. t_return (StopsWith f)))
     (\<lambda>_ s'. in_step env s') (\<lambda>_. True) s"
  unfolding run_wp by (rule in_step_frame [where env = env, OF same_messages.within_stop])

lemma after_step_in_step:
  assumes "in_step env s" "rn_hooks env = noop_hooks"
  shows "run_wp (after_step env seq at resp) (\<lambda>_ s'. in_step env s') (\<lambda>_. True) s"
proof -
  have return: "run_wp (t_return r) (\<lambda>_ s'. in_step env s') (\<lambda>_. True) t" if "in_step env t" for r :: next_step and t
    using that by (simp add: run_wp)
  show ?thesis
    unfolding after_step_def Let_def
    by (cases "mr_stop_reason resp")
      (use assms in \<open>auto simp: run_wp_bind [of "gets _"] run_wp_basic(3)
        intro!: step_tools_in_step close_in_step return stop_in_step continue_in_step\<close>)
qed

lemma step_call_in_step:
  assumes "in_step env s" "plain_answers env"
  shows "run_wp (step_call env fuel seq at) (\<lambda>_ s'. in_step env s') (\<lambda>_. True) s"
proof -
  have hooks: "rn_hooks env = noop_hooks" using assms(2) by (simp add: plain_answers_def)
  have failed: "run_wp (failed_step env at cid err) (\<lambda>_ s'. in_step env s') (\<lambda>_. True) t" if "in_step env t" for cid err t
    unfolding failed_step_def run_wp
    by (rule in_step_frame [where env = env, OF frame_store that])
      (auto intro!: keeps_bind keeps_messages_mentor keeps_messages_steps)
  have answer: "run_wp (after_response env at cid resp) (\<lambda>_ t'. run_wp (after_step env seq at resp) (\<lambda>_ s'. in_step env s') (\<lambda>_. True) t') (\<lambda>_. True) t"
    if "in_step env t" "list_all wf_block (mr_content resp)" for cid resp t
    by (rule run_wp_mono [OF after_response_in_step [OF that]]) (rule after_step_in_step [OF _ hooks])
  have call: "run_wp (call_mentor env fuel at cid)
      (\<lambda>r t. in_step env t \<and> (\<forall>resp. r = Some (Inr resp) \<longrightarrow> list_all wf_block (mr_content resp))) (\<lambda>_. True) t"
    if "in_step env t" for cid t
  proof -
    have "run_wp (call_mentor env fuel at cid) (\<lambda>_ t. in_step env t) (\<lambda>_. True) t"
      by (rule in_step_frame [where env = env, OF same_messages.within_call_mentor that])
    moreover have "run_wp (call_mentor env fuel at cid)
        (\<lambda>r t. \<forall>resp. r = Some (Inr resp) \<longrightarrow> list_all wf_block (mr_content resp)) (\<lambda>_. True) t"
      unfolding call_mentor_def Let_def
      by (auto simp: run_wp split: sum.split intro!: run_wp_skip call_loop_answer)
        (use assms(2) in \<open>simp add: plain_answers_def\<close>)
    ultimately show ?thesis by (simp add: run_wp_def split: prod.splits sum.splits)
  qed
  show ?thesis
    unfolding step_call_def
    by (simp add: run_wp, rule run_wp_mono [OF call])
      (auto simp: assms(1) run_wp split: option.split sum.split intro!: failed answer)
qed

lemma run_step_in_step:
  assumes "in_step env s" "plain_answers env"
  shows "run_wp (run_step env fuel seq) (\<lambda>_ s'. in_step env s') (\<lambda>_. True) s"
proof -
  have hooks: "hk_before_call (rn_hooks env) seq c = c" for c
    using assms(2) by (simp add: plain_answers_def noop_hooks_def)
  have opened: "run_wp (open_step env fuel seq) (\<lambda>_ s'. in_step env s') (\<lambda>_. True) t" if "in_step env t" for t
    unfolding open_step_def hooks run_start_step_def
    by (simp add: run_wp, rule in_step_frame [where env = env, OF frame_store [OF keeps_messages_steps(1)]])
      (use that assms(2) in \<open>auto simp: run_wp intro: step_call_in_step\<close>)
  show ?thesis
    unfolding run_step_def
    by (auto simp: run_wp assms(1) split: option.split
        intro!: in_step_frame [where env = env, OF same_messages.within_guard] opened)
qed

lemma run_steps_in_step:
  assumes "plain_answers env"
  shows "in_step env s \<Longrightarrow> run_wp (run_steps env fuel n seq) (\<lambda>_ s'. in_step env s') (\<lambda>_. True) s"
proof (induction n arbitrary: seq s)
  case 0
  show ?case unfolding run_steps.simps run_wp
    by (rule in_step_frame [where env = env, OF same_messages.within_stop 0]) (simp add: run_wp)
next
  case (Suc n)
  show ?case unfolding run_steps.simps run_wp_bind
    by (rule run_wp_mono [OF run_step_in_step [OF Suc.prems assms]])
      (auto simp: run_wp split: next_step.split intro: Suc.IH)
qed

text \<open>
  C6: Memory and store agree: when a run begins with the stored messages of its session equal to its
  conversation, position by position, and its loop ends without a failure of the trace, they are
  equal again at the end, whatever the mentor answered, the tools did and however the loop stopped;
  and what is stored can be read back.
\<close>

theorem run_mirrors_store:
  assumes "plain_answers env"
    and "mirrors (cv_messages (ru_conv s)) (rn_session env) (run_db s)" "storable (cv_messages (ru_conv s))"
    and "run_loop env fuel s = (Inr r, s')" "length (cv_messages (ru_conv s')) < 2 ^ 63"
  shows "mirrors (cv_messages (ru_conv s')) (rn_session env) (run_db s') \<and> storable (cv_messages (ru_conv s'))"
proof -
  have "in_step env s" using assms(2,3) by (simp add: in_step_def)
  from run_steps_in_step [OF assms(1) this, of fuel "max_steps env" 1] assms(4,5)
  show ?thesis by (simp add: run_wp_def run_loop_def in_step_def)
qed

text \<open>A run on two stored messages that stops at the hard limit of its context.\<close>

definition demo_message :: "nat \<Rightarrow> chat_message \<Rightarrow> message_row" where
  "demo_message n m = \<lparr>ml_session = ''i'', ml_seq = n, ml_role = cm_role m, ml_content = content_json (cm_content m),
     ml_agent = None, ml_step = None, ml_created_at = ''t''\<rparr>"

definition demo_history :: "chat_message list" where
  "demo_history = [chat_user ''hi'', chat_assistant [block_text ''ok'']]"

definition limited_run :: run_env where
  "limited_run = demo_run\<lparr>rn_config := demo_loop_config\<lparr>lc_mentor := (lc_mentor demo_loop_config)\<lparr>gc_context_hard_limit := 1\<rparr>\<rparr>\<rparr>"

definition limited_state :: run_state where
  "limited_state = demo_run_state\<lparr>
     ru_exec := (ru_exec demo_run_state)\<lparr>xs_store := plain_store\<lparr>ts_db := (ts_db plain_store)\<lparr>db_messages :=
       [demo_message 1 (chat_user ''hi''), demo_message 2 (chat_assistant [block_text ''ok''])]\<rparr>\<rparr>\<rparr>,
     ru_conv := conv_load ''i'' demo_history\<rparr>"

lemma record_outcome_always: "\<exists>s'. record_outcome env g at s = (Inr (), s') \<and> ru_conv s' = ru_conv s"
  by (auto simp: record_outcome_def Let_def on_store_def emits_def split: prod.split sum.split)

lemma limited_plain: "plain_answers limited_run"
  by (auto simp: plain_answers_def limited_run_def demo_parts demo_run_def demo_run_world_def demo_answer_def wf_block_def block_text_def)

lemma limited_mirrors: "mirrors demo_history ''i'' (run_db limited_state)"
  unfolding mirrors_def
proof
  fix n :: nat
  have wf: "map (block_of_json \<circ> block_json) [block_text t] = [block_text t]" for t
    by (rule blocks_roundtrip) (simp add: wf_block_def block_text_def)
  then have b: "block_of_json (block_json (block_text t)) = block_text t" for t by simp
  consider "n = 1" | "n = 2" | "n \<noteq> 1" "n \<noteq> 2" by blast
  then show "stored_history ''i'' (run_db limited_state) n = history_of demo_history n"
    by cases (simp_all add: stored_history_def run_db_def limited_state_def demo_message_def message_at_def
      history_of_def demo_history_def read_row_def content_json_def b chat_user_def chat_assistant_def)
qed

lemma limited_storable: "storable demo_history"
  by (simp add: demo_history_def storable_def wf_block_def block_text_def chat_user_def chat_assistant_def)

lemma limited_stops: "\<exists>f s'. run_loop limited_run 70 limited_state = (Inr (Some f), s') \<and> ru_conv s' = ru_conv limited_state"
proof -
  let ?c = "conv_load ''i'' demo_history"
  have conv: "ru_conv (limited_state\<lparr>ru_tick := k\<rparr>) = ?c" "ru_conv limited_state = ?c" "context_tokens ?c = None"
     "length (cv_messages ?c) = 2" for k
    by (simp_all add: limited_state_def conv_load_def conv_new_def context_tokens_def demo_history_def)
  have w: "rn_world limited_run = demo_run_world" "rw_cancelled demo_run_world k = False" "rw_count_tokens demo_run_world k q = Inr 1"
     "gc_context_hard_limit (lc_mentor (rn_config limited_run)) = 1" "max_steps limited_run = Suc 2" for k q
    by (simp_all add: limited_run_def demo_parts demo_run_def demo_run_world_def max_steps_def demo_loop_config_def)
  obtain k where "known_tokens limited_run (limited_state\<lparr>ru_tick := Suc (ru_tick limited_state)\<rparr>) = (Inr (Some 1), limited_state\<lparr>ru_tick := k\<rparr>)"
    by (simp add: known_tokens_def t_bind_def gets_def asks_def t_return_def w conv)
  moreover obtain s1 where "record_outcome limited_run (outcome_error ''context_limit'' (jobj [(''context_tokens'', JInt 1), (''limit'', JInt 1)])) None
     (limited_state\<lparr>ru_tick := k\<rparr>) = (Inr (), s1)" "ru_conv s1 = ?c"
    using record_outcome_always conv(1) by metis
  ultimately obtain f where "run_step limited_run 70 1 limited_state = (Inr (StopsWith f), s1)" 
    by (simp add: run_step_def guard_context_def stop_run_def t_bind_def t_then_def asks_def t_return_def w)
  then have "run_loop limited_run 70 limited_state = (Inr (Some f), s1)"
    unfolding run_loop_def w run_steps.simps by (simp add: t_bind_def t_return_def)
  with \<open>ru_conv s1 = ?c\<close> show ?thesis by (simp add: conv)
qed

lemma run_mirrors_store_witness:
  "\<exists>f s'. run_loop limited_run 70 limited_state = (Inr (Some f), s') \<and> mirrors demo_history ''i'' (run_db s')"
proof -
  have start: "cv_messages (ru_conv limited_state) = demo_history" "rn_session limited_run = ''i''"
    by (simp_all add: limited_state_def conv_load_def limited_run_def demo_run_def)
  obtain f s' where s': "run_loop limited_run 70 limited_state = (Inr (Some f), s')" "ru_conv s' = ru_conv limited_state"
    using limited_stops by blast
  have "mirrors (cv_messages (ru_conv s')) (rn_session limited_run) (run_db s') \<and> storable (cv_messages (ru_conv s'))"
    by (rule run_mirrors_store [OF limited_plain _ _ s'(1)])
      (simp_all add: start s'(2) limited_mirrors limited_storable, simp add: demo_history_def)
  with s' start show ?thesis by auto
qed

end
