(* ===== verification/Session_Guarantees.thy ===== *)
theory Session_Guarantees
  imports Session_Methods Agent_Mirror
begin

text \<open>
  The start of a run on a session: a conversation loaded from the store is the stored one, and a run
  that starts has a history the loop may run on, in memory and in the store alike.
\<close>

section \<open>Operations of the daemon\<close>

definition dwp :: "'a daemon_op \<Rightarrow> ('a \<Rightarrow> daemon \<Rightarrow> bool) \<Rightarrow> daemon \<Rightarrow> bool" where
  "dwp m Q d = (case m d of (Inl e, d') \<Rightarrow> True | (Inr x, d') \<Rightarrow> Q x d')"

named_theorems dwp

lemma dwp_basic [dwp]:
  "dwp (d_bind m f) Q d = dwp m (\<lambda>x d'. dwp (f x) Q d') d"
  "dwp (d_return x) Q' d = Q' x d" "dwp (d_fail e) Q d = True"
  "dwp (in_store op) R d = twp op (\<lambda>x st. R x (d\<lparr>dm_store := st\<rparr>)) (dm_store d)"
  "dwp (in_registry g) U d = U (fst (g (dm_registry d))) (d\<lparr>dm_registry := snd (g (dm_registry d))\<rparr>)"
  by (simp_all add: dwp_def d_bind_def d_return_def d_fail_def in_store_def in_registry_def twp_def
      split: prod.split sum.split)

lemma dwpD: "dwp m Q d \<Longrightarrow> m d = (Inr x, d') \<Longrightarrow> Q x d'"
  by (simp add: dwp_def)

lemma dwp_mono: "dwp m P d \<Longrightarrow> (\<And>x d'. P x d' \<Longrightarrow> R x d') \<Longrightarrow> dwp m R d"
  by (auto simp: dwp_def split: prod.splits sum.splits)

section \<open>Reading and cutting the copy\<close>

lemma history_of_dom: "{n \<in> dom (history_of ms). 0 < n} = {1..<Suc (length ms)}"
  by (auto simp: history_of_def dom_def)

lemma frames_messages: "frames (session_messages env s after limit)"
  unfolding session_messages_def by (intro frames_bind) simp_all

lemma mirrors_read:
  assumes "keys_ok (ts_db st)" "mirrors ms s (ts_db st)"
  shows "twp (session_messages env s 0 None) (\<lambda>out st'. map message_of_stored out = ms \<and> ts_db st' = ts_db st) st"
proof -
  have "map message_of_stored out = ms"
    if seqs: "map sm_seq out = sorted_list_of_set {n \<in> dom (stored_history s (ts_db st)). 0 < n}"
      and rows: "\<forall>x\<in>set out. stored_history s (ts_db st) (sm_seq x) = Some (sm_role x, sm_content x)" for out
  proof -
    have all: "map sm_seq out = [1..<Suc (length ms)]"
      using seqs assms(2) by (simp add: mirrors_def history_of_dom del: upt_Suc)
    then have len: "length out = length ms" by (metis length_map length_upt diff_Suc_1)
    have "message_of_stored (out ! i) = ms ! i" if i: "i < length ms" for i
    proof -
      have "sm_seq (out ! i) = Suc i" using arg_cong [OF all, of "\<lambda>xs. xs ! i"] i len by (simp del: upt_Suc)
      moreover have "stored_history s (ts_db st) (sm_seq (out ! i)) = Some (sm_role (out ! i), sm_content (out ! i))"
        using rows i len by simp
      ultimately show ?thesis using assms(2) i by (simp add: mirrors_def history_of_def message_of_stored_def)
    qed
    then show ?thesis by (intro nth_equalityI) (simp_all add: len)
  qed
  with twp_session_messages [OF assms(1), of 0 env s] frames_messages [of env s 0 None] show ?thesis
    by (auto simp: twp_def frames_def split: prod.splits sum.splits)
qed

lemma mirrors_storable:
  assumes "mirrors ms s db"
  shows "storable ms"
proof -
  have "list_all wf_block (cm_content (ms ! i))" if "i < length ms" for i
  proof -
    have "stored_history s db (Suc i) = Some (cm_role (ms ! i), cm_content (ms ! i))"
      using assms that by (simp add: mirrors_def history_of_def)
    then obtain r where "read_row r = (cm_role (ms ! i), cm_content (ms ! i))" by (auto simp: stored_history_def)
    then have "cm_content (ms ! i) = (case ml_content r of JArr vs \<Rightarrow> map block_of_json vs | _ \<Rightarrow> [])"
      by (simp add: read_row_def)
    then show ?thesis by (cases "ml_content r") (auto simp: list_all_iff wf_block_of_json)
  qed
  then show ?thesis by (simp add: storable_def list_all_length)
qed

lemma find_cut:
  "find (message_at s n) (filter (\<lambda>r. ml_session r = s \<longrightarrow> \<not> k < ml_seq r) rows) =
   (if n \<le> k then find (message_at s n) rows else None)"
  by (induction rows) (auto simp: message_at_def [abs_def])

lemma history_of_take: "k \<le> length ms \<Longrightarrow> history_of (take k ms) n = (if n \<le> k then history_of ms n else None)"
  by (auto simp: history_of_def)

lemma truncates:
  assumes "mirrors ms s (ts_db st)" "k \<le> length ms" "k < 2 ^ 63"
  shows "twp (truncate_session_messages env s k) (\<lambda>_ st'. mirrors (take k ms) s (ts_db st')) st"
proof -
  have cut: "(\<lambda>n. map_option read_row (find (message_at s n)
      (filter (\<lambda>r. ml_session r = s \<longrightarrow> \<not> k < ml_seq r) (db_messages (ts_db st))))) = history_of (take k ms)"
    using assms(1) by (auto simp: mirrors_def stored_history_def find_cut history_of_take [OF assms(2)] fun_eq_iff)
  have k: "to_i64 k = k" using assms(3) by (simp add: to_i64_def)
  show ?thesis
    unfolding truncate_session_messages_def refresh_count_def update_session_def k
    by (rule twp_transaction_body) (simp add: twp mirrors_def stored_history_def cut)
qed

section \<open>Loading\<close>

lemma frames_get_session: "frames (get_session env i)"
  unfolding get_session_def by (intro frames_bind) simp_all

lemma frames_call_stats: "frames (call_stats env f)"
  unfolding call_stats_def by (intro frames_bind) simp_all

lemma dwp_seed:
  assumes "\<And>c' d'. cv_messages c' = cv_messages c \<Longrightarrow> cv_session c' = cv_session c \<Longrightarrow> dm_registry d' = dm_registry d \<Longrightarrow>
    ts_db (dm_store d') = ts_db (dm_store d) \<Longrightarrow> Q c' d'"
  shows "dwp (seed_from_store env c) Q d"
proof (cases "call_stats env (session_calls (cv_session c)) (dm_store d)")
  case (Pair r st)
  with frames_call_stats have "ts_db st = ts_db (dm_store d)" unfolding frames_def by blast
  with Pair show ?thesis
    by (auto simp: dwp_def seed_from_store_def seed_totals_def intro!: assms split: sum.split)
qed

lemma validate_messages: "cv_messages c' = cv_messages c \<Longrightarrow> conv_validate c' = conv_validate c"
  by (simp add: conv_validate_def)

text \<open>The repaired list, and that dropping its last message from the store gives its copy.\<close>

definition repaired :: "chat_message list \<Rightarrow> chat_message list" where
  "repaired ms = cv_messages (snd (conv_repair (conv_load [] ms)))"

lemma repair_cases:
  assumes "cv_messages c = ms"
  obtains "conv_repair c = (None, c)" "repaired ms = ms"
  | m where "conv_repair c = (Some m, c\<lparr>cv_messages := butlast ms\<rparr>)" "repaired ms = butlast ms"
proof -
  have load: "cv_messages (conv_load [] ms) = ms" by (simp add: conv_load_def)
  then have "pending_tool_uses (conv_load [] ms) = pending_tool_uses c" using assms by (simp add: pending_tool_uses_def)
  with load assms that show thesis
    by (cases "pending_tool_uses c = []") (simp_all add: conv_repair_def repaired_def)
qed

lemma drops_unanswered:
  assumes "mirrors ms s (ts_db (dm_store d))" "length ms < 2 ^ 63"
    "\<And>d'. mirrors (butlast ms) s (ts_db (dm_store d')) \<Longrightarrow> dm_registry d' = dm_registry d \<Longrightarrow> Q () d'"
  shows "dwp (drop_unanswered env s (length (butlast ms)) m) Q d"
proof -
  have "twp (truncate_session_messages env s (length (butlast ms))) (\<lambda>_ st'. mirrors (take (length (butlast ms)) ms) s (ts_db st'))
      (dm_store d)"
    by (rule truncates [OF assms(1)]) (use assms(2) in simp_all)
  then have "twp (truncate_session_messages env s (length (butlast ms))) (\<lambda>_ st'. mirrors (butlast ms) s (ts_db st')) (dm_store d)"
    by (simp add: butlast_conv_take)
  then show ?thesis
    unfolding drop_unanswered_def dwp twp_bind
  proof (rule twp_mono, intro twp_same_messages [OF keeps_messages_append], unfold twp)
    fix x y and st st' :: trace_store
    assume m: "mirrors (butlast ms) s (ts_db st)" and same: "db_messages (ts_db st') = db_messages (ts_db st)"
    show "Q () (d\<lparr>dm_store := st'\<rparr>)"
      by (rule assms(3)) (use m in \<open>simp_all add: mirrors_messages [OF same]\<close>)
  qed
qed

lemma loads:
  assumes "keys_ok (ts_db (dm_store d))" "mirrors ms s (ts_db (dm_store d))" "length ms < 2 ^ 63"
    "rg_convs (dm_registry d) s = None"
  shows "dwp (load_conversation env s) (\<lambda>c d'. cv_messages c = repaired ms \<and> cv_session c = s \<and> conv_validate c = None \<and>
     mirrors (cv_messages c) s (ts_db (dm_store d')) \<and>
     dm_registry d' = (dm_registry d)\<lparr>rg_convs := (rg_convs (dm_registry d))(s \<mapsto> c)\<rparr>) d"
proof -
  let ?Q = "\<lambda>c d'. cv_messages c = repaired ms \<and> cv_session c = s \<and> conv_validate c = None \<and>
     mirrors (cv_messages c) s (ts_db (dm_store d')) \<and>
     dm_registry d' = (dm_registry d)\<lparr>rg_convs := (rg_convs (dm_registry d))(s \<mapsto> c)\<rparr>"
  have insert: "dwp (in_registry (insert_conversation s c)) ?Q d'"
    if "cv_messages c = repaired ms" "cv_session c = s" "conv_validate c = None"
      "mirrors (repaired ms) s (ts_db (dm_store d'))" "dm_registry d' = dm_registry d" for c d'
    using that assms(4) by (simp add: dwp insert_conversation_def)
  have last: "dwp (case conv_validate c of Some reason \<Rightarrow> d_fail (invalid_history s reason)
      | None \<Rightarrow> d_bind (if 0 < sr_message_count session then seed_from_store env c else d_return c) (\<lambda>c.
          in_registry (insert_conversation s c))) ?Q d'"
    if c: "cv_messages c = repaired ms" "cv_session c = s"
      "mirrors (repaired ms) s (ts_db (dm_store d'))" "dm_registry d' = dm_registry d" for c d' and session :: session_row
  proof (cases "conv_validate c")
    case None
    have "dwp (seed_from_store env c) (\<lambda>c d'. dwp (in_registry (insert_conversation s c)) ?Q d') d'"
    proof (rule dwp_seed, rule insert)
      fix c' :: conversation and d'' :: daemon
      assume "cv_messages c' = cv_messages c"
      then show "conv_validate c' = None" using validate_messages None by metis
    qed (use c in simp_all)
    moreover have "dwp (in_registry (insert_conversation s c)) ?Q d'" by (rule insert) (use c None in simp_all)
    ultimately show ?thesis using None by (simp add: dwp(1,2))
  qed (simp add: dwp(3))
  have rest: "dwp (let c0 = with_tools_hash (sr_tools_hash session) (conv_load s ms); (dropped, c) = conv_repair c0
      in d_bind (case dropped of None \<Rightarrow> d_return () | Some m \<Rightarrow> drop_unanswered env s (length (cv_messages c)) m) (\<lambda>_.
         case conv_validate c of Some reason \<Rightarrow> d_fail (invalid_history s reason)
         | None \<Rightarrow> d_bind (if 0 < sr_message_count session then seed_from_store env c else d_return c) (\<lambda>c.
             in_registry (insert_conversation s c)))) ?Q d'"
    if d': "ts_db (dm_store d') = ts_db (dm_store d)" "dm_registry d' = dm_registry d" for d' and session :: session_row
  proof -
    let ?c0 = "with_tools_hash (sr_tools_hash session) (conv_load s ms)"
    have c0: "cv_messages ?c0 = ms" "cv_session ?c0 = s" by (simp_all add: with_tools_hash_def conv_load_def conv_new_def)
    have m: "mirrors ms s (ts_db (dm_store d'))" using assms(2) d' by simp
    from c0(1) show ?thesis
    proof (cases rule: repair_cases)
      case 1
      then show ?thesis using last [of ?c0 d' session] c0 m d' by (simp add: dwp(1,2))
    next
      case (2 x)
      let ?c = "?c0\<lparr>cv_messages := butlast ms\<rparr>"
      have "dwp (drop_unanswered env s (length (butlast ms)) x) (\<lambda>_. dwp (case conv_validate ?c of
          Some reason \<Rightarrow> d_fail (invalid_history s reason)
        | None \<Rightarrow> d_bind (if 0 < sr_message_count session then seed_from_store env ?c else d_return ?c) (\<lambda>c.
            in_registry (insert_conversation s c))) ?Q) d'"
        by (rule drops_unanswered [OF m assms(3)], rule last) (use 2 c0 d' in simp_all)
      with 2 show ?thesis by (simp add: dwp(1) del: length_butlast)
    qed
  qed
  show ?thesis
    unfolding load_conversation_def dwp(1,4,5)
    by (simp add: loaded_conversation_def assms(4) dwp(1,4), rule frames_twp [OF frames_get_session],
        rule twp_mono [OF mirrors_read [of _ ms s]])
      (use assms rest in auto)
qed

section \<open>Starting\<close>

definition no_system :: "chat_message list \<Rightarrow> bool" where
  "no_system ms \<longleftrightarrow> list_all (\<lambda>m. cm_role m \<noteq> RoleSystem) ms"

lemma check_messages_role:
  "check_messages i r open ms = Inr (r', open') \<Longrightarrow> no_system ms \<Longrightarrow> r' = (if ms = [] then r else Some (cm_role (last ms)))"
proof (induction i r "open" ms rule: check_messages.induct)
  case (2 i r "open" m ms)
  obtain r1 o1 where c: "check_message i r open m = Inr (r1, o1)"
    using 2(2) by (auto split: sum.splits)
  then have "r1 = Some (cm_role m)"
    using 2(3) by (auto simp: check_message_def Let_def no_system_def split: if_splits option.splits)
  with 2(1) [OF c refl] 2(2,3) c show ?case by (auto simp: no_system_def)
qed simp

lemma valid_history:
  assumes "conv_validate c = None" "no_system (cv_messages c)"
  shows "\<exists>r. history (cv_messages c) r []"
proof -
  obtain r where "check_messages 0 None [] (cv_messages c) = Inr (r, [])"
    using assms(1) by (auto simp: conv_validate_def split: sum.splits if_splits)
  with check_messages_role [OF this assms(2)] show ?thesis by (auto simp: history_def)
qed

lemma repaired_part: "repaired ms = ms \<or> repaired ms = butlast ms"
  by (rule repair_cases [of "conv_load [] ms" ms]) (simp_all add: conv_load_def)

lemma repaired_same: "no_system ms \<Longrightarrow> no_system (repaired ms)" "length (repaired ms) \<le> length ms"
proof -
  show "no_system (repaired ms)" if "no_system ms"
    using repaired_part [of ms] that unfolding no_system_def list_all_iff by (metis in_set_butlastD)
  show "length (repaired ms) \<le> length ms" using repaired_part [of ms] by auto
qed

lemma no_system_push: "no_system ms \<Longrightarrow> no_system (push_text t ms)"
  by (auto simp: no_system_def push_text_def list_all_iff dest: in_set_butlastD)

lemma push_text_length: "length (push_text t ms) \<le> Suc (length ms)" "push_text t ms \<noteq> []"
  by (auto simp: push_text_def)

text \<open>The conversation a start pushes the prompt to.\<close>

lemma loaded_for_start:
  assumes "keys_ok (ts_db (dm_store d))" "mirrors ms s (ts_db (dm_store d))" "length ms < 2 ^ 63"
    and held: "\<And>c. rg_convs (dm_registry d) s = Some c \<Longrightarrow> cv_messages c = ms \<and> cv_session c = s \<and> conv_validate c = None"
  shows "dwp (load_conversation env s) (\<lambda>c d'. cv_messages c = (if rg_convs (dm_registry d) s = None then repaired ms else ms) \<and>
     cv_session c = s \<and> conv_validate c = None \<and> mirrors (cv_messages c) s (ts_db (dm_store d')) \<and>
     rg_agents (dm_registry d') = rg_agents (dm_registry d)) d"
proof (cases "rg_convs (dm_registry d) s")
  case None
  show ?thesis by (rule dwp_mono [OF loads [OF assms(1-3) None]]) (auto simp: None)
next
  case (Some c)
  with held [OF Some] assms(2) show ?thesis
    by (simp add: load_conversation_def dwp loaded_conversation_def)
qed

lemma records_turn:
  assumes "mirrors (cv_messages c) s (ts_db st)" "length (cv_messages c) + 1 < 2 ^ 63" "cv_session c = s"
  shows "twp (record_user_turn env s agent prompt title (user_row (push_user_text t c) agent))
    (\<lambda>_ st'. mirrors (cv_messages (push_user_text t c)) s (ts_db st')) st"
proof -
  let ?ms = "push_text t (cv_messages c)" and ?row = "user_row (push_user_text t c) agent"
  have row: "last_written s ?ms ?row"
    using assms(3) push_text_length(2) by (simp add: last_written_def user_row_def push_user_text_def)
  have len: "length ?ms < 2 ^ 63" using assms(2) push_text_length(1) [of t "cv_messages c"] by simp
  have put: "twp (append_with_message env ev ?row) (\<lambda>_ st'. mirrors ?ms s (ts_db st')) st'"
    if "db_messages (ts_db st') = db_messages (ts_db st)" for ev st'
    by (rule appends_last [OF _ extends_push_text row storable_push_text [OF mirrors_storable [OF assms(1)]] len])
      (use assms(1) mirrors_messages [OF that] in blast)
  show ?thesis
    unfolding record_user_turn_def twp_then
  proof (rule twp_same_messages)
    show "keeps (messages_are M) (case title of Some t \<Rightarrow> t_bind (set_session_title env s (Some t) TitlePrompt) (\<lambda>_. t_return ())
        | None \<Rightarrow> t_return ())" for M
      by (auto split: option.split intro!: keeps_bind keeps_return keeps_messages_title)
  qed (use put in \<open>simp add: push_user_text_def\<close>)
qed

lemma dwp_record_prompt:
  assumes "twp (record_user_turn env s agent prompt title (user_row c agent)) (\<lambda>_ st. Q () (d\<lparr>dm_store := st\<rparr>)) (dm_store d)"
  shows "dwp (record_prompt env now s agent prompt title c) Q d"
  using assms by (auto simp: dwp_def record_prompt_def in_store_def twp_def split: prod.splits sum.splits)

lemma find_filter_none: "find P (filter (\<lambda>x. \<not> P x) xs) = None"
  by (simp add: find_None_iff)


section \<open>Starting succeeds\<close>

text \<open>
  When nothing fails in the store, the session is there and its ids are unused, every write of a start
  goes through.
\<close>

definition alive :: "store_env \<Rightarrow> string \<Rightarrow> trace_store \<Rightarrow> bool" where
  "alive env s st \<longleftrightarrow> no_faults env \<and> inj (se_id env) \<and> has_session s (ts_db st) \<and>
     (\<forall>n\<ge>ts_ids st. se_id env n \<notin> er_id ` set (db_events (ts_db st)) \<and> se_id env n \<notin> ar_id ` set (db_agents (ts_db st)))"

lemma alive_same:
  assumes "alive env s st" "ts_db st' = ts_db st" "ts_ids st \<le> ts_ids st'"
  shows "alive env s st'"
  using assms by (auto simp: alive_def)

lemma alive_faults: "alive env s st \<Longrightarrow> no_faults env"
  by (simp add: alive_def)

lemma blobs_only_agents:
  assumes "blobs_only st st'"
  shows "db_agents (ts_db st') = db_agents (ts_db st)"
proof -
  from assms have eq: "(ts_db st')\<lparr>db_blobs := []\<rparr> = (ts_db st)\<lparr>db_blobs := []\<rparr>" by (simp add: blobs_only_def)
  from arg_cong [OF eq, of db_agents] show ?thesis by simp
qed

lemma does_insert_alive:
  assumes "prepared_ok ev p" "nv_session ev = s" "alive env s st"
  shows "does (insert_event env p) (\<lambda>_ st'. alive env s st') st"
proof -
  have "does (t_each (register_blob env) (pp_register p))
     (\<lambda>_ st'. blobs_only st st' \<and> fst ` set (pp_register p) \<subseteq> br_id ` set (db_blobs (ts_db st'))) st"
    by (rule does_registers)
  then show ?thesis
    unfolding insert_event_def Let_def t_all_def does
    by (rule does_mono)
      (use assms in \<open>auto simp: prepared_ok_def blobs_only_tables blobs_only_agents alive_def has_session_def does inj_eq
         insert_event_row_def event_row_of_def session_touched_def sql_update_key_set split: option.splits\<close>)
qed

lemma does_prepared:
  assumes "alive env s st" "kind_valid (nv_kind ev)" "own_blob ev" "nv_session ev = s"
    and "\<And>p st'. prepared_ok ev p \<Longrightarrow> alive env s st' \<Longrightarrow> same_counters st st' \<Longrightarrow>
      does (f p) Q (st'\<lparr>ts_ops := Suc (ts_ops st')\<rparr>)"
  shows "does (t_bind (prepare env ev) (\<lambda>p. transaction env (f p))) Q st"
  unfolding does does_transaction [OF alive_faults [OF assms(1)]]
proof (rule does_mono [OF does_prepare [OF alive_faults [OF assms(1)] assms(2,3)]], erule conjE, rule assms(5))
  fix st' :: trace_store assume "same_counters st st'"
  then show "alive env s st'" using alive_same [OF assms(1)] by (simp add: same_counters_def)
qed

lemma alive_tick [simp]: "alive env s (st\<lparr>ts_ops := n\<rparr>) = alive env s st" "alive env s (st\<lparr>ts_ticks := n\<rparr>) = alive env s st"
  by (simp_all add: alive_def)

lemma start_kinds: "kind_valid ''agent.started''" "kind_valid ''user.message''"
  by code_simp+

lemma does_start_agent:
  assumes "alive env s st" "na_session a = s" "na_parent a = None"
  shows "does (start_agent env a) (\<lambda>_ st'. alive env s st') st"
  unfolding start_agent_def
proof (rule does_bind [THEN iffD2], unfold does_basic, rule does_prepared [where s = s], goal_cases)
  case (5 p st')
  let ?i = "se_id env (ts_ids st)"
  have i: "?i \<notin> ar_id ` set (db_agents (ts_db st'))" "Suc (ts_ids st) = ts_ids st'"
    using 5(3) assms(1) by (auto simp: same_counters_def alive_def)
  have inserted: "does (insert_event env p) (\<lambda>_ st'. alive env s st') st1" if "alive env s st1" for st1
    by (rule does_insert_alive [OF 5(1) _ that]) (use assms(2) in \<open>simp add: event_payload_def event_agent_def event_new_def\<close>)
  have unused: "se_id env n \<noteq> ?i" if "n \<ge> ts_ids st'" for n
    using that i(2) assms(1) by (auto simp: alive_def inj_eq)
  have has: "has_session s (ts_db st')" using 5(2) by (simp add: alive_def)
  show ?case
    using has i(1) assms(2,3)
    by (simp add: does) (rule inserted, use 5(2) unused in \<open>auto simp: alive_def has_session_def\<close>)
qed (use assms in \<open>auto simp: event_payload_def event_agent_def event_new_def own_blob_def start_kinds alive_def\<close>)

lemma does_append_message:
  assumes "alive env s st" "nv_session ev = s" "kind_valid (nv_kind ev)" "own_blob ev" "nm_session m = s"
  shows "does (append_with_message env ev m) (\<lambda>_ st'. alive env s st') st"
  unfolding append_with_message_def
proof (rule does_prepared [OF assms(1,3,4,2)])
  fix p and st' :: trace_store assume p: "prepared_ok ev p" "alive env s st'"
  show "does (t_bind (insert_event env p) (\<lambda>i. t_then (put_message env m) (t_return i))) (\<lambda>_ st'. alive env s st')
      (st'\<lparr>ts_ops := Suc (ts_ops st')\<rparr>)"
    unfolding does
  proof (rule does_mono [OF does_insert_alive [OF p(1) assms(2)]])
    show "alive env s (st'\<lparr>ts_ops := Suc (ts_ops st')\<rparr>)" using p(2) by simp
  qed (use assms(5) in \<open>auto simp: does put_message_def put_message_at_def refresh_count_def update_session_def
      alive_def has_session_def sql_update_key_set sql_count_def filter_empty_conv\<close>)
qed

lemma does_record_turn:
  assumes "alive env s st" "nm_session m = s"
  shows "does (record_user_turn env s agent prompt title m) (\<lambda>_ st'. alive env s st') st"
  unfolding record_user_turn_def
proof (rule does_then [THEN iffD2])
  have named: "does (case title of Some t \<Rightarrow> t_bind (set_session_title env s (Some t) TitlePrompt) (\<lambda>_. t_return ())
      | None \<Rightarrow> t_return ()) (\<lambda>_ st'. alive env s st') st"
    using assms(1) alive_faults [OF assms(1)]
    by (auto simp: does set_session_title_def does_transaction does_query alive_def has_session_def sql_update_key_set
        split: option.split)
  have "does (append_with_message env (user_event s agent prompt) m) (\<lambda>_ st'. alive env s st') st'" if "alive env s st'" for st'
    using that by (rule does_append_message)
      (simp_all add: assms(2) user_event_def event_blob_bytes_def event_payload_def event_agent_def event_new_def
        start_kinds own_blob_def)
  with named show "does (case title of Some t \<Rightarrow> t_bind (set_session_title env s (Some t) TitlePrompt) (\<lambda>_. t_return ())
      | None \<Rightarrow> t_return ()) (\<lambda>_. does (append_with_message env (user_event s agent prompt) m) (\<lambda>_. alive env s)) st"
    by (rule does_mono)
qed

text \<open>
  A start succeeds when the store takes writes, the session is there and not deleted, its conversation
  is held and nothing runs on it.
\<close>

lemma start_run_succeeds:
  assumes "alive env s (dm_store d)" "session_by s (ts_db (dm_store d)) = Some row" "sr_status row \<noteq> SessionDeleted"
    "session_record row = Inr row" "running_on s (dm_registry d) = None" "rg_convs (dm_registry d) s = Some c" "cv_session c = s"
  obtains h c' d' where "start_run env now opts s prompt d = (Inr (h, c'), d')"
proof -
  have found: "get_session env s st = (Inr row, st\<lparr>ts_ops := Suc (ts_ops st)\<rparr>)" if "ts_db st = ts_db (dm_store d)" for st
    using that alive_faults [OF assms(1)] assms(2,4)
    by (simp add: get_session_def t_bind_def t_query_def t_io_def no_faults_def t_found_def)
  let ?st = "(dm_store d)\<lparr>ts_ops := Suc (ts_ops (dm_store d))\<rparr>"
  obtain agent st1 where agent: "start_agent env ((new_agent_main s prompt)\<lparr>na_options := run_options_json opts\<rparr>) ?st = (Inr agent, st1)"
      "alive env s st1"
    using does_start_agent [of env s ?st "(new_agent_main s prompt)\<lparr>na_options := run_options_json opts\<rparr>"] assms(1)
    by (auto simp: new_agent_main_def dest!: doesD)
  let ?c = "push_user_text prompt c"
  have "nm_session (user_row ?c agent) = s" using assms(7) by (simp add: user_row_def push_user_text_def)
  from does_record_turn [OF agent(2) this, THEN doesD]
  obtain i st2 where turn: "record_user_turn env s agent prompt (provisional_title row prompt) (user_row ?c agent) st1 = (Inr i, st2)"
    by blast
  show thesis
    by (rule that [of "new_handle agent s" ?c])
      (simp add: start_run_def check_start_def begin_run_def load_conversation_def loaded_conversation_def d_bind_def d_return_def
        in_store_def in_registry_def found assms(3,5,6) agent(1) push_prompt_def Let_def record_prompt_def turn)
qed

definition plain_options :: run_options where
  "plain_options = \<lparr>ro_model = None, ro_effort = None, ro_apprentice = None, ro_permission_mode = None\<rparr>"

definition idle_daemon :: daemon where
  "idle_daemon = \<lparr>dm_store = plain_store, dm_registry = registry_empty\<lparr>rg_convs := [''i'' \<mapsto> conv_new ''i'']\<rparr>\<rparr>"

lemma plain_tables:
  "map er_id (db_events (ts_db plain_store)) = [''i1'']" "ts_ids plain_store = 2" "db_agents (ts_db plain_store) = []"
  "map sr_id (db_sessions (ts_db plain_store)) = [''i'']" "db_messages (ts_db plain_store) = []"
  "map sr_status (db_sessions (ts_db plain_store)) = [SessionOpen]"
  "map sr_title_source (db_sessions (ts_db plain_store)) = [None]"
  by code_simp+

lemma plain_alive: "alive plain_env ''i'' plain_store"
proof -
  have "er_id ` set (db_events (ts_db plain_store)) = {''i1''}" using plain_tables(1) by (metis list.set(1,2) list.set_map)
  moreover have "inj (se_id plain_env)" "no_faults plain_env" by (simp_all add: inj_def plain_env_def no_faults_def)
  moreover have "sr_id ` set (db_sessions (ts_db plain_store)) = {''i''}" using plain_tables(4) by (metis list.set(1,2) list.set_map)
  moreover have "se_id plain_env n \<noteq> ''i1''" if "n \<ge> 2" for n
    using that by (cases n; cases "n - 1") (auto simp: plain_env_def)
  ultimately show ?thesis using plain_tables(2,3) by (simp add: alive_def has_session_def)
qed


end
