(* ===== verification/File_Text.thy ===== *)
theory File_Text
  imports Mentor_Sse Workspace_Index
begin

text \<open>
  \<open>crates/core/src/tools/file/text.rs\<close>: what the bytes of a file are. A byte-order mark, the decoding
  of UTF-8 and UTF-16 to the bytes of a \<open>String\<close>, line endings, line numbers; and the searches of
  \<open>str\<close> the file tools use (\<open>match_indices\<close>, \<open>replace\<close>, \<open>replacen\<close>).
\<close>

section \<open>Byte-order marks and encodings\<close>

definition sniff_bytes :: nat where
  "sniff_bytes = 8 * 1024"

datatype bom = BomNone | BomUtf8 | BomUtf16Le | BomUtf16Be

definition bom_bytes :: "bom \<Rightarrow> string" where
  "bom_bytes b =
     (case b of BomNone \<Rightarrow> [] | BomUtf8 \<Rightarrow> [CHR 0xEF, CHR 0xBB, CHR 0xBF] | BomUtf16Le \<Rightarrow> [CHR 0xFF, CHR 0xFE]
      | BomUtf16Be \<Rightarrow> [CHR 0xFE, CHR 0xFF])"

definition bom_detect :: "string \<Rightarrow> bom" where
  "bom_detect bytes =
     (if prefix (bom_bytes BomUtf8) bytes then BomUtf8
      else if prefix (bom_bytes BomUtf16Le) bytes then BomUtf16Le
      else if prefix (bom_bytes BomUtf16Be) bytes then BomUtf16Be
      else BomNone)"

datatype encoding = EncUtf8 | EncUtf8Lossy | EncUtf16Le | EncUtf16Be

definition encoding_label :: "encoding \<Rightarrow> string" where
  "encoding_label e =
     (case e of EncUtf8 \<Rightarrow> ''utf-8'' | EncUtf8Lossy \<Rightarrow> ''utf-8-lossy'' | EncUtf16Le \<Rightarrow> ''utf-16le''
      | EncUtf16Be \<Rightarrow> ''utf-16be'')"

definition is_exact_utf8 :: "encoding \<Rightarrow> bool" where
  "is_exact_utf8 e \<longleftrightarrow> e = EncUtf8"

datatype line_ending = EolNone | EolLf | EolCrLf | EolMixed

definition eol_label :: "line_ending \<Rightarrow> string" where
  "eol_label e = (case e of EolNone \<Rightarrow> ''none'' | EolLf \<Rightarrow> ''lf'' | EolCrLf \<Rightarrow> ''crlf'' | EolMixed \<Rightarrow> ''mixed'')"

record decoded_text =
  dt_text :: string
  dt_bom :: bom
  dt_encoding :: encoding
  dt_eol :: line_ending

definition is_binary :: "string \<Rightarrow> bool" where
  "is_binary bytes \<longleftrightarrow>
     bom_detect bytes \<notin> {BomUtf16Le, BomUtf16Be} \<and> CHR 0x00 \<in> set (take sniff_bytes bytes)"

section \<open>Media types\<close>

definition magic_types :: "(string \<times> string) list" where
  "magic_types =
     [([CHR 0x89] @ ''PNG'' @ [CHR 0x0D, CHR 0x0A, CHR 0x1A, CHR 0x0A], ''image/png''),
      ([CHR 0xFF, CHR 0xD8, CHR 0xFF], ''image/jpeg''),
      (''GIF87a'', ''image/gif''),
      (''GIF89a'', ''image/gif''),
      (''%PDF-'', ''application/pdf''),
      (''PK'' @ [CHR 0x03, CHR 0x04], ''application/zip''),
      ([CHR 0x1F, CHR 0x8B], ''application/gzip''),
      ([CHR 0x7F] @ ''ELF'', ''application/x-elf''),
      (''MZ'', ''application/x-msdownload''),
      (''SQLite format 3'' @ [CHR 0x00], ''application/vnd.sqlite3''),
      ([CHR 0x00] @ ''asm'', ''application/wasm''),
      (''OggS'', ''audio/ogg''),
      (''RIFF'', ''audio/x-riff''),
      ([CHR 0xCA, CHR 0xFE, CHR 0xBA, CHR 0xBE], ''application/java-vm'')]"

definition extension_types :: "(string list \<times> string) list" where
  "extension_types =
     [([''png''], ''image/png''), ([''jpg'', ''jpeg''], ''image/jpeg''), ([''gif''], ''image/gif''),
      ([''webp''], ''image/webp''), ([''ico''], ''image/x-icon''), ([''pdf''], ''application/pdf''),
      ([''zip'', ''jar''], ''application/zip''), ([''gz'', ''tgz''], ''application/gzip''),
      ([''exe'', ''dll''], ''application/x-msdownload''),
      ([''so'', ''dylib'', ''o'', ''a''], ''application/x-sharedlib''), ([''wasm''], ''application/wasm''),
      ([''sqlite'', ''db''], ''application/vnd.sqlite3''), ([''woff'', ''woff2'', ''ttf'', ''otf''], ''font/binary''),
      ([''mp3''], ''audio/mpeg''), ([''mp4''], ''video/mp4'')]"

text \<open>By magic number, else by the extension of the file's name (which must be UTF-8).\<close>

definition sniff_type :: "string \<Rightarrow> string \<Rightarrow> string" where
  "sniff_type bytes name =
     (case find (\<lambda>m. prefix (fst m) bytes) magic_types of
        Some m \<Rightarrow> snd m
      | None \<Rightarrow>
          (case name_extension name of
             Some ext \<Rightarrow>
               (case find (\<lambda>t. ascii_lowercase ext \<in> set (fst t)) extension_types of
                  Some t \<Rightarrow> if utf8_valid ext then snd t else ''application/octet-stream''
                | None \<Rightarrow> ''application/octet-stream'')
           | None \<Rightarrow> ''application/octet-stream''))"

section \<open>UTF-16\<close>

definition low_surrogate :: "nat \<Rightarrow> bool" where
  "low_surrogate u \<longleftrightarrow> 0xDC00 \<le> u \<and> u \<le> 0xDFFF"

definition high_surrogate :: "nat \<Rightarrow> bool" where
  "high_surrogate u \<longleftrightarrow> 0xD800 \<le> u \<and> u < 0xDC00"

text \<open>The UTF-8 bytes of a scalar value, as \<open>String::push\<close> writes them.\<close>

definition utf8_encode :: "nat \<Rightarrow> string" where
  "utf8_encode n =
     (if n < 0x80 then [char_of n]
      else if n < 0x800 then [char_of (0xC0 + n div 64), char_of (0x80 + n mod 64)]
      else if n < 0x10000 then
        [char_of (0xE0 + n div 4096), char_of (0x80 + n div 64 mod 64), char_of (0x80 + n mod 64)]
      else
        [char_of (0xF0 + n div 262144), char_of (0x80 + n div 4096 mod 64), char_of (0x80 + n div 64 mod 64),
         char_of (0x80 + n mod 64)])"

text \<open>A pair of bytes per unit; a last odd byte is padded with 0.\<close>

fun utf16_units :: "bool \<Rightarrow> string \<Rightarrow> nat list" where
  "utf16_units little [] = []"
| "utf16_units little [a] = [if little then of_char a else of_char a * 256]"
| "utf16_units little (a # b # s) =
     (if little then of_char a + of_char b * 256 else of_char a * 256 + of_char b) # utf16_units little s"

text \<open>\<open>char::decode_utf16\<close> with U+FFFD for an unpaired surrogate.\<close>

fun utf16_text :: "nat list \<Rightarrow> string" where
  "utf16_text [] = []"
| "utf16_text [u] = (if high_surrogate u \<or> low_surrogate u then replacement else utf8_encode u)"
| "utf16_text (u # v # us) =
     (if high_surrogate u then
        (if low_surrogate v then utf8_encode (0x10000 + (u - 0xD800) * 1024 + (v - 0xDC00)) @ utf16_text us
         else replacement @ utf16_text (v # us))
      else if low_surrogate u then replacement @ utf16_text (v # us)
      else utf8_encode u @ utf16_text (v # us))"

section \<open>Lines\<close>

text \<open>How many line breaks have a carriage return before them, and how many have none.\<close>

fun count_eols :: "bool \<Rightarrow> string \<Rightarrow> nat \<times> nat" where
  "count_eols cr [] = (0, 0)"
| "count_eols cr (c # s) =
     (let (crlf, lf) = count_eols (c = CHR 0x0D) s
      in if c = CHR 0x0A then (if cr then (Suc crlf, lf) else (crlf, Suc lf)) else (crlf, lf))"

definition line_ending_of :: "string \<Rightarrow> line_ending" where
  "line_ending_of s =
     (case count_eols False s of (crlf, lf) \<Rightarrow>
        if crlf = 0 then (if lf = 0 then EolNone else EolLf) else if lf = 0 then EolCrLf else EolMixed)"

definition decode_bytes :: "string \<Rightarrow> decoded_text" where
  "decode_bytes bytes =
     (let bom = bom_detect bytes; body = drop (length (bom_bytes bom)) bytes;
          (t, enc) = (case bom of
              BomUtf16Le \<Rightarrow> (utf16_text (utf16_units True body), EncUtf16Le)
            | BomUtf16Be \<Rightarrow> (utf16_text (utf16_units False body), EncUtf16Be)
            | _ \<Rightarrow> if utf8_valid body then (body, EncUtf8) else (utf8_lossy body, EncUtf8Lossy))
      in \<lparr>dt_text = t, dt_bom = bom, dt_encoding = enc, dt_eol = line_ending_of t\<rparr>)"

text \<open>\<open>split_inclusive('\n')\<close>: the lines with their breaks, none for the empty text.\<close>

fun split_inclusive :: "string \<Rightarrow> string list" where
  "split_inclusive [] = []"
| "split_inclusive (c # s) =
     (if c = CHR 0x0A then [c] # split_inclusive s
      else (case split_inclusive s of [] \<Rightarrow> [[c]] | l # ls \<Rightarrow> (c # l) # ls))"

definition text_line_count :: "string \<Rightarrow> nat" where
  "text_line_count s = length (split_inclusive s)"

definition text_line_of :: "string \<Rightarrow> nat \<Rightarrow> nat" where
  "text_line_of s offset = length (filter (\<lambda>c. c = CHR 0x0A) (take (min offset (length s)) s)) + 1"

section \<open>Searching and replacing\<close>

function chars_of :: "string \<Rightarrow> string list" where
  "chars_of s = (if s = [] then [] else next_char s # chars_of (drop (length (next_char s)) s))"
  by pat_completeness auto
termination by (relation "measure length") (auto simp: next_char_def split: list.splits)

declare chars_of.simps [simp del]

text \<open>
  \<open>s.split(p)\<close>: the pieces between the matches of \<open>p\<close>, found from left to right without overlap; the
  empty pattern matches before every character and at the end.
\<close>

function split_pat_go :: "string \<Rightarrow> string \<Rightarrow> string \<Rightarrow> string list" where
  "split_pat_go p cur s =
     (case s of
        [] \<Rightarrow> [rev cur]
      | c # t \<Rightarrow>
          (if p \<noteq> [] \<and> take (length p) s = p then rev cur # split_pat_go p [] (drop (length p) s)
           else split_pat_go p (c # cur) t))"
  by pat_completeness auto
termination by (relation "measure (\<lambda>(p, cur, s). length s)") auto

declare split_pat_go.simps [simp del]

definition split_pat :: "string \<Rightarrow> string \<Rightarrow> string list" where
  "split_pat p s = (if p = [] then [] # chars_of s @ [[]] else split_pat_go p [] s)"

definition match_positions :: "string \<Rightarrow> string \<Rightarrow> nat list" where
  "match_positions p s =
     (let pieces = split_pat p s
      in map (\<lambda>i. length (concat (take (Suc i) pieces)) + i * length p) [0..<length pieces - 1])"

definition replace_str :: "string \<Rightarrow> string \<Rightarrow> string \<Rightarrow> string" where
  "replace_str p new s = join_with new (split_pat p s)"

definition replace_first :: "string \<Rightarrow> string \<Rightarrow> string \<Rightarrow> string" where
  "replace_first p new s =
     (case split_pat p s of a # b # rest \<Rightarrow> a @ new @ join_with p (b # rest) | _ \<Rightarrow> s)"

text \<open>\<open>replace("\r\n", "\n")\<close> and \<open>replace('\n', "\r\n")\<close>\<close>

definition crlf :: string where
  "crlf = [CHR 0x0D, CHR 0x0A]"

definition to_lf :: "string \<Rightarrow> string" where
  "to_lf s = replace_str crlf [CHR 0x0A] s"

definition to_crlf :: "string \<Rightarrow> string" where
  "to_crlf s = replace_str [CHR 0x0A] crlf s"

end
