(* ===== verification/File_Disk.thy ===== *)
theory File_Disk
  imports Workspace_Paths
begin

text \<open>
  The disk under the file tools and the atomic write of \<open>crates/core/src/tools/file/atomic.rs\<close>. A disk
  is the file system of \<open>Workspace_Paths\<close> with the bytes of its files; calls to the operating system
  are numbered and any of them may fail (\<open>de_fault\<close>), a failing write after part of its bytes
  (\<open>de_short\<close>). \<open>dk_trail\<close> has every state the disk went through, newest first: what a crash may leave.
  Permissions are not part of a node, so the copy of the permission bits has no counterpart.
\<close>

record disk_env =
  de_fault :: "nat \<Rightarrow> io_error option"
  de_short :: "nat \<Rightarrow> nat"
  de_pid :: nat

record disk =
  dk_fs :: fs
  dk_data :: "string list \<Rightarrow> string"
  dk_ops :: nat
  dk_seq :: nat
  dk_trail :: "(fs \<times> (string list \<Rightarrow> string)) list"

type_synonym 'a disk_op = "disk \<Rightarrow> (io_error + 'a) \<times> disk"

definition k_return :: "'a \<Rightarrow> 'a disk_op" where
  "k_return x = (\<lambda>d. (Inr x, d))"

definition k_fail :: "io_error \<Rightarrow> 'a disk_op" where
  "k_fail e = (\<lambda>d. (Inl e, d))"

definition k_bind :: "'a disk_op \<Rightarrow> ('a \<Rightarrow> 'b disk_op) \<Rightarrow> 'b disk_op" where
  "k_bind m f = (\<lambda>d. case m d of (Inl e, d') \<Rightarrow> (Inl e, d') | (Inr x, d') \<Rightarrow> f x d')"

definition k_lift :: "(fs \<Rightarrow> io_error + 'a) \<Rightarrow> 'a disk_op" where
  "k_lift f = (\<lambda>d. (f (dk_fs d), d))"

section \<open>Calls to the operating system\<close>

text \<open>A call may fail for reasons of its own.\<close>

definition os_call :: "disk_env \<Rightarrow> unit disk_op" where
  "os_call env = (\<lambda>d.
     (case de_fault env (dk_ops d) of Some e \<Rightarrow> Inl e | None \<Rightarrow> Inr (), d\<lparr>dk_ops := Suc (dk_ops d)\<rparr>))"

definition disk_put :: "(fs \<Rightarrow> fs) \<Rightarrow> ((string list \<Rightarrow> string) \<Rightarrow> string list \<Rightarrow> string) \<Rightarrow> unit disk_op" where
  "disk_put f g = (\<lambda>d.
     (Inr (), d\<lparr>dk_fs := f (dk_fs d), dk_data := g (dk_data d),
                dk_trail := (f (dk_fs d), g (dk_data d)) # dk_trail d\<rparr>))"

text \<open>The names below the root of an absolute path without dots.\<close>

definition loc_of :: "path \<Rightarrow> string list" where
  "loc_of p = map comp_str (drop 1 p)"

text \<open>Where a name is put: its directory with the links followed, and the name.\<close>

definition place_of :: "string list \<Rightarrow> fs \<Rightarrow> io_error + string list" where
  "place_of loc fs =
     (case real_walk fs max_links [] (map Normal (butlast loc)) of
        Inl e \<Rightarrow> Inl e
      | Inr up \<Rightarrow> (case search_err fs up of Some e \<Rightarrow> Inl e | None \<Rightarrow> Inr (up @ [last loc])))"

text \<open>\<open>mkdir\<close> and \<open>open\<close> with \<open>O_CREAT | O_EXCL\<close>: a new node where there is none.\<close>

definition already_exists :: io_error where
  "already_exists = OtherIo ''File exists''"

definition new_node :: "disk_env \<Rightarrow> node \<Rightarrow> string list \<Rightarrow> string list disk_op" where
  "new_node env nd loc =
     k_bind (os_call env) (\<lambda>_.
     if loc = [] then k_fail already_exists
     else k_bind (k_lift (place_of loc)) (\<lambda>at.
       k_bind (k_lift (\<lambda>fs. Inr (fs at))) (\<lambda>there.
       if there \<noteq> None then k_fail already_exists
       else k_bind (disk_put (\<lambda>fs. fs(at := Some nd)) (\<lambda>data. data(at := []))) (\<lambda>_. k_return at))))"

definition loc_is_dir :: "string list \<Rightarrow> fs \<Rightarrow> bool" where
  "loc_is_dir loc fs = is_dir fs (abs_path loc)"

text \<open>\<open>std::fs::create_dir_all\<close>\<close>

definition make_dir :: "disk_env \<Rightarrow> string list \<Rightarrow> bool disk_op" where
  "make_dir env loc = (\<lambda>d.
     case new_node env (Dir True) loc d of
       (Inr _, d') \<Rightarrow> (Inr True, d')
     | (Inl e, d') \<Rightarrow>
         (if e = NotFound then (Inr False, d')
          else if loc_is_dir loc (dk_fs d') then (Inr True, d') else (Inl e, d')))"

fun create_dirs :: "disk_env \<Rightarrow> nat \<Rightarrow> string list \<Rightarrow> unit disk_op" where
  "create_dirs env n loc =
     k_bind (make_dir env (take n loc)) (\<lambda>ok.
     if ok then k_return ()
     else case n of
         0 \<Rightarrow> k_fail (OtherIo ''failed to create whole tree'')
       | Suc m \<Rightarrow> k_bind (create_dirs env m loc) (\<lambda>_. (\<lambda>d.
           case new_node env (Dir True) (take n loc) d of
             (Inr _, d') \<Rightarrow> (Inr (), d')
           | (Inl e, d') \<Rightarrow> if loc_is_dir (take n loc) (dk_fs d') then (Inr (), d') else (Inl e, d'))))"

declare create_dirs.simps [simp del]

text \<open>\<open>write_all\<close> on an open file: a failing write may leave part of the bytes.\<close>

definition write_all :: "disk_env \<Rightarrow> string list \<Rightarrow> string \<Rightarrow> unit disk_op" where
  "write_all env at bytes = (\<lambda>d.
     k_bind (disk_put id (\<lambda>data. data(at := take (de_short env (dk_ops d)) bytes))) (\<lambda>_.
     k_bind (os_call env) (\<lambda>_.
       disk_put id (\<lambda>data. data(at := bytes)))) d)"

definition sync_all :: "disk_env \<Rightarrow> unit disk_op" where
  "sync_all env = os_call env"

text \<open>\<open>rename\<close>: the node and the bytes move; what was at the new name is gone in the same step.\<close>

definition rename_file :: "disk_env \<Rightarrow> string list \<Rightarrow> string list \<Rightarrow> unit disk_op" where
  "rename_file env from to =
     k_bind (os_call env) (\<lambda>_.
     k_bind (k_lift (place_of from)) (\<lambda>a.
     k_bind (k_lift (place_of to)) (\<lambda>b.
     k_bind (k_lift (\<lambda>fs. Inr (fs a, fs b))) (\<lambda>(src, dst).
     case (src, dst) of
       (None, _) \<Rightarrow> k_fail NotFound
     | (Some _, Some (Dir _)) \<Rightarrow> k_fail (OtherIo ''Is a directory'')
     | (Some nd, _) \<Rightarrow> disk_put (\<lambda>fs. fs(a := None, b := Some nd)) (\<lambda>data. data(b := data a))))))"

definition remove_file :: "disk_env \<Rightarrow> string list \<Rightarrow> unit disk_op" where
  "remove_file env loc =
     k_bind (os_call env) (\<lambda>_.
     k_bind (k_lift (place_of loc)) (\<lambda>a.
     k_bind (k_lift (\<lambda>fs. Inr (fs a))) (\<lambda>nd.
     case nd of
       None \<Rightarrow> k_fail NotFound
     | Some (Dir _) \<Rightarrow> k_fail (OtherIo ''Is a directory'')
     | Some _ \<Rightarrow> disk_put (\<lambda>fs. fs(a := None)) id)))"

text \<open>\<open>std::fs::read\<close>\<close>

definition read_file :: "disk_env \<Rightarrow> path \<Rightarrow> string disk_op" where
  "read_file env p =
     k_bind (os_call env) (\<lambda>_. (\<lambda>d.
       (case real_walk (dk_fs d) max_links [] p of
          Inl e \<Rightarrow> Inl e
        | Inr at \<Rightarrow> (case dk_fs d at of Some (Dir _) \<Rightarrow> Inl (OtherIo ''Is a directory'') | _ \<Rightarrow> Inr (dk_data d at)), d)))"

section \<open>The atomic write\<close>

definition temp_name :: "disk_env \<Rightarrow> path \<Rightarrow> path disk_op" where
  "temp_name env p =
     (case file_name p of
        None \<Rightarrow> k_fail (OtherIo ''path has no file name'')
      | Some name \<Rightarrow> (\<lambda>d.
          (Inr (butlast p @ [Normal (''.'' @ name @ ''.'' @ show_nat (de_pid env) @ ''.'' @ show_nat (dk_seq d) @ ''.harness-tmp'')]),
           d\<lparr>dk_seq := Suc (dk_seq d)\<rparr>)))"

definition write_temp :: "disk_env \<Rightarrow> unit disk_op \<Rightarrow> path \<Rightarrow> path \<Rightarrow> string \<Rightarrow> unit disk_op" where
  "write_temp env before_rename tmp p bytes =
     k_bind (new_node env File (loc_of tmp)) (\<lambda>at.
     k_bind (write_all env at bytes) (\<lambda>_.
     k_bind (sync_all env) (\<lambda>_.
     k_bind before_rename (\<lambda>_.
       rename_file env (loc_of tmp) (loc_of p)))))"

text \<open>The temporary file goes on failure; whether that, or the last flush of the directory, fails is not asked.\<close>

definition write_atomic_with :: "disk_env \<Rightarrow> unit disk_op \<Rightarrow> path \<Rightarrow> string \<Rightarrow> unit disk_op" where
  "write_atomic_with env before_rename p bytes =
     (case parent p of
        None \<Rightarrow> k_fail (OtherIo ''path has no parent'')
      | Some up \<Rightarrow>
          (if up = [] then k_fail (OtherIo ''path has no parent'')
           else
             k_bind (create_dirs env (length (loc_of up)) (loc_of up)) (\<lambda>_.
             k_bind (temp_name env p) (\<lambda>tmp d.
               case write_temp env before_rename tmp p bytes d of
                 (Inl e, d') \<Rightarrow> (Inl e, snd (remove_file env (loc_of tmp) d'))
               | (Inr _, d') \<Rightarrow> (Inr (), snd (sync_all env d'))))))"

definition write_atomic :: "disk_env \<Rightarrow> path \<Rightarrow> string \<Rightarrow> unit disk_op" where
  "write_atomic env p bytes = write_atomic_with env (k_return ()) p bytes"

end
