(* ===== verification/File_Tools.thy ===== *)
theory File_Tools
  imports File_Text File_Disk Tool_Execute
begin

text \<open>
  \<open>crates/core/src/tools/file\<close>: what the file tools share (\<open>mod.rs\<close>, \<open>diff.rs\<close>), \<open>edit_file\<close>
  (\<open>edit.rs\<close>) and \<open>write_file\<close> (\<open>write.rs\<close>) over a disk, the files the agent has seen and the cached
  index of the workspace. The diff algorithm and the fuzzy match (the \<open>similar\<close> crate), SHA-256 and
  the texts of serde and of the operating system are the record \<open>file_lib\<close>.
\<close>

datatype change_tag = TagEqual | TagInsert | TagDelete

record file_lib =
  fl_sha256 :: "string \<Rightarrow> string"
  fl_changes :: "string \<Rightarrow> string \<Rightarrow> change_tag list"
  fl_unified :: "nat \<Rightarrow> string \<Rightarrow> string \<Rightarrow> string \<Rightarrow> string \<Rightarrow> string"
  fl_close :: "string \<Rightarrow> string list \<Rightarrow> string option"
  fl_serde :: "json \<Rightarrow> string"
  fl_io :: "io_error \<Rightarrow> string"

text \<open>The workspace of the session and the state the tools share.\<close>

record file_ctx =
  fc_root :: "path option"
  fc_cwd :: "string list"

record file_state =
  fi_disk :: disk
  fi_seen :: "path \<rightharpoonup> string"
  fi_index :: "file_index option"

definition seen_record :: "path \<Rightarrow> string \<Rightarrow> file_state \<Rightarrow> file_state" where
  "seen_record p hash st = st\<lparr>fi_seen := (fi_seen st)(p \<mapsto> hash)\<rparr>"

definition on_disk :: "'a disk_op \<Rightarrow> file_state \<Rightarrow> (io_error + 'a) \<times> file_state" where
  "on_disk m st = (case m (fi_disk st) of (r, d) \<Rightarrow> (r, st\<lparr>fi_disk := d\<rparr>))"

section \<open>Outputs\<close>

definition out_text :: "string \<Rightarrow> tool_output" where
  "out_text s = \<lparr>to_content = ToolText s, to_summary = [], to_metadata = JNull, to_is_error = False, to_attachments = []\<rparr>"

definition out_error :: "string \<Rightarrow> tool_output" where
  "out_error s = (out_text s)\<lparr>to_is_error := True\<rparr>"

definition with_summary :: "string \<Rightarrow> tool_output \<Rightarrow> tool_output" where
  "with_summary s out = out\<lparr>to_summary := s\<rparr>"

definition with_metadata :: "json \<Rightarrow> tool_output \<Rightarrow> tool_output" where
  "with_metadata v out = out\<lparr>to_metadata := v\<rparr>"

definition quoted :: "string \<Rightarrow> string" where
  "quoted s = ''`'' @ s @ ''`''"

definition minus_sign :: string where
  "minus_sign = [CHR 0xE2, CHR 0x88, CHR 0x92]"

definition plus_minus :: "nat \<Rightarrow> nat \<Rightarrow> string" where
  "plus_minus added removed = ''+'' @ show_nat added @ '' '' @ minus_sign @ show_nat removed"

definition counted :: "nat \<Rightarrow> string \<Rightarrow> string \<Rightarrow> string" where
  "counted n one many = show_nat n @ '' '' @ (if n = 1 then one else many)"

definition newline :: string where
  "newline = [CHR 0x0A]"

section \<open>The path of a call\<close>

record file_target =
  ft_abs :: path
  ft_shown :: string

definition target_of :: "file_lib \<Rightarrow> file_ctx \<Rightarrow> fs \<Rightarrow> string \<Rightarrow> tool_error + file_target" where
  "target_of lib ctx fs user_path =
     (case fc_root ctx of
        None \<Rightarrow> Inl (ToolFailed ''this session has no workspace; the file tools need one'')
      | Some root \<Rightarrow>
          (case resolve fs (fc_cwd ctx) root user_path of
             Inr abs' \<Rightarrow> Inr \<lparr>ft_abs = abs', ft_shown = display_path root abs'\<rparr>
           | Inl (Outside p) \<Rightarrow> Inl (GateDenied
               (quoted p @ '' is outside the workspace '' @ quoted (display_path root root)
                @ ''; paths are relative to the workspace root''))
           | Inl (Invalid p reason) \<Rightarrow> Inl (InvalidInput (''invalid path '' @ quoted p @ '': '' @ reason))
           | Inl (PathIo _ e) \<Rightarrow> Inl (ToolIo (fl_io lib e))))"

text \<open>
  The derived \<open>Deserialize\<close> of an input, which the executor has checked against the schema of the
  tool: an object with no unknown field. (Serde would take an array too; the schemas do not.)
\<close>

definition only_fields :: "string list \<Rightarrow> json \<Rightarrow> bool" where
  "only_fields ks v = (case v of JObj fs \<Rightarrow> list_all (\<lambda>f. fst f \<in> set ks) fs | _ \<Rightarrow> False)"

definition input_str :: "string \<Rightarrow> json \<Rightarrow> string option" where
  "input_str k v = Option.bind (jget k v) as_str"

definition input_opt :: "(json \<Rightarrow> 'a option) \<Rightarrow> string \<Rightarrow> json \<Rightarrow> 'a option option" where
  "input_opt read k v =
     (case jget k v of None \<Rightarrow> Some None | Some JNull \<Rightarrow> Some None
      | Some x \<Rightarrow> map_option Some (read x))"

definition input_flag :: "string \<Rightarrow> json \<Rightarrow> bool option" where
  "input_flag k v = (case jget k v of None \<Rightarrow> Some False | Some x \<Rightarrow> as_bool x)"

definition parse_input :: "file_lib \<Rightarrow> string list \<Rightarrow> (json \<Rightarrow> 'a option) \<Rightarrow> json \<Rightarrow> tool_error + 'a" where
  "parse_input lib ks read v =
     (case (if only_fields ks v then read v else None) of
        Some x \<Rightarrow> Inr x
      | None \<Rightarrow> Inl (InvalidInput (fl_serde lib v)))"

section \<open>Diffs\<close>

definition diff_context :: nat where
  "diff_context = 3"

definition hint_max_lines :: nat where
  "hint_max_lines = 20000"

record text_diff =
  df_text :: string
  df_added :: nat
  df_removed :: nat

definition diff_is_empty :: "text_diff \<Rightarrow> bool" where
  "diff_is_empty d \<longleftrightarrow> df_added d = 0 \<and> df_removed d = 0"

definition unified_diff :: "file_lib \<Rightarrow> string \<Rightarrow> string \<Rightarrow> string \<Rightarrow> text_diff" where
  "unified_diff lib shown before after =
     (if before = after then \<lparr>df_text = [], df_added = 0, df_removed = 0\<rparr>
      else
        (let tags = fl_changes lib before after
         in \<lparr>df_text = fl_unified lib diff_context (''a/'' @ shown) (''b/'' @ shown) before after,
             df_added = length (filter ((=) TagInsert) tags), df_removed = length (filter ((=) TagDelete) tags)\<rparr>))"

definition trim_end_char :: "char \<Rightarrow> string \<Rightarrow> string" where
  "trim_end_char c s = rev (dropWhile ((=) c) (rev s))"

definition closest_line :: "file_lib \<Rightarrow> string \<Rightarrow> string \<Rightarrow> (nat \<times> string) option" where
  "closest_line lib needle text' =
     (let n = trim needle; ls = map (trim_end_char CHR 0x0D) (take hint_max_lines (lines_of text'))
      in if n = [] then None
         else case position (\<lambda>l. contains_str l n) ls of
           Some i \<Rightarrow> Some (i + 1, ls ! i)
         | None \<Rightarrow>
             (case fl_close lib n ls of
                None \<Rightarrow> None
              | Some best \<Rightarrow> map_option (\<lambda>i. (i + 1, best)) (position ((=) best) ls)))"

section \<open>Editing\<close>

record edit_input =
  ei_path :: string
  ei_old :: string
  ei_new :: string
  ei_all :: bool

definition read_edit_input :: "json \<Rightarrow> edit_input option" where
  "read_edit_input v =
     (case (input_str ''path'' v, input_str ''old_string'' v, input_str ''new_string'' v, input_flag ''replace_all'' v) of
        (Some p, Some old, Some new, Some everywhere) \<Rightarrow> Some \<lparr>ei_path = p, ei_old = old, ei_new = new, ei_all = everywhere\<rparr>
      | _ \<Rightarrow> None)"

definition max_listed :: nat where
  "max_listed = 10"

definition overwrite_note :: "file_lib \<Rightarrow> file_state \<Rightarrow> path \<Rightarrow> string \<Rightarrow> string option" where
  "overwrite_note lib st p previous =
     (case fi_seen st p of
        None \<Rightarrow> Some ''note: overwrote a file you had not read''
      | Some hash \<Rightarrow>
          if hash \<noteq> fl_sha256 lib previous then Some ''note: the file changed on disk since you read it'' else None)"

text \<open>
  A CRLF file is matched and edited with newlines when the text to replace has no carriage return,
  then converted back whole: the text searched, the new text and the way back.
\<close>

definition edit_crlf :: "decoded_text \<Rightarrow> string \<Rightarrow> bool" where
  "edit_crlf dt old \<longleftrightarrow> dt_eol dt = EolCrLf \<and> CHR 0x0D \<notin> set old"

definition edit_haystack :: "decoded_text \<Rightarrow> string \<Rightarrow> string" where
  "edit_haystack dt old = (if edit_crlf dt old then to_lf (dt_text dt) else dt_text dt)"

definition edit_new :: "decoded_text \<Rightarrow> string \<Rightarrow> string \<Rightarrow> string" where
  "edit_new dt old new = (if edit_crlf dt old then to_lf new else new)"

definition edit_back :: "decoded_text \<Rightarrow> string \<Rightarrow> string \<Rightarrow> string" where
  "edit_back dt old s = (if edit_crlf dt old then to_crlf s else s)"

definition not_found_message :: "file_lib \<Rightarrow> string \<Rightarrow> string \<Rightarrow> string \<Rightarrow> string" where
  "not_found_message lib shown old haystack =
     ''old_string not found in '' @ quoted shown @ ''.'' @
     (case closest_line lib (case find (\<lambda>l. trim l \<noteq> []) (lines_of old) of Some l \<Rightarrow> l | None \<Rightarrow> old) haystack of
        Some (n, l) \<Rightarrow> newline @ ''Closest line ('' @ show_nat n @ ''): '' @ l
      | None \<Rightarrow> newline @ ''No similar line either.'') @
     newline @ ''Quote the text exactly as read_file shows it (without the line-number prefix), '' @
     ''including whitespace.''"

definition ambiguous_message :: "string \<Rightarrow> string \<Rightarrow> nat list \<Rightarrow> string" where
  "ambiguous_message shown haystack positions =
     (let ls = remdups_adj (map (text_line_of haystack) positions);
          more = (if max_listed < length ls then '', '' @ ellipsis @ '' (+'' @ show_nat (length ls - max_listed) @ '' more)'' else [])
      in ''old_string occurs '' @ show_nat (length positions) @ '' times in '' @ quoted shown @ '' (lines ''
         @ join_with '', '' (map show_nat (take max_listed ls)) @ more @ ''); include more surrounding ''
         @ ''context so it matches once, or set replace_all: true'')"

definition edited_text :: "string \<Rightarrow> string \<Rightarrow> string \<Rightarrow> bool \<Rightarrow> string" where
  "edited_text haystack old new everywhere =
     (if everywhere then replace_str old new haystack else replace_first old new haystack)"

definition edit_metadata :: "nat \<Rightarrow> text_diff \<Rightarrow> decoded_text \<Rightarrow> string option \<Rightarrow> json" where
  "edit_metadata n df dt note =
     jobj ([(''replacements'', JInt (int n)), (''added'', JInt (int (df_added df))), (''removed'', JInt (int (df_removed df))),
        (''line_endings'', JStr (eol_label (dt_eol dt))), (''bom'', JBool (dt_bom dt \<noteq> BomNone))]
       @ (case note of Some n \<Rightarrow> [(''note'', JStr n)] | None \<Rightarrow> []))"

definition edit_output :: "string \<Rightarrow> nat \<Rightarrow> text_diff \<Rightarrow> decoded_text \<Rightarrow> string option \<Rightarrow> tool_output" where
  "edit_output shown n df dt note =
     with_metadata (edit_metadata n df dt note)
       (with_summary (''edited '' @ shown @ '' ('' @ plus_minus (df_added df) (df_removed df) @ '')'')
         (out_text (''edited '' @ shown @ '' ('' @ plus_minus (df_added df) (df_removed df) @ '', ''
            @ counted n ''replacement'' ''replacements'' @ '')'' @ newline
            @ (case note of Some n \<Rightarrow> n @ newline | None \<Rightarrow> []) @ newline @ df_text df)))"

text \<open>The part that writes: the edit is made, one place or all of them.\<close>

definition edit_write ::
  "file_lib \<Rightarrow> disk_env \<Rightarrow> file_target \<Rightarrow> decoded_text \<Rightarrow> edit_input \<Rightarrow> string option \<Rightarrow> nat \<Rightarrow> file_state \<Rightarrow>
   tool_output \<times> file_state" where
  "edit_write lib env t dt e note n st =
     (let shown = ft_shown t; haystack = edit_haystack dt (ei_old e);
          edited = edited_text haystack (ei_old e) (edit_new dt (ei_old e) (ei_new e)) (ei_all e);
          df = unified_diff lib shown haystack edited;
          bytes = bom_bytes (dt_bom dt) @ edit_back dt (ei_old e) edited
      in case on_disk (write_atomic env (ft_abs t) bytes) st of
           (Inl err, st') \<Rightarrow> (out_error (''cannot write '' @ quoted shown @ '': '' @ fl_io lib err), st')
         | (Inr _, st') \<Rightarrow>
             (edit_output shown n df dt note, seen_record (ft_abs t) (fl_sha256 lib bytes) st'))"

definition encoding_refusal :: "encoding \<Rightarrow> string" where
  "encoding_refusal e =
     (case e of EncUtf8Lossy \<Rightarrow> ''not valid UTF-8'' | EncUtf16Le \<Rightarrow> ''UTF-16LE'' | EncUtf16Be \<Rightarrow> ''UTF-16BE''
      | EncUtf8 \<Rightarrow> ''UTF-8'')"

definition edit_text ::
  "file_lib \<Rightarrow> disk_env \<Rightarrow> file_target \<Rightarrow> edit_input \<Rightarrow> string \<Rightarrow> file_state \<Rightarrow> tool_output \<times> file_state" where
  "edit_text lib env t e bytes st =
     (let shown = ft_shown t; dt = decode_bytes bytes; haystack = edit_haystack dt (ei_old e);
          positions = match_positions (ei_old e) haystack
      in if \<not> is_exact_utf8 (dt_encoding dt) then
           (out_error (quoted shown @ '' is '' @ encoding_refusal (dt_encoding dt)
              @ '', which edit_file cannot rewrite faithfully; use write_file''), st)
         else if positions = [] then (out_error (not_found_message lib shown (ei_old e) haystack), st)
         else if 1 < length positions \<and> \<not> ei_all e then (out_error (ambiguous_message shown haystack positions), st)
         else edit_write lib env t dt e (overwrite_note lib st (ft_abs t) bytes)
                (if ei_all e then length positions else 1) st)"

definition last_name :: "path \<Rightarrow> string" where
  "last_name p = (case Workspace_Paths.file_name p of Some n \<Rightarrow> n | None \<Rightarrow> [])"

definition edit_file :: "file_lib \<Rightarrow> disk_env \<Rightarrow> file_target \<Rightarrow> edit_input \<Rightarrow> file_state \<Rightarrow> tool_output \<times> file_state" where
  "edit_file lib env t e st =
     (let shown = ft_shown t in
      if ei_old e = ei_new e then (out_error ''old_string and new_string are identical; nothing to do'', st)
      else if is_dir (dk_fs (fi_disk st)) (ft_abs t) then (out_error (quoted shown @ '' is a directory''), st)
      else case on_disk (read_file env (ft_abs t)) st of
        (Inl err, st') \<Rightarrow>
          (out_error (if err = NotFound then quoted shown @ '' does not exist; use write_file to create it''
             else ''cannot read '' @ quoted shown @ '': '' @ fl_io lib err), st')
      | (Inr bytes, st') \<Rightarrow>
          if is_binary bytes then
            (out_error (quoted shown @ '' is a binary file ('' @ show_nat (length bytes) @ '' bytes, ''
               @ sniff_type bytes (last_name (ft_abs t)) @ ''); edit_file works on text''), st')
          else edit_text lib env t e bytes st')"

definition edit_call :: "file_lib \<Rightarrow> disk_env \<Rightarrow> file_ctx \<Rightarrow> json \<Rightarrow> file_state \<Rightarrow> (tool_error + tool_output) \<times> file_state" where
  "edit_call lib env ctx input st =
     (case parse_input lib [''path'', ''old_string'', ''new_string'', ''replace_all''] read_edit_input input of
        Inl e \<Rightarrow> (Inl e, st)
      | Inr e \<Rightarrow>
          (case target_of lib ctx (dk_fs (fi_disk st)) (ei_path e) of
             Inl err \<Rightarrow> (Inl err, st)
           | Inr t \<Rightarrow> (case edit_file lib env t e st of (out, st') \<Rightarrow> (Inr out, st'))))"

section \<open>Writing\<close>

record write_input =
  wi_path :: string
  wi_content :: string

definition read_write_input :: "json \<Rightarrow> write_input option" where
  "read_write_input v =
     (case (input_str ''path'' v, input_str ''content'' v) of
        (Some p, Some c) \<Rightarrow> Some \<lparr>wi_path = p, wi_content = c\<rparr>
      | _ \<Rightarrow> None)"

text \<open>The diff to what was there: none for a new file, none either for a binary one.\<close>

definition write_diff :: "file_lib \<Rightarrow> string \<Rightarrow> string \<Rightarrow> string option \<Rightarrow> text_diff option option" where
  "write_diff lib shown content previous =
     map_option (\<lambda>prev. if is_binary prev then None
       else Some (unified_diff lib shown (dt_text (decode_bytes prev)) content)) previous"

definition write_counts :: "string \<Rightarrow> text_diff option option \<Rightarrow> nat \<times> nat" where
  "write_counts content df =
     (case df of Some (Some d) \<Rightarrow> (df_added d, df_removed d) | _ \<Rightarrow> (text_line_count content, 0))"

definition write_output :: "string \<Rightarrow> string \<Rightarrow> text_diff option option \<Rightarrow> string option \<Rightarrow> tool_output" where
  "write_output shown content df note =
     (let (added, removed) = write_counts content df; bytes = length content; created = (df = None);
          ls = counted added ''line'' ''lines''; change = plus_minus added removed;
          head = (if created then ''wrote '' @ shown @ '' ('' @ show_nat bytes @ '' bytes, new file, '' @ ls @ '')''
                  else ''wrote '' @ shown @ '' ('' @ show_nat bytes @ '' bytes, '' @ change @ '')'') @ newline;
          summary = (if created then ''wrote '' @ shown @ '' (new, '' @ ls @ '')'' else ''wrote '' @ shown @ '' ('' @ change @ '')'');
          body = (case df of
              Some (Some d) \<Rightarrow> if df_text d \<noteq> [] then newline @ df_text d else ''(content unchanged)'' @ newline
            | Some None \<Rightarrow> ''(previous content was binary; no diff)'' @ newline
            | None \<Rightarrow> [])
      in with_metadata (jobj ([(''bytes_written'', JInt (int bytes)), (''created'', JBool created),
            (''added'', JInt (int added)), (''removed'', JInt (int removed))]
            @ (case note of Some n \<Rightarrow> [(''note'', JStr n)] | None \<Rightarrow> [])))
         (with_summary summary (out_text (head @ (case note of Some n \<Rightarrow> n @ newline | None \<Rightarrow> []) @ body))))"

definition write_over ::
  "file_lib \<Rightarrow> disk_env \<Rightarrow> file_target \<Rightarrow> string \<Rightarrow> string option \<Rightarrow> file_state \<Rightarrow> tool_output \<times> file_state" where
  "write_over lib env t content previous st =
     (let shown = ft_shown t;
          note = Option.bind previous (overwrite_note lib st (ft_abs t));
          df = write_diff lib shown content previous
      in case on_disk (write_atomic env (ft_abs t) content) st of
           (Inl err, st') \<Rightarrow> (out_error (''cannot write '' @ quoted shown @ '': '' @ fl_io lib err), st')
         | (Inr _, st') \<Rightarrow>
             (let st2 = seen_record (ft_abs t) (fl_sha256 lib content) st'
              in (write_output shown content df note, if previous = None then st2\<lparr>fi_index := None\<rparr> else st2)))"

definition write_tool :: "file_lib \<Rightarrow> disk_env \<Rightarrow> file_target \<Rightarrow> string \<Rightarrow> file_state \<Rightarrow> tool_output \<times> file_state" where
  "write_tool lib env t content st =
     (let shown = ft_shown t in
      if is_dir (dk_fs (fi_disk st)) (ft_abs t) then (out_error (quoted shown @ '' is a directory''), st)
      else case on_disk (read_file env (ft_abs t)) st of
        (Inr bytes, st') \<Rightarrow> write_over lib env t content (Some bytes) st'
      | (Inl err, st') \<Rightarrow>
          if err = NotFound then write_over lib env t content None st'
          else (out_error (''cannot read the existing '' @ quoted shown @ '': '' @ fl_io lib err), st'))"

definition write_call :: "file_lib \<Rightarrow> disk_env \<Rightarrow> file_ctx \<Rightarrow> json \<Rightarrow> file_state \<Rightarrow> (tool_error + tool_output) \<times> file_state" where
  "write_call lib env ctx input st =
     (case parse_input lib [''path'', ''content''] read_write_input input of
        Inl e \<Rightarrow> (Inl e, st)
      | Inr w \<Rightarrow>
          (case target_of lib ctx (dk_fs (fi_disk st)) (wi_path w) of
             Inl err \<Rightarrow> (Inl err, st)
           | Inr t \<Rightarrow> (case write_tool lib env t (wi_content w) st of (out, st') \<Rightarrow> (Inr out, st'))))"

end
