(* ===== verification/File_Find.thy ===== *)
theory File_Find
  imports File_Tools
begin

text \<open>
  The tools that only look: \<open>read_file\<close> (\<open>tools/file/read.rs\<close>), \<open>list_dir\<close> (\<open>list.rs\<close>) and \<open>glob\<close>
  (\<open>glob.rs\<close>), with their paging and limits, and the specifications of all five file tools. The walk
  of a directory (the \<open>ignore\<close> crate) is the list of what it yields; the glob engine (\<open>globset\<close>) is
  a parameter.
\<close>

definition read_max_lines :: nat where
  "read_max_lines = 2000"

definition read_max_bytes :: nat where
  "read_max_bytes = 200 * 1024"

definition list_max_entries :: nat where
  "list_max_entries = 2000"

definition list_max_depth :: nat where
  "list_max_depth = 4"

definition glob_max_results :: nat where
  "glob_max_results = 1000"

definition en_dash :: string where
  "en_dash = [CHR 0xE2, CHR 0x80, CHR 0x93]"

definition arrow :: string where
  "arrow = [CHR 0xE2, CHR 0x86, CHR 0x92]"

section \<open>Reading\<close>

record read_input =
  ri_path :: string
  ri_offset :: "nat option"
  ri_limit :: "nat option"

definition read_read_input :: "json \<Rightarrow> read_input option" where
  "read_read_input v =
     (case (input_str ''path'' v, input_opt as_u64 ''offset'' v, input_opt as_u64 ''limit'' v) of
        (Some p, Some off, Some lim) \<Rightarrow> Some \<lparr>ri_path = p, ri_offset = off, ri_limit = lim\<rparr>
      | _ \<Rightarrow> None)"

text \<open>A line without its break.\<close>

definition bare_line :: "string \<Rightarrow> string" where
  "bare_line l = trim_end_char CHR 0x0D (trim_end_char CHR 0x0A l)"

definition text_lines :: "string \<Rightarrow> string list" where
  "text_lines s = map bare_line (split_inclusive s)"

definition numbered_line :: "nat \<Rightarrow> string \<Rightarrow> string" where
  "numbered_line n l = show_nat n @ [CHR 0x09] @ l @ newline"

text \<open>The loop over the lines from the first one on: how many were emitted, and their text.\<close>

fun emit_lines :: "nat \<Rightarrow> nat \<Rightarrow> nat \<Rightarrow> nat \<Rightarrow> string list \<Rightarrow> nat \<times> string" where
  "emit_lines limit n emitted used [] = (emitted, [])"
| "emit_lines limit n emitted used (l # ls) =
     (let cost = length l + 1 in
      if emitted = limit \<or> (0 < emitted \<and> read_max_bytes < used + cost) then (emitted, [])
      else case emit_lines limit (Suc n) (Suc emitted) (used + cost) ls of
        (k, out) \<Rightarrow> (k, numbered_line n l @ out))"

definition encoding_note :: "encoding \<Rightarrow> string" where
  "encoding_note e =
     (case e of
        EncUtf8 \<Rightarrow> []
      | EncUtf8Lossy \<Rightarrow> ''[note: not valid UTF-8; undecodable bytes shown as U+FFFD]'' @ newline
      | _ \<Rightarrow> ''[note: decoded from '' @ encoding_refusal e @ ''; edit_file cannot change this file]'' @ newline)"

definition view_metadata :: "string \<Rightarrow> string \<Rightarrow> (string \<times> json) list" where
  "view_metadata shown bytes =
     (let dt = decode_bytes bytes in
      [(''lines'', JInt (int (length (text_lines (dt_text dt))))), (''bytes'', JInt (int (length bytes))),
       (''language'', case language_of shown of Some l \<Rightarrow> JStr l | None \<Rightarrow> JNull), (''truncated'', JBool False),
       (''encoding'', JStr (encoding_label (dt_encoding dt))), (''bom'', JBool (dt_bom dt \<noteq> BomNone)),
       (''line_endings'', JStr (eol_label (dt_eol dt)))])"

definition truncated_note :: "nat \<Rightarrow> nat \<Rightarrow> nat \<Rightarrow> string" where
  "truncated_note first last' amount =
     ''[truncated: showing lines '' @ show_nat first @ en_dash @ show_nat last' @ '' of '' @ show_nat amount
       @ ''; call again with offset '' @ show_nat (last' + 1) @ '']'' @ newline"

definition render_view :: "string \<Rightarrow> string \<Rightarrow> nat \<Rightarrow> nat \<Rightarrow> tool_output" where
  "render_view shown bytes offset limit =
     (let dt = decode_bytes bytes; ls = text_lines (dt_text dt); amount = length ls; notes = encoding_note (dt_encoding dt);
          meta = view_metadata shown bytes
      in if amount = 0 then
           with_metadata (jobj meta) (with_summary (''read '' @ shown @ '' (empty)'') (out_text (notes @ ''[empty file]'')))
         else if amount < offset then
           with_metadata (jobj meta) (out_error (''offset '' @ show_nat offset @ '' is past the end of '' @ quoted shown
             @ '' ('' @ counted amount ''line'' ''lines'' @ '')''))
         else
           (let (emitted, out) = emit_lines limit offset 0 0 (drop (offset - 1) ls); last' = offset + emitted - 1
            in with_metadata (jobj (meta @ [(''truncated'', JBool (last' < amount)), (''offset'', JInt (int offset)), (''end'', JInt (int last'))]))
                 (with_summary (''read '' @ shown @ '' lines '' @ show_nat offset @ en_dash @ show_nat last' @ '' of '' @ show_nat amount)
                   (out_text (notes @ out @ (if last' < amount then truncated_note offset last' amount else []))))))"

definition read_tool :: "file_lib \<Rightarrow> disk_env \<Rightarrow> file_target \<Rightarrow> nat \<Rightarrow> nat option \<Rightarrow> file_state \<Rightarrow> tool_output \<times> file_state" where
  "read_tool lib env t offset limit st =
     (let shown = ft_shown t in
      if is_dir (dk_fs (fi_disk st)) (ft_abs t) then (out_error (quoted shown @ '' is a directory; use list_dir''), st)
      else case on_disk (read_file env (ft_abs t)) st of
        (Inl err, st') \<Rightarrow>
          (out_error (if err = NotFound then quoted shown @ '' does not exist''
             else ''cannot read '' @ quoted shown @ '': '' @ fl_io lib err), st')
      | (Inr bytes, st') \<Rightarrow>
          (let st2 = seen_record (ft_abs t) (fl_sha256 lib bytes) st' in
           if is_binary bytes then
             (with_metadata (jobj [(''bytes'', JInt (int (length bytes))), (''binary'', JBool True)])
               (out_error (quoted shown @ '' is a binary file ('' @ show_nat (length bytes) @ '' bytes, ''
                  @ sniff_type bytes (last_name (ft_abs t)) @ ''); read_file shows text only'')), st2)
           else (render_view shown bytes offset (min (case limit of Some n \<Rightarrow> n | None \<Rightarrow> read_max_lines) read_max_lines), st2)))"

definition read_file_call :: "file_lib \<Rightarrow> disk_env \<Rightarrow> file_ctx \<Rightarrow> json \<Rightarrow> file_state \<Rightarrow> (tool_error + tool_output) \<times> file_state" where
  "read_file_call lib env ctx input st =
     (case parse_input lib [''path'', ''offset'', ''limit''] read_read_input input of
        Inl e \<Rightarrow> (Inl e, st)
      | Inr r \<Rightarrow>
          (case target_of lib ctx (dk_fs (fi_disk st)) (ri_path r) of
             Inl err \<Rightarrow> (Inl err, st)
           | Inr t \<Rightarrow>
               (case read_tool lib env t (case ri_offset r of Some n \<Rightarrow> n | None \<Rightarrow> 1) (ri_limit r) st of (out, st') \<Rightarrow> (Inr out, st'))))"

section \<open>Listing\<close>

text \<open>\<open>std::fs::metadata\<close>: what is at a path, links followed.\<close>

definition stat_file :: "disk_env \<Rightarrow> path \<Rightarrow> node disk_op" where
  "stat_file env p =
     k_bind (os_call env) (\<lambda>_. k_lift (\<lambda>fs. case real_walk fs max_links [] p of
        Inl e \<Rightarrow> Inl e
      | Inr at \<Rightarrow> (case fs at of Some nd \<Rightarrow> Inr nd | None \<Rightarrow> Inl NotFound)))"

datatype entry_kind = EntryLink | EntryDir | EntryFile

text \<open>An entry of a walk: its depth below the directory, its name, its type and its length if they could be read.\<close>

record walk_entry =
  we_depth :: nat
  we_name :: string
  we_kind :: "entry_kind option"
  we_size :: "nat option"

definition list_line :: "walk_entry \<Rightarrow> string" where
  "list_line w =
     concat (replicate (we_depth w - 1) ''  '') @ utf8_lossy (we_name w) @
     (case we_kind w of
        Some EntryLink \<Rightarrow> ''@''
      | Some EntryDir \<Rightarrow> ''/''
      | _ \<Rightarrow> [CHR 0x09] @ show_nat (case we_size w of Some n \<Rightarrow> n | None \<Rightarrow> 0)) @ newline"

text \<open>The loop: the number of entries and the lines of the first ones; every 256th step asks for a cancellation.\<close>

fun list_entries :: "(nat \<Rightarrow> bool) \<Rightarrow> nat \<Rightarrow> nat \<Rightarrow> walk_entry option list \<Rightarrow> (nat \<times> string) option" where
  "list_entries cancelled i amount [] = Some (amount, [])"
| "list_entries cancelled i amount (w # ws) =
     (if i mod 256 = 0 \<and> cancelled i then None
      else case w of
        None \<Rightarrow> list_entries cancelled (Suc i) amount ws
      | Some e \<Rightarrow>
          if we_depth e = 0 then list_entries cancelled (Suc i) amount ws
          else map_option (\<lambda>(k, out). (k, (if list_max_entries < Suc amount then [] else list_line e) @ out))
                 (list_entries cancelled (Suc i) (Suc amount) ws))"

definition list_output :: "string \<Rightarrow> nat \<Rightarrow> nat \<Rightarrow> string \<Rightarrow> tool_output" where
  "list_output shown depth amount out =
     (let truncated = list_max_entries < amount; dir = (if shown = ''.'' then ''.'' else shown @ ''/'')
      in with_metadata (jobj [(''entries'', JInt (int amount)), (''shown'', JInt (int (min amount list_max_entries))),
            (''depth'', JInt (int depth)), (''truncated'', JBool truncated)])
         (with_summary (''listed '' @ dir @ '' ('' @ counted amount ''entry'' ''entries'' @ '')'')
           (out_text (out @ (if truncated then ''[+'' @ show_nat (amount - list_max_entries) @ '' more]'' @ newline else [])
              @ (if amount = 0 then ''[empty directory]'' @ newline else [])))))"

definition list_tool ::
  "file_lib \<Rightarrow> disk_env \<Rightarrow> (path \<Rightarrow> nat \<Rightarrow> walk_entry option list) \<Rightarrow> (nat \<Rightarrow> bool) \<Rightarrow> file_target \<Rightarrow> nat \<Rightarrow> file_state \<Rightarrow>
   (tool_error + tool_output) \<times> file_state" where
  "list_tool lib env walker cancelled t depth st =
     (let shown = ft_shown t in
      case on_disk (stat_file env (ft_abs t)) st of
        (Inl err, st') \<Rightarrow>
          (Inr (out_error (if err = NotFound then quoted shown @ '' does not exist''
             else ''cannot list '' @ quoted shown @ '': '' @ fl_io lib err)), st')
      | (Inr (Dir _), st') \<Rightarrow>
          (case list_entries cancelled 0 0 (walker (ft_abs t) depth) of
             None \<Rightarrow> (Inl ToolCancelled, st')
           | Some (amount, out) \<Rightarrow> (Inr (list_output shown depth amount out), st'))
      | (Inr _, st') \<Rightarrow> (Inr (out_error (quoted shown @ '' is a file; use read_file'')), st'))"

definition list_depth :: "nat option \<Rightarrow> nat" where
  "list_depth d = min (max (case d of Some n \<Rightarrow> n | None \<Rightarrow> 1) 1) list_max_depth"

definition read_list_input :: "json \<Rightarrow> (string option \<times> nat option) option" where
  "read_list_input v =
     (case (input_opt as_str ''path'' v, input_opt as_u64 ''depth'' v) of
        (Some p, Some d) \<Rightarrow> Some (p, d)
      | _ \<Rightarrow> None)"

definition list_call ::
  "file_lib \<Rightarrow> disk_env \<Rightarrow> (path \<Rightarrow> nat \<Rightarrow> walk_entry option list) \<Rightarrow> (nat \<Rightarrow> bool) \<Rightarrow> file_ctx \<Rightarrow> json \<Rightarrow> file_state \<Rightarrow>
   (tool_error + tool_output) \<times> file_state" where
  "list_call lib env walker cancelled ctx input st =
     (case parse_input lib [''path'', ''depth''] read_list_input input of
        Inl e \<Rightarrow> (Inl e, st)
      | Inr (p, d) \<Rightarrow>
          (case target_of lib ctx (dk_fs (fi_disk st)) (case p of Some p \<Rightarrow> p | None \<Rightarrow> ''.'') of
             Inl err \<Rightarrow> (Inl err, st)
           | Inr t \<Rightarrow> list_tool lib env walker cancelled t (list_depth d) st))"

section \<open>Finding\<close>

text \<open>The glob engine: the error of a pattern that does not build, and whether a pattern matches a text.\<close>

record glob_lib =
  gl_error :: "string \<Rightarrow> string option"
  gl_matches :: "string \<Rightarrow> string \<Rightarrow> bool"

record path_glob =
  pg_pattern :: string
  pg_by_name :: bool

definition path_glob_compile :: "glob_lib \<Rightarrow> string \<Rightarrow> tool_error + path_glob" where
  "path_glob_compile gl pattern =
     (let p = dropWhile ((=) CHR ''/'') pattern in
      case gl_error gl p of
        Some e \<Rightarrow> Inl (InvalidInput (''bad glob pattern: '' @ e))
      | None \<Rightarrow> Inr \<lparr>pg_pattern = p, pg_by_name = (CHR ''/'' \<notin> set p)\<rparr>)"

definition path_glob_matches :: "glob_lib \<Rightarrow> path_glob \<Rightarrow> string \<Rightarrow> bool" where
  "path_glob_matches gl g rel = gl_matches gl (pg_pattern g) (if pg_by_name g then last_component rel else rel)"

text \<open>\<open>Workspace::index\<close>: the cached index while it is fresh, else a new one.\<close>

definition index_now :: "bool \<Rightarrow> walked list \<Rightarrow> file_state \<Rightarrow> file_index \<times> file_state" where
  "index_now fresh ws st =
     (case fi_index st of
        Some ix \<Rightarrow> if fresh then (ix, st)
          else (index_build max_index_files ws, st\<lparr>fi_index := Some (index_build max_index_files ws)\<rparr>)
      | None \<Rightarrow> (index_build max_index_files ws, st\<lparr>fi_index := Some (index_build max_index_files ws)\<rparr>))"

definition mtime_of :: "file_entry \<Rightarrow> nat" where
  "mtime_of e = (case fe_mtime e of Some t \<Rightarrow> t | None \<Rightarrow> 0)"

definition newer_first :: "file_entry \<Rightarrow> file_entry \<Rightarrow> bool" where
  "newer_first a b \<longleftrightarrow> mtime_of b < mtime_of a \<or> (mtime_of b = mtime_of a \<and> str_less (fe_path a) (fe_path b))"

definition glob_found :: "glob_lib \<Rightarrow> path_glob \<Rightarrow> string \<Rightarrow> file_index \<Rightarrow> file_entry list" where
  "glob_found gl g shown ix =
     (let dir = (if shown = ''.'' then [] else shown); n = (if dir = [] then 0 else length dir + 1)
      in order_by newer_first (filter (\<lambda>e. path_glob_matches gl g (drop n (fe_path e))) (index_under dir ix)))"

definition glob_output :: "string \<Rightarrow> file_index \<Rightarrow> nat \<Rightarrow> string list \<Rightarrow> tool_output" where
  "glob_output pattern ix age paths =
     (let amount = length paths; truncated = glob_max_results < amount
      in with_metadata (jobj [(''matches'', JInt (int amount)), (''shown'', JInt (int (min amount glob_max_results))),
            (''truncated'', JBool truncated), (''index_age_s'', JInt (int age)), (''index_truncated'', JBool (ix_truncated ix))])
         (with_summary (''glob '' @ pattern @ '' '' @ arrow @ '' '' @ counted amount ''file'' ''files'')
           (out_text
             ((if ix_truncated ix then ''[note: the file index stopped at '' @ show_nat (length (ix_entries ix))
                 @ '' files; matches beyond it are missing]'' @ newline else [])
              @ (if amount = 0 then ''[no files match '' @ pattern @ '']'' @ newline else [])
              @ concat (map (\<lambda>p. p @ newline) (take glob_max_results paths))
              @ (if truncated then ''[truncated: showing '' @ show_nat glob_max_results @ '' of '' @ show_nat amount @ '' matches]'' @ newline
                 else [])))))"

definition glob_tool ::
  "file_lib \<Rightarrow> glob_lib \<Rightarrow> disk_env \<Rightarrow> bool \<Rightarrow> walked list \<Rightarrow> nat \<Rightarrow> file_target \<Rightarrow> string \<Rightarrow> path_glob \<Rightarrow> file_state \<Rightarrow>
   tool_output \<times> file_state" where
  "glob_tool lib gl env fresh ws age t pattern g st =
     (let shown = ft_shown t in
      case on_disk (stat_file env (ft_abs t)) st of
        (Inl err, st') \<Rightarrow>
          (out_error (if err = NotFound then quoted shown @ '' does not exist''
             else ''cannot search '' @ quoted shown @ '': '' @ fl_io lib err), st')
      | (Inr (Dir _), st') \<Rightarrow>
          (let (ix, st2) = index_now fresh ws st'
           in (glob_output pattern ix age (map fe_path (glob_found gl g shown ix)), st2))
      | (Inr _, st') \<Rightarrow> (out_error (quoted shown @ '' is a file, not a directory''), st'))"

definition read_glob_input :: "json \<Rightarrow> (string \<times> string option) option" where
  "read_glob_input v =
     (case (input_str ''pattern'' v, input_opt as_str ''path'' v) of
        (Some g, Some p) \<Rightarrow> Some (g, p)
      | _ \<Rightarrow> None)"

definition glob_call ::
  "file_lib \<Rightarrow> glob_lib \<Rightarrow> disk_env \<Rightarrow> bool \<Rightarrow> walked list \<Rightarrow> nat \<Rightarrow> file_ctx \<Rightarrow> json \<Rightarrow> file_state \<Rightarrow>
   (tool_error + tool_output) \<times> file_state" where
  "glob_call lib gl env fresh ws age ctx input st =
     (case parse_input lib [''pattern'', ''path''] read_glob_input input of
        Inl e \<Rightarrow> (Inl e, st)
      | Inr (pattern, p) \<Rightarrow>
          (case target_of lib ctx (dk_fs (fi_disk st)) (case p of Some p \<Rightarrow> p | None \<Rightarrow> ''.'') of
             Inl err \<Rightarrow> (Inl err, st)
           | Inr t \<Rightarrow>
               (case path_glob_compile gl pattern of
                  Inl e \<Rightarrow> (Inl e, st)
                | Inr g \<Rightarrow> (case glob_tool lib gl env fresh ws age t pattern g st of (out, st') \<Rightarrow> (Inr out, st')))))"

end
