(* ===== verification/File_Atomic.thy ===== *)
theory File_Atomic
  imports File_Disk
begin

text \<open>
  The atomic write leaves the old file or the new one, whatever call fails and wherever it is cut
  short: an invariant of every state the disk goes through, carried through the calls.
\<close>

section \<open>Operations that keep a predicate of the disk\<close>

definition k_wp :: "'a disk_op \<Rightarrow> ('a \<Rightarrow> disk \<Rightarrow> bool) \<Rightarrow> (disk \<Rightarrow> bool) \<Rightarrow> disk \<Rightarrow> bool" where
  "k_wp m Q E d = (case m d of (Inl e, d') \<Rightarrow> E d' | (Inr x, d') \<Rightarrow> Q x d')"

named_theorems k_wp

lemma k_wp_basic [k_wp]:
  "k_wp (k_bind m f) Q E d = k_wp m (\<lambda>x d'. k_wp (f x) Q E d') E d"
  "k_wp (k_return x) Q' E d = Q' x d"
  "k_wp (k_fail e) Q E d = E d"
  "k_wp (disk_put h g) R E d = R () (d\<lparr>dk_fs := h (dk_fs d), dk_data := g (dk_data d),
     dk_trail := (h (dk_fs d), g (dk_data d)) # dk_trail d\<rparr>)"
  by (simp_all add: k_wp_def k_bind_def k_return_def k_fail_def disk_put_def split: prod.split sum.split)

lemma k_wp_lift: "k_wp (k_lift f) Q E d = (case f (dk_fs d) of Inl e \<Rightarrow> E d | Inr x \<Rightarrow> Q x d)"
  by (simp add: k_wp_def k_lift_def split: sum.split)

lemma k_wp_mono:
  "k_wp m P F d \<Longrightarrow> (\<And>x d'. P x d' \<Longrightarrow> Q x d') \<Longrightarrow> (\<And>d'. F d' \<Longrightarrow> E d') \<Longrightarrow> k_wp m Q E d"
  by (auto simp: k_wp_def split: prod.splits sum.splits)

lemma k_wp_os_call:
  assumes "Q () (d\<lparr>dk_ops := Suc (dk_ops d)\<rparr>)" "E (d\<lparr>dk_ops := Suc (dk_ops d)\<rparr>)"
  shows "k_wp (os_call env) Q E d"
  using assms by (simp add: k_wp_def os_call_def split: option.split)

section \<open>Places without links\<close>

definition no_links :: "fs \<Rightarrow> string list \<Rightarrow> bool" where
  "no_links fs loc \<longleftrightarrow> (\<forall>i<length loc. \<forall>t. fs (take i loc) \<noteq> Some (Link t))"

lemma real_walk_no_links:
  assumes "real_walk fs k acc (map Normal ns) = Inr r" "\<And>i t. i \<le> length ns \<Longrightarrow> fs (acc @ take i ns) \<noteq> Some (Link t)"
  shows "r = acc @ ns"
  using assms
proof (induction ns arbitrary: acc)
  case (Cons n ns)
  have link: "fs (acc @ [n]) \<noteq> Some (Link t)" for t using Cons.prems(2) [of 1] by simp
  have "real_walk fs k (acc @ [n]) (map Normal ns) = Inr r"
    using Cons.prems(1) link by (auto simp: link_target_def split: option.splits node.splits)
  moreover have "fs ((acc @ [n]) @ take i ns) \<noteq> Some (Link t)" if "i \<le> length ns" for i t
    using Cons.prems(2) [of "Suc i"] that by simp
  ultimately show ?case using Cons.IH [of "acc @ [n]"] by simp
qed simp

lemma place_of_no_links:
  assumes "place_of loc fs = Inr at" "no_links fs loc" "loc \<noteq> []"
  shows "at = loc"
proof -
  obtain up where up: "real_walk fs max_links [] (map Normal (butlast loc)) = Inr up" "at = up @ [last loc]"
    using assms(1) by (auto simp: place_of_def split: sum.splits option.splits)
  have "up = [] @ butlast loc"
  proof (rule real_walk_no_links [OF up(1)])
    fix i t assume "i \<le> length (butlast loc)"
    then have i: "i < length loc" using assms(3) by (cases loc rule: rev_cases) auto
    then have "take i (butlast loc) = take i loc" by (rule take_butlast)
    then show "fs ([] @ take i (butlast loc)) \<noteq> Some (Link t)" using assms(2) i by (simp add: no_links_def)
  qed
  with up(2) assms(3) show ?thesis by simp
qed

lemma no_links_take: "no_links fs loc \<Longrightarrow> no_links fs (take n loc)"
  by (auto simp: no_links_def min_def)

lemma no_links_sibling:
  assumes "no_links fs loc" "loc \<noteq> []"
  shows "no_links fs (butlast loc @ [n])"
  unfolding no_links_def
proof (intro allI impI)
  fix i t assume "i < length (butlast loc @ [n])"
  then have i: "i < length loc" using assms(2) by (cases loc rule: rev_cases) auto
  then have "i \<le> length (butlast loc)" by simp
  with i have "take i (butlast loc @ [n]) = take i loc" by (simp add: take_butlast)
  then show "fs (take i (butlast loc @ [n])) \<noteq> Some (Link t)" using assms(1) i by (simp add: no_links_def)
qed

section \<open>What a state may be\<close>

text \<open>Apart from the target and the temporary file, nothing changes but for new parent directories.\<close>

definition others_kept ::
  "string list \<Rightarrow> string list \<Rightarrow> (fs \<times> (string list \<Rightarrow> string)) \<Rightarrow> (fs \<times> (string list \<Rightarrow> string)) \<Rightarrow> bool" where
  "others_kept loc tmp s s' \<longleftrightarrow> (\<forall>l. l \<noteq> loc \<longrightarrow> l \<noteq> tmp \<longrightarrow>
     (fst s' l = fst s l \<and> (fst s l \<noteq> None \<longrightarrow> snd s' l = snd s l)) \<or>
     (fst s l = None \<and> fst s' l = Some (Dir True) \<and> strict_prefix l loc))"

definition target_old :: "string list \<Rightarrow> (fs \<times> (string list \<Rightarrow> string)) \<Rightarrow> (fs \<times> (string list \<Rightarrow> string)) \<Rightarrow> bool" where
  "target_old loc s s' \<longleftrightarrow> fst s' loc = fst s loc \<and> snd s' loc = snd s loc"

definition target_new :: "string list \<Rightarrow> string \<Rightarrow> (fs \<times> (string list \<Rightarrow> string)) \<Rightarrow> bool" where
  "target_new loc bytes s' \<longleftrightarrow> fst s' loc = Some File \<and> snd s' loc = bytes"

definition now_of :: "disk \<Rightarrow> fs \<times> (string list \<Rightarrow> string)" where
  "now_of d = (dk_fs d, dk_data d)"

text \<open>Every state since \<open>d\<close> was one of the two.\<close>

definition trail_ok :: "string list \<Rightarrow> string list \<Rightarrow> string \<Rightarrow> disk \<Rightarrow> disk \<Rightarrow> bool" where
  "trail_ok loc tmp bytes d d' \<longleftrightarrow> (\<exists>ss. dk_trail d' = ss @ dk_trail d \<and>
     (\<forall>s\<in>set ss. others_kept loc tmp (now_of d) s \<and> (target_old loc (now_of d) s \<or> target_new loc bytes s)))"

text \<open>The target is still the old one, resp. the new one.\<close>

definition pending :: "string list \<Rightarrow> string list \<Rightarrow> string \<Rightarrow> disk \<Rightarrow> disk \<Rightarrow> bool" where
  "pending loc tmp bytes d d' \<longleftrightarrow>
     trail_ok loc tmp bytes d d' \<and> others_kept loc tmp (now_of d) (now_of d') \<and> target_old loc (now_of d) (now_of d') \<and>
     no_links (dk_fs d') loc"

definition settled :: "string list \<Rightarrow> string list \<Rightarrow> string \<Rightarrow> disk \<Rightarrow> disk \<Rightarrow> bool" where
  "settled loc tmp bytes d d' \<longleftrightarrow>
     trail_ok loc tmp bytes d d' \<and> others_kept loc tmp (now_of d) (now_of d') \<and> target_new loc bytes (now_of d') \<and>
     dk_fs d' tmp = None"

lemma pending_start: "no_links (dk_fs d) loc \<Longrightarrow> pending loc tmp bytes d d"
  by (simp add: pending_def trail_ok_def others_kept_def target_old_def)

lemma pending_count [simp]:
  "pending loc tmp bytes d (d'\<lparr>dk_ops := n\<rparr>) = pending loc tmp bytes d d'"
  "pending loc tmp bytes d (d'\<lparr>dk_seq := n\<rparr>) = pending loc tmp bytes d d'"
  "settled loc tmp bytes d (d'\<lparr>dk_ops := n\<rparr>) = settled loc tmp bytes d d'"
  by (simp_all add: pending_def settled_def trail_ok_def now_of_def)

text \<open>A step that keeps the target and its parents.\<close>

lemma pending_put:
  assumes p: "pending loc tmp bytes d d'"
    and "others_kept loc tmp (now_of d) (f (dk_fs d'), g (dk_data d'))"
    and "f (dk_fs d') loc = dk_fs d' loc" "g (dk_data d') loc = dk_data d' loc"
    and "no_links (f (dk_fs d')) loc"
  shows "pending loc tmp bytes d (d'\<lparr>dk_fs := f (dk_fs d'), dk_data := g (dk_data d'),
     dk_trail := (f (dk_fs d'), g (dk_data d')) # dk_trail d'\<rparr>)"
proof -
  obtain ss where ss: "dk_trail d' = ss @ dk_trail d"
    "\<forall>s\<in>set ss. others_kept loc tmp (now_of d) s \<and> (target_old loc (now_of d) s \<or> target_new loc bytes s)"
    using p by (auto simp: pending_def trail_ok_def)
  let ?s = "(f (dk_fs d'), g (dk_data d'))"
  have old: "target_old loc (now_of d) ?s" using p assms(3,4) by (simp add: pending_def target_old_def now_of_def)
  have "dk_trail (d'\<lparr>dk_fs := fst ?s, dk_data := snd ?s, dk_trail := ?s # dk_trail d'\<rparr>) = (?s # ss) @ dk_trail d"
    using ss(1) by simp
  moreover have "\<forall>s\<in>set (?s # ss). others_kept loc tmp (now_of d) s \<and> (target_old loc (now_of d) s \<or> target_new loc bytes s)"
    using ss(2) assms(2) old by simp
  ultimately have "trail_ok loc tmp bytes d (d'\<lparr>dk_fs := fst ?s, dk_data := snd ?s, dk_trail := ?s # dk_trail d'\<rparr>)"
    unfolding trail_ok_def by blast
  with assms(2,5) old show ?thesis by (simp add: pending_def now_of_def)
qed

section \<open>The calls\<close>

lemma place_other:
  assumes "place_of l fs = Inr at" "no_links fs loc" "l = take n loc \<or> l = butlast loc @ [m]" "l \<noteq> []" "loc \<noteq> []"
  shows "at = l"
  using assms place_of_no_links no_links_take no_links_sibling by metis

lemma no_links_dir:
  assumes "no_links fs loc"
  shows "no_links (fs(l := Some (Dir b))) loc"
  using assms by (auto simp: no_links_def)

lemma no_links_off: "no_links fs loc \<Longrightarrow> (\<And>i. i < length loc \<Longrightarrow> take i loc \<noteq> l) \<Longrightarrow> no_links (fs(l := x)) loc"
  by (auto simp: no_links_def)

text \<open>A new directory on the way to the target.\<close>

lemma pending_new_dir:
  assumes "pending loc tmp bytes d d'" "n < length loc" "tmp = butlast loc @ [m]" "tmp \<noteq> loc"
  shows "k_wp (new_node env (Dir True) (take n loc)) (\<lambda>_. pending loc tmp bytes d) (pending loc tmp bytes d) d'"
proof -
  have ne: "loc \<noteq> []" using assms(2) by auto
  have links: "no_links (dk_fs d') loc" using assms(1) by (simp add: pending_def)
  have strict: "strict_prefix (take n loc) loc" using assms(2) by (auto simp: strict_prefix_def take_is_prefix)
  have put: "pending loc tmp bytes d (d'\<lparr>dk_ops := k, dk_fs := (dk_fs d')(take n loc := Some (Dir True)),
      dk_data := (dk_data d')(take n loc := []),
      dk_trail := ((dk_fs d')(take n loc := Some (Dir True)), (dk_data d')(take n loc := [])) # dk_trail d'\<rparr>)"
    if none: "dk_fs d' (take n loc) = None" for k
  proof -
    have "length (take n loc) \<noteq> length tmp" using assms(2,3) by simp
    then have "take n loc \<noteq> tmp" by metis
    moreover have "take n loc \<noteq> loc" using strict by auto
    ultimately have was: "dk_fs d (take n loc) = None"
      using assms(1) none by (auto simp: pending_def others_kept_def now_of_def dest!: spec [of _ "take n loc"])
    have "others_kept loc tmp (now_of d) ((dk_fs d')(take n loc := Some (Dir True)), (dk_data d')(take n loc := []))"
      using assms(1) was none strict by (auto simp: pending_def others_kept_def now_of_def)
    moreover have "loc \<noteq> take n loc" using strict by auto
    ultimately have "pending loc tmp bytes d (d'\<lparr>dk_fs := (dk_fs d')(take n loc := Some (Dir True)),
      dk_data := (dk_data d')(take n loc := []),
      dk_trail := ((dk_fs d')(take n loc := Some (Dir True)), (dk_data d')(take n loc := [])) # dk_trail d'\<rparr>)"
      using pending_put [OF assms(1), of "\<lambda>fs. fs(take n loc := Some (Dir True))" "\<lambda>data. data(take n loc := [])"]
        no_links_dir [OF links] by simp
    then show ?thesis by (simp add: pending_def trail_ok_def now_of_def)
  qed
  show ?thesis
    unfolding new_node_def k_wp
    by (rule k_wp_os_call)
      (use assms(1) put place_of_no_links [OF _ no_links_take [OF links]] in
        \<open>auto simp: k_wp k_wp_lift split: sum.split\<close>)
qed

lemma pending_make_dir:
  assumes "pending loc tmp bytes d d'" "n < length loc" "tmp = butlast loc @ [m]" "tmp \<noteq> loc"
  shows "k_wp (make_dir env (take n loc)) (\<lambda>_. pending loc tmp bytes d) (pending loc tmp bytes d) d'"
  using pending_new_dir [OF assms, of env]
  by (auto simp: k_wp_def make_dir_def split: prod.splits sum.splits if_splits)

lemma take_parent: "n \<le> length (butlast loc) \<Longrightarrow> loc \<noteq> [] \<Longrightarrow> take n (butlast loc) = take n loc \<and> n < length loc"
  by (cases loc rule: rev_cases) (auto simp: take_butlast)

lemma pending_create_dirs:
  assumes "loc \<noteq> []" "tmp = butlast loc @ [m]" "tmp \<noteq> loc"
  shows "n \<le> length (butlast loc) \<Longrightarrow> pending loc tmp bytes d d' \<Longrightarrow>
    k_wp (create_dirs env n (butlast loc)) (\<lambda>_. pending loc tmp bytes d) (pending loc tmp bytes d) d'"
proof (induction n arbitrary: d')
  case 0
  then show ?case
    unfolding create_dirs.simps [of env 0] k_wp
    using k_wp_mono [OF pending_make_dir [OF 0(2) _ assms(2,3), of 0 env]] assms(1) by (auto simp: k_wp)
next
  case (Suc n)
  have here: "take (Suc n) (butlast loc) = take (Suc n) loc" "Suc n < length loc" using take_parent [OF Suc(2)] assms(1) by auto
  have again: "k_wp (\<lambda>d. case new_node env (Dir True) (take (Suc n) loc) d of
       (Inr _, d') \<Rightarrow> (Inr (), d')
     | (Inl e, d') \<Rightarrow> if loc_is_dir (take (Suc n) loc) (dk_fs d') then (Inr (), d') else (Inl e, d'))
     (\<lambda>_. pending loc tmp bytes d) (pending loc tmp bytes d) d1" if "pending loc tmp bytes d d1" for d1
    using pending_new_dir [OF that here(2) assms(2,3), of env] by (auto simp: k_wp_def split: prod.splits sum.splits)
  have rest: "k_wp (if ok then k_return () else k_bind (create_dirs env n (butlast loc)) (\<lambda>_ d1.
       case new_node env (Dir True) (take (Suc n) loc) d1 of
         (Inr _, d') \<Rightarrow> (Inr (), d')
       | (Inl e, d') \<Rightarrow> if loc_is_dir (take (Suc n) loc) (dk_fs d') then (Inr (), d') else (Inl e, d')))
     (\<lambda>_. pending loc tmp bytes d) (pending loc tmp bytes d) d1" if "pending loc tmp bytes d d1" for ok d1
    using that Suc(2) by (auto simp: k_wp intro!: k_wp_mono [OF Suc(1)] again)
  show ?case
    unfolding create_dirs.simps [of env "Suc n"] k_wp nat.case here(1)
    by (rule k_wp_mono [OF pending_make_dir [OF Suc(3) here(2) assms(2,3)]]) (use rest in auto)
qed

text \<open>Steps that touch the temporary file only.\<close>

lemma pending_tmp:
  assumes "pending loc tmp bytes d d'" "tmp = butlast loc @ [m]" "tmp \<noteq> loc" "loc \<noteq> []"
    "\<And>l. l \<noteq> tmp \<Longrightarrow> f (dk_fs d') l = dk_fs d' l" "\<And>l. l \<noteq> tmp \<Longrightarrow> g (dk_data d') l = dk_data d' l"
  shows "pending loc tmp bytes d (d'\<lparr>dk_fs := f (dk_fs d'), dk_data := g (dk_data d'),
     dk_trail := (f (dk_fs d'), g (dk_data d')) # dk_trail d'\<rparr>)"
proof (rule pending_put [OF assms(1)])
  show "others_kept loc tmp (now_of d) (f (dk_fs d'), g (dk_data d'))"
    using assms(1,5,6) by (simp add: pending_def others_kept_def now_of_def)
  show "f (dk_fs d') loc = dk_fs d' loc" "g (dk_data d') loc = dk_data d' loc" using assms(3,5,6) by metis+
  have "take i loc \<noteq> tmp" if "i < length loc" for i
  proof -
    have "length (take i loc) \<noteq> length tmp" using that assms(2,4) by (cases loc rule: rev_cases) auto
    then show ?thesis by metis
  qed
  then show "no_links (f (dk_fs d')) loc" using assms(1,5) by (simp add: pending_def no_links_def)
qed

lemma place_tmp:
  assumes "pending loc tmp bytes d d'" "tmp = butlast loc @ [m]" "loc \<noteq> []"
  shows "place_of tmp (dk_fs d') = Inr at \<Longrightarrow> at = tmp" "place_of loc (dk_fs d') = Inr at' \<Longrightarrow> at' = loc"
  using assms place_of_no_links no_links_sibling by (auto simp: pending_def)

definition staged :: "string list \<Rightarrow> string list \<Rightarrow> string \<Rightarrow> disk \<Rightarrow> string \<Rightarrow> disk \<Rightarrow> bool" where
  "staged loc tmp bytes d content d' \<longleftrightarrow>
     pending loc tmp bytes d d' \<and> dk_fs d' tmp = Some File \<and> dk_data d' tmp = content"

lemma staged_new_file:
  assumes "pending loc tmp bytes d d'" "tmp = butlast loc @ [m]" "tmp \<noteq> loc" "loc \<noteq> []"
  shows "k_wp (new_node env File tmp) (\<lambda>at d'. at = tmp \<and> staged loc tmp bytes d [] d') (pending loc tmp bytes d) d'"
proof -
  let ?d = "d'\<lparr>dk_ops := Suc (dk_ops d')\<rparr>"
  have p: "pending loc tmp bytes d ?d" using assms(1) by simp
  have "staged loc tmp bytes d [] (?d\<lparr>dk_fs := (dk_fs ?d)(tmp := Some File), dk_data := (dk_data ?d)(tmp := []),
      dk_trail := ((dk_fs ?d)(tmp := Some File), (dk_data ?d)(tmp := [])) # dk_trail ?d\<rparr>)"
    using pending_tmp [OF p assms(2-4), of "\<lambda>fs. fs(tmp := Some File)" "\<lambda>data. data(tmp := [])"] by (simp add: staged_def)
  moreover have "tmp \<noteq> []" using assms(2) by simp
  ultimately show ?thesis
    unfolding new_node_def k_wp
    by (intro k_wp_os_call) (use p place_tmp(1) [OF assms(1,2,4)] in \<open>auto simp: k_wp k_wp_lift split: sum.split\<close>)
qed

lemma staged_write_all:
  assumes "staged loc tmp bytes d c d'" "tmp = butlast loc @ [m]" "tmp \<noteq> loc" "loc \<noteq> []"
  shows "k_wp (write_all env tmp bytes) (\<lambda>_. staged loc tmp bytes d bytes) (pending loc tmp bytes d) d'"
proof -
  let ?w = "take (de_short env (dk_ops d')) bytes"
  let ?d1 = "d'\<lparr>dk_fs := id (dk_fs d'), dk_data := (dk_data d')(tmp := ?w), dk_trail := (id (dk_fs d'), (dk_data d')(tmp := ?w)) # dk_trail d'\<rparr>"
  let ?d2 = "?d1\<lparr>dk_ops := Suc (dk_ops ?d1)\<rparr>"
  have p1: "pending loc tmp bytes d ?d1"
    using pending_tmp [OF _ assms(2-4), of bytes d d' id "\<lambda>data. data(tmp := ?w)"] assms(1) by (simp add: staged_def)
  then have p2: "pending loc tmp bytes d ?d2" by simp
  have p3: "staged loc tmp bytes d bytes (?d2\<lparr>dk_fs := id (dk_fs ?d2), dk_data := (dk_data ?d2)(tmp := bytes),
      dk_trail := (id (dk_fs ?d2), (dk_data ?d2)(tmp := bytes)) # dk_trail ?d2\<rparr>)"
    using pending_tmp [OF p2 assms(2-4), of id "\<lambda>data. data(tmp := bytes)"] assms(1) by (simp add: staged_def)
  have "k_wp (write_all env tmp bytes) Q E d' = k_wp (os_call env) (\<lambda>_. k_wp (disk_put id (\<lambda>data. data(tmp := bytes))) Q E) E ?d1" for Q E
    unfolding write_all_def by (simp add: k_wp_def k_bind_def disk_put_def split: prod.split sum.split)
  then show ?thesis using p2 p3 by (auto simp: k_wp intro!: k_wp_os_call)
qed

lemma settled_rename:
  assumes "staged loc tmp bytes d bytes d'" "tmp = butlast loc @ [m]" "tmp \<noteq> loc" "loc \<noteq> []"
  shows "k_wp (rename_file env tmp loc) (\<lambda>_. settled loc tmp bytes d) (pending loc tmp bytes d) d'"
proof -
  let ?d = "d'\<lparr>dk_ops := Suc (dk_ops d')\<rparr>"
  have p: "pending loc tmp bytes d ?d" using assms(1) by (simp add: staged_def)
  let ?s = "((dk_fs d')(tmp := None, loc \<mapsto> File), (dk_data d')(loc := bytes))"
  have "others_kept loc tmp (now_of d) ?s \<and> target_new loc bytes ?s"
    using assms(1) by (auto simp: staged_def pending_def others_kept_def target_new_def now_of_def)
  moreover obtain ss where "dk_trail d' = ss @ dk_trail d"
    "\<forall>s\<in>set ss. others_kept loc tmp (now_of d) s \<and> (target_old loc (now_of d) s \<or> target_new loc bytes s)"
    using p by (auto simp: pending_def trail_ok_def)
  ultimately have s: "settled loc tmp bytes d (?d\<lparr>dk_fs := fst ?s, dk_data := snd ?s, dk_trail := ?s # dk_trail ?d\<rparr>)"
    using assms(3) by (auto simp: settled_def trail_ok_def now_of_def intro!: exI [of _ "?s # ss"])
  have t: "dk_fs d' tmp = Some File" "dk_data d' tmp = bytes" using assms(1) by (simp_all add: staged_def)
  show ?thesis
    unfolding rename_file_def k_wp
    by (rule k_wp_os_call)
      (use p s t place_tmp [OF p assms(2,4)] in \<open>auto simp: k_wp k_wp_lift split: sum.split option.split node.split\<close>)
qed

section \<open>The write as a whole\<close>

definition temp_loc :: "disk_env \<Rightarrow> nat \<Rightarrow> string list \<Rightarrow> string list" where
  "temp_loc env n loc =
     butlast loc @ [''.'' @ last loc @ ''.'' @ show_nat (de_pid env) @ ''.'' @ show_nat n @ ''.harness-tmp'']"

lemma temp_loc_other: "loc \<noteq> [] \<Longrightarrow> temp_loc env n loc \<noteq> loc"
proof
  assume "loc \<noteq> []" "temp_loc env n loc = loc"
  then have "last (temp_loc env n loc) = last loc" by simp
  then have "length (last (temp_loc env n loc)) = length (last loc)" by simp
  then show False by (simp add: temp_loc_def)
qed

lemma loc_of_abs [simp]: "loc_of (abs_path loc) = loc"
  by (simp add: loc_of_def abs_path_def comp_def comp_str_def)

lemma abs_path_nonempty [simp]: "abs_path loc \<noteq> []"
  by (simp add: abs_path_def)

lemma abs_path_parts:
  assumes "loc \<noteq> []"
  shows "parent (abs_path loc) = Some (abs_path (butlast loc))" "file_name (abs_path loc) = Some (last loc)"
    "butlast (abs_path loc) = abs_path (butlast loc)"
  using assms by (cases loc rule: rev_cases; simp add: abs_path_def parent_def file_name_def butlast_append)+

lemma pending_write_temp:
  assumes "pending loc tmp bytes d d'" "tmp = butlast loc @ [m]" "tmp \<noteq> loc" "loc \<noteq> []"
  shows "k_wp (write_temp env (k_return ()) (abs_path tmp) (abs_path loc) bytes)
    (\<lambda>_. settled loc tmp bytes d) (pending loc tmp bytes d) d'"
  unfolding write_temp_def k_wp loc_of_abs
proof (rule k_wp_mono [OF staged_new_file [OF assms]], elim conjE, hypsubst)
  fix d1 assume st: "staged loc tmp bytes d [] d1"
  show "k_wp (write_all env tmp bytes) (\<lambda>_. k_wp (sync_all env) (\<lambda>_. k_wp (rename_file env tmp loc)
      (\<lambda>_. settled loc tmp bytes d) (pending loc tmp bytes d)) (pending loc tmp bytes d)) (pending loc tmp bytes d) d1"
  proof (rule k_wp_mono [OF staged_write_all [OF st assms(2-4)]])
    fix d2 assume st: "staged loc tmp bytes d bytes d2"
    then have st': "staged loc tmp bytes d bytes (d2\<lparr>dk_ops := Suc (dk_ops d2)\<rparr>)" by (simp add: staged_def)
    then show "k_wp (sync_all env) (\<lambda>_. k_wp (rename_file env tmp loc)
      (\<lambda>_. settled loc tmp bytes d) (pending loc tmp bytes d)) (pending loc tmp bytes d) d2"
      unfolding sync_all_def
      by (intro k_wp_os_call settled_rename [OF st' assms(2-4)]) (simp add: staged_def)
  qed
qed

lemma pending_remove:
  assumes "pending loc tmp bytes d d'" "tmp = butlast loc @ [m]" "tmp \<noteq> loc" "loc \<noteq> []"
  shows "pending loc tmp bytes d (snd (remove_file env tmp d'))"
proof -
  let ?d = "d'\<lparr>dk_ops := Suc (dk_ops d')\<rparr>"
  have p: "pending loc tmp bytes d ?d" using assms(1) by simp
  have q: "pending loc tmp bytes d (?d\<lparr>dk_fs := (dk_fs ?d)(tmp := None), dk_data := id (dk_data ?d),
      dk_trail := ((dk_fs ?d)(tmp := None), id (dk_data ?d)) # dk_trail ?d\<rparr>)"
    using pending_tmp [OF p assms(2-4), of "\<lambda>fs. fs(tmp := None)" id] by simp
  have "k_wp (remove_file env tmp) (\<lambda>_. pending loc tmp bytes d) (pending loc tmp bytes d) d'"
    unfolding remove_file_def k_wp
    by (rule k_wp_os_call)
      (use p q place_tmp(1) [OF p assms(2,4)] in \<open>auto simp: k_wp k_wp_lift split: sum.split option.split node.split\<close>)
  then show ?thesis by (auto simp: k_wp_def split: prod.splits sum.splits)
qed

lemma settled_sync: "settled loc tmp bytes d d' \<Longrightarrow> settled loc tmp bytes d (snd (sync_all env d'))"
  by (simp add: sync_all_def os_call_def)

lemma create_dirs_seq: "dk_seq (snd (create_dirs env n loc d)) = dk_seq d"
proof -
  have node: "dk_seq (snd (new_node env nd l d)) = dk_seq d" for nd l d
    by (simp add: new_node_def k_bind_def os_call_def k_lift_def disk_put_def k_return_def k_fail_def
        split: option.split sum.split)
  then have dir: "dk_seq (snd (make_dir env l d)) = dk_seq d" for l d
    using node [of "Dir True" l d]
    by (cases "new_node env (Dir True) l d") (auto simp: make_dir_def split: sum.split)
  show ?thesis
  proof (induction n arbitrary: d)
    case 0
    show ?case using dir [of "[]" d]
      by (auto simp: create_dirs.simps [of env 0] k_bind_def k_return_def k_fail_def split: prod.split sum.split)
  next
    case (Suc n)
    obtain r d1 where m: "make_dir env (take (Suc n) loc) d = (r, d1)" by fastforce
    obtain r' d2 where c: "create_dirs env n loc d1 = (r', d2)" by fastforce
    obtain r'' d3 where w: "new_node env (Dir True) (take (Suc n) loc) d2 = (r'', d3)" by fastforce
    show ?case
      using dir [of "take (Suc n) loc" d] Suc [of d1] node [of "Dir True" "take (Suc n) loc" d2] m c w
      by (auto simp: create_dirs.simps [of env "Suc n"] k_bind_def k_return_def split: sum.split)
  qed
qed

lemma write_atomic_settles:
  assumes "loc \<noteq> []" "no_links (dk_fs d) loc" and tmp: "tmp = temp_loc env (dk_seq d) loc"
  shows "k_wp (write_atomic env (abs_path loc) bytes) (\<lambda>_. settled loc tmp bytes d) (pending loc tmp bytes d) d"
proof -
  obtain m where last': "tmp = butlast loc @ [m]" by (simp add: tmp temp_loc_def)
  note ne = temp_loc_other [OF assms(1), of env "dk_seq d", folded tmp]
  let ?P = "pending loc tmp bytes d" and ?S = "settled loc tmp bytes d"
  obtain r1 d1 where made: "create_dirs env (length (butlast loc)) (butlast loc) d = (r1, d1)" by fastforce
  have p1: "?P d1" "dk_seq d1 = dk_seq d"
    using pending_create_dirs [OF assms(1) last' ne le_refl pending_start [OF assms(2)], of env]
      create_dirs_seq [of env "length (butlast loc)" "butlast loc" d] made
    by (auto simp: k_wp_def split: sum.splits)
  let ?d = "d1\<lparr>dk_seq := Suc (dk_seq d1)\<rparr>"
  have path: "abs_path (butlast loc) @ [Normal (''.'' @ last loc @ ''.'' @ show_nat (de_pid env) @ ''.'' @ show_nat (dk_seq d) @ ''.harness-tmp'')]
      = abs_path tmp"
    by (simp add: tmp temp_loc_def abs_path_def)
  have named: "temp_name env (abs_path loc) d1 = (Inr (abs_path tmp), ?d)"
    unfolding path [symmetric] by (simp add: temp_name_def abs_path_parts [OF assms(1)] p1(2))
  obtain r2 d2 where wrote: "write_temp env (k_return ()) (abs_path tmp) (abs_path loc) bytes ?d = (r2, d2)" by fastforce
  have p2: "case r2 of Inl _ \<Rightarrow> ?P d2 | Inr _ \<Rightarrow> ?S d2"
    using pending_write_temp [of loc tmp bytes d ?d, OF _ last' ne assms(1), of env] p1(1) wrote
    by (auto simp: k_wp_def split: sum.splits)
  have "write_atomic env (abs_path loc) bytes d = (case r1 of Inl e \<Rightarrow> (Inl e, d1) | Inr _ \<Rightarrow>
     (case r2 of Inl e \<Rightarrow> (Inl e, snd (remove_file env tmp d2)) | Inr _ \<Rightarrow> (Inr (), snd (sync_all env d2))))"
    using made wrote named
    by (simp add: write_atomic_def write_atomic_with_def abs_path_parts(1) [OF assms(1)] k_bind_def split: sum.split)
  with p1(1) p2 settled_sync pending_remove [OF _ last' ne assms(1), of bytes d d2 env]
  show ?thesis by (auto simp: k_wp_def split: sum.splits)
qed

text \<open>
  C8: An atomic write is all or nothing, whatever calls fail and wherever it is cut short: when no
  directory on the way is a link, in every state the disk goes through the target is the old file or
  the new one whole, nothing else changes but a temporary file beside it and missing parent
  directories; when the write comes back well the target is the new file and the temporary one is
  gone, when it fails the target is the old file.
\<close>

theorem write_atomic_all_or_nothing:
  assumes "loc \<noteq> []" "no_links (dk_fs d) loc" "write_atomic env (abs_path loc) bytes d = (r, d')"
  shows "trail_ok loc (temp_loc env (dk_seq d) loc) bytes d d' \<and>
    others_kept loc (temp_loc env (dk_seq d) loc) (now_of d) (now_of d') \<and>
    (case r of Inl _ \<Rightarrow> target_old loc (now_of d) (now_of d')
     | Inr _ \<Rightarrow> target_new loc bytes (now_of d') \<and> dk_fs d' (temp_loc env (dk_seq d) loc) = None)"
  using write_atomic_settles [OF assms(1,2) refl, of env bytes] assms(3)
  by (auto simp: k_wp_def settled_def pending_def split: sum.splits)

text \<open>A disk with one file, and calls of which the fourth (the flush) fails on demand.\<close>

definition demo_disk :: disk where
  "demo_disk =
     \<lparr>dk_fs = (\<lambda>_. None)([] := Some (Dir True), [''f''] := Some File),
      dk_data = (\<lambda>_. [])([''f''] := ''old''), dk_ops = 0, dk_seq = 7, dk_trail = []\<rparr>"

definition demo_disk_env :: "bool \<Rightarrow> disk_env" where
  "demo_disk_env broken =
     \<lparr>de_fault = (\<lambda>n. if broken \<and> n = 3 then Some (OtherIo ''disk on fire'') else None), de_short = (\<lambda>_. 1), de_pid = 4\<rparr>"

lemma write_atomic_all_or_nothing_witness:
  "(fst (write_atomic (demo_disk_env False) (abs_path [''f'']) ''new'' demo_disk) = Inr () \<and>
    dk_data (snd (write_atomic (demo_disk_env False) (abs_path [''f'']) ''new'' demo_disk)) [''f''] = ''new'') \<and>
   (fst (write_atomic (demo_disk_env True) (abs_path [''f'']) ''new'' demo_disk) = Inl (OtherIo ''disk on fire'') \<and>
    dk_data (snd (write_atomic (demo_disk_env True) (abs_path [''f'']) ''new'' demo_disk)) [''f''] = ''old'')"
proof -
  have links: "no_links (dk_fs demo_disk) [''f'']" by (auto simp: no_links_def demo_disk_def)
  have r: "fst (write_atomic (demo_disk_env False) (abs_path [''f'']) ''new'' demo_disk) = Inr ()"
    "fst (write_atomic (demo_disk_env True) (abs_path [''f'']) ''new'' demo_disk) = Inl (OtherIo ''disk on fire'')"
    by code_simp+
  have old: "dk_data demo_disk [''f''] = ''old''" by (simp add: demo_disk_def)
  note all = write_atomic_all_or_nothing [OF _ links prod.collapse [symmetric], unfolded target_old_def target_new_def now_of_def]
  show ?thesis using all [of "demo_disk_env False" "''new''"] all [of "demo_disk_env True" "''new''"]
    by (simp add: r old)
qed

end
