(* ===== verification/File_Text_Facts.thy ===== *)
theory File_Text_Facts
  imports File_Text
begin

text \<open>
  Facts on decoded text: it is always well-formed UTF-8, exact decoding loses nothing, line endings
  survive the change to newlines and back, and replacing text keeps what is around it.
\<close>

section \<open>Text is well-formed\<close>

lemma byte_char_of [simp]: "byte (char_of n) = n mod 256"
  by (simp add: byte_def of_char_of take_bit_eq_mod)

lemma utf8_valid_one: "char_len s = length s \<Longrightarrow> utf8_valid s"
  by (subst utf8_valid.simps) simp

lemma utf8_encode_valid:
  assumes "n < 0x110000" "n < 0xD800 \<or> 0xDFFF < n"
  shows "utf8_valid (utf8_encode n)"
proof (rule utf8_valid_one)
  have cont: "is_cont (char_of (0x80 + m mod 64))" for m :: nat
  proof -
    have "m mod 64 < 64" by simp
    then have "(0x80 + m mod 64) mod 256 = 0x80 + m mod 64" by (intro mod_less) linarith
    then show ?thesis by (simp add: is_cont_byte)
  qed
  show "char_len (utf8_encode n) = length (utf8_encode n)"
  proof -
    consider "n < 0x80" | "0x80 \<le> n" "n < 0x800" | "0x800 \<le> n" "n < 0x10000" | "0x10000 \<le> n" by linarith
    then show ?thesis
    proof cases
      case 1
      then show ?thesis by (simp add: utf8_encode_def char_len_def lead_len_def conts_def second_ok_def)
    next
      case 2
      then have "n div 64 < 32" "2 \<le> n div 64" by auto
      then have "byte (char_of (0xC0 + n div 64)) = 0xC0 + n div 64" by simp
      with 2 \<open>n div 64 < 32\<close> \<open>2 \<le> n div 64\<close> cont [of n] show ?thesis
        by (simp add: utf8_encode_def char_len_def lead_len_def conts_def second_ok_def)
    next
      case 3
      then have b: "n div 4096 < 16" by auto
      then have lead: "byte (char_of (0xE0 + n div 4096)) = 0xE0 + n div 4096" by simp
      have "n div 64 mod 64 < 64" by simp
      then have second: "byte (char_of (0x80 + n div 64 mod 64)) = 0x80 + n div 64 mod 64" by simp
      have "n div 4096 = n div 64 div 64" by (simp add: div_mult2_eq)
      then have "n div 64 = 64 * (n div 4096) + n div 64 mod 64" by simp
      moreover have "32 \<le> n div 64" using 3(1) by auto
      moreover have "n div 64 < 864 \<or> 896 \<le> n div 64" using assms(2) by auto
      ultimately have "second_ok (char_of (0xE0 + n div 4096)) (char_of (0x80 + n div 64 mod 64) # t)" for t
        unfolding second_ok_def using lead second b by auto
      with 3 b lead cont [of "n div 64"] cont [of n] show ?thesis
        by (simp add: utf8_encode_def char_len_def lead_len_def conts_def)
    next
      case 4
      then have b: "n div 262144 < 5" using assms(1) by auto
      then have lead: "byte (char_of (0xF0 + n div 262144)) = 0xF0 + n div 262144" by simp
      have "n div 4096 mod 64 < 64" by simp
      then have second: "byte (char_of (0x80 + n div 4096 mod 64)) = 0x80 + n div 4096 mod 64" by simp
      have "n div 262144 = n div 4096 div 64" by (simp add: div_mult2_eq)
      then have "n div 4096 = 64 * (n div 262144) + n div 4096 mod 64" by simp
      moreover have "16 \<le> n div 4096" "n div 4096 < 272" using 4 assms(1) by auto
      ultimately have "second_ok (char_of (0xF0 + n div 262144)) (char_of (0x80 + n div 4096 mod 64) # t)" for t
        unfolding second_ok_def using lead second b by auto
      with 4 b lead cont [of "n div 4096"] cont [of "n div 64"] cont [of n] show ?thesis
        by (simp add: utf8_encode_def char_len_def lead_len_def conts_def)
    qed
  qed
qed

lemma replacement_valid: "utf8_valid replacement"
  by code_simp

lemma utf16_units_bound: "u \<in> set (utf16_units little s) \<Longrightarrow> u < 0x10000"
proof (induction little s rule: utf16_units.induct)
  case (2 little a)
  have "(of_char a :: nat) < 256" by (rule nat_of_char_less_256)
  then have "(of_char a :: nat) < 0x10000" "(of_char a :: nat) * 256 < 0x10000" by linarith+
  moreover have "u = of_char a \<or> u = of_char a * 256" using 2 by (auto split: if_splits)
  ultimately show ?case by metis
next
  case (3 little a b s)
  have "(of_char a :: nat) < 256" "(of_char b :: nat) < 256" by (rule nat_of_char_less_256)+
  then have "(of_char a :: nat) + of_char b * 256 < 0x10000" "(of_char a :: nat) * 256 + of_char b < 0x10000" by linarith+
  moreover have "u = of_char a + of_char b * 256 \<or> u = of_char a * 256 + of_char b \<or> u \<in> set (utf16_units little s)"
    using 3(2) by (auto split: if_splits)
  ultimately show ?case using 3(1) by metis
qed simp

lemma utf16_text_valid: "(\<And>u. u \<in> set us \<Longrightarrow> u < 0x10000) \<Longrightarrow> utf8_valid (utf16_text us)"
proof (induction us rule: utf16_text.induct)
  case (2 u)
  then show ?case by (auto simp: replacement_valid high_surrogate_def low_surrogate_def intro!: utf8_encode_valid)
next
  case (3 u v us)
  have pair: "utf8_valid (utf8_encode (0x10000 + (u - 0xD800) * 1024 + (v - 0xDC00)))" if "high_surrogate u" "low_surrogate v"
    using that by (intro utf8_encode_valid) (auto simp: high_surrogate_def low_surrogate_def)
  have one: "utf8_valid (utf8_encode u)" if "\<not> high_surrogate u" "\<not> low_surrogate u"
    using that 3(5) [of u] by (intro utf8_encode_valid) (auto simp: high_surrogate_def low_surrogate_def)
  show ?case using 3 pair one by (auto intro!: utf8_valid_append replacement_valid)
qed simp

lemma utf8_lossy_is_valid: "utf8_valid (utf8_lossy s)"
proof (induction s rule: utf8_lossy.induct)
  case (1 s)
  show ?case
  proof (cases "s = []")
    case False
    have "utf8_valid (take (char_len s) s)" if "0 < char_len s"
      using that by (intro utf8_valid_one) (simp add: char_len_take char_len_le min_absorb2)
    with 1 False show ?thesis
      by (auto simp: utf8_lossy.simps [of s] intro!: utf8_valid_append replacement_valid)
  qed simp
qed

lemma decoded_valid: "utf8_valid (dt_text (decode_bytes bytes))"
  by (auto simp: decode_bytes_def Let_def utf8_lossy_is_valid utf16_text_valid utf16_units_bound split: bom.split)

lemma decoded_exact:
  assumes "dt_encoding (decode_bytes bytes) = EncUtf8"
  shows "bytes = bom_bytes (dt_bom (decode_bytes bytes)) @ dt_text (decode_bytes bytes)"
proof -
  have "take (length (bom_bytes (bom_detect bytes))) bytes = bom_bytes (bom_detect bytes)"
    by (auto simp: bom_detect_def take_drop_prefix) (auto simp: bom_bytes_def)
  then have "bytes = bom_bytes (bom_detect bytes) @ drop (length (bom_bytes (bom_detect bytes))) bytes"
    by (metis append_take_drop_id)
  with assms show ?thesis by (auto simp: decode_bytes_def Let_def split: bom.splits if_splits)
qed

section \<open>Line endings\<close>

text \<open>Replacing, as a walk over the text.\<close>

function replace_go :: "string \<Rightarrow> string \<Rightarrow> string \<Rightarrow> string" where
  "replace_go p new s =
     (case s of [] \<Rightarrow> []
      | c # t \<Rightarrow> (if p \<noteq> [] \<and> take (length p) s = p then new @ replace_go p new (drop (length p) s) else c # replace_go p new t))"
  by pat_completeness auto
termination by (relation "measure (\<lambda>(p, new, s). length s)") auto

declare replace_go.simps [simp del]

lemma split_pat_go_Nil [simp]: "split_pat_go p cur [] = [rev cur]"
  by (subst split_pat_go.simps) simp

lemma split_pat_go_Cons: "split_pat_go p cur (c # t) =
    (if p \<noteq> [] \<and> take (length p) (c # t) = p then rev cur # split_pat_go p [] (drop (length p) (c # t))
     else split_pat_go p (c # cur) t)"
  by (subst split_pat_go.simps) simp

lemma replace_go_Nil [simp]: "replace_go p new [] = []"
  by (subst replace_go.simps) simp

lemma replace_go_Cons: "replace_go p new (c # t) =
    (if p \<noteq> [] \<and> take (length p) (c # t) = p then new @ replace_go p new (drop (length p) (c # t))
     else c # replace_go p new t)"
  by (subst replace_go.simps) simp

lemma split_pat_go_nonempty [simp]: "split_pat_go p cur s \<noteq> []"
  by (induction p cur s rule: split_pat_go.induct) (subst split_pat_go.simps, simp split: list.split)

lemma join_with_Cons: "xs \<noteq> [] \<Longrightarrow> join_with sep (x # xs) = x @ sep @ join_with sep xs"
  by (cases xs) simp_all

lemma join_split_pat_go: "join_with new (split_pat_go p cur s) = rev cur @ replace_go p new s"
proof (induction p cur s rule: split_pat_go.induct)
  case (1 p cur s)
  show ?case
  proof (cases s)
    case (Cons c t)
    with 1 show ?thesis
      by (cases "p \<noteq> [] \<and> take (length p) (c # t) = p")
        (auto simp: split_pat_go_Cons replace_go_Cons join_with_Cons simp del: take_Suc_Cons drop_Suc_Cons)
  qed simp
qed

lemma replace_str_go: "p \<noteq> [] \<Longrightarrow> replace_str p new s = replace_go p new s"
  by (simp add: replace_str_def split_pat_def join_split_pat_go)

lemma replace_go_same: "replace_go p p s = s"
proof (induction s rule: length_induct)
  case (1 s)
  show ?case
  proof (cases s)
    case (Cons c t)
    show ?thesis
    proof (cases "p \<noteq> [] \<and> take (length p) (c # t) = p")
      case True
      then have "replace_go p p (drop (length p) (c # t)) = drop (length p) (c # t)" using 1 Cons by auto
      then have "replace_go p p (c # t) = p @ drop (length p) (c # t)" using True by (simp add: replace_go_Cons del: drop_Suc_Cons)
      also have "\<dots> = c # t" using True by (metis append_take_drop_id)
      finally show ?thesis using Cons by simp
    next
      case False
      with 1 Cons show ?thesis by (auto simp: replace_go_Cons)
    qed
  qed simp
qed

lemma pieces_join: "p \<noteq> [] \<Longrightarrow> join_with p (split_pat p s) = s"
  by (simp add: split_pat_def join_split_pat_go replace_go_same)

lemma to_crlf_map: "to_crlf s = concat (map (\<lambda>c. if c = CHR 0x0A then crlf else [c]) s)"
proof -
  have "replace_go [CHR 0x0A] crlf s = concat (map (\<lambda>c. if c = CHR 0x0A then crlf else [c]) s)"
    by (induction s) (simp_all add: replace_go_Cons)
  then show ?thesis by (simp add: to_crlf_def replace_str_go)
qed

lemma to_crlf_append [simp]: "to_crlf (s @ t) = to_crlf s @ to_crlf t"
  by (simp add: to_crlf_map)

lemma to_crlf_join: "to_crlf (join_with p ps) = join_with (to_crlf p) (map to_crlf ps)"
  by (induction p ps rule: join_with.induct) (simp_all add: to_crlf_map)

lemma count_eols_cr: "(case s of [] \<Rightarrow> True | c # _ \<Rightarrow> c \<noteq> CHR 0x0A) \<Longrightarrow> count_eols True s = count_eols False s"
  by (cases s) simp_all

text \<open>A text without bare newlines is not changed by taking the carriage returns out and putting them back.\<close>

lemma crlf_roundtrip_go:
  "snd (count_eols False s) = 0 \<Longrightarrow> concat (map (\<lambda>c. if c = CHR 0x0A then crlf else [c]) (replace_go crlf [CHR 0x0A] s)) = s"
proof (induction s rule: length_induct)
  case (1 s)
  show ?case
  proof (cases s)
    case (Cons c t)
    show ?thesis
    proof (cases "\<exists>u. s = crlf @ u")
      case True
      then obtain u where u: "s = crlf @ u" by blast
      have "snd (count_eols False u) = 0" using 1(2) u by (auto simp: crlf_def split: prod.splits)
      moreover have "length u < length s" using u by (simp add: crlf_def)
      ultimately have "concat (map (\<lambda>c. if c = CHR 0x0A then crlf else [c]) (replace_go crlf [CHR 0x0A] u)) = u" using 1(1) by blast
      moreover have "replace_go crlf [CHR 0x0A] s = CHR 0x0A # replace_go crlf [CHR 0x0A] u"
        using u by (simp add: crlf_def replace_go_Cons)
      ultimately show ?thesis using u by simp
    next
      case False
      then have no: "take (length crlf) (c # t) \<noteq> crlf" unfolding Cons by (metis append_take_drop_id)
      have c: "c \<noteq> CHR 0x0A" using 1(2) Cons by (auto split: prod.splits)
      have "snd (count_eols False t) = 0"
      proof (cases "c = CHR 0x0D")
        case True
        then have "count_eols True t = count_eols False t"
          using False Cons by (intro count_eols_cr) (auto simp: crlf_def split: list.split)
        then show ?thesis using 1(2) Cons True c by (auto split: prod.splits)
      next
        case f: False
        then show ?thesis using 1(2) Cons c by (auto split: prod.splits)
      qed
      then have "concat (map (\<lambda>c. if c = CHR 0x0A then crlf else [c]) (replace_go crlf [CHR 0x0A] t)) = t" using 1(1) Cons by simp
      then show ?thesis using no c Cons by (simp add: replace_go_Cons del: take_Suc_Cons)
    qed
  qed simp
qed

lemma crlf_roundtrip:
  assumes "line_ending_of s = EolCrLf"
  shows "to_crlf (to_lf s) = s"
proof -
  have "snd (count_eols False s) = 0" using assms by (auto simp: line_ending_of_def split: prod.splits if_splits)
  moreover have "crlf \<noteq> []" by (simp add: crlf_def)
  ultimately show ?thesis by (simp add: to_crlf_map to_lf_def replace_str_go crlf_roundtrip_go)
qed

end
