(* ===== verification/File_Guarantees.thy ===== *)
theory File_Guarantees
  imports File_Find File_Atomic File_Text_Facts
begin

text \<open>
  What the file tools guarantee: an edit changes the matched places and nothing else, a text file stays
  one, a view shows the lines it says, numbered, within its limits.
\<close>

section \<open>Pieces of a text\<close>

lemma concat_chars_of: "concat (chars_of s) = s"
proof (induction s rule: chars_of.induct)
  case (1 s)
  show ?case
  proof (cases s)
    case (Cons c t)
    have "next_char s @ drop (length (next_char s)) s = s"
      using Cons by (simp add: next_char_def) (metis takeWhile_dropWhile_id dropWhile_eq_drop)
    moreover have "chars_of s = next_char s # chars_of (drop (length (next_char s)) s)"
      using Cons by (subst chars_of.simps) simp
    ultimately show ?thesis using 1 Cons by (simp only: concat.simps) simp
  qed (simp add: chars_of.simps)
qed

lemma join_with_Nil: "join_with [] xs = concat xs"
  by (induction "[] :: string" xs rule: join_with.induct) simp_all

lemma pieces: "join_with p (split_pat p s) = s"
  by (cases "p = []") (simp_all add: pieces_join, simp add: split_pat_def join_with_Nil concat_chars_of)

lemma length_pieces: "length (match_positions p s) = length (split_pat p s) - 1"
  by (simp add: match_positions_def Let_def)

lemma split_pat_nonempty: "split_pat p s \<noteq> []"
  by (simp add: split_pat_def)

lemma edited_pieces:
  assumes "everywhere \<or> length (split_pat old s) = 2"
  shows "edited_text s old new everywhere = join_with new (split_pat old s)"
proof (cases everywhere)
  case False
  with assms obtain a b where "split_pat old s = [a, b]"
    by (auto simp: length_Suc_conv numeral_2_eq_2)
  with False show ?thesis by (simp add: edited_text_def replace_first_def)
qed (simp add: edited_text_def replace_str_def)

section \<open>What the disk holds\<close>

lemma located_no_links: "located fs loc \<Longrightarrow> no_links fs loc"
  by (auto simp: located_def no_links_def)

lemma read_located:
  assumes "located (dk_fs d) loc" "read_file env (abs_path loc) d = (Inr bytes, d')"
  shows "bytes = dk_data d loc \<and> d' = d\<lparr>dk_ops := Suc (dk_ops d)\<rparr>"
proof -
  have "real_walk (dk_fs d) max_links [] (abs_path loc) = Inr loc"
    using real_walk_names [of "dk_fs d" "[]" loc max_links] assms(1) by (simp add: abs_path_def)
  with assms(2) show ?thesis
    by (auto simp: read_file_def k_bind_def os_call_def split: option.splits node.splits)
qed

lemma read_keeps_disk:
  "read_file env p d = (r, d') \<Longrightarrow> d' = d\<lparr>dk_ops := Suc (dk_ops d)\<rparr>"
  by (auto simp: read_file_def k_bind_def os_call_def split: option.splits sum.splits node.splits)

lemma on_disk_fields:
  "on_disk m st = (r, st') \<Longrightarrow> fi_seen st' = fi_seen st \<and> fi_index st' = fi_index st \<and> m (fi_disk st) = (r, fi_disk st')"
  by (auto simp: on_disk_def split: prod.splits)

text \<open>An atomic write at a place without links, as the tools use it.\<close>

definition only_changed :: "string list \<Rightarrow> disk \<Rightarrow> disk \<Rightarrow> bool" where
  "only_changed loc d d' \<longleftrightarrow> (\<exists>tmp. tmp \<noteq> loc \<and> butlast tmp = butlast loc \<and> others_kept loc tmp (now_of d) (now_of d'))"

lemma atomic_on_disk:
  assumes "loc \<noteq> []" "no_links (dk_fs (fi_disk st)) loc" "on_disk (write_atomic env (abs_path loc) bytes) st = (r, st')"
  shows "only_changed loc (fi_disk st) (fi_disk st') \<and>
    (case r of Inl _ \<Rightarrow> target_old loc (now_of (fi_disk st)) (now_of (fi_disk st')) | Inr _ \<Rightarrow> target_new loc bytes (now_of (fi_disk st')))"
proof -
  let ?tmp = "temp_loc env (dk_seq (fi_disk st)) loc"
  have "write_atomic env (abs_path loc) bytes (fi_disk st) = (r, fi_disk st')" using on_disk_fields [OF assms(3)] by simp
  with write_atomic_settles [OF assms(1,2) refl, of env bytes]
  have "others_kept loc ?tmp (now_of (fi_disk st)) (now_of (fi_disk st'))"
    "case r of Inl _ \<Rightarrow> target_old loc (now_of (fi_disk st)) (now_of (fi_disk st')) | Inr _ \<Rightarrow> target_new loc bytes (now_of (fi_disk st'))"
    by (auto simp: k_wp_def settled_def pending_def split: sum.splits)
  moreover have "?tmp \<noteq> loc" "butlast ?tmp = butlast loc" using temp_loc_other [OF assms(1)] by (simp_all add: temp_loc_def)
  ultimately show ?thesis unfolding only_changed_def by blast
qed

lemma unchanged_disk:
  assumes "loc \<noteq> []" "now_of d' = now_of d"
  shows "only_changed loc d d' \<and> target_old loc (now_of d) (now_of d')"
proof -
  have "temp_loc undefined 0 loc \<noteq> loc" "butlast (temp_loc undefined 0 loc) = butlast loc"
    using temp_loc_other [OF assms(1)] by (auto simp: temp_loc_def)
  with assms(2) show ?thesis unfolding only_changed_def target_old_def others_kept_def by auto
qed

section \<open>Editing\<close>

lemma edit_back_join: "edit_back dt old (join_with p ps) = join_with (edit_back dt old p) (map (edit_back dt old) ps)"
  by (auto simp: edit_back_def to_crlf_join cong: map_cong)

lemma edit_back_haystack: "edit_back (decode_bytes b) old (edit_haystack (decode_bytes b) old) = dt_text (decode_bytes b)"
proof -
  have "dt_eol (decode_bytes b) = line_ending_of (dt_text (decode_bytes b))"
    by (simp add: decode_bytes_def Let_def split: bom.split)
  then show ?thesis by (auto simp: edit_back_def edit_haystack_def edit_crlf_def crlf_roundtrip)
qed

text \<open>The bytes around the edited places.\<close>

lemma edit_bytes:
  assumes "dt_encoding (decode_bytes b) = EncUtf8" "everywhere \<or> length (match_positions old (edit_haystack (decode_bytes b) old)) = 1"
  defines "dt \<equiv> decode_bytes b"
  defines "ps \<equiv> map (edit_back dt old) (split_pat old (edit_haystack dt old))"
  shows "b = bom_bytes (dt_bom dt) @ join_with (edit_back dt old old) ps"
    "edit_back dt old (edited_text (edit_haystack dt old) old new everywhere) = join_with (edit_back dt old new) ps"
proof -
  show "b = bom_bytes (dt_bom dt) @ join_with (edit_back dt old old) ps"
    using decoded_exact [OF assms(1)]
    by (simp add: ps_def edit_back_join [symmetric] pieces dt_def edit_back_haystack)
  have "length (split_pat old (edit_haystack dt old)) = 2" if "\<not> everywhere"
    using assms(2) that split_pat_nonempty [of old "edit_haystack dt old"] by (simp add: length_pieces dt_def)
  then have "edited_text (edit_haystack dt old) old new everywhere = join_with new (split_pat old (edit_haystack dt old))"
    by (intro edited_pieces) blast
  then show "edit_back dt old (edited_text (edit_haystack dt old) old new everywhere) = join_with (edit_back dt old new) ps"
    by (simp add: ps_def edit_back_join)
qed

text \<open>An edit that reaches the write.\<close>

lemma edit_text_cases:
  assumes "edit_text lib env t e b st = (out, st')"
  obtains "to_is_error out" "st' = st"
  | note' n where "dt_encoding (decode_bytes b) = EncUtf8"
      "match_positions (ei_old e) (edit_haystack (decode_bytes b) (ei_old e)) \<noteq> []"
      "ei_all e \<or> length (match_positions (ei_old e) (edit_haystack (decode_bytes b) (ei_old e))) = 1"
      "edit_write lib env t (decode_bytes b) e note' n st = (out, st')"
proof (cases "dt_encoding (decode_bytes b) = EncUtf8 \<and> match_positions (ei_old e) (edit_haystack (decode_bytes b) (ei_old e)) \<noteq> [] \<and>
    \<not> (1 < length (match_positions (ei_old e) (edit_haystack (decode_bytes b) (ei_old e))) \<and> \<not> ei_all e)")
  case True
  then have "ei_all e \<or> length (match_positions (ei_old e) (edit_haystack (decode_bytes b) (ei_old e))) = 1"
    by (metis One_nat_def length_0_conv less_one nat_neq_iff)
  with True assms that(2) show thesis by (auto simp: edit_text_def Let_def is_exact_utf8_def split: if_splits)
next
  case False
  with assms that(1) show thesis by (auto simp: edit_text_def Let_def is_exact_utf8_def out_error_def split: if_splits)
qed

lemma edit_file_cases:
  assumes "edit_file lib env t e st = (out, st')"
  obtains "to_is_error out" "now_of (fi_disk st') = now_of (fi_disk st)" "fi_seen st' = fi_seen st"
  | b st1 where "on_disk (read_file env (ft_abs t)) st = (Inr b, st1)" "edit_text lib env t e b st1 = (out, st')"
proof -
  have kept: "now_of (fi_disk st1) = now_of (fi_disk st) \<and> fi_seen st1 = fi_seen st"
    if "on_disk (read_file env (ft_abs t)) st = (r, st1)" for r st1
    using on_disk_fields [OF that] read_keeps_disk [of env "ft_abs t" "fi_disk st" r "fi_disk st1"] by (simp add: now_of_def)
  show thesis
  proof (cases "ei_old e = ei_new e \<or> is_dir (dk_fs (fi_disk st)) (ft_abs t)")
    case True
    with assms that(1) show thesis by (auto simp: edit_file_def out_error_def Let_def split: if_splits)
  next
    case False
    obtain r st1 where r: "on_disk (read_file env (ft_abs t)) st = (r, st1)" by fastforce
    show thesis
    proof (cases "\<exists>b. r = Inr b \<and> \<not> is_binary b")
      case True
      with r assms False that(2) show thesis by (auto simp: edit_file_def Let_def split: if_splits)
    next
      case f: False
      with r assms False have "to_is_error out \<and> st' = st1"
        by (cases r) (auto simp: edit_file_def out_error_def Let_def split: if_splits)
      with kept [OF r] that(1) show thesis by blast
    qed
  qed
qed

lemma edit_outcome:
  assumes "located (dk_fs (fi_disk st)) loc" "loc \<noteq> []" "ft_abs t = abs_path loc" "edit_file lib env t e st = (out, st')"
  defines "dt \<equiv> decode_bytes (dk_data (fi_disk st) loc)"
  defines "after \<equiv> bom_bytes (dt_bom dt) @ edit_back dt (ei_old e)
    (edited_text (edit_haystack dt (ei_old e)) (ei_old e) (edit_new dt (ei_old e) (ei_new e)) (ei_all e))"
  shows "only_changed loc (fi_disk st) (fi_disk st') \<and>
    (if to_is_error out then target_old loc (now_of (fi_disk st)) (now_of (fi_disk st')) \<and> fi_seen st' = fi_seen st
     else dt_encoding dt = EncUtf8 \<and> match_positions (ei_old e) (edit_haystack dt (ei_old e)) \<noteq> [] \<and>
       (ei_all e \<or> length (match_positions (ei_old e) (edit_haystack dt (ei_old e))) = 1) \<and>
       dk_data (fi_disk st') loc = after \<and> fi_seen st' (abs_path loc) = Some (fl_sha256 lib after))"
  using assms(4)
proof (cases rule: edit_file_cases)
  case 1
  then show ?thesis using unchanged_disk [OF assms(2)] by simp
next
  case (2 b st1)
  have b: "b = dk_data (fi_disk st) loc" "now_of (fi_disk st1) = now_of (fi_disk st)" "fi_seen st1 = fi_seen st"
    using on_disk_fields [OF 2(1)] read_located [OF assms(1), of env b "fi_disk st1"] assms(3) by (simp_all add: now_of_def)
  have dt: "decode_bytes b = dt" by (simp add: dt_def b)
  from 2(2) show ?thesis
  proof (cases rule: edit_text_cases)
    case 1
    then show ?thesis using unchanged_disk [OF assms(2) b(2)] b(3) by simp
  next
    case (2 note' n)
    obtain r st2 where w: "on_disk (write_atomic env (abs_path loc) after) st1 = (r, st2)" by fastforce
    have "no_links (dk_fs (fi_disk st1)) loc" using located_no_links [OF assms(1)] b(2) by (simp add: now_of_def)
    from atomic_on_disk [OF assms(2) this w]
    have disk: "only_changed loc (fi_disk st) (fi_disk st2)"
      "case r of Inl _ \<Rightarrow> target_old loc (now_of (fi_disk st)) (now_of (fi_disk st2))
       | Inr _ \<Rightarrow> target_new loc after (now_of (fi_disk st2))"
      using b(2) by (simp_all add: only_changed_def split: sum.splits)
    have seen: "fi_seen st2 = fi_seen st" using on_disk_fields [OF w] b(3) by simp
    note run = 2(4) [unfolded edit_write_def dt assms(3) Let_def, folded after_def, unfolded w]
    show ?thesis
    proof (cases r)
      case (Inl err)
      then have "to_is_error out" "st' = st2" using run by (auto simp: out_error_def)
      then show ?thesis using disk seen Inl by simp
    next
      case (Inr u)
      then have "\<not> to_is_error out" "st' = seen_record (abs_path loc) (fl_sha256 lib after) st2"
        using run by (auto simp: edit_output_def with_metadata_def with_summary_def out_text_def)
      then show ?thesis using disk Inr 2(1-3) by (simp add: target_new_def now_of_def seen_record_def dt)
    qed
  qed
qed


section \<open>Text stays text\<close>

lemma utf8_valid_cancel: "utf8_valid p \<Longrightarrow> utf8_valid (p @ b) \<Longrightarrow> utf8_valid b"
proof (induction p rule: utf8_valid.induct)
  case (1 p)
  show ?case
  proof (cases "p = []")
    case False
    with 1(2) have p: "0 < char_len p" "utf8_valid (drop (char_len p) p)" using utf8_valid_step by blast+
    have "utf8_valid (drop (char_len (p @ b)) (p @ b))" using 1(3) False utf8_valid_step by blast
    then have "utf8_valid (drop (char_len p) p @ b)" using char_len_append [OF p(1)] char_len_le [of p] by simp
    with 1(1) False p show ?thesis by auto
  qed (use 1 in simp)
qed

lemma utf8_valid_before:
  assumes "utf8_valid (a @ p @ b)" "utf8_valid p" "p \<noteq> []"
  shows "utf8_valid a \<and> utf8_valid b"
proof -
  have "is_char_boundary (a @ p @ b) (length a)"
    using utf8_valid_start [OF assms(2,3)] assms(3) by (auto simp: is_char_boundary_def nth_append)
  from utf8_valid_cut [OF assms(1) this] have "utf8_valid a" "utf8_valid (p @ b)" by simp_all
  with utf8_valid_cancel [OF assms(2)] show ?thesis by blast
qed

lemma pieces_valid:
  assumes "utf8_valid p" "p \<noteq> []"
  shows "utf8_valid (rev cur @ s) \<Longrightarrow> list_all utf8_valid (split_pat_go p cur s)"
proof (induction s arbitrary: cur rule: length_induct)
  case (1 s)
  show ?case
  proof (cases s)
    case (Cons c t)
    show ?thesis
    proof (cases "take (length p) s = p")
      case True
      then have s: "s = p @ drop (length p) s" by (metis append_take_drop_id)
      have "utf8_valid (rev cur @ p @ drop (length p) s)" using 1(2) s by simp
      then have v: "utf8_valid (rev cur)" "utf8_valid (drop (length p) s)" using utf8_valid_before assms by blast+
      have "length (drop (length p) s) < length s" using assms(2) Cons by simp
      then have "list_all utf8_valid (split_pat_go p [] (drop (length p) s))" using 1(1) v(2) by simp
      moreover have "split_pat_go p cur s = rev cur # split_pat_go p [] (drop (length p) s)"
        using True assms(2) by (simp add: Cons split_pat_go_Cons del: drop_Suc_Cons take_Suc_Cons)
      ultimately show ?thesis using v(1) by simp
    next
      case False
      then have "split_pat_go p cur s = split_pat_go p (c # cur) t" by (simp add: Cons split_pat_go_Cons del: take_Suc_Cons)
      moreover have "list_all utf8_valid (split_pat_go p (c # cur) t)" using 1 Cons by simp
      ultimately show ?thesis by simp
    qed
  qed (use 1 in simp)
qed

lemma join_valid: "utf8_valid new \<Longrightarrow> list_all utf8_valid ps \<Longrightarrow> utf8_valid (join_with new ps)"
  by (induction new ps rule: join_with.induct) (auto intro!: utf8_valid_append)

lemma split_valid: "utf8_valid s \<Longrightarrow> utf8_valid p \<Longrightarrow> p \<noteq> [] \<Longrightarrow> list_all utf8_valid (split_pat p s)"
  using pieces_valid [of p "[]" s] by (simp add: split_pat_def)

lemma replace_valid: "utf8_valid s \<Longrightarrow> utf8_valid p \<Longrightarrow> p \<noteq> [] \<Longrightarrow> utf8_valid new \<Longrightarrow> utf8_valid (replace_str p new s)"
  unfolding replace_str_def by (intro join_valid split_valid)

lemma break_valid: "utf8_valid [CHR 0x0A]" "utf8_valid crlf" "crlf \<noteq> []"
  by code_simp+

lemma lf_valid: "utf8_valid s \<Longrightarrow> utf8_valid (to_lf s)" "utf8_valid s \<Longrightarrow> utf8_valid (to_crlf s)"
  using break_valid by (auto simp: to_lf_def to_crlf_def intro!: replace_valid)

lemma edited_valid:
  assumes "utf8_valid s" "utf8_valid old" "old \<noteq> []" "utf8_valid new" "everywhere \<or> length (match_positions old s) = 1"
  shows "utf8_valid (edited_text s old new everywhere)"
proof -
  have "everywhere \<or> length (split_pat old s) = 2"
    using assms(5) split_pat_nonempty [of old s] by (simp add: length_pieces) linarith
  with edited_pieces have "edited_text s old new everywhere = join_with new (split_pat old s)" by blast
  with join_valid [OF assms(4) split_valid [OF assms(1-3)]] show ?thesis by simp
qed

lemma no_start: "char_len (CHR 0xFF # t) = 0" "char_len (CHR 0xFE # t) = 0"
proof -
  have "lead_len CHR 0xFF = 0" "lead_len CHR 0xFE = 0" by code_simp+
  then show "char_len (CHR 0xFF # t) = 0" "char_len (CHR 0xFE # t) = 0" by (simp_all add: char_len_def)
qed

lemma no_utf16_mark:
  assumes "utf8_valid x"
  shows "\<not> prefix (bom_bytes BomUtf16Le) x" "\<not> prefix (bom_bytes BomUtf16Be) x"
proof -
  have "hd x \<noteq> CHR 0xFF \<and> hd x \<noteq> CHR 0xFE" if "x \<noteq> []"
    using utf8_valid_step [OF assms that] that no_start by (metis list.collapse less_irrefl)
  then show "\<not> prefix (bom_bytes BomUtf16Le) x" "\<not> prefix (bom_bytes BomUtf16Be) x"
    by (auto simp: prefix_def bom_bytes_def)
qed

lemma exact_again:
  assumes "b = BomNone \<or> b = BomUtf8" "utf8_valid s"
  shows "dt_encoding (decode_bytes (bom_bytes b @ s)) = EncUtf8"
proof -
  have mark: "utf8_valid (bom_bytes BomUtf8)" by code_simp
  have all: "utf8_valid (bom_bytes b @ s)" using assms mark by (auto simp: bom_bytes_def intro!: utf8_valid_append)
  note none = no_utf16_mark [OF all]
  show ?thesis
  proof (cases "prefix (bom_bytes BomUtf8) (bom_bytes b @ s)")
    case True
    then obtain u where u: "bom_bytes b @ s = bom_bytes BomUtf8 @ u" by (auto simp: prefix_def)
    have "utf8_valid (bom_bytes b @ s)" using assms mark by (auto simp: bom_bytes_def intro!: utf8_valid_append)
    then have "utf8_valid u" using utf8_valid_cancel [OF mark] u by metis
    moreover have "bom_detect (bom_bytes b @ s) = BomUtf8" using True by (simp add: bom_detect_def)
    ultimately show ?thesis using u by (simp add: decode_bytes_def Let_def)
  next
    case False
    then have "b = BomNone" using assms(1) by auto
    moreover have "bom_detect (bom_bytes b @ s) = BomNone" using False none by (simp add: bom_detect_def)
    ultimately show ?thesis using assms(2) by (simp add: decode_bytes_def bom_bytes_def Let_def)
  qed
qed

lemma exact_bom: "dt_encoding (decode_bytes b) = EncUtf8 \<Longrightarrow> dt_bom (decode_bytes b) = BomNone \<or> dt_bom (decode_bytes b) = BomUtf8"
  by (auto simp: decode_bytes_def Let_def split: bom.splits)

text \<open>
  C38: A text file stays one: when an edit of well-formed text by well-formed text is made, the bytes
  written decode as exact UTF-8 again, byte-order mark included, so the file may be edited again.
\<close>

theorem edit_keeps_text:
  assumes "located (dk_fs (fi_disk st)) loc" "loc \<noteq> []" "ft_abs t = abs_path loc" "edit_file lib env t e st = (out, st')"
    and "\<not> to_is_error out" "utf8_valid (ei_old e)" "ei_old e \<noteq> []" "utf8_valid (ei_new e)"
  shows "is_exact_utf8 (dt_encoding (decode_bytes (dk_data (fi_disk st') loc)))"
proof -
  let ?dt = "decode_bytes (dk_data (fi_disk st) loc)"
  have ok: "dt_encoding ?dt = EncUtf8"
    "ei_all e \<or> length (match_positions (ei_old e) (edit_haystack ?dt (ei_old e))) = 1"
    "dk_data (fi_disk st') loc = bom_bytes (dt_bom ?dt) @ edit_back ?dt (ei_old e)
       (edited_text (edit_haystack ?dt (ei_old e)) (ei_old e) (edit_new ?dt (ei_old e) (ei_new e)) (ei_all e))"
    using edit_outcome [OF assms(1-4)] assms(5) by (simp_all add: Let_def)
  have "utf8_valid (edit_haystack ?dt (ei_old e))" using decoded_valid lf_valid(1) by (simp add: edit_haystack_def)
  moreover have "utf8_valid (edit_new ?dt (ei_old e) (ei_new e))" using assms(8) lf_valid(1) by (simp add: edit_new_def)
  ultimately have "utf8_valid (edited_text (edit_haystack ?dt (ei_old e)) (ei_old e) (edit_new ?dt (ei_old e) (ei_new e)) (ei_all e))"
    by (intro edited_valid assms(6,7) ok(2))
  then have "utf8_valid (edit_back ?dt (ei_old e)
      (edited_text (edit_haystack ?dt (ei_old e)) (ei_old e) (edit_new ?dt (ei_old e) (ei_new e)) (ei_all e)))"
    using lf_valid(2) by (simp add: edit_back_def)
  from exact_again [OF exact_bom [OF ok(1)] this] show ?thesis by (simp add: ok(3) is_exact_utf8_def)
qed

section \<open>Views\<close>

text \<open>The bytes lines take of the limit.\<close>

definition line_costs :: "string list \<Rightarrow> nat" where
  "line_costs ls = sum_list (map (\<lambda>l. length l + 1) ls)"

lemma line_costs_simps [simp]: "line_costs [] = 0" "line_costs (l # ls) = length l + 1 + line_costs ls"
  by (simp_all add: line_costs_def)

lemma emit_lines_shows:
  assumes "emit_lines limit n em used ls = (k, out)" "em \<le> limit"
  shows "\<exists>j. k = em + j \<and> j \<le> length ls \<and> k \<le> limit \<and> out = concat (map (\<lambda>i. numbered_line (n + i) (ls ! i)) [0..<j]) \<and>
    (j = length ls \<or> k = limit \<or> (0 < k \<and> read_max_bytes < used + line_costs (take (Suc j) ls))) \<and>
    (j = 0 \<or> (em = 0 \<and> j = 1) \<or> used + line_costs (take j ls) \<le> read_max_bytes)"
  using assms
proof (induction ls arbitrary: n em used k out)
  case (Cons l ls)
  show ?case
  proof (cases "em = limit \<or> (0 < em \<and> read_max_bytes < used + (length l + 1))")
    case True
    with Cons.prems show ?thesis by (intro exI [of _ 0]) (auto simp: Let_def)
  next
    case False
    obtain k' out' where r: "emit_lines limit (Suc n) (Suc em) (used + (length l + 1)) ls = (k', out')" by fastforce
    with False Cons.prems have k: "k = k'" "out = numbered_line n l @ out'" by (auto simp: Let_def)
    from Cons.IH [OF r] False Cons.prems(2) obtain j where j: "k' = Suc em + j" "j \<le> length ls" "k' \<le> limit"
      "out' = concat (map (\<lambda>i. numbered_line (Suc n + i) (ls ! i)) [0..<j])"
      "j = length ls \<or> k' = limit \<or> (0 < k' \<and> read_max_bytes < used + (length l + 1) + line_costs (take (Suc j) ls))"
      "j = 0 \<or> used + (length l + 1) + line_costs (take j ls) \<le> read_max_bytes" by auto
    have "concat (map (\<lambda>i. numbered_line (n + i) ((l # ls) ! i)) [0..<Suc j]) = numbered_line n l @ out'"
      unfolding j(4) by (simp add: map_upt_Suc del: upt_Suc)
    moreover have "Suc j = 0 \<or> (em = 0 \<and> Suc j = 1) \<or> used + line_costs (take (Suc j) (l # ls)) \<le> read_max_bytes"
      using j(6) False by (cases "j = 0") auto
    ultimately show ?thesis using j k by (intro exI [of _ "Suc j"]) (auto simp: ac_simps)
  qed
qed simp

text \<open>
  C39: A view shows the lines it says: from a line of the file on, \<open>read_file\<close> shows at least one line,
  no more than asked for, numbered by their place in the file and in order, says where to go on
  exactly when the file has more, and stays under its limit of bytes unless it shows one long line;
  it stops early only for one of its limits. So pages read one after the other are the whole file.
\<close>

theorem read_shows_lines:
  assumes ls_def: "ls = text_lines (dt_text (decode_bytes bytes))" and "1 \<le> offset" "offset \<le> length ls" "1 \<le> limit"
  shows "\<exists>k\<ge>1. k \<le> limit \<and> offset + k - 1 \<le> length ls \<and>
    to_content (render_view shown bytes offset limit) = ToolText (encoding_note (dt_encoding (decode_bytes bytes))
      @ concat (map (\<lambda>i. numbered_line i (ls ! (i - 1))) [offset..<offset + k])
      @ (if offset + k - 1 < length ls then truncated_note offset (offset + k - 1) (length ls) else [])) \<and>
    \<not> to_is_error (render_view shown bytes offset limit) \<and>
    (k = 1 \<or> line_costs (take k (drop (offset - 1) ls)) \<le> read_max_bytes) \<and>
    (offset + k - 1 = length ls \<or> k = limit \<or> read_max_bytes < line_costs (take (Suc k) (drop (offset - 1) ls)))"
proof -
  obtain k out where r: "emit_lines limit offset 0 0 (drop (offset - 1) ls) = (k, out)" by fastforce
  from emit_lines_shows [OF r] obtain j where j: "k = j" "j \<le> length ls - (offset - 1)" "k \<le> limit"
    "out = concat (map (\<lambda>i. numbered_line (offset + i) (drop (offset - 1) ls ! i)) [0..<j])"
    "j = length ls - (offset - 1) \<or> k = limit \<or> (0 < k \<and> read_max_bytes < line_costs (take (Suc j) (drop (offset - 1) ls)))"
    "j = 0 \<or> j = 1 \<or> line_costs (take j (drop (offset - 1) ls)) \<le> read_max_bytes" by auto
  have k: "1 \<le> k" using j(1,5) assms(2-4) by auto
  have "map (\<lambda>i. numbered_line (offset + i) (drop (offset - 1) ls ! i)) [0..<k] = map (\<lambda>i. numbered_line i (ls ! (i - 1))) [offset..<offset + k]"
  proof (rule nth_equalityI)
    fix i assume "i < length (map (\<lambda>i. numbered_line (offset + i) (drop (offset - 1) ls ! i)) [0..<k])"
    then show "map (\<lambda>i. numbered_line (offset + i) (drop (offset - 1) ls ! i)) [0..<k] ! i
       = map (\<lambda>i. numbered_line i (ls ! (i - 1))) [offset..<offset + k] ! i"
      using j(1,2) assms(2,3) by (simp add: nth_append)
  qed simp
  then have out: "out = concat (map (\<lambda>i. numbered_line i (ls ! (i - 1))) [offset..<offset + k])" using j(1,4) by simp
  have "to_content (render_view shown bytes offset limit) = ToolText (encoding_note (dt_encoding (decode_bytes bytes)) @ out
      @ (if offset + k - 1 < length ls then truncated_note offset (offset + k - 1) (length ls) else []))
    \<and> \<not> to_is_error (render_view shown bytes offset limit)"
    using assms(2,3) r
    by (auto simp: render_view_def Let_def ls_def [symmetric] with_metadata_def with_summary_def out_text_def)
  then show ?thesis using j k out assms(2,3) by (intro exI [of _ k]) auto
qed

section \<open>Examples\<close>

definition demo_file_lib :: file_lib where
  "demo_file_lib =
     \<lparr>fl_sha256 = (\<lambda>s. CHR ''h'' # s), fl_changes = (\<lambda>_ _. [TagDelete, TagInsert, TagInsert]), fl_unified = (\<lambda>_ _ _ _ _. ''diff''),
      fl_close = (\<lambda>_ _. None), fl_serde = (\<lambda>_. ''bad input''), fl_io = (\<lambda>_. ''io'')\<rparr>"

text \<open>A file with a CRLF line end, and an edit of its line into two.\<close>

definition demo_files :: file_state where
  "demo_files =
     \<lparr>fi_disk = demo_disk\<lparr>dk_data := (\<lambda>_. [])([''f''] := ''b'' @ crlf)\<rparr>, fi_seen = Map.empty, fi_index = None\<rparr>"

definition demo_edit :: edit_input where
  "demo_edit = \<lparr>ei_path = ''f'', ei_old = ''b'', ei_new = ''x'' @ newline @ ''y'', ei_all = False\<rparr>"

definition demo_target :: file_target where
  "demo_target = \<lparr>ft_abs = abs_path [''f''], ft_shown = ''f''\<rparr>"

lemma demo_edit_runs: "\<not> to_is_error (fst (edit_file demo_file_lib (demo_disk_env False) demo_target demo_edit demo_files))"
  by code_simp

lemma demo_located: "located (dk_fs (fi_disk demo_files)) [''f'']"
  by (simp add: located_def demo_files_def demo_disk_def link_target_def)

lemma demo_read: "dk_data (fi_disk demo_files) [''f''] = ''b'' @ crlf" "ft_abs demo_target = abs_path [''f'']"
  by (simp_all add: demo_files_def demo_target_def)


lemma edit_keeps_text_witness:
  "is_exact_utf8 (dt_encoding (decode_bytes (dk_data (fi_disk (snd
     (edit_file demo_file_lib (demo_disk_env False) demo_target demo_edit demo_files))) [''f''])))"
proof -
  have "utf8_valid (ei_old demo_edit)" "ei_old demo_edit \<noteq> []" "utf8_valid (ei_new demo_edit)" by code_simp+
  with edit_keeps_text [OF demo_located _ demo_read(2) prod.collapse [symmetric] demo_edit_runs] show ?thesis by simp
qed

lemma read_shows_lines_witness:
  "\<exists>k\<ge>1. k \<le> 1 \<and> to_content (render_view ''f'' (''b'' @ newline @ ''c'') 1 1) =
     ToolText (concat (map (\<lambda>i. numbered_line i ([''b'', ''c''] ! (i - 1))) [1..<1 + k]) @ truncated_note 1 1 2)"
proof -
  have "text_lines (dt_text (decode_bytes (''b'' @ newline @ ''c''))) = [''b'', ''c'']"
    "encoding_note (dt_encoding (decode_bytes (''b'' @ newline @ ''c''))) = []" by code_simp+
  with read_shows_lines [of "[''b'', ''c'']" "''b'' @ newline @ ''c''" 1 1 "''f''"] show ?thesis
    by (auto simp: le_antisym numeral_2_eq_2)
qed

text \<open>Matches are counted without overlap: a text that matches in two places may count once.\<close>

lemma overlap_counts_once: "match_positions ''aa'' ''aaa'' = [0]"
  by code_simp

end
