(* ===== verification/File_Specs.thy ===== *)
theory File_Specs
  imports File_Find
begin

text \<open>
  The specifications of the file tools: what the mentor is told of each (\<open>DESCRIPTION\<close>) and the JSON
  schema its input is checked against before the tool runs, from \<open>fn spec\<close> of \<open>read.rs\<close>, \<open>write.rs\<close>,
  \<open>edit.rs\<close>, \<open>list.rs\<close> and \<open>glob.rs\<close>, and the list of the five (\<open>file_tools\<close> of \<open>mod.rs\<close>).
\<close>

definition spec_new :: "string \<Rightarrow> string \<Rightarrow> json \<Rightarrow> risk \<Rightarrow> tool_spec" where
  "spec_new name description schema risk =
     \<lparr>ts_name = name, ts_description = description, ts_input_schema = schema, ts_risk = risk, ts_tags = [],
      ts_timeout_s = None\<rparr>"

definition with_tags :: "string list \<Rightarrow> tool_spec \<Rightarrow> tool_spec" where
  "with_tags tags spec = spec\<lparr>ts_tags := tags\<rparr>"

definition read_file_description :: string where
  "read_file_description =
     ''Read a text file in the workspace. The output has one line per file line as `<line ''
     @ ''number><TAB><text>`; line numbers are 1-based and absolute, so `offset` (first line to show) and ''
     @ ''`limit` (how many lines) page through long files. Defaults: from line 1, up to 2000 lines or 200 ''
     @ ''KiB per call, after which a `[truncated: ...]` trailer says where to continue. Paths are relative ''
     @ ''to the workspace root with `/` separators. Binary files are reported, not shown. Use list_dir or ''
     @ ''glob to find files first.''"

definition read_file_spec :: tool_spec where
  "read_file_spec = with_tags [''file''] (spec_new ''read_file'' read_file_description
     (jobj [(''type'', JStr ''object''),
       (''properties'', jobj
        [(''path'', jobj [(''type'', JStr ''string''), (''minLength'', JInt 1), (''description'', JStr ''File path relative to the workspace root.'')]),
         (''offset'', jobj [(''type'', JStr ''integer''), (''minimum'', JInt 1), (''description'', JStr ''First line to show (1-based). Default 1.'')]),
         (''limit'', jobj [(''type'', JStr ''integer''), (''minimum'', JInt 1), (''description'', JStr ''Maximum number of lines to show. Default and maximum 2000.'')])]),
       (''required'', JArr [JStr ''path'']),
       (''additionalProperties'', JBool False)]) ReadOnly)"

definition write_file_description :: string where
  "write_file_description =
     ''Create or overwrite a file in the workspace with exactly `content` (UTF-8, line endings as given). ''
     @ ''Missing parent directories are created; the write is atomic. To change part of an existing file ''
     @ ''prefer edit_file. Read a file before overwriting it: the result notes when you replace a file you ''
     @ ''have not read, or one that changed since you read it, and includes a unified diff of what changed.''"

definition write_file_spec :: tool_spec where
  "write_file_spec = with_tags [''file''] (spec_new ''write_file'' write_file_description
     (jobj [(''type'', JStr ''object''),
       (''properties'', jobj
        [(''path'', jobj [(''type'', JStr ''string''), (''minLength'', JInt 1), (''description'', JStr ''File path relative to the workspace root.'')]),
         (''content'', jobj [(''type'', JStr ''string''), (''description'', JStr ''The complete new content of the file.'')])]),
       (''required'', JArr [JStr ''path'', JStr ''content'']),
       (''additionalProperties'', JBool False)]) Write)"

definition edit_file_description :: string where
  "edit_file_description =
     ''Replace text in a file in the workspace. `old_string` must match the current content exactly '' @ [CHR 0xE2, CHR 0x80, CHR 0x94] @ '' ''
     @ ''whitespace and indentation included; quote it as read_file shows it, without the line-number prefix ''
     @ [CHR 0xE2, CHR 0x80, CHR 0x94] @ '' and must occur exactly once: include surrounding lines to make it unique, or set `replace_all` to ''
     @ ''change every occurrence. `new_string` takes its place (empty deletes it). Line endings and a ''
     @ ''byte-order mark are preserved. The result is a unified diff of the change; a failed match reports ''
     @ ''the closest line, an ambiguous one the line of every occurrence.''"

definition edit_file_spec :: tool_spec where
  "edit_file_spec = with_tags [''file''] (spec_new ''edit_file'' edit_file_description
     (jobj [(''type'', JStr ''object''),
       (''properties'', jobj
        [(''path'', jobj [(''type'', JStr ''string''), (''minLength'', JInt 1), (''description'', JStr ''File path relative to the workspace root.'')]),
         (''old_string'', jobj [(''type'', JStr ''string''), (''minLength'', JInt 1), (''description'', JStr ''The exact text to replace.'')]),
         (''new_string'', jobj [(''type'', JStr ''string''), (''description'', JStr ''The replacement text; empty to delete.'')]),
         (''replace_all'', jobj [(''type'', JStr ''boolean''), (''description'', JStr ''Replace every occurrence instead of requiring exactly one. Default false.'')])]),
       (''required'', JArr [JStr ''path'', JStr ''old_string'', JStr ''new_string'']),
       (''additionalProperties'', JBool False)]) Write)"

definition list_dir_description :: string where
  "list_dir_description =
     ''List a directory in the workspace as an indented tree: `name/` for directories, `name<TAB><size in ''
     @ ''bytes>` for files, `name@` for symlinks, two spaces of indent per level below `path`. `path` ''
     @ ''defaults to the workspace root; `depth` (1'' @ [CHR 0xE2, CHR 0x80, CHR 0x93] @ ''4, default 1) is how many levels to descend. Ignored ''
     @ ''entries (`.gitignore`, `.harness/ignore`, VCS and build directories, binaries) are left out '' @ [CHR 0xE2, CHR 0x80, CHR 0x94] @ '' ''
     @ ''read_file still opens them by exact path. Long listings stop at 2000 entries with a `[+N more]` ''
     @ ''trailer.''"

definition list_dir_spec :: tool_spec where
  "list_dir_spec = with_tags [''file''] (spec_new ''list_dir'' list_dir_description
     (jobj [(''type'', JStr ''object''),
       (''properties'', jobj
        [(''path'', jobj [(''type'', JStr ''string''), (''description'', JStr ''Directory path relative to the workspace root. Default: the root.'')]),
         (''depth'', jobj [(''type'', JStr ''integer''), (''minimum'', JInt 1), (''maximum'', JInt (int list_max_depth)), (''description'', JStr (''Levels to descend (1'' @ [CHR 0xE2, CHR 0x80, CHR 0x93] @ ''4). Default 1.''))])]),
       (''additionalProperties'', JBool False)]) ReadOnly)"

definition glob_description :: string where
  "glob_description =
     ''Find files in the workspace by name pattern, gitignore-style: `*` matches within one path segment, ''
     @ ''`**` across segments, `?` one character, `{a,b}` alternatives, `[abc]` a character class. A pattern ''
     @ ''without `/` matches file names at any depth (`*.rs`); one with `/` matches the path relative to ''
     @ ''`path` (`src/**/*.rs`). `path` defaults to the workspace root. The output is one workspace-relative ''
     @ ''path per line, most recently modified first, at most 1000 (a `[truncated: ...]` trailer says how ''
     @ ''many matched). Ignored files are not searched.''"

definition glob_tool_spec :: tool_spec where
  "glob_tool_spec = with_tags [''file''] (spec_new ''glob'' glob_description
     (jobj [(''type'', JStr ''object''),
       (''properties'', jobj
        [(''pattern'', jobj [(''type'', JStr ''string''), (''minLength'', JInt 1), (''description'', JStr ''The glob pattern, e.g. `*.rs`, `src/**/*.test.ts`, `**/Cargo.toml`.'')]),
         (''path'', jobj [(''type'', JStr ''string''), (''description'', JStr ''Directory to search, relative to the workspace root. Default: the root.'')])]),
       (''required'', JArr [JStr ''pattern'']),
       (''additionalProperties'', JBool False)]) ReadOnly)"

definition file_tool_specs :: "tool_spec list" where
  "file_tool_specs = [read_file_spec, write_file_spec, edit_file_spec, list_dir_spec, glob_tool_spec]"

end
