(* ===== verification/Shell_Program.thy ===== *)
theory Shell_Program
  imports File_Tools
begin

text \<open>
  \<open>crates/core/src/tools/shell/program.rs\<close> on Unix: which program runs a command, its arguments and
  its environment. What the machine says (the variables of the daemon, which paths are files) is the
  record \<open>shell_host\<close>. The environment the code builds in a \<open>BTreeMap\<close> is a list in order of names.
\<close>

record shell_config =
  xc_program :: string
  xc_args :: "string list"
  xc_scrub_env :: "string list"
  xc_env :: "(string \<times> string) list"
  xc_max_timeout_s :: nat

definition shell_config_default :: shell_config where
  "shell_config_default =
     \<lparr>xc_program = [], xc_args = [],
      xc_scrub_env = [''ANTHROPIC_API_KEY'', ''*_API_KEY'', ''*_TOKEN'', ''*_SECRET'', ''*_SECRET_*'', ''*_PASSWORD'', ''AWS_*''],
      xc_env = [], xc_max_timeout_s = 3600\<rparr>"

record shell_host =
  xh_vars :: "(string \<times> string) list"
  xh_is_file :: "string \<Rightarrow> bool"

record shell_program =
  xp_path :: string
  xp_args :: "string list"
  xp_powershell :: bool
  xp_name :: string

section \<open>The program\<close>

definition pwsh_trailer :: string where
  "pwsh_trailer = newline @ ''$__ok = $?'' @ newline
     @ ''if (-not $__ok) { if ($LASTEXITCODE -is [int] -and $LASTEXITCODE -ne 0) { exit $LASTEXITCODE } else { exit 1 } }''
     @ newline @ ''exit 0'' @ newline"

definition pwsh_args :: "string list" where
  "pwsh_args = [''-NoProfile'', ''-NonInteractive'', ''-Command'']"

text \<open>\<open>Path::file_stem\<close>: the last component without what follows its last dot.\<close>

definition path_stem :: "string \<Rightarrow> string option" where
  "path_stem p =
     (let parts = filter (\<lambda>s. s \<noteq> [] \<and> s \<noteq> ''.'') (split_on CHR ''/'' p) in
      if parts = [] \<or> last parts = ''..'' then None
      else Some (case rsplit_once CHR ''.'' (last parts) of
          None \<Rightarrow> last parts
        | Some (before, _) \<Rightarrow> if before = [] then last parts else before))"

definition program_stem :: "string \<Rightarrow> string" where
  "program_stem p = (case path_stem p of Some s \<Rightarrow> utf8_lossy s | None \<Rightarrow> [])"

definition is_powershell :: "string \<Rightarrow> bool" where
  "is_powershell name \<longleftrightarrow> ascii_lowercase name = ''pwsh'' \<or> ascii_lowercase name = ''powershell''"

definition detect_program :: "shell_host \<Rightarrow> shell_program" where
  "detect_program host =
     (let path = (case map_of (xh_vars host) ''SHELL'' of
            Some p \<Rightarrow> if prefix ''/'' p \<and> xh_is_file host p then p else ''/bin/sh''
          | None \<Rightarrow> ''/bin/sh'')
      in \<lparr>xp_path = path, xp_args = [''-lc''], xp_powershell = False, xp_name = program_stem path\<rparr>)"

definition program_resolve :: "shell_host \<Rightarrow> shell_config \<Rightarrow> shell_program" where
  "program_resolve host config =
     (if xc_program config = [] then detect_program host
      else
        (let name = program_stem (xc_program config); powershell = is_powershell name
         in \<lparr>xp_path = xc_program config,
             xp_args = (if xc_args config = [] \<and> powershell then pwsh_args else xc_args config),
             xp_powershell = powershell, xp_name = name\<rparr>))"

definition args_for :: "shell_program \<Rightarrow> string \<Rightarrow> string list" where
  "args_for p command = xp_args p @ [if xp_powershell p then command @ pwsh_trailer else command]"

section \<open>The environment\<close>

definition ascii_uppercase :: "string \<Rightarrow> string" where
  "ascii_uppercase s = map (\<lambda>c. let n = (of_char c :: nat) in if 97 \<le> n \<and> n \<le> 122 then char_of (n - 32) else c) s"

text \<open>\<open>s.split_once(c)\<close>\<close>

definition split_once :: "char \<Rightarrow> string \<Rightarrow> (string \<times> string) option" where
  "split_once c s =
     (case dropWhile (\<lambda>x. x \<noteq> c) s of [] \<Rightarrow> None | _ # rest \<Rightarrow> Some (takeWhile (\<lambda>x. x \<noteq> c) s, rest))"

lemma split_once_shorter: "split_once c s = Some (a, b) \<Longrightarrow> length b < length s"
  using length_dropWhile_le [of "\<lambda>x. x \<noteq> c" s] by (auto simp: split_once_def split: list.splits)

function glob_match :: "string \<Rightarrow> string \<Rightarrow> bool" where
  "glob_match pat t =
     (case split_once CHR ''*'' pat of
        None \<Rightarrow> pat = t
      | Some (start, rest) \<Rightarrow>
          (case strip_prefix t start of
             None \<Rightarrow> False
           | Some after \<Rightarrow>
               rest = [] \<or>
               list_ex (\<lambda>i. is_char_boundary after i \<and> glob_match rest (drop i after)) [0..<Suc (length after)]))"
  by pat_completeness auto
termination
  by (relation "measure (\<lambda>(pat, t). length pat)") (auto dest: split_once_shorter)

declare glob_match.simps [simp del]

definition scrubbed :: "string \<Rightarrow> string list \<Rightarrow> bool" where
  "scrubbed name patterns \<longleftrightarrow>
     list_ex (\<lambda>p. glob_match (ascii_uppercase p) (ascii_uppercase (utf8_lossy name))) patterns"

text \<open>\<open>BTreeMap::insert\<close> on the list in order of keys.\<close>

fun env_insert :: "string \<Rightarrow> string \<Rightarrow> (string \<times> string) list \<Rightarrow> (string \<times> string) list" where
  "env_insert k v [] = [(k, v)]"
| "env_insert k v ((k', v') # m) =
     (if k = k' then (k, v) # m
      else if str_less k k' then (k, v) # (k', v') # m
      else (k', v') # env_insert k v m)"

definition env_collect :: "(string \<times> string) list \<Rightarrow> (string \<times> string) list \<Rightarrow> (string \<times> string) list" where
  "env_collect vars m = foldl (\<lambda>m (k, v). env_insert k v m) m vars"

definition harness_hints :: "(string \<times> string) list" where
  "harness_hints = [(''HARNESS'', ''1''), (''NO_COLOR'', ''1''), (''TERM'', ''dumb'')]"

definition environment :: "shell_host \<Rightarrow> shell_config \<Rightarrow> (string \<times> string) list" where
  "environment host config =
     env_collect (xc_env config) (env_collect harness_hints
       (env_collect (filter (\<lambda>(name, _). \<not> scrubbed name (xc_scrub_env config)) (xh_vars host)) []))"

section \<open>What the environment holds\<close>

text \<open>A pattern read character by character: a star stands for any run of whole characters.\<close>

fun star_match :: "string \<Rightarrow> string \<Rightarrow> bool" where
  "star_match [] t \<longleftrightarrow> t = []"
| "star_match (c # p) t \<longleftrightarrow>
     (if c = CHR ''*'' then \<exists>i\<le>length t. is_char_boundary t i \<and> star_match p (drop i t)
      else t \<noteq> [] \<and> hd t = c \<and> star_match p (tl t))"

lemma star_free: "CHR ''*'' \<notin> set p \<Longrightarrow> star_match (p @ q) t \<longleftrightarrow> (take (length p) t = p \<and> star_match q (drop (length p) t))"
proof (induction p arbitrary: t)
  case (Cons c p)
  then show ?case by (cases t) auto
qed simp

lemma split_once_None: "split_once c s = None \<longleftrightarrow> c \<notin> set s"
proof -
  have "dropWhile (\<lambda>x. x \<noteq> c) s = [] \<longleftrightarrow> c \<notin> set s" by (auto simp: dropWhile_eq_Nil_conv)
  then show ?thesis unfolding split_once_def by (metis list.case_eq_if option.distinct(1))
qed

lemma split_once_Some:
  assumes "split_once c s = Some (a, b)"
  shows "s = a @ c # b \<and> c \<notin> set a"
proof -
  from assms obtain x where x: "dropWhile (\<lambda>x. x \<noteq> c) s = x # b" and a: "a = takeWhile (\<lambda>x. x \<noteq> c) s"
    by (auto simp: split_once_def split: list.splits)
  have "x = c" using hd_dropWhile [of "\<lambda>x. x \<noteq> c" s] x by auto
  then have "s = a @ c # b" using takeWhile_dropWhile_id [of "\<lambda>x. x \<noteq> c" s] by (simp add: a x)
  moreover have "c \<notin> set a" using a by (auto dest: set_takeWhileD)
  ultimately show ?thesis by blast
qed

lemma glob_star: "glob_match p t \<longleftrightarrow> star_match p t"
proof (induction p t rule: glob_match.induct)
  case (1 p t)
  show ?case
  proof (cases "split_once CHR ''*'' p")
    case None
    then have "star_match p t \<longleftrightarrow> take (length p) t = p \<and> drop (length p) t = []"
      using star_free [of p "[]" t] by (simp add: split_once_None)
    also have "\<dots> \<longleftrightarrow> p = t" by (metis append_Nil2 append_take_drop_id drop_eq_Nil order_refl take_all)
    finally show ?thesis using None by (simp add: glob_match.simps [of p])
  next
    case (Some ab)
    then obtain a b where ab: "split_once CHR ''*'' p = Some (a, b)" by (cases ab) auto
    from split_once_Some [OF this] have p: "p = a @ CHR ''*'' # b" and "CHR ''*'' \<notin> set a" by auto
    then have s: "star_match p t \<longleftrightarrow> take (length a) t = a \<and>
        (\<exists>i\<le>length (drop (length a) t). is_char_boundary (drop (length a) t) i \<and> star_match b (drop i (drop (length a) t)))"
      by (simp add: star_free)
    have all: "\<exists>i\<le>length u. is_char_boundary u i \<and> star_match [] (drop i u)" for u
      by (intro exI [of _ "length u"]) (simp add: is_char_boundary_def)
    show ?thesis
    proof (cases "take (length a) t = a")
      case True
      then have pre: "strip_prefix t a = Some (drop (length a) t)" by (simp add: strip_prefix_def)
      have g: "glob_match p t \<longleftrightarrow> b = [] \<or> list_ex (\<lambda>i. is_char_boundary (drop (length a) t) i \<and>
          glob_match b (drop i (drop (length a) t))) [0..<Suc (length (drop (length a) t))]"
        by (simp add: glob_match.simps [of p] ab pre del: upt_Suc)
      show ?thesis
      proof (cases "b = []")
        case True
        with g s all [of "drop (length a) t"] \<open>take (length a) t = a\<close> show ?thesis by simp
      next
        case False
        from 1 [OF ab refl pre] have "glob_match b (drop i (drop (length a) t)) = star_match b (drop i (drop (length a) t))"
          if "i < Suc (length (drop (length a) t))" for i
          using that by (simp del: upt_Suc)
        then have "list_ex (\<lambda>i. is_char_boundary (drop (length a) t) i \<and> glob_match b (drop i (drop (length a) t)))
            [0..<Suc (length (drop (length a) t))] \<longleftrightarrow>
            (\<exists>i\<le>length (drop (length a) t). is_char_boundary (drop (length a) t) i \<and> star_match b (drop i (drop (length a) t)))"
          unfolding list_ex_iff set_upt by (auto simp: less_Suc_eq_le)
        with g s False True show ?thesis by (simp del: upt_Suc)
      qed
    next
      case False
      then show ?thesis using s by (simp add: glob_match.simps [of p] ab strip_prefix_def)
    qed
  qed
qed

lemma map_of_insert: "map_of (env_insert k v m) = (map_of m)(k \<mapsto> v)"
  by (induction k v m rule: env_insert.induct) (auto simp: fun_eq_iff)

lemma map_of_collect: "map_of (env_collect vars m) = map_of m ++ map_of (rev vars)"
proof (induction vars arbitrary: m)
  case (Cons kv vars)
  then show ?case by (cases kv) (simp add: env_collect_def map_of_insert map_add_upd_left fun_eq_iff map_add_def split: option.split)
qed (simp add: env_collect_def)

lemma in_keys: "fst ` set (env_insert k' v m) = insert k' (fst ` set m)"
  by (induction k' v m rule: env_insert.induct) auto

lemma insert_sorted: "sorted_wrt str_less (map fst m) \<Longrightarrow> sorted_wrt str_less (map fst (env_insert k v m))"
proof (induction k v m rule: env_insert.induct)
  case (2 k v k' v' m)
  show ?case
  proof (cases "k = k' \<or> str_less k k'")
    case True
    then show ?thesis using 2(2) str_less_trans by auto
  next
    case False
    then have "str_less k' k" using str_less_linear by blast
    moreover have "\<forall>x\<in>fst ` set m. str_less k' x" using 2(2) by simp
    ultimately have "\<forall>x\<in>fst ` set (env_insert k v m). str_less k' x" by (simp add: in_keys)
    with False 2 show ?thesis by simp
  qed
qed simp

lemma collect_sorted: "sorted_wrt str_less (map fst m) \<Longrightarrow> sorted_wrt str_less (map fst (env_collect vars m))"
proof (induction vars arbitrary: m)
  case (Cons kv vars)
  then show ?case by (cases kv) (simp add: env_collect_def insert_sorted)
qed (simp add: env_collect_def)

lemma map_of_rev_filter:
  "map_of (rev (filter (\<lambda>(k, _). Q k) xs)) k = (if Q k then map_of (rev xs) k else None)"
  by (induction xs) (auto simp: map_add_def split: option.split)

text \<open>
  C12: Secrets stay with the daemon: the environment a command gets has one value for each name, in
  order, and a name has the value of the configuration, else the hint of the harness, else the
  daemon's own value, the last one, unless one of the configured patterns matches the name with the
  letter case put aside, a star being any run of characters: then the command does not see it.
\<close>

theorem environment_scrubs:
  "sorted_wrt str_less (map fst (environment host config)) \<and>
   map_of (environment host config) name =
     (case map_of (rev (xc_env config)) name of Some v \<Rightarrow> Some v
      | None \<Rightarrow> (case map_of harness_hints name of Some v \<Rightarrow> Some v
      | None \<Rightarrow> if \<exists>p\<in>set (xc_scrub_env config). star_match (ascii_uppercase p) (ascii_uppercase (utf8_lossy name)) then None
               else map_of (rev (xh_vars host)) name))"
proof -
  have "map_of (rev harness_hints) = map_of harness_hints" by (auto simp: harness_hints_def)
  then show ?thesis
    by (auto simp: environment_def collect_sorted map_of_collect map_add_def map_of_rev_filter scrubbed_def
        list_ex_iff glob_star split: option.split)
qed

end
