(* ===== verification/Shell_Tools.thy ===== *)
theory Shell_Tools
  imports Shell_Program Tool_Pump Outcomes
begin

text \<open>
  The shell tools: \<open>shell\<close> and \<open>shell_jobs\<close> (\<open>crates/core/src/tools/shell/mod.rs\<close>), the registry of
  background jobs they share (\<open>jobs.rs\<close>) and \<open>run_tests\<close> (\<open>run_tests.rs\<close>), over the capture and the
  pump of \<open>Tool_Capture\<close> and \<open>Tool_Pump\<close>. What the machine does with one command (whether it starts,
  the state its pump ends in, how long it ran) is the record \<open>command_world\<close>; the text of a float of
  seconds is a parameter.
\<close>

abbreviation lf :: string where
  "lf \<equiv> [CHR 0x0A]"

definition middle_dot :: string where
  "middle_dot = [CHR 0xC2, CHR 0xB7]"

definition shell_default_timeout_s :: nat where
  "shell_default_timeout_s = 120"

definition shell_max_timeout_s :: nat where
  "shell_max_timeout_s = 3600"

definition jobs_max_wait_s :: nat where
  "jobs_max_wait_s = 600"

section \<open>The end of a run\<close>

text \<open>How a command ended; a status has a code or the signal that killed it. Times are nanoseconds.\<close>

record run_outcome =
  ro_ended :: ended
  ro_signal :: "int option"
  ro_ns :: nat
  ro_orphans :: bool

record ending =
  eg_footer :: string
  eg_summary :: string
  eg_exit_code :: "int option"
  eg_signal :: "int option"
  eg_is_error :: bool

definition fmt_duration :: "(nat \<Rightarrow> string) \<Rightarrow> nat \<Rightarrow> string" where
  "fmt_duration secs ns =
     (if ns < 10 ^ 9 then show_nat (ns div 10 ^ 6) @ '' ms''
      else if ns < 60 * 10 ^ 9 then secs ns @ '' s''
      else (let whole = ns div 10 ^ 9 in show_nat (whole div 60) @ '' min '' @ show_nat (whole mod 60) @ '' s''))"

definition plain_ending :: "string \<Rightarrow> string \<Rightarrow> ending" where
  "plain_ending footer summary =
     \<lparr>eg_footer = footer, eg_summary = summary, eg_exit_code = None, eg_signal = None, eg_is_error = False\<rparr>"

definition ending_of :: "(nat \<Rightarrow> string) \<Rightarrow> run_outcome \<Rightarrow> nat \<Rightarrow> ending" where
  "ending_of secs o' timeout_s =
     (let dur = fmt_duration secs (ro_ns o') in
      case ro_ended o' of
        EndedExit (Some code) \<Rightarrow>
          (plain_ending (''exit '' @ show_int code @ '' '' @ middle_dot @ '' '' @ dur)
             (''exit '' @ show_int code @ '' in '' @ dur))\<lparr>eg_exit_code := Some code\<rparr>
      | EndedExit None \<Rightarrow>
          (case ro_signal o' of
             Some sig \<Rightarrow>
               (plain_ending (''killed by signal '' @ show_int sig @ '' '' @ middle_dot @ '' '' @ dur)
                  (''killed by signal '' @ show_int sig @ '' in '' @ dur))\<lparr>eg_signal := Some sig\<rparr>
           | None \<Rightarrow> plain_ending (''ended without a status '' @ middle_dot @ '' '' @ dur) (''ended without a status in '' @ dur))
      | EndedTimeout \<Rightarrow>
          (plain_ending (''timed out after '' @ show_nat timeout_s @ '' s; process tree killed'')
             (''timed out after '' @ show_nat timeout_s @ '' s''))\<lparr>eg_is_error := True\<rparr>
      | EndedKilled \<Rightarrow> plain_ending (''killed '' @ middle_dot @ '' '' @ dur) (''killed after '' @ dur))"

definition transcript_text :: "transcript \<Rightarrow> string" where
  "transcript_text t = utf8_lossy (transcript_raw t)"

text \<open>The transcript as a tool shows it: it ends in a newline unless it is empty.\<close>

definition closed_text :: "transcript \<Rightarrow> string" where
  "closed_text t = (let s = transcript_text t in if s \<noteq> [] \<and> last s \<noteq> CHR 0x0A then s @ lf else s)"

definition stream_counts :: "transcript \<Rightarrow> (string \<times> json) list" where
  "stream_counts t =
     [(''stdout_bytes'', JInt (int (kp_total (sc_stdout t)))), (''stderr_bytes'', JInt (int (kp_total (sc_stderr t)))),
      (''stdout_lines'', JInt (int (capture_lines (sc_stdout t)))), (''stderr_lines'', JInt (int (capture_lines (sc_stderr t)))),
      (''truncated'', JBool (transcript_truncated t))]"

definition with_text_attachment :: "string \<Rightarrow> string \<Rightarrow> tool_output \<Rightarrow> tool_output" where
  "with_text_attachment name bytes out =
     out\<lparr>to_attachments := to_attachments out @ [\<lparr>at_name = name, at_media_type = output_media_type, at_bytes = bytes\<rparr>]\<rparr>"

definition attach_stream :: "tool_stream \<Rightarrow> transcript \<Rightarrow> tool_output \<Rightarrow> tool_output" where
  "attach_stream s t out =
     (case stream_bytes s t of Some bytes \<Rightarrow> with_text_attachment (stream_word s) bytes out | None \<Rightarrow> out)"

definition run_render :: "(nat \<Rightarrow> string) \<Rightarrow> transcript \<Rightarrow> run_outcome \<Rightarrow> nat \<Rightarrow> tool_output" where
  "run_render secs t o' timeout_s =
     (let e = ending_of secs o' timeout_s;
          s = closed_text t @ (if ro_orphans o' then ''[processes left running by the command were killed]'' @ lf else [])
                @ eg_footer e @ lf;
          metadata = jobj ([(''exit_code'', opt_int (eg_exit_code e)), (''signal'', opt_int (eg_signal e)),
            (''duration_ms'', JInt (int (min (ro_ns o' div 10 ^ 6) (2 ^ 64 - 1)))),
            (''timed_out'', JBool (ro_ended o' = EndedTimeout)), (''killed'', JBool (ro_ended o' = EndedKilled))]
            @ stream_counts t @ [(''orphans_killed'', JBool (ro_orphans o'))]);
          out = with_metadata metadata (with_summary (eg_summary e) (if eg_is_error e then out_error s else out_text s))
      in attach_stream StreamStderr t (attach_stream StreamStdout t out))"

definition set_metadata :: "string \<Rightarrow> json \<Rightarrow> tool_output \<Rightarrow> tool_output" where
  "set_metadata k v out = out\<lparr>to_metadata := jset k v (to_metadata out)\<rparr>"

definition json_text :: "string option \<Rightarrow> json" where
  "json_text s = (case s of Some x \<Rightarrow> JStr x | None \<Rightarrow> JNull)"

section \<open>Background jobs\<close>

text \<open>
  A job is named by the number after its \<open>j\<close>; \<open>jb_cancelled\<close> is its token. The task that pumps it
  adds to its transcript and sets its outcome.
\<close>

record job =
  jb_no :: nat
  jb_command :: string
  jb_description :: "string option"
  jb_pid :: nat
  jb_detached :: bool
  jb_agent :: string
  jb_started_ns :: nat
  jb_timeout_s :: nat
  jb_transcript :: transcript
  jb_outcome :: "run_outcome option"
  jb_cancelled :: bool

definition job_id :: "job \<Rightarrow> string" where
  "job_id j = ''j'' @ show_nat (jb_no j)"

definition is_running :: "job \<Rightarrow> bool" where
  "is_running j \<longleftrightarrow> jb_outcome j = None"

record new_job =
  nj_command :: string
  nj_description :: "string option"
  nj_detached :: bool
  nj_agent :: string
  nj_timeout_s :: nat
  nj_max_bytes :: nat

record jobs =
  jr_next :: nat
  jr_jobs :: "job list"

definition no_jobs :: jobs where
  "no_jobs = \<lparr>jr_next = 0, jr_jobs = []\<rparr>"

definition keep_finished :: nat where
  "keep_finished = 50"

text \<open>\<open>retain\<close>, with the number of finished jobs still to drop.\<close>

fun drop_finished :: "nat \<Rightarrow> job list \<Rightarrow> job list" where
  "drop_finished n [] = []"
| "drop_finished n (j # js) =
     (if 0 < n \<and> \<not> is_running j then drop_finished (n - 1) js else j # drop_finished n js)"

definition prune_jobs :: "job list \<Rightarrow> job list" where
  "prune_jobs js = drop_finished (length (filter (\<lambda>j. \<not> is_running j) js) - keep_finished) js"

definition jobs_start :: "nat \<Rightarrow> nat \<Rightarrow> new_job \<Rightarrow> jobs \<Rightarrow> job \<times> jobs" where
  "jobs_start pid now new r =
     (let j = \<lparr>jb_no = jr_next r + 1, jb_command = nj_command new, jb_description = nj_description new, jb_pid = pid,
            jb_detached = nj_detached new, jb_agent = nj_agent new, jb_started_ns = now, jb_timeout_s = nj_timeout_s new,
            jb_transcript = transcript_new (nj_max_bytes new), jb_outcome = None, jb_cancelled = False\<rparr>
      in (j, \<lparr>jr_next = jr_next r + 1, jr_jobs = prune_jobs (jr_jobs r @ [j])\<rparr>))"

definition jobs_get :: "string \<Rightarrow> jobs \<Rightarrow> job option" where
  "jobs_get i r = find (\<lambda>j. job_id j = i) (jr_jobs r)"

definition job_chunk :: "tool_stream \<Rightarrow> string \<Rightarrow> job \<Rightarrow> job" where
  "job_chunk s bytes j = j\<lparr>jb_transcript := transcript_push s bytes (jb_transcript j)\<rparr>"

definition job_ends :: "run_outcome \<Rightarrow> job \<Rightarrow> job" where
  "job_ends o' j = j\<lparr>jb_outcome := Some o'\<rparr>"

definition job_kill :: "job \<Rightarrow> job" where
  "job_kill j = j\<lparr>jb_cancelled := True\<rparr>"

definition jobs_change :: "nat \<Rightarrow> (job \<Rightarrow> job) \<Rightarrow> jobs \<Rightarrow> jobs" where
  "jobs_change n f r = r\<lparr>jr_jobs := map (\<lambda>j. if jb_no j = n then f j else j) (jr_jobs r)\<rparr>"

text \<open>The cancellation of an agent reaches the tokens of its calls; a detached job has one of its own.\<close>

definition agent_cancelled :: "string \<Rightarrow> jobs \<Rightarrow> jobs" where
  "agent_cancelled agent r =
     r\<lparr>jr_jobs := map (\<lambda>j. if jb_agent j = agent \<and> \<not> jb_detached j then job_kill j else j) (jr_jobs r)\<rparr>"

section \<open>\<open>shell\<close>\<close>

record shell_input =
  xi_command :: string
  xi_cwd :: "string option"
  xi_timeout_s :: nat
  xi_background :: bool
  xi_detach :: bool
  xi_description :: "string option"

definition input_u64 :: "nat \<Rightarrow> string \<Rightarrow> json \<Rightarrow> nat option" where
  "input_u64 n k v = (case jget k v of None \<Rightarrow> Some n | Some x \<Rightarrow> as_u64 x)"

definition read_shell_input :: "json \<Rightarrow> shell_input option" where
  "read_shell_input v =
     (case (input_str ''command'' v, input_opt as_str ''cwd'' v, input_u64 shell_default_timeout_s ''timeout_s'' v,
            input_flag ''background'' v, input_flag ''detach'' v, input_opt as_str ''description'' v) of
        (Some c, Some cwd, Some t, Some bg, Some det, Some descr) \<Rightarrow>
          Some \<lparr>xi_command = c, xi_cwd = cwd, xi_timeout_s = t, xi_background = bg, xi_detach = det, xi_description = descr\<rparr>
      | _ \<Rightarrow> None)"

text \<open>
  The world of one command: what the operating system says to the spawn (the text of its error or
  the pid; asked with the program, its arguments, the environment, the directory and whether the
  tree dies with the handle), the state the pump ends in with the late status, the signal and the
  time, and what the listener answers while each chunk goes out, and at the end.
\<close>

record command_world =
  wo_host :: shell_host
  wo_spawn :: "string \<Rightarrow> string list \<Rightarrow> (string \<times> string) list \<Rightarrow> path \<Rightarrow> bool \<Rightarrow> string + nat"
  wo_pump :: pump
  wo_late :: "int option option"
  wo_signal :: "int option"
  wo_ns :: nat
  wo_answers :: "send_answer list list"
  wo_flush :: "send_answer list"
  wo_closed :: bool
  wo_now_ns :: nat
  wo_secs :: "nat \<Rightarrow> string"

definition world_outcome :: "command_world \<Rightarrow> run_outcome" where
  "world_outcome w =
     \<lparr>ro_ended = pump_end (wo_late w) (wo_pump w), ro_signal = wo_signal w, ro_ns = wo_ns w,
      ro_orphans = pm_orphans (wo_pump w)\<rparr>"

definition run_transcript :: "nat \<Rightarrow> (tool_stream \<times> string) list \<Rightarrow> transcript" where
  "run_transcript max_bytes chunks = foldl (\<lambda>t (s, bytes). transcript_push s bytes t) (transcript_new max_bytes) chunks"

text \<open>What the listener sees of a foreground run, and the lines it never saw.\<close>

definition run_reports :: "command_world \<Rightarrow> shown list \<times> nat" where
  "run_reports w =
     (let chunks = pm_chunks (wo_pump w);
          pushes = map (\<lambda>(i, s, bytes). (if i < length (wo_answers w) then wo_answers w ! i else [], s, utf8_lossy bytes)) (enumerate 0 chunks)
      in case report_all pushes (reporter_new (wo_closed w)) of
           (ms, r) \<Rightarrow> (case report_flush (wo_flush w) r of (ms', r') \<Rightarrow> (ms @ ms', dropped_lines r')))"

definition with_dropped :: "nat \<Rightarrow> tool_output \<Rightarrow> tool_output" where
  "with_dropped n out = (if 0 < n then set_metadata ''progress_dropped_lines'' (JInt (int n)) out else out)"

definition run_timeout :: "shell_config \<Rightarrow> nat \<Rightarrow> nat" where
  "run_timeout config s = max 1 (min shell_max_timeout_s (min s (xc_max_timeout_s config)))"

definition not_a_directory :: "file_target \<Rightarrow> tool_output" where
  "not_a_directory t = out_error (quoted (ft_shown t) @ '' is not a directory in the workspace'')"

definition spawn_command :: "command_world \<Rightarrow> shell_program \<Rightarrow> shell_config \<Rightarrow> string \<Rightarrow> path \<Rightarrow> bool \<Rightarrow> string + nat" where
  "spawn_command w p config command cwd kill_on_drop =
     wo_spawn w (xp_path p) (args_for p command) (environment (wo_host w) config) cwd kill_on_drop"

definition cannot_start :: "shell_program \<Rightarrow> string \<Rightarrow> tool_output" where
  "cannot_start p e = out_error (''cannot start '' @ quoted (utf8_lossy (xp_path p)) @ '': '' @ e)"

definition job_started :: "shell_program \<Rightarrow> file_target \<Rightarrow> shell_input \<Rightarrow> job \<Rightarrow> tool_output" where
  "job_started p t i j =
     with_metadata (jobj [(''job_id'', JStr (job_id j)), (''pid'', JInt (int (jb_pid j))), (''background'', JBool True),
         (''detached'', JBool (jb_detached j)), (''shell'', JStr (xp_name p)), (''description'', json_text (xi_description i))])
       (with_summary (''started job '' @ job_id j)
         (out_text (''started job '' @ job_id j @ '' (pid '' @ show_nat (jb_pid j) @ '') in '' @ ft_shown t @ '': '' @ xi_command i @ lf
            @ ''read its output with shell_jobs {\"action\": \"output\", \"job_id\": \"'' @ job_id j @ ''\"}'' @ lf)))"

definition shell_foreground ::
  "command_world \<Rightarrow> nat \<Rightarrow> shell_program \<Rightarrow> nat \<Rightarrow> string option \<Rightarrow> (tool_error + tool_output) \<times> shown list" where
  "shell_foreground w max_bytes p timeout_s description =
     (let (ms, dropped) = run_reports w; t = run_transcript max_bytes (pm_chunks (wo_pump w)); o' = world_outcome w
      in if ro_ended o' = EndedKilled then (Inl ToolCancelled, ms)
         else (Inr (with_dropped dropped (set_metadata ''description'' (json_text description)
                 (set_metadata ''shell'' (JStr (xp_name p)) (run_render (wo_secs w) t o' timeout_s)))), ms))"

definition shell_call ::
  "file_lib \<Rightarrow> file_ctx \<Rightarrow> fs \<Rightarrow> shell_config \<Rightarrow> command_world \<Rightarrow> nat \<Rightarrow> string \<Rightarrow> json \<Rightarrow> jobs \<Rightarrow>
   ((tool_error + tool_output) \<times> shown list) \<times> jobs" where
  "shell_call lib ctx fs config w max_bytes agent input r =
     (case parse_input lib [''command'', ''cwd'', ''timeout_s'', ''background'', ''detach'', ''description''] read_shell_input input of
        Inl e \<Rightarrow> ((Inl e, []), r)
      | Inr i \<Rightarrow>
     (case target_of lib ctx fs (case xi_cwd i of Some c \<Rightarrow> c | None \<Rightarrow> ''.'') of
        Inl e \<Rightarrow> ((Inl e, []), r)
      | Inr t \<Rightarrow>
          if \<not> is_dir fs (ft_abs t) then ((Inr (not_a_directory t), []), r)
          else
            (let p = program_resolve (wo_host w) config; timeout_s = run_timeout config (xi_timeout_s i);
                 detached = (xi_background i \<and> xi_detach i)
             in case spawn_command w p config (xi_command i) (ft_abs t) (\<not> detached) of
                  Inl e \<Rightarrow> ((Inr (cannot_start p e), []), r)
                | Inr pid \<Rightarrow>
                    if xi_background i then
                      (case jobs_start pid (wo_now_ns w) \<lparr>nj_command = xi_command i, nj_description = xi_description i,
                          nj_detached = detached, nj_agent = agent, nj_timeout_s = timeout_s, nj_max_bytes = max_bytes\<rparr> r of
                        (j, r') \<Rightarrow> ((Inr (job_started p t i j), []), r'))
                    else (shell_foreground w max_bytes p timeout_s (xi_description i), r))))"

section \<open>\<open>shell_jobs\<close>\<close>

datatype job_action = ActionList | ActionOutput | ActionWait | ActionKill

definition action_name :: "job_action \<Rightarrow> string" where
  "action_name a = (case a of ActionList \<Rightarrow> ''list'' | ActionOutput \<Rightarrow> ''output'' | ActionWait \<Rightarrow> ''wait'' | ActionKill \<Rightarrow> ''kill'')"

record jobs_input =
  ji_action :: job_action
  ji_job_id :: "string option"
  ji_timeout_s :: nat

definition read_jobs_input :: "json \<Rightarrow> jobs_input option" where
  "read_jobs_input v =
     (case (Option.bind (input_str ''action'' v) (\<lambda>s. find (\<lambda>a. action_name a = s) [ActionList, ActionOutput, ActionWait, ActionKill]),
            input_opt as_str ''job_id'' v, input_u64 30 ''timeout_s'' v) of
        (Some a, Some i, Some t) \<Rightarrow> Some \<lparr>ji_action = a, ji_job_id = i, ji_timeout_s = t\<rparr>
      | _ \<Rightarrow> None)"

text \<open>The time a call reads, what happens to the job while it waits, and whether the wait is cut short.\<close>

record jobs_world =
  jw_now_ns :: nat
  jw_meanwhile :: "job \<Rightarrow> job"
  jw_cancelled :: bool
  jw_secs :: "nat \<Rightarrow> string"

definition running_for :: "jobs_world \<Rightarrow> job \<Rightarrow> string" where
  "running_for w j = fmt_duration (jw_secs w) (jw_now_ns w - jb_started_ns j)"

definition job_status :: "jobs_world \<Rightarrow> job \<Rightarrow> string" where
  "job_status w j =
     (case jb_outcome j of
        None \<Rightarrow> ''running '' @ middle_dot @ '' '' @ running_for w j
      | Some o' \<Rightarrow> eg_footer (ending_of (jw_secs w) o' (jb_timeout_s j)))"

definition job_json :: "job \<Rightarrow> json" where
  "job_json j = jobj
     [(''job_id'', JStr (job_id j)), (''pid'', JInt (int (jb_pid j))), (''running'', JBool (is_running j)),
      (''detached'', JBool (jb_detached j)), (''agent_id'', JStr (jb_agent j)), (''description'', json_text (jb_description j))]"

definition jobs_listing :: "jobs_world \<Rightarrow> job list \<Rightarrow> tool_output" where
  "jobs_listing w js =
     (let running = show_nat (length (filter is_running js)); n = show_nat (length js);
          row = (\<lambda>j. job_id j @ [CHR 0x09] @ job_status w j @ [CHR 0x09] @ one_line (jb_command j) 80 @ lf)
      in with_metadata (jobj [(''jobs'', JArr (map job_json js))])
           (with_summary (n @ '' jobs, '' @ running @ '' running'')
             (out_text (concat (map row js)
                @ (if js = [] then ''[no jobs]'' else ''['' @ n @ '' jobs, '' @ running @ '' running]'') @ lf))))"

definition job_output_start :: "jobs_world \<Rightarrow> job \<Rightarrow> tool_output" where
  "job_output_start w j =
     (case jb_outcome j of
        Some o' \<Rightarrow> run_render (jw_secs w) (jb_transcript j) o' (jb_timeout_s j)
      | None \<Rightarrow>
          with_metadata (jobj (stream_counts (jb_transcript j)))
            (with_summary (job_id j @ '' running for '' @ running_for w j)
              (out_text (closed_text (jb_transcript j) @ ''running '' @ middle_dot @ '' '' @ running_for w j
                 @ '' (pid '' @ show_nat (jb_pid j) @ '')'' @ lf))))"

definition job_output :: "jobs_world \<Rightarrow> job \<Rightarrow> tool_output" where
  "job_output w j =
     (let out = set_metadata ''description'' (json_text (jb_description j))
            (set_metadata ''detached'' (JBool (jb_detached j)) (set_metadata ''running'' (JBool (is_running j))
            (set_metadata ''pid'' (JInt (int (jb_pid j))) (set_metadata ''job_id'' (JStr (job_id j)) (job_output_start w j)))))
      in if is_running j then out else with_summary (job_id j @ '': '' @ to_summary out) out)"

definition unknown_job :: "string \<Rightarrow> job list \<Rightarrow> tool_output" where
  "unknown_job i js =
     out_error (if js = [] then ''no job '' @ quoted i @ ''; no jobs have been started''
       else ''no job '' @ quoted i @ ''; known jobs: '' @ join_with '', '' (map job_id js))"

definition shell_jobs_call :: "file_lib \<Rightarrow> jobs_world \<Rightarrow> json \<Rightarrow> jobs \<Rightarrow> (tool_error + tool_output) \<times> jobs" where
  "shell_jobs_call lib w input r =
     (case parse_input lib [''action'', ''job_id'', ''timeout_s''] read_jobs_input input of
        Inl e \<Rightarrow> (Inl e, r)
      | Inr i \<Rightarrow>
          if ji_action i = ActionList then (Inr (jobs_listing w (jr_jobs r)), r)
          else (case ji_job_id i of
            None \<Rightarrow> (Inl (InvalidInput (quoted ''job_id'' @ '' is required for '' @ quoted (action_name (ji_action i)))), r)
          | Some job \<Rightarrow>
              (case jobs_get job r of
                 None \<Rightarrow> (Inr (unknown_job job (jr_jobs r)), r)
               | Some j \<Rightarrow>
                   (case ji_action i of
                      ActionWait \<Rightarrow>
                        (if jw_cancelled w then (Inl ToolCancelled, jobs_change (jb_no j) (jw_meanwhile w) r)
                         else (Inr (job_output w (jw_meanwhile w j)), jobs_change (jb_no j) (jw_meanwhile w) r))
                    | ActionKill \<Rightarrow>
                        (Inr (job_output w (jw_meanwhile w (job_kill j))), jobs_change (jb_no j) (jw_meanwhile w \<circ> job_kill) r)
                    | _ \<Rightarrow> (Inr (job_output w j), r)))))"

section \<open>\<open>run_tests\<close>\<close>

definition run_tests_default_timeout_s :: nat where
  "run_tests_default_timeout_s = 600"

record tests_input =
  yi_command :: "string option"
  yi_runner :: "runner option"
  yi_cwd :: "string option"
  yi_timeout_s :: nat
  yi_description :: "string option"

definition read_tests_input :: "json \<Rightarrow> tests_input option" where
  "read_tests_input v =
     (case (input_opt as_str ''command'' v, input_opt (\<lambda>x. Option.bind (as_str x) runner_from_name) ''runner'' v,
            input_opt as_str ''cwd'' v, input_u64 run_tests_default_timeout_s ''timeout_s'' v, input_opt as_str ''description'' v) of
        (Some c, Some r, Some cwd, Some t, Some descr) \<Rightarrow>
          Some \<lparr>yi_command = c, yi_runner = r, yi_cwd = cwd, yi_timeout_s = t, yi_description = descr\<rparr>
      | _ \<Rightarrow> None)"

text \<open>The command to run, the runner that reads its output, and the file the choice rests on.\<close>

definition tests_command ::
  "runner_lib \<Rightarrow> detected option \<Rightarrow> tests_input \<Rightarrow> (string \<times> runner option \<times> string option) option" where
  "tests_command rlib found i =
     (case yi_command i of
        Some c \<Rightarrow>
          Some (c, case yi_runner i of Some r \<Rightarrow> Some r
             | None \<Rightarrow> (case classify_command rlib c of Some (CommandTests r) \<Rightarrow> r | _ \<Rightarrow> None), None)
      | None \<Rightarrow>
          map_option (\<lambda>d. (de_command d, Some (case yi_runner i of Some r \<Rightarrow> r | None \<Rightarrow> de_runner d), Some (de_because d))) found)"

definition no_runner :: "file_target \<Rightarrow> tool_output" where
  "no_runner t = out_error (''no test runner recognised in '' @ quoted (ft_shown t)
     @ '': no Cargo.toml, package.json with a `test` script, pyproject.toml or go.mod there; pass `command`'')"

definition tests_facts :: "string \<Rightarrow> run_outcome \<Rightarrow> json \<Rightarrow> run_facts" where
  "tests_facts command o' metadata =
     \<lparr>rf_command = command,
      rf_exit_code = (case as_int (jindex ''exit_code'' metadata) of
          Some c \<Rightarrow> if - (2 ^ 31) \<le> c \<and> c < 2 ^ 31 then Some c else None | None \<Rightarrow> None),
      rf_duration_ms = min (ro_ns o' div 10 ^ 6) (2 ^ 64 - 1), rf_killed = (ro_ended o' = EndedTimeout)\<rparr>"

definition tests_output ::
  "runner_lib \<Rightarrow> command_world \<Rightarrow> transcript \<Rightarrow> shell_program \<Rightarrow> nat \<Rightarrow> nat \<Rightarrow> tests_input \<Rightarrow> string \<Rightarrow> runner option \<Rightarrow>
   string option \<Rightarrow> tool_output" where
  "tests_output rlib w t p timeout_s dropped i command runner because =
     (let o' = world_outcome w; out = run_render (wo_secs w) t o' timeout_s;
          sig = outcome_tests rlib runner (transcript_text t) (tests_facts command o' (to_metadata out)) ''run_tests'';
          (line', _) = signal_describe sig;
          headline = (if as_bool (jindex ''parsed'' (sg_details sig)) = Some True then ''[tests] '' @ line'
                      else ''[tests] no summary recognised; '' @ line');
          body = (case to_content out of ToolText s \<Rightarrow> s | _ \<Rightarrow> [])
      in with_dropped dropped
          (set_metadata ''outcome'' (sg_details sig) (set_metadata ''detected_from'' (json_text because)
          (set_metadata ''runner'' (json_text (map_option runner_name runner)) (set_metadata ''command'' (JStr command)
          (set_metadata ''description'' (json_text (yi_description i)) (set_metadata ''shell'' (JStr (xp_name p))
            (with_summary line' (out\<lparr>to_content := ToolText (headline @ lf @ body)\<rparr>)))))))))"

definition run_tests_call ::
  "file_lib \<Rightarrow> runner_lib \<Rightarrow> file_ctx \<Rightarrow> fs \<Rightarrow> (path \<Rightarrow> detected option) \<Rightarrow> shell_config \<Rightarrow> command_world \<Rightarrow> nat \<Rightarrow> json \<Rightarrow>
   (tool_error + tool_output) \<times> shown list" where
  "run_tests_call lib rlib ctx fs detect config w max_bytes input =
     (case parse_input lib [''command'', ''runner'', ''cwd'', ''timeout_s'', ''description''] read_tests_input input of
        Inl e \<Rightarrow> (Inl e, [])
      | Inr i \<Rightarrow>
     (case target_of lib ctx fs (case yi_cwd i of Some c \<Rightarrow> c | None \<Rightarrow> ''.'') of
        Inl e \<Rightarrow> (Inl e, [])
      | Inr t \<Rightarrow>
          if \<not> is_dir fs (ft_abs t) then (Inr (not_a_directory t), [])
          else (case tests_command rlib (detect (ft_abs t)) i of
            None \<Rightarrow> (Inr (no_runner t), [])
          | Some (command, runner, because) \<Rightarrow>
              (let p = program_resolve (wo_host w) config; timeout_s = run_timeout config (yi_timeout_s i)
               in case spawn_command w p config command (ft_abs t) True of
                    Inl e \<Rightarrow> (Inr (cannot_start p e), [])
                  | Inr _ \<Rightarrow>
                      (let (ms, dropped) = run_reports w; tr = run_transcript max_bytes (pm_chunks (wo_pump w))
                       in if ro_ended (world_outcome w) = EndedKilled then (Inl ToolCancelled, ms)
                          else (Inr (tests_output rlib w tr p timeout_s dropped i command runner because), ms))))))"

end
