(* ===== verification/Shell_Guarantees.thy ===== *)
theory Shell_Guarantees
  imports Shell_Tools
begin

text \<open>
  The registry of background jobs as a machine: jobs start, their output comes in, they end, they are
  killed, and agents are cancelled, in any order. A running job is never forgotten, and a finished
  one only for fifty later ones that finished as well.
\<close>

inductive jobs_step :: "jobs \<Rightarrow> jobs \<Rightarrow> bool" where
  starts: "jobs_start pid now new r = (j, r') \<Longrightarrow> jobs_step r r'"
| writes: "jobs_step r (jobs_change n (\<lambda>j. if is_running j then job_chunk s bytes j else j) r)"
| ends: "jobs_step r (jobs_change n (\<lambda>j. if is_running j then job_ends o' j else j) r)"
| killed: "jobs_step r (jobs_change n job_kill r)"
| agent: "jobs_step r (agent_cancelled a r)"

section \<open>What pruning drops\<close>

definition finished :: "job list \<Rightarrow> job list" where
  "finished js = filter (\<lambda>j. \<not> is_running j) js"

lemma finished_simps [simp]:
  "finished [] = []" "finished (j # js) = (if is_running j then finished js else j # finished js)"
  "finished (xs @ ys) = finished xs @ finished ys"
  by (simp_all add: finished_def)

lemma drop_finished_0 [simp]: "drop_finished 0 js = js"
  by (induction js) auto

lemma finished_drop: "finished (drop_finished n js) = drop n (finished js)"
  by (induction n js rule: drop_finished.induct) (auto simp: drop_Cons' gr0_conv_Suc)

lemma running_drop: "is_running j \<Longrightarrow> j \<in> set (drop_finished n js) \<longleftrightarrow> j \<in> set js"
  by (induction n js rule: drop_finished.induct) auto

lemma drop_subseq: "subseq (drop_finished n js) js"
  by (induction n js rule: drop_finished.induct) auto

lemma finished_in: "\<not> is_running j \<Longrightarrow> j \<in> set (finished js) \<longleftrightarrow> j \<in> set js"
  by (simp add: finished_def)

lemma subseq_in: "subseq xs ys \<Longrightarrow> x \<in> set xs \<Longrightarrow> x \<in> set ys"
  by (induction rule: list_emb.induct) auto

lemma sorted_subseq: "subseq xs ys \<Longrightarrow> sorted_wrt P (map f ys) \<Longrightarrow> sorted_wrt P (map f xs)"
  by (induction rule: list_emb.induct) (auto dest: subseq_in)

text \<open>The last ones of a list in order are past \<open>n\<close> when so many are at all.\<close>

lemma last_ones_past:
  assumes "sorted_wrt (<) (map jb_no fs)" "k \<le> length (filter (\<lambda>j. n < jb_no j) fs)" "j \<in> set (drop (length fs - k) fs)"
  shows "n < jb_no j"
proof (rule ccontr)
  assume "\<not> n < jb_no j"
  from assms(3) obtain m where "m < length (drop (length fs - k) fs)" "j = drop (length fs - k) fs ! m"
    by (auto simp: in_set_conv_nth)
  then have "length fs - k + m < length fs" "j = fs ! (length fs - k + m)" by auto
  then obtain i where i: "length fs - k \<le> i" "i < length fs" "j = fs ! i" using le_add1 by blast
  have "jb_no (fs ! m) \<le> n" if "m \<le> i" for m
    using sorted_wrt_nth_less [OF assms(1), of m i] that i \<open>\<not> n < jb_no j\<close> by (cases "m = i") auto
  then have "filter (\<lambda>j. n < jb_no j) (take (Suc i) fs) = []"
    by (auto simp: filter_empty_conv in_set_conv_nth less_Suc_eq_le not_less)
  then have "filter (\<lambda>j. n < jb_no j) fs = filter (\<lambda>j. n < jb_no j) (drop (Suc i) fs)"
    by (metis append_take_drop_id filter_append append_Nil)
  then have "length (filter (\<lambda>j. n < jb_no j) fs) \<le> length fs - Suc i" by (metis length_drop length_filter_le)
  with assms(2) i show False by linarith
qed

section \<open>The invariant\<close>

definition past :: "nat \<Rightarrow> job list \<Rightarrow> nat" where
  "past n js = length (filter (\<lambda>j. n < jb_no j) (finished js))"

definition jobs_ok :: "jobs \<Rightarrow> bool" where
  "jobs_ok r \<longleftrightarrow> sorted_wrt (<) (map jb_no (jr_jobs r)) \<and> (\<forall>j\<in>set (jr_jobs r). jb_no j \<in> {1..jr_next r}) \<and>
     (\<forall>n\<in>{1..jr_next r}. n \<in> jb_no ` set (jr_jobs r) \<or> keep_finished \<le> past n (jr_jobs r))"

lemma prune_past:
  assumes sorted: "sorted_wrt (<) (map jb_no js)"
    and past: "n \<in> jb_no ` set js \<or> keep_finished \<le> past n js"
  shows "n \<in> jb_no ` set (prune_jobs js) \<or> keep_finished \<le> past n (prune_jobs js)"
proof -
  let ?F = "finished js" and ?k = "length (finished js) - keep_finished"
  have F: "finished (prune_jobs js) = drop ?k ?F" by (simp add: prune_jobs_def finished_drop finished_def [symmetric])
  have sF: "sorted_wrt (<) (map jb_no ?F)" using sorted sorted_subseq [OF subseq_filter_left] unfolding finished_def by blast
  have all: "keep_finished \<le> past n (prune_jobs js)" if "\<forall>j\<in>set (drop ?k ?F). n < jb_no j" "keep_finished \<le> length ?F"
    using that by (simp add: past_def F)
  show ?thesis
  proof (cases "keep_finished \<le> past n js")
    case True
    then have "\<forall>j\<in>set (drop ?k ?F). n < jb_no j" using last_ones_past [OF sF] unfolding past_def by blast
    moreover have "keep_finished \<le> length ?F" using True length_filter_le le_trans unfolding past_def by blast
    ultimately show ?thesis using all by blast
  next
    case False
    with past obtain j where j: "j \<in> set js" "n = jb_no j" by blast
    show ?thesis
    proof (cases "j \<in> set (prune_jobs js)")
      case True
      with j show ?thesis by blast
    next
      case gone: False
      then have fin: "\<not> is_running j" using running_drop j(1) unfolding prune_jobs_def by blast
      then have "j \<in> set ?F" "j \<notin> set (drop ?k ?F)"
        using j(1) gone finished_in [OF fin] F by simp_all metis
      moreover from this have "j \<in> set (take ?k ?F)" by (metis Un_iff append_take_drop_id set_append)
      moreover have "sorted_wrt (<) (map jb_no (take ?k ?F) @ map jb_no (drop ?k ?F))"
        using sF by (metis append_take_drop_id map_append)
      ultimately have "\<forall>x\<in>set (drop ?k ?F). n < jb_no x" by (auto simp: sorted_wrt_append j(2))
      moreover have "keep_finished \<le> length ?F" using \<open>j \<in> set (take ?k ?F)\<close> by (cases "?k") auto
      ultimately show ?thesis using all by blast
    qed
  qed
qed

lemma start_ok:
  assumes ok: "jobs_ok r" and start: "jobs_start pid now new r = (j, r')"
  shows "jobs_ok r'"
proof -
  let ?js = "jr_jobs r @ [j]"
  have r': "jr_next r' = Suc (jr_next r)" "jr_jobs r' = prune_jobs ?js" "jb_no j = Suc (jr_next r)" "is_running j"
    using start by (auto simp: jobs_start_def Let_def is_running_def)
  have sorted: "sorted_wrt (<) (map jb_no ?js)" using ok r'(3) by (auto simp: jobs_ok_def sorted_wrt_append)
  have "past n ?js = past n (jr_jobs r)" for n using r'(4) by (simp add: past_def)
  then have "n \<in> jb_no ` set ?js \<or> keep_finished \<le> past n ?js" if "n \<in> {1..jr_next r'}" for n
    using ok that r'(1,3) by (cases "n = jr_next r'") (auto simp: jobs_ok_def)
  from prune_past [OF sorted this] have "\<forall>n\<in>{1..jr_next r'}. n \<in> jb_no ` set (jr_jobs r') \<or> keep_finished \<le> past n (jr_jobs r')"
    by (simp add: r'(2))
  moreover have sub: "subseq (jr_jobs r') ?js" by (simp add: r'(2) prune_jobs_def drop_subseq)
  then have "sorted_wrt (<) (map jb_no (jr_jobs r'))" using sorted sorted_subseq by blast
  moreover have "jb_no x \<in> {1..jr_next r'}" if "x \<in> set (jr_jobs r')" for x
    using subseq_in [OF sub that] ok r'(1,3) by (auto simp: jobs_ok_def)
  ultimately show ?thesis by (simp add: jobs_ok_def)
qed

text \<open>The other steps keep the jobs in their places and finish none again.\<close>

lemma past_map:
  assumes "\<And>j. jb_no (f j) = jb_no j" "\<And>j. \<not> is_running j \<Longrightarrow> \<not> is_running (f j)"
  shows "past n js \<le> past n (map f js)"
  by (induction js) (use assms in \<open>auto simp: past_def\<close>)

lemma map_ok:
  assumes "jobs_ok r" "\<And>j. jb_no (f j) = jb_no j" "\<And>j. \<not> is_running j \<Longrightarrow> \<not> is_running (f j)"
  shows "jobs_ok (r\<lparr>jr_jobs := map f (jr_jobs r)\<rparr>)"
proof -
  have "past n (jr_jobs r) \<le> past n (map f (jr_jobs r))" for n using past_map assms(2,3) by blast
  then have "keep_finished \<le> past n (jr_jobs r) \<longrightarrow> keep_finished \<le> past n (map f (jr_jobs r))" for n
    using le_trans by blast
  moreover have "jb_no \<circ> f = jb_no" using assms(2) by auto
  then have "sorted_wrt (<) (map jb_no (map f (jr_jobs r)))" "jb_no ` set (map f (jr_jobs r)) = jb_no ` set (jr_jobs r)"
    using assms(1) by (simp_all add: jobs_ok_def image_image assms(2))
  ultimately show ?thesis using assms(1,2) by (auto simp: jobs_ok_def)
qed

lemma step_ok: "jobs_step r r' \<Longrightarrow> jobs_ok r \<Longrightarrow> jobs_ok r'"
proof (induction rule: jobs_step.induct)
  case (starts pid now new r j r')
  then show ?case using start_ok by blast
qed (auto simp: jobs_change_def agent_cancelled_def job_chunk_def job_ends_def job_kill_def is_running_def split: if_splits intro!: map_ok)

lemma runs_ok: "jobs_step\<^sup>*\<^sup>* no_jobs r \<Longrightarrow> jobs_ok r"
proof (induction rule: rtranclp_induct)
  case base
  show ?case by (simp add: jobs_ok_def no_jobs_def)
qed (use step_ok in blast)

text \<open>What a job is does not change while it is listed.\<close>

definition same_job :: "job \<Rightarrow> job \<Rightarrow> bool" where
  "same_job j j' \<longleftrightarrow> jb_no j' = jb_no j \<and> jb_pid j' = jb_pid j \<and> jb_command j' = jb_command j \<and> jb_agent j' = jb_agent j \<and>
     jb_detached j' = jb_detached j \<and> (jb_cancelled j \<longrightarrow> jb_cancelled j')"

lemma same_job_simps [simp]:
  "same_job j j" "same_job j (j\<lparr>jb_transcript := t\<rparr>)" "same_job j (j\<lparr>jb_outcome := x\<rparr>)" "same_job j (j\<lparr>jb_cancelled := True\<rparr>)"
  by (simp_all add: same_job_def)

lemma map_keeps: "(\<And>j. same_job j (f j)) \<Longrightarrow> j \<in> set js \<Longrightarrow> \<exists>j'\<in>set (map f js). same_job j j'"
  by auto

lemma step_keeps_running:
  assumes "jobs_step r r'" "j \<in> set (jr_jobs r)" "is_running j"
  shows "\<exists>j'\<in>set (jr_jobs r'). same_job j j'"
  using assms
proof (induction rule: jobs_step.induct)
  case (starts pid now new r j0 r')
  then have "j \<in> set (jr_jobs r')" by (auto simp: jobs_start_def Let_def prune_jobs_def running_drop)
  then show ?case using same_job_simps(1) by blast
qed (auto simp: jobs_change_def agent_cancelled_def job_chunk_def job_ends_def job_kill_def
    simp del: set_map intro!: map_keeps)

text \<open>
  C11: Jobs are remembered: whatever jobs start, write, end and are killed and whatever agents are
  cancelled, the listed jobs are in the order they started, under numbers given once; a job that is
  not listed any more is one with at least fifty later jobs listed that finished; and no step
  forgets a job that is running or changes what it is.
\<close>

theorem jobs_remembered:
  assumes "jobs_step\<^sup>*\<^sup>* no_jobs r"
  shows "sorted_wrt (<) (map jb_no (jr_jobs r)) \<and> (\<forall>j\<in>set (jr_jobs r). jb_no j \<in> {1..jr_next r}) \<and>
    (\<forall>n\<in>{1..jr_next r}. n \<in> jb_no ` set (jr_jobs r) \<or>
       keep_finished \<le> length (filter (\<lambda>j. \<not> is_running j \<and> n < jb_no j) (jr_jobs r))) \<and>
    (\<forall>r'. jobs_step r r' \<longrightarrow> (\<forall>j\<in>set (jr_jobs r). is_running j \<longrightarrow> (\<exists>j'\<in>set (jr_jobs r'). same_job j j')))"
  using runs_ok [OF assms] step_keeps_running
  by (auto simp: jobs_ok_def past_def finished_def filter_filter conj_commute)

section \<open>Examples\<close>

definition demo_new :: "string \<Rightarrow> bool \<Rightarrow> new_job" where
  "demo_new agent detached =
     \<lparr>nj_command = ''sleep 9'', nj_description = None, nj_detached = detached, nj_agent = agent, nj_timeout_s = 120, nj_max_bytes = 1000\<rparr>"

definition two_jobs :: jobs where
  "two_jobs = snd (jobs_start 7 1 (demo_new ''b'' True) (snd (jobs_start 6 0 (demo_new ''a'' False) no_jobs)))"

lemma two_jobs_reached: "jobs_step\<^sup>*\<^sup>* no_jobs two_jobs"
  unfolding two_jobs_def by (metis jobs_step.starts prod.collapse rtranclp.simps)

lemma jobs_remembered_witness:
  "sorted_wrt (<) (map jb_no (jr_jobs two_jobs)) \<and> map jb_no (jr_jobs two_jobs) = [1, 2] \<and>
   (\<exists>j'\<in>set (jr_jobs (agent_cancelled ''a'' two_jobs)). same_job (hd (jr_jobs two_jobs)) j')"
proof -
  have js: "map jb_no (jr_jobs two_jobs) = [1, 2]" "jr_jobs two_jobs \<noteq> []" "is_running (hd (jr_jobs two_jobs))"
    by (simp_all add: two_jobs_def jobs_start_def no_jobs_def prune_jobs_def is_running_def keep_finished_def Let_def)
  from jobs_remembered [OF two_jobs_reached] js jobs_step.agent [of two_jobs "''a''"] show ?thesis
    by (metis hd_in_set)
qed

text \<open>The cancellation of an agent reaches its own jobs that are not detached, and no other.\<close>

lemma cancelled_are_its_own:
  "map jb_cancelled (jr_jobs (agent_cancelled a r)) =
   map (\<lambda>j. jb_cancelled j \<or> jb_agent j = a \<and> \<not> jb_detached j) (jr_jobs r)"
  by (auto simp: agent_cancelled_def job_kill_def)

text \<open>A call of \<open>shell_jobs\<close> has no agent: any agent may kill the job of any other, although the tool
  is declared read-only for stopping only what the agent itself started.\<close>

definition demo_kill :: json where
  "demo_kill = jobj [(''action'', JStr ''kill''), (''job_id'', JStr ''j2'')]"

lemma kill_reads: "read_jobs_input demo_kill = Some \<lparr>ji_action = ActionKill, ji_job_id = Some ''j2'', ji_timeout_s = 30\<rparr>"
  by code_simp

lemma any_agent_kills:
  "map (\<lambda>j. (jb_agent j, jb_cancelled j)) (jr_jobs (snd (shell_jobs_call lib
     \<lparr>jw_now_ns = 5, jw_meanwhile = id, jw_cancelled = False, jw_secs = \<lambda>_. []\<rparr> demo_kill two_jobs))) = [(''a'', False), (''b'', True)]"
proof -
  have "only_fields [''action'', ''job_id'', ''timeout_s''] demo_kill" by code_simp
  moreover have "digit_char (Suc 0) = CHR ''1''" "digit_char (Suc (Suc 0)) = CHR ''2''" by code_simp+
  ultimately show ?thesis
    by (simp add: shell_jobs_call_def parse_input_def kill_reads two_jobs_def jobs_start_def no_jobs_def prune_jobs_def demo_new_def
        keep_finished_def is_running_def jobs_get_def job_id_def show_nat.simps jobs_change_def job_kill_def Let_def)
qed

end
