(* ===== verification/Trace_Writer.thy ===== *)
theory Trace_Writer
  imports Trace_Invariant
begin

text \<open>
  \<open>crates/core/src/trace/writer.rs\<close>: the thread that owns the writes to the store, fed by a bounded
  queue. A command carries the ticket of the caller that waits for its answer; a job is a function
  of the store. What the thread does between two waits is one turn; callers send at any time.
\<close>

datatype 'r cmd =
    CmdAppend new_event "nat option"
  | CmdRun "trace_store \<Rightarrow> 'r \<times> trace_store" nat
  | CmdStop

text \<open>What a caller gets; \<open>Closed\<close> is \<open>WriterClosed\<close>, its sender having been dropped.\<close>

datatype 'r answer = Appended "trace_error + string" | Ran 'r | Closed

record 'r writer =
  wl_queue :: "'r cmd list"
  wl_next :: "'r cmd option"
  wl_open :: bool
  wl_store :: trace_store
  wl_answers :: "(nat \<times> 'r answer) list"

definition queue_capacity :: nat where
  "queue_capacity = 10000"

definition max_batch :: nat where
  "max_batch = 256"

definition writer_spawn :: "trace_store \<Rightarrow> 'r writer" where
  "writer_spawn st = \<lparr>wl_queue = [], wl_next = None, wl_open = True, wl_store = st, wl_answers = []\<rparr>"

text \<open>A send that is taken; otherwise the caller waits for room, or hears that the writer is closed.\<close>

definition writer_send :: "'r cmd \<Rightarrow> 'r writer \<Rightarrow> 'r writer option" where
  "writer_send c w =
     (if wl_open w \<and> length (wl_queue w) < queue_capacity then Some (w\<lparr>wl_queue := wl_queue w @ [c]\<rparr>) else None)"

definition writer_queued :: "'r writer \<Rightarrow> nat" where
  "writer_queued w = length (wl_queue w)"

definition flush_cmd :: "'r \<Rightarrow> nat \<Rightarrow> 'r cmd" where
  "flush_cmd ok t = CmdRun (\<lambda>st. (ok, st)) t"

section \<open>The thread\<close>

text \<open>\<open>try_recv\<close> while it yields appends: the batch, the other command that ended it, the queue left.\<close>

fun take_appends :: "nat \<Rightarrow> 'r cmd list \<Rightarrow> (new_event \<times> nat option) list \<times> 'r cmd option \<times> 'r cmd list" where
  "take_appends 0 q = ([], None, q)"
| "take_appends (Suc n) [] = ([], None, [])"
| "take_appends (Suc n) (CmdAppend ev t # q) = (case take_appends n q of (b, nx, rest) \<Rightarrow> ((ev, t) # b, nx, rest))"
| "take_appends (Suc n) (c # q) = ([], Some c, q)"

definition batch_results :: "store_env \<Rightarrow> new_event list \<Rightarrow> trace_store \<Rightarrow> (trace_error + string) list \<times> trace_store" where
  "batch_results env evs st =
     (case evs of
        [ev] \<Rightarrow> (case append_event env ev st of (r, st') \<Rightarrow> ([r], st'))
      | _ \<Rightarrow>
          (case append_batch env evs st of
             (Inr rs, st') \<Rightarrow> (rs, st')
           | (Inl e, st') \<Rightarrow> (Inl e # replicate (length evs - 1) (Inl (BatchFailed (trace_error_str e))), st')))"

text \<open>Each result goes to its caller; one nobody waits for is logged at most.\<close>

definition deliver :: "nat option list \<Rightarrow> (trace_error + string) list \<Rightarrow> (nat \<times> 'r answer) list" where
  "deliver replies results =
     concat (map (\<lambda>(t, r). case t of Some n \<Rightarrow> [(n, Appended r)] | None \<Rightarrow> []) (zip replies results))"

definition run_batch_of :: "store_env \<Rightarrow> (new_event \<times> nat option) list \<Rightarrow> trace_store \<Rightarrow> (nat \<times> 'r answer) list \<times> trace_store" where
  "run_batch_of env batch st =
     (case batch_results env (map fst batch) st of (rs, st') \<Rightarrow> (deliver (map snd batch) rs, st'))"

definition tickets :: "'r cmd \<Rightarrow> nat list" where
  "tickets c = (case c of CmdAppend _ (Some n) \<Rightarrow> [n] | CmdAppend _ None \<Rightarrow> [] | CmdRun _ n \<Rightarrow> [n] | CmdStop \<Rightarrow> [])"

text \<open>One command; \<open>Stop\<close> closes the channel and drops what is still in it.\<close>

definition writer_handle :: "store_env \<Rightarrow> 'r cmd \<Rightarrow> 'r writer \<Rightarrow> 'r writer" where
  "writer_handle env c w =
     (case c of
        CmdStop \<Rightarrow> w\<lparr>wl_open := False, wl_queue := [],
            wl_answers := wl_answers w @ map (\<lambda>n. (n, Closed)) (concat (map tickets (wl_queue w)))\<rparr>
      | CmdRun job n \<Rightarrow>
          (case job (wl_store w) of (x, st') \<Rightarrow> w\<lparr>wl_store := st', wl_answers := wl_answers w @ [(n, Ran x)]\<rparr>)
      | CmdAppend ev t \<Rightarrow>
          (case take_appends (max_batch - 1) (wl_queue w) of (b, nx, rest) \<Rightarrow>
             (case run_batch_of env ((ev, t) # b) (wl_store w) of (answers, st') \<Rightarrow>
                w\<lparr>wl_queue := rest, wl_next := nx, wl_store := st', wl_answers := wl_answers w @ answers\<rparr>)))"

text \<open>A turn of \<open>worker_loop\<close>; \<open>None\<close> when it waits or has ended.\<close>

definition writer_turn :: "store_env \<Rightarrow> 'r writer \<Rightarrow> 'r writer option" where
  "writer_turn env w =
     (if \<not> wl_open w then None
      else case wl_next w of
        Some c \<Rightarrow> Some (writer_handle env c (w\<lparr>wl_next := None\<rparr>))
      | None \<Rightarrow> (case wl_queue w of [] \<Rightarrow> None | c # q \<Rightarrow> Some (writer_handle env c (w\<lparr>wl_queue := q\<rparr>))))"

text \<open>Runs of the writer, with the commands it took.\<close>

inductive writer_runs :: "store_env \<Rightarrow> trace_store \<Rightarrow> 'r cmd list \<Rightarrow> 'r writer \<Rightarrow> bool" for env st where
  start: "writer_runs env st [] (writer_spawn st)"
| send: "writer_runs env st cs w \<Longrightarrow> writer_send c w = Some w' \<Longrightarrow> writer_runs env st (cs @ [c]) w'"
| turn: "writer_runs env st cs w \<Longrightarrow> writer_turn env w = Some w' \<Longrightarrow> writer_runs env st cs w'"

section \<open>What a batch commits\<close>

definition event_ids :: "trace_store \<Rightarrow> string list" where
  "event_ids st = map er_id (db_events (ts_db st))"

definition acknowledged :: "(trace_error + string) list \<Rightarrow> string list" where
  "acknowledged rs = concat (map (\<lambda>r. case r of Inr i \<Rightarrow> [i] | Inl _ \<Rightarrow> []) rs)"

lemma acknowledged_simps [simp]:
  "acknowledged [] = []" "acknowledged (Inr i # rs) = i # acknowledged rs" "acknowledged (Inl e # rs) = acknowledged rs"
  "acknowledged (replicate n (Inl e)) = []"
  by (induction n) (simp_all add: acknowledged_def)

lemma frames_ids: "frames m \<Longrightarrow> m st = (r, st') \<Longrightarrow> event_ids st' = event_ids st"
  by (simp add: frames_def event_ids_def)

lemma twp_inserted: "twp (insert_event env p) (\<lambda>i st'. event_ids st' = event_ids st @ [i]) st"
proof -
  let ?I = "\<lambda>s. event_ids s = event_ids st"
  have reg: "twp (register_blob env b) (\<lambda>_. ?I) s" if "?I s" for b s
    using that by (cases b) (simp add: register_blob_def twp event_ids_def)
  have ref: "twp (case q of None \<Rightarrow> t_return () | Some i \<Rightarrow> reference_blob i) (\<lambda>_. ?I) s" if "?I s" for q s
    using that by (cases q) (simp_all add: reference_blob_def twp event_ids_def)
  show ?thesis
    unfolding insert_event_def Let_def twp
    by (rule twp_mono [OF twp_all [where I = ?I, OF reg]], simp_all, rule twp_mono [OF ref], simp)
      (auto simp: insert_event_row_def twp event_row_of_def session_touched_def event_ids_def)
qed

lemma transaction_run:
  assumes "transaction env body st = (r, st')"
  shows "(\<exists>st1. ts_db st1 = ts_db st \<and> body st1 = (r, st') \<and> (\<exists>x. r = Inr x)) \<or> (\<exists>e. r = Inl e \<and> ts_db st' = ts_db st)"
  using assms by (auto simp: transaction_def t_bind_def t_io_def split: prod.splits sum.splits option.splits)

lemma append_event_ids:
  assumes "append_event env ev st = (r, st')"
  shows "event_ids st' = event_ids st @ acknowledged [r]"
  using assms unfolding append_event_def
proof (rule t_bind_cases)
  fix e assume "prepare env ev st = (Inl e, st')" "r = Inl e"
  then show ?thesis using frames_ids [OF frames_prepare] by simp
next
  fix p st1 assume p: "prepare env ev st = (Inr p, st1)" and t: "transaction env (insert_event env p) st1 = (r, st')"
  have 1: "event_ids st1 = event_ids st" using frames_ids [OF frames_prepare p] .
  from transaction_run [OF t] show ?thesis
  proof (elim disjE exE conjE)
    fix st2 x assume "ts_db st2 = ts_db st1" "insert_event env p st2 = (r, st')" "r = Inr x"
    with twp_inserted [of env p st2] 1 show ?thesis by (simp add: twp_def event_ids_def)
  qed (use 1 in \<open>simp add: event_ids_def\<close>)
qed

lemma slot_ids:
  assumes "append_slot env p st = (r, st')"
  shows "\<exists>x. r = Inr x \<and> event_ids st' = event_ids st @ acknowledged [x]"
proof (cases p)
  case (Inl e)
  with assms show ?thesis by (auto simp: append_slot_def t_return_def)
next
  case (Inr q)
  obtain x s1 where x: "insert_event env q st = (x, s1)" by fastforce
  with twp_inserted [of env q st] assms Inr show ?thesis
    by (cases x) (auto simp: append_slot_def t_catch_def savepoint_def twp_def event_ids_def)
qed

lemma slots_ids:
  "t_each (append_slot env) ps st = (r, st') \<Longrightarrow>
   \<exists>rs. r = Inr rs \<and> length rs = length ps \<and> event_ids st' = event_ids st @ acknowledged rs"
proof (induction ps arbitrary: st r st')
  case (Cons p ps)
  obtain q st1 where q: "append_slot env p st = (q, st1)" by fastforce
  from slot_ids [OF q] obtain x where x: "q = Inr x" "event_ids st1 = event_ids st @ acknowledged [x]" by blast
  obtain q' st2 where q': "t_each (append_slot env) ps st1 = (q', st2)" by fastforce
  from Cons.IH [OF q'] obtain rs where rs: "q' = Inr rs" "length rs = length ps" "event_ids st2 = event_ids st1 @ acknowledged rs" by blast
  have "r = Inr (x # rs)" "st' = st2" using Cons.prems q x(1) q' rs(1) by (auto simp: t_bind_def t_return_def)
  with x(2) rs show ?case by (cases x) simp_all
qed (simp add: t_return_def)

lemma catches_prepared: "t_each (\<lambda>ev. t_catch (prepare env ev)) evs st = (r, st') \<Longrightarrow> \<exists>ps. r = Inr ps \<and> length ps = length evs"
proof (induction evs arbitrary: st r st')
  case (Cons ev evs)
  obtain q st1 where q: "t_catch (prepare env ev) st = (q, st1)" by fastforce
  then obtain x where x: "q = Inr x" by (auto simp: t_catch_def split: prod.splits)
  obtain q' st2 where q': "t_each (\<lambda>ev. t_catch (prepare env ev)) evs st1 = (q', st2)" by fastforce
  from Cons.IH [OF q'] obtain ps where "q' = Inr ps" "length ps = length evs" by blast
  with Cons.prems q x q' show ?case by (auto simp: t_bind_def t_return_def)
qed (simp add: t_return_def)

lemma append_batch_ids:
  assumes "append_batch env evs st = (r, st')"
  shows "case r of Inr rs \<Rightarrow> length rs = length evs \<and> event_ids st' = event_ids st @ acknowledged rs
    | Inl _ \<Rightarrow> event_ids st' = event_ids st"
proof -
  obtain q st1 where q: "t_each (\<lambda>ev. t_catch (prepare env ev)) evs st = (q, st1)" by fastforce
  from catches_prepared [OF q] obtain ps where ps: "q = Inr ps" "length ps = length evs" by blast
  have "frames (t_each (\<lambda>ev. t_catch (prepare env ev)) evs)" by (intro frames_each frames_catch frames_prepare)
  from frames_ids [OF this q] have 1: "event_ids st1 = event_ids st" .
  from assms q ps(1) have "transaction env (t_each (append_slot env) ps) st1 = (r, st')"
    by (simp add: append_batch_def t_bind_def)
  from transaction_run [OF this] show ?thesis
  proof (elim disjE exE conjE)
    fix st2 x assume "ts_db st2 = ts_db st1" "t_each (append_slot env) ps st2 = (r, st')" "r = Inr x"
    with slots_ids [of env ps st2 r st'] ps(2) 1 show ?thesis by (auto simp: event_ids_def)
  qed (use 1 in \<open>simp add: event_ids_def\<close>)
qed

lemma batch_results_ids:
  assumes "batch_results env evs st = (rs, st')" "evs \<noteq> []"
  shows "length rs = length evs \<and> event_ids st' = event_ids st @ acknowledged rs"
proof (cases "\<exists>ev. evs = [ev]")
  case True
  with assms show ?thesis using append_event_ids by (auto simp: batch_results_def split: prod.splits)
next
  case False
  with assms(2) obtain a b l where evs: "evs = a # b # l" by (metis neq_Nil_conv)
  obtain r st1 where r: "append_batch env evs st = (r, st1)" by fastforce
  from append_batch_ids [OF this] assms r evs show ?thesis
    by (auto simp: batch_results_def split: sum.splits)
qed

section \<open>Every caller is answered\<close>

definition append_cmd :: "new_event \<times> nat option \<Rightarrow> 'r cmd" where
  "append_cmd = (\<lambda>(ev, t). CmdAppend ev t)"

definition writer_pending :: "'r writer \<Rightarrow> 'r cmd list" where
  "writer_pending w = (case wl_next w of None \<Rightarrow> [] | Some c \<Rightarrow> [c]) @ wl_queue w"

lemma take_appends_splits:
  "take_appends n q = (b, nx, rest) \<Longrightarrow>
   q = map append_cmd b @ (case nx of None \<Rightarrow> [] | Some c \<Rightarrow> [c]) @ rest \<and> length b \<le> n"
  by (induction n q arbitrary: b nx rest rule: take_appends.induct) (auto simp: append_cmd_def split: prod.splits)

lemma deliver_tickets:
  "length rs = length batch \<Longrightarrow> map fst (deliver (map snd batch) rs) = concat (map tickets (map append_cmd batch))"
proof (induction batch arbitrary: rs)
  case (Cons x batch)
  then obtain r rs' where "rs = r # rs'" by (cases rs) auto
  with Cons show ?case by (cases x) (auto simp: deliver_def tickets_def append_cmd_def split: option.split)
qed (simp add: deliver_def)

text \<open>A turn that appends: consecutive commands, and exactly what they were answered.\<close>

definition commits_batch :: "'r writer \<Rightarrow> 'r writer \<Rightarrow> bool" where
  "commits_batch w w' \<longleftrightarrow> (\<exists>batch rs. writer_pending w = map append_cmd batch @ writer_pending w' \<and> length batch \<le> max_batch \<and>
     length rs = length batch \<and> wl_answers w' = wl_answers w @ deliver (map snd batch) rs \<and>
     event_ids (wl_store w') = event_ids (wl_store w) @ acknowledged rs)"

lemma handle_append:
  assumes "wl_next w = None" "wl_open w"
  shows "commits_batch (w\<lparr>wl_queue := CmdAppend ev t # wl_queue w\<rparr>) (writer_handle env (CmdAppend ev t) w) \<and>
    wl_open (writer_handle env (CmdAppend ev t) w) \<and> length (wl_queue (writer_handle env (CmdAppend ev t) w)) \<le> length (wl_queue w)"
proof -
  obtain b nx rest where b: "take_appends (max_batch - 1) (wl_queue w) = (b, nx, rest)" by (metis prod_cases3)
  obtain rs st' where rs: "batch_results env (map fst ((ev, t) # b)) (wl_store w) = (rs, st')" by fastforce
  have res: "length rs = length ((ev, t) # b)" "event_ids st' = event_ids (wl_store w) @ acknowledged rs"
    using batch_results_ids [OF rs] by simp_all
  from take_appends_splits [OF b] have q: "wl_queue w = map append_cmd b @ (case nx of None \<Rightarrow> [] | Some c \<Rightarrow> [c]) @ rest"
    and len: "length ((ev, t) # b) \<le> max_batch" by (simp_all add: max_batch_def)
  have h: "writer_handle env (CmdAppend ev t) w =
      w\<lparr>wl_queue := rest, wl_next := nx, wl_store := st', wl_answers := wl_answers w @ deliver (map snd ((ev, t) # b)) rs\<rparr>"
    using b rs by (simp add: writer_handle_def run_batch_of_def)
  have "commits_batch (w\<lparr>wl_queue := CmdAppend ev t # wl_queue w\<rparr>) (writer_handle env (CmdAppend ev t) w)"
    unfolding commits_batch_def h
    by (intro exI [of _ "(ev, t) # b"] exI [of _ rs])
      (use q len res assms in \<open>simp add: writer_pending_def append_cmd_def\<close>)
  moreover have "length rest \<le> length (wl_queue w)" by (simp add: q)
  ultimately show ?thesis using assms(2) by (simp add: h)
qed

definition writer_answered :: "'r cmd list \<Rightarrow> 'r writer \<Rightarrow> bool" where
  "writer_answered cs w \<longleftrightarrow> map fst (wl_answers w) @ concat (map tickets (writer_pending w)) = concat (map tickets cs) \<and>
     length (wl_queue w) \<le> queue_capacity \<and> (\<not> wl_open w \<longrightarrow> writer_pending w = [])"

lemma commits_answered:
  fixes w :: "'r writer"
  assumes "commits_batch w w'" "writer_answered cs w" "wl_open w'" "length (wl_queue w') \<le> length (wl_queue w)"
  shows "writer_answered cs w'"
proof -
  from assms(1) obtain batch rs where "writer_pending w = map append_cmd batch @ writer_pending w'" "length rs = length batch"
    "wl_answers w' = wl_answers w @ deliver (map snd batch) rs" by (auto simp: commits_batch_def)
  moreover from this(2) have "map fst (deliver (map snd batch) rs :: (nat \<times> 'r answer) list) =
      concat (map tickets (map append_cmd batch :: 'r cmd list))" by (rule deliver_tickets)
  ultimately show ?thesis using assms(2-4) by (simp add: writer_answered_def)
qed

text \<open>The turn as its first command sees it: taken from the queue or held back.\<close>

lemma turn_cases:
  assumes "writer_turn env w = Some w'"
  obtains c v where "wl_open v" "wl_next v = None" "writer_pending w = c # wl_queue v" "wl_answers v = wl_answers w"
    "wl_store v = wl_store w" "length (wl_queue v) \<le> length (wl_queue w)" "wl_open w" "w' = writer_handle env c v"
proof (cases "wl_next w")
  case None
  with assms obtain c q where "wl_open w" "wl_queue w = c # q" "w' = writer_handle env c (w\<lparr>wl_queue := q\<rparr>)"
    by (auto simp: writer_turn_def split: if_splits list.splits)
  with None show ?thesis by (intro that [of "w\<lparr>wl_queue := q\<rparr>" c]) (simp_all add: writer_pending_def)
next
  case (Some c)
  with assms have "wl_open w" "w' = writer_handle env c (w\<lparr>wl_next := None\<rparr>)"
    by (auto simp: writer_turn_def split: if_splits)
  with Some show ?thesis by (intro that [of "w\<lparr>wl_next := None\<rparr>" c]) (simp_all add: writer_pending_def)
qed

lemma turn_appends:
  assumes "writer_turn env w = Some w'" "writer_pending w = CmdAppend ev t # cs"
  shows "commits_batch w w' \<and> wl_open w' \<and> length (wl_queue w') \<le> length (wl_queue w)"
  using assms(1)
proof (rule turn_cases)
  fix c v assume v: "wl_open v" "wl_next v = None" "writer_pending w = c # wl_queue v" "wl_answers v = wl_answers w"
    "wl_store v = wl_store w" "length (wl_queue v) \<le> length (wl_queue w)" "w' = writer_handle env c v"
  with assms(2) have c: "c = CmdAppend ev t" by simp
  from handle_append [OF v(2,1), of ev t env] v c show ?thesis
    by (auto simp: commits_batch_def writer_pending_def [of "v\<lparr>wl_queue := _\<rparr>"])
qed

lemma closed_tickets: "map (fst \<circ> (\<lambda>n. (n, Closed))) ts = ts"
  by (induction ts) simp_all

lemma turn_answered:
  assumes "writer_turn env w = Some w'" "writer_answered cs w"
  shows "writer_answered cs w'"
  using assms(1)
proof (rule turn_cases)
  fix c v assume v: "wl_open v" "wl_next v = None" "writer_pending w = c # wl_queue v" "wl_answers v = wl_answers w"
    "wl_store v = wl_store w" "length (wl_queue v) \<le> length (wl_queue w)" "wl_open w" "w' = writer_handle env c v"
  show ?thesis
  proof (cases c)
    case (CmdAppend ev t)
    with turn_appends [OF assms(1), of ev t "wl_queue v"] v(3) commits_answered assms(2) show ?thesis by blast
  next
    case (CmdRun job n)
    with v assms(2) show ?thesis by (auto simp: writer_answered_def writer_handle_def writer_pending_def tickets_def split: prod.split)
  next
    case CmdStop
    with v assms(2) show ?thesis by (simp add: writer_answered_def writer_handle_def writer_pending_def tickets_def closed_tickets)
  qed
qed

lemma runs_answered: "writer_runs env st cs w \<Longrightarrow> writer_answered cs w"
proof (induction rule: writer_runs.induct)
  case start
  show ?case by (simp add: writer_answered_def writer_spawn_def writer_pending_def)
next
  case (send cs w c w')
  then show ?case by (auto simp: writer_answered_def writer_send_def writer_pending_def split: if_splits)
qed (rule turn_answered)

text \<open>
  C10: The writer answers every caller once, in the order it was sent to, with what it did: at any
  moment the answers given are those of the first commands taken and the others are still waiting,
  none when the writer is closed; its queue is bounded; and a turn that appends takes consecutive
  commands, up to the size of a batch, answers each with its own result, and adds to the store
  exactly the events whose ids it answers, in order, so an acknowledged event is committed and one
  answered with an error is not.
\<close>

theorem writer_answers:
  assumes "writer_runs env st cs w"
  shows "map fst (wl_answers w) @ concat (map tickets (writer_pending w)) = concat (map tickets cs) \<and>
    length (wl_queue w) \<le> queue_capacity \<and> (\<not> wl_open w \<longrightarrow> writer_pending w = []) \<and>
    (\<forall>w' ev t later. writer_turn env w = Some w' \<and> writer_pending w = CmdAppend ev t # later \<longrightarrow> commits_batch w w')"
  using runs_answered [OF assms] turn_appends [of env w] unfolding writer_answered_def by blast

text \<open>Two jobs and a stop between them: the second caller hears that the writer is closed.\<close>

definition demo_writer :: "nat writer" where
  "demo_writer = (writer_spawn store_new)\<lparr>wl_queue := [flush_cmd 5 1, CmdStop, flush_cmd 6 2]\<rparr>"

lemma demo_sent: "writer_runs env store_new [flush_cmd 5 1, CmdStop, flush_cmd 6 2] demo_writer"
proof -
  let ?w = "\<lambda>q. (writer_spawn store_new :: nat writer)\<lparr>wl_queue := q\<rparr>"
  have "writer_runs env store_new [] (?w [])" using writer_runs.start [of env store_new] by (simp add: writer_spawn_def)
  from writer_runs.send [OF this, of "flush_cmd 5 1" "?w [flush_cmd 5 1]"]
  have "writer_runs env store_new [flush_cmd 5 1] (?w [flush_cmd 5 1])"
    by (simp add: writer_send_def writer_spawn_def queue_capacity_def)
  from writer_runs.send [OF this, of CmdStop "?w [flush_cmd 5 1, CmdStop]"]
  have "writer_runs env store_new [flush_cmd 5 1, CmdStop] (?w [flush_cmd 5 1, CmdStop])"
    by (simp add: writer_send_def writer_spawn_def queue_capacity_def)
  from writer_runs.send [OF this, of "flush_cmd 6 2" demo_writer] show ?thesis
    by (simp add: writer_send_def writer_spawn_def queue_capacity_def demo_writer_def)
qed

lemma writer_answers_witness:
  "\<exists>w. writer_runs \<lparr>se_inline_max = 9, se_sha256 = id, se_print = \<lambda>_. [], se_root = [], se_id = \<lambda>_. [], se_now = \<lambda>_. [], se_fault = \<lambda>_. None\<rparr>
      store_new [flush_cmd 5 1, CmdStop, flush_cmd 6 2] w \<and> map fst (wl_answers w) = [1, 2 :: nat] \<and>
      wl_answers w = [(1, Ran (5 :: nat)), (2, Closed)]"
proof -
  let ?env = "\<lparr>se_inline_max = 9, se_sha256 = id, se_print = \<lambda>_. [], se_root = [], se_id = \<lambda>_. [], se_now = \<lambda>_. [], se_fault = \<lambda>_. None\<rparr>"
  let ?v = "demo_writer\<lparr>wl_queue := [CmdStop, flush_cmd 6 2], wl_answers := [(1, Ran 5)]\<rparr>"
  let ?w = "demo_writer\<lparr>wl_open := False, wl_queue := [], wl_answers := [(1, Ran 5), (2, Closed)]\<rparr>"
  have "writer_runs ?env store_new [flush_cmd 5 1, CmdStop, flush_cmd 6 2] ?v"
    by (rule writer_runs.turn [OF demo_sent])
      (simp add: demo_writer_def writer_turn_def writer_spawn_def writer_handle_def flush_cmd_def)
  then have run: "writer_runs ?env store_new [flush_cmd 5 1, CmdStop, flush_cmd 6 2] ?w"
    by (rule writer_runs.turn)
      (simp add: demo_writer_def writer_turn_def writer_spawn_def writer_handle_def flush_cmd_def tickets_def)
  from writer_answers [OF run] have "map fst (wl_answers ?w) = [1, 2]"
    by (simp add: writer_pending_def flush_cmd_def tickets_def demo_writer_def writer_spawn_def)
  with run show ?thesis by (intro exI [of _ ?w]) simp
qed

end
