(* ===== verification/Stats.thy ===== *)
theory Stats
  imports Trace_Queries Workspace_Index
begin

text \<open>
  \<open>crates/core/src/stats\<close>: time bounds as users type them (\<open>range.rs\<close>), the cost of a call
  (\<open>cost.rs\<close>) and the methods \<open>stats.tokens\<close>, \<open>stats.calls\<close>, \<open>stats.reprice\<close> and \<open>stats.outcomes\<close>
  (\<open>rpc.rs\<close>) over the queries of the store. The \<open>time\<close> crate is the record \<open>time_lib\<close> (an arithmetic
  that leaves its range panics, which is a result here), the arithmetic of \<open>f64\<close> the record
  \<open>float_lib\<close>.
\<close>

section \<open>Bounds\<close>

record ('t, 'd) time_lib =
  tb_minus :: "'t \<Rightarrow> int \<Rightarrow> 't option"
  tb_date :: "string \<Rightarrow> 'd option"
  tb_next_day :: "'d \<Rightarrow> 'd option"
  tb_midnight :: "'d \<Rightarrow> int \<Rightarrow> 't"
  tb_rfc3339 :: "string \<Rightarrow> 't option"
  tb_format_utc :: "'t \<Rightarrow> string option"
  tb_debug :: "string \<Rightarrow> string"

datatype bound_kind = Since | Until

text \<open>A value, a refusal with its message, or a panic of the thread.\<close>

datatype 'a outcome_of = Value 'a | Refused string | Panicked string

datatype age = AgeSecs int | NotAnAge | AgePanic

definition unit_secs :: "string \<Rightarrow> int option" where
  "unit_secs u =
     (if u = ''m'' then Some 60 else if u = ''h'' then Some 3600 else if u = ''d'' then Some 86400
      else if u = ''w'' then Some (7 * 86400) else None)"

text \<open>\<open>split_at\<close> panics inside a character; a number or a product that does not fit is not an age.\<close>

definition parse_age :: "string \<Rightarrow> age" where
  "parse_age t =
     (if t = [] then NotAnAge
      else if \<not> is_char_boundary t (length t - 1) then AgePanic
      else
        (let digits = butlast t in
         if digits = [] \<or> \<not> list_all ascii_digit digits then NotAnAge
         else case (digits_value 0 digits, unit_secs [last t]) of
             (Some n, Some u) \<Rightarrow> if n < 2 ^ 63 \<and> int n * u < 2 ^ 63 then AgeSecs (int n * u) else NotAnAge
           | _ \<Rightarrow> NotAnAge))"

definition formatted :: "('t, 'd) time_lib \<Rightarrow> 't \<Rightarrow> string outcome_of" where
  "formatted lib t = (case tb_format_utc lib t of Some s \<Rightarrow> Value s | None \<Rightarrow> Panicked ''local datetime out of valid range'')"

definition parse_bound :: "('t, 'd) time_lib \<Rightarrow> string \<Rightarrow> bound_kind \<Rightarrow> 't \<Rightarrow> int \<Rightarrow> string outcome_of" where
  "parse_bound lib input kind now offset =
     (let t = trim input in
      case parse_age t of
        AgePanic \<Rightarrow> Panicked ''failed to slice string''
      | AgeSecs s \<Rightarrow>
          (case tb_minus lib now s of Some x \<Rightarrow> formatted lib x | None \<Rightarrow> Panicked ''resulting value is out of range'')
      | NotAnAge \<Rightarrow>
          (case tb_date lib t of
             Some d \<Rightarrow>
               (case (case kind of Since \<Rightarrow> Some d | Until \<Rightarrow> tb_next_day lib d) of
                  Some day \<Rightarrow> formatted lib (tb_midnight lib day offset)
                | None \<Rightarrow> Refused (''date out of range: '' @ t))
           | None \<Rightarrow>
               (case tb_rfc3339 lib t of
                  Some x \<Rightarrow> formatted lib x
                | None \<Rightarrow> Refused (''cannot parse '' @ tb_debug lib t
                    @ '': use an age like 7d/12h/30m/2w, a date YYYY-MM-DD, or an RFC 3339 timestamp''))))"

definition two_digits :: "nat \<Rightarrow> string" where
  "two_digits n = (if n < 10 then ''0'' @ show_nat n else show_nat n)"

definition format_offset :: "int \<Rightarrow> string" where
  "format_offset secs =
     (let a = nat \<bar>secs\<bar> in (if secs < 0 then ''-'' else ''+'') @ two_digits (a div 3600) @ '':'' @ two_digits (a mod 3600 div 60))"

section \<open>Costs\<close>

record 'f float_lib =
  fp_of :: "int \<Rightarrow> 'f"
  fp_mul :: "'f \<Rightarrow> 'f \<Rightarrow> 'f"
  fp_add :: "'f \<Rightarrow> 'f \<Rightarrow> 'f"
  fp_div :: "'f \<Rightarrow> 'f \<Rightarrow> 'f"
  fp_round_i64 :: "'f \<Rightarrow> int"
  fp_tenth :: 'f
  fp_five_quarters :: 'f

record 'f pricing =
  pz_input :: 'f
  pz_output :: 'f
  pz_cache_read :: "'f option"
  pz_cache_write :: "'f option"

definition cache_read_price :: "'f float_lib \<Rightarrow> 'f pricing \<Rightarrow> 'f" where
  "cache_read_price fl p = (case pz_cache_read p of Some x \<Rightarrow> x | None \<Rightarrow> fp_mul fl (pz_input p) (fp_tenth fl))"

definition cache_write_price :: "'f float_lib \<Rightarrow> 'f pricing \<Rightarrow> 'f" where
  "cache_write_price fl p = (case pz_cache_write p of Some x \<Rightarrow> x | None \<Rightarrow> fp_mul fl (pz_input p) (fp_five_quarters fl))"

definition first_party :: "'f float_lib \<Rightarrow> 'f \<Rightarrow> 'f \<Rightarrow> 'f pricing" where
  "first_party fl i out =
     \<lparr>pz_input = i, pz_output = out, pz_cache_read = Some (fp_mul fl i (fp_tenth fl)),
      pz_cache_write = Some (fp_mul fl i (fp_five_quarters fl))\<rparr>"

text \<open>The usage is input, output, cache reads and cache writes, as the store has it.\<close>

definition cost_micros :: "'f float_lib \<Rightarrow> nat \<times> nat \<times> nat \<times> nat \<Rightarrow> 'f pricing \<Rightarrow> int" where
  "cost_micros fl = (\<lambda>(i, out, cr, cc) p.
     fp_round_i64 fl
       (fp_add fl (fp_add fl (fp_add fl (fp_mul fl (fp_of fl (int i)) (pz_input p)) (fp_mul fl (fp_of fl (int out)) (pz_output p)))
          (fp_mul fl (fp_of fl (int cr)) (cache_read_price fl p)))
          (fp_mul fl (fp_of fl (int cc)) (cache_write_price fl p))))"

definition price_call :: "'f float_lib \<Rightarrow> (string \<rightharpoonup> 'f pricing) \<Rightarrow> string \<Rightarrow> nat \<times> nat \<times> nat \<times> nat \<Rightarrow> int option" where
  "price_call fl table model usage = map_option (cost_micros fl usage) (table model)"

definition micros_to_usd :: "'f float_lib \<Rightarrow> int \<Rightarrow> 'f" where
  "micros_to_usd fl micros = fp_div fl (fp_of fl micros) (fp_of fl 1000000)"

definition usd_to_micros :: "'f float_lib \<Rightarrow> 'f \<Rightarrow> int" where
  "usd_to_micros fl usd = fp_round_i64 fl (fp_mul fl usd (fp_of fl 1000000))"

section \<open>The results\<close>

record 'f token_bucket =
  bt_key :: "string option"
  bt_label :: "string option"
  bt_calls :: nat
  bt_input :: nat
  bt_output :: nat
  bt_cache_read :: nat
  bt_cache_creation :: nat
  bt_cost_usd :: 'f
  bt_unpriced_calls :: nat

definition bucket :: "'f float_lib \<Rightarrow> string option \<Rightarrow> string option \<Rightarrow> usage_totals \<Rightarrow> 'f token_bucket" where
  "bucket fl key label t =
     \<lparr>bt_key = key, bt_label = label, bt_calls = ut_calls t, bt_input = ut_input t, bt_output = ut_output t,
      bt_cache_read = ut_cache_read t, bt_cache_creation = ut_cache_creation t, bt_cost_usd = micros_to_usd fl (ut_cost t),
      bt_unpriced_calls = ut_unpriced t\<rparr>"

definition grouped_bucket :: "'f float_lib \<Rightarrow> grouped_totals \<Rightarrow> 'f token_bucket" where
  "grouped_bucket fl g = bucket fl (Some (gt_key g)) (gt_label g) (gt_totals g)"

datatype stats_group = GroupDay | GroupModel | GroupSession | GroupWorkspace | GroupKind

definition default_groups :: "stats_group list" where
  "default_groups = [GroupModel, GroupDay, GroupSession]"

record 'f token_stats_result =
  tq_since :: "string option"
  tq_until :: "string option"
  tq_tz :: string
  tq_totals :: "'f token_bucket"
  tq_by_model :: "'f token_bucket list"
  tq_by_day :: "'f token_bucket list"
  tq_by_session :: "'f token_bucket list"
  tq_by_workspace :: "'f token_bucket list"
  tq_by_kind :: "'f token_bucket list"

text \<open>SQLite's dates, and which row of a group its bare columns come from.\<close>

record sql_lib =
  qb_date :: "int \<Rightarrow> string \<Rightarrow> string option"
  qb_pick :: "call_row list \<Rightarrow> call_row"

definition breakdown ::
  "'f float_lib \<Rightarrow> sql_lib \<Rightarrow> store_env \<Rightarrow> call_filter \<Rightarrow> stats_group list \<Rightarrow> stats_group \<Rightarrow> group_by \<Rightarrow>
   'f token_bucket list trace_op" where
  "breakdown fl sql env f groups g by' =
     (if g \<in> set groups
      then t_bind (stats_by env (qb_date sql) (qb_pick sql) f by') (\<lambda>gs. t_return (map (grouped_bucket fl) gs))
      else t_return [])"

definition token_stats ::
  "'f float_lib \<Rightarrow> sql_lib \<Rightarrow> store_env \<Rightarrow> call_filter \<Rightarrow> int \<Rightarrow> stats_group list \<Rightarrow> 'f token_stats_result trace_op" where
  "token_stats fl sql env f offset groups =
     t_bind (call_stats env f) (\<lambda>totals.
     t_bind (if cf_session f \<noteq> None then t_return [] else breakdown fl sql env f groups GroupSession ByCallSession) (\<lambda>sessions.
     t_bind (breakdown fl sql env f groups GroupModel ByModel) (\<lambda>models.
     t_bind (breakdown fl sql env f groups GroupDay (ByDay offset)) (\<lambda>days.
     t_bind (breakdown fl sql env f groups GroupWorkspace ByWorkspace) (\<lambda>workspaces.
     t_bind (breakdown fl sql env f groups GroupKind ByKind) (\<lambda>kinds.
       t_return \<lparr>tq_since = cf_since f, tq_until = cf_until f, tq_tz = format_offset offset,
         tq_totals = bucket fl None None totals, tq_by_model = models, tq_by_day = days, tq_by_session = sessions,
         tq_by_workspace = workspaces, tq_by_kind = kinds\<rparr>))))))"

record 'f stats_call =
  sa_call_id :: string
  sa_started_at :: string
  sa_session_id :: string
  sa_session_title :: "string option"
  sa_workspace_id :: "string option"
  sa_agent_id :: string
  sa_kind :: string
  sa_model :: string
  sa_effort :: "string option"
  sa_status :: string
  sa_stop_reason :: "string option"
  sa_usage :: "nat \<times> nat \<times> nat \<times> nat"
  sa_cost_usd :: "'f option"
  sa_total_ms :: "nat option"
  sa_request_event_id :: string

definition stats_call_of :: "'f float_lib \<Rightarrow> call_list_row \<Rightarrow> 'f stats_call" where
  "stats_call_of fl row =
     (let c = cl_call row in
      \<lparr>sa_call_id = kr_id c, sa_started_at = kr_started_at c, sa_session_id = kr_session c,
       sa_session_title = cl_session_title row, sa_workspace_id = cl_workspace_id row, sa_agent_id = kr_agent c,
       sa_kind = call_kind_str (kr_kind c), sa_model = kr_model c, sa_effort = kr_effort c,
       sa_status = run_status_str (kr_status c), sa_stop_reason = kr_stop_reason c,
       sa_usage = (case call_usage c of Inr (Some u) \<Rightarrow> u | _ \<Rightarrow> (0, 0, 0, 0)),
       sa_cost_usd = map_option (micros_to_usd fl) (kr_cost_micros c), sa_total_ms = kr_total_ms c,
       sa_request_event_id = kr_request_event c\<rparr>)"

section \<open>The methods\<close>

text \<open>
  What a method runs with: the clock, the offset it was given or what the store says of the local
  one, the prices, and the store's environment.
\<close>

record ('t, 'd, 'f) stats_service =
  sv_time :: "('t, 'd) time_lib"
  sv_float :: "'f float_lib"
  sv_sql :: sql_lib
  sv_env :: store_env
  sv_now :: 't
  sv_offset :: "int option"
  sv_local_secs :: int
  sv_pricing :: "rpc_error + (string \<rightharpoonup> 'f pricing)"

type_synonym 'a stats_op = "trace_store \<Rightarrow> ((rpc_error + 'a) outcome_of) \<times> trace_store"

definition v_return :: "'a \<Rightarrow> 'a stats_op" where
  "v_return x = (\<lambda>st. (Value (Inr x), st))"

definition v_bind :: "'a stats_op \<Rightarrow> ('a \<Rightarrow> 'b stats_op) \<Rightarrow> 'b stats_op" where
  "v_bind m f = (\<lambda>st. case m st of
     (Value (Inr x), st') \<Rightarrow> f x st'
   | (Value (Inl e), st') \<Rightarrow> (Value (Inl e), st')
   | (Refused s, st') \<Rightarrow> (Refused s, st')
   | (Panicked s, st') \<Rightarrow> (Panicked s, st'))"

definition v_lift :: "(rpc_error + 'a) \<Rightarrow> 'a stats_op" where
  "v_lift r = (\<lambda>st. (Value r, st))"

definition v_store :: "'a trace_op \<Rightarrow> 'a stats_op" where
  "v_store m = (\<lambda>st. case m st of (Inl e, st') \<Rightarrow> (Value (Inl (rpc_of_trace_error e)), st') | (Inr x, st') \<Rightarrow> (Value (Inr x), st'))"

definition v_bound :: "string outcome_of \<Rightarrow> string stats_op" where
  "v_bound b = (\<lambda>st. (case b of Value s \<Rightarrow> Value (Inr s) | Refused m \<Rightarrow> Value (Inl (invalid_params m)) | Panicked m \<Rightarrow> Panicked m, st))"

definition service_offset :: "('t, 'd, 'f) stats_service \<Rightarrow> int stats_op" where
  "service_offset sv =
     (case sv_offset sv of
        Some o' \<Rightarrow> v_return o'
      | None \<Rightarrow> v_bind (v_store (t_query (sv_env sv) (\<lambda>_. ()))) (\<lambda>_.
          v_return (if \<bar>sv_local_secs sv\<bar> \<le> 93599 then sv_local_secs sv else 0)))"

definition opt_bound :: "('t, 'd, 'f) stats_service \<Rightarrow> string option \<Rightarrow> bound_kind \<Rightarrow> int \<Rightarrow> string option stats_op" where
  "opt_bound sv t kind offset =
     (case t of
        None \<Rightarrow> v_return None
      | Some x \<Rightarrow> v_bind (v_bound (parse_bound (sv_time sv) x kind (sv_now sv) offset)) (\<lambda>s. v_return (Some s)))"

definition stats_filter ::
  "('t, 'd, 'f) stats_service \<Rightarrow> string option \<Rightarrow> string option \<Rightarrow> string option \<Rightarrow> string option \<Rightarrow> string option \<Rightarrow> int \<Rightarrow>
   call_filter stats_op" where
  "stats_filter sv since until session workspace model offset =
     v_bind (opt_bound sv since Since offset) (\<lambda>s.
     v_bind (opt_bound sv until Until offset) (\<lambda>u.
       v_return \<lparr>cf_session = session, cf_agent = None, cf_model = model, cf_status = None, cf_since = s, cf_until = u,
         cf_workspace = workspace\<rparr>))"

record stats_params =
  pq_since :: "string option"
  pq_until :: "string option"
  pq_session :: "string option"
  pq_workspace :: "string option"
  pq_model :: "string option"

definition stats_tokens :: "('t, 'd, 'f) stats_service \<Rightarrow> stats_params \<Rightarrow> stats_group list \<Rightarrow> 'f token_stats_result stats_op" where
  "stats_tokens sv p group_by =
     v_bind (service_offset sv) (\<lambda>offset.
     v_bind (stats_filter sv (pq_since p) (pq_until p) (pq_session p) (pq_workspace p) None offset) (\<lambda>f.
       v_store (token_stats (sv_float sv) (sv_sql sv) (sv_env sv) f offset
         (if group_by = [] then default_groups else group_by))))"

definition calls_limit :: "nat option \<Rightarrow> nat" where
  "calls_limit l = max 1 (min 1000 (case l of Some n \<Rightarrow> n | None \<Rightarrow> 100))"

definition stats_calls ::
  "('t, 'd, 'f) stats_service \<Rightarrow> stats_params \<Rightarrow> nat option \<Rightarrow> nat \<Rightarrow> ('f stats_call list \<times> nat) stats_op" where
  "stats_calls sv p limit skip =
     v_bind (service_offset sv) (\<lambda>offset.
     v_bind (stats_filter sv (pq_since p) (pq_until p) (pq_session p) (pq_workspace p) None offset) (\<lambda>f.
     v_bind (v_store (list_calls_page (sv_env sv) f (calls_limit limit) skip)) (\<lambda>(rows, n).
       v_return (map (stats_call_of (sv_float sv)) rows, n))))"

definition stats_reprice :: "('t, 'd, 'f) stats_service \<Rightarrow> stats_params \<Rightarrow> reprice_report stats_op" where
  "stats_reprice sv p =
     v_bind (v_lift (sv_pricing sv)) (\<lambda>table.
     v_bind (service_offset sv) (\<lambda>offset.
     v_bind (stats_filter sv (pq_since p) (pq_until p) (pq_session p) None (pq_model p) offset) (\<lambda>f.
       v_store (reprice (sv_env sv) f (price_call (sv_float sv) table)))))"

definition stats_outcomes :: "('t, 'd, 'f) stats_service \<Rightarrow> stats_params \<Rightarrow> outcome_stats stats_op" where
  "stats_outcomes sv p =
     v_bind (service_offset sv) (\<lambda>offset.
     v_bind (stats_filter sv (pq_since p) (pq_until p) None (pq_workspace p) None offset) (\<lambda>f.
       v_store (outcome_stats_query (sv_env sv)
         \<lparr>of_since = cf_since f, of_until = cf_until f, of_workspace = cf_workspace f\<rparr>)))"

text \<open>\<open>blocking\<close>: a panic of the task is an internal error.\<close>

definition stats_blocking :: "'a stats_op \<Rightarrow> trace_store \<Rightarrow> (rpc_error + 'a) \<times> trace_store" where
  "stats_blocking m st =
     (case m st of
        (Value r, st') \<Rightarrow> (r, st')
      | (Refused e, st') \<Rightarrow> (Inl (invalid_params e), st')
      | (Panicked e, st') \<Rightarrow> (Inl (internal_error (''stats task failed: '' @ e)), st'))"

section \<open>Breakdowns add up\<close>

lemma sql_sum_from_exact: "sql_sum_from a xs = Inr n \<Longrightarrow> n = a + sum_list xs"
  by (induction xs arbitrary: a) (fastforce simp: add.assoc split: if_splits)+

lemma sql_sum_exact: "sql_sum f rows = Inr n \<Longrightarrow> n = sum_list (List.map_filter f rows)"
  using sql_sum_from_exact by (fastforce simp: sql_sum_def)

lemma sum_map_filter: "sum_list (List.map_filter f rows) = (\<Sum>r\<leftarrow>rows. case f r of Some x \<Rightarrow> x | None \<Rightarrow> (0 :: int))"
  by (induction rows) (auto simp: map_filter_simps split: option.split)

definition tokens_in :: "(call_row \<Rightarrow> nat option) \<Rightarrow> call_row list \<Rightarrow> nat" where
  "tokens_in f rows = (\<Sum>r\<leftarrow>rows. case f r of Some x \<Rightarrow> x | None \<Rightarrow> 0)"

lemma sum_tokens_exact:
  assumes "sum_tokens f rows = Inr n"
  shows "n = tokens_in f rows"
proof -
  from assms obtain m where "sql_sum (\<lambda>r. map_option int (f r)) rows = Inr m" "n = nat m"
    by (auto simp: sum_tokens_def res_bind_def split: sum.splits)
  moreover have "(\<Sum>r\<leftarrow>rows. case map_option int (f r) of Some x \<Rightarrow> x | None \<Rightarrow> 0) = int (tokens_in f rows)"
    by (induction rows) (auto simp: tokens_in_def split: option.split)
  ultimately show ?thesis using sql_sum_exact [of "\<lambda>r. map_option int (f r)" rows m] by (simp add: sum_map_filter)
qed

text \<open>The counts of a bucket, and of the rows it stands for.\<close>

definition counts :: "usage_totals \<Rightarrow> nat list" where
  "counts t = [ut_calls t, ut_input t, ut_output t, ut_cache_read t, ut_cache_creation t, ut_unpriced t]"

definition bucket_counts :: "'f token_bucket \<Rightarrow> nat list" where
  "bucket_counts b = [bt_calls b, bt_input b, bt_output b, bt_cache_read b, bt_cache_creation b, bt_unpriced_calls b]"

definition row_counts :: "call_row \<Rightarrow> nat list" where
  "row_counts r =
     [1, case kr_input_tokens r of Some x \<Rightarrow> x | None \<Rightarrow> 0, case kr_output_tokens r of Some x \<Rightarrow> x | None \<Rightarrow> 0,
      case kr_cache_read_tokens r of Some x \<Rightarrow> x | None \<Rightarrow> 0, case kr_cache_creation_tokens r of Some x \<Rightarrow> x | None \<Rightarrow> 0,
      if unpriced_call r then 1 else 0]"

lemma totals_exact:
  assumes "totals_of rows = Inr t" "i < 6"
  shows "counts t ! i = (\<Sum>r\<leftarrow>rows. row_counts r ! i)"
proof -
  have n: "length rows = (\<Sum>r\<leftarrow>rows. 1)" "sql_count unpriced_call rows = (\<Sum>r\<leftarrow>rows. if unpriced_call r then 1 else 0)"
    by (induction rows) (simp_all add: sql_count_def)
  from assms(1) have "counts t = [length rows, tokens_in kr_input_tokens rows, tokens_in kr_output_tokens rows,
      tokens_in kr_cache_read_tokens rows, tokens_in kr_cache_creation_tokens rows, sql_count unpriced_call rows]"
    by (auto simp: totals_of_def counts_def res_bind_def dest!: sum_tokens_exact split: sum.splits)
  with assms(2) n show ?thesis
    by (auto simp: less_Suc_eq numeral_eq_Suc tokens_in_def row_counts_def)
qed

lemma sum_one:
  fixes a :: nat
  shows "distinct ks \<Longrightarrow> k0 \<in> set ks \<Longrightarrow> (\<Sum>k\<leftarrow>ks. if k0 = k then a + g k else g k) = a + (\<Sum>k\<leftarrow>ks. g k)"
proof (induction ks)
  case (Cons k ks)
  show ?case
  proof (cases "k0 = k")
    case True
    then have "(\<Sum>k\<leftarrow>ks. if k0 = k then a + g k else g k) = (\<Sum>k\<leftarrow>ks. g k)"
      using Cons.prems(1) by (intro arg_cong [of _ _ sum_list] map_cong) auto
    with True show ?thesis by simp
  qed (use Cons in simp)
qed simp

lemma sum_groups:
  fixes f :: "'r \<Rightarrow> nat"
  assumes "distinct ks" "key ` set rows \<subseteq> set ks"
  shows "(\<Sum>k\<leftarrow>ks. \<Sum>r\<leftarrow>filter (\<lambda>r. key r = k) rows. f r) = (\<Sum>r\<leftarrow>rows. f r)"
  using assms(2)
proof (induction rows)
  case (Cons r rows)
  have "(\<Sum>k\<leftarrow>ks. \<Sum>x\<leftarrow>filter (\<lambda>x. key x = k) (r # rows). f x) =
      (\<Sum>k\<leftarrow>ks. if key r = k then f r + (\<Sum>x\<leftarrow>filter (\<lambda>x. key x = k) rows. f x) else \<Sum>x\<leftarrow>filter (\<lambda>x. key x = k) rows. f x)"
    by (intro arg_cong [of _ _ sum_list] map_cong) auto
  also have "\<dots> = f r + (\<Sum>k\<leftarrow>ks. \<Sum>x\<leftarrow>filter (\<lambda>x. key x = k) rows. f x)"
    using assms(1) Cons.prems by (intro sum_one) auto
  finally show ?case using Cons by simp
qed simp

lemma collected_all2: "collect (map f xs) = Inr ys \<Longrightarrow> list_all2 (\<lambda>x y. f x = Inr y) xs ys"
  by (induction xs arbitrary: ys) (auto simp: res_bind_def split: sum.splits)

lemma sum_order_by:
  fixes f :: "'r \<Rightarrow> nat"
  shows "(\<Sum>x\<leftarrow>order_by lt xs. f x) = (\<Sum>x\<leftarrow>xs. f x)"
proof -
  have "mset (map f (order_by lt xs)) = mset (map f xs)" by (simp add: mset_order_by)
  then show ?thesis by (metis sum_mset_sum_list)
qed

lemma query_run: "t_query env g st = (Inr x, st') \<Longrightarrow> x = g (ts_db st) \<and> ts_db st' = ts_db st"
  by (auto simp: t_query_def t_bind_def t_io_def t_read_def split: sum.splits prod.splits option.splits)

lemma stats_by_sums:
  assumes "stats_by env date pick f g st = (Inr gs, st')" "i < 6"
  shows "(\<Sum>x\<leftarrow>gs. counts (gt_totals x) ! i) = (\<Sum>r\<leftarrow>matching_calls f (ts_db st). row_counts r ! i) \<and> ts_db st' = ts_db st"
proof -
  let ?rows = "matching_calls f (ts_db st)" and ?key = "group_key date g (ts_db st)"
  let ?own = "\<lambda>k. filter (\<lambda>r. ?key r = k) ?rows"
  let ?one = "\<lambda>k. res_bind (totals_of (?own k)) (\<lambda>t. Inr (k,
            \<lparr>gt_key = (case k of Some s \<Rightarrow> s | None \<Rightarrow> []), gt_label = group_label g (ts_db st) (pick (?own k)), gt_totals = t\<rparr>))"
  from assms(1) obtain hs where hs: "collect (map ?one (remdups (map ?key ?rows))) = Inr hs"
    and gs: "gs = map snd (order_by (group_less g) hs)" "ts_db st' = ts_db st"
    by (auto simp: stats_by_def t_bind_def t_lift_def t_return_def Let_def dest!: query_run sym [of "Inr _"] split: prod.splits sum.splits)
  have "(\<Sum>h\<leftarrow>hs. counts (gt_totals (snd h)) ! i) = (\<Sum>k\<leftarrow>ks. \<Sum>r\<leftarrow>?own k. row_counts r ! i)"
    if "list_all2 (\<lambda>k h. ?one k = Inr h) ks hs" for ks
    using that
  proof (induction rule: list_all2_induct)
    case (Cons k ks h hs)
    then obtain t where "totals_of (?own k) = Inr t" "gt_totals (snd h) = t"
      by (auto simp: res_bind_def split: sum.splits)
    with Cons totals_exact [OF _ assms(2)] show ?case by simp
  qed simp
  from this [OF collected_all2 [OF hs]] have "(\<Sum>h\<leftarrow>hs. counts (gt_totals (snd h)) ! i) = (\<Sum>r\<leftarrow>?rows. row_counts r ! i)"
    by (simp only: sum_groups [OF distinct_remdups, of ?key ?rows "map ?key ?rows"] set_map set_remdups)
  then show ?thesis using gs by (simp add: comp_def sum_order_by)
qed

lemma breakdown_sums:
  assumes "breakdown fl sql env f groups g by' st = (Inr bs, st')" "i < 6"
  shows "(bs = [] \<or> (\<Sum>b\<leftarrow>bs. bucket_counts b ! i) = (\<Sum>r\<leftarrow>matching_calls f (ts_db st). row_counts r ! i)) \<and> ts_db st' = ts_db st"
proof (cases "g \<in> set groups")
  case True
  with assms(1) obtain gs where "stats_by env (qb_date sql) (qb_pick sql) f by' st = (Inr gs, st')" "bs = map (grouped_bucket fl) gs"
    by (auto simp: breakdown_def t_bind_def t_return_def split: prod.splits sum.splits)
  with stats_by_sums [OF this(1) assms(2)] show ?thesis
    by (simp add: comp_def bucket_counts_def grouped_bucket_def bucket_def counts_def)
qed (use assms in \<open>simp add: breakdown_def t_return_def\<close>)


text \<open>One call in the store.\<close>

definition demo_call_row :: call_row where
  "demo_call_row =
     \<lparr>kr_id = ''c'', kr_session = ''s'', kr_agent = ''a'', kr_step = ''t'', kr_request_event = ''e'', kr_response_event = None,
      kr_model = ''m'', kr_effort = None, kr_started_at = ''now'', kr_ended_at = None, kr_status = RunOk, kr_stop_reason = None,
      kr_http_status = None, kr_input_tokens = Some 7, kr_output_tokens = Some 2, kr_cache_read_tokens = Some 0,
      kr_cache_creation_tokens = Some 0, kr_cost_micros = None, kr_first_byte_ms = None, kr_total_ms = None,
      kr_request_bytes = None, kr_apprentice_applied = False, kr_kind = CallStep\<rparr>"

definition demo_floats :: "int float_lib" where
  "demo_floats = \<lparr>fp_of = id, fp_mul = (*), fp_add = (+), fp_div = (div), fp_round_i64 = id, fp_tenth = 0, fp_five_quarters = 1\<rparr>"

definition demo_stats :: "(trace_error + int token_stats_result) \<times> trace_store" where
  "demo_stats = token_stats demo_floats \<lparr>qb_date = \<lambda>_ t. Some t, qb_pick = hd\<rparr>
     \<lparr>se_inline_max = 9, se_sha256 = id, se_print = \<lambda>_. [], se_root = [], se_id = \<lambda>_. [], se_now = \<lambda>_. [], se_fault = \<lambda>_. None\<rparr>
     call_filter_all 0 [GroupModel] (store_new\<lparr>ts_db := db_empty\<lparr>db_calls := [demo_call_row]\<rparr>\<rparr>)"

lemma demo_stats_by_model: "case fst demo_stats of Inr s \<Rightarrow> map bt_input (tq_by_model s) = [7] | Inl _ \<Rightarrow> False"
  by code_simp


text \<open>A bound that ends in a character of two bytes makes the thread panic, where a message was meant.\<close>

lemma bound_panics: "parse_bound lib (''7'' @ [CHR 0xC3, CHR 0xA9]) kind now offset = Panicked ''failed to slice string''"
proof -
  have "trim (''7'' @ [CHR 0xC3, CHR 0xA9]) = ''7'' @ [CHR 0xC3, CHR 0xA9]" "parse_age (''7'' @ [CHR 0xC3, CHR 0xA9]) = AgePanic"
    by code_simp+
  then show ?thesis by (simp only: parse_bound_def Let_def age.case)
qed

end
